(* ===== verification/Aihi_Prelude.thy ===== *)
theory Aihi_Prelude
  imports "HOL-Library.AList"
begin

text \<open>
  The development's shared layer: the exceptions the program raises, the two effect types that
  the components are written in, Python dictionaries as association lists, and the lemma
  collections the component theories extend.

  A synchronous method that may raise is a function of type \<open>('s, 'a) sm\<close>: it takes the state and
  returns either an exception or a result, together with the state at that moment. State changes
  made before a \<^verbatim>\<open>raise\<close> persist, as they do in the program.
\<close>

named_theorems eff_simps \<open>unfolding of the effect combinators\<close>
named_theorems pres_intros \<open>preservation of a predicate by an effectful operation\<close>
named_theorems dict_simps \<open>dictionary lookups after updates and deletions\<close>

section \<open>Exceptions\<close>

text \<open>
  The exception classes the modelled code raises or distinguishes in an \<^verbatim>\<open>except\<close> clause,
  grouped as the class hierarchy groups them: \<^verbatim>\<open>AgentRuntimeError\<close> and its subclasses (the core
  ones, the hook bus's, the subagent coordinator's), \<^verbatim>\<open>ModelsError\<close> and its subclasses, and
  Python's own. \<open>OtherError\<close> is an exception class of code outside the repository (a provider, a
  tool, a hook handler).
\<close>

datatype core_exn =
    HarnessError | ConcurrencyConflict | EventConflict | EventInvariantViolation
  | ContextWindowExceeded | TurnLimitExceeded | SessionNotFound | ToolInputError | ToolNotFound
  | PermissionDenied | UnsafeHostNotAcknowledged | SandboxViolation | SandboxUnavailable
  | SandboxConfigurationError | LeaseConflict | LeaseNotFound | StoreUnavailable | ApiUnavailable
  | InvalidRunTransition

datatype hook_exn =
  HookError | HookRegistrationError | HookGovernanceError | HookDispatchError

datatype agent_exn =
    AgentError | AgentValidationError | AgentPermissionDenied | AgentBudgetExceeded
  | AgentDepthExceeded | AgentStateError | MailboxError | MailboxConflict

datatype models_exn =
    ModelsError | ProviderError | ProviderProtocolError | ProviderHTTPError
  | ProviderContextLengthError | ProviderTimeout

datatype py_exn =
    ValueError | TypeError | KeyError | OverflowError | TimeoutError | CancelledError
  | UnsupportedEventSchema | UnsupportedMessageSchema

datatype exn_class =
  Core core_exn | Hook hook_exn | Agent agent_exn | Models models_exn | Py py_exn
  | OtherError string

text \<open>
  \<open>Exn c m\<close> is an exception of class \<open>c\<close> whose \<^verbatim>\<open>str(error)\<close> is \<open>m\<close>; where the source
  formats a value with \<^verbatim>\<open>!r\<close> the text of that value is left out of \<open>m\<close>. \<open>RunSuspended\<close> is the
  coordinator's internal signal \<^verbatim>\<open>_RunSuspended\<close>, with the approval id and the pending calls.
\<close>

datatype exn = Exn exn_class string | RunSuspended string "string list"

primrec core_error_code :: "core_exn \<Rightarrow> string" where
  "core_error_code HarnessError = ''harness_error''"
| "core_error_code ConcurrencyConflict = ''session_concurrency_conflict''"
| "core_error_code EventConflict = ''event_conflict''"
| "core_error_code EventInvariantViolation = ''event_invariant_violation''"
| "core_error_code ContextWindowExceeded = ''context_window_exceeded''"
| "core_error_code TurnLimitExceeded = ''turn_limit_exceeded''"
| "core_error_code SessionNotFound = ''session_not_found''"
| "core_error_code ToolInputError = ''tool_input_invalid''"
| "core_error_code ToolNotFound = ''tool_not_found''"
| "core_error_code PermissionDenied = ''permission_denied''"
| "core_error_code UnsafeHostNotAcknowledged = ''unsafe_host_not_acknowledged''"
| "core_error_code SandboxViolation = ''sandbox_violation''"
| "core_error_code SandboxUnavailable = ''sandbox_unavailable''"
| "core_error_code SandboxConfigurationError = ''sandbox_configuration_error''"
| "core_error_code LeaseConflict = ''run_lease_conflict''"
| "core_error_code LeaseNotFound = ''run_lease_not_found''"
| "core_error_code StoreUnavailable = ''store_unavailable''"
| "core_error_code ApiUnavailable = ''api_unavailable''"
| "core_error_code InvalidRunTransition = ''invalid_run_transition''"

primrec hook_error_code :: "hook_exn \<Rightarrow> string" where
  "hook_error_code HookError = ''hook_error''"
| "hook_error_code HookRegistrationError = ''hook_registration_invalid''"
| "hook_error_code HookGovernanceError = ''hook_governance_required''"
| "hook_error_code HookDispatchError = ''hook_dispatch_failed''"

primrec agent_error_code :: "agent_exn \<Rightarrow> string" where
  "agent_error_code AgentError = ''agent_error''"
| "agent_error_code AgentValidationError = ''agent_validation_error''"
| "agent_error_code AgentPermissionDenied = ''agent_permission_denied''"
| "agent_error_code AgentBudgetExceeded = ''agent_budget_exceeded''"
| "agent_error_code AgentDepthExceeded = ''agent_depth_exceeded''"
| "agent_error_code AgentStateError = ''agent_state_error''"
| "agent_error_code MailboxError = ''mailbox_error''"
| "agent_error_code MailboxConflict = ''mailbox_conflict''"

primrec models_error_code :: "models_exn \<Rightarrow> string" where
  "models_error_code ModelsError = ''models_error''"
| "models_error_code ProviderError = ''provider_failure''"
| "models_error_code ProviderProtocolError = ''provider_protocol_error''"
| "models_error_code ProviderHTTPError = ''provider_http_error''"
| "models_error_code ProviderContextLengthError = ''provider_context_length''"
| "models_error_code ProviderTimeout = ''provider_timeout''"

text \<open>
  \<^verbatim>\<open>error.code\<close> where the class has one; \<open>None\<close> where reading it would fail, so that
  \<^verbatim>\<open>getattr(error, "code", default)\<close> falls back.
\<close>

fun exn_code :: "exn \<Rightarrow> string option" where
  "exn_code (Exn (Core c) _) = Some (core_error_code c)"
| "exn_code (Exn (Hook c) _) = Some (hook_error_code c)"
| "exn_code (Exn (Agent c) _) = Some (agent_error_code c)"
| "exn_code (Exn (Models c) _) = Some (models_error_code c)"
| "exn_code _ = None"

text \<open>\<^verbatim>\<open>isinstance(error, AgentRuntimeError)\<close>, with the code that class guarantees.\<close>

fun agent_runtime_code :: "exn \<Rightarrow> string option" where
  "agent_runtime_code (Exn (Core c) _) = Some (core_error_code c)"
| "agent_runtime_code (Exn (Hook c) _) = Some (hook_error_code c)"
| "agent_runtime_code (Exn (Agent c) _) = Some (agent_error_code c)"
| "agent_runtime_code _ = None"

text \<open>\<^verbatim>\<open>asyncio.CancelledError\<close> is a \<^verbatim>\<open>BaseException\<close>: \<^verbatim>\<open>except Exception\<close> lets it pass.\<close>

definition is_cancelled :: "exn \<Rightarrow> bool" where
  "is_cancelled e \<longleftrightarrow> (case e of Exn c _ \<Rightarrow> c = Py CancelledError | RunSuspended _ _ \<Rightarrow> False)"

definition is_timeout :: "exn \<Rightarrow> bool" where
  "is_timeout e \<longleftrightarrow> (case e of Exn c _ \<Rightarrow> c = Py TimeoutError | RunSuspended _ _ \<Rightarrow> False)"

fun exn_text :: "exn \<Rightarrow> string" where
  "exn_text (Exn _ m) = m"
| "exn_text (RunSuspended a _) = ''Run suspended waiting for approval '' @ a"

section \<open>Synchronous effects\<close>

type_synonym ('s, 'a) sm = "'s \<Rightarrow> (exn + 'a) \<times> 's"

definition retE :: "'a \<Rightarrow> ('s, 'a) sm" where
  "retE x = (\<lambda>s. (Inr x, s))"

definition raiseE :: "exn \<Rightarrow> ('s, 'a) sm" where
  "raiseE e = (\<lambda>s. (Inl e, s))"

definition bindE :: "('s, 'a) sm \<Rightarrow> ('a \<Rightarrow> ('s, 'b) sm) \<Rightarrow> ('s, 'b) sm" where
  "bindE m f = (\<lambda>s. case m s of (Inl e, s') \<Rightarrow> (Inl e, s') | (Inr x, s') \<Rightarrow> f x s')"

definition thenE :: "('s, 'a) sm \<Rightarrow> ('s, 'b) sm \<Rightarrow> ('s, 'b) sm" where
  "thenE m n = bindE m (\<lambda>_. n)"

definition getE :: "('s, 's) sm" where
  "getE = (\<lambda>s. (Inr s, s))"

definition putE :: "'s \<Rightarrow> ('s, unit) sm" where
  "putE s = (\<lambda>_. (Inr (), s))"

definition modifyE :: "('s \<Rightarrow> 's) \<Rightarrow> ('s, unit) sm" where
  "modifyE f = (\<lambda>s. (Inr (), f s))"

definition assertE :: "bool \<Rightarrow> exn \<Rightarrow> ('s, unit) sm" where
  "assertE b e = (if b then retE () else raiseE e)"

definition whenE :: "bool \<Rightarrow> ('s, unit) sm \<Rightarrow> ('s, unit) sm" where
  "whenE b m = (if b then m else retE ())"

definition liftE :: "exn + 'a \<Rightarrow> ('s, 'a) sm" where
  "liftE r = (case r of Inl e \<Rightarrow> raiseE e | Inr x \<Rightarrow> retE x)"

fun mapE :: "('a \<Rightarrow> ('s, 'b) sm) \<Rightarrow> 'a list \<Rightarrow> ('s, 'b list) sm" where
  "mapE f [] = retE []"
| "mapE f (x # xs) = bindE (f x) (\<lambda>y. bindE (mapE f xs) (\<lambda>ys. retE (y # ys)))"

text \<open>\<^verbatim>\<open>any(test(x) for x in xs)\<close>, the first such \<open>x\<close>, and all such \<open>x\<close>, where the test has effects.\<close>

fun anyE :: "('a \<Rightarrow> ('s, bool) sm) \<Rightarrow> 'a list \<Rightarrow> ('s, bool) sm" where
  "anyE f [] = retE False"
| "anyE f (x # xs) = bindE (f x) (\<lambda>b. if b then retE True else anyE f xs)"

fun findE :: "('a \<Rightarrow> ('s, bool) sm) \<Rightarrow> 'a list \<Rightarrow> ('s, 'a option) sm" where
  "findE f [] = retE None"
| "findE f (x # xs) = bindE (f x) (\<lambda>b. if b then retE (Some x) else findE f xs)"

fun filterE :: "('a \<Rightarrow> ('s, bool) sm) \<Rightarrow> 'a list \<Rightarrow> ('s, 'a list) sm" where
  "filterE f [] = retE []"
| "filterE f (x # xs) =
     bindE (f x) (\<lambda>b. bindE (filterE f xs) (\<lambda>ys. retE (if b then x # ys else ys)))"

text \<open>\<^verbatim>\<open>a and b\<close> where the second operand has effects.\<close>

definition andE :: "bool \<Rightarrow> ('s, bool) sm \<Rightarrow> ('s, bool) sm" where
  "andE b m = (if b then m else retE False)"

definition catchE :: "('s, 'a) sm \<Rightarrow> (exn \<Rightarrow> ('s, 'a) sm) \<Rightarrow> ('s, 'a) sm" where
  "catchE m h = (\<lambda>s. case m s of (Inl e, s') \<Rightarrow> h e s' | (Inr x, s') \<Rightarrow> (Inr x, s'))"

lemmas eff_defs = retE_def raiseE_def bindE_def thenE_def getE_def putE_def modifyE_def
  assertE_def whenE_def liftE_def catchE_def

declare eff_defs [eff_simps]

lemma bindE_Inr: "m s = (Inr x, s') \<Longrightarrow> bindE m f s = f x s'"
  by (simp add: bindE_def)

lemma bindE_Inl: "m s = (Inl e, s') \<Longrightarrow> bindE m f s = (Inl e, s')"
  by (simp add: bindE_def)

lemma bindE_eq_Inr:
  "bindE m f s = (Inr y, t) \<longleftrightarrow> (\<exists>x s'. m s = (Inr x, s') \<and> f x s' = (Inr y, t))"
  by (auto simp: bindE_def split: prod.splits sum.splits)

lemma bindE_retE [simp]: "bindE (retE x) f = f x"
  by (simp add: bindE_def retE_def)

lemma bindE_ret_right [simp]: "bindE m retE = m" "bindE m (\<lambda>x. retE x) = m"
  by (simp_all add: bindE_def retE_def fun_eq_iff split: prod.split sum.split)

lemma bindE_assoc: "bindE (bindE m f) g = bindE m (\<lambda>x. bindE (f x) g)"
  by (rule ext) (simp add: bindE_def split: prod.split sum.split)

text \<open>Pure computations that may raise: the sum type on its own.\<close>

definition bindR :: "exn + 'a \<Rightarrow> ('a \<Rightarrow> exn + 'b) \<Rightarrow> exn + 'b" where
  "bindR r f = (case r of Inl e \<Rightarrow> Inl e | Inr x \<Rightarrow> f x)"

fun mapR :: "('a \<Rightarrow> exn + 'b) \<Rightarrow> 'a list \<Rightarrow> exn + 'b list" where
  "mapR f [] = Inr []"
| "mapR f (x # xs) = bindR (f x) (\<lambda>y. bindR (mapR f xs) (\<lambda>ys. Inr (y # ys)))"

fun foldR :: "('b \<Rightarrow> 'a \<Rightarrow> exn + 'b) \<Rightarrow> 'b \<Rightarrow> 'a list \<Rightarrow> exn + 'b" where
  "foldR f b [] = Inr b"
| "foldR f b (x # xs) = bindR (f b x) (\<lambda>b'. foldR f b' xs)"

lemma bindR_simps [simp]:
  "bindR (Inl e) f = Inl e" "bindR (Inr x) f = f x"
  by (simp_all add: bindR_def)

lemma bindR_Inr_iff: "bindR r f = Inr y \<longleftrightarrow> (\<exists>x. r = Inr x \<and> f x = Inr y)"
  by (cases r) auto

lemma mapR_Inr_length: "mapR f xs = Inr ys \<Longrightarrow> length ys = length xs"
  by (induction xs arbitrary: ys) (auto simp: bindR_Inr_iff)

lemma mapR_all_Inr: "(\<And>x. x \<in> set xs \<Longrightarrow> f x = Inr (g x)) \<Longrightarrow> mapR f xs = Inr (map g xs)"
  by (induction xs) auto

lemma foldR_append: "foldR f b (xs @ ys) = bindR (foldR f b xs) (\<lambda>b'. foldR f b' ys)"
proof (induction xs arbitrary: b)
  case (Cons x xs)
  then show ?case by (cases "f b x") auto
qed simp

lemma foldR_snoc: "foldR f b (xs @ [x]) = bindR (foldR f b xs) (\<lambda>b'. f b' x)"
  by (simp add: foldR_append) (cases "foldR f b xs"; cases "f (projr (foldR f b xs)) x"; auto)

lemma foldR_invariant:
  assumes "foldR f b xs = Inr b'" and "P b"
    and "\<And>b x b'. P b \<Longrightarrow> x \<in> set xs \<Longrightarrow> f b x = Inr b' \<Longrightarrow> P b'"
  shows "P b'"
  using assms
proof (induction xs arbitrary: b)
  case (Cons x xs)
  from Cons.prems(1) obtain c where c: "f b x = Inr c" "foldR f c xs = Inr b'"
    by (auto simp: bindR_Inr_iff)
  with Cons.prems(2,3) have "P c" by auto
  with c(2) Cons.prems(3) show ?case by (intro Cons.IH) auto
qed simp

section \<open>Preservation of predicates and of step relations\<close>

text \<open>
  \<open>preserves P m\<close>: whatever \<open>m\<close> does, normally or by raising, \<open>P\<close> holds afterwards if it held
  before. \<open>advances R m\<close>: the state before and the state after are related by \<open>R\<close>.
\<close>

definition preserves :: "('s \<Rightarrow> bool) \<Rightarrow> ('s, 'a) sm \<Rightarrow> bool" where
  "preserves P m \<longleftrightarrow> (\<forall>s. P s \<longrightarrow> P (snd (m s)))"

definition advances :: "('s \<Rightarrow> 's \<Rightarrow> bool) \<Rightarrow> ('s, 'a) sm \<Rightarrow> bool" where
  "advances R m \<longleftrightarrow> (\<forall>s. R s (snd (m s)))"

lemma preservesD: "preserves P m \<Longrightarrow> P s \<Longrightarrow> m s = (r, s') \<Longrightarrow> P s'"
  by (metis preserves_def snd_conv)

lemma advancesD: "advances R m \<Longrightarrow> m s = (r, s') \<Longrightarrow> R s s'"
  by (metis advances_def snd_conv)

lemma preserves_basic [pres_intros]:
  "preserves P (retE x)" "preserves P (raiseE e)" "preserves P getE" "preserves P (liftE r)"
  "preserves P (assertE b e)"
  by (auto simp: preserves_def eff_simps split: sum.splits)

lemma preserves_bindE [pres_intros]:
  "preserves P m \<Longrightarrow> (\<And>x. preserves P (f x)) \<Longrightarrow> preserves P (bindE m f)"
  by (fastforce simp: preserves_def bindE_def split: prod.splits sum.splits)

lemma preserves_thenE [pres_intros]:
  "preserves P m \<Longrightarrow> preserves P n \<Longrightarrow> preserves P (thenE m n)"
  by (simp add: thenE_def preserves_bindE)

lemma preserves_whenE [pres_intros]: "preserves P m \<Longrightarrow> preserves P (whenE b m)"
  by (simp add: whenE_def preserves_basic)

lemma preserves_catchE [pres_intros]:
  "preserves P m \<Longrightarrow> (\<And>e. preserves P (h e)) \<Longrightarrow> preserves P (catchE m h)"
  by (fastforce simp: preserves_def catchE_def split: prod.splits sum.splits)

lemma preserves_mapE [pres_intros]:
  "(\<And>x. x \<in> set xs \<Longrightarrow> preserves P (f x)) \<Longrightarrow> preserves P (mapE f xs)"
  by (induction xs) (auto intro!: pres_intros)

lemma preserves_andE [pres_intros]: "preserves P m \<Longrightarrow> preserves P (andE b m)"
  by (simp add: andE_def preserves_basic)

lemma preserves_searches [pres_intros]:
  assumes "\<And>x. x \<in> set xs \<Longrightarrow> preserves P (f x)"
  shows "preserves P (anyE f xs)" "preserves P (findE f xs)" "preserves P (filterE f xs)"
  using assms by (induction xs) (auto intro!: pres_intros)

lemma preserves_modifyE [pres_intros]: "(\<And>s. P s \<Longrightarrow> P (f s)) \<Longrightarrow> preserves P (modifyE f)"
  by (simp add: preserves_def modifyE_def)

text \<open>
  A reflexive and transitive relation on states that every primitive step respects is respected
  by every program built from them. The locale states the two laws once; each log order of the
  components is an interpretation of it.
\<close>

locale step_order =
  fixes R :: "'s \<Rightarrow> 's \<Rightarrow> bool"
  assumes step_refl: "R s s"
    and step_trans: "R s t \<Longrightarrow> R t u \<Longrightarrow> R s u"
begin

lemma advances_retE: "advances R (retE x)"
  by (simp add: advances_def eff_simps step_refl)

lemma advances_raiseE: "advances R (raiseE e)"
  by (simp add: advances_def eff_simps step_refl)

lemma advances_getE: "advances R getE"
  by (simp add: advances_def eff_simps step_refl)

lemma advances_liftE: "advances R (liftE r)"
  by (auto simp: advances_def eff_simps step_refl split: sum.splits)

lemma advances_assertE: "advances R (assertE b e)"
  by (auto simp: advances_def eff_simps step_refl)

lemma advances_bindE:
  assumes "advances R m" and "\<And>x. advances R (f x)"
  shows "advances R (bindE m f)"
proof (unfold advances_def, rule allI)
  fix s
  obtain r s' where m: "m s = (r, s')" by (cases "m s")
  with assms(1) have "R s s'" by (metis advancesD)
  moreover have "R s' (snd (f x s'))" for x using assms(2) by (simp add: advances_def)
  ultimately show "R s (snd (bindE m f s))"
    by (auto simp: bindE_def m split: sum.splits intro: step_trans)
qed

lemma advances_thenE: "advances R m \<Longrightarrow> advances R n \<Longrightarrow> advances R (thenE m n)"
  by (simp add: thenE_def advances_bindE)

lemma advances_whenE: "advances R m \<Longrightarrow> advances R (whenE b m)"
  by (simp add: whenE_def advances_retE)

lemma advances_catchE:
  assumes "advances R m" and "\<And>e. advances R (h e)"
  shows "advances R (catchE m h)"
proof (unfold advances_def, rule allI)
  fix s
  obtain r s' where m: "m s = (r, s')" by (cases "m s")
  with assms(1) have "R s s'" by (metis advancesD)
  moreover have "R s' (snd (h e s'))" for e using assms(2) by (simp add: advances_def)
  ultimately show "R s (snd (catchE m h s))"
    by (auto simp: catchE_def m split: sum.splits intro: step_trans)
qed

lemma advances_mapE: "(\<And>x. x \<in> set xs \<Longrightarrow> advances R (f x)) \<Longrightarrow> advances R (mapE f xs)"
  by (induction xs) (auto intro!: advances_bindE advances_retE)

lemma advances_searches:
  assumes "\<And>x. x \<in> set xs \<Longrightarrow> advances R (f x)"
  shows "advances R (anyE f xs)" "advances R (findE f xs)" "advances R (filterE f xs)"
  using assms by (induction xs) (auto intro!: advances_bindE advances_retE)

lemma advances_andE: "advances R m \<Longrightarrow> advances R (andE b m)"
  by (simp add: andE_def advances_retE)

lemmas advances_rules = advances_andE advances_searches advances_retE advances_raiseE advances_getE advances_liftE
  advances_assertE advances_bindE advances_thenE advances_whenE advances_catchE advances_mapE

end

section \<open>Dictionaries\<close>

text \<open>
  A Python dict keeps its insertion order and replaces a value in place, which is what
  \<open>AList.update\<close> does; \<^verbatim>\<open>pop(key, None)\<close> is \<open>AList.delete\<close>, \<^verbatim>\<open>get(key)\<close> is \<open>map_of\<close>.
\<close>

type_synonym ('k, 'v) dict = "('k \<times> 'v) list"

abbreviation dict_get :: "('k, 'v) dict \<Rightarrow> 'k \<Rightarrow> 'v option" where
  "dict_get d k \<equiv> map_of d k"

abbreviation dict_set :: "'k \<Rightarrow> 'v \<Rightarrow> ('k, 'v) dict \<Rightarrow> ('k, 'v) dict" where
  "dict_set k v d \<equiv> AList.update k v d"

abbreviation dict_pop :: "'k \<Rightarrow> ('k, 'v) dict \<Rightarrow> ('k, 'v) dict" where
  "dict_pop k d \<equiv> AList.delete k d"

definition dict_wf :: "('k, 'v) dict \<Rightarrow> bool" where
  "dict_wf d \<longleftrightarrow> distinct (map fst d)"

lemma dict_get_set [simp, dict_simps]: "dict_get (dict_set k v d) k' = (if k = k' then Some v else dict_get d k')"
  by (simp add: update_conv')

lemma dict_get_pop [simp, dict_simps]: "dict_get (dict_pop k d) k' = (if k = k' then None else dict_get d k')"
  by (simp add: delete_conv')

lemma dict_keys_set [simp]: "fst ` set (dict_set k v d) = insert k (fst ` set d)"
  by (simp add: dom_update)

lemma dict_keys_pop [simp]: "fst ` set (dict_pop k d) = fst ` set d - {k}"
  by (induction d) auto

lemma dict_set_new: "dict_get d k = None \<Longrightarrow> dict_set k v d = d @ [(k, v)]"
  by (induction d) (auto split: if_splits)

lemma dict_pop_filter: "dict_pop k d = filter (\<lambda>p. fst p \<noteq> k) d"
  by (induction d) auto

lemma dict_wf_Nil [simp]: "dict_wf []"
  by (simp add: dict_wf_def)

lemma dict_wf_set [simp]: "dict_wf d \<Longrightarrow> dict_wf (dict_set k v d)"
  unfolding dict_wf_def by (rule distinct_update)

lemma dict_wf_pop [simp]: "dict_wf d \<Longrightarrow> dict_wf (dict_pop k d)"
  unfolding dict_wf_def by (rule distinct_delete)

lemma dict_get_None: "dict_get d k = None \<longleftrightarrow> k \<notin> fst ` set d"
  by (rule map_of_eq_None_iff)

lemma dict_get_mem: "dict_get d k = Some v \<Longrightarrow> (k, v) \<in> set d"
  by (rule map_of_SomeD)

lemma dict_get_iff: "dict_wf d \<Longrightarrow> (k, v) \<in> set d \<longleftrightarrow> dict_get d k = Some v"
  by (simp add: dict_wf_def)

lemma dict_values_set:
  "dict_wf d \<Longrightarrow> set (dict_set k v d) = insert (k, v) {p \<in> set d. fst p \<noteq> k}"
proof -
  assume wf: "dict_wf d"
  then have "p \<in> set (dict_set k v d) \<longleftrightarrow> p \<in> insert (k, v) {p \<in> set d. fst p \<noteq> k}" for p
    by (cases p) (auto simp: dict_get_iff dict_wf_set simp flip: update_conv')
  then show ?thesis by blast
qed

lemma set_dict_pop: "set (dict_pop k d) = {p \<in> set d. fst p \<noteq> k}"
  by (induction d) auto

text \<open>Dictionary display with keyword expansion: \<^verbatim>\<open>{**a, **b}\<close>.\<close>

definition dict_merge :: "('k, 'v) dict \<Rightarrow> ('k, 'v) dict \<Rightarrow> ('k, 'v) dict" where
  "dict_merge a b = foldl (\<lambda>d p. dict_set (fst p) (snd p) d) a b"

lemma dict_get_merge: "dict_wf b \<Longrightarrow>
  dict_get (dict_merge a b) k = (case dict_get b k of None \<Rightarrow> dict_get a k | Some v \<Rightarrow> Some v)"
proof (induction b arbitrary: a)
  case Nil
  then show ?case by (simp add: dict_merge_def)
next
  case (Cons p b)
  obtain k' v' where p: "p = (k', v')" by (cases p)
  from Cons.prems have wf: "dict_wf b" and fresh: "dict_get b k' = None"
    by (auto simp: dict_wf_def p dict_get_None)
  have "dict_get (dict_merge a (p # b)) k = dict_get (dict_merge (dict_set k' v' a) b) k"
    by (simp add: dict_merge_def p)
  with Cons.IH [OF wf] fresh show ?case by (auto simp: p split: option.splits)
qed

section \<open>Lists\<close>

text \<open>The first element satisfying a test, as a \<^verbatim>\<open>for\<close> loop that returns from its body.\<close>

fun find_first :: "('a \<Rightarrow> bool) \<Rightarrow> 'a list \<Rightarrow> 'a option" where
  "find_first p [] = None"
| "find_first p (x # xs) = (if p x then Some x else find_first p xs)"

lemma find_first_Some: "find_first p xs = Some x \<Longrightarrow> x \<in> set xs \<and> p x"
  by (induction xs) (auto split: if_splits)

lemma find_first_None: "find_first p xs = None \<longleftrightarrow> (\<forall>x \<in> set xs. \<not> p x)"
  by (induction xs) auto

lemma find_first_append:
  "find_first p (xs @ ys) = (case find_first p xs of None \<Rightarrow> find_first p ys | Some x \<Rightarrow> Some x)"
  by (induction xs) auto

lemma find_first_cong: "(\<And>x. x \<in> set xs \<Longrightarrow> p x = q x) \<Longrightarrow> find_first p xs = find_first q xs"
  by (induction xs) auto

lemma find_first_filter: "find_first p xs = (case filter p xs of [] \<Rightarrow> None | x # _ \<Rightarrow> Some x)"
  by (induction xs) auto

text \<open>Python's \<^verbatim>\<open>enumerate(xs, start=1)\<close>.\<close>

definition enumerate_from :: "int \<Rightarrow> 'a list \<Rightarrow> (int \<times> 'a) list" where
  "enumerate_from i xs = zip (map (\<lambda>n. i + int n) [0..<length xs]) xs"

lemma length_enumerate_from [simp]: "length (enumerate_from i xs) = length xs"
  by (simp add: enumerate_from_def)

lemma enumerate_from_Nil [simp]: "enumerate_from i [] = []"
  by (simp add: enumerate_from_def)

lemma enumerate_from_Cons [simp]: "enumerate_from i (x # xs) = (i, x) # enumerate_from (i + 1) xs"
proof -
  have "map (\<lambda>n. i + int n) [0..<length (x # xs)]
      = i # map (\<lambda>n. (i + 1) + int n) [0..<length xs]"
    by (simp add: upt_conv_Cons map_Suc_upt [symmetric] del: upt_Suc)
  then show ?thesis by (simp add: enumerate_from_def del: upt_Suc)
qed

lemma map_snd_enumerate_from [simp]: "map snd (enumerate_from i xs) = xs"
  by (simp add: enumerate_from_def)

text \<open>Text built from parts: \<^verbatim>\<open>sep.join(parts)\<close>.\<close>

fun join :: "string \<Rightarrow> string list \<Rightarrow> string" where
  "join sep [] = ''''"
| "join sep [x] = x"
| "join sep (x # xs) = x @ sep @ join sep xs"

end
