(* ===== verification/Py_Values.thy ===== *)
theory Py_Values
  imports Complex_Main Aihi_Prelude
begin

text \<open>
  The Python values that travel through events, tool inputs and messages: JSON values plus what a
  dict may hold that JSON cannot (non-finite floats, foreign objects). Also the text helpers of the
  standard library that the program uses on them: decimal and hexadecimal formatting, \<^verbatim>\<open>str\<close>,
  \<^verbatim>\<open>bool\<close>, \<^verbatim>\<open>==\<close>.
\<close>

section \<open>Numbers as text\<close>

definition digit_char :: "nat \<Rightarrow> char" where
  "digit_char n = char_of (48 + n)"

definition char_digit :: "char \<Rightarrow> nat option" where
  "char_digit c = (let k = of_char c :: nat in if 48 \<le> k \<and> k \<le> 57 then Some (k - 48) else None)"

lemma char_digit_digit [simp]: "n < 10 \<Longrightarrow> char_digit (digit_char n) = Some n"
  by (simp add: char_digit_def digit_char_def)

fun show_nat :: "nat \<Rightarrow> string" where
  "show_nat n = (if n < 10 then [digit_char n] else show_nat (n div 10) @ [digit_char (n mod 10)])"

declare show_nat.simps [simp del]

definition show_int :: "int \<Rightarrow> string" where
  "show_int i = (if i < 0 then CHR ''-'' # show_nat (nat (- i)) else show_nat (nat i))"

text \<open>Zero-padded decimal fields of a fixed width, as \<^verbatim>\<open>%02d\<close>.\<close>

primrec pad_nat :: "nat \<Rightarrow> nat \<Rightarrow> string" where
  "pad_nat 0 n = []"
| "pad_nat (Suc w) n = pad_nat w (n div 10) @ [digit_char (n mod 10)]"

definition parse_digit :: "nat option \<Rightarrow> char \<Rightarrow> nat option" where
  "parse_digit acc c =
     (case acc of None \<Rightarrow> None
      | Some a \<Rightarrow> (case char_digit c of None \<Rightarrow> None | Some d \<Rightarrow> Some (10 * a + d)))"

definition parse_nat :: "string \<Rightarrow> nat option" where
  "parse_nat s = (if s = [] then None else foldl parse_digit (Some 0) s)"

lemma parse_digit_char [simp]: "n < 10 \<Longrightarrow> parse_digit (Some a) (digit_char n) = Some (10 * a + n)"
  by (simp add: parse_digit_def)

lemma length_pad_nat [simp]: "length (pad_nat w n) = w"
  by (induction w arbitrary: n) auto

lemma foldl_parse_pad: "n < 10 ^ w \<Longrightarrow> foldl parse_digit (Some a) (pad_nat w n) = Some (a * 10 ^ w + n)"
proof (induction w arbitrary: n)
  case (Suc w)
  then have "n div 10 < 10 ^ w" by (simp add: less_mult_imp_div_less mult.commute)
  then have "foldl parse_digit (Some a) (pad_nat w (n div 10)) = Some (a * 10 ^ w + n div 10)"
    by (rule Suc.IH)
  then show ?case by (simp add: algebra_simps)
qed simp

lemma parse_pad_nat: "0 < w \<Longrightarrow> n < 10 ^ w \<Longrightarrow> parse_nat (pad_nat w n) = Some n"
  by (cases "pad_nat w n = []") (auto simp: parse_nat_def foldl_parse_pad dest: arg_cong [where f = length])

text \<open>Lower-case hexadecimal of a fixed minimal width, as \<^verbatim>\<open>f"{n:016x}"\<close>.\<close>

definition hex_char :: "nat \<Rightarrow> char" where
  "hex_char n = (if n < 10 then char_of (48 + n) else char_of (87 + n))"

fun hex_nat :: "nat \<Rightarrow> string" where
  "hex_nat n = (if n < 16 then [hex_char n] else hex_nat (n div 16) @ [hex_char (n mod 16)])"

declare hex_nat.simps [simp del]

definition hex_pad :: "nat \<Rightarrow> nat \<Rightarrow> string" where
  "hex_pad w n = (let h = hex_nat n in replicate (w - length h) (CHR ''0'') @ h)"

definition unhex :: "string \<Rightarrow> nat" where
  "unhex s = foldl (\<lambda>a c. 16 * a + (if of_char c < (58 :: nat) then of_char c - 48 else of_char c - 87)) 0 s"

lemma of_hex_char:
  "n < 16 \<Longrightarrow> (if of_char (hex_char n) < (58 :: nat) then of_char (hex_char n) - 48
    else of_char (hex_char n) - 87) = n"
  by (auto simp: hex_char_def)

lemma unhex_snoc: "n < 16 \<Longrightarrow> unhex (s @ [hex_char n]) = 16 * unhex s + n"
  using of_hex_char [of n] by (simp add: unhex_def)

lemma unhex_hex_nat: "unhex (hex_nat n) = n"
proof (induction n rule: hex_nat.induct)
  case (1 n)
  show ?case
  proof (cases "n < 16")
    case True
    then show ?thesis using unhex_snoc [of n "[]"] by (simp add: hex_nat.simps [of n] unhex_def)
  next
    case False
    then show ?thesis using 1 by (simp add: hex_nat.simps [of n] unhex_snoc)
  qed
qed

lemma unhex_zeros: "unhex (replicate k (CHR ''0'') @ s) = unhex s"
  by (induction k) (simp_all add: unhex_def)

lemma unhex_hex_pad: "unhex (hex_pad w n) = n"
  by (simp add: hex_pad_def Let_def unhex_zeros unhex_hex_nat)

lemma hex_pad_inject: "hex_pad w m = hex_pad w n \<Longrightarrow> m = n"
  by (metis unhex_hex_pad)

section \<open>Values\<close>

datatype jval =
    JNull | JBool bool | JInt int | JFloat rat | JNonFinite | JStr string
  | is_JArr: JArr "jval list" | is_JObj: JObj "(string \<times> jval) list" | JForeign nat

type_synonym jobj = "(string, jval) dict"

text \<open>
  \<^verbatim>\<open>json.dumps(value, allow_nan=False)\<close> succeeds. With string keys and lists the text reads back
  as the same value, so \<^verbatim>\<open>json.loads(json.dumps(v))\<close> is \<open>v\<close>.
\<close>

primrec json_ok :: "jval \<Rightarrow> bool" where
  "json_ok JNull = True"
| "json_ok (JBool b) = True"
| "json_ok (JInt i) = True"
| "json_ok (JFloat r) = True"
| "json_ok JNonFinite = False"
| "json_ok (JStr s) = True"
| "json_ok (JArr xs) = list_all id (map json_ok xs)"
| "json_ok (JObj kvs) = list_all snd (map (map_prod id json_ok) kvs)"
| "json_ok (JForeign n) = False"

definition json_ok_obj :: "jobj \<Rightarrow> bool" where
  "json_ok_obj d \<longleftrightarrow> (\<forall>p \<in> set d. json_ok (snd p))"

lemma json_ok_JObj [simp]: "json_ok (JObj d) = json_ok_obj d"
  by (auto simp: json_ok_obj_def list_all_iff)

lemma json_ok_JArr [simp]: "json_ok (JArr xs) = (\<forall>x \<in> set xs. json_ok x)"
  by (auto simp: list_all_iff)

lemma json_ok_obj_simps [simp]:
  "json_ok_obj []" "json_ok_obj ((k, v) # d) = (json_ok v \<and> json_ok_obj d)"
  by (auto simp: json_ok_obj_def)

lemma json_ok_obj_get: "json_ok_obj d \<Longrightarrow> dict_get d k = Some v \<Longrightarrow> json_ok v"
  unfolding json_ok_obj_def by (drule map_of_SomeD) auto

declare json_ok.simps(7,8) [simp del]

text \<open>\<^verbatim>\<open>bool(value)\<close>.\<close>

fun truthy :: "jval \<Rightarrow> bool" where
  "truthy JNull = False"
| "truthy (JBool b) = b"
| "truthy (JInt i) = (i \<noteq> 0)"
| "truthy (JFloat r) = (r \<noteq> 0)"
| "truthy JNonFinite = True"
| "truthy (JStr s) = (s \<noteq> [])"
| "truthy (JArr xs) = (xs \<noteq> [])"
| "truthy (JObj d) = (d \<noteq> [])"
| "truthy (JForeign n) = True"

text \<open>
  \<^verbatim>\<open>str(value)\<close>, exact on the scalars the events hold; the text of floats, containers and foreign
  objects is not modelled and stands as one fixed text.
\<close>

fun py_str :: "jval \<Rightarrow> string" where
  "py_str (JStr s) = s"
| "py_str (JInt i) = show_int i"
| "py_str (JBool b) = (if b then ''True'' else ''False'')"
| "py_str JNull = ''None''"
| "py_str _ = ''<object>''"

text \<open>\<^verbatim>\<open>==\<close>: numbers compare by value across types, dicts regardless of their order.\<close>

fun jnumber :: "jval \<Rightarrow> rat option" where
  "jnumber (JBool b) = Some (if b then 1 else 0)"
| "jnumber (JInt i) = Some (rat_of_int i)"
| "jnumber (JFloat r) = Some r"
| "jnumber _ = None"

primrec py_eq :: "jval \<Rightarrow> jval \<Rightarrow> bool" where
  "py_eq JNull w = (w = JNull)"
| "py_eq (JBool b) w = (jnumber w = jnumber (JBool b))"
| "py_eq (JInt i) w = (jnumber w = jnumber (JInt i))"
| "py_eq (JFloat r) w = (jnumber w = jnumber (JFloat r))"
| "py_eq JNonFinite w = False"
| "py_eq (JStr s) w = (w = JStr s)"
| "py_eq (JArr xs) w =
     (case w of JArr ys \<Rightarrow> list_all2 (\<lambda>f y. f y) (map py_eq xs) ys | _ \<Rightarrow> False)"
| "py_eq (JObj d) w =
     (case w of JObj e \<Rightarrow>
        length d = length e \<and>
        list_all (\<lambda>p. case dict_get e (fst p) of None \<Rightarrow> False | Some v \<Rightarrow> snd p v)
          (map (map_prod id py_eq) d)
      | _ \<Rightarrow> False)"
| "py_eq (JForeign n) w = (w = JForeign n)"

text \<open>\<open>jwf\<close>: every dict inside a value has each key once and every float is finite.\<close>

primrec jwf :: "jval \<Rightarrow> bool" where
  "jwf JNull = True"
| "jwf (JBool b) = True"
| "jwf (JInt i) = True"
| "jwf (JFloat r) = True"
| "jwf JNonFinite = False"
| "jwf (JStr s) = True"
| "jwf (JArr xs) = list_all id (map jwf xs)"
| "jwf (JObj d) = (distinct (map fst d) \<and> list_all snd (map (map_prod id jwf) d))"
| "jwf (JForeign n) = True"

lemma py_eq_refl: "jwf v \<Longrightarrow> py_eq v v"
proof (induction v)
  case (JArr xs)
  then have "\<forall>x \<in> set xs. py_eq x x" by (auto simp: list_all_iff)
  then show ?case by (simp add: list_all2_conv_all_nth)
next
  case (JObj d)
  have "case dict_get d (fst p) of None \<Rightarrow> False | Some v \<Rightarrow> py_eq (snd p) v" if p: "p \<in> set d" for p
  proof -
    from JObj.prems p have "dict_get d (fst p) = Some (snd p)" by (cases p) simp
    moreover have "py_eq (snd p) (snd p)"
      using JObj.IH [OF p, of "snd p"] JObj.prems p by (cases p) (auto simp: list_all_iff)
    ultimately show ?thesis by simp
  qed
  then have "\<forall>p \<in> set d. case dict_get d (fst p) of None \<Rightarrow> False | Some v \<Rightarrow> py_eq (snd p) v"
    by blast
  moreover have "snd (map_prod id py_eq p) = py_eq (snd p)" for p :: "string \<times> jval"
    by (cases p) simp
  ultimately show ?case by (simp add: list_all_iff cong: option.case_cong)
qed simp_all

text \<open>Reading fields: \<^verbatim>\<open>value.get(key)\<close> and \<^verbatim>\<open>value.get(key, default)\<close>.\<close>

definition get_or :: "jobj \<Rightarrow> string \<Rightarrow> jval \<Rightarrow> jval" where
  "get_or d k dflt = (case dict_get d k of None \<Rightarrow> dflt | Some v \<Rightarrow> v)"

abbreviation get_or_none :: "jobj \<Rightarrow> string \<Rightarrow> jval" where
  "get_or_none d k \<equiv> get_or d k JNull"

lemma get_or_Cons [simp]: "get_or ((k, v) # d) k' w = (if k = k' then v else get_or d k' w)"
  by (simp add: get_or_def)

lemma get_or_Nil [simp]: "get_or [] k w = w"
  by (simp add: get_or_def)

lemma get_or_set [simp]: "get_or (dict_set k v d) k' w = (if k = k' then v else get_or d k' w)"
  by (simp add: get_or_def)

lemma get_or_pop [simp]: "get_or (dict_pop k d) k' w = (if k = k' then w else get_or d k' w)"
  by (simp add: get_or_def)

text \<open>Optional strings: \<^verbatim>\<open>None\<close> or text.\<close>

fun jopt_str :: "string option \<Rightarrow> jval" where
  "jopt_str None = JNull"
| "jopt_str (Some s) = JStr s"

text \<open>\<^verbatim>\<open>str(x) if x is not None else None\<close>.\<close>

definition opt_str :: "jval \<Rightarrow> string option" where
  "opt_str v = (if v = JNull then None else Some (py_str v))"

lemma opt_str_jopt_str [simp]: "opt_str (jopt_str x) = x"
  by (cases x) (simp_all add: opt_str_def)

lemma opt_str_simps [simp]: "opt_str JNull = None" "opt_str (JStr s) = Some s"
  by (simp_all add: opt_str_def)

lemma json_ok_jopt_str [simp]: "json_ok (jopt_str x)"
  by (cases x) auto

definition jstrs :: "string list \<Rightarrow> jval" where
  "jstrs xs = JArr (map JStr xs)"

lemma json_ok_jstrs [simp]: "json_ok (jstrs xs)"
  by (auto simp: jstrs_def)

end
