(* ===== verification/Py_Datetime.thy ===== *)
theory Py_Datetime
  imports Py_Values
begin

text \<open>
  UTC instants as the program uses Python's \<^verbatim>\<open>datetime\<close>: microseconds since 1970-01-01, with
  \<^verbatim>\<open>isoformat()\<close> and \<^verbatim>\<open>datetime.fromisoformat\<close> on the texts that \<^verbatim>\<open>isoformat\<close> writes (an
  offset other than \<^verbatim>\<open>+00:00\<close> is rejected; a text without offset is read as UTC, as the callers
  do with \<^verbatim>\<open>replace(tzinfo=UTC)\<close>). The calendar is the proleptic Gregorian one, counted in
  400-year eras from 0000-03-01.
\<close>

type_synonym datetime = int

definition civil_of_era_day :: "int \<Rightarrow> int \<times> int" where
  "civil_of_era_day doe =
     (let c = min 3 (doe div 36524); doc = doe - c * 36524;
          q = doc div 1461; doq = doc - q * 1461;
          y = min 3 (doq div 365)
      in (100 * c + 4 * q + y, doq - 365 * y))"

definition civil_of_days :: "int \<Rightarrow> int \<times> int \<times> int" where
  "civil_of_days days =
     (let z = days + 719468; era = z div 146097; doe = z mod 146097;
          (yoe, doy) = civil_of_era_day doe;
          mp = (5 * doy + 2) div 153;
          d = doy - (153 * mp + 2) div 5 + 1;
          m = (if mp < 10 then mp + 3 else mp - 9)
      in (yoe + 400 * era + (if m \<le> 2 then 1 else 0), m, d))"

definition days_of_civil :: "int \<Rightarrow> int \<Rightarrow> int \<Rightarrow> int" where
  "days_of_civil y m d =
     (let y' = (if m \<le> 2 then y - 1 else y); era = y' div 400; yoe = y' mod 400;
          doy = (153 * (if m > 2 then m - 3 else m + 9) + 2) div 5 + d - 1
      in era * 146097 + (yoe * 365 + yoe div 4 - yoe div 100 + doy) - 719468)"

lemma civil_of_era_day:
  assumes "0 \<le> doe" and "doe < 146097" and "civil_of_era_day doe = (yoe, doy)"
  shows "0 \<le> yoe" "yoe < 400" "0 \<le> doy" "doy \<le> 365"
    and "yoe * 365 + yoe div 4 - yoe div 100 + doy = doe"
proof -
  define c doc q doq y where "c = min 3 (doe div 36524)" and "doc = doe - c * 36524"
    and "q = doc div 1461" and "doq = doc - q * 1461" and "y = min 3 (doq div 365)"
  have eqs: "yoe = 100 * c + 4 * q + y" "doy = doq - 365 * y"
    using assms(3) by (simp_all add: civil_of_era_day_def Let_def c_def doc_def q_def doq_def y_def)
  have c: "0 \<le> c" "c \<le> 3" and doc: "0 \<le> doc" "doc \<le> 36524"
    using assms(1,2) unfolding c_def doc_def by (auto simp: min_def)
  have q: "0 \<le> q" "q \<le> 24" and doq: "0 \<le> doq" "doq \<le> 1460"
    using doc unfolding q_def doq_def by auto
  have y: "0 \<le> y" "y \<le> 3" and doy: "0 \<le> doq - 365 * y" "doq - 365 * y \<le> 365"
    using doq unfolding y_def by (auto simp: min_def)
  show "0 \<le> yoe" "yoe < 400" "0 \<le> doy" "doy \<le> 365"
    using eqs c q y doy by auto
  have "yoe div 4 = 25 * c + q" and "yoe div 100 = c"
    using eqs(1) q y by auto
  then show "yoe * 365 + yoe div 4 - yoe div 100 + doy = doe"
    using eqs unfolding doq_def doc_def by auto
qed

lemma days_of_civil_of_days:
  assumes "civil_of_days days = (y, m, d)"
  shows "days_of_civil y m d = days"
proof -
  define z era doe where "z = days + 719468" and "era = z div 146097" and "doe = z mod 146097"
  obtain yoe doy where yd: "civil_of_era_day doe = (yoe, doy)" by (cases "civil_of_era_day doe")
  define mp where "mp = (5 * doy + 2) div 153"
  have doe: "0 \<le> doe" "doe < 146097" by (simp_all add: doe_def)
  note era_day = civil_of_era_day [OF doe yd]
  have mp: "0 \<le> mp" "mp \<le> 11" using era_day(3,4) unfolding mp_def by auto
  have m: "m = (if mp < 10 then mp + 3 else mp - 9)"
    and d: "d = doy - (153 * mp + 2) div 5 + 1"
    and y: "y = yoe + 400 * era + (if m \<le> 2 then 1 else 0)"
    using assms yd by (auto simp: civil_of_days_def Let_def z_def era_def doe_def mp_def)
  have "(if m > 2 then m - 3 else m + 9) = mp" using m mp by auto
  moreover have "(if m \<le> 2 then y - 1 else y) = yoe + 400 * era" using y by auto
  moreover have "(yoe + 400 * era) div 400 = era" "(yoe + 400 * era) mod 400 = yoe"
    using era_day(1,2) by auto
  ultimately have "days_of_civil y m d
      = era * 146097 + (yoe * 365 + yoe div 4 - yoe div 100 + doy) - 719468"
    using d by (simp add: days_of_civil_def Let_def)
  also have "\<dots> = era * 146097 + doe - 719468" using era_day(5) by simp
  also have "\<dots> = days" by (simp add: era_def doe_def z_def)
  finally show ?thesis .
qed

abbreviation day_us :: int where "day_us \<equiv> 86400000000"

text \<open>The years that \<^verbatim>\<open>datetime\<close> can hold are 1 to 9999.\<close>

definition dt_valid :: "datetime \<Rightarrow> bool" where
  "dt_valid t \<longleftrightarrow> (case civil_of_days (t div day_us) of (y, _, _) \<Rightarrow> 1 \<le> y \<and> y \<le> 9999)"

definition isoformat :: "datetime \<Rightarrow> string" where
  "isoformat t =
     (case civil_of_days (t div day_us) of (y, m, d) \<Rightarrow>
        let r = nat (t mod day_us); us = r mod 1000000; secs = r div 1000000
        in pad_nat 4 (nat y) @ ''-'' @ pad_nat 2 (nat m) @ ''-'' @ pad_nat 2 (nat d) @ ''T''
           @ pad_nat 2 (secs div 3600) @ '':'' @ pad_nat 2 (secs div 60 mod 60) @ '':''
           @ pad_nat 2 (secs mod 60)
           @ (if us = 0 then [] else ''.'' @ pad_nat 6 us) @ ''+00:00'')"

definition parse_fraction :: "string \<Rightarrow> nat option" where
  "parse_fraction s =
     (let body = (if length s \<ge> 6 \<and> drop (length s - 6) s = ''+00:00''
                  then take (length s - 6) s else s)
      in if body = [] then Some 0
         else if hd body = CHR ''.'' \<and> length body = 7 then parse_nat (tl body)
         else None)"

definition fromisoformat :: "string \<Rightarrow> datetime option" where
  "fromisoformat s =
     (case (parse_nat (take 4 s), parse_nat (take 2 (drop 5 s)), parse_nat (take 2 (drop 8 s)),
            parse_nat (take 2 (drop 11 s)), parse_nat (take 2 (drop 14 s)),
            parse_nat (take 2 (drop 17 s)), parse_fraction (drop 19 s)) of
        (Some y, Some m, Some d, Some hh, Some mi, Some sec, Some us) \<Rightarrow>
          (let days = days_of_civil (int y) (int m) (int d)
           in if length s \<ge> 19 \<and> s ! 4 = CHR ''-'' \<and> s ! 7 = CHR ''-'' \<and> s ! 10 = CHR ''T''
                 \<and> s ! 13 = CHR '':'' \<and> s ! 16 = CHR '':''
                 \<and> civil_of_days days = (int y, int m, int d) \<and> 1 \<le> y \<and> y \<le> 9999
                 \<and> hh < 24 \<and> mi < 60 \<and> sec < 60
              then Some (days * day_us + int ((hh * 3600 + mi * 60 + sec) * 1000000 + us))
              else None)
      | _ \<Rightarrow> None)"

lemma civil_of_days_fields:
  assumes "civil_of_days days = (y, m, d)"
  shows "1 \<le> m" "m \<le> 12" "1 \<le> d" "d \<le> 31"
proof -
  define doe where "doe = (days + 719468) mod 146097"
  obtain yoe doy where yd: "civil_of_era_day doe = (yoe, doy)" by (cases "civil_of_era_day doe")
  have "0 \<le> doe" "doe < 146097" by (simp_all add: doe_def)
  note doy = civil_of_era_day(3,4) [OF this yd]
  define mp where "mp = (5 * doy + 2) div 153"
  have mp: "0 \<le> mp" "mp \<le> 11" using doy unfolding mp_def by auto
  have m: "m = (if mp < 10 then mp + 3 else mp - 9)" and d: "d = doy - (153 * mp + 2) div 5 + 1"
    using assms yd by (auto simp: civil_of_days_def Let_def doe_def mp_def)
  show "1 \<le> m" "m \<le> 12" using m mp by auto
  show "1 \<le> d" "d \<le> 31" using d doy unfolding mp_def by auto
qed

lemma parse_fraction_iso:
  assumes "us < 1000000"
  shows "parse_fraction ((if us = 0 then [] else CHR ''.'' # pad_nat 6 us) @ ''+00:00'') = Some us"
  using assms by (auto simp: parse_fraction_def parse_pad_nat)

text \<open>What \<^verbatim>\<open>isoformat\<close> writes, \<^verbatim>\<open>fromisoformat\<close> reads back.\<close>

lemma fromisoformat_isoformat [simp]:
  assumes "dt_valid t"
  shows "fromisoformat (isoformat t) = Some t"
proof -
  obtain y m d where c: "civil_of_days (t div day_us) = (y, m, d)"
    by (cases "civil_of_days (t div day_us)")
  define r where "r = nat (t mod day_us)"
  define us secs where "us = r mod 1000000" and "secs = r div 1000000"
  have r: "r < 86400000000" by (simp add: r_def)
  then have secs: "secs < 86400" and us: "us < 1000000" by (auto simp: secs_def us_def)
  have y: "1 \<le> y" "y \<le> 9999" using assms by (auto simp: dt_valid_def c)
  note fields = civil_of_days_fields [OF c]
  have secs_split: "secs div 3600 * 3600 + secs div 60 mod 60 * 60 + secs mod 60 = secs"
  proof -
    have "secs div 60 div 60 = secs div 3600" by (simp add: div_mult2_eq [symmetric])
    then have "secs div 60 = secs div 3600 * 60 + secs div 60 mod 60"
      by (metis div_mult_mod_eq)
    moreover have "secs = secs div 60 * 60 + secs mod 60" by simp
    ultimately show ?thesis by linarith
  qed
  have iso: "isoformat t = pad_nat 4 (nat y) @ ''-'' @ pad_nat 2 (nat m) @ ''-'' @ pad_nat 2 (nat d)
      @ ''T'' @ pad_nat 2 (secs div 3600) @ '':'' @ pad_nat 2 (secs div 60 mod 60) @ '':''
      @ pad_nat 2 (secs mod 60) @ (if us = 0 then [] else CHR ''.'' # pad_nat 6 us) @ ''+00:00''"
    by (simp add: isoformat_def c Let_def r_def us_def secs_def)
  have total: "t div day_us * day_us + int ((secs div 3600 * 3600 + secs div 60 mod 60 * 60
      + secs mod 60) * 1000000 + us) = t"
  proof -
    have "int (secs * 1000000 + us) = t mod day_us"
      by (simp add: secs_def us_def r_def div_mult_mod_eq)
    then show ?thesis by (simp add: secs_split)
  qed
  have bounds: "nat y \<le> 9999" "Suc 0 \<le> nat y" "secs div 3600 < 24"
    using y secs by auto
  show ?thesis
    unfolding iso fromisoformat_def
    using y fields secs us c days_of_civil_of_days [OF c] total parse_fraction_iso [OF us]
    by (simp add: parse_pad_nat nth_append Let_def) (simp add: bounds)
qed

end
