(* ===== verification/Ids.thy ===== *)
theory Ids
  imports Py_Datetime
begin

text \<open>
  The process environment the runtime reads (the wall clock and the random source) and the
  identifiers made from it: \<^verbatim>\<open>aihi/agent/_core/ids.py\<close> and \<^verbatim>\<open>aihi/models/_ids.py\<close>.

  \<open>clock n\<close> is what the \<open>n\<close>-th clock reading returns, in nanoseconds, and \<open>entropy n\<close> what the
  \<open>n\<close>-th call of \<^verbatim>\<open>secrets.token_hex\<close> returns; neither is assumed to be monotone or injective.
  \<open>last_tick\<close> and \<open>process_salt\<close> are the module variables of \<^verbatim>\<open>ids.py\<close>. Component states extend
  this record.
\<close>

record world =
  clock :: "nat \<Rightarrow> int"
  clock_reads :: nat
  entropy :: "nat \<Rightarrow> string"
  entropy_reads :: nat
  last_tick :: int
  process_salt :: string

definition time_ns :: "('w world_scheme, int) sm" where
  "time_ns = (\<lambda>w. (Inr (clock w (clock_reads w)), w\<lparr>clock_reads := Suc (clock_reads w)\<rparr>))"

text \<open>\<^verbatim>\<open>datetime.now(UTC)\<close> has microsecond resolution.\<close>

definition utc_datetime :: "('w world_scheme, datetime) sm" where
  "utc_datetime = bindE time_ns (\<lambda>t. retE (t div 1000))"

definition token_hex :: "('w world_scheme, string) sm" where
  "token_hex = (\<lambda>w. (Inr (entropy w (entropy_reads w)), w\<lparr>entropy_reads := Suc (entropy_reads w)\<rparr>))"

definition is_alnum :: "char \<Rightarrow> bool" where
  "is_alnum c = (let k = of_char c :: nat in
     48 \<le> k \<and> k \<le> 57 \<or> 65 \<le> k \<and> k \<le> 90 \<or> 97 \<le> k \<and> k \<le> 122)"

definition valid_id_kind :: "string \<Rightarrow> bool" where
  "valid_id_kind kind \<longleftrightarrow>
     (let stripped = filter (\<lambda>c. c \<noteq> CHR ''_'') kind in stripped \<noteq> [] \<and> list_all is_alnum stripped)"

definition render_id :: "string \<Rightarrow> int \<Rightarrow> string \<Rightarrow> string" where
  "render_id kind tick salt = kind @ ''_'' @ hex_pad 16 (nat tick) @ salt"

definition new_id :: "string \<Rightarrow> ('w world_scheme, string) sm" where
  "new_id kind =
     (if \<not> valid_id_kind kind
      then raiseE (Exn (Py ValueError) ''ID kind must contain only letters, digits, and underscores'')
      else bindE time_ns (\<lambda>now. \<lambda>w.
        let tick = max now (last_tick w + 1)
        in (Inr (render_id kind tick (process_salt w)), w\<lparr>last_tick := tick\<rparr>)))"

definition new_message_id :: "('w world_scheme, string) sm" where
  "new_message_id = bindE token_hex (\<lambda>h. retE (''msg_'' @ h))"

section \<open>Identifiers never repeat within a process\<close>

lemma new_id_result:
  assumes "valid_id_kind kind"
  shows "new_id kind w =
    (let tick = max (clock w (clock_reads w)) (last_tick w + 1)
     in (Inr (render_id kind tick (process_salt w)),
         w\<lparr>clock_reads := Suc (clock_reads w), last_tick := tick\<rparr>))"
  using assms by (simp add: new_id_def time_ns_def bindE_def Let_def)

lemma time_ns_frame [simp]:
  "last_tick (snd (time_ns w)) = last_tick w" "process_salt (snd (time_ns w)) = process_salt w"
  by (simp_all add: time_ns_def)

lemma new_id_Inr:
  assumes "new_id kind w = (Inr i, w')"
  shows "i = render_id kind (last_tick w') (process_salt w)" "last_tick w < last_tick w'"
    "process_salt w' = process_salt w"
proof -
  have "valid_id_kind kind"
    using assms by (auto simp: new_id_def raiseE_def split: if_splits)
  from new_id_result [OF this, of w] assms
  show "i = render_id kind (last_tick w') (process_salt w)" "last_tick w < last_tick w'"
    "process_salt w' = process_salt w"
    by (auto simp: Let_def)
qed

lemma render_id_inject:
  assumes "0 \<le> a" "0 \<le> b" "render_id k a s = render_id k b s"
  shows "a = b"
proof -
  from assms(3) have "hex_pad 16 (nat a) = hex_pad 16 (nat b)" by (simp add: render_id_def)
  then have "nat a = nat b" by (rule hex_pad_inject)
  with assms(1,2) show ?thesis by simp
qed

text \<open>Drawing several identifiers of one kind in a row.\<close>

fun draw_ids :: "string \<Rightarrow> nat \<Rightarrow> ('w world_scheme, string list) sm" where
  "draw_ids kind 0 = retE []"
| "draw_ids kind (Suc n) = bindE (new_id kind) (\<lambda>i. bindE (draw_ids kind n) (\<lambda>is. retE (i # is)))"

lemma draw_ids_ticks:
  assumes "draw_ids kind n w = (Inr ids, w')"
  shows "\<exists>ts. ids = map (\<lambda>t. render_id kind t (process_salt w)) ts \<and> length ts = n \<and>
    sorted_wrt (<) ts \<and> (\<forall>t \<in> set ts. last_tick w < t)"
  using assms
proof (induction n arbitrary: w ids)
  case 0
  then show ?case by (simp add: retE_def)
next
  case (Suc n)
  from Suc.prems obtain i w1 ids1 where i: "new_id kind w = (Inr i, w1)"
    and rest: "draw_ids kind n w1 = (Inr ids1, w')" and ids: "ids = i # ids1"
    by (auto simp: bindE_def retE_def split: prod.splits sum.splits)
  note tick = new_id_Inr [OF i]
  from Suc.IH [OF rest] tick obtain ts where ts:
    "ids1 = map (\<lambda>t. render_id kind t (process_salt w)) ts" "length ts = n"
    "sorted_wrt (<) ts" "\<forall>t \<in> set ts. last_tick w1 < t" by auto
  then show ?case using tick ids
    by (intro exI [of _ "last_tick w1 # ts"]) fastforce
qed

lemma draw_ids_distinct:
  assumes "draw_ids kind n w = (Inr ids, w')" and "0 \<le> last_tick w"
  shows "distinct ids" "length ids = n"
proof -
  from draw_ids_ticks [OF assms(1)] obtain ts where ts:
    "ids = map (\<lambda>t. render_id kind t (process_salt w)) ts" "length ts = n"
    "sorted_wrt (<) ts" "\<forall>t \<in> set ts. last_tick w < t" by auto
  have "inj_on (\<lambda>t. render_id kind t (process_salt w)) (set ts)"
  proof (rule inj_onI)
    fix a b
    assume "a \<in> set ts" "b \<in> set ts"
      and eq: "render_id kind a (process_salt w) = render_id kind b (process_salt w)"
    then have "0 \<le> a" "0 \<le> b" using ts(4) assms(2) by force+
    then show "a = b" using eq by (rule render_id_inject)
  qed
  moreover have "distinct ts" using ts(3) by (induction ts) auto
  ultimately show "distinct ids" "length ids = n" using ts by (simp_all add: distinct_map)
qed

end
