(* ===== verification/Events.thy ===== *)
theory Events
  imports Ids
begin

text \<open>
  Session events (\<^verbatim>\<open>aihi/agent/_core/events.py\<close>) and the versioning of their envelope
  (\<^verbatim>\<open>aihi/agent/_core/schema.py\<close>).
\<close>

section \<open>Envelope versions\<close>

definition EVENT_SCHEMA_VERSION :: int where
  "EVENT_SCHEMA_VERSION = 3"

definition SUPPORTED_EVENT_SCHEMA_VERSIONS :: "int list" where
  "SUPPORTED_EVENT_SCHEMA_VERSIONS = [1, 2, 3]"

definition DURABLE_EVENT_TYPES :: "string list" where
  "DURABLE_EVENT_TYPES =
     [''session.created'', ''session.repaired'', ''session.forked'',
      ''run.started'', ''run.resumed'', ''run.suspended'', ''run.state_changed'',
      ''run.completed'', ''run.failed'', ''run.interrupted'', ''run.cancelled'',
      ''user.message'', ''assistant.message'', ''model.usage'', ''system.message'',
      ''tool.result'', ''tool.requested'', ''tool.rejected'', ''tool.started'', ''tool.completed'',
      ''policy.decided'', ''approval.requested'', ''approval.resolved'', ''approval.consumed'',
      ''capability.lease.issued'', ''capability.lease.revoked'', ''compaction.created'',
      ''artifact.created'', ''artifact.deleted'', ''memory.candidate'', ''memory.written'',
      ''memory.deleted'', ''subagent.spawned'', ''subagent.started'', ''subagent.completed'']"

definition EPHEMERAL_EVENT_TYPES :: "string list" where
  "EPHEMERAL_EVENT_TYPES = [''model.chunk'']"

definition LEGACY_EVENT_TYPES :: "string list" where
  "LEGACY_EVENT_TYPES = [''message.added'']"

definition KNOWN_EVENT_TYPES :: "string list" where
  "KNOWN_EVENT_TYPES = DURABLE_EVENT_TYPES @ EPHEMERAL_EVENT_TYPES @ LEGACY_EVENT_TYPES"

text \<open>
  The text codec that one migration needs: \<open>loads\<close> is \<^verbatim>\<open>json.loads\<close> (\<open>None\<close> for
  \<^verbatim>\<open>JSONDecodeError\<close>) and \<open>dumps_sorted\<close> is \<^verbatim>\<open>json.dumps\<close> with sorted keys and compact separators.
\<close>

record json_codec =
  loads :: "string \<Rightarrow> jval option"
  dumps_sorted :: "jval \<Rightarrow> string"

definition upgrade_v1_to_v2 :: "jobj \<Rightarrow> jobj" where
  "upgrade_v1_to_v2 payload =
     (if dict_get payload ''type'' \<noteq> Some (JStr ''subagent.spawned'') then payload
      else (case dict_get payload ''data'' of
          Some (JObj data) \<Rightarrow>
            (case dict_get data ''task'' of
               Some (JObj task) \<Rightarrow>
                 dict_set ''data'' (JObj (dict_set ''task'' (JObj (dict_pop ''workspace'' task)) data)) payload
             | _ \<Rightarrow> payload)
        | _ \<Rightarrow> payload))"

definition strip_summary_block :: "json_codec \<Rightarrow> jval \<Rightarrow> jval" where
  "strip_summary_block jc block =
     (case block of
        JObj b \<Rightarrow>
          (case dict_get b ''text'' of
             Some (JStr text) \<Rightarrow>
               (case loads jc text of
                  Some (JObj summary) \<Rightarrow>
                    (if dict_get summary ''kind'' \<noteq> Some (JStr ''context_compaction_summary'') then block
                     else JObj (dict_set ''text''
                            (JStr (dumps_sorted jc (JObj (dict_pop ''permission_mode'' summary)))) b))
                | _ \<Rightarrow> block)
           | _ \<Rightarrow> block)
      | _ \<Rightarrow> block)"

definition remove_summary_permission_mode :: "json_codec \<Rightarrow> jval \<Rightarrow> jval" where
  "remove_summary_permission_mode jc v =
     (case v of
        JObj d \<Rightarrow>
          (case dict_get d ''content'' of
             Some (JArr content) \<Rightarrow>
               JObj (dict_set ''content'' (JArr (map (strip_summary_block jc) content)) d)
           | _ \<Rightarrow> v)
      | _ \<Rightarrow> v)"

definition pop_all :: "string list \<Rightarrow> jobj \<Rightarrow> jobj" where
  "pop_all ks d = foldl (\<lambda>e k. dict_pop k e) d ks"

definition upgrade_v2_to_v3 :: "json_codec \<Rightarrow> jobj \<Rightarrow> jobj" where
  "upgrade_v2_to_v3 jc payload =
     (case dict_get payload ''data'' of
        Some (JObj data) \<Rightarrow>
          (let t = get_or_none payload ''type'';
               data' =
                 (if t = JStr ''run.started'' \<or> t = JStr ''run.resumed'' then
                    pop_all [''sandbox'', ''sandbox_descriptor'', ''workspace_root'', ''unsafe'',
                             ''permission_mode''] data
                  else if t = JStr ''tool.started'' then
                    pop_all [''sandbox'', ''sandbox_descriptor'', ''unsafe''] data
                  else if t = JStr ''approval.requested'' then dict_pop ''sandbox'' data
                  else if t = JStr ''compaction.created'' then
                    (case dict_get data ''summary'' of
                       None \<Rightarrow> data
                     | Some summary \<Rightarrow>
                         dict_set ''summary'' (remove_summary_permission_mode jc summary) data)
                  else data)
           in dict_set ''data'' (JObj data') payload)
      | _ \<Rightarrow> payload)"

definition event_upgrade :: "json_codec \<Rightarrow> int \<Rightarrow> (jobj \<Rightarrow> jobj) option" where
  "event_upgrade jc version =
     (if version = 1 then Some upgrade_v1_to_v2
      else if version = 2 then Some (upgrade_v2_to_v3 jc)
      else None)"

definition unsupported_schema :: "string \<Rightarrow> exn" where
  "unsupported_schema m = Exn (Py UnsupportedEventSchema) m"

function upgrade_loop :: "json_codec \<Rightarrow> int \<Rightarrow> jobj \<Rightarrow> exn + jobj" where
  "upgrade_loop jc version payload =
     (if version < EVENT_SCHEMA_VERSION then
        (case event_upgrade jc version of
           None \<Rightarrow> Inl (unsupported_schema (''No registered upgrade from event schema '' @ show_int version))
         | Some up \<Rightarrow>
             upgrade_loop jc (version + 1) (dict_set ''schema_version'' (JInt (version + 1)) (up payload)))
      else Inr payload)"
  by pat_completeness auto
termination
  by (relation "measure (\<lambda>(jc, version, payload). nat (EVENT_SCHEMA_VERSION - version))") auto

declare upgrade_loop.simps [simp del]

definition upgrade_event_payload :: "json_codec \<Rightarrow> jobj \<Rightarrow> exn + jobj" where
  "upgrade_event_payload jc v =
     (case get_or v ''schema_version'' (JInt EVENT_SCHEMA_VERSION) of
        JInt version \<Rightarrow>
          (if version > EVENT_SCHEMA_VERSION \<or> version < hd SUPPORTED_EVENT_SCHEMA_VERSIONS
           then Inl (unsupported_schema (''Unsupported event schema version '' @ show_int version
                       @ ''; this harness reads (1, 2, 3)''))
           else upgrade_loop jc version (dict_set ''schema_version'' (JInt version) v))
      | _ \<Rightarrow> Inl (unsupported_schema ''Event schema_version must be an integer, got ''))"

section \<open>Events\<close>

record event =
  ev_type :: string
  ev_session :: string
  ev_data :: jobj
  ev_run :: "string option"
  ev_id :: string
  ev_seq :: "int option"
  ev_created :: string
  ev_ephemeral :: bool
  ev_version :: int

definition utc_now :: "('w world_scheme, string) sm" where
  "utc_now = bindE utc_datetime (\<lambda>t. retE (isoformat t))"

text \<open>
  \<^verbatim>\<open>Event(type=..., session_id=..., run_id=..., data=...)\<close>: the defaults draw an identifier and then
  read the clock.
\<close>

definition new_event ::
  "string \<Rightarrow> string \<Rightarrow> string option \<Rightarrow> jobj \<Rightarrow> ('w world_scheme, event) sm" where
  "new_event ty sid rid data =
     bindE (new_id ''evt'') (\<lambda>i. bindE utc_now (\<lambda>c.
       retE \<lparr>ev_type = ty, ev_session = sid, ev_data = data, ev_run = rid, ev_id = i,
             ev_seq = None, ev_created = c, ev_ephemeral = False,
             ev_version = EVENT_SCHEMA_VERSION\<rparr>))"

definition persisted :: "event \<Rightarrow> int \<Rightarrow> event" where
  "persisted e sq = e\<lparr>ev_seq := Some sq, ev_ephemeral := False\<rparr>"

definition event_to_dict :: "event \<Rightarrow> jobj" where
  "event_to_dict e =
     [(''id'', JStr (ev_id e)),
      (''type'', JStr (ev_type e)),
      (''session_id'', JStr (ev_session e)),
      (''run_id'', jopt_str (ev_run e)),
      (''seq'', case ev_seq e of None \<Rightarrow> JNull | Some n \<Rightarrow> JInt n),
      (''created_at'', JStr (ev_created e)),
      (''ephemeral'', JBool (ev_ephemeral e)),
      (''schema_version'', JInt (ev_version e)),
      (''data'', JObj (ev_data e))]"

text \<open>\<^verbatim>\<open>int(value)\<close>; a text is read as an optional minus sign and decimal digits.\<close>

fun py_int :: "jval \<Rightarrow> exn + int" where
  "py_int (JInt i) = Inr i"
| "py_int (JBool b) = Inr (if b then 1 else 0)"
| "py_int (JFloat r) = Inr (if r < 0 then - \<lfloor>- r\<rfloor> else \<lfloor>r\<rfloor>)"
| "py_int (JStr s) =
     (case (case s of c # cs \<Rightarrow> if c = CHR ''-'' then map_option (\<lambda>n. - int n) (parse_nat cs)
                              else map_option int (parse_nat s) | [] \<Rightarrow> None) of
        None \<Rightarrow> Inl (Exn (Py ValueError) ''invalid literal for int() with base 10: '')
      | Some i \<Rightarrow> Inr i)"
| "py_int JNonFinite = Inl (Exn (Py OverflowError) ''cannot convert float infinity to integer'')"
| "py_int _ = Inl (Exn (Py TypeError) ''int() argument must be a string, a bytes-like object or a real number'')"

definition require_key :: "jobj \<Rightarrow> string \<Rightarrow> exn + jval" where
  "require_key d k = (case dict_get d k of None \<Rightarrow> Inl (Exn (Py KeyError) k) | Some v \<Rightarrow> Inr v)"

fun py_dict :: "jval \<Rightarrow> exn + jobj" where
  "py_dict (JObj d) = Inr d"
| "py_dict (JArr []) = Inr []"
| "py_dict (JStr []) = Inr []"
| "py_dict _ = Inl (Exn (Py TypeError) ''object is not iterable'')"

definition event_from_dict :: "json_codec \<Rightarrow> jobj \<Rightarrow> exn + event" where
  "event_from_dict jc raw =
     bindR (upgrade_event_payload jc raw) (\<lambda>v.
     bindR (require_key v ''id'') (\<lambda>i.
     bindR (require_key v ''type'') (\<lambda>ty.
     bindR (require_key v ''session_id'') (\<lambda>sid.
     bindR (case get_or_none v ''seq'' of JNull \<Rightarrow> Inr None | n \<Rightarrow> bindR (py_int n) (\<lambda>m. Inr (Some m))) (\<lambda>sq.
     bindR (require_key v ''created_at'') (\<lambda>c.
     bindR (py_int (get_or v ''schema_version'' (JInt EVENT_SCHEMA_VERSION))) (\<lambda>ver.
     bindR (py_dict (get_or v ''data'' (JObj []))) (\<lambda>data.
       Inr \<lparr>ev_type = py_str ty, ev_session = py_str sid, ev_data = data,
            ev_run = opt_str (get_or_none v ''run_id''),
            ev_id = py_str i, ev_seq = sq, ev_created = py_str c,
            ev_ephemeral = truthy (get_or v ''ephemeral'' (JBool False)),
            ev_version = ver\<rparr>))))))))"

section \<open>Facts\<close>

lemma upgrade_loop_current [simp]: "upgrade_loop jc EVENT_SCHEMA_VERSION payload = Inr payload"
  by (subst upgrade_loop.simps) simp

lemma upgrade_loop_steps:
  "upgrade_loop jc 2 p = Inr (dict_set ''schema_version'' (JInt 3) (upgrade_v2_to_v3 jc p))"
  "upgrade_loop jc 1 p = upgrade_loop jc 2 (dict_set ''schema_version'' (JInt 2) (upgrade_v1_to_v2 p))"
  by (simp_all add: upgrade_loop.simps EVENT_SCHEMA_VERSION_def event_upgrade_def)

text \<open>The version a payload carries after a successful upgrade is the current one.\<close>

lemma upgrade_event_payload_version:
  assumes "upgrade_event_payload jc v = Inr p"
  shows "dict_get p ''schema_version'' = Some (JInt EVENT_SCHEMA_VERSION)"
proof -
  from assms obtain version where gv: "get_or v ''schema_version'' (JInt EVENT_SCHEMA_VERSION) = JInt version"
    and bounds: "\<not> 3 < version" "\<not> version < 1"
    and loop: "upgrade_loop jc version (dict_set ''schema_version'' (JInt version) v) = Inr p"
    by (auto simp: upgrade_event_payload_def EVENT_SCHEMA_VERSION_def
        SUPPORTED_EVENT_SCHEMA_VERSIONS_def split: jval.splits if_splits)
  from bounds have "version = 1 \<or> version = 2 \<or> version = 3" by arith
  with loop show ?thesis
    using upgrade_loop_current [of jc]
    by (auto simp: upgrade_loop_steps EVENT_SCHEMA_VERSION_def)
qed

text \<open>The upgrade fails closed exactly on the versions the harness does not read.\<close>

lemma upgrade_event_payload_closed:
  "(\<exists>p. upgrade_event_payload jc v = Inr p) \<longleftrightarrow>
   get_or v ''schema_version'' (JInt EVENT_SCHEMA_VERSION) \<in> JInt ` set SUPPORTED_EVENT_SCHEMA_VERSIONS"
proof -
  have *: "\<exists>p. upgrade_loop jc n q = Inr p" if "n = 1 \<or> n = 2 \<or> n = 3" for n q
    using that upgrade_loop_current [of jc q]
    by (auto simp: upgrade_loop_steps EVENT_SCHEMA_VERSION_def)
  show ?thesis
  proof (cases "get_or v ''schema_version'' (JInt EVENT_SCHEMA_VERSION)")
    case (JInt n)
    show ?thesis
    proof (cases "n = 1 \<or> n = 2 \<or> n = 3")
      case True
      then show ?thesis using JInt * [OF True]
        by (auto simp: upgrade_event_payload_def EVENT_SCHEMA_VERSION_def
            SUPPORTED_EVENT_SCHEMA_VERSIONS_def)
    next
      case False
      then have "n > 3 \<or> n < 1" by arith
      with False JInt show ?thesis
        by (auto simp: upgrade_event_payload_def EVENT_SCHEMA_VERSION_def
            SUPPORTED_EVENT_SCHEMA_VERSIONS_def)
    qed
  qed (auto simp: upgrade_event_payload_def)
qed

lemma pop_all_get: "dict_get (pop_all ks d) k = (if k \<in> set ks then None else dict_get d k)"
  by (induction ks arbitrary: d) (auto simp: pop_all_def)

text \<open>An event of the current version survives \<^verbatim>\<open>to_dict\<close> and \<^verbatim>\<open>from_dict\<close> unchanged.\<close>

lemma upgrade_event_payload_current:
  "dict_get v ''schema_version'' = Some (JInt EVENT_SCHEMA_VERSION) \<Longrightarrow>
   upgrade_event_payload jc v = Inr v"
  by (simp add: upgrade_event_payload_def get_or_def EVENT_SCHEMA_VERSION_def
      SUPPORTED_EVENT_SCHEMA_VERSIONS_def upgrade_loop.simps update_triv)

lemma event_roundtrip:
  assumes "ev_version e = EVENT_SCHEMA_VERSION"
  shows "event_from_dict jc (event_to_dict e) = Inr e"
proof -
  have up: "upgrade_event_payload jc (event_to_dict e) = Inr (event_to_dict e)"
    by (rule upgrade_event_payload_current) (simp add: event_to_dict_def assms)
  show ?thesis
    unfolding event_from_dict_def up
    by (cases "ev_seq e"; cases "ev_run e") (simp_all add: event_to_dict_def require_key_def)
qed

lemma new_event_Inr:
  assumes "new_event ty sid rid data w = (Inr e, w')"
  shows "ev_type e = ty" "ev_session e = sid" "ev_data e = data" "ev_run e = rid"
    "ev_seq e = None" "\<not> ev_ephemeral e" "ev_version e = EVENT_SCHEMA_VERSION"
    "ev_id e = render_id ''evt'' (last_tick w') (process_salt w)"
    "last_tick w < last_tick w'" "process_salt w' = process_salt w"
proof -
  from assms obtain i w1 where i: "new_id ''evt'' w = (Inr i, w1)"
    and e: "e = \<lparr>ev_type = ty, ev_session = sid, ev_data = data, ev_run = rid, ev_id = i,
             ev_seq = None, ev_created = ev_created e, ev_ephemeral = False,
             ev_version = EVENT_SCHEMA_VERSION\<rparr>"
    and w': "last_tick w' = last_tick w1" "process_salt w' = process_salt w1"
    by (auto simp: new_event_def bindE_def utc_now_def utc_datetime_def time_ns_def retE_def
        split: prod.splits sum.splits)
  from e show "ev_type e = ty" "ev_session e = sid" "ev_data e = data" "ev_run e = rid"
    "ev_seq e = None" "\<not> ev_ephemeral e" "ev_version e = EVENT_SCHEMA_VERSION"
    by (metis event.select_convs)+
  have "ev_id e = i" using e by (metis event.select_convs(5))
  then show "ev_id e = render_id ''evt'' (last_tick w') (process_salt w)"
    "last_tick w < last_tick w'" "process_salt w' = process_salt w"
    using new_id_Inr [OF i] w' by simp_all
qed

lemma persisted_simps [simp]:
  "ev_type (persisted e n) = ev_type e" "ev_session (persisted e n) = ev_session e"
  "ev_data (persisted e n) = ev_data e" "ev_run (persisted e n) = ev_run e"
  "ev_id (persisted e n) = ev_id e" "ev_seq (persisted e n) = Some n"
  "ev_ephemeral (persisted e n) = False" "ev_version (persisted e n) = ev_version e"
  by (simp_all add: persisted_def)

end
