(* ===== verification/Model_Types.thy ===== *)
theory Model_Types
  imports Events
begin

text \<open>
  The provider-neutral message protocol (\<^verbatim>\<open>aihi/models/types.py\<close>) and its versioned codec
  (\<^verbatim>\<open>aihi/models/serialization.py\<close>).
\<close>

section \<open>Content blocks\<close>

datatype content_block =
    TextBlock (block_text: string) (stable_prefix: bool)
  | ThinkingBlock string string "jobj option"
  | ToolCall string string jobj
  | ToolResult string string bool jobj
  | ImageBlock string string "string option"

text \<open>\<^verbatim>\<open>ToolCallBlock\<close> and \<^verbatim>\<open>ToolResultBlock\<close> as values of their own.\<close>

record tool_call_block =
  call_id :: string
  call_name :: string
  call_input :: jobj

record tool_result_block =
  result_call_id :: string
  result_content :: string
  result_is_error :: bool
  result_metadata :: jobj

fun block_to_dict :: "content_block \<Rightarrow> jobj" where
  "block_to_dict (TextBlock text stbl) =
     [(''kind'', JStr ''text''), (''text'', JStr text), (''stable_prefix'', JBool stbl)]"
| "block_to_dict (ThinkingBlock text provider opaque) =
     [(''kind'', JStr ''thinking''), (''text'', JStr text), (''provider'', JStr provider),
      (''opaque'', case opaque of None \<Rightarrow> JNull | Some d \<Rightarrow> JObj d)]"
| "block_to_dict (ToolCall i name input) =
     [(''kind'', JStr ''tool_call''), (''id'', JStr i), (''name'', JStr name), (''input'', JObj input)]"
| "block_to_dict (ToolResult i content is_error metadata) =
     [(''kind'', JStr ''tool_result''), (''tool_call_id'', JStr i), (''content'', JStr content),
      (''is_error'', JBool is_error), (''metadata'', JObj metadata)]"
| "block_to_dict (ImageBlock media_type data source_path) =
     [(''kind'', JStr ''image''), (''media_type'', JStr media_type), (''data'', JStr data),
      (''source_path'', jopt_str source_path)]"

definition dict_or_empty :: "jval \<Rightarrow> jobj" where
  "dict_or_empty v = (case v of JObj d \<Rightarrow> d | _ \<Rightarrow> [])"

definition block_from_dict :: "jobj \<Rightarrow> exn + content_block" where
  "block_from_dict v =
     (let kind = get_or_none v ''kind'' in
      if kind = JStr ''text'' then
        Inr (TextBlock (py_str (get_or v ''text'' (JStr ''''))) (truthy (get_or v ''stable_prefix'' (JBool False))))
      else if kind = JStr ''thinking'' then
        Inr (ThinkingBlock (py_str (get_or v ''text'' (JStr ''''))) (py_str (get_or v ''provider'' (JStr '''')))
              (case get_or_none v ''opaque'' of JObj d \<Rightarrow> Some d | _ \<Rightarrow> None))
      else if kind = JStr ''tool_call'' \<or> kind = JStr ''tool_use'' then
        Inr (ToolCall (py_str (get_or v ''id'' (JStr ''''))) (py_str (get_or v ''name'' (JStr '''')))
              (dict_or_empty (get_or v ''input'' (JObj []))))
      else if kind = JStr ''tool_result'' then
        Inr (ToolResult (py_str (get_or v ''tool_call_id'' (get_or v ''tool_use_id'' (JStr ''''))))
              (py_str (get_or v ''content'' (JStr ''''))) (truthy (get_or v ''is_error'' (JBool False)))
              (dict_or_empty (get_or v ''metadata'' (JObj []))))
      else if kind = JStr ''image'' then
        Inr (ImageBlock (py_str (get_or v ''media_type'' (JStr ''application/octet-stream'')))
              (py_str (get_or v ''data'' (JStr '''')))
              (opt_str (get_or_none v ''source_path'')))
      else Inl (Exn (Py ValueError) ''Unknown content block kind: ''))"

section \<open>Messages\<close>

datatype role = User | Assistant | System

fun role_text :: "role \<Rightarrow> string" where
  "role_text User = ''user''"
| "role_text Assistant = ''assistant''"
| "role_text System = ''system''"

definition parse_role :: "jval \<Rightarrow> role option" where
  "parse_role v =
     (if v = JStr ''user'' then Some User
      else if v = JStr ''assistant'' then Some Assistant
      else if v = JStr ''system'' then Some System
      else None)"

record message =
  msg_role :: role
  msg_content :: "content_block list"
  msg_id :: string
  msg_metadata :: jobj

fun block_tool_call :: "content_block \<Rightarrow> tool_call_block option" where
  "block_tool_call (ToolCall i name input) = Some \<lparr>call_id = i, call_name = name, call_input = input\<rparr>"
| "block_tool_call _ = None"

fun block_tool_result :: "content_block \<Rightarrow> tool_result_block option" where
  "block_tool_result (ToolResult i content is_error metadata) =
     Some \<lparr>result_call_id = i, result_content = content, result_is_error = is_error,
           result_metadata = metadata\<rparr>"
| "block_tool_result _ = None"

fun block_text_part :: "content_block \<Rightarrow> string" where
  "block_text_part (TextBlock text _) = text"
| "block_text_part _ = ''''"

definition tool_calls :: "message \<Rightarrow> tool_call_block list" where
  "tool_calls m = List.map_filter block_tool_call (msg_content m)"

definition tool_results :: "message \<Rightarrow> tool_result_block list" where
  "tool_results m = List.map_filter block_tool_result (msg_content m)"

definition text_content :: "message \<Rightarrow> string" where
  "text_content m = concat (map block_text_part (msg_content m))"

definition message_to_dict :: "message \<Rightarrow> jobj" where
  "message_to_dict m =
     [(''id'', JStr (msg_id m)),
      (''role'', JStr (role_text (msg_role m))),
      (''content'', JArr (map (\<lambda>b. JObj (block_to_dict b)) (msg_content m))),
      (''metadata'', JObj (msg_metadata m))]"

text \<open>
  \<^verbatim>\<open>Message.from_dict\<close>. A message without an id gets a fresh one; \<open>fresh\<close> is the id it would
  draw, so that the decoder itself is a function of its input.
\<close>

definition message_from_dict :: "string \<Rightarrow> jobj \<Rightarrow> exn + message" where
  "message_from_dict fresh v =
     (case parse_role (get_or_none v ''role'') of
        None \<Rightarrow> Inl (Exn (Py ValueError) ''Unknown message role: '')
      | Some r \<Rightarrow>
          (case get_or v ''content'' (JArr []) of
             JArr raw \<Rightarrow>
               bindR (mapR (\<lambda>item. bindR (py_dict item) block_from_dict) raw) (\<lambda>blocks.
                 Inr \<lparr>msg_role = r, msg_content = blocks,
                      msg_id = (let i = get_or_none v ''id'' in if truthy i then py_str i else fresh),
                      msg_metadata = dict_or_empty (get_or v ''metadata'' (JObj []))\<rparr>)
           | _ \<Rightarrow> Inl (Exn (Py ValueError) ''Message content must be a list'')))"

section \<open>The message envelope\<close>

definition MESSAGE_SCHEMA_VERSION :: int where
  "MESSAGE_SCHEMA_VERSION = 1"

definition encode_message :: "message \<Rightarrow> jobj" where
  "encode_message m =
     [(''message_schema_version'', JInt MESSAGE_SCHEMA_VERSION),
      (''message'', JObj (message_to_dict m))]"

definition decode_message :: "string \<Rightarrow> jobj \<Rightarrow> exn + message" where
  "decode_message fresh v =
     (case get_or v ''message_schema_version'' (JInt MESSAGE_SCHEMA_VERSION) of
        JInt version \<Rightarrow>
          (if version \<noteq> MESSAGE_SCHEMA_VERSION
           then Inl (Exn (Py UnsupportedMessageSchema)
                  (''Unsupported message schema version: '' @ show_int version))
           else (case get_or_none v ''message'' of
                   JObj raw \<Rightarrow> message_from_dict fresh raw
                 | _ \<Rightarrow> Inl (Exn (Py ValueError) ''Message envelope must contain an object message'')))
      | _ \<Rightarrow> Inl (Exn (Py UnsupportedMessageSchema) ''Message schema version must be an integer, got ''))"

section \<open>Requests, responses, capabilities\<close>

record usage =
  input_tokens :: int
  output_tokens :: int
  cached_input_tokens :: int
  cost_usd :: "rat option"
  cache_write_input_tokens :: int

definition usage_to_dict :: "usage \<Rightarrow> jobj" where
  "usage_to_dict u =
     [(''input_tokens'', JInt (input_tokens u)),
      (''output_tokens'', JInt (output_tokens u)),
      (''cached_input_tokens'', JInt (cached_input_tokens u)),
      (''cache_write_input_tokens'', JInt (cache_write_input_tokens u)),
      (''cost_usd'', case cost_usd u of None \<Rightarrow> JNull | Some c \<Rightarrow> JFloat c)]"

fun py_float :: "jval \<Rightarrow> exn + rat" where
  "py_float (JFloat r) = Inr r"
| "py_float (JInt i) = Inr (rat_of_int i)"
| "py_float (JBool b) = Inr (if b then 1 else 0)"
| "py_float _ = Inl (Exn (Py ValueError) ''could not convert to float'')"

definition usage_from_dict :: "jobj \<Rightarrow> exn + usage" where
  "usage_from_dict v =
     bindR (py_int (get_or v ''input_tokens'' (JInt 0))) (\<lambda>a.
     bindR (py_int (get_or v ''output_tokens'' (JInt 0))) (\<lambda>b.
     bindR (py_int (get_or v ''cached_input_tokens'' (JInt 0))) (\<lambda>c.
     bindR (py_int (get_or v ''cache_write_input_tokens'' (JInt 0))) (\<lambda>d.
     bindR (case get_or_none v ''cost_usd'' of JNull \<Rightarrow> Inr None
            | x \<Rightarrow> bindR (py_float x) (\<lambda>r. Inr (Some r))) (\<lambda>cost.
       Inr \<lparr>input_tokens = a, output_tokens = b, cached_input_tokens = c, cost_usd = cost,
            cache_write_input_tokens = d\<rparr>)))))"

record capabilities =
  cap_streaming :: bool
  cap_parallel_tools :: bool
  cap_prefix_caching :: bool
  cap_token_counting :: bool
  cap_max_context :: int
  cap_max_output :: int

record model_tool_definition =
  def_name :: string
  def_description :: string
  def_input_schema :: jobj

definition definition_to_dict :: "model_tool_definition \<Rightarrow> jobj" where
  "definition_to_dict d =
     [(''name'', JStr (def_name d)), (''description'', JStr (def_description d)),
      (''input_schema'', JObj (def_input_schema d))]"

record cache_policy =
  cache_enabled :: bool
  cache_key :: "string option"

definition is_space :: "char \<Rightarrow> bool" where
  "is_space c = (let k = of_char c :: nat in 9 \<le> k \<and> k \<le> 13 \<or> 28 \<le> k \<and> k \<le> 32 \<or> k = 133 \<or> k = 160)"

text \<open>\<^verbatim>\<open>not text.strip()\<close>.\<close>

definition blank :: "string \<Rightarrow> bool" where
  "blank s \<longleftrightarrow> list_all is_space s"

definition make_cache_policy :: "bool \<Rightarrow> string option \<Rightarrow> exn + cache_policy" where
  "make_cache_policy enabled key =
     (case key of
        Some k \<Rightarrow>
          (if blank k
           then Inl (Exn (Py ValueError) ''CachePolicy key must be a non-empty string when set'')
           else Inr \<lparr>cache_enabled = enabled, cache_key = key\<rparr>)
      | None \<Rightarrow> Inr \<lparr>cache_enabled = enabled, cache_key = None\<rparr>)"

definition cache_policy_to_dict :: "cache_policy \<Rightarrow> jobj" where
  "cache_policy_to_dict p =
     [(''enabled'', JBool (cache_enabled p)), (''key'', jopt_str (cache_key p))]"

definition cache_policy_from_dict :: "jobj \<Rightarrow> exn + cache_policy" where
  "cache_policy_from_dict v =
     (case get_or v ''enabled'' (JBool True) of
        JBool enabled \<Rightarrow>
          (case get_or_none v ''key'' of
             JNull \<Rightarrow> make_cache_policy enabled None
           | JStr k \<Rightarrow> make_cache_policy enabled (Some k)
           | _ \<Rightarrow> Inl (Exn (Py ValueError) ''CachePolicy key must be a string when set''))
      | _ \<Rightarrow> Inl (Exn (Py TypeError) ''CachePolicy enabled must be a bool''))"

record model_request =
  req_model :: string
  req_messages :: "message list"
  req_tools :: "model_tool_definition list"
  req_system_prompt :: string
  req_max_output_tokens :: int
  req_system_blocks :: "content_block list"
  req_cache_policy :: "cache_policy option"

text \<open>The loop over \<^verbatim>\<open>system_blocks\<close> in \<^verbatim>\<open>ModelRequest.__post_init__\<close>.\<close>

fun check_system_blocks :: "bool \<Rightarrow> content_block list \<Rightarrow> exn + unit" where
  "check_system_blocks saw_dynamic [] = Inr ()"
| "check_system_blocks saw_dynamic (TextBlock text stbl # bs) =
     (if stbl then
        (if saw_dynamic
         then Inl (Exn (Py ValueError) ''stable system blocks must form one contiguous prefix'')
         else check_system_blocks saw_dynamic bs)
      else check_system_blocks True bs)"
| "check_system_blocks saw_dynamic (_ # bs) =
     Inl (Exn (Py TypeError) ''system_blocks must contain only TextBlock values'')"

definition check_model_request :: "model_request \<Rightarrow> exn + unit" where
  "check_model_request r =
     (if blank (req_model r) then Inl (Exn (Py ValueError) ''model must be a non-empty string'')
      else if req_max_output_tokens r \<le> 0
      then Inl (Exn (Py ValueError) ''max_output_tokens must be a positive integer'')
      else check_system_blocks False (req_system_blocks r))"

datatype stop_reason = EndTurn | ToolUse | MaxTokens | Refusal | Paused

fun stop_reason_text :: "stop_reason \<Rightarrow> string" where
  "stop_reason_text EndTurn = ''end_turn''"
| "stop_reason_text ToolUse = ''tool_use''"
| "stop_reason_text MaxTokens = ''max_tokens''"
| "stop_reason_text Refusal = ''refusal''"
| "stop_reason_text Paused = ''paused''"

record model_response =
  resp_message :: message
  resp_stop_reason :: stop_reason
  resp_usage :: usage

section \<open>The codec is lossless\<close>

lemma block_from_to_dict [simp]: "block_from_dict (block_to_dict b) = Inr b"
  by (cases b) (auto simp: block_from_dict_def dict_or_empty_def split: option.splits)

lemma parse_role_text [simp]: "parse_role (JStr (role_text r)) = Some r"
  by (cases r) (auto simp: parse_role_def)

lemma message_from_to_dict:
  assumes "msg_id m \<noteq> ''''"
  shows "message_from_dict fresh (message_to_dict m) = Inr m"
proof -
  have "mapR (\<lambda>item. bindR (py_dict item) block_from_dict)
      (map (\<lambda>b. JObj (block_to_dict b)) bs) = Inr bs" for bs
    by (induction bs) simp_all
  then show ?thesis
    using assms by (simp add: message_from_dict_def message_to_dict_def dict_or_empty_def)
qed

lemma decode_encode_message:
  assumes "msg_id m \<noteq> ''''"
  shows "decode_message fresh (encode_message m) = Inr m"
  using message_from_to_dict [OF assms]
  by (simp add: decode_message_def encode_message_def)

lemma usage_roundtrip: "usage_from_dict (usage_to_dict u) = Inr u"
  by (cases "cost_usd u") (simp_all add: usage_from_dict_def usage_to_dict_def)

lemma cache_policy_roundtrip:
  "make_cache_policy en key = Inr p \<Longrightarrow> cache_policy_from_dict (cache_policy_to_dict p) = Inr p"
  by (auto simp: make_cache_policy_def cache_policy_from_dict_def cache_policy_to_dict_def
      split: option.splits if_splits)

text \<open>Accepted system blocks are a stable prefix followed by dynamic blocks.\<close>

lemma check_system_blocks_dynamic:
  "check_system_blocks True bs = Inr () \<longleftrightarrow> (\<forall>b \<in> set bs. \<exists>t. b = TextBlock t False)"
proof (induction bs)
  case (Cons b bs)
  then show ?case by (cases b) auto
qed simp

lemma check_system_blocks_prefix:
  "check_system_blocks False bs = Inr () \<longleftrightarrow>
   (\<exists>ps ds. bs = map (\<lambda>t. TextBlock t True) ps @ map (\<lambda>t. TextBlock t False) ds)"
proof (induction bs)
  case Nil
  then show ?case by simp
next
  case (Cons b bs)
  show ?case
  proof (cases "\<exists>t. b = TextBlock t True")
    case True
    then obtain t where b: "b = TextBlock t True" by blast
    have "(\<exists>ps ds. b # bs = map (\<lambda>t. TextBlock t True) ps @ map (\<lambda>t. TextBlock t False) ds)
        \<longleftrightarrow> (\<exists>ps ds. bs = map (\<lambda>t. TextBlock t True) ps @ map (\<lambda>t. TextBlock t False) ds)"
      unfolding b by (auto simp: Cons_eq_append_conv Cons_eq_map_conv; metis list.simps(9) append_Cons)
    with Cons.IH show ?thesis by (simp add: b)
  next
    case False
    have "(\<exists>ps ds. b # bs = map (\<lambda>t. TextBlock t True) ps @ map (\<lambda>t. TextBlock t False) ds)
        \<longleftrightarrow> (\<exists>ds. b # bs = map (\<lambda>t. TextBlock t False) ds)"
      using False by (auto simp: Cons_eq_append_conv Cons_eq_map_conv)
    also have "\<dots> \<longleftrightarrow> (\<forall>c \<in> set (b # bs). \<exists>t. c = TextBlock t False)"
      by (metis (no_types, lifting) ex_map_conv)
    finally show ?thesis
      using False check_system_blocks_dynamic [of bs] by (cases b) auto
  qed
qed

end
