(* ===== verification/Projection.thy ===== *)
theory Projection
  imports Aihi_Prelude
begin

text \<open>
  The interface of every projection of a log (of events, or of the messages in them): a state is
  derived by applying the entries in order, and an entry that contradicts the state makes the
  projection fail. The clients of a projection (the session, the coordinator, replay) rely on the laws proved here.
\<close>

locale event_projection =
  fixes step :: "'st \<Rightarrow> 'e \<Rightarrow> exn + 'st"
    and start :: "'st"
    and inv :: "'st \<Rightarrow> bool"
  assumes inv_start: "inv start"
    and inv_step: "inv st \<Longrightarrow> step st e = Inr st' \<Longrightarrow> inv st'"
begin

text \<open>The invariant holds in every state a log projects to.\<close>

lemma replay_inv: "foldR step start es = Inr st \<Longrightarrow> inv st"
  by (rule foldR_invariant [where f = step and P = inv]) (auto intro: inv_start inv_step)

lemma replay_from_inv: "foldR step st es = Inr st' \<Longrightarrow> inv st \<Longrightarrow> inv st'"
  by (rule foldR_invariant [where f = step and P = inv]) (auto intro: inv_step)

text \<open>Induction over the accepted logs, with the invariant at hand.\<close>

lemma replay_induct:
  assumes "foldR step start es = Inr st"
    and "P [] start"
    and "\<And>es st e st'. foldR step start es = Inr st \<Longrightarrow> inv st \<Longrightarrow> P es st \<Longrightarrow>
      step st e = Inr st' \<Longrightarrow> P (es @ [e]) st'"
  shows "P es st"
  using assms(1)
proof (induction es arbitrary: st rule: rev_induct)
  case Nil
  with assms(2) show ?case by simp
next
  case (snoc e es)
  then obtain st0 where "foldR step start es = Inr st0" "step st0 e = Inr st"
    by (auto simp: foldR_append bindR_Inr_iff)
  with snoc.IH assms(3) replay_inv show ?case by blast
qed

text \<open>Acceptance is prefix closed: a log that replays has replayed at every earlier point.\<close>

lemma replay_prefix:
  assumes "foldR step start (es @ fs) = Inr st"
  obtains st0 where "foldR step start es = Inr st0" and "foldR step st0 fs = Inr st"
  using assms by (auto simp: foldR_append bindR_Inr_iff)

text \<open>Appending to a log continues from the projected state.\<close>

lemma replay_snoc:
  "foldR step start es = Inr st \<Longrightarrow> foldR step start (es @ [e]) = step st e"
  by (cases "step st e") (simp_all add: foldR_append)

lemma replay_extend:
  "foldR step start es = Inr st \<Longrightarrow> foldR step start (es @ fs) = foldR step st fs"
  by (simp add: foldR_append)

text \<open>Events the projection ignores do not matter.\<close>

lemma replay_ignored:
  assumes "\<And>st e. e \<in> set fs \<Longrightarrow> step st e = Inr st"
  shows "foldR step st fs = Inr st"
  using assms by (induction fs) auto

lemma replay_filter:
  assumes "\<And>st e. \<not> relevant e \<Longrightarrow> step st e = Inr st"
  shows "foldR step st (filter relevant es) = foldR step st es"
  using assms
proof (induction es arbitrary: st)
  case (Cons e es)
  then show ?case by (cases "step st e") auto
qed simp

end

text \<open>A projection whose states only grow in some order never forgets what it has recorded.\<close>

locale monotone_projection = event_projection step start inv
  for step :: "'st \<Rightarrow> 'e \<Rightarrow> exn + 'st" and start :: "'st" and inv :: "'st \<Rightarrow> bool" +
  fixes below :: "'st \<Rightarrow> 'st \<Rightarrow> bool"
  assumes below_refl: "below st st"
    and below_trans: "below a b \<Longrightarrow> below b c \<Longrightarrow> below a c"
    and below_step: "inv st \<Longrightarrow> step st e = Inr st' \<Longrightarrow> below st st'"
begin

lemma replay_from_below: "foldR step st es = Inr st' \<Longrightarrow> inv st \<Longrightarrow> below st st'"
proof (induction es arbitrary: st)
  case Nil
  then show ?case by (simp add: below_refl)
next
  case (Cons e es)
  then obtain st1 where s: "step st e = Inr st1" "foldR step st1 es = Inr st'"
    by (auto simp: bindR_Inr_iff)
  then have "below st1 st'" using Cons.IH Cons.prems(2) inv_step by blast
  then show ?case using s(1) Cons.prems(2) below_step below_trans by blast
qed

lemma replay_below:
  assumes "foldR step start es = Inr a" and "foldR step start (es @ fs) = Inr b"
  shows "below a b"
  using assms replay_from_below replay_inv by (simp add: replay_extend)

end

end
