(* ===== verification/Session_Messages.thy ===== *)
theory Session_Messages
  imports Model_Types Projection
begin

text \<open>
  The message projection of \<^verbatim>\<open>aihi/agent/sessions/session.py\<close>: the model-visible messages of an
  event log (\<^verbatim>\<open>project_messages\<close>) and the tool calls that have no result yet
  (\<^verbatim>\<open>find_orphan_tool_calls\<close>).
\<close>

definition MESSAGE_EVENT_TYPES :: "string list" where
  "MESSAGE_EVENT_TYPES =
     [''message.added'', ''user.message'', ''assistant.message'', ''system.message'', ''tool.result'']"

definition is_message_event :: "event \<Rightarrow> bool" where
  "is_message_event e \<longleftrightarrow> ev_type e \<in> set MESSAGE_EVENT_TYPES"

text \<open>A message without an id draws one; every message the runtime itself writes has an id.\<close>

definition decode_message_event :: "jobj \<Rightarrow> ('w world_scheme, message) sm" where
  "decode_message_event v =
     bindE (liftE (decode_message '''' v)) (\<lambda>m.
       if msg_id m = '''' then bindE new_message_id (\<lambda>i. retE (m\<lparr>msg_id := i\<rparr>)) else retE m)"

definition summary_envelope :: "jobj \<Rightarrow> jobj \<Rightarrow> jobj" where
  "summary_envelope data raw_summary =
     [(''message_schema_version'', get_or data ''summary_message_schema_version'' (JInt 1)),
      (''message'', JObj raw_summary)]"

text \<open>
  \<open>compact_messages\<close> puts a summary where the first replaced message was. The result is \<open>None\<close>
  where no message is replaced and the event changes nothing.
\<close>

definition compact_messages :: "string list \<Rightarrow> message list \<Rightarrow> (message \<Rightarrow> message list) option" where
  "compact_messages replaced msgs =
     (let insert_at = length (takeWhile (\<lambda>m. msg_id m \<notin> set replaced) msgs);
          kept = filter (\<lambda>m. msg_id m \<notin> set replaced) msgs
      in if insert_at = length msgs then None
         else Some (\<lambda>summary. take insert_at kept @ summary # drop insert_at kept))"

definition project_step :: "message list \<Rightarrow> event \<Rightarrow> ('w world_scheme, message list) sm" where
  "project_step msgs e =
     (if is_message_event e then
        (if is_JObj (get_or_none (ev_data e) ''message'')
         then bindE (decode_message_event (ev_data e)) (\<lambda>m. retE (msgs @ [m]))
         else retE msgs)
      else if ev_type e = ''compaction.created'' then
        (case (get_or (ev_data e) ''replaced_message_ids'' (JArr []), get_or_none (ev_data e) ''summary'') of
           (JArr replaced, JObj raw_summary) \<Rightarrow>
             (case compact_messages (map py_str replaced) msgs of
                None \<Rightarrow> retE msgs
              | Some place \<Rightarrow>
                  bindE (decode_message_event (summary_envelope (ev_data e) raw_summary))
                    (\<lambda>summary. retE (place summary)))
         | _ \<Rightarrow> retE msgs)
      else retE msgs)"

fun project_from :: "message list \<Rightarrow> event list \<Rightarrow> ('w world_scheme, message list) sm" where
  "project_from msgs [] = retE msgs"
| "project_from msgs (e # es) = bindE (project_step msgs e) (\<lambda>ms. project_from ms es)"

definition project_messages :: "event list \<Rightarrow> ('w world_scheme, message list) sm" where
  "project_messages es = project_from [] es"

section \<open>Tool calls without a result\<close>

record call_state =
  pending_calls :: "(string, tool_call_block) dict"
  completed_calls :: "string set"

definition open_call :: "call_state \<Rightarrow> tool_call_block \<Rightarrow> exn + call_state" where
  "open_call st c =
     (if dict_get (pending_calls st) (call_id c) \<noteq> None \<or> call_id c \<in> completed_calls st
      then Inl (Exn (Core EventInvariantViolation) (''Duplicate tool call id: '' @ call_id c))
      else Inr (st\<lparr>pending_calls := dict_set (call_id c) c (pending_calls st)\<rparr>))"

definition close_call :: "call_state \<Rightarrow> tool_result_block \<Rightarrow> exn + call_state" where
  "close_call st r =
     (let i = result_call_id r in
      if i \<in> completed_calls st
      then Inl (Exn (Core EventInvariantViolation) (''Multiple tool results for call: '' @ i))
      else if dict_get (pending_calls st) i = None
      then Inl (Exn (Core EventInvariantViolation) (''Tool result has no preceding call: '' @ i))
      else Inr (st\<lparr>pending_calls := dict_pop i (pending_calls st),
                  completed_calls := insert i (completed_calls st)\<rparr>))"

definition track_message :: "call_state \<Rightarrow> message \<Rightarrow> exn + call_state" where
  "track_message st m =
     bindR (foldR open_call st (tool_calls m)) (\<lambda>st'. foldR close_call st' (tool_results m))"

definition no_calls :: call_state where
  "no_calls = \<lparr>pending_calls = [], completed_calls = {}\<rparr>"

definition track_messages :: "message list \<Rightarrow> exn + call_state" where
  "track_messages msgs = foldR track_message no_calls msgs"

definition find_orphan_tool_calls :: "message list \<Rightarrow> exn + tool_call_block list" where
  "find_orphan_tool_calls msgs = bindR (track_messages msgs) (\<lambda>st. Inr (map snd (pending_calls st)))"

section \<open>Facts about tool calls\<close>

definition calls_inv :: "call_state \<Rightarrow> bool" where
  "calls_inv st \<longleftrightarrow> dict_wf (pending_calls st) \<and>
     (\<forall>(i, c) \<in> set (pending_calls st). call_id c = i \<and> i \<notin> completed_calls st)"

text \<open>Later states have opened and completed at least what earlier ones had.\<close>

definition known_calls :: "call_state \<Rightarrow> string set" where
  "known_calls st = fst ` set (pending_calls st) \<union> completed_calls st"

definition calls_below :: "call_state \<Rightarrow> call_state \<Rightarrow> bool" where
  "calls_below a b \<longleftrightarrow> known_calls a \<subseteq> known_calls b \<and> completed_calls a \<subseteq> completed_calls b"

lemma open_call_Inr:
  assumes "open_call st c = Inr st'"
  shows "st' = st\<lparr>pending_calls := pending_calls st @ [(call_id c, c)]\<rparr>" "call_id c \<notin> known_calls st"
proof -
  from assms have new: "dict_get (pending_calls st) (call_id c) = None" "call_id c \<notin> completed_calls st"
    and st': "st' = st\<lparr>pending_calls := dict_set (call_id c) c (pending_calls st)\<rparr>"
    by (auto simp: open_call_def split: if_splits)
  from new(1) have "dict_set (call_id c) c (pending_calls st) = pending_calls st @ [(call_id c, c)]"
    by (simp add: dict_set_new)
  with st' show "st' = st\<lparr>pending_calls := pending_calls st @ [(call_id c, c)]\<rparr>" by simp
  show "call_id c \<notin> known_calls st" using new by (simp add: known_calls_def dict_get_None)
qed

lemma close_call_Inr:
  assumes "close_call st r = Inr st'"
  shows "st' = st\<lparr>pending_calls := dict_pop (result_call_id r) (pending_calls st),
      completed_calls := insert (result_call_id r) (completed_calls st)\<rparr>"
    "result_call_id r \<in> fst ` set (pending_calls st)" "result_call_id r \<notin> completed_calls st"
  using assms by (auto simp: close_call_def Let_def dict_get_None split: if_splits)

lemma open_call_inv: "open_call st c = Inr st' \<Longrightarrow> calls_inv st \<Longrightarrow> calls_inv st' \<and> calls_below st st'"
proof -
  assume step: "open_call st c = Inr st'" and inv: "calls_inv st"
  note st' = open_call_Inr [OF step]
  have "call_id c \<notin> fst ` set (pending_calls st)" "call_id c \<notin> completed_calls st"
    using st'(2) by (auto simp: known_calls_def)
  then show ?thesis
    using inv by (auto simp: st'(1) calls_inv_def dict_wf_def calls_below_def known_calls_def)
qed

lemma close_call_inv: "close_call st r = Inr st' \<Longrightarrow> calls_inv st \<Longrightarrow> calls_inv st' \<and> calls_below st st'"
proof -
  assume step: "close_call st r = Inr st'" and inv: "calls_inv st"
  note st' = close_call_Inr [OF step]
  have "known_calls st' = known_calls st" using st'(2) by (auto simp: st'(1) known_calls_def)
  moreover have "calls_inv st'"
    using inv by (auto simp: st'(1) calls_inv_def dict_pop_filter dict_wf_def distinct_map inj_on_def)
  ultimately show ?thesis by (auto simp: calls_below_def st'(1))
qed

lemma calls_below_trans: "calls_below a b \<Longrightarrow> calls_below b c \<Longrightarrow> calls_below a c"
  by (auto simp: calls_below_def)

lemma foldR_calls_inv:
  assumes "\<And>st x st'. f st x = Inr st' \<Longrightarrow> calls_inv st \<Longrightarrow> calls_inv st' \<and> calls_below st st'"
    and "foldR f st xs = Inr st'" "calls_inv st"
  shows "calls_inv st' \<and> calls_below st st'"
  using assms(2,3)
proof (induction xs arbitrary: st)
  case Nil
  then show ?case by (simp add: calls_below_def)
next
  case (Cons x xs)
  then obtain st1 where "f st x = Inr st1" "foldR f st1 xs = Inr st'" by (auto simp: bindR_Inr_iff)
  with Cons assms(1) calls_below_trans show ?case by blast
qed

lemma foldR_open_inv:
  assumes "foldR open_call st cs = Inr st'" "calls_inv st"
  shows "calls_inv st' \<and> calls_below st st'"
  by (rule foldR_calls_inv [where f = open_call, OF _ assms]) (rule open_call_inv)

lemma foldR_close_inv:
  assumes "foldR close_call st rs = Inr st'" "calls_inv st"
  shows "calls_inv st' \<and> calls_below st st'"
  by (rule foldR_calls_inv [where f = close_call, OF _ assms]) (rule close_call_inv)

lemma track_message_inv:
  assumes "track_message st m = Inr st'" "calls_inv st"
  shows "calls_inv st' \<and> calls_below st st'"
proof -
  from assms(1) obtain st1 where "foldR open_call st (tool_calls m) = Inr st1"
    "foldR close_call st1 (tool_results m) = Inr st'"
    by (auto simp: track_message_def bindR_Inr_iff)
  then show ?thesis using assms(2) foldR_open_inv foldR_close_inv calls_below_trans by blast
qed

interpretation calls: monotone_projection track_message no_calls calls_inv calls_below
proof unfold_locales
  show "calls_inv no_calls" by (simp add: calls_inv_def no_calls_def)
  show "\<And>st e st'. calls_inv st \<Longrightarrow> track_message st e = Inr st' \<Longrightarrow> calls_inv st'"
    "\<And>st e st'. calls_inv st \<Longrightarrow> track_message st e = Inr st' \<Longrightarrow> calls_below st st'"
    using track_message_inv by blast+
qed (auto simp: calls_below_def)

lemmas track_inv = calls.replay_inv [folded track_messages_def]

text \<open>Results for calls that are pending close exactly those calls.\<close>

lemma close_calls:
  assumes "calls_inv st" "set ids \<subseteq> fst ` set (pending_calls st)" "distinct ids"
    and "map result_call_id rs = ids"
  shows "foldR close_call st rs = Inr (st\<lparr>
    pending_calls := filter (\<lambda>p. fst p \<notin> set ids) (pending_calls st),
    completed_calls := completed_calls st \<union> set ids\<rparr>)"
  using assms
proof (induction rs arbitrary: st ids)
  case Nil
  then show ?case by simp
next
  case (Cons r rs)
  then obtain i js where ids: "ids = i # js" "result_call_id r = i" "map result_call_id rs = js" by auto
  have pend: "i \<in> fst ` set (pending_calls st)" and new: "i \<notin> completed_calls st"
    using Cons.prems(1,2) by (auto simp: ids calls_inv_def)
  define st1 where "st1 = st\<lparr>pending_calls := dict_pop i (pending_calls st),
      completed_calls := insert i (completed_calls st)\<rparr>"
  have step: "close_call st r = Inr st1"
    using pend new by (simp add: close_call_def ids(2) dict_get_None st1_def)
  have "foldR close_call st1 rs = Inr (st1\<lparr>
      pending_calls := filter (\<lambda>p. fst p \<notin> set js) (pending_calls st1),
      completed_calls := completed_calls st1 \<union> set js\<rparr>)"
  proof (rule Cons.IH)
    show "calls_inv st1" using close_call_inv [OF step Cons.prems(1)] by blast
    show "set js \<subseteq> fst ` set (pending_calls st1)"
      using Cons.prems(2,3) by (auto simp: ids st1_def)
  qed (use Cons.prems ids in auto)
  moreover have "filter (\<lambda>p. fst p \<notin> set js) (dict_pop i (pending_calls st)) =
      filter (\<lambda>p. fst p \<notin> set ids) (pending_calls st)"
    by (auto simp: dict_pop_filter ids(1) intro!: filter_cong)
  ultimately show ?case using step by (simp add: st1_def ids(1))
qed

lemma calls_inv_ids: "calls_inv st \<Longrightarrow> map fst (pending_calls st) = map (call_id \<circ> snd) (pending_calls st)"
  by (auto simp: calls_inv_def)

text \<open>
  A call is open exactly when some message opens it and none closes it; in an accepted
  conversation every call is opened once and closed at most once.
\<close>

definition opens :: "message list \<Rightarrow> string list" where
  "opens msgs = concat (map (\<lambda>m. map call_id (tool_calls m)) msgs)"

definition closes :: "message list \<Rightarrow> string list" where
  "closes msgs = concat (map (\<lambda>m. map result_call_id (tool_results m)) msgs)"

lemma opens_snoc: "opens (msgs @ [m]) = opens msgs @ map call_id (tool_calls m)"
  and closes_snoc: "closes (msgs @ [m]) = closes msgs @ map result_call_id (tool_results m)"
  by (simp_all add: opens_def closes_def)

lemma foldR_open_known:
  "foldR open_call st cs = Inr st' \<Longrightarrow>
   known_calls st' = known_calls st \<union> call_id ` set cs \<and> completed_calls st' = completed_calls st \<and>
   distinct (map call_id cs) \<and> call_id ` set cs \<inter> known_calls st = {}"
proof (induction cs arbitrary: st)
  case (Cons c cs)
  then obtain st1 where s: "open_call st c = Inr st1" "foldR open_call st1 cs = Inr st'"
    by (auto simp: bindR_Inr_iff)
  note st1 = open_call_Inr [OF s(1)]
  have "known_calls st1 = insert (call_id c) (known_calls st)" "completed_calls st1 = completed_calls st"
    by (auto simp: st1(1) known_calls_def)
  with Cons.IH [OF s(2)] st1(2) show ?case by auto
qed simp

lemma foldR_close_known:
  "foldR close_call st rs = Inr st' \<Longrightarrow>
   known_calls st' = known_calls st \<and> completed_calls st' = completed_calls st \<union> result_call_id ` set rs \<and>
   distinct (map result_call_id rs) \<and> result_call_id ` set rs \<inter> completed_calls st = {} \<and>
   result_call_id ` set rs \<subseteq> known_calls st"
proof (induction rs arbitrary: st)
  case (Cons r rs)
  then obtain st1 where s: "close_call st r = Inr st1" "foldR close_call st1 rs = Inr st'"
    by (auto simp: bindR_Inr_iff)
  note st1 = close_call_Inr [OF s(1)]
  have "known_calls st1 = known_calls st" "completed_calls st1 = insert (result_call_id r) (completed_calls st)"
    using st1(2) by (auto simp: st1(1) known_calls_def)
  with Cons.IH [OF s(2)] st1(2,3) show ?case by (auto simp: known_calls_def)
qed simp

lemma track_messages_known:
  assumes "track_messages msgs = Inr st"
  shows "known_calls st = set (opens msgs)" "completed_calls st = set (closes msgs)"
    "distinct (opens msgs)" "distinct (closes msgs)"
proof -
  have "known_calls st = set (opens msgs) \<and> completed_calls st = set (closes msgs) \<and>
      distinct (opens msgs) \<and> distinct (closes msgs)"
    using assms
  proof (induction msgs arbitrary: st rule: rev_induct)
    case Nil
    then show ?case by (auto simp: track_messages_def no_calls_def known_calls_def opens_def closes_def)
  next
    case (snoc m msgs)
    then obtain st0 where st0: "track_messages msgs = Inr st0" "track_message st0 m = Inr st"
      by (auto simp: track_messages_def foldR_append bindR_Inr_iff)
    then obtain st1 where st1: "foldR open_call st0 (tool_calls m) = Inr st1"
      "foldR close_call st1 (tool_results m) = Inr st" by (auto simp: track_message_def bindR_Inr_iff)
    have o0: "known_calls st0 = set (opens msgs)" and c0: "completed_calls st0 = set (closes msgs)"
      and d0: "distinct (opens msgs)" "distinct (closes msgs)"
      using snoc.IH [OF st0(1)] by simp_all
    have o1: "known_calls st1 = set (opens msgs) \<union> call_id ` set (tool_calls m)"
      "completed_calls st1 = set (closes msgs)" "distinct (map call_id (tool_calls m))"
      "call_id ` set (tool_calls m) \<inter> set (opens msgs) = {}"
      using foldR_open_known [OF st1(1)] by (simp_all add: o0 c0)
    have c1: "known_calls st = known_calls st1"
      "completed_calls st = completed_calls st1 \<union> result_call_id ` set (tool_results m)"
      "distinct (map result_call_id (tool_results m))"
      "result_call_id ` set (tool_results m) \<inter> completed_calls st1 = {}"
      using foldR_close_known [OF st1(2)] by simp_all
    have "distinct (opens (msgs @ [m]))" "distinct (closes (msgs @ [m]))"
      using d0 o1(3,4) c1(3,4) unfolding opens_snoc closes_snoc distinct_append set_map o1(2)
      by (simp_all add: Int_commute)
    moreover have "known_calls st = set (opens (msgs @ [m]))" "completed_calls st = set (closes (msgs @ [m]))"
      unfolding opens_snoc closes_snoc set_append set_map c1(1,2) o1(1,2) by (rule refl)+
    ultimately show ?case by blast
  qed
  then show "known_calls st = set (opens msgs)" "completed_calls st = set (closes msgs)"
    "distinct (opens msgs)" "distinct (closes msgs)" by auto
qed

lemma orphans_exact:
  assumes "find_orphan_tool_calls msgs = Inr cs"
  shows "set (map call_id cs) = set (opens msgs) - set (closes msgs)" "distinct (map call_id cs)"
    "distinct (opens msgs)" "distinct (closes msgs)"
proof -
  from assms obtain st where st: "track_messages msgs = Inr st" "cs = map snd (pending_calls st)"
    by (auto simp: find_orphan_tool_calls_def bindR_Inr_iff)
  have inv: "calls_inv st" using track_inv [OF st(1)] .
  have ids: "map call_id cs = map fst (pending_calls st)"
    using calls_inv_ids [OF inv] by (simp add: st(2))
  have "fst ` set (pending_calls st) \<inter> completed_calls st = {}" using inv by (auto simp: calls_inv_def)
  moreover note track_messages_known [OF st(1)]
  ultimately show "set (map call_id cs) = set (opens msgs) - set (closes msgs)"
    "distinct (opens msgs)" "distinct (closes msgs)"
    unfolding ids by (auto simp: known_calls_def)
  show "distinct (map call_id cs)" unfolding ids using inv by (simp add: calls_inv_def dict_wf_def)
qed

end
