(* ===== verification/Event_Store.thy ===== *)
theory Event_Store
  imports Events "HOL-Library.Char_ord" "HOL-Library.List_Lexorder"
begin

text \<open>
  The append-only event stores with optimistic concurrency: \<^verbatim>\<open>aihi/agent/sessions/store.py\<close>. This
  theory has the contract every store promises, as a locale over an abstract log, with what a
  client may conclude from it, and the in-memory store; \<open>Sqlite_Store\<close> has the other one.

  Every method holds the store's lock from its first to its last line, so each is one step. The
  clock reading of \<^verbatim>\<open>create_session\<close> is an argument of the model's operation. JSON text is
  represented by the value it denotes: \<^verbatim>\<open>json.loads(json.dumps(v))\<close> is \<open>v\<close> on values that
  \<open>json_ok\<close> admits.
\<close>

record session_info =
  info_session :: string
  info_head :: int
  info_created :: string
  info_metadata :: jobj
  info_parent :: "string option"

definition session_not_found :: "string \<Rightarrow> exn" where
  "session_not_found sid = Exn (Core SessionNotFound) sid"

definition session_exists :: "string \<Rightarrow> exn" where
  "session_exists sid = Exn (Core ConcurrencyConflict) (''Session already exists: '' @ sid)"

definition seq_conflict :: "string \<Rightarrow> int \<Rightarrow> int \<Rightarrow> exn" where
  "seq_conflict sid expected actual =
     Exn (Core ConcurrencyConflict)
       (''Expected session '' @ sid @ '' at seq '' @ show_int expected @ '', found '' @ show_int actual)"

definition duplicate_ids :: exn where
  "duplicate_ids = Exn (Core EventConflict) ''An append batch contains duplicate event ids''"

definition event_exists :: "string \<Rightarrow> exn" where
  "event_exists i = Exn (Core EventConflict) (''Event already exists: '' @ i)"

definition wrong_session :: exn where
  "wrong_session = Exn (Py ValueError) ''Cannot append an event to a different session''"

text \<open>\<^verbatim>\<open>_json_dump\<close> and \<^verbatim>\<open>_json_copy\<close> of a dict.\<close>

definition json_copy :: "jobj \<Rightarrow> string \<Rightarrow> exn + jobj" where
  "json_copy v field =
     (if json_ok_obj v then Inr v
      else Inl (Exn (Py ValueError) (field @ '' must be JSON serializable'')))"

section \<open>The contract\<close>

text \<open>A session as its clients see it: what it was created with and its log.\<close>

record session_log =
  log_created :: string
  log_metadata :: jobj
  log_parent :: "string option"
  log_events :: "event list"

type_synonym store_view = "string \<Rightarrow> session_log option"

definition view_ids :: "store_view \<Rightarrow> string set" where
  "view_ids v = (\<Union>l \<in> ran v. ev_id ` set (log_events l))"

definition numbered :: "int \<Rightarrow> event list \<Rightarrow> event list" where
  "numbered n es = map (\<lambda>(offset, e). persisted e (n + offset)) (enumerate_from 1 es)"

definition admissible :: "store_view \<Rightarrow> string \<Rightarrow> int \<Rightarrow> event list \<Rightarrow> bool" where
  "admissible v sid n es \<longleftrightarrow>
     (\<exists>l. v sid = Some l \<and> int (length (log_events l)) = n) \<and>
     distinct (map ev_id es) \<and>
     (\<forall>e \<in> set es. ev_session e = sid \<and> ev_id e \<notin> view_ids v \<and> json_ok_obj (ev_data e))"

definition extend_log :: "store_view \<Rightarrow> string \<Rightarrow> event list \<Rightarrow> store_view" where
  "extend_log v sid es = v(sid := map_option (\<lambda>l. l\<lparr>log_events := log_events l @ es\<rparr>) (v sid))"

definition info_of :: "string \<Rightarrow> session_log \<Rightarrow> session_info" where
  "info_of sid l = \<lparr>info_session = sid, info_head = int (length (log_events l)),
     info_created = log_created l, info_metadata = log_metadata l, info_parent = log_parent l\<rparr>"

text \<open>What holds of every log in a store: numbered from one, durable, its own, unique ids.\<close>

definition log_ok :: "string \<Rightarrow> session_log \<Rightarrow> bool" where
  "log_ok sid l \<longleftrightarrow>
     map ev_seq (log_events l) = map (\<lambda>n. Some (int n)) [1..<Suc (length (log_events l))] \<and>
     (\<forall>e \<in> set (log_events l). ev_session e = sid \<and> \<not> ev_ephemeral e \<and> json_ok_obj (ev_data e)) \<and>
     distinct (map ev_id (log_events l))"

definition view_ok :: "store_view \<Rightarrow> bool" where
  "view_ok v \<longleftrightarrow>
     (\<forall>sid l. v sid = Some l \<longrightarrow> log_ok sid l) \<and>
     (\<forall>a b la lb. v a = Some la \<longrightarrow> v b = Some lb \<longrightarrow> a \<noteq> b \<longrightarrow>
        ev_id ` set (log_events la) \<inter> ev_id ` set (log_events lb) = {})"

lemma view_ids_mem: "v sid = Some l \<Longrightarrow> ev_id ` set (log_events l) \<subseteq> view_ids v"
  by (auto simp: view_ids_def ran_def)

lemma numbered_simps [simp]:
  "numbered n [] = []" "length (numbered n es) = length es"
  "map ev_id (numbered n es) = map ev_id es"
  "map ev_data (numbered n es) = map ev_data es"
  "map ev_type (numbered n es) = map ev_type es"
  "map ev_run (numbered n es) = map ev_run es"
proof -
  have *: "map f (numbered n es) = map f es" if "\<And>e m. f (persisted e m) = f e" for f :: "event \<Rightarrow> 'a"
  proof -
    have "map f (numbered n es) = map (f \<circ> snd) (enumerate_from 1 es)"
      unfolding numbered_def using that by (simp add: split_beta)
    also have "\<dots> = map f (map snd (enumerate_from 1 es))" by (simp only: map_map)
    finally show ?thesis by (simp only: map_snd_enumerate_from)
  qed
  show "numbered n [] = []" "length (numbered n es) = length es" by (simp_all add: numbered_def)
  show "map ev_id (numbered n es) = map ev_id es" "map ev_data (numbered n es) = map ev_data es"
    "map ev_type (numbered n es) = map ev_type es" "map ev_run (numbered n es) = map ev_run es"
    by (auto intro!: *)
qed

lemma enumerate_from_eq: "enumerate_from i xs = map (\<lambda>k. (i + int k, xs ! k)) [0..<length xs]"
  by (rule nth_equalityI) (simp_all add: enumerate_from_def)

lemma numbered_eq: "numbered n es = map (\<lambda>k. persisted (es ! k) (n + 1 + int k)) [0..<length es]"
  by (simp add: numbered_def enumerate_from_eq add.assoc)

lemma numbered_mem: "e \<in> set (numbered n es) \<Longrightarrow> \<exists>e0 \<in> set es. \<exists>k. e = persisted e0 k"
  by (auto simp: numbered_eq)

lemma numbered_Cons: "numbered n (e # es) = persisted e (n + 1) # numbered (n + 1) es"
proof (rule nth_equalityI)
  show "length (numbered n (e # es)) = length (persisted e (n + 1) # numbered (n + 1) es)" by simp
  fix i
  assume "i < length (numbered n (e # es))"
  then show "numbered n (e # es) ! i = (persisted e (n + 1) # numbered (n + 1) es) ! i"
    by (cases i) (simp_all add: numbered_eq ac_simps del: upt_Suc)
qed

lemma numbered_append: "numbered n (es @ fs) = numbered n es @ numbered (n + int (length es)) fs"
proof (induction es arbitrary: n)
  case (Cons e es)
  show ?case
    using Cons.IH [of "n + 1"] by (simp add: numbered_Cons ac_simps)
qed simp

lemma numbered_seqs:
  "map ev_seq (numbered (int m) es) = map (\<lambda>n. Some (int n)) [Suc m..<Suc (m + length es)]"
  by (rule nth_equalityI) (simp_all add: numbered_eq del: upt_Suc)

lemma view_ok_update:
  assumes ok: "view_ok v" and l: "log_ok sid l"
    and apart: "\<And>s k. v s = Some k \<Longrightarrow> s \<noteq> sid \<Longrightarrow>
      ev_id ` set (log_events l) \<inter> ev_id ` set (log_events k) = {}"
  shows "view_ok (v(sid \<mapsto> l))"
  unfolding view_ok_def
proof (intro conjI allI impI)
  fix s k
  assume "(v(sid \<mapsto> l)) s = Some k"
  then show "log_ok s k" using ok l by (cases "s = sid") (simp_all add: view_ok_def)
next
  fix a b la lb
  assume la: "(v(sid \<mapsto> l)) a = Some la" and lb: "(v(sid \<mapsto> l)) b = Some lb" and ab: "a \<noteq> b"
  consider "a = sid" | "b = sid" | "a \<noteq> sid" "b \<noteq> sid" by blast
  then show "ev_id ` set (log_events la) \<inter> ev_id ` set (log_events lb) = {}"
  proof cases
    case 1
    with la lb ab apart show ?thesis by simp
  next
    case 2
    with la lb ab apart [of a la] show ?thesis by (simp add: Int_commute)
  next
    case 3
    with la lb ab ok show ?thesis by (simp add: view_ok_def)
  qed
qed

lemma extend_log_eq:
  "v sid = Some l \<Longrightarrow> extend_log v sid es = v(sid \<mapsto> l\<lparr>log_events := log_events l @ es\<rparr>)"
  by (simp add: extend_log_def)

lemma extend_log_ok:
  assumes ok: "view_ok v" and adm: "admissible v sid n es"
  shows "view_ok (extend_log v sid (numbered n es))"
proof -
  from adm obtain l where l: "v sid = Some l" "int (length (log_events l)) = n"
    by (auto simp: admissible_def)
  define l' where "l' = l\<lparr>log_events := log_events l @ numbered n es\<rparr>"
  have lok: "log_ok sid l" using ok l(1) by (simp add: view_ok_def)
  have ids: "ev_id ` set (numbered n es) = ev_id ` set es"
    by (metis list.set_map numbered_simps(3))
  have fresh: "ev_id ` set es \<inter> view_ids v = {}" using adm by (auto simp: admissible_def)
  have seqs: "map ev_seq (log_events l') = map (\<lambda>n. Some (int n)) [1..<Suc (length (log_events l'))]"
  proof -
    have "map ev_seq (log_events l) = map (\<lambda>n. Some (int n)) [1..<Suc (length (log_events l))]"
      using lok by (simp add: log_ok_def)
    moreover have "[1..<Suc (length (log_events l'))]
        = [1..<Suc (length (log_events l))] @ [Suc (length (log_events l))..<Suc (length (log_events l) + length es)]"
      using upt_add_eq_append [of 1 "Suc (length (log_events l))" "length es"]
      by (simp add: l'_def del: upt_Suc)
    ultimately show ?thesis
      using numbered_seqs [of "length (log_events l)" es] by (simp add: l'_def l(2) del: upt_Suc)
  qed
  have each: "\<forall>e \<in> set (log_events l'). ev_session e = sid \<and> \<not> ev_ephemeral e \<and> json_ok_obj (ev_data e)"
    using lok adm by (auto simp: l'_def log_ok_def admissible_def dest!: numbered_mem)
  have dist: "distinct (map ev_id (log_events l'))"
    using lok adm fresh view_ids_mem [of v sid l, OF l(1)] ids
    by (auto simp: l'_def log_ok_def admissible_def)
  have "log_ok sid l'" using seqs each dist by (simp add: log_ok_def)
  moreover have "ev_id ` set (log_events l') \<inter> ev_id ` set (log_events k) = {}"
    if "v s = Some k" "s \<noteq> sid" for s k
  proof -
    have "ev_id ` set (log_events l) \<inter> ev_id ` set (log_events k) = {}"
      using ok l(1) that unfolding view_ok_def by blast
    moreover have "ev_id ` set (log_events l') = ev_id ` set (log_events l) \<union> ev_id ` set es"
      by (simp add: l'_def image_Un ids)
    moreover have "ev_id ` set es \<inter> ev_id ` set (log_events k) = {}"
      using fresh view_ids_mem [where v = v, OF that(1)] by blast
    ultimately show ?thesis by (simp only: Int_Un_distrib2 Un_empty simp_thms)
  qed
  ultimately show ?thesis unfolding extend_log_eq [of v sid l, OF l(1)] l'_def [symmetric]
    by (rule view_ok_update [OF ok])
qed

definition current_version :: "event \<Rightarrow> bool" where
  "current_version e \<longleftrightarrow> ev_version e = EVENT_SCHEMA_VERSION"

definition after_seq :: "int \<Rightarrow> event list \<Rightarrow> event list" where
  "after_seq k es = filter (\<lambda>e. (case ev_seq e of None \<Rightarrow> 0 | Some n \<Rightarrow> n) > k) es"

definition new_log :: "string \<Rightarrow> jobj \<Rightarrow> string option \<Rightarrow> session_log" where
  "new_log now md parent =
     \<lparr>log_created = now, log_metadata = md, log_parent = parent, log_events = []\<rparr>"

text \<open>
  \<open>view\<close> reads a store as its clients may see it. An operation that fails leaves the store as it
  was; one that succeeds does to the view what the contract says.
\<close>

locale event_store =
  fixes create :: "string \<Rightarrow> string \<Rightarrow> jobj \<Rightarrow> string option \<Rightarrow> ('st, unit) sm"
    and append :: "string \<Rightarrow> int \<Rightarrow> event list \<Rightarrow> ('st, event list) sm"
    and read :: "string \<Rightarrow> int \<Rightarrow> ('st, event list) sm"
    and get :: "string \<Rightarrow> ('st, session_info) sm"
    and wf :: "'st \<Rightarrow> bool"
    and view :: "'st \<Rightarrow> store_view"
  assumes wf_view: "wf s \<Longrightarrow> view_ok (view s)"
    and create_ok: "wf s \<Longrightarrow> view s sid = None \<Longrightarrow> json_ok_obj md \<Longrightarrow>
      \<exists>s'. create now sid md parent s = (Inr (), s') \<and> wf s' \<and>
           view s' = (view s)(sid \<mapsto> new_log now md parent)"
    and create_fails: "wf s \<Longrightarrow> view s sid \<noteq> None \<or> \<not> json_ok_obj md \<Longrightarrow>
      \<exists>e. create now sid md parent s = (Inl e, s)"
    and append_ok: "wf s \<Longrightarrow> admissible (view s) sid n es \<Longrightarrow>
      \<exists>s'. append sid n es s = (Inr (numbered n es), s') \<and> wf s' \<and>
           view s' = extend_log (view s) sid (numbered n es)"
    and append_fails: "wf s \<Longrightarrow> \<not> admissible (view s) sid n es \<Longrightarrow> \<exists>e. append sid n es s = (Inl e, s)"
    and get_ok: "wf s \<Longrightarrow> view s sid = Some l \<Longrightarrow> get sid s = (Inr (info_of sid l), s)"
    and get_fails: "wf s \<Longrightarrow> view s sid = None \<Longrightarrow> get sid s = (Inl (session_not_found sid), s)"
    and read_ok: "wf s \<Longrightarrow> view s sid = Some l \<Longrightarrow> list_all current_version (log_events l) \<Longrightarrow>
      read sid k s = (Inr (after_seq k (log_events l)), s)"
    and read_fails: "wf s \<Longrightarrow> view s sid = None \<Longrightarrow> read sid k s = (Inl (session_not_found sid), s)"
begin

lemma append_cases:
  assumes "wf s" and "append sid n es s = (r, s')"
  obtains (accepted) "admissible (view s) sid n es" "r = Inr (numbered n es)" "wf s'"
      "view s' = extend_log (view s) sid (numbered n es)"
  | (rejected) e where "\<not> admissible (view s) sid n es" "r = Inl e" "s' = s"
  using append_ok [OF assms(1), of sid n es] append_fails [OF assms(1), of sid n es] assms(2)
  by (cases "admissible (view s) sid n es") auto

lemma create_cases:
  assumes "wf s" and "create now sid md parent s = (r, s')"
  obtains (created) "view s sid = None" "json_ok_obj md" "r = Inr ()" "wf s'"
      "view s' = (view s)(sid \<mapsto> new_log now md parent)"
  | (rejected) e where "view s sid \<noteq> None \<or> \<not> json_ok_obj md" "r = Inl e" "s' = s"
  using create_ok [OF assms(1), of sid md now parent] create_fails [OF assms(1), of sid md now parent]
    assms(2)
  by (cases "view s sid = None \<and> json_ok_obj md") auto

lemma append_preserves: "wf s \<Longrightarrow> append sid n es s = (r, s') \<Longrightarrow> wf s'"
  by (rule append_cases) auto

lemma create_preserves: "wf s \<Longrightarrow> create now sid md parent s = (r, s') \<Longrightarrow> wf s'"
  by (rule create_cases) auto

text \<open>Optimistic concurrency: of two writers that saw the same head, one wins.\<close>

lemma single_winner:
  assumes "wf s" "append sid n es s = (Inr ps, s1)" "es \<noteq> []"
  shows "\<exists>e. append sid n fs s1 = (Inl e, s1)"
proof (rule append_cases [OF assms(1,2)])
  assume adm: "admissible (view s) sid n es" and "wf s1"
    and v: "view s1 = extend_log (view s) sid (numbered n es)"
  from adm have "\<not> admissible (view s1) sid n fs"
    using assms(3) by (auto simp: admissible_def v extend_log_def)
  with \<open>wf s1\<close> show ?thesis by (rule append_fails)
qed simp

text \<open>What was appended is what is read back, and nothing before it has changed.\<close>

lemma append_read:
  assumes "wf s" "append sid n es s = (Inr ps, s1)"
    "view s sid = Some l" "list_all current_version (log_events l @ es)"
  shows "read sid 0 s1 = (Inr (log_events l @ ps), s1)" "read sid n s1 = (Inr ps, s1)"
proof (rule_tac [!] append_cases [OF assms(1,2)])
  assume adm: "admissible (view s) sid n es" and ps: "Inr ps = Inr (numbered n es)" and wf1: "wf s1"
    and v: "view s1 = extend_log (view s) sid (numbered n es)"
  define l1 where "l1 = l\<lparr>log_events := log_events l @ numbered n es\<rparr>"
  have v1: "view s1 sid = Some l1" by (simp add: v extend_log_def assms(3) l1_def)
  have n: "n = int (length (log_events l))" using adm assms(3) by (auto simp: admissible_def)
  have cur: "list_all current_version (log_events l1)"
    using assms(4) by (auto simp: l1_def list_all_iff current_version_def dest!: numbered_mem)
  have seqs: "map ev_seq (log_events l1) = map (\<lambda>n. Some (int n)) [1..<Suc (length (log_events l1))]"
    using wf_view [OF wf1] v1 by (auto simp: view_ok_def log_ok_def)
  have seq: "ev_seq (log_events l1 ! k) = Some (int (Suc k))" if "k < length (log_events l1)" for k
    using arg_cong [OF seqs, of "\<lambda>xs. xs ! k"] that by (simp del: upt_Suc)
  have pos: "\<forall>e \<in> set (log_events l1). \<exists>m. ev_seq e = Some (int (Suc m))"
    by (auto simp: in_set_conv_nth seq)
  have "after_seq 0 (log_events l1) = log_events l1"
    unfolding after_seq_def by (rule filter_True) (use pos in auto)
  then show "read sid 0 s1 = (Inr (log_events l @ ps), s1)"
    using read_ok [OF wf1 v1 cur, of 0] ps by (simp add: l1_def)
  have low: "\<exists>m < length (log_events l). ev_seq e = Some (int (Suc m))" if "e \<in> set (log_events l)" for e
  proof -
    from that obtain k where "k < length (log_events l)" "e = log_events l ! k"
      by (auto simp: in_set_conv_nth)
    then show ?thesis using seq [of k] by (auto simp: l1_def nth_append)
  qed
  have high: "\<exists>m. ev_seq e = Some (n + 1 + int m)" if "e \<in> set (numbered n es)" for e
    using that by (auto simp: numbered_eq)
  have "after_seq n (log_events l) = []"
    unfolding after_seq_def filter_empty_conv using low n by fastforce
  moreover have "after_seq n (numbered n es) = numbered n es"
    unfolding after_seq_def by (rule filter_True) (use high in fastforce)
  ultimately have "after_seq n (log_events l1) = numbered n es"
    by (simp add: l1_def after_seq_def)
  then show "read sid n s1 = (Inr ps, s1)"
    using read_ok [OF wf1 v1 cur, of n] ps by simp
qed simp_all

lemma append_get:
  assumes "wf s" "append sid n es s = (Inr ps, s1)" "view s sid = Some l"
  shows "get sid s1 = (Inr ((info_of sid l)\<lparr>info_head := n + int (length es)\<rparr>), s1)"
proof (rule append_cases [OF assms(1,2)])
  assume adm: "admissible (view s) sid n es" and wf1: "wf s1"
    and v: "view s1 = extend_log (view s) sid (numbered n es)"
  have "view s1 sid = Some (l\<lparr>log_events := log_events l @ numbered n es\<rparr>)"
    by (simp add: v extend_log_def assms(3))
  moreover have "n = int (length (log_events l))" using adm assms(3) by (auto simp: admissible_def)
  ultimately show ?thesis using get_ok [OF wf1] by (simp add: info_of_def)
qed simp

end

section \<open>Listing and refusals\<close>

text \<open>
  What both stores promise beyond the log. A list of sessions is cut from a roster: every session
  once, the newest first, where the order of sessions created at the same instant is open. A call
  whose arguments are sound is refused with the same exception by every store; where several things
  are wrong with the arguments themselves, stores may name another of them first.
\<close>

definition roster :: "store_view \<Rightarrow> session_info list \<Rightarrow> bool" where
  "roster v xs \<longleftrightarrow>
     distinct (map info_session xs) \<and> set xs = {info_of sid l | sid l. v sid = Some l} \<and>
     sorted_wrt (\<lambda>a b. info_created b \<le> info_created a) xs"

definition times_apart :: "store_view \<Rightarrow> bool" where
  "times_apart v \<longleftrightarrow>
     (\<forall>a b la lb. v a = Some la \<longrightarrow> v b = Some lb \<longrightarrow> log_created la = log_created lb \<longrightarrow> a = b)"

definition sound_batch :: "string \<Rightarrow> event list \<Rightarrow> bool" where
  "sound_batch sid es \<longleftrightarrow> (\<forall>e \<in> set es. ev_session e = sid \<and> json_ok_obj (ev_data e))"

definition append_refusal :: "store_view \<Rightarrow> string \<Rightarrow> int \<Rightarrow> event list \<Rightarrow> exn" where
  "append_refusal v sid n es =
     (case v sid of
        None \<Rightarrow> session_not_found sid
      | Some l \<Rightarrow>
          if int (length (log_events l)) \<noteq> n then seq_conflict sid n (int (length (log_events l)))
          else if \<not> distinct (map ev_id es) then duplicate_ids
          else event_exists (the (find_first (\<lambda>i. i \<in> view_ids v) (map ev_id es))))"

lemma roster_unique:
  assumes "roster v xs" "roster v ys" "times_apart v"
  shows "xs = ys"
proof -
  have sets: "set xs = set ys" using assms(1,2) by (simp add: roster_def)
  have inj: "inj_on info_created (set xs)"
  proof (rule inj_onI)
    fix i j
    assume "i \<in> set xs" "j \<in> set xs" and same: "info_created i = info_created j"
    then obtain a b la lb where i: "v a = Some la" "i = info_of a la" and j: "v b = Some lb" "j = info_of b lb"
      using assms(1) by (auto simp: roster_def)
    with same have "log_created la = log_created lb" by (simp add: info_of_def)
    with assms(3) i j have "a = b" unfolding times_apart_def by blast
    with i j show "i = j" by simp
  qed
  have "rev xs = rev ys"
  proof (rule map_sorted_distinct_set_unique [where f = info_created])
    show "inj_on info_created (set (rev xs) \<union> set (rev ys))" using inj sets by simp
    show "sorted (map info_created (rev xs))" "sorted (map info_created (rev ys))"
      using assms(1,2) by (simp_all add: roster_def sorted_map sorted_wrt_rev)
    have "distinct xs" "distinct ys" using assms(1,2) by (simp_all add: roster_def distinct_map)
    then show "distinct (map info_created (rev xs))" "distinct (map info_created (rev ys))"
      using inj sets by (simp_all add: distinct_map)
    show "set (rev xs) = set (rev ys)" using sets by simp
  qed
  then show ?thesis by simp
qed

lemma not_admissible_sound:
  assumes "\<not> admissible v sid n es" "sound_batch sid es" "v sid = Some l"
    "int (length (log_events l)) = n" "distinct (map ev_id es)"
  shows "\<exists>e \<in> set es. ev_id e \<in> view_ids v"
  using assms by (auto simp: admissible_def sound_batch_def)

locale listed_store =
  event_store create append read get wf view
  for create :: "string \<Rightarrow> string \<Rightarrow> jobj \<Rightarrow> string option \<Rightarrow> ('st, unit) sm"
    and append :: "string \<Rightarrow> int \<Rightarrow> event list \<Rightarrow> ('st, event list) sm"
    and read :: "string \<Rightarrow> int \<Rightarrow> ('st, event list) sm"
    and get :: "string \<Rightarrow> ('st, session_info) sm"
    and wf :: "'st \<Rightarrow> bool"
    and view :: "'st \<Rightarrow> store_view" +
  fixes listing :: "int \<Rightarrow> ('st, session_info list) sm"
  assumes listing_ok: "wf s \<Longrightarrow> 0 \<le> limit \<Longrightarrow>
      \<exists>xs. listing limit s = (Inr (take (nat limit) xs), s) \<and> roster (view s) xs"
    and listing_answers: "\<exists>xs. listing limit s = (Inr xs, s)"
    and create_taken: "wf s \<Longrightarrow> view s sid \<noteq> None \<Longrightarrow> json_ok_obj md \<Longrightarrow>
      create now sid md parent s = (Inl (session_exists sid), s)"
    and append_refused: "wf s \<Longrightarrow> \<not> admissible (view s) sid n es \<Longrightarrow> sound_batch sid es \<Longrightarrow>
      append sid n es s = (Inl (append_refusal (view s) sid n es), s)"

section \<open>The in-memory store\<close>

record memory_store =
  ms_sessions :: "(string, session_info) dict"
  ms_events :: "(string, event list) dict"
  ms_event_sessions :: "(string, string) dict"

definition memory_empty :: memory_store where
  "memory_empty = \<lparr>ms_sessions = [], ms_events = [], ms_event_sessions = []\<rparr>"

definition memory_create :: "string \<Rightarrow> string \<Rightarrow> jobj \<Rightarrow> string option \<Rightarrow> (memory_store, unit) sm" where
  "memory_create now sid md parent =
     bindE getE (\<lambda>m.
       if dict_get (ms_sessions m) sid \<noteq> None then raiseE (session_exists sid)
       else bindE (liftE (json_copy md ''session metadata'')) (\<lambda>copy.
         putE (m\<lparr>ms_sessions := dict_set sid \<lparr>info_session = sid, info_head = 0, info_created = now,
                   info_metadata = copy, info_parent = parent\<rparr> (ms_sessions m),
                 ms_events := dict_set sid [] (ms_events m)\<rparr>)))"

text \<open>One iteration of the loop of \<^verbatim>\<open>append\<close>: the checks on an event and its durable copy.\<close>

definition memory_admit :: "memory_store \<Rightarrow> string \<Rightarrow> int \<Rightarrow> int \<times> event \<Rightarrow> exn + event" where
  "memory_admit m sid expected_seq oe =
     (let (offset, e) = oe in
      if ev_session e \<noteq> sid then Inl wrong_session
      else if dict_get (ms_event_sessions m) (ev_id e) \<noteq> None then Inl (event_exists (ev_id e))
      else bindR (json_copy (ev_data e) ''event data'') (\<lambda>data.
        Inr (persisted (e\<lparr>ev_data := data\<rparr>) (expected_seq + offset))))"

definition memory_append :: "string \<Rightarrow> int \<Rightarrow> event list \<Rightarrow> (memory_store, event list) sm" where
  "memory_append sid expected_seq es =
     bindE getE (\<lambda>m. case dict_get (ms_sessions m) sid of
         None \<Rightarrow> raiseE (session_not_found sid)
       | Some info \<Rightarrow>
           if info_head info \<noteq> expected_seq then raiseE (seq_conflict sid expected_seq (info_head info))
           else if \<not> distinct (map ev_id es) then raiseE duplicate_ids
           else bindE (liftE (mapR (memory_admit m sid expected_seq) (enumerate_from 1 es))) (\<lambda>ps.
             bindE (putE (m\<lparr>
               ms_events := dict_set sid ((case dict_get (ms_events m) sid of None \<Rightarrow> [] | Some old \<Rightarrow> old) @ ps)
                              (ms_events m),
               ms_event_sessions := foldl (\<lambda>d e. dict_set (ev_id e) sid d) (ms_event_sessions m) ps,
               ms_sessions := dict_set sid (info\<lparr>info_head := expected_seq + int (length ps)\<rparr>)
                                (ms_sessions m)\<rparr>)) (\<lambda>_. retE ps)))"

definition memory_read :: "string \<Rightarrow> int \<Rightarrow> (memory_store, event list) sm" where
  "memory_read sid k =
     bindE getE (\<lambda>m.
       if dict_get (ms_sessions m) sid = None then raiseE (session_not_found sid)
       else retE (after_seq k (case dict_get (ms_events m) sid of None \<Rightarrow> [] | Some es \<Rightarrow> es)))"

definition memory_get :: "string \<Rightarrow> (memory_store, session_info) sm" where
  "memory_get sid =
     bindE getE (\<lambda>m. case dict_get (ms_sessions m) sid of
         None \<Rightarrow> raiseE (session_not_found sid)
       | Some info \<Rightarrow> retE info)"

text \<open>
  \<^verbatim>\<open>sorted(..., key=created_at, reverse=True)\<close> keeps equal elements in their order; a negative
  limit drops from the end, as \<^verbatim>\<open>values[:limit]\<close> does.
\<close>

fun insert_newest :: "session_info \<Rightarrow> session_info list \<Rightarrow> session_info list" where
  "insert_newest x [] = [x]"
| "insert_newest x (y # ys) =
     (if info_created y \<le> info_created x then x # y # ys else y # insert_newest x ys)"

definition newest_first :: "session_info list \<Rightarrow> session_info list" where
  "newest_first xs = foldr insert_newest xs []"

definition memory_list_sessions :: "int \<Rightarrow> (memory_store, session_info list) sm" where
  "memory_list_sessions limit =
     bindE getE (\<lambda>m.
       let values = newest_first (map snd (ms_sessions m)) in
       retE (if limit < 0 then take (length values - nat (- limit)) values
             else take (nat limit) values))"

definition memory_view :: "memory_store \<Rightarrow> store_view" where
  "memory_view m sid =
     (case dict_get (ms_sessions m) sid of
        None \<Rightarrow> None
      | Some info \<Rightarrow>
          Some \<lparr>log_created = info_created info, log_metadata = info_metadata info,
                log_parent = info_parent info,
                log_events = (case dict_get (ms_events m) sid of None \<Rightarrow> [] | Some es \<Rightarrow> es)\<rparr>)"

definition memory_wf :: "memory_store \<Rightarrow> bool" where
  "memory_wf m \<longleftrightarrow>
     view_ok (memory_view m) \<and> dict_wf (ms_sessions m) \<and>
     (\<forall>sid. (dict_get (ms_events m) sid = None) = (dict_get (ms_sessions m) sid = None)) \<and>
     (\<forall>sid info. dict_get (ms_sessions m) sid = Some info \<longrightarrow>
        info_session info = sid \<and>
        info_head info = int (length (log_events (the (memory_view m sid))))) \<and>
     fst ` set (ms_event_sessions m) = view_ids (memory_view m)"

lemma memory_view_None: "memory_view m sid = None \<longleftrightarrow> dict_get (ms_sessions m) sid = None"
  by (simp add: memory_view_def split: option.split)

lemma memory_wf_empty: "memory_wf memory_empty"
  by (simp add: memory_wf_def memory_empty_def view_ok_def memory_view_def view_ids_def ran_def)

lemma view_ids_new: "v sid = None \<Longrightarrow> view_ids (v(sid \<mapsto> new_log now md parent)) = view_ids v"
  by (simp add: view_ids_def new_log_def)

lemma view_ids_extend:
  assumes "v sid = Some l"
  shows "view_ids (extend_log v sid es) = view_ids v \<union> ev_id ` set es"
proof (rule equalityI)
  show "view_ids (extend_log v sid es) \<subseteq> view_ids v \<union> ev_id ` set es"
  proof
    fix i
    assume "i \<in> view_ids (extend_log v sid es)"
    then obtain s k where "extend_log v sid es s = Some k" "i \<in> ev_id ` set (log_events k)"
      by (auto simp: view_ids_def ran_def)
    then show "i \<in> view_ids v \<union> ev_id ` set es"
      using view_ids_mem [of v sid l, OF assms] view_ids_mem [of v s k] assms
      by (cases "s = sid") (auto simp: extend_log_eq [of v sid l, OF assms] image_subset_iff)
  qed
  have "view_ids v \<subseteq> view_ids (extend_log v sid es)"
  proof
    fix i
    assume "i \<in> view_ids v"
    then obtain s k where s: "v s = Some k" "i \<in> ev_id ` set (log_events k)"
      by (auto simp: view_ids_def ran_def)
    have "\<exists>k'. extend_log v sid es s = Some k' \<and> i \<in> ev_id ` set (log_events k')"
      using s assms by (cases "s = sid") (auto simp: extend_log_eq [of v sid l, OF assms])
    then show "i \<in> view_ids (extend_log v sid es)" using view_ids_mem by blast
  qed
  moreover have "ev_id ` set es \<subseteq> view_ids (extend_log v sid es)"
    using view_ids_mem [of "extend_log v sid es" sid] assms by (auto simp: extend_log_eq [of v sid l, OF assms])
  ultimately show "view_ids v \<union> ev_id ` set es \<subseteq> view_ids (extend_log v sid es)" by blast
qed

lemma view_ok_new:
  assumes "view_ok v" "v sid = None"
  shows "view_ok (v(sid \<mapsto> new_log now md parent))"
  by (rule view_ok_update [OF assms(1)]) (simp_all add: log_ok_def new_log_def)

lemma memory_admit_ok:
  assumes "ev_session e = sid" "dict_get (ms_event_sessions m) (ev_id e) = None" "json_ok_obj (ev_data e)"
  shows "memory_admit m sid n (k, e) = Inr (persisted e (n + k))"
  using assms by (simp add: memory_admit_def json_copy_def)

lemma memory_admit_Inr:
  assumes "memory_admit m sid n (k, e) = Inr p"
  shows "ev_session e = sid" "dict_get (ms_event_sessions m) (ev_id e) = None" "json_ok_obj (ev_data e)"
  using assms by (auto simp: memory_admit_def json_copy_def split: if_splits)

lemma mapR_Inr_mem: "mapR f xs = Inr ys \<Longrightarrow> x \<in> set xs \<Longrightarrow> \<exists>y. f x = Inr y"
  by (induction xs arbitrary: ys) (auto simp: bindR_Inr_iff)

lemma enumerate_mem: "e \<in> set es \<Longrightarrow> \<exists>k. (k, e) \<in> set (enumerate_from i es)"
  by (metis (no_types, opaque_lifting) imageE list.set_map map_snd_enumerate_from prod.collapse)

lemma memory_admit_all:
  assumes "memory_wf m"
  shows "(\<forall>e \<in> set es. ev_session e = sid \<and> ev_id e \<notin> view_ids (memory_view m) \<and> json_ok_obj (ev_data e)) \<Longrightarrow>
      mapR (memory_admit m sid n) (enumerate_from 1 es) = Inr (numbered n es)"
    and "mapR (memory_admit m sid n) (enumerate_from 1 es) = Inr ps \<Longrightarrow>
      \<forall>e \<in> set es. ev_session e = sid \<and> ev_id e \<notin> view_ids (memory_view m) \<and> json_ok_obj (ev_data e)"
proof -
  have ids: "dict_get (ms_event_sessions m) i = None \<longleftrightarrow> i \<notin> view_ids (memory_view m)" for i
    using assms by (simp add: memory_wf_def dict_get_None)
  {
    assume ok: "\<forall>e \<in> set es. ev_session e = sid \<and> ev_id e \<notin> view_ids (memory_view m) \<and> json_ok_obj (ev_data e)"
    show "mapR (memory_admit m sid n) (enumerate_from 1 es) = Inr (numbered n es)"
      unfolding numbered_def
    proof (rule mapR_all_Inr)
      fix x
      assume "x \<in> set (enumerate_from 1 es)"
      then have "snd x \<in> set es" by (metis image_eqI list.set_map map_snd_enumerate_from)
      with ok ids show "memory_admit m sid n x = Inr (case x of (offset, e) \<Rightarrow> persisted e (n + offset))"
        by (cases x) (simp add: memory_admit_ok)
    qed
  }
  assume "mapR (memory_admit m sid n) (enumerate_from 1 es) = Inr ps"
  then show "\<forall>e \<in> set es. ev_session e = sid \<and> ev_id e \<notin> view_ids (memory_view m) \<and> json_ok_obj (ev_data e)"
    by (meson enumerate_mem ids mapR_Inr_mem memory_admit_Inr)
qed

lemma foldl_ids: "fst ` set (foldl (\<lambda>d e. dict_set (ev_id e) sid d) d es) = fst ` set d \<union> ev_id ` set es"
  by (induction es arbitrary: d) auto

lemma memory_append_ok:
  assumes wf: "memory_wf m" and adm: "admissible (memory_view m) sid n es"
  shows "\<exists>m'. memory_append sid n es m = (Inr (numbered n es), m') \<and> memory_wf m' \<and>
    memory_view m' = extend_log (memory_view m) sid (numbered n es)"
proof -
  from adm obtain l where l: "memory_view m sid = Some l" "int (length (log_events l)) = n"
    by (auto simp: admissible_def)
  then obtain info where info: "dict_get (ms_sessions m) sid = Some info"
    by (auto simp: memory_view_def split: option.splits)
  with wf l have head: "info_head info = n" "info_session info = sid" by (auto simp: memory_wf_def)
  from info wf obtain old where old: "dict_get (ms_events m) sid = Some old"
    by (fastforce simp: memory_wf_def)
  define m' where "m' = m\<lparr>ms_events := dict_set sid (old @ numbered n es) (ms_events m),
     ms_event_sessions := foldl (\<lambda>d e. dict_set (ev_id e) sid d) (ms_event_sessions m) (numbered n es),
     ms_sessions := dict_set sid (info\<lparr>info_head := n + int (length es)\<rparr>) (ms_sessions m)\<rparr>"
  have run: "memory_append sid n es m = (Inr (numbered n es), m')"
    using adm by (simp add: memory_append_def eff_simps info head old m'_def admissible_def
        memory_admit_all(1) [OF wf])
  have l_eq: "l = \<lparr>log_created = info_created info, log_metadata = info_metadata info,
      log_parent = info_parent info, log_events = old\<rparr>"
    using l(1) by (simp add: memory_view_def info old)
  have view: "memory_view m' = extend_log (memory_view m) sid (numbered n es)"
    unfolding extend_log_eq [of "memory_view m" sid l, OF l(1)]
    by (rule ext) (auto simp: memory_view_def m'_def l_eq split: option.split)
  have heads: "info_session i = s \<and> info_head i = int (length (log_events (the (memory_view m' s))))"
    if "dict_get (ms_sessions m') s = Some i" for s i
  proof (cases "s = sid")
    case True
    with that have i: "i = info\<lparr>info_head := n + int (length es)\<rparr>" by (simp add: m'_def)
    have "memory_view m' s = Some (l\<lparr>log_events := log_events l @ numbered n es\<rparr>)"
      unfolding view extend_log_eq [of "memory_view m" sid l, OF l(1)] using True by simp
    then show ?thesis using l(2) head True by (simp add: i)
  next
    case False
    with that have "dict_get (ms_sessions m) s = Some i" by (simp add: m'_def)
    moreover have "memory_view m' s = memory_view m s"
      unfolding view extend_log_eq [of "memory_view m" sid l, OF l(1)] using False by simp
    ultimately show ?thesis using wf by (simp add: memory_wf_def)
  qed
  have "memory_wf m'"
    unfolding memory_wf_def
  proof (intro conjI allI impI)
    show "view_ok (memory_view m')"
      unfolding view using wf adm by (intro extend_log_ok) (simp_all add: memory_wf_def)
    show "dict_wf (ms_sessions m')" using wf by (simp add: m'_def memory_wf_def)
    show "fst ` set (ms_event_sessions m') = view_ids (memory_view m')"
      unfolding view view_ids_extend [of "memory_view m" sid l, OF l(1)]
      using wf by (simp add: m'_def foldl_ids memory_wf_def)
    fix s
    show "(dict_get (ms_events m') s = None) = (dict_get (ms_sessions m') s = None)"
      using wf by (simp add: m'_def memory_wf_def)
  qed (use heads in auto)
  with run view show ?thesis by blast
qed

lemma memory_append_fails:
  assumes wf: "memory_wf m" and adm: "\<not> admissible (memory_view m) sid n es"
  shows "\<exists>e. memory_append sid n es m = (Inl e, m)"
proof (cases "dict_get (ms_sessions m) sid")
  case None
  then show ?thesis by (simp add: memory_append_def eff_simps)
next
  case (Some info)
  then obtain l where l: "memory_view m sid = Some l" by (simp add: memory_view_def)
  with wf Some have "info_head info = int (length (log_events l))" by (auto simp: memory_wf_def)
  with adm l consider "info_head info \<noteq> n" | "\<not> distinct (map ev_id es)"
    | "\<not> (\<forall>e \<in> set es. ev_session e = sid \<and> ev_id e \<notin> view_ids (memory_view m) \<and> json_ok_obj (ev_data e))"
    by (auto simp: admissible_def)
  then show ?thesis
  proof cases
    case 3
    then have "mapR (memory_admit m sid n) (enumerate_from 1 es) \<noteq> Inr ps" for ps
      using memory_admit_all(2) [OF wf] by blast
    then obtain e where "mapR (memory_admit m sid n) (enumerate_from 1 es) = Inl e"
      by (metis sum.exhaust_sel)
    then show ?thesis by (simp add: memory_append_def eff_simps Some)
  qed (simp_all add: memory_append_def eff_simps Some)
qed

lemma memory_create_ok:
  assumes wf: "memory_wf m" and new: "memory_view m sid = None" and md: "json_ok_obj md"
  shows "\<exists>m'. memory_create now sid md parent m = (Inr (), m') \<and> memory_wf m' \<and>
    memory_view m' = (memory_view m)(sid \<mapsto> new_log now md parent)"
proof -
  define m' where "m' = m\<lparr>ms_sessions := dict_set sid \<lparr>info_session = sid, info_head = 0,
      info_created = now, info_metadata = md, info_parent = parent\<rparr> (ms_sessions m),
    ms_events := dict_set sid [] (ms_events m)\<rparr>"
  have run: "memory_create now sid md parent m = (Inr (), m')"
    using new md by (simp add: memory_create_def memory_view_None json_copy_def eff_simps m'_def)
  have view: "memory_view m' = (memory_view m)(sid \<mapsto> new_log now md parent)"
    by (rule ext) (auto simp: memory_view_def m'_def new_log_def split: option.split)
  have "memory_wf m'"
    unfolding memory_wf_def
  proof (intro conjI allI impI)
    show "view_ok (memory_view m')" using wf new by (simp add: view view_ok_new memory_wf_def)
    show "dict_wf (ms_sessions m')" using wf by (simp add: m'_def memory_wf_def)
    show "fst ` set (ms_event_sessions m') = view_ids (memory_view m')"
      using wf new by (simp add: view view_ids_new memory_wf_def) (simp add: m'_def)
    fix s
    show "(dict_get (ms_events m') s = None) = (dict_get (ms_sessions m') s = None)"
      using wf by (simp add: m'_def memory_wf_def)
    fix i
    assume i: "dict_get (ms_sessions m') s = Some i"
    show "info_session i = s"
      using i wf by (cases "s = sid") (auto simp: m'_def memory_wf_def)
    show "info_head i = int (length (log_events (the (memory_view m' s))))"
      using i wf unfolding view by (cases "s = sid") (auto simp: m'_def memory_wf_def new_log_def)
  qed
  with run view show ?thesis by blast
qed

lemma set_newest_first [simp]: "set (newest_first xs) = set xs"
proof -
  have ins: "set (insert_newest x ys) = insert x (set ys)" for x ys by (induction ys) auto
  show ?thesis by (induction xs) (simp_all add: newest_first_def ins)
qed

lemma sorted_newest_first: "sorted_wrt (\<lambda>a b. info_created b \<le> info_created a) (newest_first xs)"
proof -
  have mem: "set (insert_newest x ys) = insert x (set ys)" for x ys by (induction ys) auto
  have ins: "sorted_wrt (\<lambda>a b. info_created b \<le> info_created a) (insert_newest x ys)"
    if "sorted_wrt (\<lambda>a b. info_created b \<le> info_created a) ys" for x ys
    using that by (induction ys) (auto simp: mem intro: order.trans)
  show ?thesis by (induction xs) (simp_all add: newest_first_def ins)
qed

lemma distinct_newest_first: "distinct (map info_session xs) \<Longrightarrow> distinct (map info_session (newest_first xs))"
proof -
  have mem: "set (insert_newest x ys) = insert x (set ys)" for x ys by (induction ys) auto
  have ins: "distinct (map info_session (insert_newest x ys)) \<longleftrightarrow> distinct (map info_session (x # ys))" for x ys
    by (induction ys) (auto simp: mem)
  show "distinct (map info_session xs) \<Longrightarrow> distinct (map info_session (newest_first xs))"
  proof (induction xs)
    case (Cons x xs)
    have "newest_first (x # xs) = insert_newest x (newest_first xs)" by (simp add: newest_first_def)
    with Cons show ?case using ins set_newest_first by (simp add: image_iff)
  qed (simp add: newest_first_def)
qed

lemma roster_newest_first:
  assumes "distinct (map info_session xs)" "set xs = {info_of sid l | sid l. v sid = Some l}"
  shows "roster v (newest_first xs)"
  unfolding roster_def using assms distinct_newest_first sorted_newest_first by simp

lemma memory_roster:
  assumes wf: "memory_wf m"
  shows "roster (memory_view m) (newest_first (map snd (ms_sessions m)))"
proof (rule roster_newest_first)
  have dist: "dict_wf (ms_sessions m)" using wf by (simp add: memory_wf_def)
  have "\<forall>p \<in> set (ms_sessions m). info_session (snd p) = fst p"
    using wf dist by (auto simp: memory_wf_def dict_get_iff)
  then have "map (info_session \<circ> snd) (ms_sessions m) = map fst (ms_sessions m)" by (intro map_cong) auto
  with dist show "distinct (map info_session (map snd (ms_sessions m)))" by (simp only: dict_wf_def map_map)
  have one: "info_of sid (the (memory_view m sid)) = i" if "dict_get (ms_sessions m) sid = Some i" for sid i
    using that wf by (auto simp: memory_wf_def info_of_def memory_view_def)
  have "set (map snd (ms_sessions m)) = {i. \<exists>sid. dict_get (ms_sessions m) sid = Some i}"
    using dict_get_iff [OF dist] by force
  also have "\<dots> = {info_of sid l | sid l. memory_view m sid = Some l}"
    using one memory_view_None [of m] by (fastforce simp: memory_view_def split: option.splits)
  finally show "set (map snd (ms_sessions m)) = {info_of sid l | sid l. memory_view m sid = Some l}" .
qed

text \<open>The first defect of a sound batch is a known identifier.\<close>

lemma memory_admit_sound:
  assumes "\<forall>e \<in> set es. ev_session e = sid \<and> json_ok_obj (ev_data e)"
    and "\<exists>e \<in> set es. dict_get (ms_event_sessions m) (ev_id e) \<noteq> None"
  shows "mapR (memory_admit m sid n) (enumerate_from k es) =
    Inl (event_exists (the (find_first (\<lambda>i. dict_get (ms_event_sessions m) i \<noteq> None) (map ev_id es))))"
  using assms
proof (induction es arbitrary: k)
  case (Cons e es)
  show ?case
  proof (cases "dict_get (ms_event_sessions m) (ev_id e) = None")
    case True
    with Cons.prems have "mapR (memory_admit m sid n) (enumerate_from (k + 1) es) =
        Inl (event_exists (the (find_first (\<lambda>i. dict_get (ms_event_sessions m) i \<noteq> None) (map ev_id es))))"
      by (intro Cons.IH) auto
    then show ?thesis using True Cons.prems(1) by (simp add: memory_admit_ok bindR_def)
  next
    case False
    then show ?thesis using Cons.prems(1) by (auto simp: bindR_def memory_admit_def)
  qed
qed simp

lemma memory_append_refused:
  assumes wf: "memory_wf m" and adm: "\<not> admissible (memory_view m) sid n es" and sound: "sound_batch sid es"
  shows "memory_append sid n es m = (Inl (append_refusal (memory_view m) sid n es), m)"
proof (cases "dict_get (ms_sessions m) sid")
  case None
  then have "memory_view m sid = None" by (simp add: memory_view_None)
  with None show ?thesis by (simp add: memory_append_def append_refusal_def eff_simps)
next
  case (Some info)
  then obtain l where l: "memory_view m sid = Some l" by (simp add: memory_view_def)
  with wf Some have head: "info_head info = int (length (log_events l))" by (auto simp: memory_wf_def)
  have ids: "dict_get (ms_event_sessions m) i \<noteq> None \<longleftrightarrow> i \<in> view_ids (memory_view m)" for i
    using wf by (simp add: memory_wf_def dict_get_None)
  show ?thesis
  proof (cases "info_head info = n \<and> distinct (map ev_id es)")
    case True
    then have "\<exists>e \<in> set es. ev_id e \<in> view_ids (memory_view m)"
      using not_admissible_sound [OF adm sound l] head by simp
    then have "mapR (memory_admit m sid n) (enumerate_from 1 es) =
        Inl (event_exists (the (find_first (\<lambda>i. i \<in> view_ids (memory_view m)) (map ev_id es))))"
      using memory_admit_sound [of es sid m n 1] sound ids by (simp add: sound_batch_def)
    then show ?thesis using Some True l head by (simp add: memory_append_def append_refusal_def eff_simps)
  next
    case False
    then show ?thesis using Some l head by (auto simp: memory_append_def append_refusal_def eff_simps)
  qed
qed

interpretation memory: event_store memory_create memory_append memory_read memory_get memory_wf memory_view
proof unfold_locales
  fix s :: memory_store and sid now md parent l n k
  fix es :: "event list"
  assume wf: "memory_wf s"
  show "view_ok (memory_view s)" using wf by (simp add: memory_wf_def)
  show "memory_view s sid \<noteq> None \<or> \<not> json_ok_obj md \<Longrightarrow>
      \<exists>e. memory_create now sid md parent s = (Inl e, s)"
    by (auto simp: memory_create_def memory_view_None json_copy_def eff_simps)
  show "memory_view s sid = Some l \<Longrightarrow> memory_get sid s = (Inr (info_of sid l), s)"
    using wf by (auto simp: memory_get_def memory_view_def eff_simps info_of_def memory_wf_def
        split: option.splits)
  show "memory_view s sid = None \<Longrightarrow> memory_get sid s = (Inl (session_not_found sid), s)"
    by (simp add: memory_get_def memory_view_None eff_simps)
  show "memory_view s sid = Some l \<Longrightarrow> memory_read sid k s = (Inr (after_seq k (log_events l)), s)"
    by (auto simp: memory_read_def memory_view_def eff_simps split: option.splits)
  show "memory_view s sid = None \<Longrightarrow> memory_read sid k s = (Inl (session_not_found sid), s)"
    by (simp add: memory_read_def memory_view_None eff_simps)
qed (simp_all add: memory_create_ok memory_append_ok memory_append_fails)

interpretation listed_memory: listed_store memory_create memory_append memory_read memory_get memory_wf
  memory_view memory_list_sessions
proof unfold_locales
  fix s :: memory_store and limit n :: int and now sid :: string and md :: jobj and parent and es :: "event list"
  show "\<exists>xs. memory_list_sessions limit s = (Inr xs, s)"
    by (simp add: memory_list_sessions_def eff_simps Let_def)
  assume wf: "memory_wf s"
  show "\<exists>xs. memory_list_sessions limit s = (Inr (take (nat limit) xs), s) \<and> roster (memory_view s) xs"
    if "0 \<le> limit"
    using that memory_roster [OF wf] by (auto simp: memory_list_sessions_def eff_simps Let_def)
  show "memory_create now sid md parent s = (Inl (session_exists sid), s)"
    if "memory_view s sid \<noteq> None" "json_ok_obj md"
    using that by (simp add: memory_create_def memory_view_None eff_simps)
  show "memory_append sid n es s = (Inl (append_refusal (memory_view s) sid n es), s)"
    if "\<not> admissible (memory_view s) sid n es" "sound_batch sid es"
    by (rule memory_append_refused [OF wf that])
qed

end
