(* ===== verification/Sqlite_Store.thy ===== *)
theory Sqlite_Store
  imports Event_Store
begin

text \<open>
  \<^verbatim>\<open>SQLiteEventStore\<close> of \<^verbatim>\<open>aihi/agent/sessions/store.py\<close>: the two tables with their keys, the
  statements the store runs on them, and the transaction of \<^verbatim>\<open>append\<close>, whose rollback is what makes
  a failing append leave nothing behind. A TEXT column that holds JSON is represented by the value.
  Disk and lock errors of the library are outside the model.
\<close>

record session_row =
  srow_session :: string
  srow_head :: int
  srow_created :: string
  srow_metadata :: jobj
  srow_parent :: "string option"

record event_row =
  erow_session :: string
  erow_seq :: int
  erow_id :: string
  erow_type :: string
  erow_run :: "string option"
  erow_created :: string
  erow_version :: int
  erow_data :: jobj

record database =
  sessions_table :: "session_row list"
  events_table :: "event_row list"

text \<open>A connection: the database, and inside a transaction the database it started from.\<close>

record connection =
  db :: database
  saved :: "database option"

definition integrity_error :: exn where
  "integrity_error = Exn (OtherError ''IntegrityError'') ''UNIQUE constraint failed''"

definition sqlite_initialize :: connection where
  "sqlite_initialize = \<lparr>db = \<lparr>sessions_table = [], events_table = []\<rparr>, saved = None\<rparr>"

section \<open>The statements\<close>

definition sql_begin :: "(connection, unit) sm" where
  "sql_begin = bindE getE (\<lambda>c.
     if saved c \<noteq> None
     then raiseE (Exn (OtherError ''OperationalError'') ''cannot start a transaction within a transaction'')
     else putE (c\<lparr>saved := Some (db c)\<rparr>))"

definition sql_commit :: "(connection, unit) sm" where
  "sql_commit = modifyE (\<lambda>c. c\<lparr>saved := None\<rparr>)"

definition sql_rollback :: "(connection, unit) sm" where
  "sql_rollback = modifyE (\<lambda>c. case saved c of None \<Rightarrow> c | Some d \<Rightarrow> c\<lparr>db := d, saved := None\<rparr>)"

definition insert_session :: "session_row \<Rightarrow> (connection, unit) sm" where
  "insert_session r = bindE getE (\<lambda>c.
     if srow_session r \<in> srow_session ` set (sessions_table (db c)) then raiseE integrity_error
     else putE (c\<lparr>db := (db c)\<lparr>sessions_table := sessions_table (db c) @ [r]\<rparr>\<rparr>))"

definition select_session :: "string \<Rightarrow> (connection, session_row option) sm" where
  "select_session sid =
     bindE getE (\<lambda>c. retE (find_first (\<lambda>r. srow_session r = sid) (sessions_table (db c))))"

definition update_head :: "string \<Rightarrow> int \<Rightarrow> (connection, unit) sm" where
  "update_head sid n = modifyE (\<lambda>c. c\<lparr>db := (db c)\<lparr>sessions_table :=
     map (\<lambda>r. if srow_session r = sid then r\<lparr>srow_head := n\<rparr> else r) (sessions_table (db c))\<rparr>\<rparr>)"

definition select_event :: "string \<Rightarrow> (connection, bool) sm" where
  "select_event i = bindE getE (\<lambda>c. retE (i \<in> erow_id ` set (events_table (db c))))"

definition insert_event :: "event_row \<Rightarrow> (connection, unit) sm" where
  "insert_event r = bindE getE (\<lambda>c.
     if erow_id r \<in> erow_id ` set (events_table (db c)) \<or>
        (erow_session r, erow_seq r) \<in> (\<lambda>q. (erow_session q, erow_seq q)) ` set (events_table (db c))
     then raiseE integrity_error
     else putE (c\<lparr>db := (db c)\<lparr>events_table := events_table (db c) @ [r]\<rparr>\<rparr>))"

definition select_events :: "string \<Rightarrow> int \<Rightarrow> (connection, event_row list) sm" where
  "select_events sid k = bindE getE (\<lambda>c. retE
     (sort_key erow_seq (filter (\<lambda>r. erow_session r = sid \<and> erow_seq r > k) (events_table (db c)))))"

section \<open>The methods\<close>

definition sqlite_create :: "string \<Rightarrow> string \<Rightarrow> jobj \<Rightarrow> string option \<Rightarrow> (connection, unit) sm" where
  "sqlite_create now sid md parent =
     bindE (liftE (json_copy md ''session metadata'')) (\<lambda>payload.
       catchE (insert_session \<lparr>srow_session = sid, srow_head = 0, srow_created = now,
                 srow_metadata = payload, srow_parent = parent\<rparr>)
         (\<lambda>e. raiseE (if e = integrity_error then session_exists sid else e)))"

definition erow_of :: "event \<Rightarrow> jobj \<Rightarrow> event_row" where
  "erow_of e data = \<lparr>erow_session = ev_session e, erow_seq = (case ev_seq e of None \<Rightarrow> 0 | Some n \<Rightarrow> n),
     erow_id = ev_id e, erow_type = ev_type e, erow_run = ev_run e, erow_created = ev_created e,
     erow_version = ev_version e, erow_data = data\<rparr>"

definition sqlite_insert :: "string \<Rightarrow> int \<Rightarrow> int \<times> event \<Rightarrow> (connection, event) sm" where
  "sqlite_insert sid expected_seq oe =
     (let (offset, e) = oe in
      if ev_session e \<noteq> sid then raiseE wrong_session
      else let saved_event = persisted e (expected_seq + offset) in
        bindE (liftE (json_copy (ev_data saved_event) ''event data'')) (\<lambda>data.
        bindE (insert_event (erow_of saved_event data)) (\<lambda>_. retE saved_event)))"

definition refuse_known :: "string \<Rightarrow> (connection, unit) sm" where
  "refuse_known i = bindE (select_event i) (\<lambda>b. if b then raiseE (event_exists i) else retE ())"

definition sqlite_append_body :: "string \<Rightarrow> int \<Rightarrow> event list \<Rightarrow> (connection, event list) sm" where
  "sqlite_append_body sid expected_seq es =
     bindE (select_session sid) (\<lambda>row. case row of
         None \<Rightarrow> raiseE (session_not_found sid)
       | Some r \<Rightarrow>
           if srow_head r \<noteq> expected_seq then raiseE (seq_conflict sid expected_seq (srow_head r))
           else if \<not> distinct (map ev_id es) then raiseE duplicate_ids
           else
             bindE (mapE refuse_known (map ev_id es)) (\<lambda>_.
             bindE (mapE (sqlite_insert sid expected_seq) (enumerate_from 1 es)) (\<lambda>ps.
             bindE (update_head sid (expected_seq + int (length ps))) (\<lambda>_. retE ps))))"

definition sqlite_append :: "string \<Rightarrow> int \<Rightarrow> event list \<Rightarrow> (connection, event list) sm" where
  "sqlite_append sid expected_seq es =
     thenE sql_begin
       (catchE
          (bindE (sqlite_append_body sid expected_seq es) (\<lambda>ps. thenE sql_commit (retE ps)))
          (\<lambda>e. thenE sql_rollback (raiseE e)))"

definition row_dict :: "string \<Rightarrow> event_row \<Rightarrow> jobj" where
  "row_dict sid r =
     [(''id'', JStr (erow_id r)), (''type'', JStr (erow_type r)), (''session_id'', JStr sid),
      (''run_id'', jopt_str (erow_run r)), (''seq'', JInt (erow_seq r)),
      (''created_at'', JStr (erow_created r)), (''schema_version'', JInt (erow_version r)),
      (''data'', JObj (erow_data r))]"

definition sqlite_read :: "json_codec \<Rightarrow> string \<Rightarrow> int \<Rightarrow> (connection, event list) sm" where
  "sqlite_read jc sid k =
     bindE (select_session sid) (\<lambda>row.
       if row = None then raiseE (session_not_found sid)
       else bindE (select_events sid k) (\<lambda>rows.
         liftE (mapR (\<lambda>r. event_from_dict jc (row_dict sid r)) rows)))"

definition info_from_row :: "session_row \<Rightarrow> session_info" where
  "info_from_row r = \<lparr>info_session = srow_session r, info_head = srow_head r,
     info_created = srow_created r, info_metadata = srow_metadata r, info_parent = srow_parent r\<rparr>"

definition sqlite_get :: "string \<Rightarrow> (connection, session_info) sm" where
  "sqlite_get sid =
     bindE (select_session sid) (\<lambda>row. case row of
         None \<Rightarrow> raiseE (session_not_found sid)
       | Some r \<Rightarrow> retE (info_from_row r))"

text \<open>
  \<^verbatim>\<open>ORDER BY created_at DESC LIMIT ?\<close>: SQL leaves the order of equal keys open, and the model keeps
  them in table order; a negative limit is no limit.
\<close>

definition sqlite_list_sessions :: "int \<Rightarrow> (connection, session_info list) sm" where
  "sqlite_list_sessions limit =
     bindE getE (\<lambda>c.
       let values = newest_first (map info_from_row (sessions_table (db c))) in
       retE (if limit < 0 then values else take (nat limit) values))"

section \<open>Atomicity\<close>

text \<open>No statement of the body ends the transaction.\<close>

lemma preserves_in_transaction [pres_intros]:
  "preserves (\<lambda>c. saved c = Some d) (select_session sid)"
  "preserves (\<lambda>c. saved c = Some d) (select_event i)"
  "preserves (\<lambda>c. saved c = Some d) (insert_event r)"
  "preserves (\<lambda>c. saved c = Some d) (update_head sid n)"
  by (auto simp: preserves_def select_session_def select_event_def insert_event_def update_head_def
      eff_simps)

lemma preserves_sqlite_append_body: "preserves (\<lambda>c. saved c = Some d) (sqlite_append_body sid n es)"
  unfolding sqlite_append_body_def sqlite_insert_def refuse_known_def Let_def
  by (auto intro!: pres_intros split: option.split prod.split)

lemma sqlite_append_eq:
  assumes "saved c = None"
  shows "sqlite_append sid n es c =
    (case sqlite_append_body sid n es (c\<lparr>saved := Some (db c)\<rparr>) of
       (Inl e, _) \<Rightarrow> (Inl e, c)
     | (Inr ps, c') \<Rightarrow> (Inr ps, c'\<lparr>saved := None\<rparr>))"
proof -
  let ?c = "c\<lparr>saved := Some (db c)\<rparr>"
  have in_tx: "saved (snd (sqlite_append_body sid n es ?c)) = Some (db c)"
    using preserves_sqlite_append_body [of "db c" sid n es] by (auto simp: preserves_def)
  have restored: "c'\<lparr>db := db c, saved := None\<rparr> = c" for c' :: connection
    using assms by (cases c; cases c') simp
  show ?thesis
    using in_tx
    by (auto simp: sqlite_append_def sql_begin_def sql_commit_def sql_rollback_def eff_simps assms restored
        split: prod.splits sum.splits)
qed

section \<open>The store as a log\<close>

definition row_event :: "event_row \<Rightarrow> event" where
  "row_event r = \<lparr>ev_type = erow_type r, ev_session = erow_session r, ev_data = erow_data r,
     ev_run = erow_run r, ev_id = erow_id r, ev_seq = Some (erow_seq r), ev_created = erow_created r,
     ev_ephemeral = False, ev_version = erow_version r\<rparr>"

definition session_rows :: "database \<Rightarrow> string \<Rightarrow> event_row list" where
  "session_rows d sid = filter (\<lambda>r. erow_session r = sid) (events_table d)"

definition sqlite_view :: "connection \<Rightarrow> store_view" where
  "sqlite_view c sid =
     (case find_first (\<lambda>r. srow_session r = sid) (sessions_table (db c)) of
        None \<Rightarrow> None
      | Some r \<Rightarrow> Some \<lparr>log_created = srow_created r, log_metadata = srow_metadata r,
          log_parent = srow_parent r, log_events = map row_event (session_rows (db c) sid)\<rparr>)"

definition sqlite_wf :: "connection \<Rightarrow> bool" where
  "sqlite_wf c \<longleftrightarrow>
     saved c = None \<and> view_ok (sqlite_view c) \<and> distinct (map srow_session (sessions_table (db c))) \<and>
     (\<forall>sid r. find_first (\<lambda>r. srow_session r = sid) (sessions_table (db c)) = Some r \<longrightarrow>
        srow_head r = int (length (session_rows (db c) sid))) \<and>
     (\<forall>r \<in> set (events_table (db c)). erow_session r \<in> srow_session ` set (sessions_table (db c)))"

lemma sqlite_view_None:
  "sqlite_view c sid = None \<longleftrightarrow> sid \<notin> srow_session ` set (sessions_table (db c))"
  by (force simp: sqlite_view_def find_first_None split: option.split dest: find_first_Some)

lemma sqlite_view_Some:
  "sqlite_view c sid = Some l \<longleftrightarrow>
   (\<exists>r. find_first (\<lambda>r. srow_session r = sid) (sessions_table (db c)) = Some r \<and>
     l = \<lparr>log_created = srow_created r, log_metadata = srow_metadata r,
          log_parent = srow_parent r, log_events = map row_event (session_rows (db c) sid)\<rparr>)"
  by (auto simp: sqlite_view_def split: option.split)

lemma sqlite_wf_empty: "sqlite_wf sqlite_initialize"
  by (simp add: sqlite_wf_def sqlite_initialize_def view_ok_def sqlite_view_def)

lemma sqlite_view_ids:
  assumes "sqlite_wf c"
  shows "view_ids (sqlite_view c) = erow_id ` set (events_table (db c))"
proof -
  have "i \<in> view_ids (sqlite_view c) \<longleftrightarrow> i \<in> erow_id ` set (events_table (db c))" for i
  proof
    assume "i \<in> view_ids (sqlite_view c)"
    then show "i \<in> erow_id ` set (events_table (db c))"
      by (auto simp: view_ids_def ran_def sqlite_view_Some session_rows_def row_event_def)
  next
    assume "i \<in> erow_id ` set (events_table (db c))"
    then obtain r where r: "r \<in> set (events_table (db c))" "i = erow_id r" by blast
    with assms have "sqlite_view c (erow_session r) \<noteq> None"
      unfolding sqlite_view_None sqlite_wf_def by blast
    then obtain l where l: "sqlite_view c (erow_session r) = Some l" by blast
    then have "row_event r \<in> set (log_events l)" using r(1)
      by (auto simp: sqlite_view_Some session_rows_def)
    then have "ev_id (row_event r) \<in> view_ids (sqlite_view c)" using view_ids_mem [of "sqlite_view c", OF l] by blast
    then show "i \<in> view_ids (sqlite_view c)" by (simp add: row_event_def r(2))
  qed
  then show ?thesis by blast
qed

lemma session_rows_seqs:
  assumes "sqlite_wf c" "sqlite_view c sid = Some l"
  shows "map erow_seq (session_rows (db c) sid) = map int [1..<Suc (length (session_rows (db c) sid))]"
proof -
  let ?rows = "session_rows (db c) sid"
  have "map ev_seq (map row_event ?rows) = map (\<lambda>n. Some (int n)) [1..<Suc (length ?rows)]"
  proof -
    have "log_ok sid l" using assms unfolding sqlite_wf_def view_ok_def by blast
    moreover have "log_events l = map row_event ?rows" using assms(2) by (auto simp: sqlite_view_Some)
    ultimately show ?thesis by (simp add: log_ok_def del: upt_Suc)
  qed
  then have "map (the \<circ> ev_seq \<circ> row_event) ?rows = map (the \<circ> (\<lambda>n. Some (int n))) [1..<Suc (length ?rows)]"
    by (simp only: map_map [symmetric])
  then show ?thesis by (simp add: row_event_def comp_def del: upt_Suc)
qed

lemma session_rows_sorted:
  assumes "sqlite_wf c" "sqlite_view c sid = Some l"
  shows "sort_key erow_seq (filter p (session_rows (db c) sid)) = filter p (session_rows (db c) sid)"
proof (rule sort_key_id_if_sorted, rule sorted_filter)
  show "sorted (map erow_seq (session_rows (db c) sid))"
    unfolding session_rows_seqs [OF assms] by (simp add: sorted_map sorted_wrt_iff_nth_less del: upt_Suc)
qed

section \<open>Appending\<close>

lemma row_event_erow [simp]: "row_event (erow_of (persisted e n) (ev_data e)) = persisted e n"
  by (simp add: row_event_def erow_of_def persisted_def)

lemma sqlite_insert_ok:
  assumes "ev_session e = sid" "json_ok_obj (ev_data e)"
    and "ev_id e \<notin> erow_id ` set (events_table (db c))"
    and "\<And>r. r \<in> set (events_table (db c)) \<Longrightarrow> erow_session r = sid \<Longrightarrow> erow_seq r < n + k"
  shows "sqlite_insert sid n (k, e) c = (Inr (persisted e (n + k)),
     c\<lparr>db := (db c)\<lparr>events_table := events_table (db c) @ [erow_of (persisted e (n + k)) (ev_data e)]\<rparr>\<rparr>)"
proof -
  have "(sid, n + k) \<notin> (\<lambda>q. (erow_session q, erow_seq q)) ` set (events_table (db c))"
    using assms(4) by fastforce
  then show ?thesis
    using assms(1-3)
    by (simp add: sqlite_insert_def json_copy_def insert_event_def eff_simps erow_of_def Let_def)
qed

lemma sqlite_insert_all:
  assumes "\<forall>e \<in> set es. ev_session e = sid \<and> json_ok_obj (ev_data e) \<and>
      ev_id e \<notin> erow_id ` set (events_table (db c))"
    and "distinct (map ev_id es)"
    and "\<And>r. r \<in> set (events_table (db c)) \<Longrightarrow> erow_session r = sid \<Longrightarrow> erow_seq r < n + k"
  shows "mapE (sqlite_insert sid n) (enumerate_from k es) c =
    (Inr (map (\<lambda>(j, e). persisted e (n + j)) (enumerate_from k es)),
     c\<lparr>db := (db c)\<lparr>events_table := events_table (db c) @
         map (\<lambda>(j, e). erow_of (persisted e (n + j)) (ev_data e)) (enumerate_from k es)\<rparr>\<rparr>)"
  using assms
proof (induction es arbitrary: c k)
  case (Cons e es)
  define c1 where "c1 = c\<lparr>db := (db c)\<lparr>events_table := events_table (db c) @
      [erow_of (persisted e (n + k)) (ev_data e)]\<rparr>\<rparr>"
  have first: "sqlite_insert sid n (k, e) c = (Inr (persisted e (n + k)), c1)"
    unfolding c1_def using Cons.prems by (intro sqlite_insert_ok) auto
  have "mapE (sqlite_insert sid n) (enumerate_from (k + 1) es) c1 =
    (Inr (map (\<lambda>(j, e). persisted e (n + j)) (enumerate_from (k + 1) es)),
     c1\<lparr>db := (db c1)\<lparr>events_table := events_table (db c1) @
         map (\<lambda>(j, e). erow_of (persisted e (n + j)) (ev_data e)) (enumerate_from (k + 1) es)\<rparr>\<rparr>)"
  proof (rule Cons.IH)
    show "\<forall>e \<in> set es. ev_session e = sid \<and> json_ok_obj (ev_data e) \<and>
        ev_id e \<notin> erow_id ` set (events_table (db c1))"
    proof
      fix x
      assume x: "x \<in> set es"
      then have "ev_id x \<noteq> ev_id e" using Cons.prems(2) by (metis distinct.simps(2) image_eqI list.set_map list.simps(9))
      moreover have "ev_session x = sid \<and> json_ok_obj (ev_data x) \<and>
          ev_id x \<notin> erow_id ` set (events_table (db c))" using Cons.prems(1) x by (meson list.set_intros(2))
      ultimately show "ev_session x = sid \<and> json_ok_obj (ev_data x) \<and>
          ev_id x \<notin> erow_id ` set (events_table (db c1))" by (simp add: c1_def erow_of_def)
    qed
    show "distinct (map ev_id es)" using Cons.prems(2) by simp
    fix r
    assume "r \<in> set (events_table (db c1))" "erow_session r = sid"
    then show "erow_seq r < n + (k + 1)"
      using Cons.prems(3) [of r] by (auto simp: c1_def erow_of_def)
  qed
  then show ?case by (simp add: bindE_def first retE_def) (simp add: c1_def)
qed (simp add: retE_def)

lemma mapE_check:
  "mapE refuse_known is c =
   (case find_first (\<lambda>i. i \<in> erow_id ` set (events_table (db c))) is of
      None \<Rightarrow> (Inr (map (\<lambda>_. ()) is), c)
    | Some i \<Rightarrow> (Inl (event_exists i), c))"
  by (induction "is") (auto simp: refuse_known_def select_event_def eff_simps split: option.splits)

lemma mapE_Inr_mem: "mapE f xs s = (Inr ys, s') \<Longrightarrow> x \<in> set xs \<Longrightarrow> \<exists>t y t'. f x t = (Inr y, t')"
proof (induction xs arbitrary: ys s)
  case (Cons a xs)
  from Cons.prems(1) obtain y t zs t' where "f a s = (Inr y, t)" "mapE f xs t = (Inr zs, s')"
    by (auto simp: bindE_eq_Inr retE_def)
  with Cons show ?case by (cases "x = a") auto
qed simp

lemma sqlite_view_saved [simp]: "sqlite_view (c\<lparr>saved := x\<rparr>) = sqlite_view c"
  by (rule ext) (simp add: sqlite_view_def cong: option.case_cong)

lemma sqlite_insert_Inr:
  "sqlite_insert sid n (k, e) c = (Inr p, c') \<Longrightarrow> ev_session e = sid \<and> json_ok_obj (ev_data e)"
  by (auto simp: sqlite_insert_def json_copy_def eff_simps Let_def split: if_splits)

lemma sqlite_append_body_Inr:
  assumes run: "sqlite_append_body sid n es c = (Inr ps, c')"
    and wf: "sqlite_wf (c\<lparr>saved := None\<rparr>)"
  shows "admissible (sqlite_view c) sid n es"
proof -
  from run obtain r where r: "find_first (\<lambda>r. srow_session r = sid) (sessions_table (db c)) = Some r"
    "srow_head r = n" "distinct (map ev_id es)"
    and check: "find_first (\<lambda>i. i \<in> erow_id ` set (events_table (db c))) (map ev_id es) = None"
    and ins: "\<exists>c1 ps c2. mapE (sqlite_insert sid n) (enumerate_from 1 es) c1 = (Inr ps, c2)"
    by (auto simp: sqlite_append_body_def bindE_eq_Inr select_session_def getE_def retE_def raiseE_def
        mapE_check split: option.splits if_splits)
  obtain l where l: "sqlite_view c sid = Some l" "length (log_events l) = length (session_rows (db c) sid)"
    using r(1) by (simp add: sqlite_view_def)
  have "srow_head r = int (length (session_rows (db c) sid))"
    using wf r(1) by (auto simp: sqlite_wf_def)
  moreover have "ev_id e \<notin> view_ids (sqlite_view c)" if "e \<in> set es" for e
    using check that sqlite_view_ids [OF wf] by (auto simp: find_first_None)
  moreover have "ev_session e = sid \<and> json_ok_obj (ev_data e)" if "e \<in> set es" for e
    using ins enumerate_mem [OF that, of 1] by (meson mapE_Inr_mem sqlite_insert_Inr)
  ultimately show ?thesis using l r by (auto simp: admissible_def)
qed

lemma sqlite_append_fails:
  assumes wf: "sqlite_wf c" and adm: "\<not> admissible (sqlite_view c) sid n es"
  shows "\<exists>e. sqlite_append sid n es c = (Inl e, c)"
proof -
  let ?c = "c\<lparr>saved := Some (db c)\<rparr>"
  have none: "saved c = None" using wf by (simp add: sqlite_wf_def)
  then have c: "?c\<lparr>saved := None\<rparr> = c" by (cases c) simp
  obtain r c' where run: "sqlite_append_body sid n es ?c = (r, c')"
    by (cases "sqlite_append_body sid n es ?c")
  have "r \<noteq> Inr ps" for ps
    using sqlite_append_body_Inr [of sid n es ?c ps c'] run wf adm c by auto
  then obtain e where "r = Inl e" by (cases r) auto
  then show ?thesis using sqlite_append_eq [OF none, of sid n es] run by simp
qed

lemma sqlite_append_ok:
  assumes wf: "sqlite_wf c" and adm: "admissible (sqlite_view c) sid n es"
  shows "\<exists>c'. sqlite_append sid n es c = (Inr (numbered n es), c') \<and> sqlite_wf c' \<and>
    sqlite_view c' = extend_log (sqlite_view c) sid (numbered n es)"
proof -
  let ?c = "c\<lparr>saved := Some (db c)\<rparr>"
  let ?rows = "map (\<lambda>(j, e). erow_of (persisted e (n + j)) (ev_data e)) (enumerate_from 1 es)"
  have none: "saved c = None" using wf by (simp add: sqlite_wf_def)
  from adm obtain l where l: "sqlite_view c sid = Some l" "int (length (log_events l)) = n"
    by (auto simp: admissible_def)
  then obtain r where r: "find_first (\<lambda>r. srow_session r = sid) (sessions_table (db c)) = Some r"
    "log_events l = map row_event (session_rows (db c) sid)" by (auto simp: sqlite_view_Some)
  with wf l have head: "srow_head r = n" by (auto simp: sqlite_wf_def)
  define head_of :: "session_row \<Rightarrow> session_row" where "head_of = (\<lambda>q. if srow_session q = sid then q\<lparr>srow_head := n + int (length es)\<rparr> else q)"
  define c' where "c' = c\<lparr>db := \<lparr>sessions_table = map head_of (sessions_table (db c)),
    events_table = events_table (db c) @ ?rows\<rparr>\<rparr>"
  have fresh: "find_first (\<lambda>i. i \<in> erow_id ` set (events_table (db c))) (map ev_id es) = None"
    using adm sqlite_view_ids [OF wf] by (auto simp: find_first_None admissible_def)
  have low: "erow_seq q < n + 1" if "q \<in> set (events_table (db c))" "erow_session q = sid" for q
  proof -
    from that have "erow_seq q \<in> set (map erow_seq (session_rows (db c) sid))"
      by (simp add: session_rows_def)
    then show ?thesis using l(2) r(2) unfolding session_rows_seqs [OF wf l(1)] by auto
  qed
  have ins: "mapE (sqlite_insert sid n) (enumerate_from 1 es) ?c =
      (Inr (numbered n es), ?c\<lparr>db := (db c)\<lparr>events_table := events_table (db c) @ ?rows\<rparr>\<rparr>)"
    using sqlite_insert_all [of es sid ?c n 1] adm sqlite_view_ids [OF wf] low
    by (simp add: numbered_def admissible_def)
  have "sqlite_append_body sid n es ?c = (Inr (numbered n es), c'\<lparr>saved := Some (db c)\<rparr>)"
    using adm head r(1) fresh
    by (simp add: sqlite_append_body_def bindE_def select_session_def getE_def retE_def mapE_check ins
        update_head_def modifyE_def c'_def head_of_def admissible_def)
  then have run: "sqlite_append sid n es c = (Inr (numbered n es), c')"
    by (simp add: sqlite_append_eq [OF none]) (simp add: c'_def none)
  have find': "find_first (\<lambda>q. srow_session q = s) (map head_of qs) =
      map_option head_of (find_first (\<lambda>q. srow_session q = s) qs)" for s qs
    by (induction qs) (auto simp: head_of_def)
  have rows_mem: "erow_session q = sid" if "q \<in> set ?rows" for q
  proof -
    from that obtain j e where "(j, e) \<in> set (enumerate_from 1 es)"
      "q = erow_of (persisted e (n + j)) (ev_data e)" by auto
    then have "e \<in> set es" by (metis image_eqI list.set_map map_snd_enumerate_from snd_conv)
    then have "ev_session e = sid" using adm by (simp add: admissible_def)
    with \<open>q = _\<close> show ?thesis by (simp add: erow_of_def)
  qed
  have rows_events: "map row_event ?rows = numbered n es"
    unfolding numbered_def map_map by (rule map_cong) auto
  have rows': "session_rows (db c') s = session_rows (db c) s @ (if s = sid then ?rows else [])" for s
  proof (cases "s = sid")
    case True
    have "filter (\<lambda>q. erow_session q = s) ?rows = ?rows"
      by (rule filter_True) (use rows_mem True in blast)
    then show ?thesis using True by (simp add: session_rows_def c'_def del: map_map)
  next
    case False
    have "filter (\<lambda>q. erow_session q = s) ?rows = []"
      unfolding filter_empty_conv using rows_mem False by blast
    then show ?thesis using False by (simp add: session_rows_def c'_def)
  qed
  have view: "sqlite_view c' = extend_log (sqlite_view c) sid (numbered n es)"
  proof
    fix s
    show "sqlite_view c' s = extend_log (sqlite_view c) sid (numbered n es) s"
    proof (cases "s = sid")
      case True
      have "find_first (\<lambda>q. srow_session q = sid) (sessions_table (db c')) = Some (head_of r)"
        using r(1) find' [of sid] by (simp add: c'_def)
      moreover have "log_events l @ numbered n es = map row_event (session_rows (db c') sid)"
        using rows' [of sid] rows_events r(2) by simp
      moreover have "srow_created (head_of r) = srow_created r" "srow_metadata (head_of r) = srow_metadata r"
        "srow_parent (head_of r) = srow_parent r" by (simp_all add: head_of_def)
      ultimately show ?thesis
        using r True l(1) by (auto simp: sqlite_view_def extend_log_def)
    next
      case False
      have "find_first (\<lambda>q. srow_session q = s) (sessions_table (db c')) =
          find_first (\<lambda>q. srow_session q = s) (sessions_table (db c))"
        using False find' by (auto simp: c'_def head_of_def map_option_case dest!: find_first_Some split: option.split)
      then show ?thesis using False
        by (simp add: sqlite_view_def extend_log_def rows' cong: option.case_cong)
    qed
  qed
  have "sqlite_wf c'"
    unfolding sqlite_wf_def
  proof (intro conjI allI impI ballI)
    show "saved c' = None" by (simp add: c'_def none)
    show "view_ok (sqlite_view c')"
      unfolding view using wf adm by (intro extend_log_ok) (simp_all add: sqlite_wf_def)
    have "srow_session (head_of q) = srow_session q" for q by (simp add: head_of_def)
    then show "distinct (map srow_session (sessions_table (db c')))"
      using wf by (simp add: c'_def sqlite_wf_def comp_def)
  next
    fix s q
    assume "find_first (\<lambda>r. srow_session r = s) (sessions_table (db c')) = Some q"
    then obtain q0 where q0: "find_first (\<lambda>r. srow_session r = s) (sessions_table (db c)) = Some q0"
      "q = head_of q0" by (auto simp: c'_def find')
    then have "srow_session q0 = s" by (auto dest: find_first_Some)
    moreover have "srow_head q0 = int (length (session_rows (db c) s))"
      using wf q0(1) unfolding sqlite_wf_def by blast
    moreover have "n = int (length (session_rows (db c) sid))" using l(2) r(2) by simp
    ultimately show "srow_head q = int (length (session_rows (db c') s))"
      by (simp add: rows' q0(2) head_of_def)
  next
    fix q
    assume "q \<in> set (events_table (db c'))"
    moreover have "events_table (db c') = events_table (db c) @ ?rows" by (simp add: c'_def)
    ultimately have "q \<in> set (events_table (db c)) \<union> set ?rows" by (simp only: set_append)
    then consider (old) "q \<in> set (events_table (db c))" | (new) "q \<in> set ?rows" by blast
    then have "erow_session q \<in> srow_session ` set (sessions_table (db c))"
    proof cases
      case old
      then show ?thesis using wf by (simp add: sqlite_wf_def)
    next
      case new
      then have "erow_session q = sid" by (rule rows_mem)
      then show ?thesis using find_first_Some [OF r(1)] by (metis image_eqI)
    qed
    moreover have "srow_session ` set (sessions_table (db c')) = srow_session ` set (sessions_table (db c))"
    proof -
      have "srow_session (head_of q) = srow_session q" for q by (simp add: head_of_def)
      then show ?thesis by (simp add: c'_def image_image)
    qed
    ultimately show "erow_session q \<in> srow_session ` set (sessions_table (db c'))" by simp
  qed
  with run view show ?thesis by blast
qed

section \<open>The contract holds\<close>

lemma sqlite_create_ok:
  assumes wf: "sqlite_wf c" and new: "sqlite_view c sid = None" and md: "json_ok_obj md"
  shows "\<exists>c'. sqlite_create now sid md parent c = (Inr (), c') \<and> sqlite_wf c' \<and>
    sqlite_view c' = (sqlite_view c)(sid \<mapsto> new_log now md parent)"
proof -
  define row where "row = \<lparr>srow_session = sid, srow_head = 0, srow_created = now,
      srow_metadata = md, srow_parent = parent\<rparr>"
  define c' where "c' = c\<lparr>db := (db c)\<lparr>sessions_table := sessions_table (db c) @ [row]\<rparr>\<rparr>"
  have free: "sid \<notin> srow_session ` set (sessions_table (db c))" using new by (simp add: sqlite_view_None)
  then have absent: "find_first (\<lambda>r. srow_session r = sid) (sessions_table (db c)) = None"
    by (auto simp: find_first_None)
  have run: "sqlite_create now sid md parent c = (Inr (), c')"
    using free md
    by (simp add: sqlite_create_def json_copy_def insert_session_def eff_simps c'_def row_def)
  have rows: "session_rows (db c') s = session_rows (db c) s" for s
    by (simp add: session_rows_def c'_def)
  have "e \<notin> set (events_table (db c))" if "erow_session e = sid" for e
    using wf free that by (auto simp: sqlite_wf_def)
  then have empty: "session_rows (db c) sid = []"
    by (auto simp: session_rows_def filter_empty_conv)
  have find': "find_first (\<lambda>r. srow_session r = s) (sessions_table (db c')) =
      (if s = sid then Some row else find_first (\<lambda>r. srow_session r = s) (sessions_table (db c)))" for s
    using absent by (auto simp: c'_def find_first_append row_def split: option.split)
  have view: "sqlite_view c' = (sqlite_view c)(sid \<mapsto> new_log now md parent)"
  proof
    fix s
    show "sqlite_view c' s = ((sqlite_view c)(sid \<mapsto> new_log now md parent)) s"
      by (cases "s = sid")
        (simp_all add: sqlite_view_def find' rows empty new_log_def row_def cong: option.case_cong)
  qed
  have "sqlite_wf c'"
    unfolding sqlite_wf_def
  proof (intro conjI allI impI ballI)
    show "saved c' = None" using wf by (simp add: c'_def sqlite_wf_def)
    show "view_ok (sqlite_view c')" unfolding view using wf new by (simp add: view_ok_new sqlite_wf_def)
    show "distinct (map srow_session (sessions_table (db c')))"
      using wf free by (simp add: c'_def row_def sqlite_wf_def)
    fix s r
    assume "find_first (\<lambda>r. srow_session r = s) (sessions_table (db c')) = Some r"
    then show "srow_head r = int (length (session_rows (db c') s))"
      using wf unfolding find' rows
      by (cases "s = sid") (auto simp: row_def empty sqlite_wf_def)
  next
    fix r
    assume "r \<in> set (events_table (db c'))"
    then have "r \<in> set (events_table (db c))" by (simp add: c'_def)
    then have "erow_session r \<in> srow_session ` set (sessions_table (db c))"
      using wf by (simp add: sqlite_wf_def)
    then show "erow_session r \<in> srow_session ` set (sessions_table (db c'))" by (auto simp: c'_def)
  qed
  with run view show ?thesis by blast
qed

lemma event_from_row:
  assumes "erow_version r = EVENT_SCHEMA_VERSION"
  shows "event_from_dict jc (row_dict (erow_session r) r) = Inr (row_event r)"
proof -
  have "upgrade_event_payload jc (row_dict (erow_session r) r) = Inr (row_dict (erow_session r) r)"
    by (rule upgrade_event_payload_current) (simp add: row_dict_def assms)
  then show ?thesis
    by (cases "erow_run r") (simp_all add: event_from_dict_def row_dict_def require_key_def row_event_def)
qed

lemma sqlite_read_ok:
  assumes wf: "sqlite_wf c" and l: "sqlite_view c sid = Some l"
    and cur: "list_all current_version (log_events l)"
  shows "sqlite_read jc sid k c = (Inr (after_seq k (log_events l)), c)"
proof -
  let ?rows = "session_rows (db c) sid"
  from l obtain r where r: "find_first (\<lambda>r. srow_session r = sid) (sessions_table (db c)) = Some r"
    and events: "log_events l = map row_event ?rows" by (auto simp: sqlite_view_Some)
  have "select_events sid k c = (Inr (filter (\<lambda>r. erow_seq r > k) ?rows), c)"
  proof -
    have "filter (\<lambda>r. erow_session r = sid \<and> erow_seq r > k) (events_table (db c)) =
        filter (\<lambda>r. erow_seq r > k) ?rows"
      by (simp add: session_rows_def conj_commute)
    then show ?thesis using session_rows_sorted [OF wf l]
      by (simp add: select_events_def eff_simps)
  qed
  moreover have "mapR (\<lambda>r. event_from_dict jc (row_dict sid r)) (filter (\<lambda>r. erow_seq r > k) ?rows) =
      Inr (map row_event (filter (\<lambda>r. erow_seq r > k) ?rows))"
  proof (rule mapR_all_Inr)
    fix q
    assume "q \<in> set (filter (\<lambda>r. erow_seq r > k) ?rows)"
    then have q: "q \<in> set ?rows" by simp
    then have "erow_session q = sid" by (simp add: session_rows_def)
    moreover have "erow_version q = EVENT_SCHEMA_VERSION"
      using cur q by (auto simp: events list_all_iff current_version_def row_event_def)
    ultimately show "event_from_dict jc (row_dict sid q) = Inr (row_event q)"
      using event_from_row [of q jc] by simp
  qed
  moreover have "map row_event (filter (\<lambda>r. erow_seq r > k) ?rows) = after_seq k (log_events l)"
    by (simp add: events after_seq_def filter_map comp_def row_event_def)
  ultimately show ?thesis
    by (simp add: sqlite_read_def select_session_def bindE_def getE_def retE_def r liftE_def)
qed

interpretation sqlite: event_store sqlite_create sqlite_append "sqlite_read jc" sqlite_get sqlite_wf sqlite_view
  for jc :: json_codec
proof unfold_locales
  fix s :: connection and sid now md parent l n k
  fix es :: "event list"
  assume wf: "sqlite_wf s"
  show "view_ok (sqlite_view s)" using wf by (simp add: sqlite_wf_def)
  show "sqlite_view s sid \<noteq> None \<or> \<not> json_ok_obj md \<Longrightarrow>
      \<exists>e. sqlite_create now sid md parent s = (Inl e, s)"
    by (auto simp: sqlite_create_def sqlite_view_None json_copy_def insert_session_def eff_simps
        integrity_error_def)
  show "sqlite_view s sid = Some l \<Longrightarrow> sqlite_get sid s = (Inr (info_of sid l), s)"
    using wf
    by (auto simp: sqlite_get_def sqlite_view_Some select_session_def eff_simps info_of_def
        info_from_row_def sqlite_wf_def dest: find_first_Some)
  show "sqlite_view s sid = None \<Longrightarrow> sqlite_get sid s = (Inl (session_not_found sid), s)"
    by (simp add: sqlite_get_def sqlite_view_def select_session_def eff_simps split: option.splits)
  show "sqlite_view s sid = None \<Longrightarrow> sqlite_read jc sid k s = (Inl (session_not_found sid), s)"
    by (simp add: sqlite_read_def sqlite_view_def select_session_def eff_simps split: option.splits)
qed (simp_all add: sqlite_create_ok sqlite_append_ok sqlite_append_fails sqlite_read_ok)

section \<open>Listing and refusals\<close>

lemma find_first_distinct:
  "distinct (map f xs) \<Longrightarrow> x \<in> set xs \<Longrightarrow> find_first (\<lambda>y. f y = f x) xs = Some x"
  by (induction xs) (auto simp: image_iff)

lemma sqlite_roster:
  assumes wf: "sqlite_wf c"
  shows "roster (sqlite_view c) (newest_first (map info_from_row (sessions_table (db c))))"
proof (rule roster_newest_first)
  let ?rows = "sessions_table (db c)"
  have dist: "distinct (map srow_session ?rows)" using wf by (simp add: sqlite_wf_def)
  then show "distinct (map info_session (map info_from_row ?rows))" by (simp add: info_from_row_def comp_def)
  have one: "info_of (srow_session r) l = info_from_row r"
    if "sqlite_view c (srow_session r) = Some l"
      "find_first (\<lambda>q. srow_session q = srow_session r) ?rows = Some r" for r l
    using that wf by (auto simp: sqlite_view_def sqlite_wf_def info_of_def info_from_row_def)
  show "set (map info_from_row ?rows) = {info_of sid l | sid l. sqlite_view c sid = Some l}"
  proof (intro equalityI subsetI)
    fix i
    assume "i \<in> set (map info_from_row ?rows)"
    then obtain r where r: "r \<in> set ?rows" "i = info_from_row r" by auto
    then have found: "find_first (\<lambda>q. srow_session q = srow_session r) ?rows = Some r"
      using find_first_distinct [OF dist] by blast
    then obtain l where l: "sqlite_view c (srow_session r) = Some l" by (simp add: sqlite_view_def)
    from one [OF l found] r(2) l show "i \<in> {info_of sid l | sid l. sqlite_view c sid = Some l}" by force
  next
    fix i
    assume "i \<in> {info_of sid l | sid l. sqlite_view c sid = Some l}"
    then obtain sid l where l: "i = info_of sid l" "sqlite_view c sid = Some l" by blast
    then obtain r where r: "find_first (\<lambda>q. srow_session q = sid) ?rows = Some r" by (auto simp: sqlite_view_Some)
    then have mem: "r \<in> set ?rows" "srow_session r = sid" by (auto dest: find_first_Some)
    with one [of r l] l r show "i \<in> set (map info_from_row ?rows)" by auto
  qed
qed

lemma sqlite_append_refused:
  assumes wf: "sqlite_wf c" and adm: "\<not> admissible (sqlite_view c) sid n es" and sound: "sound_batch sid es"
  shows "sqlite_append sid n es c = (Inl (append_refusal (sqlite_view c) sid n es), c)"
proof -
  let ?c = "c\<lparr>saved := Some (db c)\<rparr>"
  have none: "saved c = None" using wf by (simp add: sqlite_wf_def)
  have "fst (sqlite_append_body sid n es ?c) = Inl (append_refusal (sqlite_view c) sid n es)"
  proof (cases "find_first (\<lambda>r. srow_session r = sid) (sessions_table (db c))")
    case None
    then have "sqlite_view c sid = None" by (simp add: sqlite_view_def)
    with None show ?thesis
      by (simp add: sqlite_append_body_def select_session_def append_refusal_def eff_simps)
  next
    case (Some r)
    then obtain l where l: "sqlite_view c sid = Some l" "length (log_events l) = length (session_rows (db c) sid)"
      by (simp add: sqlite_view_def)
    with wf Some have head: "srow_head r = int (length (log_events l))" by (simp add: sqlite_wf_def)
    show ?thesis
    proof (cases "srow_head r = n \<and> distinct (map ev_id es)")
      case True
      have ids: "view_ids (sqlite_view c) = erow_id ` set (events_table (db c))" by (rule sqlite_view_ids [OF wf])
      have "\<exists>e \<in> set es. ev_id e \<in> view_ids (sqlite_view c)"
        using not_admissible_sound [OF adm sound l(1)] head True by simp
      then have "find_first (\<lambda>i. i \<in> erow_id ` set (events_table (db c))) (map ev_id es) \<noteq> None"
        unfolding find_first_None ids by auto
      then obtain i where "find_first (\<lambda>i. i \<in> erow_id ` set (events_table (db c))) (map ev_id es) = Some i"
        by blast
      then show ?thesis using Some True l(1) head
        by (simp add: sqlite_append_body_def select_session_def append_refusal_def bindE_def getE_def retE_def
            mapE_check ids)
    next
      case False
      then show ?thesis using Some l(1) head
        by (auto simp: sqlite_append_body_def select_session_def append_refusal_def eff_simps)
    qed
  qed
  then show ?thesis
    by (auto simp: sqlite_append_eq [OF none] split: prod.splits sum.splits)
qed

interpretation listed_sqlite: listed_store sqlite_create sqlite_append "sqlite_read jc" sqlite_get sqlite_wf
  sqlite_view sqlite_list_sessions
  for jc :: json_codec
proof unfold_locales
  fix s :: connection and limit n :: int and now sid :: string and md :: jobj and parent and es :: "event list"
  show "\<exists>xs. sqlite_list_sessions limit s = (Inr xs, s)"
    by (simp add: sqlite_list_sessions_def eff_simps Let_def)
  assume wf: "sqlite_wf s"
  show "\<exists>xs. sqlite_list_sessions limit s = (Inr (take (nat limit) xs), s) \<and> roster (sqlite_view s) xs"
    if "0 \<le> limit"
    using that sqlite_roster [OF wf] by (auto simp: sqlite_list_sessions_def eff_simps Let_def)
  show "sqlite_create now sid md parent s = (Inl (session_exists sid), s)"
    if "sqlite_view s sid \<noteq> None" "json_ok_obj md"
    using that by (simp add: sqlite_create_def sqlite_view_None json_copy_def insert_session_def eff_simps)
  show "sqlite_append sid n es s = (Inl (append_refusal (sqlite_view s) sid n es), s)"
    if "\<not> admissible (sqlite_view s) sid n es" "sound_batch sid es"
    by (rule sqlite_append_refused [OF wf that])
qed

end
