(* ===== verification/Stores.thy ===== *)
theory Stores
  imports Sqlite_Store
begin

text \<open>
  The two stores side by side: the value a session holds, which is one or the other, and the
  equivalence of the two as seen through their methods.
\<close>

section \<open>Either store\<close>

datatype store = MemoryStore memory_store | SqliteStore json_codec connection

definition in_store ::
  "(memory_store, 'a) sm \<Rightarrow> (json_codec \<Rightarrow> (connection, 'a) sm) \<Rightarrow> (store, 'a) sm" where
  "in_store f g = (\<lambda>s. case s of
     MemoryStore m \<Rightarrow> map_prod id MemoryStore (f m)
   | SqliteStore jc c \<Rightarrow> map_prod id (SqliteStore jc) (g jc c))"

definition store_create :: "string \<Rightarrow> string \<Rightarrow> jobj \<Rightarrow> string option \<Rightarrow> (store, unit) sm" where
  "store_create now sid md parent =
     in_store (memory_create now sid md parent) (\<lambda>jc. sqlite_create now sid md parent)"

definition store_append :: "string \<Rightarrow> int \<Rightarrow> event list \<Rightarrow> (store, event list) sm" where
  "store_append sid n es = in_store (memory_append sid n es) (\<lambda>jc. sqlite_append sid n es)"

definition store_read :: "string \<Rightarrow> int \<Rightarrow> (store, event list) sm" where
  "store_read sid k = in_store (memory_read sid k) (\<lambda>jc. sqlite_read jc sid k)"

definition store_get :: "string \<Rightarrow> (store, session_info) sm" where
  "store_get sid = in_store (memory_get sid) (\<lambda>jc. sqlite_get sid)"

definition store_list_sessions :: "int \<Rightarrow> (store, session_info list) sm" where
  "store_list_sessions limit = in_store (memory_list_sessions limit) (\<lambda>jc. sqlite_list_sessions limit)"

definition store_wf :: "store \<Rightarrow> bool" where
  "store_wf s \<longleftrightarrow> (case s of MemoryStore m \<Rightarrow> memory_wf m | SqliteStore jc c \<Rightarrow> sqlite_wf c)"

definition store_view :: "store \<Rightarrow> store_view" where
  "store_view s = (case s of MemoryStore m \<Rightarrow> memory_view m | SqliteStore jc c \<Rightarrow> sqlite_view c)"

lemmas store_ops = store_create_def store_append_def store_read_def store_get_def
  store_wf_def store_view_def in_store_def

interpretation stores: event_store store_create store_append store_read store_get store_wf store_view
proof unfold_locales
  fix s :: store and sid now md parent l n k
  fix es :: "event list"
  assume wf: "store_wf s"
  show "view_ok (store_view s)"
    using wf memory.wf_view sqlite.wf_view by (cases s) (auto simp: store_ops)
  show "\<exists>s'. store_create now sid md parent s = (Inr (), s') \<and> store_wf s' \<and>
      store_view s' = (store_view s)(sid \<mapsto> new_log now md parent)"
    if "store_view s sid = None" "json_ok_obj md"
    using wf that memory.create_ok [where sid = sid and md = md and now = now and parent = parent]
      sqlite.create_ok [where sid = sid and md = md and now = now and parent = parent]
    by (cases s) (fastforce simp: store_ops)+
  show "\<exists>e. store_create now sid md parent s = (Inl e, s)"
    if "store_view s sid \<noteq> None \<or> \<not> json_ok_obj md"
    using wf that memory.create_fails [where sid = sid and md = md and now = now and parent = parent]
      sqlite.create_fails [where sid = sid and md = md and now = now and parent = parent] by (cases s) (fastforce simp: store_ops)+
  show "\<exists>s'. store_append sid n es s = (Inr (numbered n es), s') \<and> store_wf s' \<and>
      store_view s' = extend_log (store_view s) sid (numbered n es)"
    if "admissible (store_view s) sid n es"
    using wf that memory.append_ok [where sid = sid and n = n and es = es]
      sqlite.append_ok [where sid = sid and n = n and es = es]
    by (cases s) (fastforce simp: store_ops)+
  show "\<exists>e. store_append sid n es s = (Inl e, s)" if "\<not> admissible (store_view s) sid n es"
    using wf that memory.append_fails [where sid = sid and n = n and es = es]
      sqlite.append_fails [where sid = sid and n = n and es = es] by (cases s) (fastforce simp: store_ops)+
  show "store_get sid s = (Inr (info_of sid l), s)" if "store_view s sid = Some l"
    using wf that memory.get_ok sqlite.get_ok by (cases s) (auto simp: store_ops)
  show "store_get sid s = (Inl (session_not_found sid), s)" if "store_view s sid = None"
    using wf that memory.get_fails sqlite.get_fails by (cases s) (auto simp: store_ops)
  show "store_read sid k s = (Inr (after_seq k (log_events l)), s)"
    if "store_view s sid = Some l" "list_all current_version (log_events l)"
    using wf that memory.read_ok sqlite.read_ok by (cases s) (auto simp: store_ops)
  show "store_read sid k s = (Inl (session_not_found sid), s)" if "store_view s sid = None"
    using wf that memory.read_fails sqlite.read_fails by (cases s) (auto simp: store_ops)
qed

text \<open>Reading changes nothing, whatever state the store is in.\<close>

lemma store_read_state: "snd (store_read sid k st) = st" "snd (store_get sid st) = st"
proof -
  have "snd (memory_read sid k m) = m" "snd (memory_get sid m) = m" for m
    by (auto simp: memory_read_def memory_get_def eff_simps split: option.split)
  moreover have "snd (sqlite_read jc sid k c) = c" "snd (sqlite_get sid c) = c" for jc c
    by (auto simp: sqlite_read_def sqlite_get_def select_session_def select_events_def eff_simps
        split: option.split sum.split)
  ultimately show "snd (store_read sid k st) = st" "snd (store_get sid st) = st"
    by (auto simp: store_read_def store_get_def in_store_def split: store.split)
qed

lemma store_list_state: "snd (store_list_sessions limit st) = st"
  by (simp add: store_list_sessions_def in_store_def memory_list_sessions_def sqlite_list_sessions_def eff_simps
      Let_def split: store.split)

section \<open>Scripts of calls\<close>

datatype store_call =
    CallCreate string string jobj "string option"
  | CallAppend string int "event list"
  | CallRead string int
  | CallGet string
  | CallList int

datatype store_reply =
    Refused exn
  | Created
  | Appended "event list"
  | Found "event list"
  | Info session_info
  | Listed "session_info list"

definition reply :: "('a \<Rightarrow> store_reply) \<Rightarrow> (exn + 'a) \<times> 'st \<Rightarrow> store_reply \<times> 'st" where
  "reply f p = (case fst p of Inl e \<Rightarrow> Refused e | Inr x \<Rightarrow> f x, snd p)"

record 'st store_methods =
  do_create :: "string \<Rightarrow> string \<Rightarrow> jobj \<Rightarrow> string option \<Rightarrow> ('st, unit) sm"
  do_append :: "string \<Rightarrow> int \<Rightarrow> event list \<Rightarrow> ('st, event list) sm"
  do_read :: "string \<Rightarrow> int \<Rightarrow> ('st, event list) sm"
  do_get :: "string \<Rightarrow> ('st, session_info) sm"
  do_list :: "int \<Rightarrow> ('st, session_info list) sm"

fun call_store :: "'st store_methods \<Rightarrow> store_call \<Rightarrow> 'st \<Rightarrow> store_reply \<times> 'st" where
  "call_store ms (CallCreate now sid md parent) s = reply (\<lambda>_. Created) (do_create ms now sid md parent s)"
| "call_store ms (CallAppend sid n es) s = reply Appended (do_append ms sid n es s)"
| "call_store ms (CallRead sid k) s = reply Found (do_read ms sid k s)"
| "call_store ms (CallGet sid) s = reply Info (do_get ms sid s)"
| "call_store ms (CallList limit) s = reply Listed (do_list ms limit s)"

fun run_calls :: "'st store_methods \<Rightarrow> store_call list \<Rightarrow> 'st \<Rightarrow> store_reply list \<times> 'st" where
  "run_calls ms [] s = ([], s)"
| "run_calls ms (c # cs) s =
     (let (r, s') = call_store ms c s; (rs, s'') = run_calls ms cs s' in (r # rs, s''))"

definition memory_methods :: "memory_store store_methods" where
  "memory_methods = \<lparr>do_create = memory_create, do_append = memory_append, do_read = memory_read,
     do_get = memory_get, do_list = memory_list_sessions\<rparr>"

definition sqlite_methods :: "json_codec \<Rightarrow> connection store_methods" where
  "sqlite_methods jc = \<lparr>do_create = sqlite_create, do_append = sqlite_append,
     do_read = sqlite_read jc, do_get = sqlite_get, do_list = sqlite_list_sessions\<rparr>"

fun call_is_current :: "store_call \<Rightarrow> bool" where
  "call_is_current (CallAppend sid n es) = list_all current_version es"
| "call_is_current _ = True"

definition view_current :: "store_view \<Rightarrow> bool" where
  "view_current v \<longleftrightarrow> (\<forall>sid l. v sid = Some l \<longrightarrow> list_all current_version (log_events l))"

lemma view_current_extend:
  assumes "view_current v" "list_all current_version es"
  shows "view_current (extend_log v sid (numbered n es))"
proof -
  have "list_all current_version (numbered n es)"
    using assms(2) by (auto simp: list_all_iff current_version_def dest!: numbered_mem)
  with assms(1) show ?thesis by (auto simp: view_current_def extend_log_def split: if_splits)
qed

section \<open>Comparing replies\<close>

text \<open>
  A call is sound when its own arguments leave the stores no choice: metadata and payloads are JSON
  values, the events of a batch name the session, and a list is asked for with a limit that is not
  negative, of sessions created at different instants (\<open>apart\<close>). The reply to a sound call is the same
  in every respect; to another call two stores may give another refusal or another list.
\<close>

fun create_times :: "store_call list \<Rightarrow> string list" where
  "create_times [] = []"
| "create_times (CallCreate now sid md parent # cs) = now # create_times cs"
| "create_times (_ # cs) = create_times cs"

fun sound_call :: "bool \<Rightarrow> store_call \<Rightarrow> bool" where
  "sound_call apart (CallCreate now sid md parent) = json_ok_obj md"
| "sound_call apart (CallAppend sid n es) = sound_batch sid es"
| "sound_call apart (CallList limit) = (apart \<and> 0 \<le> limit)"
| "sound_call apart _ = True"

fun same_outcome :: "store_reply \<Rightarrow> store_reply \<Rightarrow> bool" where
  "same_outcome (Refused _) (Refused _) = True"
| "same_outcome (Listed _) (Listed _) = True"
| "same_outcome r r' = (r = r')"

definition same_reply :: "bool \<Rightarrow> store_call \<Rightarrow> store_reply \<Rightarrow> store_reply \<Rightarrow> bool" where
  "same_reply apart c r r' \<longleftrightarrow> (if sound_call apart c then r = r' else same_outcome r r')"

fun same_replies :: "bool \<Rightarrow> store_call list \<Rightarrow> store_reply list \<Rightarrow> store_reply list \<Rightarrow> bool" where
  "same_replies apart [] rs rs' = (rs = [] \<and> rs' = [])"
| "same_replies apart (c # cs) (r # rs) (r' # rs') =
     (same_reply apart c r r' \<and> same_replies apart cs rs rs')"
| "same_replies apart (c # cs) _ _ = False"

lemma same_reply_refl [simp]: "same_reply apart c r r"
  by (cases r) (simp_all add: same_reply_def)

definition clock_ok :: "store_view \<Rightarrow> string list \<Rightarrow> bool" where
  "clock_ok v ts \<longleftrightarrow>
     times_apart v \<and> distinct ts \<and> (\<forall>sid l. v sid = Some l \<longrightarrow> log_created l \<notin> set ts)"

lemma clock_ok_new: "clock_ok v (now # ts) \<Longrightarrow> clock_ok (v(sid \<mapsto> new_log now md parent)) ts"
  by (fastforce simp: clock_ok_def times_apart_def new_log_def split: if_splits)

lemma clock_ok_extend: "clock_ok v ts \<Longrightarrow> clock_ok (extend_log v sid es) ts"
  by (auto simp: clock_ok_def times_apart_def extend_log_def split: if_splits)

lemma clock_ok_drop: "clock_ok v (now # ts) \<Longrightarrow> clock_ok v ts"
  by (auto simp: clock_ok_def)

text \<open>Two stores that keep the contract cannot be told apart.\<close>

locale store_pair =
  a: listed_store create_a append_a read_a get_a wf_a view_a list_a +
  b: listed_store create_b append_b read_b get_b wf_b view_b list_b
  for create_a append_a read_a get_a wf_a and view_a :: "'s \<Rightarrow> store_view" and list_a
    and create_b append_b read_b get_b wf_b and view_b :: "'t \<Rightarrow> store_view" and list_b
begin

definition same :: "'s \<Rightarrow> 't \<Rightarrow> bool" where
  "same s t \<longleftrightarrow> wf_a s \<and> wf_b t \<and> view_a s = view_b t \<and> view_current (view_b t)"

lemma sameD: "same s t \<Longrightarrow> wf_a s \<and> wf_b t \<and> view_a s = view_b t \<and> view_current (view_b t)"
  by (simp add: same_def)

text \<open>What one call is answered and what it leaves.\<close>

definition agree :: "bool \<Rightarrow> store_call list \<Rightarrow> store_call \<Rightarrow> store_reply \<times> 's \<Rightarrow> store_reply \<times> 't \<Rightarrow> bool" where
  "agree apart cs c p q \<longleftrightarrow>
     same_reply apart c (fst p) (fst q) \<and> same (snd p) (snd q) \<and>
     (apart \<longrightarrow> clock_ok (view_b (snd q)) (create_times cs))"

lemma create_agrees:
  assumes "same s t" and clock: "apart \<longrightarrow> clock_ok (view_b t) (create_times (CallCreate now sid md parent # cs))"
  shows "agree apart cs (CallCreate now sid md parent)
    (reply (\<lambda>_. Created) (create_a now sid md parent s)) (reply (\<lambda>_. Created) (create_b now sid md parent t))"
proof -
  from sameD [OF assms(1)] have wf: "wf_a s" "wf_b t" and v: "view_a s = view_b t" "view_current (view_b t)"
    by auto
  show ?thesis
  proof (cases "view_b t sid = None \<and> json_ok_obj md")
    case True
    with a.create_ok [OF wf(1), of sid md now parent] b.create_ok [OF wf(2), of sid md now parent] v
    obtain s' t' where "create_a now sid md parent s = (Inr (), s')" "wf_a s'"
      "create_b now sid md parent t = (Inr (), t')" "wf_b t'"
      "view_a s' = (view_b t)(sid \<mapsto> new_log now md parent)"
      "view_b t' = (view_b t)(sid \<mapsto> new_log now md parent)" by auto
    moreover have "view_current ((view_b t)(sid \<mapsto> new_log now md parent))"
      using v(2) by (auto simp: view_current_def new_log_def)
    ultimately show ?thesis using clock clock_ok_new by (simp add: agree_def same_def reply_def)
  next
    case False
    with a.create_fails [OF wf(1), of sid md now parent] b.create_fails [OF wf(2), of sid md now parent] v
    obtain e e' where run: "create_a now sid md parent s = (Inl e, s)" "create_b now sid md parent t = (Inl e', t)"
      by auto
    have "e = e'" if "json_ok_obj md"
      using False that v(1) run a.create_taken [OF wf(1), of sid md now parent]
        b.create_taken [OF wf(2), of sid md now parent] by simp
    with run assms(1) clock clock_ok_drop show ?thesis by (auto simp: agree_def reply_def same_reply_def)
  qed
qed

lemma append_agrees:
  assumes "same s t" "list_all current_version es"
    and clock: "apart \<longrightarrow> clock_ok (view_b t) (create_times cs)"
  shows "agree apart cs (CallAppend sid n es) (reply Appended (append_a sid n es s)) (reply Appended (append_b sid n es t))"
proof -
  from sameD [OF assms(1)] have wf: "wf_a s" "wf_b t" and v: "view_a s = view_b t" "view_current (view_b t)"
    by auto
  show ?thesis
  proof (cases "admissible (view_b t) sid n es")
    case True
    with a.append_ok [OF wf(1), of sid n es] b.append_ok [OF wf(2), of sid n es] v
    obtain s' t' where "append_a sid n es s = (Inr (numbered n es), s')" "wf_a s'"
      "append_b sid n es t = (Inr (numbered n es), t')" "wf_b t'"
      "view_a s' = extend_log (view_b t) sid (numbered n es)"
      "view_b t' = extend_log (view_b t) sid (numbered n es)" by auto
    with view_current_extend [OF v(2) assms(2)] clock clock_ok_extend show ?thesis
      by (simp add: agree_def same_def reply_def)
  next
    case False
    with a.append_fails [OF wf(1), of sid n es] b.append_fails [OF wf(2), of sid n es] v
    obtain e e' where run: "append_a sid n es s = (Inl e, s)" "append_b sid n es t = (Inl e', t)" by auto
    have "e = e'" if "sound_batch sid es"
      using False that v(1) run a.append_refused [OF wf(1), of sid n es] b.append_refused [OF wf(2), of sid n es]
      by simp
    with run assms(1) clock show ?thesis by (auto simp: agree_def reply_def same_reply_def)
  qed
qed

lemma read_agrees:
  assumes "same s t"
  shows "read_a sid k s = (fst (read_b sid k t), s)" "snd (read_b sid k t) = t"
    and "get_a sid s = (fst (get_b sid t), s)" "snd (get_b sid t) = t"
proof -
  from sameD [OF assms(1)] have wf: "wf_a s" "wf_b t" and v: "view_a s = view_b t" "view_current (view_b t)"
    by auto
  show "read_a sid k s = (fst (read_b sid k t), s)" "snd (read_b sid k t) = t"
    "get_a sid s = (fst (get_b sid t), s)" "snd (get_b sid t) = t"
    using a.read_ok [OF wf(1)] b.read_ok [OF wf(2)] a.read_fails [OF wf(1)] b.read_fails [OF wf(2)]
      a.get_ok [OF wf(1)] b.get_ok [OF wf(2)] a.get_fails [OF wf(1)] b.get_fails [OF wf(2)] v
    by (cases "view_b t sid"; simp add: view_current_def)+
qed

lemma list_agrees:
  assumes "same s t" and clock: "apart \<longrightarrow> clock_ok (view_b t) (create_times cs)"
  shows "agree apart cs (CallList limit) (reply Listed (list_a limit s)) (reply Listed (list_b limit t))"
proof -
  from sameD [OF assms(1)] have wf: "wf_a s" "wf_b t" and v: "view_a s = view_b t" by auto
  obtain xs ys where run: "list_a limit s = (Inr xs, s)" "list_b limit t = (Inr ys, t)"
    using a.listing_answers b.listing_answers by blast
  have "xs = ys" if ap: "apart" and lim: "0 \<le> limit"
  proof -
    obtain all_a all_b where "xs = take (nat limit) all_a" "ys = take (nat limit) all_b"
      "roster (view_b t) all_a" "roster (view_b t) all_b"
      using a.listing_ok [OF wf(1) lim] b.listing_ok [OF wf(2) lim] run v by auto
    moreover have "times_apart (view_b t)" using clock ap by (simp add: clock_ok_def)
    ultimately show ?thesis using roster_unique by blast
  qed
  with run assms show ?thesis by (auto simp: agree_def reply_def same_reply_def)
qed

lemma call_agrees:
  assumes "same s t" "call_is_current c" and clock: "apart \<longrightarrow> clock_ok (view_b t) (create_times (c # cs))"
    and ms: "ms = \<lparr>do_create = create_a, do_append = append_a, do_read = read_a, do_get = get_a, do_list = list_a\<rparr>"
    and mt: "mt = \<lparr>do_create = create_b, do_append = append_b, do_read = read_b, do_get = get_b, do_list = list_b\<rparr>"
  shows "agree apart cs c (call_store ms c s) (call_store mt c t)"
proof (cases c)
  case (CallCreate now sid md parent)
  then show ?thesis using create_agrees [OF assms(1), where now = now and sid = sid and md = md and parent = parent and cs = cs and apart = apart] clock by (simp add: ms mt)
next
  case (CallAppend sid n es)
  then show ?thesis using append_agrees [OF assms(1), where es = es and cs = cs and sid = sid and n = n and apart = apart] assms(2) clock by (simp add: ms mt)
next
  case (CallRead sid k)
  then show ?thesis using read_agrees(1,2) [OF assms(1), of sid k] assms(1) clock
    by (simp add: ms mt reply_def agree_def)
next
  case (CallGet sid)
  then show ?thesis using read_agrees(3,4) [OF assms(1), of sid] assms(1) clock by (simp add: ms mt reply_def agree_def)
next
  case (CallList limit)
  then show ?thesis using list_agrees [OF assms(1), where apart = apart and cs = cs and limit = limit] clock by (simp add: ms mt)
qed

lemma calls_agree:
  assumes "same s t" "list_all call_is_current cs" "apart \<longrightarrow> clock_ok (view_b t) (create_times cs)"
    and ms: "ms = \<lparr>do_create = create_a, do_append = append_a, do_read = read_a, do_get = get_a, do_list = list_a\<rparr>"
    and mt: "mt = \<lparr>do_create = create_b, do_append = append_b, do_read = read_b, do_get = get_b, do_list = list_b\<rparr>"
  shows "same_replies apart cs (fst (run_calls ms cs s)) (fst (run_calls mt cs t)) \<and>
    view_a (snd (run_calls ms cs s)) = view_b (snd (run_calls mt cs t))"
  using assms(1-3)
proof (induction cs arbitrary: s t)
  case (Cons c cs)
  then have "agree apart cs c (call_store ms c s) (call_store mt c t)"
    by (intro call_agrees [OF _ _ _ ms mt]) simp_all
  with Cons show ?case by (simp add: Let_def split_beta agree_def)
qed (simp add: same_def)

end

interpretation store_equivalence: store_pair
  memory_create memory_append memory_read memory_get memory_wf memory_view memory_list_sessions
  sqlite_create sqlite_append "sqlite_read jc" sqlite_get sqlite_wf sqlite_view sqlite_list_sessions
  for jc :: json_codec
  by unfold_locales

end
