(* ===== verification/Leases.thy ===== *)
theory Leases
  imports Events Projection "HOL-Library.Char_ord" "HOL-Library.List_Lexorder"
begin

text \<open>
  Capability leases, approval grants and the authorization state projected from the event log:
  \<^verbatim>\<open>aihi/agent/policy/leases.py\<close>. Durations are whole microseconds, the resolution of
  \<^verbatim>\<open>timedelta\<close>.
\<close>

definition invariant_violation :: "string \<Rightarrow> exn" where
  "invariant_violation m = Exn (Core EventInvariantViolation) m"

text \<open>\<^verbatim>\<open>_now() + timedelta(...)\<close>, which cannot pass the year 9999.\<close>

definition dt_plus :: "datetime \<Rightarrow> int \<Rightarrow> exn + datetime" where
  "dt_plus t d = (if dt_valid (t + d) then Inr (t + d)
                  else Inl (Exn (Py OverflowError) ''date value out of range''))"

section \<open>Capability leases\<close>

record capability_lease =
  lease_id :: string
  lease_run :: string
  capabilities :: "string set"
  lease_expires :: datetime

definition issue_lease :: "string \<Rightarrow> string set \<Rightarrow> int \<Rightarrow> ('w world_scheme, capability_lease) sm" where
  "issue_lease run_id caps ttl =
     (if run_id = '''' then raiseE (Exn (Py ValueError) ''Capability lease run_id must not be empty'')
      else if ttl \<le> 0 then raiseE (Exn (Py ValueError) ''Capability lease TTL must be positive'')
      else bindE (new_id ''lease'') (\<lambda>i. bindE utc_datetime (\<lambda>now.
             bindE (liftE (dt_plus now ttl)) (\<lambda>expires.
               retE \<lparr>lease_id = i, lease_run = run_id, capabilities = caps, lease_expires = expires\<rparr>))))"

definition lease_active :: "datetime \<Rightarrow> capability_lease \<Rightarrow> bool" where
  "lease_active now l \<longleftrightarrow> now < lease_expires l"

definition lease_grants :: "datetime \<Rightarrow> capability_lease \<Rightarrow> string list \<Rightarrow> bool" where
  "lease_grants now l required \<longleftrightarrow> lease_active now l \<and> set required \<subseteq> capabilities l"

definition lease_to_dict :: "capability_lease \<Rightarrow> jobj" where
  "lease_to_dict l =
     [(''lease_id'', JStr (lease_id l)),
      (''run_id'', JStr (lease_run l)),
      (''capabilities'', jstrs (sorted_list_of_set (capabilities l))),
      (''expires_at'', JStr (isoformat (lease_expires l)))]"

definition read_datetime :: "string \<Rightarrow> exn + datetime" where
  "read_datetime s =
     (case fromisoformat s of
        None \<Rightarrow> Inl (Exn (Py ValueError) ''Invalid isoformat string'')
      | Some t \<Rightarrow> Inr t)"

definition lease_from_dict :: "jobj \<Rightarrow> exn + capability_lease" where
  "lease_from_dict v =
     bindR (require_key v ''expires_at'') (\<lambda>raw_expires.
     bindR (read_datetime (py_str raw_expires)) (\<lambda>expires.
     (case get_or v ''capabilities'' (JArr []) of
        JArr raw \<Rightarrow>
          bindR (require_key v ''lease_id'') (\<lambda>i.
          bindR (require_key v ''run_id'') (\<lambda>r.
            Inr \<lparr>lease_id = py_str i, lease_run = py_str r, capabilities = set (map py_str raw),
                 lease_expires = expires\<rparr>))
      | _ \<Rightarrow> Inl (Exn (Py ValueError) ''Capability lease capabilities must be a collection''))))"

section \<open>Approvals\<close>

record approval =
  appr_scope :: string
  appr_granted_by :: string
  appr_expires :: "datetime option"
  appr_run :: "string option"
  appr_one_shot :: bool
  appr_id :: string

definition issue_approval ::
  "string \<Rightarrow> string \<Rightarrow> string option \<Rightarrow> int option \<Rightarrow> ('w world_scheme, approval) sm" where
  "issue_approval scope granted_by run_id ttl =
     (if scope = '''' then raiseE (Exn (Py ValueError) ''Approval scope must not be empty'')
      else if (case ttl of Some d \<Rightarrow> d \<le> 0 | None \<Rightarrow> False)
      then raiseE (Exn (Py ValueError) ''Approval TTL must be positive'')
      else bindE (case ttl of None \<Rightarrow> retE None
                  | Some d \<Rightarrow> bindE utc_datetime (\<lambda>now. bindE (liftE (dt_plus now d)) (\<lambda>t. retE (Some t))))
             (\<lambda>expires. bindE (new_id ''approval'') (\<lambda>i.
               retE \<lparr>appr_scope = scope, appr_granted_by = granted_by, appr_expires = expires,
                     appr_run = run_id, appr_one_shot = False, appr_id = i\<rparr>)))"

definition approval_active :: "datetime \<Rightarrow> approval \<Rightarrow> bool" where
  "approval_active now a \<longleftrightarrow> (case appr_expires a of None \<Rightarrow> True | Some t \<Rightarrow> now < t)"

definition approval_covers :: "datetime \<Rightarrow> approval \<Rightarrow> string \<Rightarrow> bool" where
  "approval_covers now a scope \<longleftrightarrow>
     approval_active now a \<and> (appr_scope a = scope \<or> appr_scope a = ''*'')"

definition approval_to_dict :: "approval \<Rightarrow> jobj" where
  "approval_to_dict a =
     [(''approval_id'', JStr (appr_id a)),
      (''scope'', JStr (appr_scope a)),
      (''granted_by'', JStr (appr_granted_by a)),
      (''expires_at'', case appr_expires a of None \<Rightarrow> JNull | Some t \<Rightarrow> JStr (isoformat t)),
      (''run_id'', jopt_str (appr_run a)),
      (''one_shot'', JBool (appr_one_shot a))]"

definition approval_from_dict :: "jobj \<Rightarrow> exn + approval" where
  "approval_from_dict v =
     bindR (let raw = get_or_none v ''expires_at'' in
            if truthy raw then bindR (read_datetime (py_str raw)) (\<lambda>t. Inr (Some t)) else Inr None)
       (\<lambda>expires.
     bindR (require_key v ''approval_id'') (\<lambda>i.
     bindR (require_key v ''scope'') (\<lambda>scope.
     bindR (require_key v ''granted_by'') (\<lambda>by_whom.
       Inr \<lparr>appr_scope = py_str scope, appr_granted_by = py_str by_whom, appr_expires = expires,
            appr_run = opt_str (get_or_none v ''run_id''),
            appr_one_shot = truthy (get_or v ''one_shot'' (JBool False)),
            appr_id = py_str i\<rparr>))))"

section \<open>Authorization state\<close>

record auth_state =
  leases :: "(string, capability_lease) dict"
  approvals :: "(string, approval) dict"
  pending_approvals :: "(string, approval) dict"
  seen_lease_ids :: "string set"
  revoked_lease_ids :: "string set"
  seen_approval_ids :: "string set"
  resolved_approval_ids :: "string set"
  consumed_approval_ids :: "string set"

definition auth_empty :: auth_state where
  "auth_empty = \<lparr>leases = [], approvals = [], pending_approvals = [], seen_lease_ids = {},
     revoked_lease_ids = {}, seen_approval_ids = {}, resolved_approval_ids = {},
     consumed_approval_ids = {}\<rparr>"

definition apply_lease_issued :: "auth_state \<Rightarrow> event \<Rightarrow> exn + auth_state" where
  "apply_lease_issued st e =
     (case get_or_none (ev_data e) ''lease'' of
        JObj raw \<Rightarrow> bindR (lease_from_dict raw) (\<lambda>l.
          if lease_run l = '''' \<or> ev_run e \<noteq> Some (lease_run l)
          then Inl (invariant_violation ''Capability lease event run_id mismatch'')
          else if lease_id l \<in> seen_lease_ids st \<or> lease_id l \<in> revoked_lease_ids st
          then Inl (invariant_violation (''Duplicate capability lease: '' @ lease_id l))
          else Inr (st\<lparr>seen_lease_ids := insert (lease_id l) (seen_lease_ids st),
                       leases := dict_set (lease_id l) l (leases st)\<rparr>))
      | _ \<Rightarrow> Inl (invariant_violation ''Capability lease event is missing lease payload''))"

definition apply_lease_revoked :: "auth_state \<Rightarrow> event \<Rightarrow> exn + auth_state" where
  "apply_lease_revoked st e =
     (case (get_or_none (ev_data e) ''lease_id'', ev_run e) of
        (JStr i, Some r) \<Rightarrow>
          (case dict_get (leases st) i of
             None \<Rightarrow> Inl (invariant_violation (''Unknown capability lease: '' @ i))
           | Some l \<Rightarrow>
               (if lease_run l \<noteq> r
                then Inl (invariant_violation (''Unknown capability lease: '' @ i))
                else Inr (st\<lparr>leases := dict_pop i (leases st),
                             revoked_lease_ids := insert i (revoked_lease_ids st)\<rparr>)))
      | _ \<Rightarrow> Inl (invariant_violation ''Invalid capability lease revocation event''))"

definition apply_approval_requested :: "auth_state \<Rightarrow> event \<Rightarrow> exn + auth_state" where
  "apply_approval_requested st e =
     (case get_or_none (ev_data e) ''approval'' of
        JObj raw \<Rightarrow> bindR (approval_from_dict raw) (\<lambda>a.
          if appr_run a = None \<or> appr_run a = Some '''' \<or> ev_run e \<noteq> appr_run a
          then Inl (invariant_violation ''Approval request run_id mismatch'')
          else if appr_id a \<in> seen_approval_ids st \<or> appr_id a \<in> resolved_approval_ids st
          then Inl (invariant_violation (''Duplicate approval: '' @ appr_id a))
          else Inr (st\<lparr>seen_approval_ids := insert (appr_id a) (seen_approval_ids st),
                       pending_approvals := dict_set (appr_id a) a (pending_approvals st)\<rparr>))
      | _ \<Rightarrow> Inl (invariant_violation ''Approval request is missing approval payload''))"

definition apply_approval_resolved :: "auth_state \<Rightarrow> event \<Rightarrow> exn + auth_state" where
  "apply_approval_resolved st e =
     (let status = get_or_none (ev_data e) ''status'' in
      if is_JArr status \<or> is_JObj status then Inl (Exn (Py TypeError) ''unhashable type'')
      else
      (case (if status = JStr ''granted'' \<or> status = JStr ''denied''
             then get_or_none (ev_data e) ''approval'' else JNull) of
         JObj raw \<Rightarrow>
           (case get_or_none (ev_data e) ''approval_id'' of
              JStr i \<Rightarrow> bindR (approval_from_dict raw) (\<lambda>a.
                (case dict_get (pending_approvals st) i of
                   None \<Rightarrow> Inl (invariant_violation
                              (''Approval resolution has no matching pending request: '' @ i))
                 | Some pending \<Rightarrow>
                     (if pending \<noteq> a \<or> appr_id a \<noteq> i \<or> ev_run e \<noteq> appr_run pending
                      then Inl (invariant_violation
                              (''Approval resolution has no matching pending request: '' @ i))
                      else Inr (st\<lparr>approvals :=
                                     (if status = JStr ''granted''
                                      then dict_set i (a\<lparr>appr_one_shot :=
                                             truthy (get_or (ev_data e) ''one_shot'' (JBool False))\<rparr>)
                                             (approvals st)
                                      else approvals st),
                                   pending_approvals := dict_pop i (pending_approvals st),
                                   resolved_approval_ids := insert i (resolved_approval_ids st)\<rparr>))))
            | _ \<Rightarrow> Inl (invariant_violation ''Approval resolution is missing approval_id''))
       | _ \<Rightarrow> Inl (invariant_violation ''Invalid approval resolution event'')))"

definition apply_approval_consumed :: "auth_state \<Rightarrow> event \<Rightarrow> exn + auth_state" where
  "apply_approval_consumed st e =
     (case get_or_none (ev_data e) ''approval_id'' of
        JStr i \<Rightarrow>
          (case dict_get (approvals st) i of
             None \<Rightarrow> Inl (invariant_violation (''Approval consumption has no active grant: '' @ i))
           | Some granted \<Rightarrow>
               (if i \<in> consumed_approval_ids st
                then Inl (invariant_violation (''Approval consumption has no active grant: '' @ i))
                else if ev_run e \<noteq> appr_run granted
                then Inl (invariant_violation ''Approval consumption run_id mismatch'')
                else if \<not> appr_one_shot granted
                then Inl (invariant_violation (''Only a one-shot approval can be consumed: '' @ i))
                else Inr (st\<lparr>approvals := dict_pop i (approvals st),
                             consumed_approval_ids := insert i (consumed_approval_ids st)\<rparr>)))
      | _ \<Rightarrow> Inl (invariant_violation ''Approval consumption is missing approval_id''))"

definition auth_apply :: "auth_state \<Rightarrow> event \<Rightarrow> exn + auth_state" where
  "auth_apply st e =
     (if ev_type e = ''capability.lease.issued'' then apply_lease_issued st e
      else if ev_type e = ''capability.lease.revoked'' then apply_lease_revoked st e
      else if ev_type e = ''approval.requested'' then apply_approval_requested st e
      else if ev_type e = ''approval.resolved'' then apply_approval_resolved st e
      else if ev_type e = ''approval.consumed'' then apply_approval_consumed st e
      else Inr st)"

definition auth_from_events :: "event list \<Rightarrow> exn + auth_state" where
  "auth_from_events es = foldR auth_apply auth_empty es"

definition active_leases :: "auth_state \<Rightarrow> string \<Rightarrow> datetime \<Rightarrow> capability_lease list" where
  "active_leases st run_id now =
     filter (\<lambda>l. lease_run l = run_id \<and> lease_active now l) (map snd (leases st))"

definition active_approvals :: "auth_state \<Rightarrow> string \<Rightarrow> datetime \<Rightarrow> approval list" where
  "active_approvals st run_id now =
     filter (\<lambda>a. appr_run a = Some run_id \<and> approval_active now a) (map snd (approvals st))"

definition consumable_approval :: "auth_state \<Rightarrow> string \<Rightarrow> string \<Rightarrow> datetime \<Rightarrow> approval option" where
  "consumable_approval st run_id scope now =
     find_first (\<lambda>a. appr_run a = Some run_id \<and> appr_one_shot a \<and> approval_covers now a scope)
       (map snd (approvals st))"

text \<open>
  The same questions with \<^verbatim>\<open>now=None\<close>, the default: every lease and every grant that is asked
  reads the clock for itself, a grant without an expiry reads none.
\<close>

definition lease_active_now :: "capability_lease \<Rightarrow> ('w world_scheme, bool) sm" where
  "lease_active_now l = bindE utc_datetime (\<lambda>now. retE (lease_active now l))"

definition lease_grants_now :: "capability_lease \<Rightarrow> string list \<Rightarrow> ('w world_scheme, bool) sm" where
  "lease_grants_now l required = bindE utc_datetime (\<lambda>now. retE (lease_grants now l required))"

definition approval_active_now :: "approval \<Rightarrow> ('w world_scheme, bool) sm" where
  "approval_active_now a =
     (if appr_expires a = None then retE True
      else bindE utc_datetime (\<lambda>now. retE (approval_active now a)))"

definition approval_covers_now :: "approval \<Rightarrow> string \<Rightarrow> ('w world_scheme, bool) sm" where
  "approval_covers_now a scope =
     bindE (approval_active_now a) (\<lambda>act. retE (act \<and> (appr_scope a = scope \<or> appr_scope a = ''*'')))"

definition active_leases_now :: "auth_state \<Rightarrow> string \<Rightarrow> ('w world_scheme, capability_lease list) sm" where
  "active_leases_now st run_id =
     filterE (\<lambda>l. andE (lease_run l = run_id) (lease_active_now l)) (map snd (leases st))"

definition active_approvals_now :: "auth_state \<Rightarrow> string \<Rightarrow> ('w world_scheme, approval list) sm" where
  "active_approvals_now st run_id =
     filterE (\<lambda>a. andE (appr_run a = Some run_id) (approval_active_now a)) (map snd (approvals st))"

definition consumable_approval_now ::
  "auth_state \<Rightarrow> string \<Rightarrow> string \<Rightarrow> ('w world_scheme, approval option) sm" where
  "consumable_approval_now st run_id scope =
     findE (\<lambda>a. andE (appr_run a = Some run_id \<and> appr_one_shot a) (approval_covers_now a scope))
       (map snd (approvals st))"

definition find_approval_now :: "auth_state \<Rightarrow> string \<Rightarrow> ('w world_scheme, approval option) sm" where
  "find_approval_now st i =
     (case (case dict_get (approvals st) i of Some a \<Rightarrow> Some a | None \<Rightarrow> dict_get (pending_approvals st) i) of
        Some a \<Rightarrow> bindE (approval_active_now a) (\<lambda>act. retE (if act then Some a else None))
      | None \<Rightarrow> retE None)"

definition pending_approval_now :: "auth_state \<Rightarrow> string \<Rightarrow> ('w world_scheme, approval option) sm" where
  "pending_approval_now st i =
     (case dict_get (pending_approvals st) i of
        Some a \<Rightarrow> bindE (approval_active_now a) (\<lambda>act. retE (if act then Some a else None))
      | None \<Rightarrow> retE None)"

definition find_approval :: "auth_state \<Rightarrow> string \<Rightarrow> datetime \<Rightarrow> approval option" where
  "find_approval st i now =
     (case (case dict_get (approvals st) i of Some a \<Rightarrow> Some a | None \<Rightarrow> dict_get (pending_approvals st) i) of
        Some a \<Rightarrow> if approval_active now a then Some a else None
      | None \<Rightarrow> None)"

definition pending_approval :: "auth_state \<Rightarrow> string \<Rightarrow> datetime \<Rightarrow> approval option" where
  "pending_approval st i now =
     (case dict_get (pending_approvals st) i of
        Some a \<Rightarrow> if approval_active now a then Some a else None
      | None \<Rightarrow> None)"

section \<open>Round trips of the event payloads\<close>

lemma lease_roundtrip:
  assumes "finite (capabilities l)" and "dt_valid (lease_expires l)"
  shows "lease_from_dict (lease_to_dict l) = Inr l"
  using assms
  by (simp add: lease_from_dict_def lease_to_dict_def require_key_def read_datetime_def jstrs_def
      image_image)

lemma isoformat_nonempty [simp]: "isoformat t \<noteq> []"
  by (auto simp: isoformat_def Let_def split: prod.splits)

lemma approval_roundtrip:
  assumes "\<And>t. appr_expires a = Some t \<Longrightarrow> dt_valid t"
  shows "approval_from_dict (approval_to_dict a) = Inr a"
  using assms
  by (cases "appr_expires a")
    (simp_all add: approval_from_dict_def approval_to_dict_def require_key_def read_datetime_def)

section \<open>The authorization state as a projection of the log\<close>

text \<open>What each accepted event does to the state.\<close>

lemma auth_apply_cases [consumes 1, case_names issued revoked requested resolved consumed other]:
  assumes "auth_apply st e = Inr st'"
  obtains
    (issued) l where "ev_type e = ''capability.lease.issued''"
      "lease_run l \<noteq> ''''" "ev_run e = Some (lease_run l)" "lease_id l \<notin> seen_lease_ids st"
      "lease_id l \<notin> revoked_lease_ids st"
      "st' = st\<lparr>seen_lease_ids := insert (lease_id l) (seen_lease_ids st),
                leases := dict_set (lease_id l) l (leases st)\<rparr>"
  | (revoked) i l where "ev_type e = ''capability.lease.revoked''"
      "get_or_none (ev_data e) ''lease_id'' = JStr i"
      "dict_get (leases st) i = Some l" "ev_run e = Some (lease_run l)"
      "st' = st\<lparr>leases := dict_pop i (leases st), revoked_lease_ids := insert i (revoked_lease_ids st)\<rparr>"
  | (requested) a where "ev_type e = ''approval.requested''"
      "appr_run a \<noteq> None" "appr_run a \<noteq> Some ''''" "ev_run e = appr_run a"
      "appr_id a \<notin> seen_approval_ids st" "appr_id a \<notin> resolved_approval_ids st"
      "st' = st\<lparr>seen_approval_ids := insert (appr_id a) (seen_approval_ids st),
                pending_approvals := dict_set (appr_id a) a (pending_approvals st)\<rparr>"
  | (resolved) i a where "ev_type e = ''approval.resolved''"
      "get_or_none (ev_data e) ''approval_id'' = JStr i"
      "get_or_none (ev_data e) ''status'' = JStr ''granted'' \<or>
       get_or_none (ev_data e) ''status'' = JStr ''denied''"
      "dict_get (pending_approvals st) i = Some a" "appr_id a = i" "ev_run e = appr_run a"
      "st' = st\<lparr>approvals :=
                  (if get_or_none (ev_data e) ''status'' = JStr ''granted''
                   then dict_set i (a\<lparr>appr_one_shot := truthy (get_or (ev_data e) ''one_shot'' (JBool False))\<rparr>)
                          (approvals st)
                   else approvals st),
                pending_approvals := dict_pop i (pending_approvals st),
                resolved_approval_ids := insert i (resolved_approval_ids st)\<rparr>"
  | (consumed) i g where "ev_type e = ''approval.consumed''"
      "get_or_none (ev_data e) ''approval_id'' = JStr i"
      "dict_get (approvals st) i = Some g" "i \<notin> consumed_approval_ids st" "ev_run e = appr_run g"
      "appr_one_shot g"
      "st' = st\<lparr>approvals := dict_pop i (approvals st),
                consumed_approval_ids := insert i (consumed_approval_ids st)\<rparr>"
  | (other) "st' = st"
      "ev_type e \<notin> {''capability.lease.issued'', ''capability.lease.revoked'', ''approval.requested'',
                    ''approval.resolved'', ''approval.consumed''}"
proof -
  consider (i) "ev_type e = ''capability.lease.issued''" | (v) "ev_type e = ''capability.lease.revoked''"
    | (q) "ev_type e = ''approval.requested''" | (s) "ev_type e = ''approval.resolved''"
    | (c) "ev_type e = ''approval.consumed''"
    | (o) "ev_type e \<notin> {''capability.lease.issued'', ''capability.lease.revoked'',
        ''approval.requested'', ''approval.resolved'', ''approval.consumed''}"
    by blast
  then show thesis
  proof cases
    case i
    with assms have "apply_lease_issued st e = Inr st'" by (simp add: auth_apply_def)
    then show thesis
      by (auto simp: apply_lease_issued_def bindR_Inr_iff split: jval.splits if_splits intro: issued [OF i])
  next
    case v
    with assms have "apply_lease_revoked st e = Inr st'" by (simp add: auth_apply_def)
    then show thesis
      by (auto simp: apply_lease_revoked_def split: jval.splits option.splits if_splits intro: revoked [OF v])
  next
    case q
    with assms have "apply_approval_requested st e = Inr st'" by (simp add: auth_apply_def)
    then show thesis
      by (auto simp: apply_approval_requested_def bindR_Inr_iff split: jval.splits if_splits
          intro: requested [OF q])
  next
    case s
    with assms have "apply_approval_resolved st e = Inr st'" by (simp add: auth_apply_def)
    then show thesis
      by (auto simp: apply_approval_resolved_def Let_def bindR_Inr_iff
          split: jval.splits option.splits if_splits intro!: resolved [OF s])
  next
    case c
    with assms have "apply_approval_consumed st e = Inr st'" by (simp add: auth_apply_def)
    then show thesis
      by (auto simp: apply_approval_consumed_def split: jval.splits option.splits if_splits
          intro: consumed [OF c])
  next
    case o
    with assms have "st' = st" by (simp add: auth_apply_def)
    then show thesis using o by (rule other)
  qed
qed

definition auth_inv :: "auth_state \<Rightarrow> bool" where
  "auth_inv st \<longleftrightarrow>
     dict_wf (leases st) \<and> dict_wf (approvals st) \<and> dict_wf (pending_approvals st) \<and>
     (\<forall>i l. dict_get (leases st) i = Some l \<longrightarrow>
        lease_id l = i \<and> lease_run l \<noteq> '''' \<and> i \<in> seen_lease_ids st \<and> i \<notin> revoked_lease_ids st) \<and>
     revoked_lease_ids st \<subseteq> seen_lease_ids st \<and>
     (\<forall>i a. dict_get (pending_approvals st) i = Some a \<longrightarrow>
        appr_id a = i \<and> appr_run a \<notin> {None, Some ''''} \<and>
        i \<in> seen_approval_ids st \<and> i \<notin> resolved_approval_ids st) \<and>
     (\<forall>i a. dict_get (approvals st) i = Some a \<longrightarrow>
        appr_id a = i \<and> appr_run a \<notin> {None, Some ''''} \<and>
        i \<in> resolved_approval_ids st \<and> i \<notin> consumed_approval_ids st) \<and>
     resolved_approval_ids st \<subseteq> seen_approval_ids st \<and>
     consumed_approval_ids st \<subseteq> resolved_approval_ids st"

definition auth_below :: "auth_state \<Rightarrow> auth_state \<Rightarrow> bool" where
  "auth_below a b \<longleftrightarrow>
     seen_lease_ids a \<subseteq> seen_lease_ids b \<and> revoked_lease_ids a \<subseteq> revoked_lease_ids b \<and>
     seen_approval_ids a \<subseteq> seen_approval_ids b \<and>
     resolved_approval_ids a \<subseteq> resolved_approval_ids b \<and>
     consumed_approval_ids a \<subseteq> consumed_approval_ids b"

lemma auth_inv_empty: "auth_inv auth_empty"
  by (simp add: auth_inv_def auth_empty_def)

lemma auth_apply_inv:
  assumes "auth_apply st e = Inr st'" and "auth_inv st"
  shows "auth_inv st'"
  using assms(1)
proof (cases rule: auth_apply_cases)
  case (issued l)
  with assms(2) show ?thesis unfolding auth_inv_def by auto
next
  case (revoked i l)
  with assms(2) show ?thesis unfolding auth_inv_def by auto
next
  case (requested a)
  with assms(2) show ?thesis unfolding auth_inv_def by auto
next
  case (resolved i a)
  with assms(2) show ?thesis unfolding auth_inv_def by (auto split: if_splits)
next
  case (consumed i g)
  with assms(2) show ?thesis unfolding auth_inv_def by auto
next
  case other
  with assms(2) show ?thesis by simp
qed

lemma auth_apply_below:
  assumes "auth_apply st e = Inr st'"
  shows "auth_below st st'"
  using assms by (cases rule: auth_apply_cases) (auto simp: auth_below_def)

interpretation auth: monotone_projection auth_apply auth_empty auth_inv auth_below
proof unfold_locales
  show "auth_inv auth_empty" by (rule auth_inv_empty)
  show "\<And>st e st'. auth_inv st \<Longrightarrow> auth_apply st e = Inr st' \<Longrightarrow> auth_inv st'"
    by (rule auth_apply_inv)
  show "\<And>st e st'. auth_inv st \<Longrightarrow> auth_apply st e = Inr st' \<Longrightarrow> auth_below st st'"
    by (rule auth_apply_below)
qed (auto simp: auth_below_def)

lemmas auth_replay_inv = auth.replay_inv [folded auth_from_events_def]
lemmas auth_replay_induct = auth.replay_induct [folded auth_from_events_def, case_names accepted start step]

lemma auth_inv_approval:
  assumes "auth_inv st" and "a \<in> set (map snd (approvals st))"
  shows "dict_get (approvals st) (appr_id a) = Some a" "appr_id a \<in> resolved_approval_ids st"
    "appr_id a \<notin> consumed_approval_ids st"
proof -
  from assms obtain i where "dict_get (approvals st) i = Some a"
    by (auto simp: auth_inv_def dict_get_iff)
  with assms(1) show "dict_get (approvals st) (appr_id a) = Some a"
    "appr_id a \<in> resolved_approval_ids st" "appr_id a \<notin> consumed_approval_ids st"
    by (auto simp: auth_inv_def)
qed

section \<open>What an accepted log says about approvals\<close>

text \<open>An event that grants, denies or spends the approval with a given id.\<close>

definition resolves :: "string \<Rightarrow> event \<Rightarrow> bool" where
  "resolves i e \<longleftrightarrow> ev_type e = ''approval.resolved'' \<and> get_or_none (ev_data e) ''approval_id'' = JStr i"

definition grants :: "string \<Rightarrow> event \<Rightarrow> bool" where
  "grants i e \<longleftrightarrow> resolves i e \<and> get_or_none (ev_data e) ''status'' = JStr ''granted''"

definition grants_once :: "string \<Rightarrow> event \<Rightarrow> bool" where
  "grants_once i e \<longleftrightarrow> grants i e \<and> truthy (get_or (ev_data e) ''one_shot'' (JBool False))"

definition consumes :: "string \<Rightarrow> event \<Rightarrow> bool" where
  "consumes i e \<longleftrightarrow> ev_type e = ''approval.consumed'' \<and> get_or_none (ev_data e) ''approval_id'' = JStr i"

definition count_events :: "(event \<Rightarrow> bool) \<Rightarrow> event list \<Rightarrow> nat" where
  "count_events p es = length (filter p es)"

lemma count_events_simps [simp]:
  "count_events p [] = 0" "count_events p (es @ fs) = count_events p es + count_events p fs"
  "count_events p [e] = (if p e then 1 else 0)"
  by (simp_all add: count_events_def)

lemma consumed_count:
  assumes "auth_from_events es = Inr st"
  shows "count_events (consumes i) es = (if i \<in> consumed_approval_ids st then 1 else 0)"
proof (rule auth_replay_induct [OF assms])
  show "count_events (consumes i) [] = (if i \<in> consumed_approval_ids auth_empty then 1 else 0)"
    by (simp add: auth_empty_def)
next
  fix es st e st'
  assume IH: "count_events (consumes i) es = (if i \<in> consumed_approval_ids st then 1 else 0)"
    and step: "auth_apply st e = Inr st'"
  from step show "count_events (consumes i) (es @ [e]) = (if i \<in> consumed_approval_ids st' then 1 else 0)"
    by (cases rule: auth_apply_cases) (auto simp: IH consumes_def)
qed

lemma resolved_count:
  assumes "auth_from_events es = Inr st"
  shows "count_events (resolves i) es = (if i \<in> resolved_approval_ids st then 1 else 0)"
proof (rule auth_replay_induct [OF assms])
  show "count_events (resolves i) [] = (if i \<in> resolved_approval_ids auth_empty then 1 else 0)"
    by (simp add: auth_empty_def)
next
  fix es st e st'
  assume IH: "count_events (resolves i) es = (if i \<in> resolved_approval_ids st then 1 else 0)"
    and inv: "auth_inv st" and step: "auth_apply st e = Inr st'"
  from step show "count_events (resolves i) (es @ [e]) = (if i \<in> resolved_approval_ids st' then 1 else 0)"
  proof (cases rule: auth_apply_cases)
    case (resolved j a)
    then have "j \<notin> resolved_approval_ids st" using inv by (auto simp: auth_inv_def)
    with resolved show ?thesis by (auto simp: IH resolves_def)
  qed (auto simp: IH resolves_def)
qed

text \<open>Every grant the state still holds was given by an event of the log.\<close>

lemma grant_in_log:
  assumes "auth_from_events es = Inr st" and "dict_get (approvals st) i = Some a"
  shows "\<exists>e \<in> set es. grants i e \<and> ev_run e = appr_run a \<and> (appr_one_shot a \<longleftrightarrow> grants_once i e)"
proof -
  have "\<forall>a. dict_get (approvals st) i = Some a \<longrightarrow>
      (\<exists>e \<in> set es. grants i e \<and> ev_run e = appr_run a \<and> (appr_one_shot a \<longleftrightarrow> grants_once i e))"
  proof (rule auth_replay_induct [OF assms(1)])
    show "\<forall>a. dict_get (approvals auth_empty) i = Some a \<longrightarrow>
      (\<exists>e \<in> set []. grants i e \<and> ev_run e = appr_run a \<and> (appr_one_shot a \<longleftrightarrow> grants_once i e))"
      by (simp add: auth_empty_def)
  next
    fix es st e st'
    assume IH: "\<forall>a. dict_get (approvals st) i = Some a \<longrightarrow>
      (\<exists>e \<in> set es. grants i e \<and> ev_run e = appr_run a \<and> (appr_one_shot a \<longleftrightarrow> grants_once i e))"
      and step: "auth_apply st e = Inr st'"
    from step show "\<forall>a. dict_get (approvals st') i = Some a \<longrightarrow>
      (\<exists>e \<in> set (es @ [e]). grants i e \<and> ev_run e = appr_run a \<and> (appr_one_shot a \<longleftrightarrow> grants_once i e))"
      by (cases rule: auth_apply_cases)
        (use IH in \<open>auto simp: grants_def grants_once_def resolves_def split: if_splits\<close>)
  qed
  with assms(2) show ?thesis by blast
qed

text \<open>
  A one-shot grant is spent at most once, and only after the log holds the resolution that
  granted it, for the same run.
\<close>

lemma consumption_justified:
  assumes "auth_from_events (es @ [e]) = Inr st" and "consumes i e"
  shows "count_events (consumes i) es = 0"
    and "\<exists>g \<in> set es. grants_once i g \<and> ev_run g = ev_run e"
proof -
  from assms(1) obtain st0 where st0: "auth_from_events es = Inr st0" and step: "auth_apply st0 e = Inr st"
    by (auto simp: auth_from_events_def foldR_append bindR_Inr_iff)
  from step assms(2) obtain g where g: "dict_get (approvals st0) i = Some g" "appr_one_shot g"
    "i \<notin> consumed_approval_ids st0" "ev_run e = appr_run g"
    by (cases rule: auth_apply_cases) (auto simp: consumes_def)
  show "count_events (consumes i) es = 0" using consumed_count [OF st0] g(3) by simp
  show "\<exists>g \<in> set es. grants_once i g \<and> ev_run g = ev_run e"
    using grant_in_log [OF st0 g(1)] g(2,4) by metis
qed

text \<open>A revoked lease never becomes active again, whatever the log goes on to record.\<close>

lemma revoked_stays_revoked:
  assumes "auth_from_events es = Inr a" and "i \<in> revoked_lease_ids a"
    and "auth_from_events (es @ fs) = Inr b"
  shows "\<forall>l \<in> set (active_leases b run now). lease_id l \<noteq> i"
proof -
  have below: "auth_below a b"
    using auth.replay_below assms(1,3) by (simp add: auth_from_events_def)
  then have "i \<in> revoked_lease_ids b" using assms(2) by (auto simp: auth_below_def)
  moreover have "auth_inv b" using assms(3) by (rule auth_replay_inv)
  ultimately show ?thesis
    by (fastforce simp: active_leases_def auth_inv_def dict_get_iff)
qed

end
