(* ===== verification/Sessions.thy ===== *)
theory Sessions
  imports Session_Messages Stores Leases
begin

text \<open>
  The session aggregate of \<^verbatim>\<open>aihi/agent/sessions/session.py\<close>. The state of the model is the process
  environment, the event store, the session object the method runs on (\<open>self\<close>) and the list of
  what observers have been told. Every method is one definition of the same name; \<open>'z\<close> is what the
  components above add to the state.

  Observers are numbered; a notification is recorded with the observer and the event. What an
  observer does with its copy, and whether it raises, has no effect on the session, as in the
  source.
\<close>

record session =
  ses_id :: string
  ses_metadata :: jobj
  ses_head :: int
  ses_events :: "event list"
  ses_messages :: "message list"
  ses_observers :: "nat list"

record env = world +
  the_store :: store
  notified :: "(nat \<times> event) list"
  self :: session

section \<open>Access to the parts of the state\<close>

definition on_store :: "(store, 'a) sm \<Rightarrow> ('z env_scheme, 'a) sm" where
  "on_store m = (\<lambda>s. case m (the_store s) of (r, st) \<Rightarrow> (r, s\<lparr>the_store := st\<rparr>))"

definition get_self :: "('z env_scheme, session) sm" where
  "get_self = (\<lambda>s. (Inr (self s), s))"

definition update_self :: "(session \<Rightarrow> session) \<Rightarrow> ('z env_scheme, unit) sm" where
  "update_self f = modifyE (\<lambda>s. s\<lparr>self := f (self s)\<rparr>)"

text \<open>A method run on another session object: its final state is the result's second part.\<close>

definition on_session :: "session \<Rightarrow> ('z env_scheme, 'a) sm \<Rightarrow> ('z env_scheme, 'a \<times> session) sm" where
  "on_session other m = (\<lambda>s.
     case m (s\<lparr>self := other\<rparr>) of
       (Inl e, s') \<Rightarrow> (Inl e, s'\<lparr>self := self s\<rparr>)
     | (Inr x, s') \<Rightarrow> (Inr (x, self s'), s'\<lparr>self := self s\<rparr>))"

lemma on_session_Inr:
  "on_session other m s = (Inr p, s') \<longleftrightarrow>
     (\<exists>x t. m (s\<lparr>self := other\<rparr>) = (Inr x, t) \<and> p = (x, self t) \<and> s' = t\<lparr>self := self s\<rparr>)"
  by (auto simp: on_session_def split: prod.splits sum.splits)

definition notices :: "nat list \<Rightarrow> event list \<Rightarrow> (nat \<times> event) list" where
  "notices observers es = concat (map (\<lambda>e. map (\<lambda>k. (k, e)) observers) es)"

definition notify_observers :: "nat list \<Rightarrow> event list \<Rightarrow> ('z env_scheme, unit) sm" where
  "notify_observers observers es =
     modifyE (\<lambda>s. s\<lparr>notified := notified s @ notices observers es\<rparr>)"

section \<open>Creating and loading\<close>

definition metadata_parent :: "jobj \<Rightarrow> string option" where
  "metadata_parent md = (case get_or_none md ''parent_session_id'' of JStr p \<Rightarrow> Some p | _ \<Rightarrow> None)"

definition create_session ::
  "string option \<Rightarrow> jobj option \<Rightarrow> nat option \<Rightarrow> ('z env_scheme, session) sm" where
  "create_session session_id metadata observer =
     bindE (case session_id of Some i \<Rightarrow> if i \<noteq> '''' then retE i else new_id ''ses''
            | None \<Rightarrow> new_id ''ses'') (\<lambda>sid.
     let md = (case metadata of None \<Rightarrow> [] | Some d \<Rightarrow> d) in
     bindE utc_now (\<lambda>now.
     bindE (on_store (store_create now sid md (metadata_parent md))) (\<lambda>_.
     bindE (new_event ''session.created'' sid None md) (\<lambda>e.
     bindE (on_store (store_append sid 0 [e])) (\<lambda>ps.
     let ses = \<lparr>ses_id = sid, ses_metadata = md, ses_head = 1, ses_events = ps, ses_messages = [],
                ses_observers = (case observer of None \<Rightarrow> [] | Some k \<Rightarrow> [k])\<rparr> in
     bindE (notify_observers (ses_observers ses) ps) (\<lambda>_. retE ses))))))"

definition load_session :: "string \<Rightarrow> nat option \<Rightarrow> ('z env_scheme, session) sm" where
  "load_session session_id observer =
     bindE (on_store (store_get session_id)) (\<lambda>info.
     bindE (on_store (store_read session_id 0)) (\<lambda>es.
     bindE (project_messages es) (\<lambda>msgs.
       retE \<lparr>ses_id = session_id, ses_metadata = info_metadata info, ses_head = info_head info,
             ses_events = es, ses_messages = msgs,
             ses_observers = (case observer of None \<Rightarrow> [] | Some k \<Rightarrow> [k])\<rparr>)))"

section \<open>Appending\<close>

text \<open>The validation of a batch before the store sees it.\<close>

fun validate_batch :: "message list \<Rightarrow> event list \<Rightarrow> ('z env_scheme, unit) sm" where
  "validate_batch candidate [] = retE ()"
| "validate_batch candidate (e # es) =
     (if is_message_event e \<and> is_JObj (get_or_none (ev_data e) ''message'') then
        bindE (decode_message_event (ev_data e)) (\<lambda>m.
        bindE (liftE (find_orphan_tool_calls (candidate @ [m]))) (\<lambda>_.
          validate_batch (candidate @ [m]) es))
      else validate_batch candidate es)"

text \<open>One iteration of the loop over the persisted events.\<close>

definition absorb_event :: "event \<Rightarrow> ('z env_scheme, unit) sm" where
  "absorb_event e =
     (if is_message_event e then
        (if is_JObj (get_or_none (ev_data e) ''message'')
         then bindE (decode_message_event (ev_data e)) (\<lambda>m.
                update_self (\<lambda>s. s\<lparr>ses_messages := ses_messages s @ [m]\<rparr>))
         else retE ())
      else if ev_type e = ''compaction.created'' then
        bindE get_self (\<lambda>s. bindE (project_messages (ses_events s)) (\<lambda>msgs.
          update_self (\<lambda>s. s\<lparr>ses_messages := msgs\<rparr>)))
      else retE ())"

definition ephemeral_error :: exn where
  "ephemeral_error = Exn (Core EventInvariantViolation)
     ''Ephemeral events cannot be persisted; use Session.emit''"

definition append_many :: "event list \<Rightarrow> ('z env_scheme, event list) sm" where
  "append_many es =
     (if list_ex ev_ephemeral es then raiseE ephemeral_error
      else
        bindE get_self (\<lambda>s.
        bindE (validate_batch (ses_messages s) es) (\<lambda>_.
        bindE (on_store (store_append (ses_id s) (ses_head s) es)) (\<lambda>ps.
        bindE (update_self (\<lambda>s. s\<lparr>ses_head := ses_head s + int (length ps),
                                   ses_events := ses_events s @ ps\<rparr>)) (\<lambda>_.
        bindE (mapE absorb_event ps) (\<lambda>_.
        bindE (notify_observers (ses_observers s) ps) (\<lambda>_. retE ps)))))))"

definition append_event :: "event \<Rightarrow> ('z env_scheme, event) sm" where
  "append_event e = bindE (append_many [e]) (\<lambda>ps. retE (hd ps))"

text \<open>\<^verbatim>\<open>self.append(Event(type=..., session_id=self.id, run_id=..., data=...))\<close>.\<close>

definition append_new :: "string \<Rightarrow> string option \<Rightarrow> jobj \<Rightarrow> ('z env_scheme, event) sm" where
  "append_new ty rid data =
     bindE get_self (\<lambda>s. bindE (new_event ty (ses_id s) rid data) append_event)"

definition emit_event :: "event \<Rightarrow> ('z env_scheme, event) sm" where
  "emit_event e =
     (if \<not> ev_ephemeral e
      then raiseE (Exn (Core EventInvariantViolation) ''Session.emit requires an ephemeral event'')
      else bindE get_self (\<lambda>s. bindE (notify_observers (ses_observers s) [e]) (\<lambda>_. retE e)))"

definition message_event_type :: "message \<Rightarrow> string" where
  "message_event_type m =
     (if tool_results m \<noteq> [] then ''tool.result''
      else if msg_role m = User then ''user.message''
      else if msg_role m = System then ''system.message''
      else ''assistant.message'')"

definition message_event :: "message \<Rightarrow> string option \<Rightarrow> ('z env_scheme, event) sm" where
  "message_event m rid =
     bindE get_self (\<lambda>s. new_event (message_event_type m) (ses_id s) rid (encode_message m))"

definition add_message :: "message \<Rightarrow> string option \<Rightarrow> ('z env_scheme, event) sm" where
  "add_message m rid = bindE (message_event m rid) append_event"

definition add_event_observer :: "nat \<Rightarrow> ('z env_scheme, unit) sm" where
  "add_event_observer k =
     update_self (\<lambda>s. if k \<in> set (ses_observers s) then s
                      else s\<lparr>ses_observers := ses_observers s @ [k]\<rparr>)"

section \<open>Forking\<close>

definition copy_event :: "string \<Rightarrow> event \<Rightarrow> ('w world_scheme, event) sm" where
  "copy_event sid e =
     bindE (new_id ''evt'') (\<lambda>i.
       retE \<lparr>ev_type = ev_type e, ev_session = sid, ev_data = ev_data e, ev_run = ev_run e, ev_id = i,
             ev_seq = None, ev_created = ev_created e, ev_ephemeral = False,
             ev_version = ev_version e\<rparr>)"

definition fork_prefix :: "int \<Rightarrow> event list \<Rightarrow> event list" where
  "fork_prefix at_seq es =
     filter (\<lambda>e. (case ev_seq e of None \<Rightarrow> False | Some n \<Rightarrow> n \<le> at_seq) \<and>
                 ev_type e \<noteq> ''session.created'') es"

definition fork_session :: "int \<Rightarrow> string option \<Rightarrow> nat option \<Rightarrow> ('z env_scheme, session) sm" where
  "fork_session at_seq session_id observer =
     bindE get_self (\<lambda>s.
     if at_seq < 1
     then raiseE (Exn (Core EventInvariantViolation) ''Fork point must be a positive sequence number'')
     else if at_seq > ses_head s
     then raiseE (Exn (Core EventInvariantViolation)
            (''Cannot fork at '' @ show_int at_seq @ '': session head is '' @ show_int (ses_head s)))
     else
       let prefix = fork_prefix at_seq (ses_events s);
           child_metadata = dict_set ''forked_at_seq'' (JInt at_seq)
             (dict_set ''parent_session_id'' (JStr (ses_id s)) (ses_metadata s)) in
       bindE (create_session session_id (Some child_metadata) observer) (\<lambda>child.
       bindE (new_event ''session.forked'' (ses_id child) None
                [(''parent_session_id'', JStr (ses_id s)), (''forked_at_seq'', JInt at_seq),
                 (''copied_event_count'', JInt (int (length prefix)))]) (\<lambda>forked.
       bindE (mapE (copy_event (ses_id child)) prefix) (\<lambda>copies.
       bindE (on_session child (append_many (forked # copies))) (\<lambda>(_, child'). retE child')))))"

section \<open>Refreshing\<close>

fun refresh_loop :: "nat \<Rightarrow> ('z env_scheme, unit) sm" where
  "refresh_loop 0 = raiseE (Exn (Core EventInvariantViolation)
     ''Session changed while refreshing authorization state'')"
| "refresh_loop (Suc n) =
     bindE get_self (\<lambda>s.
     bindE (on_store (store_get (ses_id s))) (\<lambda>info.
     if info_head info = ses_head s then retE ()
     else
       bindE (on_store (store_read (ses_id s) 0)) (\<lambda>es.
       bindE (on_store (store_get (ses_id s))) (\<lambda>again.
       if info_head again \<noteq> info_head info then refresh_loop n
       else
         bindE (update_self (\<lambda>s. s\<lparr>ses_metadata := info_metadata info, ses_head := info_head info,
                                    ses_events := es\<rparr>)) (\<lambda>_.
         bindE (project_messages es) (\<lambda>msgs. update_self (\<lambda>s. s\<lparr>ses_messages := msgs\<rparr>)))))))"

definition refresh :: "('z env_scheme, unit) sm" where
  "refresh = refresh_loop 3"

section \<open>Authorization\<close>

definition authorization :: "('z env_scheme, auth_state) sm" where
  "authorization = bindE get_self (\<lambda>s. liftE (auth_from_events (ses_events s)))"

definition issue_capability_lease ::
  "string \<Rightarrow> string set \<Rightarrow> int \<Rightarrow> string \<Rightarrow> ('z env_scheme, capability_lease) sm" where
  "issue_capability_lease run_id caps ttl issued_by =
     bindE (issue_lease run_id caps ttl) (\<lambda>l.
     bindE (append_new ''capability.lease.issued'' (Some run_id)
       [(''lease'', JObj (lease_to_dict l)), (''issued_by'', JStr issued_by)]) (\<lambda>_. retE l))"

definition revoke_capability_lease :: "string \<Rightarrow> string \<Rightarrow> string \<Rightarrow> ('z env_scheme, unit) sm" where
  "revoke_capability_lease i run_id revoked_by =
     bindE authorization (\<lambda>st. case dict_get (leases st) i of
         None \<Rightarrow> raiseE (invariant_violation (''Unknown capability lease: '' @ i))
       | Some l \<Rightarrow>
           if lease_run l \<noteq> run_id
           then raiseE (invariant_violation (''Capability lease belongs to another run: '' @ i))
           else bindE (append_new ''capability.lease.revoked'' (Some run_id)
                  [(''lease_id'', JStr i), (''revoked_by'', JStr revoked_by)]) (\<lambda>_. retE ()))"

fun merge_metadata :: "jobj \<Rightarrow> jobj \<Rightarrow> exn + jobj" where
  "merge_metadata data [] = Inr data"
| "merge_metadata data ((k, v) # md) =
     (if dict_get data k \<noteq> None
      then Inl (invariant_violation (''Approval metadata cannot override ''))
      else merge_metadata (dict_set k v data) md)"

definition request_approval ::
  "string \<Rightarrow> string \<Rightarrow> int option \<Rightarrow> string \<Rightarrow> jobj \<Rightarrow> ('z env_scheme, approval) sm" where
  "request_approval scope requested_by ttl run_id metadata =
     bindE (issue_approval scope requested_by (Some run_id) ttl) (\<lambda>a.
     bindE (liftE (merge_metadata
       [(''approval'', JObj (approval_to_dict a)), (''requested_by'', JStr requested_by)] metadata)) (\<lambda>data.
     bindE (append_new ''approval.requested'' (Some run_id) data) (\<lambda>_. retE a)))"

definition resolve_approval ::
  "string \<Rightarrow> bool \<Rightarrow> string \<Rightarrow> string \<Rightarrow> bool \<Rightarrow> ('z env_scheme, approval option) sm" where
  "resolve_approval i approved resolved_by run_id one_shot =
     bindE authorization (\<lambda>st.
     bindE (pending_approval_now st i) (\<lambda>pending. case pending of
         None \<Rightarrow> raiseE (invariant_violation (''Unknown approval: '' @ i))
       | Some a \<Rightarrow>
           if appr_run a \<noteq> Some run_id
           then raiseE (invariant_violation (''Approval belongs to another run: '' @ i))
           else bindE (append_new ''approval.resolved'' (Some run_id)
                  [(''approval_id'', JStr i), (''approval'', JObj (approval_to_dict a)),
                   (''status'', JStr (if approved then ''granted'' else ''denied'')),
                   (''resolved_by'', JStr resolved_by), (''one_shot'', JBool one_shot)])
                  (\<lambda>_. retE (if approved then Some a else None))))"

definition consume_approval :: "string \<Rightarrow> string \<Rightarrow> string \<Rightarrow> ('z env_scheme, event) sm" where
  "consume_approval i run_id scope =
     bindE authorization (\<lambda>st. case dict_get (approvals st) i of
         None \<Rightarrow> raiseE (invariant_violation (''No consumable approval: '' @ i))
       | Some a \<Rightarrow>
           if \<not> appr_one_shot a then raiseE (invariant_violation (''No consumable approval: '' @ i))
           else append_new ''approval.consumed'' (Some run_id)
                  [(''approval_id'', JStr i), (''scope'', JStr scope)])"

section \<open>Repair\<close>

definition orphan_tool_calls :: "('z env_scheme, tool_call_block list) sm" where
  "orphan_tool_calls = bindE get_self (\<lambda>s. liftE (find_orphan_tool_calls (ses_messages s)))"

definition new_message :: "role \<Rightarrow> content_block list \<Rightarrow> jobj \<Rightarrow> ('w world_scheme, message) sm" where
  "new_message r content metadata =
     bindE new_message_id (\<lambda>i.
       retE \<lparr>msg_role = r, msg_content = content, msg_id = i, msg_metadata = metadata\<rparr>)"

definition lost_result :: "tool_call_block \<Rightarrow> content_block" where
  "lost_result c = ToolResult (call_id c)
     ''Execution state was lost before a result was committed; not replayed.''
     True [(''recovered'', JBool True)]"

definition repair_orphan_tool_calls :: "string \<Rightarrow> string set \<Rightarrow> ('z env_scheme, event list) sm" where
  "repair_orphan_tool_calls run_id excluded =
     bindE orphan_tool_calls (\<lambda>open_calls.
     let orphans = filter (\<lambda>c. call_id c \<notin> excluded) open_calls in
     if orphans = [] then retE []
     else
       bindE (new_message User (map lost_result orphans) [(''recovery'', JStr ''orphan_tool_calls'')]) (\<lambda>m.
       bindE get_self (\<lambda>s.
       bindE (new_event ''session.repaired'' (ses_id s) (Some run_id)
         [(''orphan_tool_call_ids'', jstrs (map call_id orphans))]) (\<lambda>e1.
       bindE (new_event ''tool.result'' (ses_id s) (Some run_id) (encode_message m)) (\<lambda>e2.
         append_many [e1, e2])))))"

end
