(* ===== verification/Session_Facts.thy ===== *)
theory Session_Facts
  imports Sessions
begin

text \<open>
  What the methods of a session do to the state: the frame of the helpers, the append-only
  history of the store, the agreement of a session with its log, the message projection, the
  authorization events and the repair of lost tool calls.
\<close>

section \<open>Frames\<close>

text \<open>Only the process environment changes: clock, random source, identifier counter.\<close>

definition world_only :: "'z env_scheme \<Rightarrow> 'z env_scheme \<Rightarrow> bool" where
  "world_only s s' \<longleftrightarrow> the_store s' = the_store s \<and> notified s' = notified s \<and> self s' = self s \<and>
     env.more s' = env.more s"

interpretation world_frame: step_order world_only
  by unfold_locales (auto simp: world_only_def)

lemma advances_time_ns: "advances world_only time_ns"
  and advances_token_hex: "advances world_only token_hex"
  by (simp_all add: advances_def world_only_def time_ns_def token_hex_def)

lemma advances_utc: "advances world_only utc_datetime" "advances world_only utc_now"
  unfolding utc_datetime_def utc_now_def by (intro world_frame.advances_rules advances_time_ns)+

lemma advances_new_id: "advances world_only (new_id kind)"
  by (cases "valid_id_kind kind")
    (simp_all add: new_id_def advances_def world_only_def time_ns_def eff_simps Let_def)

lemma advances_new_event: "advances world_only (new_event ty sid rid data)"
  unfolding new_event_def by (intro world_frame.advances_rules advances_new_id advances_utc)

lemma advances_message_ids: "advances world_only new_message_id" "advances world_only (new_message r c md)"
  unfolding new_message_id_def new_message_def by (intro world_frame.advances_rules advances_token_hex)+

lemma advances_decode: "advances world_only (decode_message_event v)"
  unfolding decode_message_event_def
  by (auto intro!: world_frame.advances_rules advances_message_ids)

lemma advances_project_step: "advances world_only (project_step msgs e)"
  unfolding project_step_def
  by (auto intro!: world_frame.advances_rules advances_decode split: jval.split option.split)

lemma advances_project_from: "advances world_only (project_from msgs es)"
  by (induction es arbitrary: msgs) (auto intro!: world_frame.advances_rules advances_project_step)

lemma advances_project_messages: "advances world_only (project_messages es)"
  unfolding project_messages_def by (rule advances_project_from)

lemma advances_validate_batch: "advances world_only (validate_batch ms es)"
  by (induction es arbitrary: ms) (auto intro!: world_frame.advances_rules advances_decode)

lemma advances_copy_event: "advances world_only (copy_event sid e)"
  unfolding copy_event_def by (intro world_frame.advances_rules advances_new_id)

lemma advances_issue: "advances world_only (issue_lease r caps ttl)"
  "advances world_only (issue_approval scope who rid ttl_opt)"
  unfolding issue_lease_def issue_approval_def
  by (auto intro!: world_frame.advances_rules advances_new_id advances_utc split: option.split)

lemma advances_get_self: "advances world_only get_self"
  by (simp add: advances_def get_self_def world_only_def)

lemma advances_authorization: "advances world_only authorization"
  unfolding authorization_def by (intro world_frame.advances_rules advances_get_self)

lemma advances_pending_approval_now: "advances world_only (pending_approval_now st i)"
  unfolding pending_approval_now_def approval_active_now_def
  by (auto intro!: world_frame.advances_rules advances_utc split: option.split)

lemma advances_orphan_tool_calls: "advances world_only orphan_tool_calls"
  unfolding orphan_tool_calls_def by (intro world_frame.advances_rules advances_get_self)

lemma advances_weaken: "advances Q m \<Longrightarrow> (\<And>s s'. Q s s' \<Longrightarrow> R s s') \<Longrightarrow> advances R m"
  by (simp add: advances_def)

lemmas world_advances = advances_new_id advances_utc advances_new_event advances_message_ids
  advances_decode advances_project_messages advances_validate_batch advances_copy_event
  advances_issue advances_get_self advances_authorization advances_pending_approval_now
  advances_orphan_tool_calls

section \<open>The history only grows\<close>

definition view_grows :: "store_view \<Rightarrow> store_view \<Rightarrow> bool" where
  "view_grows v v' \<longleftrightarrow> (\<forall>sid l. v sid = Some l \<longrightarrow>
     (\<exists>es. v' sid = Some (l\<lparr>log_events := log_events l @ es\<rparr>)))"

definition history_grows :: "'z env_scheme \<Rightarrow> 'z env_scheme \<Rightarrow> bool" where
  "history_grows s s' \<longleftrightarrow> (store_wf (the_store s) \<longrightarrow>
     store_wf (the_store s') \<and> view_grows (store_view (the_store s)) (store_view (the_store s')))"

lemma view_grows_refl: "view_grows v v"
  by (auto simp: view_grows_def intro!: exI [of _ "[]"])

lemma view_grows_trans:
  assumes "view_grows a b" "view_grows b c"
  shows "view_grows a c"
  unfolding view_grows_def
proof (intro allI impI)
  fix sid l
  assume "a sid = Some l"
  with assms(1) obtain es where "b sid = Some (l\<lparr>log_events := log_events l @ es\<rparr>)"
    by (auto simp: view_grows_def)
  with assms(2) obtain fs where "c sid = Some (l\<lparr>log_events := (log_events l @ es) @ fs\<rparr>)"
    by (fastforce simp: view_grows_def)
  then show "\<exists>es. c sid = Some (l\<lparr>log_events := log_events l @ es\<rparr>)" by (metis append_assoc)
qed

interpretation history: step_order history_grows
  by unfold_locales (auto simp: history_grows_def intro: view_grows_refl view_grows_trans)

lemma world_grows: "advances world_only m \<Longrightarrow> advances history_grows m"
  by (erule advances_weaken) (simp add: world_only_def history_grows_def view_grows_refl)

lemmas world_steps = world_advances [THEN world_grows]

lemma self_grows: "advances history_grows (update_self f)" "advances history_grows (notify_observers ks es)"
  by (simp_all add: advances_def update_self_def notify_observers_def modifyE_def history_grows_def
      view_grows_refl)

lemma on_store_grows:
  assumes "\<And>st r st'. store_wf st \<Longrightarrow> m st = (r, st') \<Longrightarrow>
    store_wf st' \<and> view_grows (store_view st) (store_view st')"
  shows "advances history_grows (on_store m)"
  using assms by (auto simp: advances_def history_grows_def on_store_def split: prod.split)

lemma store_append_grows: "advances history_grows (on_store (store_append sid n es))"
proof (rule on_store_grows)
  fix st r st'
  assume wf: "store_wf st" and run: "store_append sid n es st = (r, st')"
  show "store_wf st' \<and> view_grows (store_view st) (store_view st')"
  proof (rule stores.append_cases [OF wf run])
    assume "store_wf st'" and v: "store_view st' = extend_log (store_view st) sid (numbered n es)"
    have "view_grows (store_view st) (store_view st')"
      unfolding v view_grows_def extend_log_def
    proof (intro allI impI)
      fix s l
      assume "store_view st s = Some l"
      then show "\<exists>fs. ((store_view st)(sid := map_option (\<lambda>l. l\<lparr>log_events := log_events l @ numbered n es\<rparr>)
          (store_view st sid))) s = Some (l\<lparr>log_events := log_events l @ fs\<rparr>)"
        by (cases "s = sid") (auto intro: exI [of _ "[]"])
    qed
    with \<open>store_wf st'\<close> show ?thesis by blast
  next
    fix e assume "st' = st"
    with wf show ?thesis by (simp add: view_grows_refl)
  qed
qed

lemma store_create_grows: "advances history_grows (on_store (store_create now sid md parent))"
proof (rule on_store_grows)
  fix st r st'
  assume wf: "store_wf st" and run: "store_create now sid md parent st = (r, st')"
  show "store_wf st' \<and> view_grows (store_view st) (store_view st')"
  proof (rule stores.create_cases [OF wf run])
    assume new: "store_view st sid = None" and "store_wf st'"
      and v: "store_view st' = (store_view st)(sid \<mapsto> new_log now md parent)"
    have "view_grows (store_view st) (store_view st')"
      unfolding v view_grows_def
    proof (intro allI impI)
      fix s l
      assume "store_view st s = Some l"
      with new show "\<exists>fs. ((store_view st)(sid \<mapsto> new_log now md parent)) s =
          Some (l\<lparr>log_events := log_events l @ fs\<rparr>)"
        by (cases "s = sid") (auto intro: exI [of _ "[]"])
    qed
    with \<open>store_wf st'\<close> show ?thesis by blast
  next
    fix e assume "st' = st"
    with wf show ?thesis by (simp add: view_grows_refl)
  qed
qed


lemma on_store_reads: "(\<And>st. snd (m st) = st) \<Longrightarrow> advances history_grows (on_store m)"
  by (intro on_store_grows) (metis snd_conv view_grows_refl)

lemma store_read_grows: "advances history_grows (on_store (store_read sid k))"
  "advances history_grows (on_store (store_get sid))"
  by (rule on_store_reads, rule store_read_state)+

lemmas store_grows = store_append_grows store_create_grows store_read_grows

lemma absorb_grows: "advances history_grows (absorb_event e)"
  unfolding absorb_event_def
  by (auto intro!: history.advances_rules self_grows world_steps)

lemma append_many_grows: "advances history_grows (append_many es)"
  unfolding append_many_def
  by (auto intro!: history.advances_rules self_grows store_grows absorb_grows world_steps)

lemma append_new_grows: "advances history_grows (append_new ty rid data)"
  unfolding append_new_def append_event_def
  by (intro history.advances_rules append_many_grows world_steps)

lemma add_message_grows: "advances history_grows (add_message m rid)"
  unfolding add_message_def message_event_def append_event_def
  by (intro history.advances_rules append_many_grows world_steps)

lemma create_session_grows: "advances history_grows (create_session sid md ob)"
  unfolding create_session_def Let_def
  by (intro history.advances_rules store_grows self_grows)
    (auto intro!: history.advances_rules world_steps split: option.split)

lemma load_session_grows: "advances history_grows (load_session sid ob)"
  unfolding load_session_def
  by (intro history.advances_rules store_grows world_steps)

lemma on_session_grows:
  fixes m :: "('z env_scheme, 'a) sm"
  assumes "advances history_grows m"
  shows "advances history_grows (on_session other m)"
  unfolding advances_def
proof
  fix s :: "'z env_scheme"
  obtain r s' where m: "m (s\<lparr>self := other\<rparr>) = (r, s')" by (cases "m (s\<lparr>self := other\<rparr>)")
  with assms have "history_grows (s\<lparr>self := other\<rparr>) s'" by (metis advancesD)
  then have "history_grows s (s'\<lparr>self := self s\<rparr>)" by (simp add: history_grows_def)
  then show "history_grows s (snd (on_session other m s))"
    by (auto simp: on_session_def m split: sum.split)
qed

lemma fork_session_grows: "advances history_grows (fork_session n sid ob)"
  unfolding fork_session_def Let_def
  by (auto intro!: history.advances_rules on_session_grows append_many_grows create_session_grows
      world_steps split: prod.split)

lemma refresh_grows: "advances history_grows refresh"
proof -
  have "advances history_grows (refresh_loop n)" for n
    by (induction n) (auto intro!: history.advances_rules store_grows self_grows world_steps)
  then show ?thesis by (simp add: refresh_def)
qed

lemma authorization_grows:
  "advances history_grows (issue_capability_lease r caps ttl who)"
  "advances history_grows (revoke_capability_lease i r who)"
  "advances history_grows (request_approval scope who ttl_opt r md)"
  "advances history_grows (resolve_approval i ok who r once)"
  "advances history_grows (consume_approval i r scope)"
  unfolding issue_capability_lease_def revoke_capability_lease_def request_approval_def
    resolve_approval_def consume_approval_def
  by (auto intro!: history.advances_rules append_new_grows world_steps split: option.split)

lemma repair_grows: "advances history_grows (repair_orphan_tool_calls r excl)"
  unfolding repair_orphan_tool_calls_def Let_def
  by (auto intro!: history.advances_rules append_many_grows world_steps)

lemma emit_grows: "advances history_grows (emit_event e)"
  unfolding emit_event_def
  by (auto intro!: history.advances_rules self_grows world_steps)

section \<open>A session agrees with its log\<close>

definition synced :: "'z env_scheme \<Rightarrow> bool" where
  "synced s \<longleftrightarrow> store_wf (the_store s) \<and>
     (\<exists>l. store_view (the_store s) (ses_id (self s)) = Some l \<and> log_events l = ses_events (self s)) \<and>
     ses_head (self s) = int (length (ses_events (self s)))"

lemma world_synced: "advances world_only m \<Longrightarrow> preserves synced m"
  by (auto simp: preserves_def advances_def world_only_def synced_def)

definition same_log :: "'z env_scheme \<Rightarrow> 'z env_scheme \<Rightarrow> bool" where
  "same_log s s' \<longleftrightarrow> the_store s' = the_store s \<and> ses_id (self s') = ses_id (self s) \<and>
     ses_head (self s') = ses_head (self s) \<and> ses_events (self s') = ses_events (self s) \<and>
     ses_metadata (self s') = ses_metadata (self s) \<and> ses_observers (self s') = ses_observers (self s)"

interpretation same_log: step_order same_log
  by unfold_locales (auto simp: same_log_def)

lemma world_same_log: "advances world_only m \<Longrightarrow> advances same_log m"
  by (erule advances_weaken) (simp add: world_only_def same_log_def)

lemmas world_log_steps = world_advances [THEN world_same_log]

lemma messages_same_log: "advances same_log (update_self (\<lambda>s. s\<lparr>ses_messages := f s\<rparr>))"
  "advances same_log (notify_observers ks es)"
  by (simp_all add: advances_def same_log_def update_self_def notify_observers_def modifyE_def)

lemma absorb_same_log: "advances same_log (absorb_event e)"
  unfolding absorb_event_def
  by (auto intro!: same_log.advances_rules messages_same_log world_log_steps)

lemma synced_same_log: "same_log s s' \<Longrightarrow> synced s \<longleftrightarrow> synced s'"
  by (simp add: same_log_def synced_def)

text \<open>An append either leaves the session and the store alone, or extends both by the same events.\<close>

lemma append_many_cases:
  assumes run: "append_many es s = (r, s')" and sync: "synced s"
  obtains (refused) e where "r = Inl e" "self s' = self s" "the_store s' = the_store s"
      "notified s' = notified s"
  | (stored) ps where "admissible (store_view (the_store s)) (ses_id (self s)) (ses_head (self s)) es"
      "ps = numbered (ses_head (self s)) es" "\<not> list_ex ev_ephemeral es"
      "store_view (the_store s') = extend_log (store_view (the_store s)) (ses_id (self s)) ps"
      "ses_events (self s') = ses_events (self s) @ ps" "ses_id (self s') = ses_id (self s)"
      "ses_observers (self s') = ses_observers (self s)"
      "synced s'" "\<And>qs. r = Inr qs \<Longrightarrow> qs = ps"
proof (cases "list_ex ev_ephemeral es")
  case True
  with run that(1) show thesis by (auto simp: append_many_def raiseE_def)
next
  case False
  let ?se = "self s"
  obtain v s1 where v: "validate_batch (ses_messages ?se) es s = (v, s1)"
    by (cases "validate_batch (ses_messages ?se) es s")
  have frame: "self s1 = self s" "the_store s1 = the_store s" "notified s1 = notified s"
    using advancesD [OF advances_validate_batch v] by (simp_all add: world_only_def)
  have wf: "store_wf (the_store s1)" using sync by (simp add: synced_def frame)
  obtain a st where a: "store_append (ses_id ?se) (ses_head ?se) es (the_store s1) = (a, st)"
    by (cases "store_append (ses_id ?se) (ses_head ?se) es (the_store s1)")
  show thesis
  proof (cases v)
    case (Inl e)
    with run False v have "r = Inl e" "s' = s1"
      by (simp_all add: append_many_def bindE_def get_self_def)
    with frame that(1) show thesis by blast
  next
    case (Inr u)
    show thesis
    proof (rule stores.append_cases [OF wf a])
      fix e assume "a = Inl e" "st = the_store s1"
      with run False v Inr a have "r = Inl e" "s' = s1"
        by (simp_all add: append_many_def bindE_def get_self_def on_store_def)
      with frame that(1) show thesis by blast
    next
      assume adm: "admissible (store_view (the_store s1)) (ses_id ?se) (ses_head ?se) es"
        and ps: "a = Inr (numbered (ses_head ?se) es)" and "store_wf st"
        and view: "store_view st = extend_log (store_view (the_store s1)) (ses_id ?se) (numbered (ses_head ?se) es)"
      let ?ps = "numbered (ses_head ?se) es"
      define s2 where "s2 = s1\<lparr>the_store := st, self := ?se\<lparr>ses_head := ses_head ?se + int (length ?ps),
          ses_events := ses_events ?se @ ?ps\<rparr>\<rparr>"
      have tail: "append_many es s = bindE (mapE absorb_event ?ps) (\<lambda>_.
          bindE (notify_observers (ses_observers ?se) ?ps) (\<lambda>_. retE ?ps)) s2"
        using False v Inr a ps
        by (simp add: append_many_def bindE_def get_self_def on_store_def update_self_def modifyE_def
            s2_def frame)
      have "advances same_log (bindE (mapE absorb_event ?ps) (\<lambda>_.
          bindE (notify_observers (ses_observers ?se) ?ps) (\<lambda>_. retE ?ps)))"
        by (intro same_log.advances_rules absorb_same_log messages_same_log)
      with run tail have sl: "same_log s2 s'" by (metis advancesD)
      from sync obtain l where l: "store_view (the_store s) (ses_id ?se) = Some l"
        "log_events l = ses_events ?se" by (auto simp: synced_def)
      have "synced s2"
        using sync \<open>store_wf st\<close>
        by (simp add: synced_def s2_def view frame extend_log_eq [of "store_view (the_store s)", OF l(1)] l(2))
      then have "synced s'" using synced_same_log [OF sl] by blast
      moreover have "qs = ?ps" if "r = Inr qs" for qs
        using run that unfolding tail by (auto simp: bindE_eq_Inr retE_def)
      moreover have "ses_events (self s') = ses_events ?se @ ?ps" "ses_id (self s') = ses_id ?se"
        "store_view (the_store s') = extend_log (store_view (the_store s)) (ses_id ?se) ?ps"
        "ses_observers (self s') = ses_observers ?se"
        using sl by (simp_all add: same_log_def s2_def view frame)
      ultimately show thesis using adm False that(2) [of ?ps] by (simp add: frame)
    qed
  qed
qed

lemma append_many_synced: "preserves synced (append_many es)"
  unfolding preserves_def
proof (intro allI impI)
  fix s :: "'a env_scheme"
  assume sync: "synced s"
  obtain r s' where run: "append_many es s = (r, s')" by (cases "append_many es s")
  show "synced (snd (append_many es s))"
    by (rule append_many_cases [OF run sync]) (use sync in \<open>auto simp: run synced_def\<close>)
qed

lemmas world_sync_steps = world_advances [THEN world_synced]

lemma append_new_synced: "preserves synced (append_new ty rid data)"
  unfolding append_new_def append_event_def
  by (intro pres_intros append_many_synced world_sync_steps)

lemma add_message_synced: "preserves synced (add_message m rid)"
  unfolding add_message_def message_event_def append_event_def
  by (intro pres_intros append_many_synced world_sync_steps)

lemma authorization_synced:
  "preserves synced (issue_capability_lease r caps ttl who)"
  "preserves synced (revoke_capability_lease i r who)"
  "preserves synced (request_approval scope who ttl_opt r md)"
  "preserves synced (resolve_approval i ok who r once)"
  "preserves synced (consume_approval i r scope)"
  unfolding issue_capability_lease_def revoke_capability_lease_def request_approval_def
    resolve_approval_def consume_approval_def
  by (auto intro!: pres_intros append_new_synced world_sync_steps split: option.split)

lemma repair_synced: "preserves synced (repair_orphan_tool_calls r excl)"
  unfolding repair_orphan_tool_calls_def Let_def
  by (auto intro!: pres_intros append_many_synced world_sync_steps)

lemma new_event_frame:
  "new_event ty sid rid data s = (r, s') \<Longrightarrow> world_only s s'"
  by (rule advancesD [OF advances_new_event])

lemma on_store_Inr:
  "on_store m s = (Inr x, s') \<longleftrightarrow> (\<exists>st. m (the_store s) = (Inr x, st) \<and> s' = s\<lparr>the_store := st\<rparr>)"
  by (auto simp: on_store_def split: prod.splits)

lemma notify_observers_eq:
  "notify_observers ks es s = (Inr (), s\<lparr>notified := notified s @ notices ks es\<rparr>)"
  by (simp add: notify_observers_def modifyE_def)

lemma create_session_fresh:
  assumes run: "create_session sid md ob s = (Inr ses, s')" and wf: "store_wf (the_store s)"
  shows "synced (s'\<lparr>self := ses\<rparr>)" "ses_messages ses = []" "length (ses_events ses) = 1"
    "ev_type (hd (ses_events ses)) = ''session.created''"
    "self s' = self s" "\<And>i. sid = Some i \<Longrightarrow> i \<noteq> '''' \<Longrightarrow> ses_id ses = i"
    "store_view (the_store s) (ses_id ses) = None"
    "\<And>k. k \<noteq> ses_id ses \<Longrightarrow> store_view (the_store s') k = store_view (the_store s) k"
proof -
  define dmd where "dmd = (case md of None \<Rightarrow> [] | Some d \<Rightarrow> d)"
  from run obtain i s1 now s2 st2 e s4 ps st5 where
    i: "(case sid of Some i \<Rightarrow> if i \<noteq> '''' then retE i else new_id ''ses''
         | None \<Rightarrow> new_id ''ses'') s = (Inr i, s1)"
    and now: "utc_now s1 = (Inr now, s2)"
    and cr: "store_create now i dmd (metadata_parent dmd) (the_store s2) = (Inr (), st2)"
    and e: "new_event ''session.created'' i None dmd (s2\<lparr>the_store := st2\<rparr>) = (Inr e, s4)"
    and app: "store_append i 0 [e] (the_store s4) = (Inr ps, st5)"
    and ses: "ses = \<lparr>ses_id = i, ses_metadata = dmd, ses_head = 1, ses_events = ps, ses_messages = [],
        ses_observers = (case ob of None \<Rightarrow> [] | Some k \<Rightarrow> [k])\<rparr>"
    and s': "s' = s4\<lparr>the_store := st5, notified := notified s4 @ notices (ses_observers ses) ps\<rparr>"
    unfolding create_session_def dmd_def [symmetric] Let_def bindE_eq_Inr on_store_Inr
    by (clarsimp simp: retE_def notify_observers_eq)
  have f1: "world_only s s1"
    using i advancesD [OF advances_new_id] by (auto simp: retE_def world_only_def split: option.splits if_splits)
  have f2: "world_only s1 s2" using advancesD [OF advances_utc(2) now] .
  have f4: "world_only (s2\<lparr>the_store := st2\<rparr>) s4" using new_event_frame [OF e] .
  have wf2: "store_wf (the_store s2)" using wf f1 f2 by (simp add: world_only_def)
  obtain "store_view (the_store s2) i = None" "store_wf st2"
    and v2: "store_view st2 = (store_view (the_store s2))(i \<mapsto> new_log now dmd (metadata_parent dmd))"
    by (rule stores.create_cases [OF wf2 cr]) auto
  have st4: "the_store s4 = st2" using f4 by (simp add: world_only_def)
  obtain adm: "admissible (store_view st2) i 0 [e]" and ps: "ps = numbered 0 [e]" and wf5: "store_wf st5"
    and v5: "store_view st5 = extend_log (store_view st2) i ps"
    by (rule stores.append_cases [OF \<open>store_wf st2\<close> app [unfolded st4]]) simp_all
  have end_state: "the_store s' = st5" "self s' = self s"
    using f1 f2 f4 by (simp_all add: s' world_only_def)
  show "synced (s'\<lparr>self := ses\<rparr>)"
    using wf5 by (simp add: synced_def end_state ses v5 v2 extend_log_def new_log_def ps)
  show "ses_messages ses = []" by (simp add: ses)
  show "length (ses_events ses) = 1" by (simp add: ses ps)
  have "ev_type e = ''session.created''" using new_event_Inr(1) [OF e] .
  then show "ev_type (hd (ses_events ses)) = ''session.created''" by (simp add: ses ps numbered_Cons)
  show "self s' = self s" by (rule end_state)
  show "\<And>i. sid = Some i \<Longrightarrow> i \<noteq> '''' \<Longrightarrow> ses_id ses = i"
    using i by (simp add: ses retE_def)
  have same: "the_store s2 = the_store s" using f1 f2 by (simp add: world_only_def)
  show "store_view (the_store s) (ses_id ses) = None"
    using \<open>store_view (the_store s2) i = None\<close> by (simp add: ses same)
  show "\<And>k. k \<noteq> ses_id ses \<Longrightarrow> store_view (the_store s') k = store_view (the_store s) k"
    by (simp add: end_state v5 v2 ses same extend_log_def)
qed

section \<open>The message projection is incremental\<close>

text \<open>
  Where every message carries an id, decoding draws nothing and the projection is a function of the
  log. \<open>identified\<close> holds of every event the runtime writes.
\<close>

definition identified :: "event \<Rightarrow> bool" where
  "identified e \<longleftrightarrow>
     (is_message_event e \<longrightarrow>
        (\<forall>m. decode_message '''' (ev_data e) = Inr m \<longrightarrow> msg_id m \<noteq> '''')) \<and>
     (ev_type e = ''compaction.created'' \<longrightarrow>
        (\<forall>raw m. get_or_none (ev_data e) ''summary'' = JObj raw \<longrightarrow>
           decode_message '''' (summary_envelope (ev_data e) raw) = Inr m \<longrightarrow> msg_id m \<noteq> ''''))"

definition project_pure :: "message list \<Rightarrow> event \<Rightarrow> exn + message list" where
  "project_pure msgs e =
     (if is_message_event e then
        (if is_JObj (get_or_none (ev_data e) ''message'')
         then bindR (decode_message '''' (ev_data e)) (\<lambda>m. Inr (msgs @ [m]))
         else Inr msgs)
      else if ev_type e = ''compaction.created'' then
        (case (get_or (ev_data e) ''replaced_message_ids'' (JArr []), get_or_none (ev_data e) ''summary'') of
           (JArr replaced, JObj raw_summary) \<Rightarrow>
             (case compact_messages (map py_str replaced) msgs of
                None \<Rightarrow> Inr msgs
              | Some place \<Rightarrow>
                  bindR (decode_message '''' (summary_envelope (ev_data e) raw_summary))
                    (\<lambda>summary. Inr (place summary)))
         | _ \<Rightarrow> Inr msgs)
      else Inr msgs)"

lemma decode_identified:
  assumes "\<And>m. decode_message '''' v = Inr m \<Longrightarrow> msg_id m \<noteq> ''''"
  shows "decode_message_event v s = (decode_message '''' v, s)"
  using assms by (cases "decode_message '''' v") (auto simp: decode_message_event_def eff_simps)

lemma project_step_identified:
  assumes "identified e"
  shows "project_step msgs e s = (project_pure msgs e, s)"
proof -
  have d1: "decode_message_event (ev_data e) s = (decode_message '''' (ev_data e), s)" if "is_message_event e"
    using assms that by (intro decode_identified) (auto simp: identified_def)
  have d2: "decode_message_event (summary_envelope (ev_data e) raw) s =
      (decode_message '''' (summary_envelope (ev_data e) raw), s)"
    if "ev_type e = ''compaction.created''" "get_or_none (ev_data e) ''summary'' = JObj raw" for raw
    using assms that by (intro decode_identified) (auto simp: identified_def)
  show ?thesis
    by (auto simp: project_step_def project_pure_def bindE_def bindR_def retE_def d1 d2
        split: jval.splits option.splits sum.splits)
qed

lemma project_from_identified:
  "list_all identified es \<Longrightarrow> project_from msgs es s = (foldR project_pure msgs es, s)"
proof (induction es arbitrary: msgs)
  case (Cons e es)
  then show ?case
    by (cases "project_pure msgs e") (auto simp: bindE_def project_step_identified)
qed (simp add: retE_def)

lemma project_messages_identified:
  "list_all identified es \<Longrightarrow> project_messages es s = (foldR project_pure [] es, s)"
  by (simp add: project_messages_def project_from_identified)

definition projected :: "session \<Rightarrow> bool" where
  "projected ses \<longleftrightarrow> list_all identified (ses_events ses) \<and>
     foldR project_pure [] (ses_events ses) = Inr (ses_messages ses)"

definition is_compaction :: "event \<Rightarrow> bool" where
  "is_compaction e \<longleftrightarrow> ev_type e = ''compaction.created''"

text \<open>Absorbing an event that is not a compaction is one step of the projection.\<close>

lemma absorb_plain:
  assumes "identified e" "\<not> is_compaction e"
  shows "absorb_event e s = (case project_pure (ses_messages (self s)) e of
     Inl x \<Rightarrow> (Inl x, s) | Inr ms \<Rightarrow> (Inr (), s\<lparr>self := (self s)\<lparr>ses_messages := ms\<rparr>\<rparr>))"
proof -
  have d1: "decode_message_event (ev_data e) s = (decode_message '''' (ev_data e), s)" if "is_message_event e"
    using assms that by (intro decode_identified) (auto simp: identified_def)
  show ?thesis
    using assms(2)
    by (auto simp: absorb_event_def project_pure_def bindE_def bindR_def retE_def d1 update_self_def
        modifyE_def is_compaction_def split: sum.splits)
qed

lemma absorb_compaction:
  assumes "list_all identified (ses_events (self s))" "is_compaction e"
  shows "absorb_event e s = (case foldR project_pure [] (ses_events (self s)) of
     Inl x \<Rightarrow> (Inl x, s) | Inr ms \<Rightarrow> (Inr (), s\<lparr>self := (self s)\<lparr>ses_messages := ms\<rparr>\<rparr>))"
proof -
  have "\<not> is_message_event e" using assms(2)
    by (simp add: is_compaction_def is_message_event_def MESSAGE_EVENT_TYPES_def)
  then show ?thesis
    using assms
    by (simp add: absorb_event_def is_compaction_def bindE_def get_self_def project_messages_identified
        update_self_def modifyE_def split: sum.split)
qed

lemma self_messages_triv: "s\<lparr>self := (self s)\<lparr>ses_messages := ses_messages (self s)\<rparr>\<rparr> = s"
proof -
  have "(self s)\<lparr>ses_messages := ses_messages (self s)\<rparr> = self s" by (cases "self s") simp
  then show ?thesis by (cases s) simp
qed

lemma absorb_all_plain:
  assumes "list_all identified es" "list_all (\<lambda>e. \<not> is_compaction e) es"
    and "mapE absorb_event es s = (Inr us, s')"
  shows "\<exists>ms. foldR project_pure (ses_messages (self s)) es = Inr ms \<and>
    s' = s\<lparr>self := (self s)\<lparr>ses_messages := ms\<rparr>\<rparr>"
  using assms
proof (induction es arbitrary: s us)
  case Nil
  then have "s' = s" by (simp add: retE_def)
  then show ?case using self_messages_triv [of s] by (intro exI [of _ "ses_messages (self s)"]) (simp only: foldR.simps)
next
  case (Cons e es)
  from Cons.prems(3) obtain u s1 us1 where first: "absorb_event e s = (Inr u, s1)"
    and rest: "mapE absorb_event es s1 = (Inr us1, s')"
    by (auto simp: bindE_eq_Inr retE_def)
  obtain ms where step: "project_pure (ses_messages (self s)) e = Inr ms"
    "s1 = s\<lparr>self := (self s)\<lparr>ses_messages := ms\<rparr>\<rparr>"
    using first Cons.prems(1,2) by (auto simp: absorb_plain split: sum.splits)
  from Cons.IH [OF _ _ rest] Cons.prems step show ?case by auto
qed

lemma mapE_append:
  "mapE f (xs @ ys) = bindE (mapE f xs) (\<lambda>us. bindE (mapE f ys) (\<lambda>vs. retE (us @ vs)))"
  by (induction xs) (simp_all add: bindE_assoc)

lemma mapE_append_Inr:
  "mapE f (xs @ ys) s = (Inr zs, s') \<longleftrightarrow>
   (\<exists>us vs t. mapE f xs s = (Inr us, t) \<and> mapE f ys t = (Inr vs, s') \<and> zs = us @ vs)"
  by (auto simp: mapE_append bindE_eq_Inr retE_def)

lemma identified_persisted [simp]: "identified (persisted e n) = identified e"
  unfolding identified_def is_message_event_def persisted_simps by (rule refl)

lemma project_pure_persisted [simp]: "project_pure ms (persisted e n) = project_pure ms e"
  unfolding project_pure_def is_message_event_def persisted_simps by (rule refl)

lemma foldR_numbered: "foldR project_pure ms (numbered n es) = foldR project_pure ms es"
proof (induction es arbitrary: ms n)
  case (Cons e es)
  then show ?case by (simp add: numbered_Cons)
qed simp

lemma list_all_numbered:
  assumes "\<And>e n. P (persisted e n) = P e"
  shows "list_all P (numbered n es) = list_all P es"
  using assms by (induction es arbitrary: n) (simp_all add: numbered_Cons)

lemma identified_numbered [simp]: "list_all identified (numbered n es) = list_all identified es"
  by (rule list_all_numbered) simp

lemma project_pure_no_message:
  "\<not> is_message_event e \<Longrightarrow> \<not> is_compaction e \<Longrightarrow> project_pure ms e = Inr ms"
  by (simp add: project_pure_def is_compaction_def)

text \<open>What an append that returns has done, up to the notifications.\<close>

lemma append_many_Inr:
  fixes s :: "'z env_scheme"
  assumes run: "append_many es s = (Inr qs, s')" and sync: "synced s"
  obtains s2 us and s3 :: "'z env_scheme" where "qs = numbered (ses_head (self s)) es"
    "ses_events (self s2) = ses_events (self s) @ qs" "ses_messages (self s2) = ses_messages (self s)"
    "mapE absorb_event qs s2 = (Inr us, s3)" "self s' = self s3" "the_store s' = the_store s3"
proof -
  from run have no: "\<not> list_ex ev_ephemeral es" by (auto simp: append_many_def raiseE_def split: if_splits)
  from run no obtain u s1 st v w s3 where
    v: "validate_batch (ses_messages (self s)) es s = (Inr u, s1)"
    and a: "store_append (ses_id (self s)) (ses_head (self s)) es (the_store s1) = (Inr qs, st)"
    and m: "mapE absorb_event qs (s1\<lparr>the_store := st, self := (self s1)\<lparr>ses_head := ses_head (self s1) +
        int (length qs), ses_events := ses_events (self s1) @ qs\<rparr>\<rparr>) = (Inr w, s3)"
    and s': "self s' = self s3" "the_store s' = the_store s3"
    by (auto simp: append_many_def bindE_eq_Inr get_self_def on_store_Inr update_self_def modifyE_def
        notify_observers_eq retE_def)
  have frame: "self s1 = self s" "the_store s1 = the_store s"
    using advancesD [OF advances_validate_batch v] by (simp_all add: world_only_def)
  have wf: "store_wf (the_store s1)" using sync by (simp add: synced_def frame)
  have "qs = numbered (ses_head (self s)) es"
    by (rule stores.append_cases [OF wf a]) simp_all
  then show thesis
    by (rule that [OF _ _ _ m]) (simp_all add: frame s')
qed

lemma absorb_all_same_log: "mapE absorb_event es s = (r, s') \<Longrightarrow> same_log s s'"
  by (rule advancesD [OF same_log.advances_mapE [OF absorb_same_log]])

lemma absorb_no_messages:
  assumes "list_all identified (ses_events (self s))" "list_all identified es"
    and "list_all (\<lambda>e. \<not> is_message_event e) es"
    and "foldR project_pure [] (ses_events (self s)) = Inr (ses_messages (self s))"
    and "mapE absorb_event es s = (Inr us, s')"
  shows "ses_messages (self s') = ses_messages (self s)"
  using assms
proof (induction es arbitrary: s us)
  case (Cons e es)
  from Cons.prems(5) obtain u s1 us1 where first: "absorb_event e s = (Inr u, s1)"
    and rest: "mapE absorb_event es s1 = (Inr us1, s')"
    by (auto simp: bindE_eq_Inr retE_def)
  have "ses_messages (self s1) = ses_messages (self s) \<and> ses_events (self s1) = ses_events (self s)"
  proof (cases "is_compaction e")
    case True
    with first Cons.prems(1,4) show ?thesis by (auto simp: absorb_compaction)
  next
    case False
    with first Cons.prems(2,3) show ?thesis by (auto simp: absorb_plain project_pure_no_message)
  qed
  with Cons.IH [OF _ _ _ _ rest] Cons.prems show ?case by simp
qed (simp add: retE_def)

text \<open>
  A batch in which no message follows a compaction leaves the session's messages equal to the
  projection of its whole log.
\<close>

lemma append_many_projected:
  fixes s :: "'z env_scheme"
  assumes run: "append_many (p1 @ p2) s = (Inr qs, s')" and sync: "synced s"
    and proj: "projected (self s)" and ident: "list_all identified (p1 @ p2)"
    and plain: "list_all (\<lambda>e. \<not> is_compaction e) p1"
    and tail: "list_all (\<lambda>e. \<not> is_message_event e) p2"
  shows "projected (self s')"
proof -
  obtain s2 us and s3 :: "'z env_scheme" where qs: "qs = numbered (ses_head (self s)) (p1 @ p2)"
    and ev: "ses_events (self s2) = ses_events (self s) @ qs"
    and ms: "ses_messages (self s2) = ses_messages (self s)"
    and ab: "mapE absorb_event qs s2 = (Inr us, s3)" and s': "self s' = self s3"
    by (rule append_many_Inr [OF run sync])
  let ?q1 = "numbered (ses_head (self s)) p1" and ?q2 = "numbered (ses_head (self s) + int (length p1)) p2"
  have q: "qs = ?q1 @ ?q2" by (simp add: qs numbered_append)
  have i1: "list_all identified p1" and i2: "list_all identified p2" using ident by auto
  have c1: "list_all (\<lambda>e. \<not> is_compaction e) ?q1"
    using plain by (subst list_all_numbered) (simp_all add: is_compaction_def)
  have c2: "list_all (\<lambda>e. \<not> is_message_event e) ?q2"
    using tail by (subst list_all_numbered) (simp_all add: is_message_event_def)
  from ab obtain u1 t u2 where a1: "mapE absorb_event ?q1 s2 = (Inr u1, t)"
    and a2: "mapE absorb_event ?q2 t = (Inr u2, s3)"
    unfolding q mapE_append_Inr by blast
  obtain m1 where m1: "foldR project_pure (ses_messages (self s)) ?q1 = Inr m1"
    and t: "t = s2\<lparr>self := (self s2)\<lparr>ses_messages := m1\<rparr>\<rparr>"
    using absorb_all_plain [OF _ c1 a1] i1 ms by auto
  have fold1: "foldR project_pure [] (ses_events (self s) @ ?q1) = Inr m1"
    using proj m1 by (simp add: projected_def foldR_append)
  have idents: "list_all identified (ses_events (self s2))"
    using proj i1 i2 by (simp add: ev q projected_def)
  have ev3: "ses_events (self s3) = ses_events (self s2)"
    using absorb_all_same_log [OF ab] by (simp add: same_log_def)
  have "foldR project_pure [] (ses_events (self s3)) = Inr (ses_messages (self s3))"
  proof (cases "list_all (\<lambda>e. \<not> is_compaction e) p2")
    case True
    then have "list_all (\<lambda>e. \<not> is_compaction e) ?q2"
      by (subst list_all_numbered) (simp_all add: is_compaction_def)
    from absorb_all_plain [OF _ this a2] i2 t
    obtain m2 where "foldR project_pure m1 ?q2 = Inr m2" "ses_messages (self s3) = m2" by auto
    moreover have "ses_events (self s3) = (ses_events (self s) @ ?q1) @ ?q2" by (simp add: ev3 ev q)
    ultimately show ?thesis
      by (simp only: foldR_append [where xs = "ses_events (self s) @ ?q1"] fold1 bindR_simps)
  next
    case False
    then have "\<exists>e \<in> set p2. is_compaction e" by (auto simp: list_all_iff)
    from split_list_first_prop [OF this] obtain x c y where p2: "p2 = x @ c # y"
      and x: "list_all (\<lambda>e. \<not> is_compaction e) x" and c: "is_compaction c"
      by (auto simp: list_all_iff)
    let ?k = "ses_head (self s) + int (length p1)"
    have q2: "?q2 = numbered ?k x @ persisted c (?k + int (length x) + 1) # numbered (?k + int (length x) + 1) y"
      by (simp add: p2 numbered_append numbered_Cons)
    from a2 obtain v1 t1 v2 where b1: "mapE absorb_event (numbered ?k x) t = (Inr v1, t1)"
      and b2: "mapE absorb_event (persisted c (?k + int (length x) + 1) #
          numbered (?k + int (length x) + 1) y) t1 = (Inr v2, s3)"
      unfolding q2 mapE_append_Inr by blast
    from b2 obtain u t2 v3 where b3: "absorb_event (persisted c (?k + int (length x) + 1)) t1 = (Inr u, t2)"
      and b4: "mapE absorb_event (numbered (?k + int (length x) + 1) y) t2 = (Inr v3, s3)"
      by (auto simp: bindE_eq_Inr retE_def)
    have evt: "ses_events (self t1) = ses_events (self s2)"
      using absorb_all_same_log [OF b1] t by (simp add: same_log_def)
    have c': "is_compaction (persisted c n)" for n using c by (simp add: is_compaction_def)
    from b3 obtain mm where mm: "foldR project_pure [] (ses_events (self s2)) = Inr mm"
      and t2: "t2 = t1\<lparr>self := (self t1)\<lparr>ses_messages := mm\<rparr>\<rparr>"
      using idents evt c' by (auto simp: absorb_compaction split: sum.splits)
    have "ses_messages (self s3) = ses_messages (self t2)"
    proof (rule absorb_no_messages [OF _ _ _ _ b4])
      show "list_all (\<lambda>e. \<not> is_message_event e) (numbered (?k + int (length x) + 1) y)"
        using tail p2 by (subst list_all_numbered) (simp_all add: is_message_event_def)
      show "foldR project_pure [] (ses_events (self t2)) = Inr (ses_messages (self t2))"
        using mm evt by (simp add: t2)
    qed (use idents evt i2 p2 t2 in auto)
    then show ?thesis using mm by (simp add: ev3 t2)
  qed
  then show ?thesis using idents by (simp add: projected_def s' ev3)
qed

text \<open>
  A batch in which messages follow a compaction appends those messages to a projection that
  already has them.
\<close>

definition decoded_messages :: "event list \<Rightarrow> exn + message list" where
  "decoded_messages es = foldR project_pure [] es"

lemma project_pure_shift:
  assumes "\<not> is_compaction e"
  shows "project_pure ms e = bindR (project_pure [] e) (\<lambda>d. Inr (ms @ d))"
proof (cases "decode_message '''' (ev_data e)")
  case (Inl x)
  with assms show ?thesis by (simp add: project_pure_def is_compaction_def)
next
  case (Inr m)
  with assms show ?thesis by (simp add: project_pure_def is_compaction_def)
qed

lemma foldR_project_shift:
  assumes "list_all (\<lambda>e. \<not> is_compaction e) es"
  shows "foldR project_pure ms es = bindR (foldR project_pure [] es) (\<lambda>d. Inr (ms @ d))"
  using assms
proof (induction es arbitrary: ms)
  case (Cons e es)
  have IH: "foldR project_pure k es = bindR (foldR project_pure [] es) (\<lambda>d. Inr (k @ d))" for k
    by (rule Cons.IH) (use Cons.prems in simp)
  have shift: "project_pure ms e = bindR (project_pure [] e) (\<lambda>d. Inr (ms @ d))"
    using Cons.prems by (intro project_pure_shift) simp
  show ?case
  proof (cases "project_pure [] e")
    case (Inl x)
    then show ?thesis by (simp add: shift)
  next
    case (Inr d)
    then show ?thesis
      by (simp add: shift IH [of "ms @ d"] IH [of d]) (cases "foldR project_pure [] es"; simp)
  qed
qed simp

lemma append_many_duplicates:
  fixes s :: "'z env_scheme"
  assumes run: "append_many (p1 @ c # p2) s = (Inr qs, s')" and sync: "synced s"
    and proj: "projected (self s)" and ident: "list_all identified (p1 @ c # p2)"
    and comp: "is_compaction c" and plain: "list_all (\<lambda>e. \<not> is_compaction e) (p1 @ p2)"
  obtains ms dups where "foldR project_pure [] (ses_events (self s')) = Inr ms"
    "decoded_messages p2 = Inr dups" "ses_messages (self s') = ms @ dups"
proof -
  obtain s2 us and s3 :: "'z env_scheme" where qs: "qs = numbered (ses_head (self s)) (p1 @ c # p2)"
    and ev: "ses_events (self s2) = ses_events (self s) @ qs"
    and ms: "ses_messages (self s2) = ses_messages (self s)"
    and ab: "mapE absorb_event qs s2 = (Inr us, s3)" and s': "self s' = self s3"
    by (rule append_many_Inr [OF run sync])
  let ?n = "ses_head (self s)"
  let ?k = "?n + int (length p1)"
  have q: "qs = numbered ?n p1 @ persisted c (?k + 1) # numbered (?k + 1) p2"
    by (simp add: qs numbered_append numbered_Cons)
  from ab obtain v1 t1 v2 where b1: "mapE absorb_event (numbered ?n p1) s2 = (Inr v1, t1)"
    and b2: "mapE absorb_event (persisted c (?k + 1) # numbered (?k + 1) p2) t1 = (Inr v2, s3)"
    unfolding q mapE_append_Inr by blast
  from b2 obtain u t2 v3 where b3: "absorb_event (persisted c (?k + 1)) t1 = (Inr u, t2)"
    and b4: "mapE absorb_event (numbered (?k + 1) p2) t2 = (Inr v3, s3)"
    by (auto simp: bindE_eq_Inr retE_def)
  have evt: "ses_events (self t1) = ses_events (self s2)"
    using absorb_all_same_log [OF b1] by (simp add: same_log_def)
  have idents: "list_all identified (ses_events (self s2))"
    using proj ident by (simp add: ev q projected_def)
  have "is_compaction (persisted c (?k + 1))" using comp by (simp add: is_compaction_def)
  with b3 obtain mm where mm: "foldR project_pure [] (ses_events (self s2)) = Inr mm"
    and t2: "t2 = t1\<lparr>self := (self t1)\<lparr>ses_messages := mm\<rparr>\<rparr>"
    using idents evt by (auto simp: absorb_compaction split: sum.splits)
  have plain2: "list_all (\<lambda>e. \<not> is_compaction e) (numbered (?k + 1) p2)"
    using plain by (subst list_all_numbered) (simp_all add: is_compaction_def)
  obtain d where d: "foldR project_pure mm (numbered (?k + 1) p2) = Inr d" "ses_messages (self s3) = d"
    using absorb_all_plain [OF _ plain2 b4] ident by (auto simp: t2)
  then have "bindR (decoded_messages p2) (\<lambda>x. Inr (mm @ x)) = Inr d"
    using foldR_project_shift [OF plain2, of mm] by (simp add: foldR_numbered decoded_messages_def)
  then obtain dups where "decoded_messages p2 = Inr dups" "d = mm @ dups"
    by (auto simp: bindR_Inr_iff)
  moreover have "ses_events (self s3) = ses_events (self s2)"
    using absorb_all_same_log [OF ab] by (simp add: same_log_def)
  ultimately show thesis using that mm d(2) by (simp add: s')
qed

end
