(* ===== verification/Session_Theorems.thy ===== *)
theory Session_Theorems
  imports Session_Facts
begin

text \<open>
  The contracts of the larger session operations: forking, repair and the authorization events.
\<close>

section \<open>Forking\<close>

text \<open>A copied event states the same fact: type, payload, run, time and schema version.\<close>

definition same_fact :: "event \<Rightarrow> event \<Rightarrow> bool" where
  "same_fact e c \<longleftrightarrow> ev_type c = ev_type e \<and> ev_data c = ev_data e \<and> ev_run c = ev_run e \<and>
     ev_created c = ev_created e \<and> ev_version c = ev_version e"

lemma same_fact_persisted [simp]: "same_fact e (persisted c n) = same_fact e c"
  by (simp add: same_fact_def persisted_def)

lemma copy_events:
  "mapE (copy_event sid) es s = (Inr cs, s') \<Longrightarrow> list_all2 same_fact es cs"
proof (induction es arbitrary: s cs)
  case (Cons e es)
  then obtain c s1 ds where "copy_event sid e s = (Inr c, s1)"
    "mapE (copy_event sid) es s1 = (Inr ds, s')" "cs = c # ds"
    by (auto simp: bindE_eq_Inr retE_def)
  moreover from this(1) have "same_fact e c"
    by (auto simp: copy_event_def bindE_eq_Inr retE_def same_fact_def)
  ultimately show ?case using Cons.IH by simp
qed (simp add: retE_def)

lemma same_fact_numbered: "list_all2 same_fact es cs \<Longrightarrow> list_all2 same_fact es (numbered n cs)"
  by (induction es cs arbitrary: n rule: list_all2_induct) (auto simp: numbered_Cons)

lemma fork_parts:
  fixes s :: "'z env_scheme"
  assumes run: "fork_session n sid ob s = (Inr child, s')" and sync: "synced s"
  obtains ses0 forked copies qs and t t' :: "'z env_scheme" where
    "0 < n" "n \<le> ses_head (self s)"
    "synced (t\<lparr>self := ses0\<rparr>)" "ses_messages ses0 = []" "length (ses_events ses0) = 1"
    "ev_type (hd (ses_events ses0)) = ''session.created''"
    "store_view (the_store s) (ses_id ses0) = None"
    "\<And>k. k \<noteq> ses_id ses0 \<Longrightarrow> store_view (the_store t) k = store_view (the_store s) k"
    "ev_type forked = ''session.forked''"
    "list_all2 same_fact (fork_prefix n (ses_events (self s))) copies"
    "append_many (forked # copies) (t\<lparr>self := ses0\<rparr>) = (Inr qs, t'\<lparr>self := child\<rparr>)"
    "self s' = self s" "the_store s' = the_store t'"
proof -
  have bounds: "0 < n" "n \<le> ses_head (self s)"
    using run by (auto simp: fork_session_def bindE_eq_Inr get_self_def raiseE_def split: if_splits)
  define md where "md = dict_set ''forked_at_seq'' (JInt n)
    (dict_set ''parent_session_id'' (JStr (ses_id (self s))) (ses_metadata (self s)))"
  define prefix where "prefix = fork_prefix n (ses_events (self s))"
  from run bounds obtain ses0 s1 forked s2 copies qs and s3 s4 :: "'z env_scheme" where
    cr: "create_session sid (Some md) ob s = (Inr ses0, s1)"
    and fk: "new_event ''session.forked'' (ses_id ses0) None
      [(''parent_session_id'', JStr (ses_id (self s))), (''forked_at_seq'', JInt n),
       (''copied_event_count'', JInt (int (length prefix)))] s1 = (Inr forked, s2)"
    and cp: "mapE (copy_event (ses_id ses0)) prefix s2 = (Inr copies, s3)"
    and app: "append_many (forked # copies) (s3\<lparr>self := ses0\<rparr>) = (Inr qs, s4)"
    and child: "child = self s4" and s': "s' = s4\<lparr>self := self s3\<rparr>"
    by (auto simp: fork_session_def bindE_eq_Inr on_session_Inr Let_def get_self_def md_def prefix_def retE_def)
  note fresh = create_session_fresh [OF cr]
  have wf: "store_wf (the_store s)" using sync by (simp add: synced_def)
  have f1: "world_only s1 s2" by (rule new_event_frame [OF fk])
  have f2: "world_only s2 s3"
    by (rule advancesD [OF world_frame.advances_mapE [OF advances_copy_event] cp])
  have frame: "the_store s3 = the_store s1" "self s3 = self s1"
    using f1 f2 by (simp_all add: world_only_def)
  have "synced (s3\<lparr>self := ses0\<rparr>)"
    using fresh(1) [OF wf] by (simp add: synced_def frame)
  moreover have "append_many (forked # copies) (s3\<lparr>self := ses0\<rparr>) = (Inr qs, s4\<lparr>self := child\<rparr>)"
    using app child by (cases s4) simp
  moreover have "list_all2 same_fact (fork_prefix n (ses_events (self s))) copies"
    using copy_events [OF cp] by (simp add: prefix_def)
  moreover have "store_view (the_store s3) k = store_view (the_store s) k" if "k \<noteq> ses_id ses0" for k
    using fresh(8) [OF wf that] by (simp add: frame)
  moreover have "self s' = self s" using fresh(5) [OF wf] by (simp add: s' frame)
  moreover have "the_store s' = the_store s4" by (simp add: s')
  ultimately show thesis
    using that [where ?ses0.0 = ses0 and t = s3 and forked = forked and copies = copies and qs = qs and t' = s4] bounds fresh(2-4,7) [OF wf] new_event_Inr(1) [OF fk] by simp
qed

lemma fork_result:
  fixes s :: "'z env_scheme"
  assumes run: "fork_session n sid ob s = (Inr child, s')" and sync: "synced s"
  shows "self s' = self s" "synced (s'\<lparr>self := child\<rparr>)" "ses_id child \<noteq> ses_id (self s)"
    "store_view (the_store s') (ses_id (self s)) = store_view (the_store s) (ses_id (self s))"
    "\<exists>created forked copies. ses_events child = created # forked # copies \<and>
       ev_type created = ''session.created'' \<and> ev_type forked = ''session.forked'' \<and>
       list_all2 same_fact (fork_prefix n (ses_events (self s))) copies"
proof -
  obtain ses0 forked copies qs and t t' :: "'z env_scheme" where
    sy: "synced (t\<lparr>self := ses0\<rparr>)" and ev0: "length (ses_events ses0) = 1"
    "ev_type (hd (ses_events ses0)) = ''session.created''"
    and free: "store_view (the_store s) (ses_id ses0) = None"
    and others: "\<And>k. k \<noteq> ses_id ses0 \<Longrightarrow> store_view (the_store t) k = store_view (the_store s) k"
    and fk: "ev_type forked = ''session.forked''"
    and cp: "list_all2 same_fact (fork_prefix n (ses_events (self s))) copies"
    and app: "append_many (forked # copies) (t\<lparr>self := ses0\<rparr>) = (Inr qs, t'\<lparr>self := child\<rparr>)"
    and s': "self s' = self s" "the_store s' = the_store t'"
    by (rule fork_parts [OF run sync]) blast
  show "self s' = self s" by (rule s')
  have other: "ses_id ses0 \<noteq> ses_id (self s)" using free sync by (auto simp: synced_def)
  obtain ps where st: "ps = numbered (ses_head ses0) (forked # copies)"
    "store_view (the_store t') = extend_log (store_view (the_store t)) (ses_id ses0) ps"
    "ses_events child = ses_events ses0 @ ps" "ses_id child = ses_id ses0"
    "synced (t'\<lparr>self := child\<rparr>)"
    by (rule append_many_cases [OF app sy]) auto
  show "synced (s'\<lparr>self := child\<rparr>)" using st(5) by (simp add: synced_def s')
  show "ses_id child \<noteq> ses_id (self s)" using other st(4) by simp
  show "store_view (the_store s') (ses_id (self s)) = store_view (the_store s) (ses_id (self s))"
    using other others by (simp add: s' st(2) extend_log_def)
  obtain c0 where c0: "ses_events ses0 = [c0]" using ev0(1) by (cases "ses_events ses0") auto
  have "ses_events child = c0 # persisted forked (ses_head ses0 + 1) # numbered (ses_head ses0 + 1) copies"
    by (simp add: st c0 numbered_Cons)
  then show "\<exists>created forked copies. ses_events child = created # forked # copies \<and>
       ev_type created = ''session.created'' \<and> ev_type forked = ''session.forked'' \<and>
       list_all2 same_fact (fork_prefix n (ses_events (self s))) copies"
    using ev0(2) fk c0 same_fact_numbered [OF cp] by auto
qed

lemma same_fact_project:
  assumes "same_fact e c"
  shows "project_pure ms c = project_pure ms e" "identified c = identified e"
    "is_compaction c = is_compaction e" "is_message_event c = is_message_event e"
  using assms
  unfolding same_fact_def project_pure_def identified_def is_message_event_def is_compaction_def
  by (simp_all only:)

lemma same_facts_project:
  "list_all2 same_fact es cs \<Longrightarrow> foldR project_pure ms cs = foldR project_pure ms es \<and>
   list_all identified cs = list_all identified es"
  by (induction es cs arbitrary: ms rule: list_all2_induct) (auto simp: same_fact_project bindR_def split: sum.splits)

text \<open>What the new session shows the model, where the copied prefix compacts and then goes on.\<close>

lemma fork_duplicates:
  fixes s :: "'z env_scheme"
  assumes run: "fork_session n sid ob s = (Inr child, s')" and sync: "synced s"
    and prefix: "fork_prefix n (ses_events (self s)) = p1 @ c # p2" and comp: "is_compaction c"
    and plain: "list_all (\<lambda>e. \<not> is_compaction e) (p1 @ p2)"
    and ident: "list_all identified (p1 @ c # p2)"
  shows "\<exists>ms dups. foldR project_pure [] (ses_events child) = Inr ms \<and>
    decoded_messages p2 = Inr dups \<and> ses_messages child = ms @ dups"
proof -
  obtain ses0 forked copies qs and t t' :: "'z env_scheme" where
    sy: "synced (t\<lparr>self := ses0\<rparr>)" and ms0: "ses_messages ses0 = []" and ev0: "length (ses_events ses0) = 1"
    "ev_type (hd (ses_events ses0)) = ''session.created''"
    and fk: "ev_type forked = ''session.forked''"
    and cp: "list_all2 same_fact (p1 @ c # p2) copies"
    and app: "append_many (forked # copies) (t\<lparr>self := ses0\<rparr>) = (Inr qs, t'\<lparr>self := child\<rparr>)"
    by (rule fork_parts [OF run sync, unfolded prefix]) blast
  from cp obtain d1 x d2 where copies: "copies = d1 @ x # d2"
    and m1: "list_all2 same_fact p1 d1" and mx: "same_fact c x" and m2: "list_all2 same_fact p2 d2"
    by (auto simp: list_all2_append1 list_all2_Cons1)
  have plain_copy: "list_all (\<lambda>e. \<not> is_compaction e) ds" if "list_all2 same_fact es ds"
    "list_all (\<lambda>e. \<not> is_compaction e) es" for es ds
    using that by (induction es ds rule: list_all2_induct) (auto simp: same_fact_project)
  have not_created: "identified e \<and> \<not> is_compaction e \<and> project_pure ms e = Inr ms"
    if "ev_type e = ''session.created'' \<or> ev_type e = ''session.forked''" for e ms
    using that
    by (auto simp: identified_def is_message_event_def MESSAGE_EVENT_TYPES_def is_compaction_def
        project_pure_def)
  obtain c0 where c0: "ses_events ses0 = [c0]" using ev0(1) by (cases "ses_events ses0") auto
  have "projected ses0" using not_created [of c0] ev0(2) by (simp add: projected_def c0 ms0)
  have sy': "synced (t\<lparr>self := ses0\<rparr>)" by (rule sy)
  have app': "append_many ((forked # d1) @ x # d2) (t\<lparr>self := ses0\<rparr>) = (Inr qs, t'\<lparr>self := child\<rparr>)"
    using app by (simp add: copies)
  obtain ms dups where "foldR project_pure [] (ses_events (self (t'\<lparr>self := child\<rparr>))) = Inr ms"
    "decoded_messages d2 = Inr dups" "ses_messages (self (t'\<lparr>self := child\<rparr>)) = ms @ dups"
  proof (rule append_many_duplicates [OF app' sy'])
    show "projected (self (t\<lparr>self := ses0\<rparr>))" using \<open>projected ses0\<close> by simp
    show "list_all identified ((forked # d1) @ x # d2)"
      using ident not_created fk same_facts_project [OF m1] same_facts_project [OF m2] mx
      by (simp add: same_fact_project)
    show "is_compaction x" using comp mx by (simp add: same_fact_project)
    show "list_all (\<lambda>e. \<not> is_compaction e) ((forked # d1) @ d2)"
      using plain plain_copy [OF m1] plain_copy [OF m2] not_created fk by simp
  qed
  moreover have "decoded_messages d2 = decoded_messages p2"
    using same_facts_project [OF m2] by (simp add: decoded_messages_def)
  ultimately show ?thesis by simp
qed

end
