(* ===== verification/Session_Authorization.thy ===== *)
theory Session_Authorization
  imports Session_Facts
begin

text \<open>
  What the authorization methods of a session do to its log: the event each appends, and whether
  \<^verbatim>\<open>AuthorizationState.from_events\<close> accepts the log afterwards.
\<close>

section \<open>Instants read from a log are valid\<close>

lemma char_digit_bound: "char_digit c = Some d \<Longrightarrow> d < 10"
  by (auto simp: char_digit_def Let_def split: if_splits)

lemma foldl_parse_None: "foldl parse_digit None s = None"
  by (induction s) (simp_all add: parse_digit_def)

lemma foldl_parse_bound:
  "foldl parse_digit (Some a) s = Some n \<Longrightarrow> n < (a + 1) * 10 ^ length s"
proof (induction s arbitrary: a)
  case (Cons c s)
  then obtain d where d: "char_digit c = Some d" and rest: "foldl parse_digit (Some (10 * a + d)) s = Some n"
    by (cases "char_digit c") (auto simp: foldl_parse_None parse_digit_def [of "Some a" c]
        parse_digit_def [of "Some a" c, unfolded option.case])
  from Cons.IH [OF rest] have "n < (10 * a + d + 1) * 10 ^ length s" .
  also have "10 * a + d + 1 \<le> 10 * (a + 1)" using char_digit_bound [OF d] by simp
  then have "(10 * a + d + 1) * 10 ^ length s \<le> 10 * (a + 1) * 10 ^ length s" by (rule mult_le_mono1)
  finally show ?case by (simp add: algebra_simps)
qed simp

lemma parse_nat_bound: "parse_nat s = Some n \<Longrightarrow> n < 10 ^ length s"
  using foldl_parse_bound [of 0 s n] by (auto simp: parse_nat_def split: if_splits)

lemma parse_fraction_bound: "parse_fraction s = Some us \<Longrightarrow> us < 1000000"
  by (auto simp: parse_fraction_def Let_def split: if_splits dest!: parse_nat_bound)

lemma fromisoformat_valid:
  assumes "fromisoformat s = Some t"
  shows "dt_valid t"
proof -
  from assms obtain days y m d hh mi sec us where
    day: "civil_of_days days = (int y, int m, int d)" "1 \<le> y" "y \<le> 9999"
    and time: "hh < 24" "mi < 60" "sec < (60::nat)" "us < 1000000"
    and t: "t = days * day_us + int ((hh * 3600 + mi * 60 + sec) * 1000000 + us)"
    by (auto simp: fromisoformat_def Let_def split: option.splits if_splits dest!: parse_fraction_bound)
  define r where "r = (hh * 3600 + mi * 60 + sec) * 1000000 + us"
  have "hh * 3600 + mi * 60 + sec \<le> 86399" using time by simp
  then have "r < 86400000000" using time(4) by (simp add: r_def)
  then have "t div day_us = days"
    unfolding t r_def [symmetric] by (simp del: of_nat_add of_nat_mult add: div_pos_pos_trivial)
  with day show ?thesis by (simp add: dt_valid_def)
qed

section \<open>Appending one event\<close>

lemma append_new_appends:
  assumes run: "append_new ty rid data s = (Inr e, s')" and sync: "synced s"
  shows "ses_events (self s') = ses_events (self s) @ [e]" "ev_type e = ty" "ev_data e = data"
    "ev_run e = rid" "synced s'" "ses_id (self s') = ses_id (self s)"
proof -
  obtain e0 s1 ps where e0: "new_event ty (ses_id (self s)) rid data s = (Inr e0, s1)"
    and app: "append_many [e0] s1 = (Inr ps, s')" and e: "e = hd ps"
    using run by (auto simp: append_new_def append_event_def bindE_eq_Inr get_self_def retE_def)
  have f: "world_only s s1" by (rule new_event_frame [OF e0])
  then have sync1: "synced s1" and self1: "self s1 = self s"
    using sync by (simp_all add: world_only_def synced_def)
  obtain "ps = numbered (ses_head (self s1)) [e0]" "ses_events (self s') = ses_events (self s1) @ ps"
    "synced s'" "ses_id (self s') = ses_id (self s1)"
    by (rule append_many_cases [OF app sync1]) auto
  then show "ses_events (self s') = ses_events (self s) @ [e]" "ev_type e = ty" "ev_data e = data"
    "ev_run e = rid" "synced s'" "ses_id (self s') = ses_id (self s)"
    using new_event_Inr [OF e0] by (simp_all add: e self1 numbered_Cons)
qed

lemma auth_snoc:
  "auth_from_events es = Inr st \<Longrightarrow> auth_from_events (es @ [e]) = auth_apply st e"
  by (simp add: auth_from_events_def foldR_snoc)

text \<open>A log that from_events refuses stays refused, whatever is appended.\<close>

lemma auth_poisoned:
  "auth_from_events es = Inl x \<Longrightarrow> auth_from_events (es @ fs) = Inl x"
  by (simp add: auth_from_events_def foldR_append)

lemma authorization_eq: "authorization s = (auth_from_events (ses_events (self s)), s)"
  by (simp add: authorization_def bindE_def get_self_def liftE_def raiseE_def retE_def split: sum.split)

section \<open>Spending a grant\<close>

lemma consume_outcome:
  assumes run: "consume_approval i run_id scope s = (Inr e, s')" and sync: "synced s"
    and ok: "auth_from_events (ses_events (self s)) = Inr st"
  shows "\<exists>a. dict_get (approvals st) i = Some a \<and> appr_one_shot a \<and>
    ses_events (self s') = ses_events (self s) @ [e] \<and>
    (if appr_run a = Some run_id
     then \<exists>st'. auth_from_events (ses_events (self s')) = Inr st' \<and> dict_get (approvals st') i = None
     else \<exists>x. \<forall>fs. auth_from_events (ses_events (self s') @ fs) = Inl x)"
proof -
  obtain a where a: "dict_get (approvals st) i = Some a" "appr_one_shot a"
    and app: "append_new ''approval.consumed'' (Some run_id)
        [(''approval_id'', JStr i), (''scope'', JStr scope)] s = (Inr e, s')"
    using run by (auto simp: consume_approval_def bindE_def authorization_eq ok raiseE_def
        split: option.splits if_splits)
  note e = append_new_appends [OF app sync]
  have inv: "auth_inv st" by (rule auth_replay_inv [OF ok])
  have "i \<notin> consumed_approval_ids st"
    using inv a(1) by (auto simp: auth_inv_def)
  then have step: "auth_from_events (ses_events (self s')) =
      (if appr_run a = Some run_id
       then Inr (st\<lparr>approvals := dict_pop i (approvals st),
                    consumed_approval_ids := insert i (consumed_approval_ids st)\<rparr>)
       else Inl (invariant_violation ''Approval consumption run_id mismatch''))"
    using a by (auto simp: e auth_snoc [OF ok] auth_apply_def apply_approval_consumed_def get_or_def)
  show ?thesis
    using a e(1) step auth_poisoned [of "ses_events (self s')"] by (intro exI [of _ a]) (simp split: if_splits)
qed

section \<open>Requesting and resolving\<close>

text \<open>A pending approval carries an instant that was read from the log, so its payload round-trips.\<close>

lemma approval_read_valid:
  "approval_from_dict v = Inr a \<Longrightarrow> appr_expires a = Some t \<Longrightarrow> dt_valid t"
  by (auto simp: approval_from_dict_def read_datetime_def bindR_Inr_iff Let_def fromisoformat_valid
      split: if_splits option.splits)

definition pending_valid :: "auth_state \<Rightarrow> bool" where
  "pending_valid st \<longleftrightarrow> (\<forall>i a t. dict_get (pending_approvals st) i = Some a \<longrightarrow> appr_expires a = Some t \<longrightarrow> dt_valid t)"

lemma apply_requested_valid:
  "apply_approval_requested st e = Inr st' \<Longrightarrow> pending_valid st \<Longrightarrow> pending_valid st'"
  by (auto simp: apply_approval_requested_def pending_valid_def bindR_Inr_iff approval_read_valid
      split: jval.splits if_splits)

lemma auth_apply_valid:
  assumes step: "auth_apply st e = Inr st'" and valid: "pending_valid st"
  shows "pending_valid st'"
proof (cases "ev_type e = ''approval.requested''")
  case True
  with step valid show ?thesis by (simp add: auth_apply_def apply_requested_valid)
next
  case False
  from step show ?thesis
    by (rule auth_apply_cases) (use valid False in \<open>auto simp: pending_valid_def split: if_splits\<close>)
qed

lemma auth_replay_valid:
  assumes "auth_from_events es = Inr st"
  shows "pending_valid st"
  using assms
proof (rule auth_replay_induct [where P = "\<lambda>_. pending_valid"])
  show "pending_valid auth_empty" by (simp add: pending_valid_def auth_empty_def)
qed (rule auth_apply_valid)

lemma resolve_outcome:
  assumes run: "resolve_approval i approved who run_id one_shot s = (Inr r, s')" and sync: "synced s"
    and ok: "auth_from_events (ses_events (self s)) = Inr st"
  shows "\<exists>a st'. dict_get (pending_approvals st) i = Some a \<and> appr_run a = Some run_id \<and>
    auth_from_events (ses_events (self s')) = Inr st' \<and> dict_get (pending_approvals st') i = None \<and>
    dict_get (approvals st') i = (if approved then Some (a\<lparr>appr_one_shot := one_shot\<rparr>) else None) \<and>
    r = (if approved then Some a else None)"
proof -
  obtain s1 a s2 e where pend: "pending_approval_now st i s = (Inr (Some a), s1)"
    and arun: "appr_run a = Some run_id"
    and app: "append_new ''approval.resolved'' (Some run_id)
        [(''approval_id'', JStr i), (''approval'', JObj (approval_to_dict a)),
         (''status'', JStr (if approved then ''granted'' else ''denied'')),
         (''resolved_by'', JStr who), (''one_shot'', JBool one_shot)] s1 = (Inr e, s2)"
    and r: "r = (if approved then Some a else None)" and s': "s' = s2"
    using run unfolding resolve_approval_def bindE_eq_Inr authorization_eq
    by (auto simp: ok raiseE_def bindE_eq_Inr retE_def split: option.splits if_splits)
  have a: "dict_get (pending_approvals st) i = Some a"
    using pend by (auto simp: pending_approval_now_def bindE_eq_Inr retE_def split: option.splits if_splits)
  have f: "world_only s s1" by (rule advancesD [OF advances_pending_approval_now pend])
  then have sync1: "synced s1" and self1: "self s1 = self s"
    using sync by (simp_all add: world_only_def synced_def)
  note e = append_new_appends [OF app sync1]
  have inv: "auth_inv st" and valid: "pending_valid st"
    by (rule auth_replay_inv [OF ok], rule auth_replay_valid [OF ok])
  have id: "appr_id a = i" using inv a by (auto simp: auth_inv_def)
  have rt: "approval_from_dict (approval_to_dict a) = Inr a"
    by (rule approval_roundtrip) (use valid a in \<open>auto simp: pending_valid_def\<close>)
  define st' where "st' = st\<lparr>approvals := (if approved then dict_set i (a\<lparr>appr_one_shot := one_shot\<rparr>) (approvals st) else approvals st),
      pending_approvals := dict_pop i (pending_approvals st),
      resolved_approval_ids := insert i (resolved_approval_ids st)\<rparr>"
  have "auth_from_events (ses_events (self s')) = auth_apply st e"
    using auth_snoc [OF ok] by (simp add: s' e(1) self1)
  also have "\<dots> = Inr st'"
    by (simp add: auth_apply_def apply_approval_resolved_def e get_or_def a arun id rt st'_def bindR_def)
  finally have "auth_from_events (ses_events (self s')) = Inr st'" .
  moreover have "i \<notin> resolved_approval_ids st" using inv a by (auto simp: auth_inv_def)
  then have "dict_get (approvals st) i = None"
    using inv by (cases "dict_get (approvals st) i") (auto simp: auth_inv_def)
  ultimately show ?thesis using a arun r by (auto simp: st'_def)
qed

lemma merge_metadata_keeps:
  "merge_metadata data md = Inr data' \<Longrightarrow> dict_get data k = Some v \<Longrightarrow> dict_get data' k = Some v"
proof (induction data md arbitrary: data' rule: merge_metadata.induct)
  case (2 data k' v' md)
  then show ?case by (cases "k' = k") (auto split: if_splits)
qed simp

lemma liftE_Inr: "liftE r s = (Inr x, s') \<longleftrightarrow> r = Inr x \<and> s' = s"
  by (auto simp: liftE_def raiseE_def retE_def split: sum.split)

lemma issue_approval_Inr:
  assumes "issue_approval scope who rid ttl s = (Inr a, s')"
  shows "appr_scope a = scope" "appr_run a = rid" "scope \<noteq> ''''"
    "\<And>t. appr_expires a = Some t \<Longrightarrow> dt_valid t"
  using assms
  by (auto simp: issue_approval_def bindE_eq_Inr retE_def raiseE_def liftE_def dt_plus_def
      split: if_splits option.splits sum.splits)

lemma request_outcome:
  assumes run: "request_approval scope who ttl run_id md s = (Inr a, s')" and sync: "synced s"
    and ok: "auth_from_events (ses_events (self s)) = Inr st"
  shows "appr_scope a = scope \<and> appr_run a = Some run_id \<and>
    (if run_id \<noteq> '''' \<and> appr_id a \<notin> seen_approval_ids st
     then \<exists>st'. auth_from_events (ses_events (self s')) = Inr st' \<and>
            dict_get (pending_approvals st') (appr_id a) = Some a \<and> approvals st' = approvals st
     else \<exists>x. \<forall>fs. auth_from_events (ses_events (self s') @ fs) = Inl x)"
proof -
  obtain s1 data e where iss: "issue_approval scope who (Some run_id) ttl s = (Inr a, s1)"
    and data: "merge_metadata [(''approval'', JObj (approval_to_dict a)), (''requested_by'', JStr who)] md = Inr data"
    and app: "append_new ''approval.requested'' (Some run_id) data s1 = (Inr e, s')"
    using run unfolding request_approval_def bindE_eq_Inr liftE_Inr by (auto simp: retE_def)
  have f: "world_only s s1" by (rule advancesD [OF advances_issue(2) iss])
  then have sync1: "synced s1" and self1: "self s1 = self s"
    using sync by (simp_all add: world_only_def synced_def)
  note e = append_new_appends [OF app sync1] and a = issue_approval_Inr [OF iss]
  have payload: "get_or_none data ''approval'' = JObj (approval_to_dict a)"
    using merge_metadata_keeps [OF data, of "''approval''"] by (simp add: get_or_def)
  have rt: "approval_from_dict (approval_to_dict a) = Inr a" by (rule approval_roundtrip) (rule a(4))
  have inv: "auth_inv st" by (rule auth_replay_inv [OF ok])
  then have sub: "resolved_approval_ids st \<subseteq> seen_approval_ids st" by (simp add: auth_inv_def)
  have log: "auth_from_events (ses_events (self s')) =
    (if run_id = '''' then Inl (invariant_violation ''Approval request run_id mismatch'')
     else if appr_id a \<in> seen_approval_ids st
     then Inl (invariant_violation (''Duplicate approval: '' @ appr_id a))
     else Inr (st\<lparr>seen_approval_ids := insert (appr_id a) (seen_approval_ids st),
                 pending_approvals := dict_set (appr_id a) a (pending_approvals st)\<rparr>))"
    using sub auth_snoc [OF ok, of e]
    by (auto simp: e self1 auth_apply_def apply_approval_requested_def payload rt bindR_def a(2))
  show ?thesis
    using a(1,2) log auth_poisoned [of "ses_events (self s')"] by (auto split: if_splits)
qed

end
