(* ===== verification/Session_Repair.thy ===== *)
theory Session_Repair
  imports Session_Theorems Session_Authorization
begin

text \<open>
  Repairing the tool calls whose execution was lost: what \<^verbatim>\<open>repair_orphan_tool_calls\<close> appends and
  what it leaves open.
\<close>

lemma lost_results:
  "tool_calls \<lparr>msg_role = User, msg_content = map lost_result cs, msg_id = i, msg_metadata = md\<rparr> = []"
  "map result_call_id (tool_results \<lparr>msg_role = User, msg_content = map lost_result cs, msg_id = i,
     msg_metadata = md\<rparr>) = map call_id cs"
  by (induction cs)
     (auto simp: tool_calls_def tool_results_def lost_result_def List.map_filter_def)

lemma absorb_message:
  assumes "is_message_event e" "decode_message '''' (ev_data e) = Inr m" "msg_id m \<noteq> ''''"
    and "is_JObj (get_or_none (ev_data e) ''message'')"
  shows "absorb_event e s = (Inr (), s\<lparr>self := (self s)\<lparr>ses_messages := ses_messages (self s) @ [m]\<rparr>\<rparr>)"
proof -
  have "decode_message_event (ev_data e) s = (decode_message '''' (ev_data e), s)" for s :: "'a env_scheme"
    by (rule decode_identified) (use assms in simp)
  with assms show ?thesis
    by (simp add: absorb_event_def bindE_def update_self_def modifyE_def)
qed

lemma encoded_is_object: "is_JObj (get_or_none (encode_message m) ''message'')"
  by (simp add: encode_message_def get_or_def)

lemma advances_new_message: "advances world_only (new_message r content md)"
  unfolding new_message_def by (intro world_frame.advances_rules advances_message_ids)

lemma repair_outcome:
  fixes s :: "'z env_scheme"
  assumes run: "repair_orphan_tool_calls rid excl s = (Inr ps, s')" and sync: "synced s"
    and pend: "find_orphan_tool_calls (ses_messages (self s)) = Inr cs"
  shows "find_orphan_tool_calls (ses_messages (self s')) = Inr (filter (\<lambda>c. call_id c \<in> excl) cs)"
    "ses_events (self s') = ses_events (self s) @ ps"
    "(ps = []) = (\<forall>c \<in> set cs. call_id c \<in> excl)"
proof -
  define orphans where "orphans = filter (\<lambda>c. call_id c \<notin> excl) cs"
  have goal: "find_orphan_tool_calls (ses_messages (self s')) = Inr (filter (\<lambda>c. call_id c \<in> excl) cs) \<and>
    ses_events (self s') = ses_events (self s) @ ps \<and> (ps = []) = (orphans = [])"
  proof (cases "orphans = []")
    case True
    then have "filter (\<lambda>c. call_id c \<in> excl) cs = cs" by (simp add: orphans_def filter_empty_conv)
    with run True pend show ?thesis
      by (simp add: repair_orphan_tool_calls_def orphan_tool_calls_def bindE_def get_self_def
          liftE_def retE_def orphans_def Let_def)
  next
    case False
    obtain m s1 e1 s2 e2 s3 where m: "new_message User (map lost_result orphans)
        [(''recovery'', JStr ''orphan_tool_calls'')] s = (Inr m, s1)"
      and e1: "new_event ''session.repaired'' (ses_id (self s1)) (Some rid)
         [(''orphan_tool_call_ids'', jstrs (map call_id orphans))] s1 = (Inr e1, s2)"
      and e2: "new_event ''tool.result'' (ses_id (self s1)) (Some rid) (encode_message m) s2 = (Inr e2, s3)"
      and app: "append_many [e1, e2] s3 = (Inr ps, s')"
      using run False pend unfolding repair_orphan_tool_calls_def Let_def bindE_eq_Inr orphan_tool_calls_def
        liftE_Inr by (auto simp: get_self_def orphans_def bindE_eq_Inr)
    have m_eq: "\<exists>i. i \<noteq> '''' \<and> m = \<lparr>msg_role = User, msg_content = map lost_result orphans,
        msg_id = i, msg_metadata = [(''recovery'', JStr ''orphan_tool_calls'')]\<rparr>"
      using m by (auto simp: new_message_def bindE_eq_Inr retE_def new_message_id_def)
    then obtain i where i: "i \<noteq> ''''" and m_def: "m = \<lparr>msg_role = User, msg_content = map lost_result orphans,
        msg_id = i, msg_metadata = [(''recovery'', JStr ''orphan_tool_calls'')]\<rparr>" by blast
    have "world_only s s1" by (rule advancesD [OF advances_new_message m])
    moreover have "world_only s1 s2" "world_only s2 s3"
      by (rule new_event_frame [OF e1], rule new_event_frame [OF e2])
    ultimately have f: "the_store s3 = the_store s" "self s3 = self s" by (simp_all add: world_only_def)
    then have sync3: "synced s3" using sync by (simp add: synced_def)
    obtain ss us and t :: "'z env_scheme" where ps: "ps = numbered (ses_head (self s3)) [e1, e2]"
      and ev: "ses_events (self ss) = ses_events (self s3) @ ps"
      and msgs: "ses_messages (self ss) = ses_messages (self s3)"
      and absorb: "mapE absorb_event ps ss = (Inr us, t)" and s': "self s' = self t"
      using append_many_Inr [OF app sync3] by blast
    define p1 p2 where "p1 = persisted e1 (ses_head (self s3) + 1)" and "p2 = persisted e2 (ses_head (self s3) + 2)"
    have ps12: "ps = [p1, p2]" by (simp add: ps numbered_Cons p1_def p2_def add.commute)
    have ty: "ev_type p1 = ''session.repaired''" "ev_type p2 = ''tool.result''" "ev_data p2 = encode_message m"
      using new_event_Inr [OF e1] new_event_Inr [OF e2] by (simp_all add: p1_def p2_def)
    have a1: "absorb_event p1 x = (Inr (), x)" for x :: "'z env_scheme"
      using ty(1) by (simp add: absorb_event_def is_message_event_def MESSAGE_EVENT_TYPES_def retE_def)
    have a2: "absorb_event p2 x = (Inr (), x\<lparr>self := (self x)\<lparr>ses_messages := ses_messages (self x) @ [m]\<rparr>\<rparr>)"
      for x :: "'z env_scheme"
    proof (rule absorb_message)
      show "decode_message '''' (ev_data p2) = Inr m"
        unfolding ty(3) by (rule decode_encode_message) (simp add: m_def i)
    qed (simp_all add: ty is_message_event_def MESSAGE_EVENT_TYPES_def encoded_is_object m_def i)
    have new: "ses_messages (self s') = ses_messages (self s) @ [m]"
      "ses_events (self s') = ses_events (self s) @ ps"
      using absorb by (auto simp: ps12 bindE_def a1 a2 retE_def s' msgs f ev)
    obtain st where st: "track_messages (ses_messages (self s)) = Inr st" and cs: "cs = map snd (pending_calls st)"
      using pend by (auto simp: find_orphan_tool_calls_def bindR_Inr_iff)
    have inv: "calls_inv st" by (rule track_inv [OF st])
    note ids = calls_inv_ids [OF inv]
    have close: "foldR close_call st (tool_results m) = Inr (st\<lparr>
      pending_calls := filter (\<lambda>p. fst p \<notin> set (map call_id orphans)) (pending_calls st),
      completed_calls := completed_calls st \<union> set (map call_id orphans)\<rparr>)"
    proof (rule close_calls [OF inv])
      show "map result_call_id (tool_results m) = map call_id orphans" by (simp add: m_def lost_results)
      show "set (map call_id orphans) \<subseteq> fst ` set (pending_calls st)"
        unfolding set_map [symmetric] ids by (auto simp: orphans_def cs)
      show "distinct (map call_id orphans)"
        using orphans_exact(2) [OF pend] by (simp add: orphans_def distinct_map inj_on_def)
    qed
    have "track_messages (ses_messages (self s')) = bindR (track_messages (ses_messages (self s))) (\<lambda>st. track_message st m)"
      by (simp add: new track_messages_def foldR_snoc)
    then have "find_orphan_tool_calls (ses_messages (self s')) = Inr (map snd
        (filter (\<lambda>p. fst p \<notin> set (map call_id orphans)) (pending_calls st)))"
      by (simp add: find_orphan_tool_calls_def st track_message_def m_def lost_results close [unfolded m_def])
    also have "map snd (filter (\<lambda>p. fst p \<notin> set (map call_id orphans)) (pending_calls st)) =
        filter (\<lambda>c. call_id c \<in> excl) cs"
      unfolding cs filter_map
    proof (rule arg_cong [where f = "map snd"], rule filter_cong [OF refl])
      fix p assume p: "p \<in> set (pending_calls st)"
      then have "call_id (snd p) = fst p" using inv by (auto simp: calls_inv_def)
      with p show "(fst p \<notin> set (map call_id orphans)) = ((\<lambda>c. call_id c \<in> excl) \<circ> snd) p"
        by (force simp: orphans_def cs)
    qed
    finally show ?thesis using new(2) False by (simp add: ps12)
  qed
  then show "find_orphan_tool_calls (ses_messages (self s')) = Inr (filter (\<lambda>c. call_id c \<in> excl) cs)"
    "ses_events (self s') = ses_events (self s) @ ps"
    "(ps = []) = (\<forall>c \<in> set cs. call_id c \<in> excl)"
    by (auto simp: orphans_def filter_empty_conv)
qed

end
