(* ===== verification/Session_Frames.thy ===== *)
theory Session_Frames
  imports Session_Facts
begin

text \<open>
  What a fork leaves alone: every log but the child's, and the parent object, however it ends. With
  this, no method of a session takes it out of step with its own log.
\<close>

definition leaves_log :: "string \<Rightarrow> 'z env_scheme \<Rightarrow> 'z env_scheme \<Rightarrow> bool" where
  "leaves_log k s s' \<longleftrightarrow> (store_wf (the_store s) \<longrightarrow> store_wf (the_store s') \<and>
     store_view (the_store s') k = store_view (the_store s) k) \<and> self s' = self s"

interpretation leaves_log: step_order "leaves_log k" for k
  by unfold_locales (auto simp: leaves_log_def)

lemma world_leaves_log: "advances world_only m \<Longrightarrow> advances (leaves_log k) m"
  by (erule advances_weaken) (simp add: world_only_def leaves_log_def)

lemma append_leaves_log: "sid \<noteq> k \<Longrightarrow> advances (leaves_log k) (on_store (store_append sid n es))"
  unfolding advances_def
proof
  fix s :: "'z env_scheme"
  assume "sid \<noteq> k"
  then show "leaves_log k s (snd (on_store (store_append sid n es) s))"
    using stores.append_ok [of "the_store s" sid n es] stores.append_fails [of "the_store s" sid n es]
    by (cases "admissible (store_view (the_store s)) sid n es")
       (auto simp: leaves_log_def on_store_def extend_log_def split: prod.split)
qed

lemma notify_leaves_log: "advances (leaves_log k) (notify_observers ks es)"
  by (simp add: advances_def leaves_log_def notify_observers_def modifyE_def)

lemma create_leaves_log:
  assumes "store_view (the_store s) k \<noteq> None"
  shows "leaves_log k s (snd (on_store (store_create now sid md parent) s))" 
    "store_wf (the_store s) \<Longrightarrow> on_store (store_create now sid md parent) s = (Inr u, s') \<Longrightarrow> sid \<noteq> k"
proof -
  have "\<exists>e. store_create now sid md parent (the_store s) = (Inl e, the_store s)"
    if "store_wf (the_store s)" "sid = k"
    by (rule stores.create_fails) (use assms that in auto)
  then show "store_wf (the_store s) \<Longrightarrow> on_store (store_create now sid md parent) s = (Inr u, s') \<Longrightarrow> sid \<noteq> k"
    by (auto simp: on_store_Inr)
  show "leaves_log k s (snd (on_store (store_create now sid md parent) s))"
    using assms stores.create_ok [of "the_store s" sid md now parent] stores.create_fails [of "the_store s" sid md now parent]
    by (cases "store_view (the_store s) sid = None \<and> json_ok_obj md")
       (auto simp: leaves_log_def on_store_def split: prod.split)
qed

lemma advances_bind_at:
  assumes "R s (snd (m s))" "\<And>x s1. m s = (Inr x, s1) \<Longrightarrow> R s1 (snd (f x s1))"
    and "\<And>a b c. R a b \<Longrightarrow> R b c \<Longrightarrow> R a c"
  shows "R s (snd (bindE m f s))"
  using assms by (auto simp: bindE_def split: prod.split sum.split)

lemma advances_at: "advances R m \<Longrightarrow> R s (snd (m s))"
  by (simp add: advances_def)

lemma create_session_leaves_log:
  fixes s :: "'z env_scheme"
  assumes k: "store_view (the_store s) k \<noteq> None" and wf: "store_wf (the_store s)"
  shows "leaves_log k s (snd (create_session sid md ob s))"
proof -
  define dmd where "dmd = (case md of None \<Rightarrow> [] | Some d \<Rightarrow> d)"
  have trans: "\<And>a b c :: 'z env_scheme. leaves_log k a b \<Longrightarrow> leaves_log k b c \<Longrightarrow> leaves_log k a c"
    by (auto simp: leaves_log_def)
  define ids :: "('z env_scheme, string) sm" where "ids =
    (case sid of Some i \<Rightarrow> if i \<noteq> '''' then retE i else new_id ''ses'' | None \<Rightarrow> new_id ''ses'')"
  have ids: "advances (leaves_log k) ids"
    unfolding ids_def by (auto intro!: leaves_log.advances_rules world_leaves_log world_advances split: option.split)
  have there: "store_view (the_store t) k \<noteq> None \<and> store_wf (the_store t)" if "leaves_log k s t" for t
    using that k wf by (simp add: leaves_log_def)
  have at: "advances (leaves_log k) m \<Longrightarrow> leaves_log k t (snd (m t))" for m :: "('z env_scheme, 'b) sm" and t
    by (simp add: advances_def)
  show ?thesis
    unfolding create_session_def dmd_def [symmetric] ids_def [symmetric] Let_def
  proof (rule advances_bind_at [OF _ _ trans], goal_cases)
    case 1
    show ?case using ids by (simp add: advances_def)
  next
    case (2 i s1)
    have s1: "leaves_log k s s1" by (rule advancesD [OF ids 2(1)])
    show ?case
    proof (rule advances_bind_at [OF _ _ trans], goal_cases)
      case 1
      show ?case by (rule advances_at [OF world_leaves_log [OF advances_utc(2)]])
    next
      case (2 now s2)
      have "leaves_log k s1 s2" by (rule advancesD [OF world_leaves_log [OF advances_utc(2)] 2(1)])
      then have s2: "leaves_log k s s2" by (rule trans [OF s1])
      note create = create_leaves_log [OF conjunct1 [OF there [OF s2]]]
      show ?case
      proof (rule advances_bind_at [OF _ _ trans], goal_cases)
        case 1
        show ?case by (rule create)
      next
        case (2 u s3)
        have "i \<noteq> k" by (rule create(2) [OF conjunct2 [OF there [OF s2]] 2(1)])
        then show ?case
          by - (rule advances_at [where R = "leaves_log k"],
             intro leaves_log.advances_rules append_leaves_log notify_leaves_log world_leaves_log
               advances_new_event)
      qed
    qed
  qed
qed

lemma on_session_append_leaves_log:
  fixes t :: "'z env_scheme"
  assumes "synced (t\<lparr>self := child\<rparr>)" and "ses_id child \<noteq> k"
  shows "leaves_log k t (snd (on_session child (append_many es) t))"
proof -
  obtain r t' where run: "append_many es (t\<lparr>self := child\<rparr>) = (r, t')"
    by (cases "append_many es (t\<lparr>self := child\<rparr>)")
  have "store_wf (the_store t') \<and> store_view (the_store t') k = store_view (the_store t) k"
    by (rule append_many_cases [OF run assms(1)])
       (use assms in \<open>auto simp: synced_def extend_log_def\<close>)
  then show ?thesis by (cases r) (simp_all add: leaves_log_def on_session_def run)
qed

text \<open>Forking leaves the parent's log and the parent alone, however it ends.\<close>

lemma bind_self: "bindE get_self f s = f (self s) s"
  by (simp add: bindE_def get_self_def)

lemma fork_leaves_log:
  fixes s :: "'z env_scheme"
  assumes k: "store_view (the_store s) k \<noteq> None" and wf: "store_wf (the_store s)"
  shows "leaves_log k s (snd (fork_session n sid ob s))"
proof -
  have trans: "\<And>a b c :: 'z env_scheme. leaves_log k a b \<Longrightarrow> leaves_log k b c \<Longrightarrow> leaves_log k a c"
    and refl: "leaves_log k s s"
    by (auto simp: leaves_log_def)
  define md where "md = Some (dict_set ''forked_at_seq'' (JInt n)
    (dict_set ''parent_session_id'' (JStr (ses_id (self s))) (ses_metadata (self s))))"
  define prefix where "prefix = fork_prefix n (ses_events (self s))"
  have child: "leaves_log k s (snd (bindE (create_session sid md ob) (\<lambda>child.
      bindE (new_event ''session.forked'' (ses_id child) None (data child)) (\<lambda>forked.
      bindE (mapE (copy_event (ses_id child)) prefix) (\<lambda>copies.
      bindE (on_session child (append_many (forked # copies))) (\<lambda>(_, child'). retE child')))) s))"
    for data :: "session \<Rightarrow> jobj"
  proof (rule advances_bind_at [OF _ _ trans], goal_cases)
    case 1
    show ?case by (rule create_session_leaves_log [OF k wf])
  next
    case (2 child s1)
    note fresh = create_session_fresh [OF 2(1) wf]
    have other: "ses_id child \<noteq> k" using fresh(7) k by auto
    show ?case
    proof (rule advances_bind_at [OF _ _ trans], goal_cases)
      case 1
      show ?case by (rule advances_at [OF world_leaves_log [OF advances_new_event]])
    next
      case (2 forked s2)
      show ?case
      proof (rule advances_bind_at [OF _ _ trans], goal_cases)
        case 1
        show ?case
          by (rule advances_at [OF world_leaves_log [OF world_frame.advances_mapE [OF advances_copy_event]]])
      next
        case (2 copies s3)
        have "world_only s1 s2" by (rule new_event_frame [OF \<open>new_event _ _ _ _ s1 = _\<close>])
        moreover have "world_only s2 s3"
          by (rule advancesD [OF world_frame.advances_mapE [OF advances_copy_event] 2(1)])
        ultimately have "synced (s3\<lparr>self := child\<rparr>)"
          using fresh(1) by (simp add: synced_def world_only_def)
        note append = on_session_append_leaves_log [OF this other]
        show ?case
        proof (rule advances_bind_at [OF _ _ trans], goal_cases)
          case 1
          show ?case by (rule append)
        qed (auto simp: retE_def leaves_log_def split: prod.split)
      qed
    qed
  qed
  show ?thesis
    using child [of "\<lambda>child. [(''parent_session_id'', JStr (ses_id (self s))), (''forked_at_seq'', JInt n),
        (''copied_event_count'', JInt (int (length prefix)))]"]
    by (simp add: fork_session_def bind_self raiseE_def Let_def md_def prefix_def refl)
qed

lemma fork_synced: "preserves synced (fork_session n sid ob)"
  unfolding preserves_def
proof (intro allI impI)
  fix s :: "'a env_scheme"
  assume sync: "synced s"
  then have "leaves_log (ses_id (self s)) s (snd (fork_session n sid ob s))"
    by (intro fork_leaves_log) (auto simp: synced_def)
  with sync show "synced (snd (fork_session n sid ob s))"
    by (simp add: leaves_log_def synced_def)
qed

text \<open>A session that agrees with its log has nothing to refresh.\<close>

lemma refresh_synced: "synced s \<Longrightarrow> refresh s = (Inr (), s)"
  using stores.get_ok [of "the_store s"]
  by (auto simp: refresh_def numeral_3_eq_3 bindE_def get_self_def on_store_def synced_def info_of_def retE_def)
end
