(* ===== verification/Tools.thy ===== *)
theory Tools
  imports Model_Types "HOL-Library.List_Lexorder" "HOL-Library.Char_ord"
begin

text \<open>
  Tool definitions, the input validation every call passes and the registry:
  \<^verbatim>\<open>aihi/agent/tools/spec.py\<close>, \<^verbatim>\<open>base.py\<close> and \<^verbatim>\<open>registry.py\<close>. What a tool does when it runs is
  code outside the harness: a tool here is its specification with two functions, its \<open>prepare\<close>
  hook (absent in a tool without one) and its body, whose results may vary from call to call.
\<close>

section \<open>Specifications\<close>

datatype idempotency_policy = IdempotencyNone | IdempotencySafe | IdempotencyKeyed

record tool_spec =
  model_definition :: model_tool_definition
  concurrency_safe :: bool
  mutates :: bool
  required_capabilities :: "string list"
  timeout_seconds :: rat
  idempotency :: idempotency_policy

definition define_tool ::
  "string \<Rightarrow> string \<Rightarrow> jobj \<Rightarrow> bool \<Rightarrow> bool \<Rightarrow> string list \<Rightarrow> rat \<Rightarrow> idempotency_policy \<Rightarrow> tool_spec" where
  "define_tool n description schema safe mutating caps timeout idem =
     \<lparr>model_definition = \<lparr>def_name = n, def_description = description, def_input_schema = schema\<rparr>,
      concurrency_safe = safe, mutates = mutating, required_capabilities = caps,
      timeout_seconds = timeout, idempotency = idem\<rparr>"

definition spec_name :: "tool_spec \<Rightarrow> string" where
  "spec_name s = def_name (model_definition s)"

definition spec_input_schema :: "tool_spec \<Rightarrow> jobj" where
  "spec_input_schema s = def_input_schema (model_definition s)"

definition spec_to_dict :: "tool_spec \<Rightarrow> jobj" where
  "spec_to_dict s = dict_merge (definition_to_dict (model_definition s))
     [(''concurrency_safe'', JBool (concurrency_safe s)),
      (''mutates'', JBool (mutates s)),
      (''required_capabilities'', jstrs (required_capabilities s)),
      (''timeout_seconds'', JFloat (timeout_seconds s))]"

section \<open>Input validation\<close>

definition tool_input_error :: "string \<Rightarrow> exn" where
  "tool_input_error m = Exn (Core ToolInputError) m"

text \<open>\<^verbatim>\<open>[str(name) for name in required if name not in value]\<close>; a list or dict is unhashable.\<close>

fun missing_fields :: "jval list \<Rightarrow> jobj \<Rightarrow> exn + string list" where
  "missing_fields [] v = Inr []"
| "missing_fields (n # ns) v =
     (if is_JArr n \<or> is_JObj n then Inl (Exn (Py TypeError) ''unhashable type'')
      else bindR (missing_fields ns v) (\<lambda>ms.
        Inr (case n of
               JStr k \<Rightarrow> if dict_get v k = None then k # ms else ms
             | _ \<Rightarrow> py_str n # ms)))"

text \<open>
  \<^verbatim>\<open>isinstance(item, python_types[name])\<close>, with \<open>None\<close> for a name the table does not have. A Python
  bool is an int.
\<close>

definition schema_instance :: "string \<Rightarrow> jval \<Rightarrow> bool option" where
  "schema_instance ty item =
     (if ty = ''string'' then Some (case item of JStr _ \<Rightarrow> True | _ \<Rightarrow> False)
      else if ty = ''integer'' then Some (case item of JInt _ \<Rightarrow> True | JBool _ \<Rightarrow> True | _ \<Rightarrow> False)
      else if ty = ''number'' then
        Some (case item of JInt _ \<Rightarrow> True | JBool _ \<Rightarrow> True | JFloat _ \<Rightarrow> True | JNonFinite \<Rightarrow> True
              | _ \<Rightarrow> False)
      else if ty = ''boolean'' then Some (case item of JBool _ \<Rightarrow> True | _ \<Rightarrow> False)
      else if ty = ''object'' then Some (is_JObj item)
      else if ty = ''array'' then Some (is_JArr item)
      else None)"

definition is_bool :: "jval \<Rightarrow> bool" where
  "is_bool item = (case item of JBool _ \<Rightarrow> True | _ \<Rightarrow> False)"

text \<open>One iteration of the loop over \<^verbatim>\<open>value.items()\<close>.\<close>

definition validate_field :: "tool_spec \<Rightarrow> jobj \<Rightarrow> string \<Rightarrow> jval \<Rightarrow> exn + unit" where
  "validate_field spec properties k item =
     (case get_or_none properties k of
        JObj defn \<Rightarrow>
          (let schema_type = py_str (get_or_none defn ''type'');
               bool_is_number = (schema_type = ''integer'' \<or> schema_type = ''number'') \<and> is_bool item
           in case schema_instance schema_type item of
                None \<Rightarrow> Inr ()
              | Some ok \<Rightarrow>
                  (if bool_is_number \<or> \<not> ok
                   then Inl (tool_input_error (''Field '' @ k @ '' for '' @ spec_name spec
                               @ '' has the wrong type''))
                   else Inr ()))
      | _ \<Rightarrow>
          (if get_or_none (spec_input_schema spec) ''additionalProperties'' = JBool False
           then Inl (tool_input_error (''Unexpected field for '' @ spec_name spec @ '': '' @ k))
           else Inr ()))"

definition validate_tool_input :: "tool_spec \<Rightarrow> jobj \<Rightarrow> exn + unit" where
  "validate_tool_input spec v =
     bindR (case get_or (spec_input_schema spec) ''required'' (JArr []) of
              JArr required \<Rightarrow>
                bindR (missing_fields required v) (\<lambda>missing.
                  if missing \<noteq> []
                  then Inl (tool_input_error (''Missing required fields for '' @ spec_name spec
                              @ '': '' @ join '', '' missing))
                  else Inr ())
            | _ \<Rightarrow> Inr ())
       (\<lambda>_. case get_or (spec_input_schema spec) ''properties'' (JObj []) of
              JObj properties \<Rightarrow> foldR (\<lambda>_ (k, item). validate_field spec properties k item) () v
            | _ \<Rightarrow> Inr ())"

section \<open>Tools and their results\<close>

record tool_execution_result =
  exec_content :: string
  exec_is_error :: bool
  exec_metadata :: jobj

record tool_context =
  ctx_session :: string
  ctx_run :: string
  ctx_app :: jval

record prepared_tool_call =
  prep_input :: jobj
  prep_execution :: jobj

text \<open>
  What a tool's \<^verbatim>\<open>prepare\<close> and \<^verbatim>\<open>run\<close> come to is the tool's own business. \<open>tool_prepare\<close> is \<open>None\<close>
  where the class has no callable \<^verbatim>\<open>prepare\<close>; its result is \<open>Inr None\<close> where it returns something
  that is not a \<^verbatim>\<open>PreparedToolCall\<close>. \<open>tool_run\<close> is given the number of external calls made so far,
  so that a tool may answer the same input differently each time; a run that exceeds its time
  limit is one that raises \<open>TimeoutError\<close>.
\<close>

record tool =
  spec_of :: tool_spec
  tool_prepare :: "(jobj \<Rightarrow> tool_context \<Rightarrow> exn + prepared_tool_call option) option"
  tool_run :: "jobj \<Rightarrow> tool_context \<Rightarrow> nat \<Rightarrow> exn + tool_execution_result"

section \<open>The registry\<close>

type_synonym tool_registry = "(string, tool) dict"

definition tool_name :: "tool \<Rightarrow> string" where
  "tool_name t = spec_name (spec_of t)"

definition register_tool :: "tool_registry \<Rightarrow> tool \<Rightarrow> exn + tool_registry" where
  "register_tool reg t =
     (if dict_get reg (tool_name t) \<noteq> None
      then Inl (Exn (Py ValueError) (''Duplicate tool: '' @ tool_name t))
      else Inr (dict_set (tool_name t) t reg))"

definition make_registry :: "tool list \<Rightarrow> exn + tool_registry" where
  "make_registry ts = foldR register_tool [] ts"

definition get_tool :: "tool_registry \<Rightarrow> string \<Rightarrow> tool option" where
  "get_tool reg k = dict_get reg k"

definition registry_specs :: "tool_registry \<Rightarrow> tool_spec list" where
  "registry_specs reg = map (\<lambda>k. spec_of (the (dict_get reg k))) (sort (map fst reg))"

section \<open>Facts about validation\<close>

text \<open>The declarative reading of the supported subset of JSON Schema.\<close>

definition field_conforms :: "jobj \<Rightarrow> jobj \<Rightarrow> string \<Rightarrow> jval \<Rightarrow> bool" where
  "field_conforms schema properties k item \<longleftrightarrow>
     (case get_or_none properties k of
        JObj defn \<Rightarrow>
          (let ty = py_str (get_or_none defn ''type'') in
           (ty \<in> {''integer'', ''number''} \<longrightarrow> \<not> is_bool item) \<and> schema_instance ty item \<noteq> Some False)
      | _ \<Rightarrow> get_or_none schema ''additionalProperties'' \<noteq> JBool False)"

definition input_conforms :: "jobj \<Rightarrow> jobj \<Rightarrow> bool" where
  "input_conforms schema v \<longleftrightarrow>
     (\<forall>required. get_or schema ''required'' (JArr []) = JArr required \<longrightarrow>
        (\<forall>n \<in> set required. \<exists>k. n = JStr k \<and> dict_get v k \<noteq> None)) \<and>
     (\<forall>properties. get_or schema ''properties'' (JObj []) = JObj properties \<longrightarrow>
        (\<forall>(k, item) \<in> set v. field_conforms schema properties k item))"

lemma missing_fields_Nil:
  "missing_fields ns v = Inr [] \<longleftrightarrow> (\<forall>n \<in> set ns. \<exists>k. n = JStr k \<and> dict_get v k \<noteq> None)"
proof (induction ns)
  case (Cons n ns)
  show ?case
  proof (cases "is_JArr n \<or> is_JObj n")
    case False
    then show ?thesis
      using Cons by (cases n) (auto simp: bindR_Inr_iff)
  qed (auto)
qed simp

lemma validate_field_ok:
  "validate_field spec properties k item = Inr () \<longleftrightarrow>
   field_conforms (spec_input_schema spec) properties k item"
proof -
  have table: "schema_instance ty item \<noteq> None" if "ty = ''integer'' \<or> ty = ''number''" for ty
    using that by (auto simp: schema_instance_def)
  show ?thesis
    using table [of "py_str (get_or_none defn ''type'')" for defn]
    by (fastforce simp: validate_field_def field_conforms_def Let_def
        split: jval.split option.split)
qed

lemma foldR_unit_ok:
  "foldR (\<lambda>_ p. f p) () xs = Inr () \<longleftrightarrow> (\<forall>p \<in> set xs. f p = Inr ())"
  by (induction xs) (auto simp: bindR_Inr_iff)

lemma registry_names:
  assumes "foldR register_tool reg ts = Inr reg'"
  shows "map fst reg' = map fst reg @ map tool_name ts"
  using assms
proof (induction ts arbitrary: reg)
  case (Cons t ts)
  then have fresh: "dict_get reg (tool_name t) = None"
    and rest: "foldR register_tool (dict_set (tool_name t) t reg) ts = Inr reg'"
    by (auto simp: register_tool_def [of reg t] bindR_Inr_iff split: if_splits)
  from fresh have "map fst (dict_set (tool_name t) t reg) = map fst reg @ [tool_name t]"
    by (simp add: dict_get_None update_keys)
  with Cons.IH [OF rest] show ?case by simp
qed simp

end
