(* ===== verification/Policy_Engine.thy ===== *)
theory Policy_Engine
  imports Leases Tools
begin

text \<open>
  The deterministic policy engine consulted before every tool execution:
  \<^verbatim>\<open>aihi/agent/policy/engine.py\<close>. The application may supply its own engine; an engine is a
  function of the tool's specification, the prepared input and the permission context that may
  read the clock, and \<open>default_evaluate\<close> is the engine of the harness.
\<close>

datatype decision_effect = Allow | Deny | Ask

primrec effect_value :: "decision_effect \<Rightarrow> string" where
  "effect_value Allow = ''allow''"
| "effect_value Deny = ''deny''"
| "effect_value Ask = ''ask''"

record permission_context =
  perm_leases :: "capability_lease list"
  perm_approvals :: "approval list"
  require_capability_lease :: bool
  perm_run :: "string option"
  perm_app :: jval

record decision =
  dec_effect :: decision_effect
  dec_reason :: string
  dec_rule :: string

definition decision_to_dict :: "decision \<Rightarrow> jobj" where
  "decision_to_dict d =
     [(''effect'', JStr (effect_value (dec_effect d))), (''reason'', JStr (dec_reason d)),
      (''rule_id'', JStr (dec_rule d))]"

type_synonym 's policy_engine = "tool_spec \<Rightarrow> jobj \<Rightarrow> permission_context \<Rightarrow> ('s, decision) sm"

definition has_capabilities :: "permission_context \<Rightarrow> string list \<Rightarrow> ('w world_scheme, bool) sm" where
  "has_capabilities c required =
     (if required = [] then retE True
      else case perm_run c of
        None \<Rightarrow> retE False
      | Some r \<Rightarrow> anyE (\<lambda>l. andE (lease_run l = r) (lease_grants_now l required)) (perm_leases c))"

definition is_approved :: "permission_context \<Rightarrow> string \<Rightarrow> ('w world_scheme, bool) sm" where
  "is_approved c scope =
     (case perm_run c of
        None \<Rightarrow> retE False
      | Some r \<Rightarrow> anyE (\<lambda>a. andE (appr_run a = Some r) (approval_covers_now a scope)) (perm_approvals c))"

definition requires_execution :: "tool_spec \<Rightarrow> bool" where
  "requires_execution spec \<longleftrightarrow> ''process.exec'' \<in> set (required_capabilities spec)"

definition make_decision :: "decision_effect \<Rightarrow> string \<Rightarrow> string \<Rightarrow> decision" where
  "make_decision eff reason rule = \<lparr>dec_effect = eff, dec_reason = reason, dec_rule = rule\<rparr>"

definition default_evaluate :: "('w world_scheme) policy_engine" where
  "default_evaluate spec inp c =
     bindE (if require_capability_lease c
            then bindE (has_capabilities c (required_capabilities spec)) (\<lambda>b. retE (\<not> b))
            else retE False) (\<lambda>lacks_lease.
     if lacks_lease then
       retE (make_decision Ask ''The tool requires an active capability lease.''
               ''capability.lease_required'')
     else
     bindE (andE (mutates spec \<or> requires_execution spec) (is_approved c (spec_name spec))) (\<lambda>granted.
     if granted then
       retE (make_decision Allow ''An active approval grant allows this privileged tool.''
               ''approval.granted'')
     else
     bindE (andE (require_capability_lease c \<and> (mutates spec \<or> requires_execution spec) \<and>
                  required_capabilities spec \<noteq> [])
             (has_capabilities c (required_capabilities spec))) (\<lambda>leased.
     if leased then
       retE (make_decision Allow ''An active capability lease allows this privileged tool.''
               ''capability.lease_granted'')
     else if requires_execution spec then
       retE (make_decision Ask ''Process execution requires explicit approval.''
               ''default.execution_requires_approval'')
     else if mutates spec then
       retE (make_decision Ask ''This tool can mutate external state and requires approval.''
               ''default.mutation_requires_approval'')
     else
       retE (make_decision Allow ''Read-only tool allowed by the default policy.''
               ''default.read_only''))))"

section \<open>What the engine reads from the clock\<close>

text \<open>\<open>w\<close> and \<open>w'\<close> differ by clock readings only, and \<open>t\<close> is one of the instants read.\<close>

definition clock_only :: "'w world_scheme \<Rightarrow> 'w world_scheme \<Rightarrow> bool" where
  "clock_only w w' \<longleftrightarrow> clock_reads w \<le> clock_reads w' \<and> w' = w\<lparr>clock_reads := clock_reads w'\<rparr>"

definition instants :: "'w world_scheme \<Rightarrow> 'w world_scheme \<Rightarrow> datetime set" where
  "instants w w' = (\<lambda>n. clock w n div 1000) ` {clock_reads w..<clock_reads w'}"

interpretation clock_order: step_order clock_only
proof unfold_locales
  fix s t u :: "'w world_scheme"
  show "clock_only s s" by (simp add: clock_only_def)
  assume "clock_only s t" "clock_only t u"
  then have "u = t\<lparr>clock_reads := clock_reads u\<rparr>" "t = s\<lparr>clock_reads := clock_reads t\<rparr>"
    and le: "clock_reads s \<le> clock_reads u"
    by (simp_all add: clock_only_def)
  then have "u = s\<lparr>clock_reads := clock_reads u\<rparr>" by (metis world.surjective world.update_convs(2))
  with le show "clock_only s u" by (simp add: clock_only_def)
qed

lemma utc_datetime_eq:
  "utc_datetime w = (Inr (clock w (clock_reads w) div 1000), w\<lparr>clock_reads := Suc (clock_reads w)\<rparr>)"
  by (simp add: utc_datetime_def time_ns_def eff_simps)

lemma advances_utc_datetime: "advances clock_only utc_datetime"
  by (simp add: advances_def utc_datetime_eq clock_only_def)

lemma instants_read: "clock w (clock_reads w) div 1000 \<in> instants w (w\<lparr>clock_reads := Suc (clock_reads w)\<rparr>)"
  by (simp add: instants_def)

lemma instants_mono:
  assumes "clock_only w w1" "clock_only w1 w2" "clock_only w2 w'"
  shows "instants w1 w2 \<subseteq> instants w w'"
proof -
  have "clock w1 = clock w" using assms(1) by (metis clock_only_def world.ext_inject world.surjective world.update_convs(2))
  then show ?thesis using assms by (auto simp: instants_def clock_only_def)
qed

lemmas clock_advances = clock_order.advances_rules advances_utc_datetime

lemma advances_lease_grants_now: "advances clock_only (lease_grants_now l req)"
  unfolding lease_grants_now_def by (intro clock_advances)

lemma advances_approval_covers_now: "advances clock_only (approval_covers_now a scope)"
  unfolding approval_covers_now_def approval_active_now_def
  by (auto intro!: clock_advances split: if_splits)

lemma advances_has_capabilities: "advances clock_only (has_capabilities c req)"
  unfolding has_capabilities_def
  by (auto intro!: clock_advances advances_lease_grants_now split: option.split)

lemma advances_is_approved: "advances clock_only (is_approved c scope)"
  unfolding is_approved_def
  by (auto intro!: clock_advances advances_approval_covers_now split: option.split)

text \<open>A search that says yes found an element that said yes, within the same stretch of readings.\<close>

lemma anyE_True:
  assumes "anyE f xs w = (Inr True, w')" and "\<And>x. advances clock_only (f x)"
  shows "\<exists>x \<in> set xs. \<exists>w1 w2. f x w1 = (Inr True, w2) \<and> clock_only w w1 \<and> clock_only w1 w2 \<and> clock_only w2 w'"
  using assms(1)
proof (induction xs arbitrary: w)
  case Nil
  then show ?case by (simp add: retE_def)
next
  case (Cons x xs)
  obtain r w1 where fx: "f x w = (r, w1)" by (cases "f x w")
  have step: "clock_only w w1" using assms(2) fx by (rule advancesD)
  show ?case
  proof (cases r)
    case (Inr b)
    show ?thesis
    proof (cases b)
      case True
      with Cons.prems fx Inr have "w' = w1" by (simp add: bindE_def retE_def)
      with fx Inr True step show ?thesis by (auto intro: clock_order.step_refl)
    next
      case False
      with Cons.prems fx Inr have "anyE f xs w1 = (Inr True, w')" by (simp add: bindE_def)
      from Cons.IH [OF this] obtain y u1 u2 where "y \<in> set xs" "f y u1 = (Inr True, u2)"
        "clock_only w1 u1" "clock_only u1 u2" "clock_only u2 w'" by blast
      moreover have "clock_only w u1" using step \<open>clock_only w1 u1\<close> by (rule clock_order.step_trans)
      ultimately show ?thesis by auto
    qed
  qed (use Cons.prems fx in \<open>simp add: bindE_def\<close>)
qed

lemma anyE_total: "(\<And>x w. \<exists>b w'. f x w = (Inr b, w')) \<Longrightarrow> \<exists>b w'. anyE f xs w = (Inr b, w')"
proof (induction xs arbitrary: w)
  case (Cons x xs)
  obtain b w1 where "f x w = (Inr b, w1)" using Cons.prems by blast
  moreover obtain b1 w2 where "anyE f xs w1 = (Inr b1, w2)" using Cons.IH [OF Cons.prems] by blast
  ultimately have "anyE f (x # xs) w = (if b then (Inr True, w1) else (Inr b1, w2))"
    by (simp add: bindE_def retE_def)
  then show ?case by (cases b) auto
qed (auto simp: retE_def intro: exI [of _ False])

lemma has_capabilities_total: "\<exists>b w'. has_capabilities c req w = (Inr b, w')"
  by (auto simp: has_capabilities_def eff_simps andE_def lease_grants_now_def utc_datetime_eq
      split: option.split intro!: anyE_total)

lemma is_approved_total: "\<exists>b w'. is_approved c scope w = (Inr b, w')"
  by (auto simp: is_approved_def eff_simps andE_def approval_covers_now_def approval_active_now_def
      utc_datetime_eq split: option.split intro!: anyE_total)

text \<open>
  \<open>lease_evidence\<close>: a lease of the context's run that was active at an instant read between \<open>w\<close> and
  \<open>w'\<close> and holds every capability. \<open>approval_evidence\<close>: a grant of the context's run that covers
  the tool and had not expired.
\<close>

definition lease_evidence ::
  "permission_context \<Rightarrow> string list \<Rightarrow> 'w world_scheme \<Rightarrow> 'w world_scheme \<Rightarrow> bool" where
  "lease_evidence c req w w' \<longleftrightarrow>
     (\<exists>l \<in> set (perm_leases c). perm_run c = Some (lease_run l) \<and>
        (\<exists>t \<in> instants w w'. lease_grants t l req))"

definition approval_evidence ::
  "permission_context \<Rightarrow> string \<Rightarrow> 'w world_scheme \<Rightarrow> 'w world_scheme \<Rightarrow> bool" where
  "approval_evidence c scope w w' \<longleftrightarrow>
     (\<exists>a \<in> set (perm_approvals c). perm_run c = appr_run a \<and> appr_run a \<noteq> None \<and>
        (\<exists>t. (appr_expires a = None \<or> t \<in> instants w w') \<and> approval_covers t a scope))"

lemma evidence_mono:
  assumes "clock_only w w1" "clock_only w1 w2" "clock_only w2 w'"
  shows "lease_evidence c req w1 w2 \<Longrightarrow> lease_evidence c req w w'"
    and "approval_evidence c scope w1 w2 \<Longrightarrow> approval_evidence c scope w w'"
  using instants_mono [OF assms] by (fastforce simp: lease_evidence_def approval_evidence_def)+

lemma has_capabilities_evidence:
  assumes "has_capabilities c req w = (Inr True, w')"
  shows "req = [] \<or> lease_evidence c req w w'"
proof (cases "req = []")
  case False
  with assms obtain r where r: "perm_run c = Some r"
    and any: "anyE (\<lambda>l. andE (lease_run l = r) (lease_grants_now l req)) (perm_leases c) w = (Inr True, w')"
    by (auto simp: has_capabilities_def retE_def split: option.splits)
  obtain l w1 w2 where l: "l \<in> set (perm_leases c)"
    "andE (lease_run l = r) (lease_grants_now l req) w1 = (Inr True, w2)"
    and c: "clock_only w w1" "clock_only w1 w2" "clock_only w2 w'"
    using anyE_True [OF any] by (auto intro: clock_order.advances_andE advances_lease_grants_now)
  then have "lease_evidence c req w1 w2"
    using instants_read [of w1]
    by (auto simp: lease_evidence_def r andE_def lease_grants_now_def utc_datetime_eq eff_simps
        split: if_splits)
  then show ?thesis using evidence_mono(1) [OF c] by blast
qed simp

lemma is_approved_evidence:
  assumes "is_approved c scope w = (Inr True, w')"
  shows "approval_evidence c scope w w'"
proof -
  from assms obtain r where r: "perm_run c = Some r"
    and any: "anyE (\<lambda>a. andE (appr_run a = Some r) (approval_covers_now a scope)) (perm_approvals c) w = (Inr True, w')"
    by (auto simp: is_approved_def retE_def split: option.splits)
  obtain a w1 w2 where a: "a \<in> set (perm_approvals c)"
    "andE (appr_run a = Some r) (approval_covers_now a scope) w1 = (Inr True, w2)"
    and c: "clock_only w w1" "clock_only w1 w2" "clock_only w2 w'"
    using anyE_True [OF any] by (auto intro: clock_order.advances_andE advances_approval_covers_now)
  then have run: "appr_run a = Some r" and covers: "approval_covers_now a scope w1 = (Inr True, w2)"
    by (auto simp: andE_def retE_def split: if_splits)
  have "\<exists>t. (appr_expires a = None \<or> t \<in> instants w1 w2) \<and> approval_covers t a scope"
  proof (cases "appr_expires a")
    case None
    then show ?thesis using covers
      by (auto simp: approval_covers_now_def approval_active_now_def approval_covers_def
          approval_active_def eff_simps)
  next
    case (Some y)
    then show ?thesis using covers instants_read [of w1]
      by (auto simp: approval_covers_now_def approval_active_now_def approval_covers_def
          utc_datetime_eq eff_simps)
  qed
  with run a(1) have "approval_evidence c scope w1 w2"
    by (auto simp: approval_evidence_def r intro!: bexI [of _ a])
  then show ?thesis using evidence_mono(2) [OF c] by blast
qed

section \<open>The default engine\<close>

definition privileged :: "tool_spec \<Rightarrow> bool" where
  "privileged spec \<longleftrightarrow> mutates spec \<or> requires_execution spec"

text \<open>The engine at one instant, as a table over what the context holds.\<close>

definition holds_capabilities :: "datetime \<Rightarrow> permission_context \<Rightarrow> string list \<Rightarrow> bool" where
  "holds_capabilities now c req \<longleftrightarrow>
     req = [] \<or> (\<exists>l \<in> set (perm_leases c). perm_run c = Some (lease_run l) \<and> lease_grants now l req)"

definition holds_approval :: "datetime \<Rightarrow> permission_context \<Rightarrow> string \<Rightarrow> bool" where
  "holds_approval now c scope \<longleftrightarrow>
     perm_run c \<noteq> None \<and>
     (\<exists>a \<in> set (perm_approvals c). appr_run a = perm_run c \<and> approval_covers now a scope)"

definition decision_table :: "datetime \<Rightarrow> tool_spec \<Rightarrow> permission_context \<Rightarrow> decision_effect \<times> string" where
  "decision_table now spec c =
     (let caps = required_capabilities spec; leased = holds_capabilities now c caps;
          approved = holds_approval now c (spec_name spec); strict = require_capability_lease c in
      if strict \<and> \<not> leased then (Ask, ''capability.lease_required'')
      else if \<not> privileged spec then (Allow, ''default.read_only'')
      else if approved then (Allow, ''approval.granted'')
      else if strict \<and> caps \<noteq> [] then (Allow, ''capability.lease_granted'')
      else if requires_execution spec then (Ask, ''default.execution_requires_approval'')
      else (Ask, ''default.mutation_requires_approval''))"

definition stopped_clock :: "datetime \<Rightarrow> 'w world_scheme \<Rightarrow> bool" where
  "stopped_clock now w \<longleftrightarrow> (\<forall>n. clock w n div 1000 = now)"

lemma anyE_stopped:
  assumes "stopped_clock now w"
    and "\<And>x w. x \<in> set xs \<Longrightarrow> stopped_clock now w \<Longrightarrow> \<exists>w'. f x w = (Inr (p x), w') \<and> stopped_clock now w'"
  shows "\<exists>w'. anyE f xs w = (Inr (\<exists>x \<in> set xs. p x), w') \<and> stopped_clock now w'"
  using assms
proof (induction xs arbitrary: w)
  case (Cons x xs)
  obtain w1 where w1: "f x w = (Inr (p x), w1)" "stopped_clock now w1" using Cons.prems by fastforce
  moreover obtain w2 where "anyE f xs w1 = (Inr (\<exists>x \<in> set xs. p x), w2)" "stopped_clock now w2"
    using Cons.IH [OF w1(2)] Cons.prems(2) by fastforce
  ultimately show ?case by (cases "p x") (auto simp: bindE_def retE_def)
qed (simp add: retE_def)

lemma has_capabilities_stopped:
  assumes "stopped_clock now w"
  shows "\<exists>w'. has_capabilities c req w = (Inr (holds_capabilities now c req), w') \<and> stopped_clock now w'"
proof (cases "req = [] \<or> perm_run c = None")
  case True
  then show ?thesis using assms by (auto simp: has_capabilities_def holds_capabilities_def retE_def)
next
  case False
  then obtain r where r: "perm_run c = Some r" "req \<noteq> []" by auto
  have eq: "holds_capabilities now c req = (\<exists>l \<in> set (perm_leases c). lease_run l = r \<and> lease_grants now l req)"
    using r by (auto simp: holds_capabilities_def)
  show ?thesis
    unfolding has_capabilities_def eq using r assms
    by (simp, intro anyE_stopped)
      (auto simp: andE_def retE_def lease_grants_now_def bindE_def utc_datetime_eq stopped_clock_def)
qed

lemma is_approved_stopped:
  assumes "stopped_clock now w"
  shows "\<exists>w'. is_approved c scope w = (Inr (holds_approval now c scope), w') \<and> stopped_clock now w'"
proof (cases "perm_run c")
  case None
  then show ?thesis using assms by (auto simp: is_approved_def holds_approval_def retE_def)
next
  case (Some r)
  have eq: "holds_approval now c scope =
      (\<exists>a \<in> set (perm_approvals c). appr_run a = Some r \<and> approval_covers now a scope)"
    using Some by (auto simp: holds_approval_def)
  show ?thesis
    unfolding is_approved_def eq using Some assms
    by (simp, intro anyE_stopped)
      (auto simp: andE_def retE_def approval_covers_now_def approval_active_now_def bindE_def
        utc_datetime_eq stopped_clock_def approval_covers_def approval_active_def)
qed

lemma andE_stopped:
  assumes "stopped_clock now w" and "\<exists>w'. m w = (Inr p, w') \<and> stopped_clock now w'"
  obtains w' where "andE b m w = (Inr (b \<and> p), w')" "stopped_clock now w'"
  using assms by (cases b) (auto simp: andE_def retE_def)

lemma andE_total:
  assumes "\<exists>p w'. m w = (Inr p, w')"
  obtains p w' where "andE b m w = (Inr p, w')"
  using assms by (cases b) (auto simp: andE_def retE_def)

text \<open>The three questions the engine asks, in order, and what it makes of the answers.\<close>

definition ask_lacking :: "tool_spec \<Rightarrow> permission_context \<Rightarrow> ('w world_scheme, bool) sm" where
  "ask_lacking spec c =
     (if require_capability_lease c
      then bindE (has_capabilities c (required_capabilities spec)) (\<lambda>b. retE (\<not> b))
      else retE False)"

definition ask_granted :: "tool_spec \<Rightarrow> permission_context \<Rightarrow> ('w world_scheme, bool) sm" where
  "ask_granted spec c = andE (privileged spec) (is_approved c (spec_name spec))"

definition ask_leased :: "tool_spec \<Rightarrow> permission_context \<Rightarrow> ('w world_scheme, bool) sm" where
  "ask_leased spec c =
     andE (require_capability_lease c \<and> privileged spec \<and> required_capabilities spec \<noteq> [])
       (has_capabilities c (required_capabilities spec))"

lemma default_evaluate_answers:
  assumes "ask_lacking spec c w = (Inr b1, w1)" "ask_granted spec c w1 = (Inr b2, w2)"
    "ask_leased spec c w2 = (Inr b3, w3)"
  shows "\<exists>reason. default_evaluate spec inp c w =
    (if b1 then (Inr (make_decision Ask reason ''capability.lease_required''), w1)
     else if b2 then (Inr (make_decision Allow reason ''approval.granted''), w2)
     else if b3 then (Inr (make_decision Allow reason ''capability.lease_granted''), w3)
     else if requires_execution spec
     then (Inr (make_decision Ask reason ''default.execution_requires_approval''), w3)
     else if mutates spec
     then (Inr (make_decision Ask reason ''default.mutation_requires_approval''), w3)
     else (Inr (make_decision Allow reason ''default.read_only''), w3))"
  unfolding default_evaluate_def ask_lacking_def [symmetric] privileged_def [symmetric]
    ask_granted_def [symmetric] ask_leased_def [symmetric]
    bindE_Inr [where m = "ask_lacking spec c", OF assms(1)]
  by (cases b1; cases b2; cases b3; cases "requires_execution spec"; cases "mutates spec")
    (auto simp: retE_def bindE_Inr [where m = "ask_granted spec c", OF assms(2)]
      bindE_Inr [where m = "ask_leased spec c", OF assms(3)])

lemma asks_stopped:
  fixes spec :: tool_spec and c :: permission_context
  assumes "stopped_clock now w"
  defines "leased \<equiv> holds_capabilities now c (required_capabilities spec)"
    and "approved \<equiv> holds_approval now c (spec_name spec)"
  obtains w1 w2 w3
  where "ask_lacking spec c w = (Inr (require_capability_lease c \<and> \<not> leased), w1)"
    "ask_granted spec c w1 = (Inr (privileged spec \<and> approved), w2)"
    "ask_leased spec c w2 = (Inr ((require_capability_lease c \<and> privileged spec \<and>
        required_capabilities spec \<noteq> []) \<and> leased), w3)"
proof -
  obtain w1 where w1: "ask_lacking spec c w = (Inr (require_capability_lease c \<and> \<not> leased), w1)"
    "stopped_clock now w1"
    using has_capabilities_stopped [OF assms(1), of c "required_capabilities spec"] assms(1)
    by (cases "require_capability_lease c") (auto simp: ask_lacking_def bindE_def retE_def leased_def)
  obtain w2 where w2: "ask_granted spec c w1 = (Inr (privileged spec \<and> approved), w2)"
    "stopped_clock now w2"
    using andE_stopped [OF w1(2), where m = "is_approved c (spec_name spec)",
        OF is_approved_stopped [OF w1(2)]] unfolding ask_granted_def approved_def by blast
  obtain w3 where "ask_leased spec c w2 = (Inr ((require_capability_lease c \<and> privileged spec \<and>
        required_capabilities spec \<noteq> []) \<and> leased), w3)"
    using andE_stopped [OF w2(2), where m = "has_capabilities c (required_capabilities spec)",
        OF has_capabilities_stopped [OF w2(2)]] unfolding ask_leased_def leased_def by blast
  with w1 w2 that show thesis by blast
qed

lemma default_evaluate_stopped:
  assumes "stopped_clock now w"
  shows "\<exists>d w'. default_evaluate spec inp c w = (Inr d, w') \<and>
    (dec_effect d, dec_rule d) = decision_table now spec c"
proof (rule asks_stopped [OF assms, of spec c])
  fix w1 w2 w3
  assume a: "ask_lacking spec c w = (Inr (require_capability_lease c \<and>
      \<not> holds_capabilities now c (required_capabilities spec)), w1)"
    "ask_granted spec c w1 = (Inr (privileged spec \<and> holds_approval now c (spec_name spec)), w2)"
    "ask_leased spec c w2 = (Inr ((require_capability_lease c \<and> privileged spec \<and>
        required_capabilities spec \<noteq> []) \<and> holds_capabilities now c (required_capabilities spec)), w3)"
  from default_evaluate_answers [OF a, of inp] show ?thesis
    by (auto simp: make_decision_def decision_table_def Let_def privileged_def split: if_splits)
qed

lemma default_evaluate_allow:
  assumes "default_evaluate spec inp c w = (Inr d, w')" and "dec_effect d = Allow"
  shows "(require_capability_lease c \<longrightarrow>
            required_capabilities spec = [] \<or> lease_evidence c (required_capabilities spec) w w') \<and>
         (privileged spec \<longrightarrow> approval_evidence c (spec_name spec) w w' \<or>
            (require_capability_lease c \<and> lease_evidence c (required_capabilities spec) w w'))"
proof -
  define caps where "caps = required_capabilities spec"
  obtain b1 w1 where b1: "ask_lacking spec c w = (Inr b1, w1)"
    using has_capabilities_total [of c caps w]
    by (cases "require_capability_lease c") (auto simp: ask_lacking_def caps_def bindE_def retE_def)
  obtain b2 w2 where b2: "ask_granted spec c w1 = (Inr b2, w2)"
    using andE_total [where m = "is_approved c (spec_name spec)", OF is_approved_total]
    unfolding ask_granted_def by blast
  obtain b3 w3 where b3: "ask_leased spec c w2 = (Inr b3, w3)"
    using andE_total [where m = "has_capabilities c (required_capabilities spec)", OF has_capabilities_total]
    unfolding ask_leased_def by blast
  have "advances clock_only (ask_lacking spec c)" "advances clock_only (ask_granted spec c)"
    "advances clock_only (ask_leased spec c)"
    by (simp_all add: ask_lacking_def ask_granted_def ask_leased_def clock_advances
        advances_has_capabilities advances_is_approved)
  then have s1: "clock_only w w1" and s2: "clock_only w1 w2" and s3: "clock_only w2 w3"
    using b1 b2 b3 by (metis advancesD)+
  have run: "\<not> b1 \<and> ((b2 \<and> w' = w2) \<or> (w' = w3 \<and> (b3 \<or> \<not> privileged spec)))"
    using assms default_evaluate_answers [OF b1 b2 b3, of inp]
    by (auto simp: make_decision_def privileged_def split: if_splits)
  then have end_state: "clock_only w1 w'" using s2 s3 clock_order.step_trans by blast
  have leased: "caps = [] \<or> lease_evidence c caps w w'" if "require_capability_lease c"
  proof -
    from b1 run that have "has_capabilities c caps w = (Inr True, w1)"
      by (auto simp: ask_lacking_def caps_def bindE_eq_Inr retE_def)
    then show ?thesis
      using has_capabilities_evidence evidence_mono(1) [OF clock_order.step_refl s1 end_state] by blast
  qed
  have "approval_evidence c (spec_name spec) w w' \<or> (require_capability_lease c \<and> lease_evidence c caps w w')"
    if p: "privileged spec"
  proof (cases b2)
    case True
    with b2 p have "approval_evidence c (spec_name spec) w1 w2"
      by (auto simp: ask_granted_def andE_def intro!: is_approved_evidence)
    moreover have "clock_only w2 w'" using run s3 clock_order.step_refl by metis
    ultimately show ?thesis using evidence_mono(2) [OF s1 s2] by blast
  next
    case False
    with run p have "b3" by auto
    with b3 have "require_capability_lease c" "caps \<noteq> []"
      by (auto simp: ask_leased_def caps_def andE_def retE_def split: if_splits)
    with leased show ?thesis by blast
  qed
  with leased show ?thesis by (simp add: caps_def)
qed

end
