(* ===== verification/Approvals.thy ===== *)
theory Approvals
  imports Tools
begin

text \<open>
  The approval boundary: the redacted preview stored with a request, the request itself, the
  outcomes a resolver may give and the two resolvers of the harness
  (\<^verbatim>\<open>aihi/agent/policy/approvals.py\<close>).

  Text is Latin-1 here, as in the rest of the development. The two regular expressions of the
  source are written out as searches over a list of words; matching ignores case.
\<close>

section \<open>The regular expressions\<close>

definition lower_char :: "char \<Rightarrow> char" where
  "lower_char c = (let k = of_char c :: nat in if 65 \<le> k \<and> k \<le> 90 then char_of (k + 32) else c)"

text \<open>\<^verbatim>\<open>\w\<close> on Latin-1 text.\<close>

definition is_word_char :: "char \<Rightarrow> bool" where
  "is_word_char c = (let k = of_char c :: nat in
     48 \<le> k \<and> k \<le> 57 \<or> 65 \<le> k \<and> k \<le> 90 \<or> 97 \<le> k \<and> k \<le> 122 \<or> k = 95 \<or> k = 170 \<or>
     k = 178 \<or> k = 179 \<or> k = 181 \<or> k = 185 \<or> k = 186 \<or> 188 \<le> k \<and> k \<le> 190 \<or>
     192 \<le> k \<and> k \<le> 214 \<or> 216 \<le> k \<and> k \<le> 246 \<or> 248 \<le> k)"

text \<open>The rest of \<open>s\<close> after the word \<open>w\<close>, if \<open>s\<close> starts with it.\<close>

fun strip_word :: "string \<Rightarrow> string \<Rightarrow> string option" where
  "strip_word [] s = Some s"
| "strip_word (w # ws) [] = None"
| "strip_word (w # ws) (c # s) = (if lower_char c = w then strip_word ws s else None)"

definition is_dash :: "char \<Rightarrow> bool" where
  "is_dash c \<longleftrightarrow> c = CHR ''_'' \<or> c = CHR ''-''"

definition sensitive_key_words :: "string list" where
  "sensitive_key_words =
     [''api_key'', ''api-key'', ''apikey'', ''authorization'', ''cookie'', ''password'', ''passwd'',
      ''private_key'', ''private-key'', ''privatekey'', ''secret'', ''token'']"

text \<open>\<^verbatim>\<open>(?:$|[_-])\<close>: the end of the text, the last newline, or a dash.\<close>

definition at_word_end :: "string \<Rightarrow> bool" where
  "at_word_end rest \<longleftrightarrow> (case rest of [] \<Rightarrow> True | c # cs \<Rightarrow> is_dash c \<or> (c = CHR 0x0A \<and> cs = []))"

definition key_word_here :: "string \<Rightarrow> bool" where
  "key_word_here s \<longleftrightarrow>
     (\<exists>w \<in> set sensitive_key_words. case strip_word w s of None \<Rightarrow> False | Some rest \<Rightarrow> at_word_end rest)"

text \<open>\<^verbatim>\<open>_SENSITIVE_INPUT_KEY.search(key)\<close>: a word at the start or after a dash.\<close>

fun key_word_after_dash :: "string \<Rightarrow> bool" where
  "key_word_after_dash [] = False"
| "key_word_after_dash (c # s) = ((is_dash c \<and> key_word_here s) \<or> key_word_after_dash s)"

definition sensitive_key :: "string \<Rightarrow> bool" where
  "sensitive_key k \<longleftrightarrow> key_word_here k \<or> key_word_after_dash k"

definition sensitive_command_words :: "string list" where
  "sensitive_command_words =
     [''api_key'', ''api-key'', ''apikey'', ''password'', ''passwd'', ''secret'', ''token'']"

text \<open>
  \<^verbatim>\<open>_SENSITIVE_COMMAND_VALUE\<close> at one position: the word, spaces, \<^verbatim>\<open>=\<close> or \<^verbatim>\<open>:\<close>, spaces, and a value
  without spaces. The result is the length of group 1 and the text after the value.
\<close>

definition command_value_after :: "string \<Rightarrow> (string \<times> string) option" where
  "command_value_after rest =
     (let sp1 = takeWhile is_space rest; r1 = dropWhile is_space rest in
      case r1 of
        [] \<Rightarrow> None
      | c # r2 \<Rightarrow>
          (if c \<noteq> CHR ''='' \<and> c \<noteq> CHR '':'' then None
           else let sp2 = takeWhile is_space r2; r3 = dropWhile is_space r2 in
             (if r3 = [] then None
              else Some (sp1 @ c # sp2, dropWhile (\<lambda>x. \<not> is_space x) r3))))"

definition word_boundary :: "bool \<Rightarrow> string \<Rightarrow> bool" where
  "word_boundary prev_is_word s \<longleftrightarrow> (prev_is_word \<noteq> (case s of [] \<Rightarrow> False | c # _ \<Rightarrow> is_word_char c))"

fun first_command_match :: "string list \<Rightarrow> string \<Rightarrow> (string \<times> string) option" where
  "first_command_match [] s = None"
| "first_command_match (w # ws) s =
     (case (case strip_word w s of
              None \<Rightarrow> None
            | Some rest \<Rightarrow>
                (if word_boundary True rest
                 then map_option (\<lambda>(g, r). (take (length w) s @ g, r)) (command_value_after rest)
                 else None)) of
        Some m \<Rightarrow> Some m
      | None \<Rightarrow> first_command_match ws s)"

lemma strip_word_length: "strip_word w s = Some rest \<Longrightarrow> length s = length w + length rest"
  by (induction w s rule: strip_word.induct) (auto split: if_splits)

lemma command_value_after_length: "command_value_after rest = Some (g, r) \<Longrightarrow> length r < length rest"
proof -
  assume a: "command_value_after rest = Some (g, r)"
  let ?r1 = "dropWhile is_space rest"
  obtain c r2 where r1: "?r1 = c # r2" and r: "r = dropWhile (\<lambda>x. \<not> is_space x) (dropWhile is_space r2)"
    using a by (auto simp: command_value_after_def Let_def split: list.splits if_splits)
  have "length r \<le> length (dropWhile is_space r2)" unfolding r by (rule length_dropWhile_le)
  also have "\<dots> \<le> length r2" by (rule length_dropWhile_le)
  also have "\<dots> < length ?r1" using r1 by simp
  also have "\<dots> \<le> length rest" by (rule length_dropWhile_le)
  finally show ?thesis .
qed

lemma first_command_match_length:
  "first_command_match ws s = Some (g, r) \<Longrightarrow> length r < length s"
  by (induction ws)
    (fastforce split: option.splits if_splits dest: strip_word_length command_value_after_length)+

text \<open>
  \<^verbatim>\<open>_SENSITIVE_COMMAND_VALUE.sub(r"\1<redacted>", value)\<close>: leftmost matches, left to right;
  \<open>prev\<close> tells whether the character before is a word character.
\<close>

function redact_commands :: "bool \<Rightarrow> string \<Rightarrow> string" where
  "redact_commands prev [] = []"
| "redact_commands prev (c # s) =
     (case (if word_boundary prev (c # s) then first_command_match sensitive_command_words (c # s) else None) of
        Some (g, r) \<Rightarrow> g @ ''<redacted>'' @ redact_commands True r
      | None \<Rightarrow> c # redact_commands (is_word_char c) s)"
  by pat_completeness auto
termination
  by (relation "measure (\<lambda>(p, s). length s)")
    (auto dest: first_command_match_length split: if_splits)

section \<open>The preview\<close>

definition APPROVAL_PREVIEW_STRING_LIMIT :: nat where
  "APPROVAL_PREVIEW_STRING_LIMIT = 8192"

text \<open>The one character of the source outside Latin-1, U+2026, written as its UTF-8 bytes.\<close>

definition ellipsis :: string where
  "ellipsis = [CHR 0xE2, CHR 0x80, CHR 0xA6]"

definition preview_text :: "string \<Rightarrow> string" where
  "preview_text s =
     (let redacted = redact_commands False s in
      if length redacted > APPROVAL_PREVIEW_STRING_LIMIT
      then take APPROVAL_PREVIEW_STRING_LIMIT redacted @ [CHR 0x0A] @ ellipsis @ '' <''
             @ show_nat (length redacted - APPROVAL_PREVIEW_STRING_LIMIT) @ '' chars omitted>''
      else redacted)"

text \<open>
  The loop over \<^verbatim>\<open>value.items()\<close> in \<^verbatim>\<open>_preview_value\<close>, for what \<open>f\<close> makes of a key and its value:
  the first hundred fields, then one field that counts the others.
\<close>

definition preview_fields :: "(string \<Rightarrow> jval \<Rightarrow> jval) \<Rightarrow> jobj \<Rightarrow> jobj" where
  "preview_fields f d =
     (let shown = foldl (\<lambda>acc (k, v). dict_set k (f k v) acc) [] (take 100 d) in
      if length d > 100
      then dict_set ''<omitted>'' (JStr (show_nat (length d - 100) @ '' additional fields'')) shown
      else shown)"

text \<open>
  \<^verbatim>\<open>_preview_value\<close>; \<open>fuel\<close> is the nesting that is left, \<open>8 - depth\<close>, so \<open>fuel = 0\<close> is the test
  \<^verbatim>\<open>depth >= 8\<close>.
\<close>

definition key_is_sensitive :: "string option \<Rightarrow> bool" where
  "key_is_sensitive key \<longleftrightarrow> (case key of None \<Rightarrow> False | Some k \<Rightarrow> sensitive_key k)"

primrec preview_value :: "nat \<Rightarrow> string option \<Rightarrow> jval \<Rightarrow> jval" where
  "preview_value 0 key v =
     (if key_is_sensitive key then JStr ''<redacted>''
      else JStr ''<preview omitted: nesting limit>'')"
| "preview_value (Suc n) key v =
     (if key_is_sensitive key then JStr ''<redacted>''
      else case v of
        JObj d \<Rightarrow> JObj (preview_fields (\<lambda>k x. preview_value n (Some k) x) d)
      | JArr xs \<Rightarrow>
          JArr (map (preview_value n None) (take 100 xs) @
            (if length xs > 100
             then [JStr (''<'' @ show_nat (length xs - 100) @ '' additional items omitted>'')]
             else []))
      | JStr s \<Rightarrow> JStr (preview_text s)
      | _ \<Rightarrow> v)"

definition approval_input_preview :: "jobj \<Rightarrow> jobj" where
  "approval_input_preview v =
     (case preview_value 8 None (JObj v) of JObj d \<Rightarrow> d | _ \<Rightarrow> [])"

section \<open>Outcomes, requests and resolvers\<close>

datatype approval_outcome = Granted | GrantedOnce | Denied | Deferred

primrec outcome_value :: "approval_outcome \<Rightarrow> string" where
  "outcome_value Granted = ''granted''"
| "outcome_value GrantedOnce = ''granted_once''"
| "outcome_value Denied = ''denied''"
| "outcome_value Deferred = ''deferred''"

definition is_grant :: "approval_outcome \<Rightarrow> bool" where
  "is_grant x \<longleftrightarrow> x \<in> {Granted, GrantedOnce}"

record approval_request =
  request_approval_id :: string
  request_session :: string
  request_run :: string
  request_tool_call :: string
  request_tool :: string
  request_input :: jobj
  request_reason :: string
  request_rule :: string
  request_capabilities :: "string list"
  request_execution :: jobj

definition approval_request_to_dict :: "approval_request \<Rightarrow> jobj" where
  "approval_request_to_dict r =
     [(''approval_id'', JStr (request_approval_id r)),
      (''session_id'', JStr (request_session r)),
      (''run_id'', JStr (request_run r)),
      (''tool_call_id'', JStr (request_tool_call r)),
      (''tool_name'', JStr (request_tool r)),
      (''tool_input'', JObj (request_input r)),
      (''reason'', JStr (request_reason r)),
      (''rule_id'', JStr (request_rule r)),
      (''required_capabilities'', jstrs (request_capabilities r)),
      (''execution'', JObj (request_execution r))]"

text \<open>
  A resolver answers a request, or raises; an answer may differ from call to call, so it is given
  the number of external calls made so far. \<open>resolver_name\<close> is \<open>None\<close> where the object has no text
  \<^verbatim>\<open>resolver_id\<close>, \<open>resolver_class\<close> is \<^verbatim>\<open>type(resolver).__name__\<close>.
\<close>

record approval_resolver =
  resolver_name :: "string option"
  resolver_class :: string
  resolve :: "approval_request \<Rightarrow> nat \<Rightarrow> exn + approval_outcome"

definition suspending_resolver :: approval_resolver where
  "suspending_resolver =
     \<lparr>resolver_name = Some ''suspending'', resolver_class = ''SuspendingApprovalResolver'',
      resolve = (\<lambda>r n. Inr Deferred)\<rparr>"

definition static_resolver :: "approval_outcome \<Rightarrow> string \<Rightarrow> approval_resolver" where
  "static_resolver outcome name =
     \<lparr>resolver_name = Some name, resolver_class = ''StaticApprovalResolver'',
      resolve = (\<lambda>r n. Inr outcome)\<rparr>"

definition resolver_id :: "approval_resolver \<Rightarrow> string" where
  "resolver_id r =
     (case resolver_name r of
        Some i \<Rightarrow> if i \<noteq> '''' then i else resolver_class r
      | None \<Rightarrow> resolver_class r)"

section \<open>What a preview shows\<close>

text \<open>\<open>hides_secrets v\<close>: at every depth of \<open>v\<close>, a field with a sensitive name holds only the mark.\<close>

primrec hides_secrets :: "jval \<Rightarrow> bool" where
  "hides_secrets JNull = True"
| "hides_secrets (JBool b) = True"
| "hides_secrets (JInt i) = True"
| "hides_secrets (JFloat r) = True"
| "hides_secrets JNonFinite = True"
| "hides_secrets (JStr s) = True"
| "hides_secrets (JArr xs) = list_all id (map hides_secrets xs)"
| "hides_secrets (JObj d) =
     (list_all snd (map (map_prod id hides_secrets) d) \<and>
      (\<forall>(k, v) \<in> set d. sensitive_key k \<longrightarrow> v = JStr ''<redacted>''))"
| "hides_secrets (JForeign n) = True"

lemma hides_secrets_JObj:
  "hides_secrets (JObj d) \<longleftrightarrow>
     (\<forall>(k, v) \<in> set d. hides_secrets v \<and> (sensitive_key k \<longrightarrow> v = JStr ''<redacted>''))"
  by (auto simp: list_all_iff)

lemma foldl_dict_set_mem:
  "(k, v) \<in> set (foldl (\<lambda>acc (k, v). dict_set k (f k v) acc) acc d) \<Longrightarrow>
   (k, v) \<in> set acc \<or> (\<exists>x. (k, x) \<in> set d \<and> v = f k x)"
proof (induction d arbitrary: acc)
  case (Cons p d)
  obtain k' x' where p: "p = (k', x')" by (cases p)
  from Cons.prems have "(k, v) \<in> set (foldl (\<lambda>acc (k, v). dict_set k (f k v) acc) (dict_set k' (f k' x') acc) d)"
    by (simp add: p)
  then have "(k, v) \<in> set (dict_set k' (f k' x') acc) \<or> (\<exists>x. (k, x) \<in> set d \<and> v = f k x)"
    by (rule Cons.IH)
  moreover have "(k, v) \<in> set (dict_set k' (f k' x') acc) \<Longrightarrow> (k, v) \<in> set acc \<or> (k = k' \<and> v = f k' x')"
    by (induction acc) (auto split: if_splits)
  ultimately show ?case by (auto simp: p)
qed simp

lemma preview_fields_mem:
  assumes "(k, v) \<in> set (preview_fields f d)"
  shows "(\<exists>x. v = f k x) \<or> (k = ''<omitted>'' \<and> (\<exists>s. v = JStr s))"
proof -
  define shown where "shown = foldl (\<lambda>acc (k, v). dict_set k (f k v) acc) [] (take 100 d)"
  have shown: "(k, v) \<in> set shown \<Longrightarrow> \<exists>x. v = f k x"
    unfolding shown_def by (auto dest: foldl_dict_set_mem)
  have upd: "(k, v) \<in> set (dict_set k' v' shown) \<Longrightarrow> (k, v) \<in> set shown \<or> (k = k' \<and> v = v')" for k' v'
    by (induction shown) (auto split: if_splits)
  from assms show ?thesis
    by (auto simp: preview_fields_def Let_def shown_def [symmetric] split: if_splits dest: upd shown)
qed

lemma omitted_not_sensitive: "\<not> sensitive_key ''<omitted>''"
  by code_simp

lemma preview_value_sensitive: "key_is_sensitive key \<Longrightarrow> preview_value n key v = JStr ''<redacted>''"
  by (cases n) auto

lemma preview_value_hides: "hides_secrets (preview_value n key v)"
proof (induction n arbitrary: key v)
  case (Suc n)
  show ?case
  proof (cases "key_is_sensitive key")
    case False
    show ?thesis
    proof (cases v)
      case (JObj d)
      have "hides_secrets x \<and> (sensitive_key k \<longrightarrow> x = JStr ''<redacted>'')"
        if "(k, x) \<in> set (preview_fields (\<lambda>k x. preview_value n (Some k) x) d)" for k x
        using preview_fields_mem [OF that] Suc.IH omitted_not_sensitive
        by (auto simp: preview_value_sensitive key_is_sensitive_def)
      then have "hides_secrets (JObj (preview_fields (\<lambda>k x. preview_value n (Some k) x) d))"
        unfolding hides_secrets_JObj by blast
      with JObj False show ?thesis by simp
    qed (use False Suc.IH in \<open>auto simp: list_all_iff\<close>)
  qed simp
qed simp

text \<open>The depth of a value, and the bound every preview keeps on every list, dict and nesting.\<close>

primrec bounded_value :: "jval \<Rightarrow> nat \<Rightarrow> bool" where
  "bounded_value JNull n = True"
| "bounded_value (JBool b) n = True"
| "bounded_value (JInt i) n = True"
| "bounded_value (JFloat r) n = True"
| "bounded_value JNonFinite n = True"
| "bounded_value (JStr s) n = True"
| "bounded_value (JArr xs) n =
     (0 < n \<and> length xs \<le> 101 \<and> list_all (\<lambda>f. f (n - 1)) (map bounded_value xs))"
| "bounded_value (JObj d) n =
     (0 < n \<and> length d \<le> 101 \<and> list_all (\<lambda>p. snd p (n - 1)) (map (map_prod id bounded_value) d))"
| "bounded_value (JForeign m) n = True"

lemma length_dict_set: "length (dict_set k v d) \<le> Suc (length d)"
  by (induction d) auto

lemma length_foldl_dict_set: "length (foldl (\<lambda>acc (k, v). dict_set k (f k v) acc) acc d) \<le> length acc + length d"
proof (induction d arbitrary: acc)
  case (Cons p d)
  show ?case
    using length_dict_set [of "fst p" "f (fst p) (snd p)" acc]
      Cons.IH [of "dict_set (fst p) (f (fst p) (snd p)) acc"] by (simp add: split_beta)
qed simp

lemma length_preview_fields: "length (preview_fields f d) \<le> 101"
proof -
  define shown where "shown = foldl (\<lambda>acc (k, v). dict_set k (f k v) acc) [] (take 100 d)"
  have "length shown \<le> 100"
    using length_foldl_dict_set [of f "[]" "take 100 d"] by (simp add: shown_def)
  then have "length (dict_set k v shown) \<le> 101" for k v
    using length_dict_set [of k v shown] by linarith
  with \<open>length shown \<le> 100\<close> show ?thesis by (auto simp: preview_fields_def Let_def shown_def [symmetric])
qed

lemma preview_value_bounded: "bounded_value (preview_value n key v) n"
proof (induction n arbitrary: key v)
  case (Suc n)
  show ?case
  proof (cases "key_is_sensitive key")
    case False
    show ?thesis
    proof (cases v)
      case (JObj d)
      have "bounded_value x n"
        if "(k, x) \<in> set (preview_fields (\<lambda>k x. preview_value n (Some k) x) d)" for k x
        using preview_fields_mem [OF that] Suc.IH by auto
      then show ?thesis using JObj False
        by (auto simp: list_all_iff length_preview_fields)
    qed (use False Suc.IH in \<open>auto simp: list_all_iff\<close>)
  qed simp
qed simp

end
