(* ===== verification/Core_Properties.thy ===== *)
theory Core_Properties
  imports Stores Policy_Engine Approvals Session_Messages
begin

text \<open>
  The properties of the parts below the session: identifiers, the event schema, the message codec,
  authorization events, the policy engine, tool inputs, approval previews and the event stores.
  Each property is a few steps over the lemmas of its component; its witness applies it to a
  concrete input.
\<close>

section \<open>Identifiers\<close>

text \<open>Successive calls of new_id return pairwise distinct identifiers, whatever the wall clock
  does between them (it may stand still or go back).\<close>

theorem new_ids_distinct:
  assumes "draw_ids kind n w = (Inr ids, w')" and "0 \<le> last_tick w"
  shows "distinct ids \<and> length ids = n"
  using draw_ids_distinct [OF assms] by simp

definition still_world :: world where
  "still_world = \<lparr>clock = (\<lambda>_. 7), clock_reads = 0, entropy = (\<lambda>_. ''00''), entropy_reads = 0,
     last_tick = 0, process_salt = ''ab''\<rparr>"

lemma still_world_draws:
  "\<exists>w'. draw_ids ''evt'' 2 still_world =
     (Inr [render_id ''evt'' 7 ''ab'', render_id ''evt'' 8 ''ab''], w')"
proof -
  have kind: "valid_id_kind ''evt''" by code_simp
  show ?thesis
    by (simp add: numeral_2_eq_2 bindE_def retE_def new_id_result [OF kind] still_world_def Let_def)
qed

theorem new_ids_distinct_witness:
  "distinct [render_id ''evt'' 7 ''ab'', render_id ''evt'' 8 ''ab'']"
proof -
  obtain w' where "draw_ids ''evt'' 2 still_world =
    (Inr [render_id ''evt'' 7 ''ab'', render_id ''evt'' 8 ''ab''], w')"
    using still_world_draws by blast
  from new_ids_distinct [OF this] show ?thesis by (simp add: still_world_def)
qed

section \<open>The event schema\<close>

text \<open>upgrade_event_payload fails closed: it accepts a stored event exactly when its version is
  one of SUPPORTED_EVENT_SCHEMA_VERSIONS (an absent version counts as current), and whatever it
  accepts comes out at the current version.\<close>

theorem upgrade_fails_closed:
  "((\<exists>p. upgrade_event_payload jc v = Inr p) \<longleftrightarrow>
     get_or v ''schema_version'' (JInt EVENT_SCHEMA_VERSION) \<in> JInt ` set SUPPORTED_EVENT_SCHEMA_VERSIONS) \<and>
   (\<forall>p. upgrade_event_payload jc v = Inr p \<longrightarrow>
     dict_get p ''schema_version'' = Some (JInt EVENT_SCHEMA_VERSION))"
  by (intro conjI upgrade_event_payload_closed allI impI) (rule upgrade_event_payload_version)

definition blind_codec :: json_codec where
  "blind_codec = \<lparr>loads = (\<lambda>_. None), dumps_sorted = (\<lambda>_. [])\<rparr>"

theorem upgrade_fails_closed_witness:
  "\<exists>p. upgrade_event_payload blind_codec [(''schema_version'', JInt 1)] = Inr p \<and>
     dict_get p ''schema_version'' = Some (JInt EVENT_SCHEMA_VERSION)"
proof -
  let ?v = "[(''schema_version'', JInt 1)]"
  note closed = upgrade_fails_closed [of blind_codec ?v]
  have "get_or ?v ''schema_version'' (JInt EVENT_SCHEMA_VERSION) = JInt 1" by (simp add: get_or_def)
  moreover have "(1::int) \<in> set SUPPORTED_EVENT_SCHEMA_VERSIONS"
    by (simp add: SUPPORTED_EVENT_SCHEMA_VERSIONS_def)
  ultimately obtain p where "upgrade_event_payload blind_codec ?v = Inr p"
    using conjunct1 [OF closed] by (metis imageI)
  with conjunct2 [OF closed] show ?thesis by blast
qed

text \<open>An event of the current schema version survives Event.to_dict followed by
  Event.from_dict unchanged, every field included.\<close>

theorem event_dict_roundtrip:
  assumes "ev_version e = EVENT_SCHEMA_VERSION"
  shows "event_from_dict jc (event_to_dict e) = Inr e"
  by (rule event_roundtrip [OF assms])

definition sample_event :: event where
  "sample_event = \<lparr>ev_type = ''run.started'', ev_session = ''ses_1'',
     ev_data = [(''input'', JStr ''hi'')], ev_run = Some ''run_1'', ev_id = ''evt_1'', ev_seq = Some 2,
     ev_created = ''2026-01-01T00:00:00+00:00'', ev_ephemeral = False,
     ev_version = EVENT_SCHEMA_VERSION\<rparr>"

theorem event_dict_roundtrip_witness:
  "event_from_dict blind_codec (event_to_dict sample_event) = Inr sample_event"
  by (rule event_dict_roundtrip) (simp add: sample_event_def)

section \<open>The message codec\<close>

text \<open>C40: decode_message inverts encode_message on every message with an identifier, whatever
  content blocks it holds.\<close>

theorem message_codec_roundtrip:
  assumes "msg_id m \<noteq> ''''"
  shows "decode_message fresh (encode_message m) = Inr m"
  by (rule decode_encode_message [OF assms])

definition sample_call :: message where
  "sample_call = \<lparr>msg_role = Assistant, msg_content = [TextBlock ''reading'' False,
     ToolCall ''call_1'' ''read'' [(''path'', JStr ''a.py'')]], msg_id = ''msg_1'', msg_metadata = []\<rparr>"

theorem message_codec_roundtrip_witness:
  "decode_message ''msg_9'' (encode_message sample_call) = Inr sample_call"
  by (rule message_codec_roundtrip) (simp add: sample_call_def)

section \<open>Leases and approvals\<close>

text \<open>A capability lease and an approval survive their dictionaries (the payloads stored in the
  log): from_dict inverts to_dict, expiry times included.\<close>

theorem authorization_payload_roundtrip:
  assumes "finite (capabilities l)" and "dt_valid (lease_expires l)"
    and "\<And>t. appr_expires a = Some t \<Longrightarrow> dt_valid t"
  shows "lease_from_dict (lease_to_dict l) = Inr l \<and> approval_from_dict (approval_to_dict a) = Inr a"
  using lease_roundtrip [OF assms(1,2)] approval_roundtrip [OF assms(3)] by simp

definition sample_lease :: capability_lease where
  "sample_lease = \<lparr>lease_id = ''lease_1'', lease_run = ''run_1'', capabilities = {''process.exec''},
     lease_expires = 1000\<rparr>"

definition sample_approval :: approval where
  "sample_approval = \<lparr>appr_scope = ''shell'', appr_granted_by = ''policy'',
     appr_expires = Some 2000, appr_run = Some ''run_1'', appr_one_shot = False, appr_id = ''apr_1''\<rparr>"

lemma dt_valid_1970 [simp]: "dt_valid 1000" "dt_valid 2000"
  by code_simp+

theorem authorization_payload_roundtrip_witness:
  "lease_from_dict (lease_to_dict sample_lease) = Inr sample_lease \<and>
   approval_from_dict (approval_to_dict sample_approval) = Inr sample_approval"
  by (rule authorization_payload_roundtrip)
     (simp_all add: sample_lease_def sample_approval_def)

text \<open>C19: In every log that AuthorizationState.from_events accepts, an approval is spent at most
  once, and only if an earlier event of the same run granted it as one-shot: a spending event at the
  end of an accepted log is the first for its approval and has such a grant before it.\<close>

theorem one_shot_spent_once:
  assumes "auth_from_events (es @ [e]) = Inr st" and "consumes i e"
  shows "count_events (consumes i) es = 0 \<and> (\<exists>g \<in> set es. grants_once i g \<and> ev_run g = ev_run e)"
  using consumption_justified [OF assms] by simp

definition auth_event :: "string \<Rightarrow> jobj \<Rightarrow> event" where
  "auth_event ty d = \<lparr>ev_type = ty, ev_session = ''ses_1'', ev_data = d, ev_run = Some ''run_1'',
     ev_id = ty, ev_seq = None, ev_created = '''', ev_ephemeral = False, ev_version = 3\<rparr>"

definition once_log :: "event list" where
  "once_log =
     [auth_event ''approval.requested'' [(''approval'', JObj (approval_to_dict sample_approval))],
      auth_event ''approval.resolved'' [(''approval_id'', JStr ''apr_1''), (''status'', JStr ''granted''),
        (''one_shot'', JBool True), (''approval'', JObj (approval_to_dict sample_approval))]]"

definition spend_event :: event where
  "spend_event = auth_event ''approval.consumed'' [(''approval_id'', JStr ''apr_1'')]"

lemma sample_payloads [simp]:
  "approval_from_dict (approval_to_dict sample_approval) = Inr sample_approval"
  "lease_from_dict (lease_to_dict sample_lease) = Inr sample_lease"
  by (rule approval_roundtrip lease_roundtrip; simp add: sample_approval_def sample_lease_def)+

lemma sample_fields [simp]:
  "appr_id sample_approval = ''apr_1''" "appr_run sample_approval = Some ''run_1''"
  "lease_id sample_lease = ''lease_1''" "lease_run sample_lease = ''run_1''"
  by (simp_all add: sample_approval_def sample_lease_def)

lemmas replay_steps = auth_from_events_def auth_apply_def apply_lease_issued_def apply_lease_revoked_def
  apply_approval_requested_def apply_approval_resolved_def apply_approval_consumed_def auth_empty_def
  auth_event_def get_or_def bindR_def

lemma once_log_accepted: "\<exists>st. auth_from_events (once_log @ [spend_event]) = Inr st"
  unfolding once_log_def spend_event_def
  by (simp add: replay_steps)

theorem one_shot_spent_once_witness:
  "count_events (consumes ''apr_1'') once_log = 0 \<and>
   (\<exists>g \<in> set once_log. grants_once ''apr_1'' g \<and> ev_run g = ev_run spend_event)"
proof -
  obtain st where st: "auth_from_events (once_log @ [spend_event]) = Inr st"
    using once_log_accepted by blast
  show ?thesis by (rule one_shot_spent_once [OF st]) (simp add: consumes_def spend_event_def auth_event_def get_or_def)
qed

text \<open>A revoked lease never authorizes again: whatever is appended after the revocation, no
  lease with that identifier is among the active leases.\<close>

theorem revocation_is_final:
  assumes "auth_from_events es = Inr a" and "i \<in> revoked_lease_ids a"
    and "auth_from_events (es @ fs) = Inr b"
  shows "\<forall>l \<in> set (active_leases b run now). lease_id l \<noteq> i"
  by (rule revoked_stays_revoked [OF assms])

definition lease_log :: "event list" where
  "lease_log =
     [auth_event ''capability.lease.issued'' [(''lease'', JObj (lease_to_dict sample_lease))],
      auth_event ''capability.lease.revoked'' [(''lease_id'', JStr ''lease_1'')]]"

lemma lease_log_accepted:
  "\<exists>a. auth_from_events lease_log = Inr a \<and> ''lease_1'' \<in> revoked_lease_ids a"
  unfolding lease_log_def by (simp add: replay_steps)

theorem revocation_is_final_witness:
  "\<exists>a. auth_from_events lease_log = Inr a \<and> (\<forall>l \<in> set (active_leases a ''run_1'' 0). lease_id l \<noteq> ''lease_1'')"
proof -
  obtain a where a: "auth_from_events lease_log = Inr a" "''lease_1'' \<in> revoked_lease_ids a"
    using lease_log_accepted by blast
  with revocation_is_final [OF a, of "[]" a "''run_1''" 0] show ?thesis by simp
qed

section \<open>The default policy engine\<close>

text \<open>At one instant DefaultPolicyEngine.evaluate is the decision table: a missing lease asks
  first; a read-only tool runs; a privileged tool runs on an approval grant or, in strict mode, on
  the lease for its capabilities; anything else privileged asks, naming execution before mutation.\<close>

theorem default_policy_table:
  assumes "stopped_clock now w"
  shows "\<exists>d w'. default_evaluate spec inp c w = (Inr d, w') \<and>
    (dec_effect d, dec_rule d) = decision_table now spec c"
  by (rule default_evaluate_stopped [OF assms])

definition shell_spec :: tool_spec where
  "shell_spec = define_tool ''shell'' ''run a command'' [] False False [''process.exec''] 30 IdempotencyNone"

definition shell_context :: permission_context where
  "shell_context = \<lparr>perm_leases = [], perm_approvals = [sample_approval],
     require_capability_lease = False, perm_run = Some ''run_1'', perm_app = JNull\<rparr>"

lemma stopped_still_world: "stopped_clock 0 still_world"
  by (simp add: stopped_clock_def still_world_def)

lemma shell_allowed: "decision_table 0 shell_spec shell_context = (Allow, ''approval.granted'')"
  by (simp add: decision_table_def shell_spec_def shell_context_def privileged_def requires_execution_def
      define_tool_def spec_name_def holds_approval_def holds_capabilities_def sample_approval_def
      approval_covers_def approval_active_def Let_def)

theorem default_policy_table_witness:
  "\<exists>d w'. default_evaluate shell_spec [] shell_context still_world = (Inr d, w') \<and>
     (dec_effect d, dec_rule d) = (Allow, ''approval.granted'')"
  using default_policy_table [OF stopped_still_world, of shell_spec "[]" shell_context]
  unfolding shell_allowed .

text \<open>C24: Whatever the clock does during the call, DefaultPolicyEngine.evaluate answers Allow only on
  evidence: in strict mode the tool's capabilities are held by an unexpired lease of the run, and a
  privileged tool has an unexpired grant of the run that covers it or, in strict mode, that lease.\<close>

theorem default_policy_allow_justified:
  assumes "default_evaluate spec inp c w = (Inr d, w')" and "dec_effect d = Allow"
  shows "(require_capability_lease c \<longrightarrow>
            required_capabilities spec = [] \<or> lease_evidence c (required_capabilities spec) w w') \<and>
         (privileged spec \<longrightarrow> approval_evidence c (spec_name spec) w w' \<or>
            (require_capability_lease c \<and> lease_evidence c (required_capabilities spec) w w'))"
  by (rule default_evaluate_allow [OF assms])

theorem default_policy_allow_justified_witness:
  "\<exists>w'. approval_evidence shell_context ''shell'' still_world w'"
proof -
  obtain d w' where run: "default_evaluate shell_spec [] shell_context still_world = (Inr d, w')"
    and allow: "dec_effect d = Allow"
    using default_evaluate_stopped [OF stopped_still_world, of shell_spec "[]" shell_context]
    by (auto simp: shell_allowed)
  have "privileged shell_spec" "\<not> require_capability_lease shell_context"
    by (simp_all add: privileged_def requires_execution_def shell_spec_def define_tool_def shell_context_def)
  with default_policy_allow_justified [OF run allow] show ?thesis
    by (auto simp: shell_spec_def define_tool_def spec_name_def)
qed

section \<open>Tool inputs and the registry\<close>

text \<open>validate_tool_input accepts an input exactly when it conforms to the schema: every
  required name is present, every declared field has its declared type (a bool is no integer), and
  an undeclared field is there only if additionalProperties allows it.\<close>

theorem validate_input_exact:
  "validate_tool_input spec v = Inr () \<longleftrightarrow> input_conforms (spec_input_schema spec) v"
  by (auto simp: validate_tool_input_def input_conforms_def foldR_unit_ok validate_field_ok
      missing_fields_Nil bindR_Inr_iff Let_def split: jval.splits prod.splits)

lemma register_all:
  assumes "dict_wf reg"
  shows "((\<exists>reg'. foldR register_tool reg ts = Inr reg') \<longleftrightarrow>
      distinct (map tool_name ts) \<and> tool_name ` set ts \<inter> fst ` set reg = {}) \<and>
    (\<forall>reg'. foldR register_tool reg ts = Inr reg' \<longrightarrow>
      (\<forall>k t. dict_get reg' k = Some t \<longleftrightarrow> dict_get reg k = Some t \<or> t \<in> set ts \<and> tool_name t = k))"
  using assms
proof (induction ts arbitrary: reg)
  case (Cons t ts)
  show ?case
  proof (cases "dict_get reg (tool_name t)")
    case None
    then have "foldR register_tool reg (t # ts) = foldR register_tool (dict_set (tool_name t) t reg) ts"
      by (simp add: register_tool_def)
    moreover have "dict_wf (dict_set (tool_name t) t reg)" using Cons.prems by simp
    moreover have "tool_name t \<notin> fst ` set reg" using None by (simp add: dict_get_None)
    ultimately show ?thesis
      using Cons.IH [of "dict_set (tool_name t) t reg"] None
      by (auto simp del: distinct_map)
  next
    case (Some u)
    then have "tool_name t \<in> fst ` set reg" by (metis dict_get_None option.distinct(1))
    with Some show ?thesis by (simp add: register_tool_def)
  qed
qed simp

text \<open>A registry can be built exactly from tools with pairwise distinct names, and then get
  finds each tool under its name and nothing under any other name.\<close>

theorem registry_exact:
  "((\<exists>reg. make_registry ts = Inr reg) \<longleftrightarrow> distinct (map tool_name ts)) \<and>
   (\<forall>reg. make_registry ts = Inr reg \<longrightarrow>
      (\<forall>k t. get_tool reg k = Some t \<longleftrightarrow> t \<in> set ts \<and> tool_name t = k))"
  unfolding make_registry_def get_tool_def
  using register_all [of "[]" ts] by (auto simp: dict_wf_def)

definition shell_tool :: tool where
  "shell_tool = \<lparr>spec_of = shell_spec, tool_prepare = None,
     tool_run = (\<lambda>_ _ _. Inr \<lparr>exec_content = '''', exec_is_error = False, exec_metadata = []\<rparr>)\<rparr>"

theorem registry_exact_witness:
  "\<exists>reg. make_registry [shell_tool] = Inr reg \<and> get_tool reg ''shell'' = Some shell_tool"
proof -
  note exact = registry_exact [of "[shell_tool]"]
  have "tool_name shell_tool = ''shell''"
    by (simp add: tool_name_def shell_tool_def shell_spec_def define_tool_def spec_name_def)
  with conjunct2 [OF exact] show ?thesis using conjunct1 [OF exact] by auto
qed

section \<open>Approval previews\<close>

text \<open>C32: approval_input_preview never shows the value of a field whose name looks sensitive, at any
  depth, and keeps every list and every dictionary within 101 entries and the nesting within eight.\<close>

theorem preview_safe:
  "hides_secrets (JObj (approval_input_preview v)) \<and> bounded_value (JObj (approval_input_preview v)) 8"
proof -
  have "JObj (approval_input_preview v) = preview_value 8 None (JObj v)"
    by (simp add: approval_input_preview_def eval_nat_numeral key_is_sensitive_def)
  then show ?thesis using preview_value_hides preview_value_bounded by metis
qed

end
