(* ===== verification/Store_Properties.thy ===== *)
theory Store_Properties
  imports Core_Properties
begin

text \<open>
  The properties of the event stores, of the projection of messages and of the tracking of tool
  calls. A store in these properties is either of the two implementations; the laws come from the
  interpretation of \<open>event_store\<close> on their sum.
\<close>

section \<open>The log of a session\<close>

definition any_store :: "store store_methods" where
  "any_store = \<lparr>do_create = store_create, do_append = store_append, do_read = store_read, do_get = store_get,
     do_list = store_list_sessions\<rparr>"

lemma call_store_wf: "store_wf s \<Longrightarrow> store_wf (snd (call_store any_store c s))"
  by (cases c)
     (auto simp: any_store_def reply_def store_read_state store_list_state
       dest: stores.create_preserves [OF _ prod.collapse [symmetric]]
             stores.append_preserves [OF _ prod.collapse [symmetric]])

lemma run_calls_wf: "store_wf s \<Longrightarrow> store_wf (snd (run_calls any_store cs s))"
  by (induction cs arbitrary: s) (auto simp: Let_def split_beta call_store_wf)

definition is_new_store :: "store \<Rightarrow> bool" where
  "is_new_store s \<longleftrightarrow> s = MemoryStore memory_empty \<or> (\<exists>jc. s = SqliteStore jc sqlite_initialize)"

lemma new_store_wf: "is_new_store s \<Longrightarrow> store_wf s"
  by (auto simp: is_new_store_def store_wf_def memory_wf_empty sqlite_wf_empty)

text \<open>After any sequence of calls, accepted or refused, on a new store of either kind, every log
  is numbered 1, 2, 3, ... without gaps, holds only durable events of its own session with JSON
  payloads, and no event identifier occurs twice, within a session or across sessions.\<close>

theorem logs_stay_numbered:
  assumes "is_new_store s"
  shows "view_ok (store_view (snd (run_calls any_store cs s)))"
  by (intro stores.wf_view run_calls_wf new_store_wf assms)

theorem logs_stay_numbered_witness:
  "view_ok (store_view (snd (run_calls any_store [CallCreate ''t'' ''ses_1'' [] None,
     CallAppend ''ses_1'' 0 [sample_event], CallAppend ''ses_1'' 0 [sample_event]]
     (MemoryStore memory_empty))))"
  by (rule logs_stay_numbered) (simp add: is_new_store_def)

text \<open>C26: Both stores refine the same abstract log: an append is accepted exactly when the session exists,
  the writer saw its current head, the identifiers are new and differ from each other, and every event
  belongs to the session and has a payload that JSON can represent; then it returns the events numbered
  from the head and adds exactly these to that one log; otherwise it raises and the store is as it was.\<close>

theorem append_refines_log:
  assumes "store_wf s"
  shows "if admissible (store_view s) sid n es
    then \<exists>s'. store_append sid n es s = (Inr (numbered n es), s') \<and> store_wf s' \<and>
           store_view s' = extend_log (store_view s) sid (numbered n es)
    else \<exists>e. store_append sid n es s = (Inl e, s)"
  using stores.append_ok [OF assms] stores.append_fails [OF assms] by auto

definition one_session :: store where
  "one_session = MemoryStore \<lparr>ms_sessions = [(''ses_1'', \<lparr>info_session = ''ses_1'', info_head = 0,
     info_created = ''t'', info_metadata = [], info_parent = None\<rparr>)],
     ms_events = [(''ses_1'', [])], ms_event_sessions = []\<rparr>"

lemma one_session_made: "store_create ''t'' ''ses_1'' [] None (MemoryStore memory_empty) = (Inr (), one_session)"
  by (simp add: store_create_def in_store_def memory_create_def memory_empty_def one_session_def json_copy_def
      eff_simps)

lemma one_session_wf: "store_wf one_session"
  using stores.create_preserves [OF _ one_session_made] new_store_wf by (simp add: is_new_store_def)

lemma one_session_log:
  "store_view one_session ''ses_1'' = Some (new_log ''t'' [] None)"
  "store_view one_session k = None \<longleftrightarrow> k \<noteq> ''ses_1''"
  by (auto simp: one_session_def store_view_def memory_view_def new_log_def)

lemma view_ids_one_session: "view_ids (store_view one_session) = {}"
proof -
  have "store_view one_session k = (if k = ''ses_1'' then Some (new_log ''t'' [] None) else None)" for k
    using one_session_log by auto
  then show ?thesis by (auto simp: view_ids_def ran_def new_log_def split: if_splits)
qed

lemma sample_admissible: "admissible (store_view one_session) ''ses_1'' 0 [sample_event]"
  by (simp add: admissible_def one_session_log view_ids_one_session new_log_def sample_event_def json_ok_obj_def)

theorem append_refines_log_witness:
  "\<exists>s'. store_append ''ses_1'' 0 [sample_event] one_session = (Inr (numbered 0 [sample_event]), s') \<and>
     store_view s' = extend_log (store_view one_session) ''ses_1'' (numbered 0 [sample_event])"
  using append_refines_log [OF one_session_wf, of "''ses_1''" 0 "[sample_event]"] sample_admissible by auto

text \<open>C36: The SQLite store appends atomically: when append raises at any point, be it after some rows
  were inserted, the tables are as they were and no transaction is left open.\<close>

theorem sqlite_append_atomic:
  assumes "saved c = None" and "sqlite_append sid n es c = (Inl e, c')"
  shows "c' = c"
  using assms by (auto simp: sqlite_append_eq split: prod.splits sum.splits)

definition strange_event :: event where
  "strange_event = sample_event\<lparr>ev_id := ''evt_2'', ev_session := ''ses_2''\<rparr>"

theorem sqlite_append_atomic_witness:
  "\<exists>c e. sqlite_view c ''ses_1'' = Some (new_log ''t'' [] None) \<and>
     sqlite_append ''ses_1'' 0 [sample_event, strange_event] c = (Inl e, c)"
proof -
  obtain c where c: "sqlite_wf c" "sqlite_view c = (sqlite_view sqlite_initialize)(''ses_1'' \<mapsto> new_log ''t'' [] None)"
    using sqlite.create_ok [OF sqlite_wf_empty, of "''ses_1''" "[]" "''t''" None]
    by (auto simp: sqlite_view_None sqlite_initialize_def json_ok_obj_def)
  have "\<not> admissible (sqlite_view c) ''ses_1'' 0 [sample_event, strange_event]"
    by (simp add: admissible_def strange_event_def)
  then obtain e c' where run: "sqlite_append ''ses_1'' 0 [sample_event, strange_event] c = (Inl e, c')"
    using sqlite.append_fails [OF c(1)] by blast
  have "saved c = None" using c(1) by (simp add: sqlite_wf_def)
  from sqlite_append_atomic [OF this run] run c(2) show ?thesis
    by (intro exI [of _ c] exI [of _ e]) simp
qed

text \<open>Optimistic concurrency: of two writers that saw the same head of a session only one
  succeeds; the second append at that head raises and changes nothing.\<close>

theorem one_writer_wins:
  assumes "store_wf s" "store_append sid n es s = (Inr ps, s1)" "es \<noteq> []"
  shows "\<exists>e. store_append sid n fs s1 = (Inl e, s1)"
  by (rule stores.single_winner [OF assms])

theorem one_writer_wins_witness:
  "\<exists>s1 e. store_append ''ses_1'' 0 [sample_event] one_session = (Inr (numbered 0 [sample_event]), s1) \<and>
     store_append ''ses_1'' 0 [strange_event] s1 = (Inl e, s1)"
proof -
  obtain s1 where s1: "store_append ''ses_1'' 0 [sample_event] one_session = (Inr (numbered 0 [sample_event]), s1)"
    using stores.append_ok [OF one_session_wf sample_admissible] by blast
  from one_writer_wins [OF one_session_wf s1, of "[strange_event]"] s1 show ?thesis by blast
qed

text \<open>What was appended is what is read back: reading the session from the start gives the old
  log followed by the returned events, reading after the old head gives just these, and the head
  has grown by their number.\<close>

theorem append_then_read:
  assumes "store_wf s" "store_append sid n es s = (Inr ps, s1)"
    "store_view s sid = Some l" "list_all current_version (log_events l @ es)"
  shows "store_read sid 0 s1 = (Inr (log_events l @ ps), s1) \<and> store_read sid n s1 = (Inr ps, s1) \<and>
    store_get sid s1 = (Inr ((info_of sid l)\<lparr>info_head := n + int (length es)\<rparr>), s1)"
  using stores.append_read [OF assms] stores.append_get [OF assms(1-3)] by simp

theorem append_then_read_witness:
  "\<exists>s1. store_read ''ses_1'' 0 s1 = (Inr (numbered 0 [sample_event]), s1)"
proof -
  obtain s1 where s1: "store_append ''ses_1'' 0 [sample_event] one_session = (Inr (numbered 0 [sample_event]), s1)"
    using stores.append_ok [OF one_session_wf sample_admissible] by blast
  have "list_all current_version (log_events (new_log ''t'' [] None) @ [sample_event])"
    by (simp add: new_log_def current_version_def sample_event_def)
  from append_then_read [OF one_session_wf s1 one_session_log(1) this] show ?thesis
    by (auto simp: new_log_def)
qed





section \<open>Tool calls and results in a conversation\<close>

text \<open>When find_orphan_tool_calls accepts a conversation, the orphans are exactly the calls
  without a result, each reported once, and the conversation has no call and no result twice; a
  result comes after its call.\<close>

theorem orphans_are_open_calls:
  assumes "find_orphan_tool_calls msgs = Inr cs"
  shows "set (map call_id cs) = set (opens msgs) - set (closes msgs) \<and> distinct (map call_id cs) \<and>
    distinct (opens msgs) \<and> distinct (closes msgs) \<and> set (closes msgs) \<subseteq> set (opens msgs)"
proof -
  from assms obtain st where st: "track_messages msgs = Inr st"
    by (auto simp: find_orphan_tool_calls_def bindR_Inr_iff)
  have "completed_calls st \<subseteq> known_calls st" by (simp add: known_calls_def)
  then show ?thesis using orphans_exact [OF assms] track_messages_known [OF st] by simp
qed

theorem orphans_are_open_calls_witness:
  "\<exists>cs. find_orphan_tool_calls [sample_call] = Inr cs \<and> set (map call_id cs) = {''call_1''}"
proof -
  obtain cs where cs: "find_orphan_tool_calls [sample_call] = Inr cs"
    by (auto simp: find_orphan_tool_calls_def track_messages_def track_message_def bindR_def no_calls_def
        sample_call_def open_call_def tool_calls_def tool_results_def List.map_filter_def)
  moreover have "opens [sample_call] = [''call_1'']" "closes [sample_call] = []"
    by (simp_all add: opens_def closes_def sample_call_def tool_calls_def tool_results_def List.map_filter_def)
  ultimately show ?thesis using orphans_are_open_calls [OF cs] by auto
qed

end
