(* ===== verification/Session_Properties.thy ===== *)
theory Session_Properties
  imports Session_Repair Session_Frames Store_Properties
begin

text \<open>
  The properties of sessions: the history only grows, the session agrees with its log, the message
  projection, forking, repair and the authorization events.
\<close>

section \<open>Sequences of session calls\<close>

datatype session_call =
    CallAppendMany "event list"
  | CallAddMessage message "string option"
  | CallEmit event
  | CallObserve nat
  | CallIssueLease string "string set" int string
  | CallRevokeLease string string string
  | CallRequest string string "int option" string jobj
  | CallResolve string bool string string bool
  | CallConsume string string string
  | CallRepair string "string set"
  | CallRefresh
  | CallFork int "string option" "nat option"

text \<open>A call on the session object and what it leaves behind, whether it returns or raises.\<close>

fun run_session_call :: "session_call \<Rightarrow> 'z env_scheme \<Rightarrow> 'z env_scheme" where
  "run_session_call (CallAppendMany es) s = snd (append_many es s)"
| "run_session_call (CallAddMessage m rid) s = snd (add_message m rid s)"
| "run_session_call (CallEmit e) s = snd (emit_event e s)"
| "run_session_call (CallObserve k) s = snd (add_event_observer k s)"
| "run_session_call (CallIssueLease r caps ttl who) s = snd (issue_capability_lease r caps ttl who s)"
| "run_session_call (CallRevokeLease i r who) s = snd (revoke_capability_lease i r who s)"
| "run_session_call (CallRequest scope who ttl r md) s = snd (request_approval scope who ttl r md s)"
| "run_session_call (CallResolve i ok who r once) s = snd (resolve_approval i ok who r once s)"
| "run_session_call (CallConsume i r scope) s = snd (consume_approval i r scope s)"
| "run_session_call (CallRepair r excl) s = snd (repair_orphan_tool_calls r excl s)"
| "run_session_call CallRefresh s = snd (refresh s)"
| "run_session_call (CallFork n sid ob) s = snd (fork_session n sid ob s)"

definition run_session_calls :: "session_call list \<Rightarrow> 'z env_scheme \<Rightarrow> 'z env_scheme" where
  "run_session_calls cs s = foldl (\<lambda>s c. run_session_call c s) s cs"

lemma observe_grows: "advances history_grows (add_event_observer k)"
  unfolding add_event_observer_def by (rule self_grows)

lemma session_call_grows: "history_grows s (run_session_call c s)"
  by (cases c) (auto intro: advancesD [OF append_many_grows prod.collapse [symmetric]]
    advancesD [OF add_message_grows prod.collapse [symmetric]]
    advancesD [OF emit_grows prod.collapse [symmetric]]
    advancesD [OF observe_grows prod.collapse [symmetric]]
    authorization_grows [THEN advancesD, OF prod.collapse [symmetric]]
    advancesD [OF repair_grows prod.collapse [symmetric]]
    advancesD [OF refresh_grows prod.collapse [symmetric]]
    advancesD [OF fork_session_grows prod.collapse [symmetric]])

lemma session_calls_grow: "history_grows s (run_session_calls cs s)"
proof (induction cs arbitrary: s)
  case Nil
  show ?case by (simp add: run_session_calls_def history_grows_def view_grows_refl)
next
  case (Cons c cs)
  from Cons [of "run_session_call c s"] session_call_grows [of s c] show ?case
    unfolding history_grows_def run_session_calls_def by (auto intro: view_grows_trans)
qed

definition demo_env :: env where
  "demo_env = \<lparr>clock = (\<lambda>_. 7), clock_reads = 0, entropy = (\<lambda>_. ''00''), entropy_reads = 0,
     last_tick = 0, process_salt = ''ab'', the_store = one_session, notified = [],
     self = \<lparr>ses_id = ''ses_1'', ses_metadata = [], ses_head = 0, ses_events = [], ses_messages = [],
       ses_observers = [1]\<rparr>\<rparr>"

lemma demo_synced: "synced demo_env"
  by (simp add: synced_def demo_env_def one_session_wf one_session_log new_log_def)

text \<open>Running the methods on that session: identifiers and times stay symbolic where they can.\<close>

lemma kinds [simp]: "valid_id_kind ''ses''" "valid_id_kind ''evt''"
  by code_simp+
lemma demo_ids: "render_id ''evt'' 7 ''ab'' = ''evt_0000000000000007ab''"
  "render_id ''evt'' 8 ''ab'' = ''evt_0000000000000008ab''"
  "render_id ''evt'' 9 ''ab'' = ''evt_0000000000000009ab''"
  by code_simp+
lemma new_event_eq: "new_event ty sid rid data w = (Inr \<lparr>ev_type = ty, ev_session = sid, ev_data = data, ev_run = rid,
   ev_id = render_id ''evt'' (max (clock w (clock_reads w)) (last_tick w + 1)) (process_salt w),
             ev_seq = None, ev_created = isoformat (clock w (Suc (clock_reads w)) div 1000), ev_ephemeral = False,
             ev_version = EVENT_SCHEMA_VERSION\<rparr>, w\<lparr>clock_reads := Suc (Suc (clock_reads w)), last_tick := max (clock w (clock_reads w)) (last_tick w + 1)\<rparr>)"
  by (simp add: new_event_def bindE_def new_id_result Let_def utc_now_def utc_datetime_eq retE_def)

lemmas store_eval = store_create_def store_append_def in_store_def memory_create_def memory_append_def
  memory_admit_def json_copy_def enumerate_from_def persisted_def bindR_def eff_simps
lemmas session_eval = append_many_def fork_session_def create_session_def copy_event_def new_event_eq
  utc_now_def utc_datetime_eq on_store_def on_session_def get_self_def update_self_def notify_observers_def
  absorb_event_def new_id_result fork_prefix_def is_message_event_def MESSAGE_EVENT_TYPES_def Let_def

lemma demo_append: "append_many [sample_event] demo_env = (Inr [sample_event\<lparr>ev_seq := Some 1\<rparr>],
   demo_env\<lparr>the_store := MemoryStore \<lparr>ms_sessions = [(''ses_1'', \<lparr>info_session = ''ses_1'', info_head = 1,
     info_created = ''t'', info_metadata = [], info_parent = None\<rparr>)],
     ms_events = [(''ses_1'', [sample_event\<lparr>ev_seq := Some 1\<rparr>])], ms_event_sessions = [(''evt_1'', ''ses_1'')]\<rparr>,
     self := (self demo_env)\<lparr>ses_head := 1, ses_events := [sample_event\<lparr>ev_seq := Some 1\<rparr>]\<rparr>,
     notified := [(1, sample_event\<lparr>ev_seq := Some 1\<rparr>)]\<rparr>)"
  by (simp add: session_eval store_eval demo_env_def one_session_def sample_event_def notices_def)

text \<open>C2: The event history is append-only: whatever sequence of methods is called on a session, and
  whether they return or raise, every session log in the store afterwards is the log before with
  events added at its end; no stored event is changed, reordered or removed.\<close>

theorem history_append_only:
  assumes "store_wf (the_store s)"
  shows "view_grows (store_view (the_store s)) (store_view (the_store (run_session_calls cs s)))"
  using session_calls_grow [of s cs] assms by (simp add: history_grows_def)

theorem history_append_only_witness:
  "view_grows (store_view one_session) (store_view (the_store (run_session_calls
     [CallAppendMany [sample_event], CallFork 1 None None, CallRefresh, CallRepair ''run_1'' {}] demo_env)))"
  using history_append_only [of demo_env] one_session_wf by (simp add: demo_env_def)

lemma observe_synced: "preserves synced (add_event_observer k)"
  by (simp add: preserves_def add_event_observer_def update_self_def modifyE_def synced_def)

lemma emit_synced: "preserves synced (emit_event e)"
proof -
  have "preserves synced (notify_observers ks es)" for ks es
    by (simp add: preserves_def notify_observers_def modifyE_def synced_def)
  then show ?thesis
    unfolding emit_event_def by (auto intro!: pres_intros world_sync_steps)
qed

lemma preserves_at: "preserves P m \<Longrightarrow> P s \<Longrightarrow> P (snd (m s))"
  by (simp add: preserves_def)

lemmas session_methods_synced = append_many_synced add_message_synced emit_synced observe_synced
  authorization_synced repair_synced fork_synced

lemma session_call_synced: "synced s \<Longrightarrow> synced (run_session_call c s)"
  by (cases c) (simp_all add: session_methods_synced [THEN preserves_at] refresh_synced)

text \<open>C15: A session stays in step with the store: as long as no other owner writes to its log, its
  events and head are exactly the stored log after any sequence of its methods (appends, messages,
  emissions, authorization calls, repairs, refreshes and forks), calls that raised included.\<close>

theorem session_matches_log:
  assumes "synced s"
  shows "synced (run_session_calls cs s)"
  using assms by (induction cs arbitrary: s) (auto simp: run_session_calls_def session_call_synced)

theorem session_matches_log_witness:
  "synced (run_session_calls [CallAppendMany [sample_event], CallFork 1 None None] demo_env)"
  by (rule session_matches_log [OF demo_synced])

section \<open>Forking\<close>

text \<open>C29: A fork copies the parent's history up to the fork point: the child is in step with its own
  new log, which consists of its creation, the fork record and then, in order, every parent event up
  to the fork point except the parent's creation, with type, payload, run, time and schema version
  unchanged; the parent and its log are untouched.\<close>

theorem fork_copies_prefix:
  assumes "fork_session n sid ob s = (Inr child, s')" and "synced s"
  shows "self s' = self s \<and> synced (s'\<lparr>self := child\<rparr>) \<and> ses_id child \<noteq> ses_id (self s) \<and>
    store_view (the_store s') (ses_id (self s)) = store_view (the_store s) (ses_id (self s)) \<and>
    (\<exists>created forked copies. ses_events child = created # forked # copies \<and>
       ev_type created = ''session.created'' \<and> ev_type forked = ''session.forked'' \<and>
       list_all2 same_fact (fork_prefix n (ses_events (self s))) copies)"
  using fork_result [OF assms] by simp

theorem fork_copies_prefix_witness:
  "\<exists>child s'. fork_session 1 (Some ''ses_2'') None (snd (append_many [sample_event] demo_env)) = (Inr child, s') \<and>
     (\<exists>created forked copy. ses_events child = [created, forked, copy] \<and> same_fact sample_event copy)"
proof -
  let ?s = "snd (append_many [sample_event] demo_env)"
  have "\<exists>child s'. fork_session 1 (Some ''ses_2'') None ?s = (Inr child, s')"
    unfolding demo_append
    by (simp add: session_eval store_eval demo_env_def one_session_def sample_event_def demo_ids)
  then obtain child s' where run: "fork_session 1 (Some ''ses_2'') None ?s = (Inr child, s')" by blast
  have "synced ?s" by (rule preserves_at [OF append_many_synced demo_synced])
  moreover have "fork_prefix 1 (ses_events (self ?s)) = [sample_event\<lparr>ev_seq := Some 1\<rparr>]"
    unfolding demo_append by (simp add: fork_prefix_def demo_env_def sample_event_def)
  ultimately show ?thesis
    using fork_copies_prefix [OF run] run
    by (auto simp: list_all2_Cons1 same_fact_def intro!: exI [of _ child] exI [of _ s'])
qed

section \<open>The message projection\<close>

text \<open>The messages a session shows are the projection of its log: a batch keeps this, as long as
  no message event follows a compaction in the same batch.\<close>

theorem projection_follows_log:
  fixes s :: "'z env_scheme"
  assumes "append_many (p1 @ p2) s = (Inr qs, s')" and "synced s"
    and "projected (self s)" and "list_all identified (p1 @ p2)"
    and "list_all (\<lambda>e. \<not> is_compaction e) p1" and "list_all (\<lambda>e. \<not> is_message_event e) p2"
  shows "projected (self s')"
  by (rule append_many_projected [OF assms])

definition hello :: message where
  "hello = \<lparr>msg_role = User, msg_content = [TextBlock ''hello'' False], msg_id = ''msg_1'', msg_metadata = []\<rparr>"

definition log_event :: "string \<Rightarrow> string \<Rightarrow> jobj \<Rightarrow> event" where
  "log_event i ty d = \<lparr>ev_type = ty, ev_session = ''ses_1'', ev_data = d, ev_run = None, ev_id = i,
     ev_seq = None, ev_created = ''t'', ev_ephemeral = False, ev_version = EVENT_SCHEMA_VERSION\<rparr>"

definition hello_event :: event where
  "hello_event = log_event ''evt_h'' ''user.message'' (encode_message hello)"

definition compaction_event :: event where
  "compaction_event = log_event ''evt_c'' ''compaction.created'' []"

lemma hello_id [simp]: "msg_id hello = ''msg_1''"
  by (simp add: hello_def)

lemma decode_hello: "decode_message_event (encode_message hello) s = (Inr hello, s)"
  "decode_message fresh (encode_message hello) = Inr hello"
proof -
  show d: "decode_message fresh (encode_message hello) = Inr hello" for fresh
    by (rule decode_encode_message) (simp add: hello_def)
  show "decode_message_event (encode_message hello) s = (Inr hello, s)"
    by (simp add: decode_message_event_def bindE_def liftE_def d retE_def)
qed

lemma hello_facts:
  "is_JObj (get_or_none (encode_message hello) ''message'')" "json_ok_obj (encode_message hello)"
  "find_orphan_tool_calls [hello] = Inr []" "get_or_none [] k = JNull"
  by (simp_all add: encode_message_def get_or_def hello_def json_ok_obj_def message_to_dict_def
      find_orphan_tool_calls_def track_messages_def track_message_def bindR_def tool_calls_def
      tool_results_def List.map_filter_def no_calls_def)

lemmas hello_eval = decode_hello hello_facts hello_event_def compaction_event_def log_event_def
  project_messages_def project_step_def

lemma demo_hello: "\<exists>qs s'. append_many [hello_event] demo_env = (Inr qs, s')"
  by (simp add: session_eval store_eval demo_env_def one_session_def hello_eval)

lemma hello_projected: "list_all identified [hello_event]" "projected (self demo_env)"
  by (simp_all add: identified_def hello_event_def log_event_def decode_hello projected_def demo_env_def)

theorem projection_follows_log_witness:
  "\<exists>qs s'. append_many [hello_event] demo_env = (Inr qs, s') \<and> projected (self s')"
proof -
  obtain qs s' where run: "append_many ([hello_event] @ []) demo_env = (Inr qs, s')"
    using demo_hello by auto
  have "\<not> is_compaction hello_event" by (simp add: is_compaction_def hello_event_def log_event_def)
  with projection_follows_log [OF run demo_synced hello_projected(2)] hello_projected(1) run show ?thesis by simp
qed

text \<open>C35: A batch in which messages follow a compaction, as Session.fork appends when it copies such
  a history, shows the model these messages twice: the session's messages become the projection of
  its log with the messages after the compaction appended once more.\<close>

theorem batched_compaction_repeats:
  fixes s :: "'z env_scheme"
  assumes run: "append_many (p1 @ c # p2) s = (Inr qs, s')" and sync: "synced s"
    and proj: "projected (self s)" and ident: "list_all identified (p1 @ c # p2)"
    and comp: "is_compaction c" and plain: "list_all (\<lambda>e. \<not> is_compaction e) (p1 @ p2)"
  shows "\<exists>ms dups. foldR project_pure [] (ses_events (self s')) = Inr ms \<and>
    decoded_messages p2 = Inr dups \<and> ses_messages (self s') = ms @ dups"
  by (rule append_many_duplicates [OF assms]) blast

lemma demo_compacted:
  defines "c \<equiv> compaction_event\<lparr>ev_seq := Some 1\<rparr>" and "h \<equiv> hello_event\<lparr>ev_seq := Some 2\<rparr>"
  shows "append_many [compaction_event, hello_event] demo_env = (Inr [c, h],
    demo_env\<lparr>the_store := MemoryStore \<lparr>ms_sessions = [(''ses_1'', \<lparr>info_session = ''ses_1'', info_head = 2,
     info_created = ''t'', info_metadata = [], info_parent = None\<rparr>)],
     ms_events = [(''ses_1'', [c, h])], ms_event_sessions = [(''evt_c'', ''ses_1''), (''evt_h'', ''ses_1'')]\<rparr>,
     self := (self demo_env)\<lparr>ses_head := 2, ses_events := [c, h], ses_messages := [hello, hello]\<rparr>,
     notified := [(1, c), (1, h)]\<rparr>)"
  by (simp add: session_eval store_eval demo_env_def one_session_def hello_eval c_def h_def notices_def)

theorem batched_compaction_repeats_witness:
  "\<exists>qs s' ms. append_many [compaction_event, hello_event] demo_env = (Inr qs, s') \<and>
     foldR project_pure [] (ses_events (self s')) = Inr ms \<and> ses_messages (self s') = ms @ [hello]"
proof -
  obtain qs s' where run: "append_many ([] @ compaction_event # [hello_event]) demo_env = (Inr qs, s')"
    using demo_compacted by auto
  have "identified compaction_event" "is_compaction compaction_event" "\<not> is_compaction hello_event"
    by (simp_all add: identified_def is_compaction_def compaction_event_def hello_event_def log_event_def
        is_message_event_def MESSAGE_EVENT_TYPES_def get_or_def)
  moreover have "decoded_messages [hello_event] = Inr [hello]"
    by (simp add: decoded_messages_def project_pure_def hello_event_def log_event_def decode_hello
        is_message_event_def MESSAGE_EVENT_TYPES_def hello_facts bindR_def)
  ultimately show ?thesis
    using batched_compaction_repeats [OF run demo_synced hello_projected(2)] hello_projected(1) run by auto
qed

section \<open>Repair\<close>

text \<open>C28: Repair closes exactly the open tool calls it is not told to spare: afterwards the orphans of
  the conversation are the spared ones, in their order, and the log has grown by the returned events
  (none when there was nothing to close).\<close>

theorem repair_closes_orphans:
  assumes "repair_orphan_tool_calls rid excl s = (Inr ps, s')" and "synced s"
    and "find_orphan_tool_calls (ses_messages (self s)) = Inr cs"
  shows "find_orphan_tool_calls (ses_messages (self s')) = Inr (filter (\<lambda>c. call_id c \<in> excl) cs) \<and>
    ses_events (self s') = ses_events (self s) @ ps \<and> ((ps = []) = (\<forall>c \<in> set cs. call_id c \<in> excl))"
  using repair_outcome [OF assms] by simp

definition orphan_env :: env where
  "orphan_env = demo_env\<lparr>self := (self demo_env)\<lparr>ses_messages := [sample_call]\<rparr>\<rparr>"

lemma orphan_env_facts:
  "synced orphan_env"
  "find_orphan_tool_calls (ses_messages (self orphan_env)) =
     Inr [\<lparr>call_id = ''call_1'', call_name = ''read'', call_input = [(''path'', JStr ''a.py'')]\<rparr>]"
  using demo_synced
  by (simp_all add: synced_def orphan_env_def find_orphan_tool_calls_def track_messages_def
      track_message_def bindR_def no_calls_def sample_call_def open_call_def tool_calls_def
      tool_results_def List.map_filter_def)

definition repair_message :: message where
  "repair_message = \<lparr>msg_role = User, msg_content = [lost_result \<lparr>call_id = ''call_1'',
     call_name = ''read'', call_input = [(''path'', JStr ''a.py'')]\<rparr>], msg_id = ''msg_00'',
     msg_metadata = [(''recovery'', JStr ''orphan_tool_calls'')]\<rparr>"

lemma repair_message_facts:
  "decode_message_event (encode_message repair_message) s = (Inr repair_message, s)"
  "json_ok_obj (encode_message repair_message)"
  "is_JObj (get_or_none (encode_message repair_message) ''message'')"
  "find_orphan_tool_calls [sample_call, repair_message] = Inr []"
proof -
  have d: "decode_message '''' (encode_message repair_message) = Inr repair_message"
    by (rule decode_encode_message) (simp add: repair_message_def)
  have "msg_id repair_message \<noteq> ''''" by (simp add: repair_message_def)
  with d show "decode_message_event (encode_message repair_message) s = (Inr repair_message, s)"
    by (simp add: decode_message_event_def bindE_def liftE_def retE_def)
  show "json_ok_obj (encode_message repair_message)"
    by (simp add: json_ok_obj_def encode_message_def message_to_dict_def repair_message_def lost_result_def)
  show "is_JObj (get_or_none (encode_message repair_message) ''message'')" by (rule encoded_is_object)
  show "find_orphan_tool_calls [sample_call, repair_message] = Inr []"
    by (simp add: find_orphan_tool_calls_def track_messages_def track_message_def bindR_def no_calls_def
        sample_call_def repair_message_def lost_result_def open_call_def close_call_def tool_calls_def
        tool_results_def List.map_filter_def)
qed

lemma repair_runs: "\<exists>ps s'. repair_orphan_tool_calls ''run_1'' {} orphan_env = (Inr ps, s')"
proof -
  let ?c = "\<lparr>call_id = ''call_1'', call_name = ''read'', call_input = [(''path'', JStr ''a.py'')]\<rparr>"
  have "orphan_tool_calls orphan_env = (Inr [?c], orphan_env)"
    by (simp add: orphan_tool_calls_def bindE_def get_self_def orphan_env_facts(2) liftE_def retE_def)
  moreover have "new_message User [lost_result ?c] [(''recovery'', JStr ''orphan_tool_calls'')] orphan_env =
      (Inr repair_message, orphan_env\<lparr>entropy_reads := 1\<rparr>)"
    by (simp add: new_message_def new_message_id_def token_hex_def repair_message_def orphan_env_def
        demo_env_def eff_simps)
  ultimately have "repair_orphan_tool_calls ''run_1'' {} orphan_env =
      bindE get_self (\<lambda>s.
       bindE (new_event ''session.repaired'' (ses_id s) (Some ''run_1'')
         [(''orphan_tool_call_ids'', jstrs [''call_1''])]) (\<lambda>e1.
       bindE (new_event ''tool.result'' (ses_id s) (Some ''run_1'') (encode_message repair_message)) (\<lambda>e2.
         append_many [e1, e2]))) (orphan_env\<lparr>entropy_reads := 1\<rparr>)"
    by (simp add: repair_orphan_tool_calls_def bindE_def [where m = orphan_tool_calls]
        bindE_def [where m = "new_message User [lost_result ?c] [(''recovery'', JStr ''orphan_tool_calls'')]"])
  moreover have "\<exists>ps s'. bindE get_self (\<lambda>s.
       bindE (new_event ''session.repaired'' (ses_id s) (Some ''run_1'')
         [(''orphan_tool_call_ids'', jstrs [''call_1''])]) (\<lambda>e1.
       bindE (new_event ''tool.result'' (ses_id s) (Some ''run_1'') (encode_message repair_message)) (\<lambda>e2.
         append_many [e1, e2]))) (orphan_env\<lparr>entropy_reads := 1\<rparr>) = (Inr ps, s')"
    by (simp add: session_eval store_eval one_session_def demo_ids orphan_env_def demo_env_def
        repair_message_facts json_ok_obj_def [of "[(''orphan_tool_call_ids'', x)]" for x] jstrs_def)
  ultimately show ?thesis by simp
qed

theorem repair_closes_orphans_witness:
  "\<exists>ps s'. repair_orphan_tool_calls ''run_1'' {} orphan_env = (Inr ps, s') \<and> ps \<noteq> [] \<and>
     find_orphan_tool_calls (ses_messages (self s')) = Inr []"
proof -
  obtain ps s' where run: "repair_orphan_tool_calls ''run_1'' {} orphan_env = (Inr ps, s')"
    using repair_runs by blast
  from repair_closes_orphans [OF run orphan_env_facts] run show ?thesis by auto
qed

section \<open>Authorization\<close>

text \<open>A resolution moves exactly one pending request of the run out of the queue: the log stays
  acceptable, the request is no longer pending, and it is an active grant (one-shot as asked) exactly
  when it was approved.\<close>

theorem resolution_takes_effect:
  assumes "resolve_approval i approved who run_id one_shot s = (Inr r, s')" and "synced s"
    and "auth_from_events (ses_events (self s)) = Inr st"
  shows "\<exists>a st'. dict_get (pending_approvals st) i = Some a \<and> appr_run a = Some run_id \<and>
    auth_from_events (ses_events (self s')) = Inr st' \<and> dict_get (pending_approvals st') i = None \<and>
    dict_get (approvals st') i = (if approved then Some (a\<lparr>appr_one_shot := one_shot\<rparr>) else None) \<and>
    r = (if approved then Some a else None)"
  by (rule resolve_outcome [OF assms])

text \<open>C34: consume_approval does not compare its run with the grant's: given the run of the grant it
  spends the grant and the log stays acceptable; given another run it appends all the same, and from
  then on from_events refuses the log whatever is appended to it.\<close>

theorem consumption_outcome:
  assumes "consume_approval i run_id scope s = (Inr e, s')" and "synced s"
    and "auth_from_events (ses_events (self s)) = Inr st"
  shows "\<exists>a. dict_get (approvals st) i = Some a \<and> appr_one_shot a \<and>
    ses_events (self s') = ses_events (self s) @ [e] \<and>
    (if appr_run a = Some run_id
     then \<exists>st'. auth_from_events (ses_events (self s')) = Inr st' \<and> dict_get (approvals st') i = None
     else \<exists>x. \<forall>fs. auth_from_events (ses_events (self s') @ fs) = Inl x)"
  by (rule consume_outcome [OF assms])

definition pending_log :: "event list" where
  "pending_log = [hd once_log]"

definition first_event :: event where
  "first_event = (hd once_log)\<lparr>ev_seq := Some 1\<rparr>"

definition second_event :: event where
  "second_event = (once_log ! 1)\<lparr>ev_seq := Some 2\<rparr>"

definition pending_env :: env where
  "pending_env = demo_env\<lparr>the_store := MemoryStore \<lparr>ms_sessions = [(''ses_1'', \<lparr>info_session = ''ses_1'',
     info_head = 1, info_created = ''t'', info_metadata = [], info_parent = None\<rparr>)],
     ms_events = [(''ses_1'', [first_event])], ms_event_sessions = [(''approval.requested'', ''ses_1'')]\<rparr>,
     self := (self demo_env)\<lparr>ses_head := 1, ses_events := [first_event]\<rparr>,
     notified := [(1, first_event)]\<rparr>"

definition granted_env :: env where
  "granted_env = demo_env\<lparr>the_store := MemoryStore \<lparr>ms_sessions = [(''ses_1'', \<lparr>info_session = ''ses_1'',
     info_head = 2, info_created = ''t'', info_metadata = [], info_parent = None\<rparr>)],
     ms_events = [(''ses_1'', [first_event, second_event])],
     ms_event_sessions = [(''approval.requested'', ''ses_1''), (''approval.resolved'', ''ses_1'')]\<rparr>,
     self := (self demo_env)\<lparr>ses_head := 2, ses_events := [first_event, second_event]\<rparr>,
     notified := [(1, first_event), (1, second_event)]\<rparr>"

lemma once_log_json:
  "json_ok_obj (approval_to_dict sample_approval)"
  "json_ok_obj [(''approval'', JObj (approval_to_dict sample_approval))]"
  "json_ok_obj [(''approval_id'', JStr i), (''status'', JStr x), (''one_shot'', JBool b),
     (''approval'', JObj (approval_to_dict sample_approval))]"
  by (simp_all add: json_ok_obj_def approval_to_dict_def sample_approval_def)

lemmas once_eval = once_log_def auth_event_def first_event_def second_event_def once_log_json

lemma demo_pending: "append_many pending_log demo_env = (Inr [first_event], pending_env)"
  by (simp add: session_eval store_eval pending_log_def pending_env_def demo_env_def one_session_def
      once_eval notices_def)

lemma demo_granted: "append_many once_log demo_env = (Inr [first_event, second_event], granted_env)"
  by (simp add: session_eval store_eval granted_env_def demo_env_def one_session_def
      once_eval notices_def)

lemma auth_envs_synced: "synced pending_env" "synced granted_env"
  using preserves_at [OF append_many_synced demo_synced, of pending_log]
    preserves_at [OF append_many_synced demo_synced, of once_log]
  by (simp_all add: demo_pending demo_granted)

lemma granted_log:
  "\<exists>st. auth_from_events (ses_events (self granted_env)) = Inr st \<and>
     dict_get (approvals st) ''apr_1'' = Some (sample_approval\<lparr>appr_one_shot := True\<rparr>)"
  by (simp add: granted_env_def demo_env_def first_event_def second_event_def once_log_def replay_steps)

lemma pending_log_state:
  "\<exists>st. auth_from_events (ses_events (self pending_env)) = Inr st \<and>
     dict_get (pending_approvals st) ''apr_1'' = Some sample_approval"
  by (simp add: pending_env_def demo_env_def first_event_def once_log_def replay_steps)

theorem consumption_outcome_witness:
  "\<exists>e s' x. consume_approval ''apr_1'' ''run_2'' ''shell'' granted_env = (Inr e, s') \<and>
     (\<forall>fs. auth_from_events (ses_events (self s') @ fs) = Inl x)"
proof -
  obtain st where st: "auth_from_events (ses_events (self granted_env)) = Inr st"
    "dict_get (approvals st) ''apr_1'' = Some (sample_approval\<lparr>appr_one_shot := True\<rparr>)"
    using granted_log by blast
  have "consume_approval ''apr_1'' ''run_2'' ''shell'' granted_env =
    append_new ''approval.consumed'' (Some ''run_2'') [(''approval_id'', JStr ''apr_1''), (''scope'', JStr ''shell'')] granted_env"
    by (simp add: consume_approval_def bindE_def authorization_eq st)
  moreover have "\<exists>e s'. append_new ''approval.consumed'' (Some ''run_2'')
      [(''approval_id'', JStr ''apr_1''), (''scope'', JStr ''shell'')] granted_env = (Inr e, s')"
    by (simp add: append_new_def append_event_def session_eval store_eval granted_env_def demo_env_def
        demo_ids json_ok_obj_def)
  ultimately obtain e s' where run: "consume_approval ''apr_1'' ''run_2'' ''shell'' granted_env = (Inr e, s')"
    by auto
  from consumption_outcome [OF run auth_envs_synced(2) st(1)] run show ?thesis
    by (auto simp: st(2))
qed

theorem resolution_takes_effect_witness:
  "\<exists>r s' st'. resolve_approval ''apr_1'' True ''user'' ''run_1'' True pending_env = (Inr r, s') \<and>
     auth_from_events (ses_events (self s')) = Inr st' \<and>
     dict_get (approvals st') ''apr_1'' = Some (sample_approval\<lparr>appr_one_shot := True\<rparr>)"
proof -
  obtain st where st: "auth_from_events (ses_events (self pending_env)) = Inr st"
    "dict_get (pending_approvals st) ''apr_1'' = Some sample_approval"
    using pending_log_state by blast
  let ?data = "[(''approval_id'', JStr ''apr_1''), (''approval'', JObj (approval_to_dict sample_approval)),
     (''status'', JStr ''granted''), (''resolved_by'', JStr ''user''), (''one_shot'', JBool True)]"
  have ok: "json_ok_obj ?data" by (simp add: json_ok_obj_def approval_to_dict_def sample_approval_def)
  have "pending_approval_now st ''apr_1'' pending_env =
      (Inr (Some sample_approval), pending_env\<lparr>clock_reads := 1\<rparr>)"
    by (simp add: pending_approval_now_def st approval_active_now_def approval_active_def bindE_def utc_datetime_eq
        sample_approval_def pending_env_def demo_env_def retE_def)
  then have "resolve_approval ''apr_1'' True ''user'' ''run_1'' True pending_env =
    bindE (append_new ''approval.resolved'' (Some ''run_1'') ?data) (\<lambda>_. retE (Some sample_approval))
      (pending_env\<lparr>clock_reads := 1\<rparr>)"
    by (simp add: resolve_approval_def bindE_def [where m = authorization] bindE_def [where m = "pending_approval_now st ''apr_1''"] authorization_eq st)
  moreover have "\<exists>e s'. append_new ''approval.resolved'' (Some ''run_1'') ?data
      (pending_env\<lparr>clock_reads := 1\<rparr>) = (Inr e, s')"
    using ok by (simp add: append_new_def append_event_def session_eval store_eval pending_env_def demo_env_def demo_ids)
  ultimately obtain r s' where run: "resolve_approval ''apr_1'' True ''user'' ''run_1'' True pending_env = (Inr r, s')"
    by (auto simp: bindE_def retE_def)
  from resolution_takes_effect [OF run auth_envs_synced(1) st(1)] run show ?thesis
    by (auto simp: st(2))
qed

end
