(* ===== verification/Snapshots.thy ===== *)
theory Snapshots
  imports Events
begin

text \<open>
  The in-memory snapshot store: \<^verbatim>\<open>aihi/agent/sessions/snapshots.py\<close>. A snapshot is a cached
  projection of a session at a sequence number; the newest one that is not too new is loaded.
\<close>

record session_snapshot =
  snap_session :: string
  snap_seq :: int
  snap_projection :: jobj
  snap_created :: string
  snap_version :: int

definition new_snapshot :: "string \<Rightarrow> int \<Rightarrow> jobj \<Rightarrow> ('w world_scheme, session_snapshot) sm" where
  "new_snapshot sid seq projection =
     bindE utc_now (\<lambda>now. retE \<lparr>snap_session = sid, snap_seq = seq, snap_projection = projection,
                              snap_created = now, snap_version = 1\<rparr>)"

definition snapshot_to_dict :: "session_snapshot \<Rightarrow> jobj" where
  "snapshot_to_dict s =
     [(''session_id'', JStr (snap_session s)), (''at_seq'', JInt (snap_seq s)),
      (''projection'', JObj (snap_projection s)), (''created_at'', JStr (snap_created s)),
      (''schema_version'', JInt (snap_version s))]"

type_synonym snapshot_store = "(string, (int, session_snapshot) dict) dict"

definition snapshot_versions :: "snapshot_store \<Rightarrow> string \<Rightarrow> (int, session_snapshot) dict" where
  "snapshot_versions st sid = (case dict_get st sid of None \<Rightarrow> [] | Some vs \<Rightarrow> vs)"

text \<open>\<^verbatim>\<open>setdefault(session_id, {})[at_seq] = snapshot\<close>.\<close>

definition save_snapshot :: "snapshot_store \<Rightarrow> session_snapshot \<Rightarrow> snapshot_store" where
  "save_snapshot st s =
     dict_set (snap_session s) (dict_set (snap_seq s) s (snapshot_versions st (snap_session s))) st"

definition load_snapshot :: "snapshot_store \<Rightarrow> string \<Rightarrow> int option \<Rightarrow> session_snapshot option" where
  "load_snapshot st sid at_seq =
     (let versions = snapshot_versions st sid;
          eligible = filter (\<lambda>n. case at_seq of None \<Rightarrow> True | Some k \<Rightarrow> n \<le> k) (map fst versions) in
      if eligible = [] then None else dict_get versions (Max (set eligible)))"

section \<open>What is loaded is the newest eligible snapshot\<close>

text \<open>Every stored snapshot stands under its own session and sequence number.\<close>

definition snapshots_wf :: "snapshot_store \<Rightarrow> bool" where
  "snapshots_wf st \<longleftrightarrow> (\<forall>sid n s. dict_get (snapshot_versions st sid) n = Some s \<longrightarrow>
     snap_session s = sid \<and> snap_seq s = n)"

definition stored :: "snapshot_store \<Rightarrow> session_snapshot \<Rightarrow> bool" where
  "stored st s \<longleftrightarrow> dict_get (snapshot_versions st (snap_session s)) (snap_seq s) = Some s"

lemma versions_save:
  "snapshot_versions (save_snapshot st s) sid =
     (if sid = snap_session s then dict_set (snap_seq s) s (snapshot_versions st sid)
      else snapshot_versions st sid)"
  by (auto simp: snapshot_versions_def save_snapshot_def)

lemma save_wf: "snapshots_wf st \<Longrightarrow> snapshots_wf (save_snapshot st s)"
  by (auto simp: snapshots_wf_def versions_save)

lemma snapshots_wf_empty: "snapshots_wf []"
  by (simp add: snapshots_wf_def snapshot_versions_def)

lemma load_newest:
  assumes "snapshots_wf st"
  shows "load_snapshot st sid at_seq = Some s \<longleftrightarrow>
    stored st s \<and> snap_session s = sid \<and> (\<forall>k. at_seq = Some k \<longrightarrow> snap_seq s \<le> k) \<and>
    (\<forall>t. stored st t \<and> snap_session t = sid \<and> (\<forall>k. at_seq = Some k \<longrightarrow> snap_seq t \<le> k) \<longrightarrow>
       snap_seq t \<le> snap_seq s)"
proof -
  define vs where "vs = snapshot_versions st sid"
  define el where "el = filter (\<lambda>n. case at_seq of None \<Rightarrow> True | Some k \<Rightarrow> n \<le> k) (map fst vs)"
  have own: "snap_session t = sid \<and> snap_seq t = n" if "dict_get vs n = Some t" for n t
    using assms that by (simp add: snapshots_wf_def vs_def)
  have el: "n \<in> set el \<longleftrightarrow> (\<exists>t. dict_get vs n = Some t \<and> (\<forall>k. at_seq = Some k \<longrightarrow> n \<le> k))" for n
  proof -
    have "n \<in> fst ` set vs \<longleftrightarrow> (\<exists>t. dict_get vs n = Some t)"
      using dict_get_None [of vs n] by auto
    then show ?thesis by (auto simp: el_def split: option.splits)
  qed
  have at: "stored st t \<and> snap_session t = sid \<longleftrightarrow> dict_get vs (snap_seq t) = Some t" for t
    using own by (auto simp: stored_def vs_def)
  have load: "load_snapshot st sid at_seq = (if el = [] then None else dict_get vs (Max (set el)))"
    by (simp add: load_snapshot_def vs_def el_def Let_def)
  show ?thesis
  proof (cases "el = []")
    case True
    then have "snap_seq s \<notin> set el" by simp
    then show ?thesis unfolding load using True el [of "snap_seq s"] at [of s] by auto
  next
    case False
    then have top: "Max (set el) \<in> set el" by simp
    have below: "n \<in> set el \<Longrightarrow> n \<le> Max (set el)" for n by simp
    show ?thesis
    proof
      assume "load_snapshot st sid at_seq = Some s"
      then have s: "dict_get vs (Max (set el)) = Some s" using False by (simp add: load)
      then have seq: "snap_seq s = Max (set el)" using own by blast
      have "dict_get vs (snap_seq s) = Some s" using s seq by simp
      then show "stored st s \<and> snap_session s = sid \<and> (\<forall>k. at_seq = Some k \<longrightarrow> snap_seq s \<le> k) \<and>
        (\<forall>t. stored st t \<and> snap_session t = sid \<and> (\<forall>k. at_seq = Some k \<longrightarrow> snap_seq t \<le> k) \<longrightarrow>
           snap_seq t \<le> snap_seq s)"
        using top below el at seq by metis
    next
      assume R: "stored st s \<and> snap_session s = sid \<and> (\<forall>k. at_seq = Some k \<longrightarrow> snap_seq s \<le> k) \<and>
        (\<forall>t. stored st t \<and> snap_session t = sid \<and> (\<forall>k. at_seq = Some k \<longrightarrow> snap_seq t \<le> k) \<longrightarrow>
           snap_seq t \<le> snap_seq s)"
      then have s: "dict_get vs (snap_seq s) = Some s" using at by blast
      then have "snap_seq s \<in> set el" using R el by blast
      then have le: "snap_seq s \<le> Max (set el)" by (rule below)
      obtain t where t: "dict_get vs (Max (set el)) = Some t" "\<forall>k. at_seq = Some k \<longrightarrow> Max (set el) \<le> k"
        using top el by blast
      then have "snap_seq t = Max (set el)" using own by blast
      then have "Max (set el) \<le> snap_seq s" using R at t by metis
      with le have "Max (set el) = snap_seq s" by simp
      then show "load_snapshot st sid at_seq = Some s" using False s by (simp add: load)
    qed
  qed
qed

end
