(* ===== verification/Artifacts.thy ===== *)
theory Artifacts
  imports Leases Model_Types
begin

text \<open>
  Content-addressed artifact storage: \<^verbatim>\<open>aihi/agent/artifacts/store.py\<close>. The directory of the store is
  a dict from file names to bytes; a write through a temporary file and \<^verbatim>\<open>os.replace\<close> is one update of
  it, and failures of the file system itself are not modelled. Times to live are whole microseconds.
  Text is Latin-1, so its UTF-8 form has one or two bytes for each character.
\<close>

section \<open>Bytes\<close>

definition utf8_char :: "char \<Rightarrow> string" where
  "utf8_char c =
     (let k = of_char c :: nat in
      if k < 128 then [c] else [char_of (192 + k div 64), char_of (128 + k mod 64)])"

definition utf8_encode :: "string \<Rightarrow> string" where
  "utf8_encode s = concat (map utf8_char s)"

text \<open>\<^verbatim>\<open>raw.decode("utf-8")\<close>; \<open>None\<close> where the bytes are no UTF-8 form of Latin-1 text.\<close>

fun utf8_decode :: "string \<Rightarrow> string option" where
  "utf8_decode [] = Some []"
| "utf8_decode [c] = (if (of_char c :: nat) < 128 then Some [c] else None)"
| "utf8_decode (c # d # s) =
     (if (of_char c :: nat) < 128 then map_option (Cons c) (utf8_decode (d # s))
      else if (of_char c :: nat) \<in> {194, 195} \<and> (of_char d :: nat) div 64 = 2
      then map_option (Cons (char_of ((of_char c - 192) * 64 + (of_char d :: nat) mod 64))) (utf8_decode s)
      else None)"

text \<open>
  What the store takes from the standard library: \<^verbatim>\<open>hashlib.sha256(...).hexdigest()\<close> on bytes, and
  \<^verbatim>\<open>json.dumps\<close> and \<^verbatim>\<open>json.loads\<close> on the manifests.
\<close>

record artifact_codec =
  sha256_hex :: "string \<Rightarrow> string"
  manifest_dumps :: "jval \<Rightarrow> string"
  manifest_loads :: "string \<Rightarrow> jval option"

section \<open>Ownership and access\<close>

record artifact_policy =
  pol_session :: "string option"
  pol_run :: "string option"
  pol_retention :: string
  pol_expires :: "string option"

definition value_error :: "string \<Rightarrow> exn" where
  "value_error m = Exn (Py ValueError) m"

definition check_artifact_policy :: "artifact_policy \<Rightarrow> exn + artifact_policy" where
  "check_artifact_policy p =
     (if pol_run p \<noteq> None \<and> pol_session p = None
      then Inl (value_error ''run-scoped artifacts require a session_id'')
      else if pol_retention p \<notin> {''run'', ''session'', ''persistent''}
      then Inl (value_error (''Unsupported artifact retention: '' @ pol_retention p))
      else if pol_retention p = ''persistent'' \<and> (pol_session p \<noteq> None \<or> pol_run p \<noteq> None)
      then Inl (value_error ''persistent artifacts cannot have an owner scope'')
      else if pol_retention p = ''session'' \<and> (pol_session p = None \<or> pol_run p \<noteq> None)
      then Inl (value_error ''session retention requires only a session_id'')
      else if pol_retention p = ''run'' \<and> (pol_session p = None \<or> pol_run p = None)
      then Inl (value_error ''run retention requires session_id and run_id'')
      else Inr p)"

definition default_artifact_policy :: artifact_policy where
  "default_artifact_policy =
     \<lparr>pol_session = None, pol_run = None, pol_retention = ''persistent'', pol_expires = None\<rparr>"

definition policy_to_dict :: "artifact_policy \<Rightarrow> jobj" where
  "policy_to_dict p =
     [(''session_id'', jopt_str (pol_session p)), (''run_id'', jopt_str (pol_run p)),
      (''retention'', JStr (pol_retention p)), (''expires_at'', jopt_str (pol_expires p))]"

text \<open>\<^verbatim>\<open>str(value[k]) if value.get(k) else None\<close>.\<close>

definition text_if_set :: "jobj \<Rightarrow> string \<Rightarrow> string option" where
  "text_if_set d k = (let v = get_or_none d k in if truthy v then Some (py_str v) else None)"

definition policy_from_dict :: "jval \<Rightarrow> exn + artifact_policy" where
  "policy_from_dict v =
     (case v of
        JObj d \<Rightarrow>
          (let retention = py_str (get_or d ''retention'' (JStr ''persistent'')) in
           check_artifact_policy
             \<lparr>pol_session = text_if_set d ''session_id'', pol_run = text_if_set d ''run_id'',
              pol_retention = (if retention \<in> {''run'', ''session'', ''persistent''} then retention
                               else ''persistent''),
              pol_expires = text_if_set d ''expires_at''\<rparr>)
      | _ \<Rightarrow> Inr default_artifact_policy)"

definition session_artifact_policy :: "string \<Rightarrow> artifact_policy" where
  "session_artifact_policy sid =
     \<lparr>pol_session = Some sid, pol_run = None, pol_retention = ''session'', pol_expires = None\<rparr>"

record artifact_access =
  acc_session :: "string option"
  acc_run :: "string option"
  allow_delete :: bool
  acc_admin :: bool

definition can_access :: "artifact_access \<Rightarrow> artifact_policy \<Rightarrow> bool" where
  "can_access a p =
     (if acc_admin a \<or> (pol_session p = None \<and> pol_run p = None) then True
      else if acc_session a \<noteq> pol_session p then False
      else pol_run p = None \<or> acc_run a = pol_run p)"

definition can_delete_artifact :: "artifact_access \<Rightarrow> artifact_policy \<Rightarrow> bool" where
  "can_delete_artifact a p = (allow_delete a \<and> can_access a p)"

section \<open>References\<close>

record artifact_ref =
  art_id :: string
  art_media_type :: string
  art_size :: int
  art_sha256 :: string
  art_created :: string
  art_metadata :: jobj
  art_policy :: artifact_policy

definition ref_to_dict :: "artifact_ref \<Rightarrow> jobj" where
  "ref_to_dict r =
     [(''artifact_id'', JStr (art_id r)), (''media_type'', JStr (art_media_type r)),
      (''size_bytes'', JInt (art_size r)), (''sha256'', JStr (art_sha256 r)),
      (''created_at'', JStr (art_created r)), (''metadata'', JObj (art_metadata r)),
      (''policy'', JObj (policy_to_dict (art_policy r)))]"

fun size_is_numeric :: "jval \<Rightarrow> bool" where
  "size_is_numeric (JInt i) = True"
| "size_is_numeric (JFloat r) = True"
| "size_is_numeric JNonFinite = True"
| "size_is_numeric (JStr s) = True"
| "size_is_numeric _ = False"

definition ref_from_dict :: "jobj \<Rightarrow> exn + artifact_ref" where
  "ref_from_dict v =
     (let raw_size = get_or v ''size_bytes'' (JInt 0) in
      if \<not> size_is_numeric raw_size then Inl (value_error ''Artifact size_bytes must be numeric'')
      else
        bindR (py_int raw_size) (\<lambda>bytes.
        bindR (policy_from_dict (get_or_none v ''policy'')) (\<lambda>pol.
          Inr \<lparr>art_id = py_str (get_or v ''artifact_id'' (JStr '''')),
               art_media_type = py_str (get_or v ''media_type'' (JStr ''application/octet-stream'')),
               art_size = bytes, art_sha256 = py_str (get_or v ''sha256'' (JStr '''')),
               art_created = py_str (get_or v ''created_at'' (JStr '''')),
               art_metadata = dict_or_empty (get_or v ''metadata'' (JObj [])),
               art_policy = pol\<rparr>)))"

section \<open>Files\<close>

type_synonym files = "(string, string) dict"

definition permission_error :: "string \<Rightarrow> exn" where
  "permission_error m = Exn (OtherError ''PermissionError'') m"

definition is_hex_lower :: "char \<Rightarrow> bool" where
  "is_hex_lower c = (let k = of_char c :: nat in 48 \<le> k \<and> k \<le> 57 \<or> 97 \<le> k \<and> k \<le> 102)"

text \<open>\<^verbatim>\<open>art-[0-9a-f]{32}(?:-[0-9a-f]{12})?\<close>, matched in full.\<close>

definition valid_artifact_id :: "string \<Rightarrow> bool" where
  "valid_artifact_id i \<longleftrightarrow>
     take 4 i = ''art-'' \<and> list_all is_hex_lower (take 32 (drop 4 i)) \<and>
     (length i = 36 \<or>
      length i = 49 \<and> i ! 36 = CHR ''-'' \<and> list_all is_hex_lower (drop 37 i))"

definition check_artifact_id :: "string \<Rightarrow> exn + unit" where
  "check_artifact_id i = (if valid_artifact_id i then Inr () else Inl (value_error ''Invalid artifact id''))"

definition artifact_id_of :: "artifact_codec \<Rightarrow> string \<Rightarrow> artifact_policy \<Rightarrow> string" where
  "artifact_id_of cd digest p =
     ''art-'' @ take 32 digest @
     (if pol_session p \<noteq> None \<or> pol_run p \<noteq> None
      then CHR ''-'' # take 12 (sha256_hex cd (utf8_encode
             (case_option '''' id (pol_session p) @ [CHR 0x00] @ case_option '''' id (pol_run p))))
      else '''')"

definition payload_path :: "string \<Rightarrow> exn + string" where
  "payload_path i = bindR (check_artifact_id i) (\<lambda>_. Inr (i @ ''.data''))"

definition manifest_path :: "string \<Rightarrow> exn + string" where
  "manifest_path i = bindR (check_artifact_id i) (\<lambda>_. Inr (i @ ''.json''))"

definition atomic_write :: "string \<Rightarrow> string \<Rightarrow> (files, unit) sm" where
  "atomic_write path content = modifyE (dict_set path content)"

text \<open>\<^verbatim>\<open>json.loads(path.read_text(encoding="utf-8"))\<close>: \<open>Inr None\<close> for a missing file or no JSON.\<close>

definition read_manifest :: "artifact_codec \<Rightarrow> files \<Rightarrow> string \<Rightarrow> exn + jval option" where
  "read_manifest cd fs path =
     (case dict_get fs path of
        None \<Rightarrow> Inr None
      | Some raw \<Rightarrow>
          (case utf8_decode raw of
             None \<Rightarrow> Inl (value_error ''invalid utf-8'')
           | Some text \<Rightarrow> Inr (manifest_loads cd text)))"

definition is_value_or_type_error :: "exn \<Rightarrow> bool" where
  "is_value_or_type_error e = (case e of Exn c _ \<Rightarrow> c = Py ValueError \<or> c = Py TypeError | _ \<Rightarrow> False)"

definition is_value_error :: "exn \<Rightarrow> bool" where
  "is_value_error e = (case e of Exn c _ \<Rightarrow> c = Py ValueError | _ \<Rightarrow> False)"

definition load_ref :: "artifact_codec \<Rightarrow> files \<Rightarrow> string \<Rightarrow> exn + artifact_ref" where
  "load_ref cd fs i =
     bindR (manifest_path i) (\<lambda>path.
     bindR (read_manifest cd fs path) (\<lambda>raw. case raw of
       Some (JObj d) \<Rightarrow>
         (case ref_from_dict d of
            Inl e \<Rightarrow> Inl (if is_value_or_type_error e
                          then value_error ''Artifact manifest fields are invalid'' else e)
          | Inr ref \<Rightarrow>
              if art_id ref \<noteq> i \<or> art_sha256 ref = ''''
              then Inl (value_error ''Artifact manifest identity is invalid'')
              else if artifact_id_of cd (art_sha256 ref) (art_policy ref) \<noteq> i
              then Inl (value_error ''Artifact manifest identity is invalid'')
              else Inr ref)
     | _ \<Rightarrow> Inl (value_error ''Artifact manifest is missing or invalid'')))"

definition load_ref_if_valid ::
  "artifact_codec \<Rightarrow> files \<Rightarrow> string \<Rightarrow> string \<Rightarrow> int \<Rightarrow> exn + artifact_ref option" where
  "load_ref_if_valid cd fs i digest bytes =
     (case load_ref cd fs i of
        Inl e \<Rightarrow> if is_value_error e then Inr None else Inl e
      | Inr ref \<Rightarrow>
          Inr (if art_sha256 ref = digest \<and> art_size ref = bytes \<and> art_id ref = i then Some ref else None))"

definition require_access :: "artifact_ref \<Rightarrow> artifact_access option \<Rightarrow> exn + unit" where
  "require_access ref access =
     (if pol_session (art_policy ref) = None \<and> pol_run (art_policy ref) = None then Inr ()
      else case access of
          Some a \<Rightarrow> if can_access a (art_policy ref) then Inr ()
                    else Inl (permission_error ''Artifact access is outside its declared scope'')
        | None \<Rightarrow> Inl (permission_error ''Artifact access is outside its declared scope''))"

definition is_expired :: "datetime \<Rightarrow> artifact_ref \<Rightarrow> bool" where
  "is_expired now ref =
     (case pol_expires (art_policy ref) of
        None \<Rightarrow> False
      | Some s \<Rightarrow> (case fromisoformat s of None \<Rightarrow> False | Some t \<Rightarrow> t \<le> now))"

section \<open>Operations\<close>

text \<open>The manifest on disk already describes this content.\<close>

definition manifest_is_valid :: "artifact_codec \<Rightarrow> files \<Rightarrow> string \<Rightarrow> string \<Rightarrow> int \<Rightarrow> exn + bool" where
  "manifest_is_valid cd fs path digest bytes =
     bindR (read_manifest cd fs path) (\<lambda>raw. Inr (case raw of
         Some (JObj d) \<Rightarrow> get_or_none d ''sha256'' = JStr digest \<and>
           py_eq (get_or_none d ''size_bytes'') (JInt bytes)
       | _ \<Rightarrow> False))"

definition expiring :: "int option \<Rightarrow> datetime \<Rightarrow> artifact_policy \<Rightarrow> exn + artifact_policy" where
  "expiring expires_in now p =
     (case expires_in of
        None \<Rightarrow> Inr p
      | Some ttl \<Rightarrow>
          (if ttl < 0 then Inl (value_error ''expires_in_seconds cannot be negative'')
           else bindR (dt_plus now ttl) (\<lambda>t. check_artifact_policy (p\<lparr>pol_expires := Some (isoformat t)\<rparr>))))"

text \<open>\<open>now_expiry\<close> and \<open>now_created\<close> are the two readings of the clock.\<close>

definition put_text ::
  "artifact_codec \<Rightarrow> datetime \<Rightarrow> datetime \<Rightarrow> string \<Rightarrow> string \<Rightarrow> jobj \<Rightarrow> artifact_policy option \<Rightarrow>
     int option \<Rightarrow> (files, artifact_ref) sm" where
  "put_text cd now_expiry now_created content media_type metadata policy expires_in =
     bindE (liftE (expiring expires_in now_expiry (case_option default_artifact_policy id policy))) (\<lambda>pol.
     let encoded = utf8_encode content; digest = sha256_hex cd encoded; bytes = int (length encoded);
         i = artifact_id_of cd digest pol in
     bindE (liftE (payload_path i)) (\<lambda>payload.
     bindE (liftE (manifest_path i)) (\<lambda>manifest.
     bindE getE (\<lambda>fs.
     bindE (whenE (case dict_get fs payload of None \<Rightarrow> True | Some raw \<Rightarrow> sha256_hex cd raw \<noteq> digest)
              (atomic_write payload encoded)) (\<lambda>_.
     bindE getE (\<lambda>fs1.
     bindE (liftE (load_ref_if_valid cd fs1 i digest bytes)) (\<lambda>existing. case existing of
         Some ref \<Rightarrow> retE ref
       | None \<Rightarrow>
           let ref = \<lparr>art_id = i, art_media_type = media_type, art_size = bytes, art_sha256 = digest,
                      art_created = isoformat now_created, art_metadata = metadata, art_policy = pol\<rparr> in
           bindE (liftE (manifest_is_valid cd fs1 manifest digest bytes)) (\<lambda>valid.
           bindE (whenE (\<not> valid)
                    (atomic_write manifest (utf8_encode (manifest_dumps cd (JObj (ref_to_dict ref)))))) (\<lambda>_.
             retE ref)))))))))"

definition get_ref ::
  "artifact_codec \<Rightarrow> datetime \<Rightarrow> files \<Rightarrow> string \<Rightarrow> artifact_access option \<Rightarrow> bool \<Rightarrow> exn + artifact_ref" where
  "get_ref cd now fs i access allow_expired =
     bindR (check_artifact_id i) (\<lambda>_.
     bindR (load_ref cd fs i) (\<lambda>ref.
     bindR (require_access ref access) (\<lambda>_.
       if \<not> allow_expired \<and> is_expired now ref then Inl (value_error ''Artifact has expired'')
       else Inr ref)))"

definition read_text ::
  "artifact_codec \<Rightarrow> datetime \<Rightarrow> files \<Rightarrow> string \<Rightarrow> artifact_access option \<Rightarrow> exn + string" where
  "read_text cd now fs i access =
     bindR (get_ref cd now fs i access False) (\<lambda>ref.
     bindR (payload_path i) (\<lambda>path. case dict_get fs path of
         None \<Rightarrow> Inl (value_error (''Artifact not found: '' @ i))
       | Some raw \<Rightarrow>
           let digest = sha256_hex cd raw in
           if art_sha256 ref \<noteq> digest \<or> art_size ref \<noteq> int (length raw)
           then Inl (value_error ''Artifact manifest integrity check failed'')
           else if artifact_id_of cd digest (art_policy ref) \<noteq> i
           then Inl (value_error ''Artifact integrity check failed'')
           else case utf8_decode raw of
               None \<Rightarrow> Inl (value_error ''Artifact is not valid UTF-8 text'')
             | Some text \<Rightarrow> Inr text))"

definition is_os_error :: "exn \<Rightarrow> bool" where
  "is_os_error e = (case e of Exn c _ \<Rightarrow> c = OtherError ''PermissionError'' | _ \<Rightarrow> False)"

text \<open>The file names that match \<^verbatim>\<open>art-*.json\<close>, sorted, without their suffix.\<close>

definition manifest_stems :: "files \<Rightarrow> string list" where
  "manifest_stems fs =
     map (\<lambda>n. take (length n - 5) n)
       (sort (filter (\<lambda>n. take 4 n = ''art-'' \<and> 9 \<le> length n \<and> drop (length n - 5) n = ''.json'')
          (map fst fs)))"

fun list_loop ::
  "artifact_codec \<Rightarrow> datetime \<Rightarrow> files \<Rightarrow> artifact_access option \<Rightarrow> bool \<Rightarrow> string list \<Rightarrow>
     exn + artifact_ref list" where
  "list_loop cd now fs access include_expired [] = Inr []"
| "list_loop cd now fs access include_expired (i # is) =
     (case bindR (load_ref cd fs i) (\<lambda>ref. bindR (require_access ref access) (\<lambda>_. Inr ref)) of
        Inl e \<Rightarrow> if is_value_error e \<or> is_os_error e then list_loop cd now fs access include_expired is
                 else Inl e
      | Inr ref \<Rightarrow>
          if \<not> include_expired \<and> is_expired now ref then list_loop cd now fs access include_expired is
          else bindR (list_loop cd now fs access include_expired is) (\<lambda>refs. Inr (ref # refs)))"

definition list_refs ::
  "artifact_codec \<Rightarrow> datetime \<Rightarrow> files \<Rightarrow> artifact_access option \<Rightarrow> bool \<Rightarrow> exn + artifact_ref list" where
  "list_refs cd now fs access include_expired =
     list_loop cd now fs access include_expired (manifest_stems fs)"

definition delete_artifact ::
  "artifact_codec \<Rightarrow> datetime \<Rightarrow> string \<Rightarrow> artifact_access \<Rightarrow> bool \<Rightarrow> (files, artifact_ref) sm" where
  "delete_artifact cd now i access allow_expired =
     bindE getE (\<lambda>fs.
     bindE (liftE (get_ref cd now fs i (Some access) allow_expired)) (\<lambda>ref.
       if \<not> can_delete_artifact access (art_policy ref)
       then raiseE (permission_error ''Artifact delete capability is required'')
       else
         bindE (liftE (payload_path i)) (\<lambda>payload.
         bindE (modifyE (dict_pop payload)) (\<lambda>_.
         bindE (liftE (manifest_path i)) (\<lambda>manifest.
         bindE (modifyE (dict_pop manifest)) (\<lambda>_. retE ref))))))"

definition cleanup_expired ::
  "artifact_codec \<Rightarrow> datetime \<Rightarrow> artifact_access \<Rightarrow> (files, artifact_ref list) sm" where
  "cleanup_expired cd now access =
     bindE getE (\<lambda>fs.
     bindE (liftE (list_refs cd now fs (Some access) True)) (\<lambda>refs.
       mapE (\<lambda>ref. delete_artifact cd now (art_id ref) access True)
         (filter (is_expired now) refs)))"

section \<open>What the store promises\<close>


lemma utf8_decode_char: "utf8_decode (utf8_char c @ s) = map_option (Cons c) (utf8_decode s)"
proof (cases "(of_char c :: nat) < 128")
  case True
  then show ?thesis by (cases s) (simp_all add: utf8_char_def Let_def)
next
  case False
  define k where "k = (of_char c :: nat)"
  have k: "128 \<le> k" "k < 256" using False nat_of_char_less_256 [of c] by (simp_all add: k_def)
  then have lead: "192 + k div 64 \<in> {194, 195}" by auto
  have "(k div 64) * 64 + k mod 64 = k" by simp
  then have "char_of ((192 + k div 64 - 192) * 64 + (128 + k mod 64) mod 64) = c"
    by (simp add: k_def mod_add_eq [symmetric])
  then show ?thesis using k lead by (auto simp: utf8_char_def Let_def simp flip: k_def)
qed

lemma utf8_roundtrip [simp]: "utf8_decode (utf8_encode s) = Some s"
  by (induction s) (simp_all add: utf8_encode_def utf8_decode_char)

text \<open>
  The documented behaviour of the library functions that the lemmas rely on: a digest is 64
  hexadecimal digits, and JSON text reads back as the value it was made from.
\<close>

definition artifact_codec_ok :: "artifact_codec \<Rightarrow> bool" where
  "artifact_codec_ok cd \<longleftrightarrow>
     (\<forall>b. length (sha256_hex cd b) = 64 \<and> list_all is_hex_lower (sha256_hex cd b))"

definition reads_back :: "artifact_codec \<Rightarrow> jval \<Rightarrow> bool" where
  "reads_back cd v \<longleftrightarrow> (json_ok v \<longrightarrow> manifest_loads cd (manifest_dumps cd v) = Some v)"

lemma artifact_id_valid:
  assumes "artifact_codec_ok cd"
  shows "valid_artifact_id (artifact_id_of cd (sha256_hex cd b) p)"
proof -
  have hex: "length (sha256_hex cd b) = 64" "list_all is_hex_lower (take n (sha256_hex cd b))" for b n
    using assms by (auto simp: artifact_codec_ok_def list_all_iff dest: in_set_takeD)
  show ?thesis using hex by (simp add: valid_artifact_id_def artifact_id_of_def nth_append)
qed

text \<open>An owner named by an empty text reads back as no owner; these are the policies that survive.\<close>

definition policy_storable :: "artifact_policy \<Rightarrow> bool" where
  "policy_storable p \<longleftrightarrow> check_artifact_policy p = Inr p \<and>
     pol_session p \<noteq> Some '''' \<and> pol_run p \<noteq> Some '''' \<and> pol_expires p \<noteq> Some ''''"

lemma text_if_set_jopt: "get_or_none d k = jopt_str x \<Longrightarrow> x \<noteq> Some '''' \<Longrightarrow> text_if_set d k = x"
  by (cases x) (auto simp: text_if_set_def)

lemma policy_roundtrip: "policy_storable p \<Longrightarrow> policy_from_dict (JObj (policy_to_dict p)) = Inr p"
  by (cases p) (auto simp: policy_from_dict_def policy_to_dict_def policy_storable_def Let_def
      text_if_set_jopt check_artifact_policy_def split: if_splits)

lemma ref_roundtrip: "policy_storable (art_policy r) \<Longrightarrow> ref_from_dict (ref_to_dict r) = Inr r"
  by (simp add: ref_from_dict_def ref_to_dict_def policy_roundtrip dict_or_empty_def)

lemma get_ref_Inr:
  assumes "get_ref cd now fs i access allow_expired = Inr ref"
  shows "load_ref cd fs i = Inr ref \<and> require_access ref access = Inr () \<and>
         (allow_expired \<or> \<not> is_expired now ref)"
  using assms by (auto simp: get_ref_def bindR_Inr_iff split: if_splits)

lemma load_ref_Inr:
  assumes "load_ref cd fs i = Inr ref"
  shows "art_id ref = i \<and> art_sha256 ref \<noteq> '''' \<and> artifact_id_of cd (art_sha256 ref) (art_policy ref) = i"
proof -
  obtain path raw where body: "(case raw of Some (JObj d) \<Rightarrow>
         (case ref_from_dict d of
            Inl e \<Rightarrow> Inl (if is_value_or_type_error e
                          then value_error ''Artifact manifest fields are invalid'' else e)
          | Inr ref \<Rightarrow>
              if art_id ref \<noteq> i \<or> art_sha256 ref = ''''
              then Inl (value_error ''Artifact manifest identity is invalid'')
              else if artifact_id_of cd (art_sha256 ref) (art_policy ref) \<noteq> i
              then Inl (value_error ''Artifact manifest identity is invalid'')
              else Inr ref)
     | _ \<Rightarrow> Inl (value_error ''Artifact manifest is missing or invalid'')) = Inr ref"
    and "manifest_path i = Inr path" "read_manifest cd fs path = Inr raw"
    using assms unfolding load_ref_def bindR_Inr_iff by blast
  then obtain d where "raw = Some (JObj d)" by (cases raw; cases "the raw") simp_all
  with body show ?thesis by (cases "ref_from_dict d") (simp_all split: if_splits)
qed

text \<open>
  Whatever the directory holds, text that is read is the payload whose digest the identifier names,
  and a scoped artifact is read under an access that covers its scope.
\<close>

lemma read_text_sound:
  assumes "read_text cd now fs i access = Inr text"
  obtains raw ref where "dict_get fs (i @ ''.data'') = Some raw" "utf8_decode raw = Some text"
    "get_ref cd now fs i access False = Inr ref" "art_id ref = i" "art_sha256 ref = sha256_hex cd raw"
    "art_size ref = int (length raw)" "artifact_id_of cd (sha256_hex cd raw) (art_policy ref) = i"
proof -
  obtain ref path where ref: "get_ref cd now fs i access False = Inr ref"
    and path: "payload_path i = Inr path"
    and rest: "(case dict_get fs path of
         None \<Rightarrow> Inl (value_error (''Artifact not found: '' @ i))
       | Some raw \<Rightarrow>
           let digest = sha256_hex cd raw in
           if art_sha256 ref \<noteq> digest \<or> art_size ref \<noteq> int (length raw)
           then Inl (value_error ''Artifact manifest integrity check failed'')
           else if artifact_id_of cd digest (art_policy ref) \<noteq> i
           then Inl (value_error ''Artifact integrity check failed'')
           else case utf8_decode raw of
               None \<Rightarrow> Inl (value_error ''Artifact is not valid UTF-8 text'')
             | Some text \<Rightarrow> Inr text) = Inr text"
    using assms by (auto simp: read_text_def bindR_Inr_iff)
  have "path = i @ ''.data''" using path by (auto simp: payload_path_def bindR_Inr_iff)
  moreover have "art_id ref = i" using get_ref_Inr [OF ref] load_ref_Inr by blast
  ultimately show ?thesis
    using rest that ref by (auto simp: Let_def split: option.splits if_splits)
qed

lemma check_artifact_policy_expiry:
  "check_artifact_policy p = Inr p \<Longrightarrow> check_artifact_policy (p\<lparr>pol_expires := x\<rparr>) = Inr (p\<lparr>pol_expires := x\<rparr>)"
  by (auto simp: check_artifact_policy_def split: if_splits)

lemma expiring_storable:
  assumes "expiring expires_in now p = Inr pol" and "policy_storable p"
  shows "policy_storable pol"
proof (cases expires_in)
  case (Some ttl)
  then obtain t where t: "check_artifact_policy (p\<lparr>pol_expires := Some (isoformat t)\<rparr>) = Inr pol"
    using assms(1) by (auto simp: expiring_def bindR_Inr_iff split: if_splits)
  moreover have "check_artifact_policy p = Inr p" using assms(2) by (simp add: policy_storable_def)
  ultimately have "pol = p\<lparr>pol_expires := Some (isoformat t)\<rparr>"
    by (simp add: check_artifact_policy_expiry)
  with t assms(2) show ?thesis by (simp add: policy_storable_def isoformat_nonempty)
qed (use assms in \<open>simp add: expiring_def\<close>)

lemma paths_of_id:
  assumes "artifact_codec_ok cd" and "i = artifact_id_of cd (sha256_hex cd b) p"
  shows "payload_path i = Inr (i @ ''.data'')" "manifest_path i = Inr (i @ ''.json'')" "check_artifact_id i = Inr ()"
  using artifact_id_valid [OF assms(1)] assms(2)
  by (simp_all add: payload_path_def manifest_path_def check_artifact_id_def)

lemma load_ref_absent:
  "manifest_path i = Inr (i @ ''.json'') \<Longrightarrow> dict_get fs (i @ ''.json'') = None \<Longrightarrow>
   load_ref cd fs i = Inl (value_error ''Artifact manifest is missing or invalid'')"
  by (simp add: load_ref_def read_manifest_def)

lemma load_ref_written:
  assumes ok: "artifact_codec_ok cd" and json: "reads_back cd (JObj (ref_to_dict ref))"
    and r: "policy_storable (art_policy ref)" "json_ok_obj (art_metadata ref)"
    "art_sha256 ref = sha256_hex cd b" "art_id ref = artifact_id_of cd (sha256_hex cd b) (art_policy ref)"
    and stored: "dict_get fs (art_id ref @ ''.json'') = Some (utf8_encode (manifest_dumps cd (JObj (ref_to_dict ref))))"
  shows "load_ref cd fs (art_id ref) = Inr ref"
proof -
  have "json_ok (JObj (ref_to_dict ref))" using r(2) by (simp add: ref_to_dict_def policy_to_dict_def)
  then have "manifest_loads cd (manifest_dumps cd (JObj (ref_to_dict ref))) = Some (JObj (ref_to_dict ref))"
    using json by (simp add: reads_back_def)
  moreover have "sha256_hex cd b \<noteq> ''''" using ok by (auto simp: artifact_codec_ok_def dest: spec [of _ b])
  ultimately show ?thesis
    using paths_of_id [OF ok r(4)] stored r ref_roundtrip [OF r(1)]
    by (simp add: load_ref_def read_manifest_def)
qed

text \<open>The first time some content is stored under a policy.\<close>

lemma put_text_fresh:
  assumes ok: "artifact_codec_ok cd"
    and pol: "expiring expires_in t1 (case_option default_artifact_policy id policy) = Inr pol"
    and put: "put_text cd t1 t2 content media metadata policy expires_in fs = (Inr ref, fs')"
    and i: "i = artifact_id_of cd (sha256_hex cd (utf8_encode content)) pol"
    and fresh: "dict_get fs (i @ ''.json'') = None"
  defines "fs1 \<equiv> (if (case dict_get fs (i @ ''.data'') of None \<Rightarrow> True
        | Some raw \<Rightarrow> sha256_hex cd raw \<noteq> sha256_hex cd (utf8_encode content))
      then dict_set (i @ ''.data'') (utf8_encode content) fs else fs)"
  shows "ref = \<lparr>art_id = i, art_media_type = media, art_size = int (length (utf8_encode content)),
           art_sha256 = sha256_hex cd (utf8_encode content), art_created = isoformat t2,
           art_metadata = metadata, art_policy = pol\<rparr> \<and>
         fs' = dict_set (i @ ''.json'') (utf8_encode (manifest_dumps cd (JObj (ref_to_dict ref)))) fs1"
proof -
  note paths = paths_of_id [OF ok i]
  have fs1: "dict_get fs1 (i @ ''.json'') = None" using fresh by (simp add: fs1_def)
  have none: "load_ref_if_valid cd fs1 i d n = Inr None" for d n
    using load_ref_absent [OF paths(2) fs1] by (simp add: load_ref_if_valid_def is_value_error_def value_error_def)
  have invalid: "manifest_is_valid cd fs1 (i @ ''.json'') d n = Inr False" for d n
    using fs1 by (simp add: manifest_is_valid_def read_manifest_def)
  have wrote: "whenE b (atomic_write path c) s = (Inr (), if b then dict_set path c s else s)" for b path c s
    by (simp add: whenE_def atomic_write_def modifyE_def retE_def)
  show ?thesis
    using put unfolding put_text_def pol Let_def
    by (auto simp: bindE_eq_Inr liftE_def getE_def i [symmetric] paths wrote none invalid retE_def
        fs1_def [symmetric] simp del: if_split)
qed

text \<open>An expiry does not change who owns an artifact, so not its identifier either.\<close>

lemma expiring_id:
  assumes "expiring expires_in now p = Inr pol"
  shows "artifact_id_of cd d pol = artifact_id_of cd d p"
proof -
  have "check_artifact_policy q = Inr r \<Longrightarrow> r = q" for q r
    by (simp add: check_artifact_policy_def split: if_splits)
  then have "pol_session pol = pol_session p \<and> pol_run pol = pol_run p"
    using assms by (fastforce simp: expiring_def bindR_Inr_iff split: option.splits if_splits)
  then show ?thesis by (simp add: artifact_id_of_def)
qed

text \<open>What is stored under a new identifier is what is loaded.\<close>

lemma put_text_stored:
  assumes ok: "artifact_codec_ok cd"
    and storable: "policy_storable owner" "json_ok_obj metadata"
    and put: "put_text cd t1 t2 content media metadata (Some owner) expires_in fs = (Inr ref, fs')"
    and fresh: "dict_get fs (artifact_id_of cd (sha256_hex cd (utf8_encode content)) owner @ ''.json'') = None"
    and json: "reads_back cd (JObj (ref_to_dict ref))"
  shows "art_id ref = artifact_id_of cd (sha256_hex cd (utf8_encode content)) owner \<and>
         load_ref cd fs' (art_id ref) = Inr ref \<and> art_sha256 ref = sha256_hex cd (utf8_encode content) \<and>
         art_size ref = int (length (utf8_encode content)) \<and>
         artifact_id_of cd (art_sha256 ref) (art_policy ref) = art_id ref \<and>
         (\<exists>raw. dict_get fs' (art_id ref @ ''.data'') = Some raw \<and> sha256_hex cd raw = art_sha256 ref \<and>
            (raw = utf8_encode content \<or> dict_get fs (art_id ref @ ''.data'') = Some raw))"
proof -
  obtain pol where pol: "expiring expires_in t1 owner = Inr pol"
    using put by (auto simp: put_text_def bindE_def liftE_def raiseE_def split: sum.splits)
  define i where "i = artifact_id_of cd (sha256_hex cd (utf8_encode content)) pol"
  have i: "artifact_id_of cd (sha256_hex cd (utf8_encode content)) owner = i"
    by (simp add: i_def expiring_id [OF pol])
  have "expiring expires_in t1 (case_option default_artifact_policy id (Some owner)) = Inr pol"
    by (simp add: pol)
  note written = put_text_fresh [OF ok this put i_def fresh [unfolded i]]
  have ref: "art_id ref = i" "art_sha256 ref = sha256_hex cd (utf8_encode content)"
    "art_size ref = int (length (utf8_encode content))" "art_policy ref = pol" "art_metadata ref = metadata"
    using written by simp_all
  have "load_ref cd fs' (art_id ref) = Inr ref"
    using load_ref_written [OF ok json, of "utf8_encode content" fs'] written
      expiring_storable [OF pol storable(1)] storable(2) by (simp add: ref i_def)
  moreover have "\<exists>raw. dict_get fs' (i @ ''.data'') = Some raw \<and> sha256_hex cd raw = art_sha256 ref \<and>
      (raw = utf8_encode content \<or> dict_get fs (i @ ''.data'') = Some raw)"
    using written by (auto simp: ref split: option.splits if_splits)
  ultimately show ?thesis using i by (simp add: ref) (simp add: i_def)
qed

text \<open>Storing the same content again, under the same owner, finds it and changes nothing.\<close>

lemma put_text_again:
  assumes ok: "artifact_codec_ok cd"
    and ref: "load_ref cd fs i = Inr ref" "art_sha256 ref = sha256_hex cd (utf8_encode content)"
      "art_size ref = int (length (utf8_encode content))"
    and i: "i = artifact_id_of cd (sha256_hex cd (utf8_encode content)) owner"
    and raw: "dict_get fs (i @ ''.data'') = Some raw" "sha256_hex cd raw = art_sha256 ref"
  shows "put_text cd t1 t2 content media metadata (Some owner) None fs = (Inr ref, fs)"
proof -
  note paths = paths_of_id [OF ok i]
  have "load_ref_if_valid cd fs i (sha256_hex cd (utf8_encode content)) (int (length (utf8_encode content)))
      = Inr (Some ref)"
    using ref load_ref_Inr [OF ref(1)] by (simp add: load_ref_if_valid_def)
  then show ?thesis
    using raw ref(2)
    by (simp add: put_text_def expiring_def Let_def bindE_def liftE_def retE_def getE_def whenE_def
        i [symmetric] paths)
qed

text \<open>Deleting removes the two files of one artifact and nothing else.\<close>

lemma delete_artifact_Inr:
  assumes "delete_artifact cd now i access allow fs = (Inr ref, fs')"
  shows "load_ref cd fs i = Inr ref \<and> can_delete_artifact access (art_policy ref) \<and>
         fs' = dict_pop (i @ ''.json'') (dict_pop (i @ ''.data'') fs)"
  using assms
  by (auto simp: delete_artifact_def bindE_eq_Inr getE_def liftE_def retE_def modifyE_def raiseE_def
      payload_path_def manifest_path_def bindR_Inr_iff dest!: get_ref_Inr split: sum.splits if_splits)

end
