(* ===== verification/Tasks.thy ===== *)
theory Tasks
  imports Aihi_Prelude "HOL-Library.Multiset"
begin

text \<open>
  Coroutines. A task is what an \<^verbatim>\<open>async\<close> function still has to do: it has returned or raised
  (\<open>Ret\<close>), does something to the state and goes on (\<open>Do\<close>), or is suspended at an \<^verbatim>\<open>await\<close> (\<open>Yield\<close>).
  Between two suspensions a task runs alone, as the event loop guarantees. \<open>gather\<close> runs several
  tasks, one slice at a time, in an order that a function of the state picks.
\<close>

section \<open>Tasks\<close>

datatype ('s, 'a) task = Ret "exn + 'a" | Do "'s \<Rightarrow> ('s, 'a) task \<times> 's" | Yield "('s, 'a) task"

definition retT :: "'a \<Rightarrow> ('s, 'a) task" where
  "retT x = Ret (Inr x)"

definition raiseT :: "exn \<Rightarrow> ('s, 'a) task" where
  "raiseT e = Ret (Inl e)"

text \<open>A synchronous computation as one uninterrupted step.\<close>

definition liftT :: "('s, 'a) sm \<Rightarrow> ('s, 'a) task" where
  "liftT m = Do (\<lambda>s. case m s of (r, s') \<Rightarrow> (Ret r, s'))"

primrec bindT :: "('s, 'a) task \<Rightarrow> ('a \<Rightarrow> ('s, 'b) task) \<Rightarrow> ('s, 'b) task" where
  "bindT (Ret r) f = (case r of Inl e \<Rightarrow> Ret (Inl e) | Inr x \<Rightarrow> f x)"
| "bindT (Do g) f = Do (\<lambda>s. map_prod (\<lambda>t. bindT t f) id (g s))"
| "bindT (Yield t) f = Yield (bindT t f)"

text \<open>\<^verbatim>\<open>try: ... except\<close>: the handler sees every exception and re-raises what its clauses do not name.\<close>

primrec catchT :: "('s, 'a) task \<Rightarrow> (exn \<Rightarrow> ('s, 'a) task) \<Rightarrow> ('s, 'a) task" where
  "catchT (Ret r) h = (case r of Inl e \<Rightarrow> h e | Inr x \<Rightarrow> Ret (Inr x))"
| "catchT (Do g) h = Do (\<lambda>s. map_prod (\<lambda>t. catchT t h) id (g s))"
| "catchT (Yield t) h = Yield (catchT t h)"

definition thenT :: "('s, 'a) task \<Rightarrow> ('s, 'b) task \<Rightarrow> ('s, 'b) task" where
  "thenT m n = bindT m (\<lambda>_. n)"

fun mapT :: "('a \<Rightarrow> ('s, 'b) task) \<Rightarrow> 'a list \<Rightarrow> ('s, 'b list) task" where
  "mapT f [] = retT []"
| "mapT f (x # xs) = bindT (f x) (\<lambda>y. bindT (mapT f xs) (\<lambda>ys. retT (y # ys)))"

text \<open>A task on its own, from its first step to its end; suspensions just pass.\<close>

primrec run_task :: "('s, 'a) task \<Rightarrow> ('s, 'a) sm" where
  "run_task (Ret r) = (\<lambda>s. (r, s))"
| "run_task (Do g) = (\<lambda>s. case map_prod run_task id (g s) of (t, s') \<Rightarrow> t s')"
| "run_task (Yield t) = run_task t"

text \<open>A task up to its next suspension.\<close>

primrec run_slice :: "('s, 'a) task \<Rightarrow> 's \<Rightarrow> ('s, 'a) task \<times> 's" where
  "run_slice (Ret r) = (\<lambda>s. (Ret r, s))"
| "run_slice (Do g) = (\<lambda>s. case map_prod run_slice id (g s) of (t, s') \<Rightarrow> t s')"
| "run_slice (Yield t) = (\<lambda>s. (Yield t, s))"

lemma run_task_bindT: "run_task (bindT t f) = bindE (run_task t) (\<lambda>x. run_task (f x))"
proof (induction t)
  case (Ret r)
  then show ?case by (cases r) (auto simp: bindE_def fun_eq_iff)
next
  case (Do g)
  show ?case
  proof
    fix s
    obtain t s' where g: "g s = (t, s')" by (cases "g s")
    have "run_task (bindT t f) = bindE (run_task t) (\<lambda>x. run_task (f x))"
      by (rule Do [OF rangeI [of g s]]) (simp add: g)
    then show "run_task (bindT (Do g) f) s = bindE (run_task (Do g)) (\<lambda>x. run_task (f x)) s"
      by (simp add: g bindE_def)
  qed
qed simp

lemma run_task_catchT: "run_task (catchT t h) = catchE (run_task t) (\<lambda>e. run_task (h e))"
proof (induction t)
  case (Ret r)
  then show ?case by (cases r) (auto simp: catchE_def fun_eq_iff)
next
  case (Do g)
  show ?case
  proof
    fix s
    obtain t s' where g: "g s = (t, s')" by (cases "g s")
    have "run_task (catchT t h) = catchE (run_task t) (\<lambda>e. run_task (h e))"
      by (rule Do [OF rangeI [of g s]]) (simp add: g)
    then show "run_task (catchT (Do g) h) s = catchE (run_task (Do g)) (\<lambda>e. run_task (h e)) s"
      by (simp add: g catchE_def)
  qed
qed simp

lemma run_task_simps [simp]:
  "run_task (retT x) = retE x" "run_task (raiseT e) = raiseE e" "run_task (liftT m) = m"
  "run_task (thenT t u) = thenE (run_task t) (run_task u)"
  by (auto simp: retT_def raiseT_def liftT_def thenT_def thenE_def retE_def raiseE_def run_task_bindT
      fun_eq_iff split: prod.split)

lemma run_task_mapT: "run_task (mapT f xs) = mapE (\<lambda>x. run_task (f x)) xs"
  by (induction xs) (simp_all add: run_task_bindT)

lemmas run_task_rules = run_task_bindT run_task_catchT run_task_mapT run_task_simps

section \<open>What a task does to the state, whoever runs in between\<close>

primrec steps_in :: "('s \<Rightarrow> 's \<Rightarrow> bool) \<Rightarrow> ('s, 'a) task \<Rightarrow> bool" where
  "steps_in R (Ret r) = True"
| "steps_in R (Do g) = (\<forall>s. R s (snd (g s)) \<and> fst (map_prod (steps_in R) id (g s)))"
| "steps_in R (Yield t) = steps_in R t"

lemma steps_in_Do: "steps_in R (Do g) \<longleftrightarrow> (\<forall>s. R s (snd (g s)) \<and> steps_in R (fst (g s)))"
  by (simp add: fst_map_prod)

lemma steps_in_basic: "steps_in R (retT x)" "steps_in R (raiseT e)"
  by (simp_all add: retT_def raiseT_def)

lemma steps_in_liftT: "advances R m \<Longrightarrow> steps_in R (liftT m)"
  by (simp add: liftT_def advances_def split_beta)

lemma steps_in_bindT:
  "steps_in R t \<Longrightarrow> (\<And>x. steps_in R (f x)) \<Longrightarrow> steps_in R (bindT t f)"
proof (induction t)
  case (Ret r)
  then show ?case by (cases r) simp_all
next
  case (Do g)
  have "steps_in R (bindT (fst (g s)) f)" for s
  proof (rule Do.IH [OF rangeI [of g s]])
    show "fst (g s) \<in> Basic_BNFs.fsts (g s)" by (simp add: fsts.simps)
    show "steps_in R (fst (g s))" using Do.prems(1) by (simp add: fst_map_prod)
  qed (rule Do.prems(2))
  then show ?case using Do.prems(1) by (simp add: fst_map_prod)
qed simp

lemma steps_in_catchT:
  "steps_in R t \<Longrightarrow> (\<And>e. steps_in R (h e)) \<Longrightarrow> steps_in R (catchT t h)"
proof (induction t)
  case (Ret r)
  then show ?case by (cases r) simp_all
next
  case (Do g)
  have "steps_in R (catchT (fst (g s)) h)" for s
  proof (rule Do.IH [OF rangeI [of g s]])
    show "fst (g s) \<in> Basic_BNFs.fsts (g s)" by (simp add: fsts.simps)
    show "steps_in R (fst (g s))" using Do.prems(1) by (simp add: fst_map_prod)
  qed (rule Do.prems(2))
  then show ?case using Do.prems(1) by (simp add: fst_map_prod)
qed simp

lemma steps_in_thenT: "steps_in R m \<Longrightarrow> steps_in R n \<Longrightarrow> steps_in R (thenT m n)"
  by (simp add: thenT_def steps_in_bindT)

lemma steps_in_mapT: "(\<And>x. x \<in> set xs \<Longrightarrow> steps_in R (f x)) \<Longrightarrow> steps_in R (mapT f xs)"
  by (induction xs) (auto intro!: steps_in_bindT steps_in_basic)

text \<open>The branches of a task.\<close>

lemma steps_in_if: "steps_in R t \<Longrightarrow> steps_in R u \<Longrightarrow> steps_in R (if b then t else u)"
  by simp

lemma steps_in_option:
  "steps_in R t \<Longrightarrow> (\<And>x. steps_in R (f x)) \<Longrightarrow> steps_in R (case v of None \<Rightarrow> t | Some x \<Rightarrow> f x)"
  by (cases v) simp_all

lemma steps_in_sum:
  "(\<And>e. steps_in R (h e)) \<Longrightarrow> (\<And>x. steps_in R (f x)) \<Longrightarrow> steps_in R (case v of Inl e \<Rightarrow> h e | Inr x \<Rightarrow> f x)"
  by (cases v) simp_all

lemma steps_in_prod: "(\<And>x y. steps_in R (f x y)) \<Longrightarrow> steps_in R (case p of (x, y) \<Rightarrow> f x y)"
  by (cases p) simp

lemmas steps_in_rules = steps_in_if steps_in_option steps_in_sum steps_in_prod steps_in_basic steps_in_liftT steps_in_bindT steps_in_catchT steps_in_thenT
  steps_in_mapT

context step_order
begin

lemma run_task_advances: "steps_in R t \<Longrightarrow> advances R (run_task t)"
proof (induction t)
  case (Do g)
  have "advances R (run_task (fst (g s)))" for s
  proof (rule Do.IH [OF rangeI [of g s]])
    show "fst (g s) \<in> Basic_BNFs.fsts (g s)" by (simp add: fsts.simps)
    show "steps_in R (fst (g s))" using Do.prems by (simp add: fst_map_prod)
  qed
  moreover have "R s (snd (g s))" for s using Do.prems by simp
  ultimately show ?case by (auto simp: advances_def split_beta intro: step_trans)
qed (simp_all add: advances_def step_refl)

lemma run_slice_advances:
  "steps_in R t \<Longrightarrow> R s (snd (run_slice t s)) \<and> steps_in R (fst (run_slice t s))"
proof (induction t arbitrary: s)
  case (Do g)
  have "R s' (snd (run_slice (fst (g s)) s')) \<and> steps_in R (fst (run_slice (fst (g s)) s'))" for s s'
  proof (rule Do.IH [OF rangeI [of g s]])
    show "fst (g s) \<in> Basic_BNFs.fsts (g s)" by (simp add: fsts.simps)
    show "steps_in R (fst (g s))" using Do.prems by (simp add: fst_map_prod)
  qed
  moreover have "R s (snd (g s))" using Do.prems by simp
  ultimately show ?case by (auto simp: split_beta intro: step_trans)
qed (simp_all add: step_refl)

end

section \<open>Running several tasks at once\<close>

text \<open>The slices of a task get ever smaller: they are below it in a well-founded order.\<close>

definition task_sub :: "(('s, 'a) task \<times> ('s, 'a) task) set" where
  "task_sub = {(fst (g s), Do g) | g s. True} \<union> {(t, Yield t) | t. True}"

lemma wf_task_sub: "wf (task_sub :: (('s, 'a) task \<times> ('s, 'a) task) set)"
proof (rule wfUNIVI)
  fix P :: "('s, 'a) task \<Rightarrow> bool" and t
  assume step: "\<forall>t. (\<forall>u. (u, t) \<in> task_sub \<longrightarrow> P u) \<longrightarrow> P t"
  show "P t"
  proof (induction t)
    case (Ret r)
    show ?case by (rule step [rule_format]) (simp add: task_sub_def)
  next
    case (Do g)
    have "P (fst (g s))" for s
      by (rule Do [OF rangeI [of g s]]) (simp add: fsts.simps)
    then show ?case by - (rule step [rule_format], auto simp: task_sub_def)
  next
    case (Yield t)
    then show ?case by - (rule step [rule_format], auto simp: task_sub_def)
  qed
qed

lemma run_slice_sub: "(fst (run_slice t s), t) \<in> task_sub\<^sup>*"
proof (induction t arbitrary: s)
  case (Do g)
  have "(fst (run_slice (fst (g s)) s'), fst (g s)) \<in> task_sub\<^sup>*" for s'
    by (rule Do [OF rangeI [of g s]]) (simp add: fsts.simps)
  moreover have "(fst (g s), Do g) \<in> task_sub" by (auto simp: task_sub_def)
  ultimately have "(fst (run_slice (fst (g s)) s'), Do g) \<in> task_sub\<^sup>*" for s'
    by (rule rtrancl_into_rtrancl)
  then show ?case by (simp add: split_beta)
qed auto

text \<open>Waking a task at its suspension, and running it to the next.\<close>

fun wake :: "('s, 'a) task \<Rightarrow> 's \<Rightarrow> ('s, 'a) task \<times> 's" where
  "wake (Yield t) s = run_slice t s"
| "wake t s = run_slice t s"

fun is_done :: "('s, 'a) task \<Rightarrow> bool" where
  "is_done (Ret r) = True"
| "is_done _ = False"

lemma wake_sub: "\<not> is_done t \<Longrightarrow> (fst (wake t s), t) \<in> task_sub\<^sup>+"
proof (cases t)
  case (Do g)
  have "(fst (run_slice (fst (g s)) (snd (g s))), fst (g s)) \<in> task_sub\<^sup>*" by (rule run_slice_sub)
  moreover have "(fst (g s), Do g) \<in> task_sub" by (auto simp: task_sub_def)
  ultimately show ?thesis by (simp add: Do split_beta rtrancl_into_trancl1)
next
  case (Yield u)
  have "(fst (run_slice u s), u) \<in> task_sub\<^sup>*" by (rule run_slice_sub)
  moreover have "(u, Yield u) \<in> task_sub" by (auto simp: task_sub_def)
  ultimately show ?thesis by (simp add: Yield rtrancl_into_trancl1)
qed simp

definition live :: "('s, 'a) task list \<Rightarrow> nat list" where
  "live ts = filter (\<lambda>i. \<not> is_done (ts ! i)) [0..<length ts]"

lemma live_mem: "i \<in> set (live ts) \<Longrightarrow> i < length ts \<and> \<not> is_done (ts ! i)"
  by (auto simp: live_def)

fun raised :: "('s, 'a) task \<Rightarrow> exn option" where
  "raised (Ret (Inl e)) = Some e"
| "raised _ = None"

fun returned :: "('s, 'a) task \<Rightarrow> 'a option" where
  "returned (Ret (Inr x)) = Some x"
| "returned _ = None"

text \<open>
  \<^verbatim>\<open>asyncio.gather(*tasks)\<close>: \<open>pick\<close> reads from the state which of the \<open>n\<close> live tasks the event loop
  runs next. The first exception that reaches \<^verbatim>\<open>gather\<close> ends it.
\<close>

function gather :: "('s \<Rightarrow> nat) \<Rightarrow> ('s, 'a) task list \<Rightarrow> ('s, 'a list) task" where
  "gather pick ts =
     (case List.map_filter raised ts of
        e # _ \<Rightarrow> Ret (Inl e)
      | [] \<Rightarrow>
          if live ts = [] then Ret (Inr (List.map_filter returned ts))
          else Do (\<lambda>s.
            let i = live ts ! (pick s mod length (live ts)); p = wake (ts ! i) s in
            (Yield (gather pick (ts[i := fst p])), snd p)))"
  by pat_completeness auto
termination
proof (relation "inv_image (mult (task_sub\<^sup>+)) (\<lambda>(pick, ts). mset ts)", goal_cases)
  case 1
  show ?case by (intro wf_inv_image wf_mult wf_trancl wf_task_sub)
next
  case (2 pick ts s i p)
  then have "i \<in> set (live ts)" by simp
  then have mem: "i < length ts" "\<not> is_done (ts ! i)" using live_mem by blast+
  have "(fst p, ts ! i) \<in> task_sub\<^sup>+" unfolding 2(4) by (rule wake_sub [OF mem(2)])
  then have "(mset ts - {#ts ! i#} + {#fst p#}, mset ts - {#ts ! i#} + {#ts ! i#}) \<in> mult (task_sub\<^sup>+)"
    by (intro one_step_implies_mult) auto
  then show ?case
    using mem(1) by (simp add: mset_update add_mset_add_single [symmetric])
qed

declare gather.simps [simp del]

context step_order
begin

lemma wake_advances: "steps_in R t \<Longrightarrow> R s (snd (wake t s)) \<and> steps_in R (fst (wake t s))"
proof (cases t)
  case (Yield u)
  then show "steps_in R t \<Longrightarrow> ?thesis" using run_slice_advances [of u s] by simp
qed (use run_slice_advances [of t s] in simp_all)

text \<open>However the tasks are interleaved, the whole respects what each of them respects.\<close>

lemma steps_in_gather:
  assumes "\<And>t. t \<in> set ts \<Longrightarrow> steps_in R t"
  shows "steps_in R (gather pick ts)"
  using assms
proof (induction pick ts rule: gather.induct)
  case (1 pick ts)
  show ?case
  proof (cases "List.map_filter raised ts = [] \<and> live ts \<noteq> []")
    case True
    have "steps_in R (gather pick (ts[i := fst (wake (ts ! i) s)])) \<and> R s (snd (wake (ts ! i) s))"
      if i: "i = live ts ! (pick s mod length (live ts))" for i s
    proof -
      have "i \<in> set (live ts)" using True by (simp add: i)
      then have "steps_in R (ts ! i)" using live_mem "1.prems" by fastforce
      note woken = wake_advances [OF this, of s]
      have "steps_in R (gather pick (ts[i := fst (wake (ts ! i) s)]))"
      proof (rule "1.IH" [OF _ _ i refl])
        show "steps_in R t" if "t \<in> set (ts[i := fst (wake (ts ! i) s)])" for t
          using that set_update_subset_insert [of ts i] woken "1.prems" by fastforce
      qed (use True in simp_all)
      with woken show ?thesis by simp
    qed
    with True show ?thesis by (subst gather.simps) (simp add: Let_def)
  next
    case False
    then show ?thesis by (subst gather.simps) (auto split: list.split)
  qed
qed

end

section \<open>Rely and guarantee\<close>

text \<open>
  \<open>upholds G R Q t s\<close>: from the moment the state is \<open>s\<close>, and whatever others do to it in between as
  long as they respect \<open>G\<close>, every step of \<open>t\<close> respects \<open>R\<close>, and where \<open>t\<close> returns, \<open>Q\<close> holds of its
  result and goes on holding.
\<close>

primrec upholds ::
  "('s \<Rightarrow> 's \<Rightarrow> bool) \<Rightarrow> ('s \<Rightarrow> 's \<Rightarrow> bool) \<Rightarrow> ('a \<Rightarrow> 's \<Rightarrow> bool) \<Rightarrow> ('s, 'a) task \<Rightarrow> 's \<Rightarrow> bool" where
  "upholds G R Q (Ret r) =
     (\<lambda>s. case r of Inl e \<Rightarrow> True | Inr x \<Rightarrow> \<forall>u. G s u \<longrightarrow> Q x u)"
| "upholds G R Q (Do g) =
     (\<lambda>s. \<forall>u. G s u \<longrightarrow> R u (snd (g u)) \<and> fst (map_prod (upholds G R Q) id (g u)) (snd (g u)))"
| "upholds G R Q (Yield t) = upholds G R Q t"

lemma upholds_Do: "upholds G R Q (Do g) s \<longleftrightarrow>
  (\<forall>u. G s u \<longrightarrow> R u (snd (g u)) \<and> upholds G R Q (fst (g u)) (snd (g u)))"
  by (simp add: fst_map_prod)

declare upholds.simps(2) [simp del]
declare upholds_Do [simp]

abbreviation anyhow :: "'a \<Rightarrow> 's \<Rightarrow> bool" where
  "anyhow \<equiv> \<lambda>_ _. True"

locale rely_guarantee = step_order R for R :: "'s \<Rightarrow> 's \<Rightarrow> bool" +
  fixes G :: "'s \<Rightarrow> 's \<Rightarrow> bool"
  assumes rely_refl: "G s s" and rely_trans: "G s t \<Longrightarrow> G t u \<Longrightarrow> G s u"
    and guarantee: "R s t \<Longrightarrow> G s t"
begin

text \<open>A step inside a task: the induction hypothesis at the state the step leaves.\<close>

lemma upholds_mono: "upholds G R Q t s \<Longrightarrow> G s s' \<Longrightarrow> upholds G R Q t s'"
proof (induction t)
  case (Ret r)
  then show ?case using rely_trans by (fastforce split: sum.splits)
next
  case (Do g)
  then show ?case using rely_trans by (auto simp del: upholds.simps)
qed simp

lemma upholds_weaken: "upholds G R Q t s \<Longrightarrow> (\<And>x u. Q x u \<Longrightarrow> Q' x u) \<Longrightarrow> upholds G R Q' t s"
proof (induction t arbitrary: s)
  case (Ret r)
  then show ?case by (auto split: sum.splits)
next
  case (Do g)
  have "upholds G R Q' (fst (g u)) (snd (g u))" if "G s u" for u
    by (rule Do.IH [OF rangeI [of g u]]) (use that Do.prems in \<open>auto simp: fsts.simps\<close>)
  with Do.prems show ?case by simp
qed simp

lemma upholds_anyhow: "upholds G R Q t s \<Longrightarrow> upholds G R anyhow t s"
  by (rule upholds_weaken) simp_all

lemma upholds_retT: "(\<And>u. G s u \<Longrightarrow> Q x u) \<Longrightarrow> upholds G R Q (retT x) s"
  by (simp add: retT_def)

lemma upholds_raiseT: "upholds G R Q (raiseT e) s"
  by (simp add: raiseT_def)

lemma upholds_liftT:
  assumes "\<And>u. G s u \<Longrightarrow> R u (snd (m u))"
    and "\<And>u x v. G s u \<Longrightarrow> fst (m u) = Inr x \<Longrightarrow> G (snd (m u)) v \<Longrightarrow> Q x v"
  shows "upholds G R Q (liftT m) s"
  using assms by (auto simp: liftT_def split_beta split: sum.split)

lemma upholds_bindT:
  "upholds G R Q t s \<Longrightarrow> (\<And>x u. G s u \<Longrightarrow> Q x u \<Longrightarrow> upholds G R Q' (f x) u) \<Longrightarrow>
   upholds G R Q' (bindT t f) s"
proof (induction t arbitrary: s)
  case (Ret r)
  then show ?case using rely_refl by (cases r) auto
next
  case (Do g)
  have "upholds G R Q' (bindT (fst (g u)) f) (snd (g u))" if u: "G s u" for u
  proof (rule Do.IH [OF rangeI [of g u]])
    show "fst (g u) \<in> Basic_BNFs.fsts (g u)" by (simp add: fsts.simps)
    show "upholds G R Q (fst (g u)) (snd (g u))" using u Do.prems(1) by simp
    show "upholds G R Q' (f x) v" if "G (snd (g u)) v" "Q x v" for x v
      using that u Do.prems rely_trans guarantee by (metis upholds_Do)
  qed
  with Do.prems(1) show ?case by (simp add: fst_map_prod)
qed simp

lemma upholds_catchT:
  "upholds G R Q t s \<Longrightarrow> (\<And>e u. G s u \<Longrightarrow> upholds G R Q (h e) u) \<Longrightarrow> upholds G R Q (catchT t h) s"
proof (induction t arbitrary: s)
  case (Ret r)
  then show ?case using rely_refl by (cases r) auto
next
  case (Do g)
  have "upholds G R Q (catchT (fst (g u)) h) (snd (g u))" if u: "G s u" for u
  proof (rule Do.IH [OF rangeI [of g u]])
    show "fst (g u) \<in> Basic_BNFs.fsts (g u)" by (simp add: fsts.simps)
    show "upholds G R Q (fst (g u)) (snd (g u))" using u Do.prems(1) by simp
    show "upholds G R Q (h e) v" if "G (snd (g u)) v" for e v
      using that u Do.prems rely_trans guarantee by (metis upholds_Do)
  qed
  with Do.prems(1) show ?case by (simp add: fst_map_prod)
qed simp

lemma upholds_thenT:
  "upholds G R anyhow t s \<Longrightarrow> (\<And>u. G s u \<Longrightarrow> upholds G R Q t' u) \<Longrightarrow> upholds G R Q (thenT t t') s"
  unfolding thenT_def by (rule upholds_bindT)

lemma upholds_steps: "steps_in R t \<Longrightarrow> upholds G R anyhow t s"
proof (induction t arbitrary: s)
  case (Ret r)
  then show ?case by (simp split: sum.split)
next
  case (Do g)
  have "upholds G R anyhow (fst (g u)) (snd (g u))" for u
    by (rule Do.IH [OF rangeI [of g u]]) (use Do.prems in \<open>auto simp: fsts.simps fst_map_prod\<close>)
  with Do.prems show ?case by (simp add: fst_map_prod)
qed simp

lemma upholds_slice:
  "upholds G R Q t s \<Longrightarrow> R s (snd (run_slice t s)) \<and> upholds G R Q (fst (run_slice t s)) (snd (run_slice t s))"
proof (induction t arbitrary: s)
  case (Do g)
  have g: "R s (snd (g s))" "upholds G R Q (fst (g s)) (snd (g s))"
    using Do.prems rely_refl by auto
  have "R (snd (g s)) (snd (run_slice (fst (g s)) (snd (g s)))) \<and>
      upholds G R Q (fst (run_slice (fst (g s)) (snd (g s)))) (snd (run_slice (fst (g s)) (snd (g s))))"
    by (rule Do.IH [OF rangeI [of g s]]) (use g(2) in \<open>auto simp: fsts.simps\<close>)
  with g(1) show ?case by (auto simp: split_beta intro: step_trans)
qed (simp_all add: step_refl)

lemma upholds_wake:
  "upholds G R Q t s \<Longrightarrow> R s (snd (wake t s)) \<and> upholds G R Q (fst (wake t s)) (snd (wake t s))"
proof (cases t)
  case (Yield u)
  then show "upholds G R Q t s \<Longrightarrow> ?thesis" using upholds_slice [of Q u s] by simp
qed (use upholds_slice [of Q t s] in simp_all)

lemma upholds_gather:
  assumes "\<And>t. t \<in> set ts \<Longrightarrow> upholds G R anyhow t s"
  shows "upholds G R anyhow (gather pick ts) s"
  using assms
proof (induction pick ts arbitrary: s rule: gather.induct)
  case (1 pick ts)
  show ?case
  proof (cases "List.map_filter raised ts = [] \<and> live ts \<noteq> []")
    case True
    have "upholds G R anyhow (gather pick (ts[i := fst (wake (ts ! i) u)])) (snd (wake (ts ! i) u)) \<and>
        R u (snd (wake (ts ! i) u))"
      if u: "G s u" and i: "i = live ts ! (pick u mod length (live ts))" for i u
    proof -
      have "i \<in> set (live ts)" using True by (simp add: i)
      then have "upholds G R anyhow (ts ! i) s" using live_mem "1.prems" by fastforce
      note woken = upholds_wake [OF upholds_mono [OF this u]]
      have after: "G s (snd (wake (ts ! i) u))" using u woken guarantee rely_trans by blast
      have "upholds G R anyhow (gather pick (ts[i := fst (wake (ts ! i) u)])) (snd (wake (ts ! i) u))"
      proof (rule "1.IH" [OF _ _ i refl])
        show "upholds G R anyhow t (snd (wake (ts ! i) u))" if "t \<in> set (ts[i := fst (wake (ts ! i) u)])" for t
          using that set_update_subset_insert [of ts i] woken upholds_mono [OF "1.prems" after] by fastforce
      qed (use True in simp_all)
      with woken show ?thesis by simp
    qed
    with True show ?thesis by (subst gather.simps) (simp add: Let_def)
  next
    case False
    then show ?thesis by (subst gather.simps) (auto split: list.split)
  qed
qed

lemma upholds_run: "upholds G R Q t s \<Longrightarrow> run_task t s = (r, s') \<Longrightarrow> R s s' \<and> (\<forall>x. r = Inr x \<longrightarrow> Q x s')"
proof (induction t arbitrary: s)
  case (Ret r')
  then show ?case using rely_refl step_refl by (auto split: sum.splits)
next
  case (Do g)
  have g: "R s (snd (g s))" "upholds G R Q (fst (g s)) (snd (g s))"
    using Do.prems rely_refl by auto
  have "R (snd (g s)) s' \<and> (\<forall>x. r = Inr x \<longrightarrow> Q x s')"
    by (rule Do.IH [OF rangeI [of g s]]) (use g(2) Do.prems(2) in \<open>auto simp: fsts.simps split_beta\<close>)
  with g(1) show ?case by (blast intro: step_trans)
qed simp

lemma upholds_mapT:
  "(\<And>x u. x \<in> set xs \<Longrightarrow> G s u \<Longrightarrow> upholds G R anyhow (f x) u) \<Longrightarrow> upholds G R anyhow (mapT f xs) s"
proof (induction xs arbitrary: s)
  case (Cons x xs)
  have "upholds G R anyhow (mapT f xs) u" if "G s u" for u
    by (rule Cons.IH) (use that Cons.prems rely_trans in \<open>auto\<close>)
  with Cons.prems show ?case
    by (auto intro!: upholds_bindT [of anyhow] upholds_retT rely_refl)
qed (simp add: upholds_retT)

lemmas upholds_rules = upholds_raiseT upholds_bindT [of anyhow] upholds_catchT upholds_thenT

end

end
