(* ===== verification/Runtime_Env.thy ===== *)
theory Runtime_Env
  imports Tasks Sessions Run_State Artifacts
begin

text \<open>
  The world a run acts in: the session and its store, the event loop's clock of suspensions, the
  cancel event of the run's owner, the answers of code outside the harness, and the run's state
  machine. \<open>await_cancelable\<close> is \<^verbatim>\<open>aihi/agent/_core/awaits.py\<close>.
\<close>

text \<open>
  \<open>ticks\<close> counts suspensions. \<open>cancel_event\<close> is \<open>None\<close> for a run without a cancel event and
  \<open>Some k\<close> for one whose owner sets it during suspension \<open>k\<close>. \<open>pick_task\<close> is the order in which
  the event loop runs concurrent tasks. \<open>ext_calls\<close> counts the calls made to outside code, \<open>delays\<close>
  says how often each of them suspends, and \<open>mono_clock\<close> is \<^verbatim>\<open>time.monotonic\<close> by its readings.
  \<open>artifact_files\<close> is the directory of the artifact store.
\<close>

record renv = env +
  ticks :: nat
  cancel_event :: "nat option"
  pick_task :: "nat \<Rightarrow> nat"
  ext_calls :: nat
  delays :: "nat \<Rightarrow> nat"
  mono_clock :: "nat \<Rightarrow> rat"
  mono_reads :: nat
  machine :: run_state
  artifact_files :: files

section \<open>Suspending and calling outside code\<close>

definition pauseT :: "('z renv_scheme, unit) task" where
  "pauseT = Do (\<lambda>s. (Yield (retT ()), s\<lparr>ticks := Suc (ticks s)\<rparr>))"

fun pausesT :: "nat \<Rightarrow> ('z renv_scheme, unit) task" where
  "pausesT 0 = retT ()"
| "pausesT (Suc n) = thenT pauseT (pausesT n)"

text \<open>\<open>externalT f\<close>: await the \<open>n\<close>-th call to outside code, which comes to \<open>f n\<close>.\<close>

definition externalT :: "(nat \<Rightarrow> exn + 'a) \<Rightarrow> ('z renv_scheme, 'a) task" where
  "externalT f = Do (\<lambda>s. let n = ext_calls s in
     (thenT (pausesT (delays s n)) (Ret (f n)), s\<lparr>ext_calls := Suc n\<rparr>))"

definition monotonic :: "('z renv_scheme, rat) sm" where
  "monotonic = (\<lambda>s. (Inr (mono_clock s (mono_reads s)), s\<lparr>mono_reads := Suc (mono_reads s)\<rparr>))"

section \<open>Cancellation\<close>

definition cancelled_error :: exn where
  "cancelled_error = Exn (Py CancelledError) ''''"

definition cancel_requested :: "'z renv_scheme \<Rightarrow> bool" where
  "cancel_requested s = (case cancel_event s of None \<Rightarrow> False | Some k \<Rightarrow> k \<le> ticks s)"

text \<open>
  The operation and the watcher of the cancel event side by side. The operation's first steps run
  before the event is looked at; then, at every suspension it wakes from and once more when it has
  ended, a set event cancels it.
\<close>

primrec watched :: "('z renv_scheme, 'a) task \<Rightarrow> ('z renv_scheme, 'a) task" where
  "watched (Ret r) = thenT pauseT (Do (\<lambda>s.
     (if cancel_requested s then raiseT cancelled_error else Ret r, s)))"
| "watched (Do g) = Do (\<lambda>s. map_prod watched id (g s))"
| "watched (Yield t) = Yield (Do (\<lambda>s.
     (if cancel_requested s then raiseT cancelled_error else watched t, s)))"

definition await_cancelable :: "('z renv_scheme, 'a) task \<Rightarrow> ('z renv_scheme, 'a) task" where
  "await_cancelable t = Do (\<lambda>s.
     (if cancel_event s = None then t
      else if cancel_requested s then raiseT cancelled_error
      else thenT pauseT (watched t), s))"

definition check_cancel :: "('z renv_scheme, unit) sm" where
  "check_cancel = (\<lambda>s. if cancel_requested s then raiseE cancelled_error s else retE () s)"

definition gatherT :: "('z renv_scheme, 'a) task list \<Rightarrow> ('z renv_scheme, 'a list) task" where
  "gatherT = gather (\<lambda>s. pick_task s (ticks s))"

section \<open>Relations these steps respect\<close>

text \<open>A relation that time and the counters of the event loop do not disturb.\<close>

locale loop_order = step_order R for R :: "'z renv_scheme \<Rightarrow> 'z renv_scheme \<Rightarrow> bool" +
  assumes tick_step: "R s (s\<lparr>ticks := n\<rparr>)"
    and call_step: "R s (s\<lparr>ext_calls := n\<rparr>)"
    and mono_step: "R s (s\<lparr>mono_reads := n\<rparr>)"
begin

lemma pauseT_steps: "steps_in R pauseT"
  by (simp add: pauseT_def tick_step retT_def)

lemma pausesT_steps: "steps_in R (pausesT n)"
  by (induction n) (auto intro!: steps_in_rules pauseT_steps)

lemma externalT_steps: "steps_in R (externalT f)"
proof -
  have "steps_in R (thenT (pausesT n) (Ret r))" for n and r :: "exn + 'a"
    by (intro steps_in_rules pausesT_steps) simp
  then show ?thesis by (simp add: externalT_def Let_def call_step)
qed

lemma monotonic_advances: "advances R monotonic"
  by (simp add: advances_def monotonic_def mono_step)

lemma check_cancel_advances: "advances R check_cancel"
  by (simp add: advances_def check_cancel_def raiseE_def retE_def step_refl)

lemma watched_steps: "steps_in R t \<Longrightarrow> steps_in R (watched t)"
proof (induction t)
  case (Ret r)
  show ?case
    by (simp, intro steps_in_thenT pauseT_steps) (simp add: step_refl raiseT_def)
next
  case (Do g)
  have "steps_in R (watched (fst (g s)))" for s
  proof (rule Do.IH [OF rangeI [of g s]])
    show "fst (g s) \<in> Basic_BNFs.fsts (g s)" by (simp add: fsts.simps)
    show "steps_in R (fst (g s))" using Do.prems by (simp add: fst_map_prod)
  qed
  then show ?case using Do.prems by (simp add: fst_map_prod)
next
  case (Yield t)
  then show ?case by (simp add: step_refl raiseT_def)
qed

lemma await_cancelable_steps: "steps_in R t \<Longrightarrow> steps_in R (await_cancelable t)"
  by (auto simp: await_cancelable_def step_refl intro!: steps_in_rules pauseT_steps watched_steps)

lemma gatherT_steps: "(\<And>t. t \<in> set ts \<Longrightarrow> steps_in R t) \<Longrightarrow> steps_in R (gatherT ts)"
  unfolding gatherT_def by (rule steps_in_gather)

lemmas loop_steps = steps_in_rules pauseT_steps pausesT_steps externalT_steps watched_steps
  await_cancelable_steps gatherT_steps

end


text \<open>A cancelled run does not start the operation it would await.\<close>

lemma await_cancelable_set:
  "cancel_requested s \<Longrightarrow> run_task (await_cancelable t) s = (Inl cancelled_error, s)"
  by (auto simp: await_cancelable_def cancel_requested_def raiseT_def split: option.splits)

lemma await_cancelable_none:
  "cancel_event s = None \<Longrightarrow> run_task (await_cancelable t) s = run_task t s"
  by (simp add: await_cancelable_def)

end
