(* ===== verification/Hook_Bus.thy ===== *)
theory Hook_Bus
  imports Runtime_Env Model_Types "HOL-Library.Product_Lexorder"
begin

text \<open>
  The hook bus: \<^verbatim>\<open>aihi/agent/hooks/bus.py\<close>. Handlers are code outside the harness: a handler is
  what its \<open>n\<close>-th call to outside code comes to. A handler that exceeds its time limit is one that
  raises \<open>TimeoutError\<close>. The texts in which the code formats a value with \<^verbatim>\<open>!r\<close> are shortened.
\<close>

section \<open>Names, governance, events\<close>

definition HOOK_EVENT_NAMES :: "string list" where
  "HOOK_EVENT_NAMES =
     [''run.started'', ''run.stopped'', ''model.before'', ''model.after'', ''tool.before'', ''tool.after'',
      ''policy.decided'', ''compact.before'', ''compact.after'', ''subagent.started'', ''subagent.completed'']"

datatype hook_failure_policy = FailFast | Continue

definition parse_failure_policy :: "jval \<Rightarrow> hook_failure_policy option" where
  "parse_failure_policy v =
     (if v = JStr ''fail_fast'' then Some FailFast
      else if v = JStr ''continue'' then Some Continue else None)"

record hook_governance =
  gov_run :: "string option"
  policy_allowed :: bool
  gov_approval :: "string option"
  gov_leases :: "string list"

definition run_governance :: "string option \<Rightarrow> bool \<Rightarrow> hook_governance" where
  "run_governance rid allowed =
     \<lparr>gov_run = rid, policy_allowed = allowed, gov_approval = None, gov_leases = []\<rparr>"

definition allows_mutation :: "hook_governance \<Rightarrow> bool" where
  "allows_mutation g = policy_allowed g"

definition governance_to_dict :: "hook_governance \<Rightarrow> jobj" where
  "governance_to_dict g =
     [(''run_id'', jopt_str (gov_run g)), (''policy_allowed'', JBool (policy_allowed g)),
      (''approval_id'', jopt_str (gov_approval g)), (''capability_lease_ids'', jstrs (gov_leases g))]"

record hook_event =
  hev_name :: string
  hev_payload :: jobj
  hev_governance :: "hook_governance option"

definition hook_event_to_dict :: "hook_event \<Rightarrow> jobj" where
  "hook_event_to_dict e =
     [(''name'', JStr (hev_name e)), (''payload'', JObj (hev_payload e)),
      (''governance'', case hev_governance e of None \<Rightarrow> JNull | Some g \<Rightarrow> JObj (governance_to_dict g))]"

section \<open>Registrations and outcomes\<close>

type_synonym hook_handler = "hook_event \<Rightarrow> nat \<Rightarrow> exn + unit"

record hook_registration =
  reg_id :: string
  reg_event :: string
  reg_handler :: hook_handler
  reg_priority :: int
  reg_sequence :: int
  reg_timeout :: rat
  reg_policy :: hook_failure_policy
  reg_mutates :: bool
  reg_trusted :: bool
  reg_source :: string

record hook_outcome =
  out_hook :: string
  out_event :: string
  out_success :: bool
  out_elapsed_ms :: rat
  out_code :: "string option"
  out_error :: "string option"

text \<open>\<^verbatim>\<open>round(value, 3)\<close>: to the nearest thousandth, ties to the even one.\<close>

definition round_half_even :: "rat \<Rightarrow> int" where
  "round_half_even r =
     (let f = floor r; d = r - of_int f in
      if d < 1 / 2 then f else if 1 / 2 < d then f + 1 else if even f then f else f + 1)"

definition outcome_to_dict :: "hook_outcome \<Rightarrow> jobj" where
  "outcome_to_dict r =
     [(''hook_id'', JStr (out_hook r)), (''event_name'', JStr (out_event r)),
      (''success'', JBool (out_success r)),
      (''elapsed_ms'', JFloat (of_int (round_half_even (out_elapsed_ms r * 1000)) / 1000)),
      (''error_code'', jopt_str (out_code r)), (''error'', jopt_str (out_error r))]"

record hook_dispatch =
  disp_event :: hook_event
  disp_outcomes :: "hook_outcome list"

definition dispatch_failures :: "hook_dispatch \<Rightarrow> hook_outcome list" where
  "dispatch_failures d = filter (\<lambda>r. \<not> out_success r) (disp_outcomes d)"

section \<open>The bus\<close>

record hook_bus =
  bus_handlers :: "(string, hook_registration list) dict"
  bus_ids :: "string set"
  bus_sequence :: int
  bus_timeout :: rat

text \<open>A time limit is an int or a float, no bool, finite and positive.\<close>

definition positive_number :: "jval \<Rightarrow> rat option" where
  "positive_number v =
     (case v of
        JInt i \<Rightarrow> if 0 < i then Some (of_int i) else None
      | JFloat r \<Rightarrow> if 0 < r then Some r else None
      | _ \<Rightarrow> None)"

definition new_hook_bus :: "jval \<Rightarrow> exn + hook_bus" where
  "new_hook_bus timeout =
     (case positive_number timeout of
        None \<Rightarrow> Inl (Exn (Py ValueError) ''Hook timeout must be positive'')
      | Some t \<Rightarrow> Inr \<lparr>bus_handlers = [], bus_ids = {}, bus_sequence = 0, bus_timeout = t\<rparr>)"

definition registration_error :: "string \<Rightarrow> exn" where
  "registration_error m = Exn (Hook HookRegistrationError) m"

definition handlers_of :: "hook_bus \<Rightarrow> string \<Rightarrow> hook_registration list" where
  "handlers_of bus name = (case dict_get (bus_handlers bus) name of None \<Rightarrow> [] | Some rs \<Rightarrow> rs)"

text \<open>
  The arguments of \<^verbatim>\<open>register\<close> as the caller passes them: the code checks their types itself.
  \<open>spec_hook_id\<close> and \<open>spec_timeout\<close> may be absent.
\<close>

record hook_spec =
  spec_event :: string
  spec_handler :: hook_handler
  spec_hook_id :: jval
  spec_priority :: jval
  spec_timeout :: "jval option"
  spec_policy :: jval
  spec_mutates :: jval
  spec_trusted :: jval
  spec_source :: jval

text \<open>The checks before the bus changes: the time limit, the policy, the flags and the source.\<close>

definition check_hook_spec ::
  "rat \<Rightarrow> hook_spec \<Rightarrow> exn + (int \<times> rat \<times> hook_failure_policy \<times> bool \<times> bool \<times> string)" where
  "check_hook_spec default_timeout h =
     (if spec_event h = '''' \<or> list_ex is_space (spec_event h)
      then Inl (registration_error ''Hook event name must be non-empty and whitespace-free'')
      else case spec_priority h of
        JInt priority \<Rightarrow>
          (case (case spec_timeout h of None \<Rightarrow> Some default_timeout | Some v \<Rightarrow> positive_number v) of
             None \<Rightarrow> Inl (registration_error ''Hook timeout must be positive'')
           | Some timeout \<Rightarrow>
               (case parse_failure_policy (spec_policy h) of
                  None \<Rightarrow> Inl (registration_error ''Unknown Hook failure policy'')
                | Some policy \<Rightarrow>
                    (case (spec_mutates h, spec_trusted h) of
                       (JBool mutating, JBool trusted) \<Rightarrow>
                         (if mutating \<and> \<not> trusted
                          then Inl (registration_error ''Mutating Hooks require explicit trust'')
                          else case spec_source h of
                            JStr source \<Rightarrow>
                              (if blank source
                               then Inl (registration_error ''Hook source must be explicit'')
                               else Inr (priority, timeout, policy, mutating, trusted, source))
                          | _ \<Rightarrow> Inl (registration_error ''Hook source must be explicit''))
                     | _ \<Rightarrow> Inl (registration_error ''Hook mutates and trusted flags must be boolean''))))
      | _ \<Rightarrow> Inl (registration_error ''Hook priority must be an integer''))"

text \<open>The sequence number advances before the identifier is checked, also when the check then fails.\<close>

definition register_hook :: "hook_spec \<Rightarrow> (hook_bus, string) sm" where
  "register_hook h =
     bindE getE (\<lambda>bus.
     bindE (liftE (check_hook_spec (bus_timeout bus) h))
       (\<lambda>(priority, timeout, policy, mutating, trusted, source).
     let sequence = bus_sequence bus + 1;
         identifier = (if truthy (spec_hook_id h) then spec_hook_id h
                       else JStr (''hook-'' @ show_int sequence)) in
     bindE (putE (bus\<lparr>bus_sequence := sequence\<rparr>)) (\<lambda>_.
     case identifier of
       JStr i \<Rightarrow>
         (if blank i \<or> i \<in> bus_ids bus
          then raiseE (registration_error (''Duplicate or empty Hook id: '' @ i))
          else
            let r = \<lparr>reg_id = i, reg_event = spec_event h, reg_handler = spec_handler h,
                     reg_priority = priority, reg_sequence = sequence, reg_timeout = timeout,
                     reg_policy = policy, reg_mutates = mutating, reg_trusted = trusted,
                     reg_source = source\<rparr> in
            bindE (modifyE (\<lambda>b. b\<lparr>bus_handlers :=
                dict_set (spec_event h) (handlers_of b (spec_event h) @ [r]) (bus_handlers b),
              bus_ids := insert i (bus_ids b)\<rparr>)) (\<lambda>_. retE i))
     | _ \<Rightarrow> raiseE (registration_error ''Duplicate or empty Hook id: ''))))"

definition unregister_hook :: "string \<Rightarrow> (hook_bus, bool) sm" where
  "unregister_hook i =
     bindE getE (\<lambda>bus.
     let keep = filter (\<lambda>r. reg_id r \<noteq> i);
         removed = list_ex (\<lambda>(_, rs). length (keep rs) \<noteq> length rs) (bus_handlers bus) in
     if removed
     then bindE (putE (bus\<lparr>bus_handlers := map (map_prod id keep) (bus_handlers bus),
                          bus_ids := bus_ids bus - {i}\<rparr>)) (\<lambda>_. retE True)
     else retE False)"

definition registrations :: "hook_bus \<Rightarrow> string \<Rightarrow> hook_registration list" where
  "registrations bus name =
     sort_key (\<lambda>r. (reg_priority r, reg_sequence r)) (handlers_of bus name)"

section \<open>Dispatch\<close>

text \<open>One handler: its outcome, or the cancellation that passes through.\<close>

definition call_handler ::
  "hook_event \<Rightarrow> hook_registration \<Rightarrow> ('z renv_scheme, hook_outcome) task" where
  "call_handler e r =
     bindT (liftT monotonic) (\<lambda>started.
     let finish = (\<lambda>ok code msg. bindT (liftT monotonic) (\<lambda>now. retT
           \<lparr>out_hook = reg_id r, out_event = hev_name e, out_success = ok,
            out_elapsed_ms = (now - started) * 1000, out_code = code, out_error = msg\<rparr>)) in
     bindT (catchT (thenT (externalT (reg_handler r e)) (retT None))
              (\<lambda>x. if is_cancelled x then raiseT x else retT (Some x)))
       (\<lambda>raised. case raised of
          None \<Rightarrow> finish True None None
        | Some x \<Rightarrow>
            (if is_timeout x
             then finish False (Some ''hook_timeout'')
                    (Some (if exn_text x = '''' then ''Hook timed out'' else exn_text x))
             else finish False
                    (Some (case exn_code x of None \<Rightarrow> ''hook_failed'' | Some c \<Rightarrow> c))
                    (Some (take 500 (exn_text x))))))"

text \<open>The loop over the registrations; \<open>outcomes\<close> are those of the handlers already run.\<close>

fun call_handlers ::
  "hook_event \<Rightarrow> hook_registration list \<Rightarrow> hook_outcome list \<Rightarrow>
     ('z renv_scheme, hook_outcome list) task" where
  "call_handlers e [] outcomes = retT outcomes"
| "call_handlers e (r # rs) outcomes =
     bindT (call_handler e r) (\<lambda>outcome.
       if \<not> out_success outcome \<and> reg_policy r = FailFast
       then raiseT (Exn (Hook HookDispatchError)
              (''Hook failed during '' @ hev_name e @ '': '' @ reg_id r))
       else call_handlers e rs (outcomes @ [outcome]))"

definition governance_error :: "string \<Rightarrow> exn" where
  "governance_error name =
     Exn (Hook HookGovernanceError) (''Mutating Hooks require policy approval: '' @ name)"

definition may_mutate :: "hook_governance option \<Rightarrow> bool" where
  "may_mutate g = (case g of None \<Rightarrow> False | Some x \<Rightarrow> allows_mutation x)"

definition emit_hook ::
  "hook_bus \<Rightarrow> string \<Rightarrow> jobj \<Rightarrow> hook_governance option \<Rightarrow> ('z renv_scheme, hook_dispatch) task" where
  "emit_hook bus name payload governance =
     (let e = \<lparr>hev_name = name, hev_payload = payload, hev_governance = governance\<rparr>;
          rs = registrations bus name in
      if list_ex reg_mutates rs \<and> \<not> may_mutate governance
      then raiseT (governance_error name)
      else bindT (call_handlers e rs [])
             (\<lambda>outcomes. retT \<lparr>disp_event = e, disp_outcomes = outcomes\<rparr>))"

section \<open>What registering and unregistering keep\<close>

definition all_hooks :: "hook_bus \<Rightarrow> hook_registration list" where
  "all_hooks bus = concat (map snd (bus_handlers bus))"

definition bus_wf :: "hook_bus \<Rightarrow> bool" where
  "bus_wf bus \<longleftrightarrow>
     dict_wf (bus_handlers bus) \<and>
     distinct (map reg_id (all_hooks bus)) \<and>
     bus_ids bus = reg_id ` set (all_hooks bus) \<and>
     distinct (map reg_sequence (all_hooks bus)) \<and>
     (\<forall>r \<in> set (all_hooks bus). reg_sequence r \<le> bus_sequence bus \<and>
        (reg_mutates r \<longrightarrow> reg_trusted r) \<and> 0 < reg_timeout r) \<and>
     (\<forall>(name, rs) \<in> set (bus_handlers bus). \<forall>r \<in> set rs. reg_event r = name) \<and>
     0 < bus_timeout bus"

lemma positive_number_pos: "positive_number v = Some t \<Longrightarrow> 0 < t"
  by (auto simp: positive_number_def split: jval.splits if_splits)

lemma new_hook_bus_wf: "new_hook_bus v = Inr bus \<Longrightarrow> bus_wf bus"
  by (auto simp: new_hook_bus_def bus_wf_def all_hooks_def positive_number_pos split: option.splits)

text \<open>A registration joins the list of its event: the hooks gain exactly that one.\<close>

definition with_hook :: "string \<Rightarrow> hook_registration \<Rightarrow> hook_bus \<Rightarrow> (string, hook_registration list) dict" where
  "with_hook name r bus = dict_set name (handlers_of bus name @ [r]) (bus_handlers bus)"

lemma mset_all_hooks_add:
  "mset (concat (map snd (with_hook name r bus))) = add_mset r (mset (all_hooks bus))"
proof -
  have "mset (concat (map snd (dict_set name ((case dict_get d name of None \<Rightarrow> [] | Some rs \<Rightarrow> rs) @ [r]) d)))
      = add_mset r (mset (concat (map snd d)))" for d :: "(string, hook_registration list) dict"
    by (induction d) auto
  then show ?thesis by (simp add: with_hook_def handlers_of_def all_hooks_def)
qed

lemma with_hook_mem:
  assumes "(n, rs) \<in> set (with_hook name r bus)" and "x \<in> set rs" and "dict_wf (bus_handlers bus)"
  shows "(x = r \<and> n = name) \<or> (\<exists>rs'. (n, rs') \<in> set (bus_handlers bus) \<and> x \<in> set rs')"
proof -
  have "(n, rs) \<in> insert (name, handlers_of bus name @ [r]) {p \<in> set (bus_handlers bus). fst p \<noteq> name}"
    using assms(1,3) by (simp add: with_hook_def dict_values_set)
  then show ?thesis
    using assms(2) by (auto simp: handlers_of_def split: option.splits dest: dict_get_mem)
qed

lemma distinct_map_mset:
  "mset xs = add_mset x (mset ys) \<Longrightarrow> distinct (map f xs) \<longleftrightarrow> f x \<notin> f ` set ys \<and> distinct (map f ys)"
  using mset_eq_imp_distinct_iff [of "map f xs" "map f (x # ys)"] by simp

lemma bus_wf_add:
  assumes bus: "bus_wf bus" and new: "reg_id r \<notin> bus_ids bus" "reg_event r = name"
    and later: "reg_sequence r = bus_sequence bus + 1"
    and ok: "reg_mutates r \<longrightarrow> reg_trusted r" "0 < reg_timeout r"
  shows "bus_wf (bus\<lparr>bus_sequence := bus_sequence bus + 1, bus_handlers := with_hook name r bus,
                     bus_ids := insert (reg_id r) (bus_ids bus)\<rparr>)"
proof -
  let ?hooks = "concat (map snd (with_hook name r bus))"
  note hooks = mset_all_hooks_add [of name r bus]
  have set: "set ?hooks = insert r (set (all_hooks bus))"
    using arg_cong [OF hooks, of set_mset] by simp
  have "distinct (map reg_id ?hooks)"
    using bus new(1) by (simp add: distinct_map_mset [OF hooks] bus_wf_def)
  moreover have "distinct (map reg_sequence ?hooks)"
    using bus later by (fastforce simp: distinct_map_mset [OF hooks] bus_wf_def)
  moreover have "\<forall>(n, rs) \<in> set (with_hook name r bus). \<forall>x \<in> set rs. reg_event x = n"
    using with_hook_mem [of _ _ name r bus] bus new(2) by (fastforce simp: bus_wf_def)
  moreover have "dict_wf (with_hook name r bus)"
    using bus by (simp add: with_hook_def bus_wf_def)
  ultimately show ?thesis
    using bus ok later set by (auto simp: bus_wf_def all_hooks_def [of "_\<lparr>bus_ids := _\<rparr>"])
qed

lemma check_hook_spec_Inr:
  assumes "check_hook_spec t h = Inr (p, timeout, pol, mut, trust, src)" and "0 < t"
  shows "(mut \<longrightarrow> trust) \<and> 0 < timeout \<and> spec_mutates h = JBool mut \<and> spec_trusted h = JBool trust"
  using assms positive_number_pos
  by (auto simp: check_hook_spec_def split: if_splits jval.splits option.splits)

text \<open>Whatever \<^verbatim>\<open>register\<close> is called with, and whether it raises or not, the bus stays well formed.\<close>

lemma register_hook_wf: "preserves bus_wf (register_hook h)"
proof (unfold preserves_def, intro allI impI)
  fix bus assume wf: "bus_wf bus"
  have stepped: "bus_wf (bus\<lparr>bus_sequence := bus_sequence bus + 1\<rparr>)"
    using wf by (fastforce simp: bus_wf_def all_hooks_def)
  have added: "bus_wf (bus\<lparr>bus_sequence := bus_sequence bus + 1, bus_handlers := with_hook (reg_event r) r bus,
                     bus_ids := insert (reg_id r) (bus_ids bus)\<rparr>)"
    if "reg_id r \<notin> bus_ids bus" "reg_sequence r = bus_sequence bus + 1"
       "reg_mutates r \<longrightarrow> reg_trusted r" "0 < reg_timeout r" for r
    using bus_wf_add [OF wf that(1) refl that(2,3,4)] .
  show "bus_wf (snd (register_hook h bus))"
  proof (cases "check_hook_spec (bus_timeout bus) h")
    case (Inl e)
    then show ?thesis using wf by (simp add: register_hook_def eff_simps)
  next
    case (Inr v)
    obtain p timeout pol mut trust src where v: "v = (p, timeout, pol, mut, trust, src)"
      by (metis prod_cases6)
    have checked: "(mut \<longrightarrow> trust) \<and> 0 < timeout"
      using check_hook_spec_Inr [OF Inr [unfolded v]] wf by (simp add: bus_wf_def)
    show ?thesis
      using stepped checked added [of "\<lparr>reg_id = i, reg_event = spec_event h, reg_handler = spec_handler h,
          reg_priority = p, reg_sequence = bus_sequence bus + 1, reg_timeout = timeout,
          reg_policy = pol, reg_mutates = mut, reg_trusted = trust, reg_source = src\<rparr>" for i]
      by (auto simp: register_hook_def eff_simps Inr v Let_def with_hook_def handlers_of_def
          split: jval.splits)
  qed
qed

lemma all_hooks_keep:
  "concat (map snd (map (map_prod id (filter p)) d)) = filter p (concat (map snd d))"
  by (induction d) auto

lemma removed_iff:
  "list_ex (\<lambda>(_, rs). length (filter p rs) \<noteq> length rs) d
     \<longleftrightarrow> (\<exists>r \<in> set (concat (map snd d)). \<not> p r)"
  by (induction d) (auto simp: filter_empty_conv length_filter_less dest: length_filter_less
      simp: nat_neq_iff less_le_not_le length_filter_le)

lemma handlers_of_hooks: "r \<in> set (handlers_of bus name) \<Longrightarrow> r \<in> set (all_hooks bus)"
  unfolding handlers_of_def all_hooks_def
  by (cases "dict_get (bus_handlers bus) name") (auto dest: dict_get_mem intro: bexI [rotated])

lemma filter_registrations:
  "filter p (registrations bus name) = sort_key (\<lambda>r. (reg_priority r, reg_sequence r)) (filter p (handlers_of bus name))"
  by (simp add: registrations_def filter_sort)

text \<open>\<^verbatim>\<open>unregister\<close> removes the one hook of that id, from whatever event it listens to.\<close>

lemma unregister_hook_result:
  assumes wf: "bus_wf bus" and call: "unregister_hook i bus = (r, bus')"
  shows "r = Inr (i \<in> bus_ids bus) \<and> bus_wf bus' \<and> bus_ids bus' = bus_ids bus - {i} \<and>
         (\<forall>name. registrations bus' name = filter (\<lambda>x. reg_id x \<noteq> i) (registrations bus name))"
proof (cases "i \<in> bus_ids bus")
  case False
  then have "filter (\<lambda>x. reg_id x \<noteq> i) (handlers_of bus name) = handlers_of bus name" for name
    using wf handlers_of_hooks [of _ bus name] by (auto simp: filter_id_conv bus_wf_def)
  then have "filter (\<lambda>x. reg_id x \<noteq> i) (registrations bus name) = registrations bus name" for name
    by (simp only: filter_registrations) (simp only: registrations_def)
  moreover have "\<not> list_ex (\<lambda>(_, rs). length (filter (\<lambda>r. reg_id r \<noteq> i) rs) \<noteq> length rs) (bus_handlers bus)"
    using False wf by (auto simp: removed_iff bus_wf_def all_hooks_def)
  ultimately show ?thesis
    using wf call False by (auto simp: unregister_hook_def eff_simps)
next
  case True
  let ?keep = "\<lambda>r. reg_id r \<noteq> i"
  have "list_ex (\<lambda>(_, rs). length (filter ?keep rs) \<noteq> length rs) (bus_handlers bus)"
    using True wf by (auto simp: removed_iff bus_wf_def all_hooks_def)
  then have r: "r = Inr True" and bus': "bus' = bus\<lparr>bus_handlers := map (map_prod id (filter ?keep)) (bus_handlers bus),
      bus_ids := bus_ids bus - {i}\<rparr>"
    using call by (auto simp: unregister_hook_def eff_simps)
  have hooks: "all_hooks bus' = filter ?keep (all_hooks bus)"
    unfolding all_hooks_def bus' all_hooks_keep [symmetric] by simp
  have "handlers_of bus' name = filter ?keep (handlers_of bus name)" for name
    by (simp add: handlers_of_def bus' map_prod_def map_of_map split: option.split)
  then have regs: "registrations bus' name = filter ?keep (registrations bus name)" for name
    by (simp only: filter_registrations) (simp only: registrations_def)
  moreover have "dict_wf (bus_handlers bus')"
    using wf by (simp add: bus' bus_wf_def dict_wf_def comp_def)
  moreover have "\<forall>(name, rs) \<in> set (bus_handlers bus'). \<forall>x \<in> set rs. reg_event x = name"
    using wf by (fastforce simp: bus' bus_wf_def)
  moreover have "reg_id ` set (filter ?keep (all_hooks bus)) = bus_ids bus - {i}"
    using wf by (auto simp: bus_wf_def)
  moreover have "distinct (map reg_id (filter ?keep (all_hooks bus)))"
    "distinct (map reg_sequence (filter ?keep (all_hooks bus)))"
    using wf by (simp_all add: bus_wf_def distinct_map_filter)
  moreover have "\<forall>x \<in> set (filter ?keep (all_hooks bus)). P x" if "\<forall>x \<in> set (all_hooks bus). P x" for P
    using that by simp
  ultimately have "bus_wf bus'" using wf unfolding bus_wf_def hooks by (simp add: bus')
  with r regs True show ?thesis by (simp add: bus')
qed

section \<open>What a dispatch does\<close>

lemma run_pausesT: "run_task (pausesT n) s = (Inr (), s\<lparr>ticks := ticks s + n\<rparr>)"
  by (induction n arbitrary: s) (simp_all add: run_task_rules eff_simps pauseT_def retT_def thenT_def)

lemma run_externalT:
  "run_task (externalT f) s =
     (f (ext_calls s), s\<lparr>ext_calls := Suc (ext_calls s), ticks := ticks s + delays s (ext_calls s)\<rparr>)"
  by (simp add: externalT_def Let_def run_task_rules run_pausesT eff_simps)

lemma call_handler_Inr:
  assumes "run_task (call_handler e r) s = (Inr outcome, t)"
  shows "out_hook outcome = reg_id r \<and> out_event outcome = hev_name e \<and>
         (out_success outcome \<longleftrightarrow> reg_handler r e (ext_calls s) = Inr ()) \<and>
         ext_calls t = Suc (ext_calls s)"
  using assms
  by (auto simp: call_handler_def Let_def run_task_rules run_externalT eff_simps monotonic_def
      split: sum.splits if_splits)

lemma call_handlers_Inr:
  assumes "run_task (call_handlers e rs outcomes) s = (Inr res, t)"
  obtains new where "res = outcomes @ new" "map out_hook new = map reg_id rs"
    "list_all2 (\<lambda>r out. reg_policy r = FailFast \<longrightarrow> out_success out) rs new"
    "ext_calls t = ext_calls s + length rs"
  using assms
proof (induction rs arbitrary: outcomes s thesis)
  case Nil
  then show ?case by (auto simp: retE_def)
next
  case (Cons r rs)
  obtain v u where one: "run_task (call_handler e r) s = (v, u)" by (cases "run_task (call_handler e r) s")
  then obtain out where v: "v = Inr out"
    using Cons.prems(2) by (cases v) (auto simp: run_task_bindT bindE_def)
  note facts = call_handler_Inr [OF one [unfolded v]]
  have "\<not> (\<not> out_success out \<and> reg_policy r = FailFast)"
    using Cons.prems(2) one v by (auto simp: run_task_bindT bindE_def raiseE_def)
  moreover from this have "run_task (call_handlers e rs (outcomes @ [out])) u = (Inr res, t)"
    using Cons.prems(2) one v by (auto simp: run_task_bindT bindE_def)
  then obtain new where "res = (outcomes @ [out]) @ new" "map out_hook new = map reg_id rs"
    "list_all2 (\<lambda>r out. reg_policy r = FailFast \<longrightarrow> out_success out) rs new" "ext_calls t = ext_calls u + length rs"
    using Cons.IH by blast
  ultimately show ?case using facts by (intro Cons.prems(1) [of "out # new"]) auto
qed

text \<open>Registering and unregistering in any order, whatever each of them comes to.\<close>

datatype bus_call = RegisterHook hook_spec | UnregisterHook string

fun run_bus_call :: "bus_call \<Rightarrow> hook_bus \<Rightarrow> hook_bus" where
  "run_bus_call (RegisterHook h) bus = snd (register_hook h bus)"
| "run_bus_call (UnregisterHook i) bus = snd (unregister_hook i bus)"

lemma run_bus_call_wf: "bus_wf bus \<Longrightarrow> bus_wf (run_bus_call c bus)"
proof (cases c)
  case (RegisterHook h)
  then show "bus_wf bus \<Longrightarrow> ?thesis" using register_hook_wf by (simp add: preserves_def)
next
  case (UnregisterHook i)
  then show "bus_wf bus \<Longrightarrow> ?thesis" using unregister_hook_result by (cases "unregister_hook i bus") simp
qed

lemma run_bus_calls_wf: "bus_wf bus \<Longrightarrow> bus_wf (fold run_bus_call cs bus)"
  by (induction cs arbitrary: bus) (simp_all add: run_bus_call_wf)

end
