(* ===== verification/Dispatcher.thy ===== *)
theory Dispatcher
  imports Hook_Bus Policy_Engine Session_Authorization
begin

text \<open>
  The tool dispatcher: \<^verbatim>\<open>aihi/agent/tools/dispatcher.py\<close>. A call is looked up, validated, prepared,
  put to the policy engine and, when that allows it, run between its two hooks. The caller's event
  sink is told of every stage. What the tool itself does is code outside the harness.
\<close>

section \<open>Results\<close>

record dispatch_result =
  dr_call_id :: string
  dr_tool_name :: string
  dr_result :: tool_execution_result
  dr_decision :: "decision option"
  dr_started :: bool
  dr_metadata :: jobj
  dr_prepared_input :: jobj
  dr_execution :: jobj

record 's dispatcher =
  dsp_registry :: tool_registry
  dsp_policy :: "'s policy_engine"
  dsp_hooks :: hook_bus

type_synonym 's event_sink = "string \<Rightarrow> jobj \<Rightarrow> ('s, unit) task"

definition dispatch_error ::
  "tool_call_block \<Rightarrow> string \<Rightarrow> string \<Rightarrow> decision option \<Rightarrow> jobj \<Rightarrow> jobj \<Rightarrow> jobj \<Rightarrow> dispatch_result" where
  "dispatch_error call error_code content decision metadata prepared execution =
     \<lparr>dr_call_id = call_id call, dr_tool_name = call_name call,
      dr_result = \<lparr>exec_content = content, exec_is_error = True,
        exec_metadata = (if metadata = [] then [(''error_code'', JStr error_code)] else metadata)\<rparr>,
      dr_decision = decision, dr_started = False, dr_metadata = [],
      dr_prepared_input = prepared, dr_execution = execution\<rparr>"

text \<open>\<^verbatim>\<open>f"{seconds:.2f}"\<close>.\<close>

definition show_fixed2 :: "rat \<Rightarrow> string" where
  "show_fixed2 r =
     (let n = round_half_even (abs r * 100) in
      (if r < 0 then ''-'' else '''') @ show_int (n div 100) @ ''.'' @ pad_nat 2 (nat (n mod 100)))"

section \<open>One call\<close>

definition emit_to :: "'s event_sink option \<Rightarrow> string \<Rightarrow> jobj \<Rightarrow> ('s, unit) task" where
  "emit_to event_sink name payload =
     (case event_sink of None \<Rightarrow> retT () | Some f \<Rightarrow> f name payload)"

definition call_fields :: "tool_call_block \<Rightarrow> jobj" where
  "call_fields call = [(''tool_call_id'', JStr (call_id call)), (''tool_name'', JStr (call_name call))]"

text \<open>The preparation of a call, as the \<^verbatim>\<open>try\<close> block computes it.\<close>

definition prepare_call ::
  "tool \<Rightarrow> tool_call_block \<Rightarrow> tool_context \<Rightarrow> exn + prepared_tool_call" where
  "prepare_call tool call ctx =
     bindR (case tool_prepare tool of
              None \<Rightarrow> Inr (Some \<lparr>prep_input = call_input call, prep_execution = []\<rparr>)
            | Some prepare \<Rightarrow> prepare (call_input call) ctx)
       (\<lambda>result. case result of
          None \<Rightarrow> Inl (tool_input_error
                    (''Tool '' @ call_name call @ '' prepare() must return PreparedToolCall''))
        | Some prepared \<Rightarrow>
            bindR (validate_tool_input (spec_of tool) (prep_input prepared)) (\<lambda>_. Inr prepared))"

definition reject_call ::
  "'s event_sink option \<Rightarrow> tool_call_block \<Rightarrow> string \<Rightarrow> string \<Rightarrow> ('s, dispatch_result) task" where
  "reject_call sink call error_code content =
     thenT (emit_to sink ''tool.rejected'' (call_fields call @ [(''error_code'', JStr error_code)]))
       (retT (dispatch_error call error_code content None [] [] []))"

text \<open>The run of an allowed call: the hooks around the tool, and its failures as results.\<close>

definition tool_failure :: "tool \<Rightarrow> tool_call_block \<Rightarrow> exn \<Rightarrow> tool_execution_result" where
  "tool_failure tool call error =
     (let failed = (\<lambda>content code. \<lparr>exec_content = content, exec_is_error = True,
                       exec_metadata = [(''error_code'', JStr code)]\<rparr>) in
      if is_timeout error
      then failed (''Tool '' @ call_name call @ '' timed out after ''
                     @ show_fixed2 (timeout_seconds (spec_of tool)) @ ''s.'') ''tool_timeout''
      else case agent_runtime_code error of
          Some code \<Rightarrow> failed (exn_text error) code
        | None \<Rightarrow> failed (''Tool '' @ call_name call @ '' failed: '' @ exn_text error)
                    ''tool_execution_error'')"

definition run_allowed ::
  "hook_bus \<Rightarrow> tool \<Rightarrow> tool_call_block \<Rightarrow> prepared_tool_call \<Rightarrow> tool_context \<Rightarrow> hook_governance \<Rightarrow>
     ('z renv_scheme, tool_execution_result) task" where
  "run_allowed hooks tool call prepared ctx governance =
     (let hook_payload = call_fields call
            @ [(''input'', JObj (prep_input prepared)), (''execution'', JObj (prep_execution prepared))] in
      catchT
        (thenT (await_cancelable (emit_hook hooks ''tool.before'' hook_payload (Some governance)))
        (bindT (await_cancelable (externalT (tool_run tool (prep_input prepared) ctx))) (\<lambda>result.
         thenT (await_cancelable (emit_hook hooks ''tool.after''
                 (hook_payload @ [(''is_error'', JBool (exec_is_error result)),
                                  (''metadata'', JObj (exec_metadata result))]) (Some governance)))
           (retT result))))
        (\<lambda>error. if is_cancelled error then raiseT error else retT (tool_failure tool call error)))"

definition not_allowed :: "tool_call_block \<Rightarrow> prepared_tool_call \<Rightarrow> decision \<Rightarrow> dispatch_result" where
  "not_allowed call prepared decision =
     (let error_code = (if dec_effect decision = Ask then ''permission_approval_required''
                        else ''permission_denied'') in
      dispatch_error call error_code
        (''Tool '' @ call_name call @ '' was not allowed: '' @ dec_reason decision) (Some decision)
        [(''error_code'', JStr error_code), (''rule_id'', JStr (dec_rule decision))]
        (prep_input prepared) (prep_execution prepared))"

text \<open>From \<^verbatim>\<open>tool.started\<close> to the end.\<close>

definition dispatch_allowed ::
  "'z renv_scheme dispatcher \<Rightarrow> tool \<Rightarrow> tool_call_block \<Rightarrow> prepared_tool_call \<Rightarrow> tool_context \<Rightarrow>
     hook_governance \<Rightarrow> decision \<Rightarrow> 'z renv_scheme event_sink option \<Rightarrow>
     ('z renv_scheme, dispatch_result) task" where
  "dispatch_allowed dsp tool call prepared ctx governance decision sink =
     thenT (emit_to sink ''tool.started''
              (call_fields call @ [(''execution'', JObj (prep_execution prepared))]))
     (bindT (run_allowed (dsp_hooks dsp) tool call prepared ctx governance) (\<lambda>result.
      thenT (emit_to sink ''tool.completed''
              (call_fields call @ [(''is_error'', JBool (exec_is_error result)),
                                   (''metadata'', JObj (exec_metadata result))]))
      (retT \<lparr>dr_call_id = call_id call, dr_tool_name = call_name call, dr_result = result,
             dr_decision = Some decision, dr_started = True, dr_metadata = [],
             dr_prepared_input = prep_input prepared, dr_execution = prep_execution prepared\<rparr>)))"

text \<open>From the policy's decision on.\<close>

definition dispatch_decided ::
  "'z renv_scheme dispatcher \<Rightarrow> tool \<Rightarrow> tool_call_block \<Rightarrow> prepared_tool_call \<Rightarrow> tool_context \<Rightarrow>
     permission_context \<Rightarrow> 'z renv_scheme event_sink option \<Rightarrow> decision \<Rightarrow>
     ('z renv_scheme, dispatch_result) task" where
  "dispatch_decided dsp tool call prepared ctx permission sink decision =
     (let policy_payload = call_fields call @ decision_to_dict decision;
          governance = run_governance (perm_run permission) (dec_effect decision = Allow) in
      thenT (emit_to sink ''policy.decided'' policy_payload)
      (thenT (emit_hook (dsp_hooks dsp) ''policy.decided'' policy_payload (Some governance))
      (if dec_effect decision \<noteq> Allow then retT (not_allowed call prepared decision)
       else dispatch_allowed dsp tool call prepared ctx governance decision sink)))"

definition dispatch_prepared ::
  "'z renv_scheme dispatcher \<Rightarrow> tool \<Rightarrow> tool_call_block \<Rightarrow> prepared_tool_call \<Rightarrow> tool_context \<Rightarrow>
     permission_context \<Rightarrow> 'z renv_scheme event_sink option \<Rightarrow> ('z renv_scheme, dispatch_result) task" where
  "dispatch_prepared dsp tool call prepared ctx permission sink =
     bindT (liftT (dsp_policy dsp (spec_of tool) (prep_input prepared) permission))
       (dispatch_decided dsp tool call prepared ctx permission sink)"

text \<open>\<^verbatim>\<open>except ToolInputError\<close>.\<close>

fun is_tool_input_error :: "exn \<Rightarrow> bool" where
  "is_tool_input_error (Exn (Core ToolInputError) _) = True"
| "is_tool_input_error _ = False"

definition dispatch_found ::
  "'z renv_scheme dispatcher \<Rightarrow> tool \<Rightarrow> tool_call_block \<Rightarrow> tool_context \<Rightarrow> permission_context \<Rightarrow>
     'z renv_scheme event_sink option \<Rightarrow> ('z renv_scheme, dispatch_result) task" where
  "dispatch_found dsp tool call ctx permission sink =
     (case validate_tool_input (spec_of tool) (call_input call) of
        Inl error \<Rightarrow>
          (if is_tool_input_error error
           then reject_call sink call (core_error_code ToolInputError) (exn_text error)
           else raiseT error)
      | Inr _ \<Rightarrow>
          (case prepare_call tool call ctx of
             Inl error \<Rightarrow>
               (if is_cancelled error then raiseT error
                else case agent_runtime_code error of
                    Some code \<Rightarrow> reject_call sink call code (exn_text error)
                  | None \<Rightarrow> reject_call sink call ''tool_preparation_error''
                      (''Tool '' @ call_name call @ '' preparation failed: '' @ exn_text error))
           | Inr prepared \<Rightarrow> dispatch_prepared dsp tool call prepared ctx permission sink))"

definition dispatch ::
  "'z renv_scheme dispatcher \<Rightarrow> tool_call_block \<Rightarrow> tool_context \<Rightarrow> permission_context \<Rightarrow>
     'z renv_scheme event_sink option \<Rightarrow> ('z renv_scheme, dispatch_result) task" where
  "dispatch dsp call ctx permission sink =
     thenT (emit_to sink ''tool.requested'' (call_fields call @ [(''input'', JObj (call_input call))]))
     (case get_tool (dsp_registry dsp) (call_name call) of
        None \<Rightarrow> reject_call sink call (core_error_code ToolNotFound) (''Unknown tool: '' @ call_name call)
      | Some tool \<Rightarrow> dispatch_found dsp tool call ctx permission sink)"
section \<open>Steps that keep a relation\<close>

context loop_order
begin

lemma call_handler_steps: "steps_in R (call_handler e r)"
  unfolding call_handler_def Let_def by (intro loop_steps monotonic_advances)

lemma call_handlers_steps: "steps_in R (call_handlers e rs outcomes)"
proof (induction rs arbitrary: outcomes)
  case (Cons r rs)
  then show ?case unfolding call_handlers.simps by (intro loop_steps call_handler_steps)
qed (simp add: retT_def)

lemma emit_hook_steps: "steps_in R (emit_hook bus name payload governance)"
  unfolding emit_hook_def Let_def by (intro loop_steps call_handlers_steps)

lemma run_allowed_steps: "steps_in R (run_allowed hooks tool call prepared ctx governance)"
  unfolding run_allowed_def Let_def by (intro loop_steps emit_hook_steps)

lemma run_stays: "steps_in R t \<Longrightarrow> run_task t s = (r, s') \<Longrightarrow> R s s'"
  by (rule advancesD [OF run_task_advances])

end

section \<open>What the event sink is told\<close>

text \<open>
  A sink that records: where the state is good, a call of it that returns adds the event's name to a
  trace, and nothing the event loop does touches the trace.
\<close>

locale event_recorder =
  fixes good :: "'z renv_scheme \<Rightarrow> bool"
    and trace :: "'z renv_scheme \<Rightarrow> string list"
    and sink :: "'z renv_scheme event_sink"
  assumes sink_records:
      "good s \<Longrightarrow> run_task (sink n p) s = (Inr u, t) \<Longrightarrow> good t \<and> trace t = trace s @ [n]"
    and ticks_quiet: "good s \<Longrightarrow> good (s\<lparr>ticks := k\<rparr>) \<and> trace (s\<lparr>ticks := k\<rparr>) = trace s"
    and calls_quiet: "good s \<Longrightarrow> good (s\<lparr>ext_calls := k\<rparr>) \<and> trace (s\<lparr>ext_calls := k\<rparr>) = trace s"
    and reads_quiet: "good s \<Longrightarrow> good (s\<lparr>mono_reads := k\<rparr>) \<and> trace (s\<lparr>mono_reads := k\<rparr>) = trace s"
begin

definition quiet :: "'z renv_scheme \<Rightarrow> 'z renv_scheme \<Rightarrow> bool" where
  "quiet s t \<longleftrightarrow> (good s \<longrightarrow> good t \<and> trace t = trace s)"

end

sublocale event_recorder \<subseteq> silent: loop_order quiet
  by unfold_locales (auto simp: quiet_def ticks_quiet calls_quiet reads_quiet)

lemma not_allowed_fields [simp]:
  "dr_decision (not_allowed call prepared d) = Some d" "\<not> dr_started (not_allowed call prepared d)"
  by (simp_all add: not_allowed_def Let_def dispatch_error_def)

text \<open>
  The stages of a call that comes to the result \<open>r\<close>, as they must follow from the decision on it: the
  flag \<open>dr_started\<close> of the result is not consulted, it is to agree with the decision.
\<close>

definition stages :: "dispatch_result \<Rightarrow> string list" where
  "stages r = ''tool.requested'' #
     (case dr_decision r of
        None \<Rightarrow> [''tool.rejected'']
      | Some d \<Rightarrow>
          ''policy.decided'' # (if dec_effect d = Allow then [''tool.started'', ''tool.completed''] else []))"

definition was_allowed :: "dispatch_result \<Rightarrow> bool" where
  "was_allowed r \<longleftrightarrow> (case dr_decision r of None \<Rightarrow> False | Some d \<Rightarrow> dec_effect d = Allow)"

context event_recorder
begin

lemma reject_records:
  assumes "run_task (reject_call (Some sink) call code content) s = (Inr r, t)" and "good s"
  shows "good t \<and> trace t = trace s @ tl (stages r) \<and> dr_started r = was_allowed r"
  using assms sink_records
  by (auto simp: reject_call_def emit_to_def run_task_rules thenE_def bindE_eq_Inr retE_def
      dispatch_error_def stages_def was_allowed_def)

lemma allowed_records:
  assumes run: "run_task (dispatch_allowed dsp tool call prepared ctx governance d (Some sink)) s = (Inr r, t)"
    and good: "good s"
  shows "good t \<and> trace t = trace s @ [''tool.started'', ''tool.completed''] \<and>
         dr_decision r = Some d \<and> dr_started r"
proof -
  obtain s1 s2 p p' res where
    started: "run_task (sink ''tool.started'' p) s = (Inr (), s1)"
    and ran: "run_task (run_allowed (dsp_hooks dsp) tool call prepared ctx governance) s1 = (Inr res, s2)"
    and completed: "run_task (sink ''tool.completed'' p') s2 = (Inr (), t)"
    and r: "dr_decision r = Some d" "dr_started r"
    using run by (auto simp: dispatch_allowed_def run_task_rules thenE_def bindE_eq_Inr emit_to_def retE_def)
  have "good s1 \<and> trace s1 = trace s @ [''tool.started'']" by (rule sink_records [OF good started])
  then have "good s2 \<and> trace s2 = trace s @ [''tool.started'']"
    using silent.run_stays [OF silent.run_allowed_steps ran] by (simp add: quiet_def)
  then show ?thesis using sink_records [OF _ completed] r by simp
qed

lemma decided_records:
  assumes run: "run_task (dispatch_decided dsp tool call prepared ctx permission (Some sink) d) s = (Inr r, t)"
    and good: "good s"
  shows "good t \<and> trace t = trace s @ tl (stages r) \<and> dr_started r = was_allowed r"
proof -
  let ?governance = "run_governance (perm_run permission) (dec_effect d = Allow)"
  obtain s1 s2 p h where told: "run_task (sink ''policy.decided'' p) s = (Inr (), s1)"
    and hook: "run_task (emit_hook (dsp_hooks dsp) ''policy.decided'' p (Some ?governance)) s1 = (Inr h, s2)"
    and rest: "run_task (if dec_effect d \<noteq> Allow then retT (not_allowed call prepared d)
       else dispatch_allowed dsp tool call prepared ctx ?governance d (Some sink)) s2 = (Inr r, t)"
    using run by (auto simp: dispatch_decided_def Let_def run_task_rules thenE_def bindE_eq_Inr emit_to_def)
  have "good s1 \<and> trace s1 = trace s @ [''policy.decided'']" by (rule sink_records [OF good told])
  then have s2: "good s2 \<and> trace s2 = trace s @ [''policy.decided'']"
    using silent.run_stays [OF silent.emit_hook_steps hook] by (simp add: quiet_def)
  show ?thesis
  proof (cases "dec_effect d = Allow")
    case True
    then show ?thesis using rest s2 allowed_records [of dsp tool call prepared ctx ?governance d s2 r t]
      by (simp add: stages_def was_allowed_def)
  next
    case False
    then show ?thesis using rest s2 by (auto simp: stages_def was_allowed_def retE_def)
  qed
qed

lemma found_records:
  assumes run: "run_task (dispatch_found dsp tool call ctx permission (Some sink)) s = (Inr r, t)"
    and good: "good s" and policy: "\<And>spec inp c. advances quiet (dsp_policy dsp spec inp c)"
  shows "good t \<and> trace t = trace s @ tl (stages r) \<and> dr_started r = was_allowed r"
proof (cases "validate_tool_input (spec_of tool) (call_input call)")
  case (Inl e)
  then show ?thesis using run reject_records [OF _ good]
    by (auto simp: dispatch_found_def raiseE_def split: if_splits)
next
  case valid: (Inr u)
  show ?thesis
  proof (cases "prepare_call tool call ctx")
    case (Inl e)
    then show ?thesis using run valid reject_records [OF _ good]
      by (auto simp: dispatch_found_def raiseE_def split: if_splits option.splits)
  next
    case (Inr prepared)
    then obtain d s1 where d: "dsp_policy dsp (spec_of tool) (prep_input prepared) permission s = (Inr d, s1)"
      and rest: "run_task (dispatch_decided dsp tool call prepared ctx permission (Some sink) d) s1 = (Inr r, t)"
      using run valid by (auto simp: dispatch_found_def dispatch_prepared_def run_task_rules bindE_eq_Inr)
    have "good s1 \<and> trace s1 = trace s" using advancesD [OF policy d] good by (simp add: quiet_def)
    then show ?thesis using decided_records [OF rest] by simp
  qed
qed

text \<open>
  A call that comes to a result has told the sink its stages, in their order and each once, and the
  result says that it started exactly when the decision on it was to allow.
\<close>

lemma dispatch_records:
  assumes run: "run_task (dispatch dsp call ctx permission (Some sink)) s = (Inr r, t)"
    and good: "good s" and policy: "\<And>spec inp c. advances quiet (dsp_policy dsp spec inp c)"
  shows "good t \<and> trace t = trace s @ stages r \<and> dr_started r = was_allowed r"
proof -
  obtain s1 p where told: "run_task (sink ''tool.requested'' p) s = (Inr (), s1)"
    and rest: "run_task (case get_tool (dsp_registry dsp) (call_name call) of
        None \<Rightarrow> reject_call (Some sink) call (core_error_code ToolNotFound) (''Unknown tool: '' @ call_name call)
      | Some tool \<Rightarrow> dispatch_found dsp tool call ctx permission (Some sink)) s1 = (Inr r, t)"
    using run by (auto simp: dispatch_def run_task_rules thenE_def bindE_eq_Inr emit_to_def)
  have s1: "good s1 \<and> trace s1 = trace s @ [''tool.requested'']"
    by (rule sink_records [OF good told])
  then have "good t \<and> trace t = trace s1 @ tl (stages r) \<and> dr_started r = was_allowed r"
    using rest reject_records found_records [OF _ _ policy]
    by (cases "get_tool (dsp_registry dsp) (call_name call)") auto
  with s1 show ?thesis by (simp add: stages_def)
qed

end

end
