(* ===== verification/Run_Log.thy ===== *)
theory Run_Log
  imports Sessions Artifacts Run_State
begin

text \<open>
  What the run coordinator reads from a session's log: the projections at the end of
  \<^verbatim>\<open>aihi/agent/runtime/coordinator.py\<close>, each a function of the events or of the messages.
\<close>

section \<open>Lifecycle\<close>

definition RUN_LIFECYCLE_EVENTS :: "string list" where
  "RUN_LIFECYCLE_EVENTS =
     [''run.started'', ''run.resumed'', ''run.suspended'', ''run.completed'', ''run.failed'',
      ''run.interrupted'', ''run.cancelled'']"

definition TERMINAL_RUN_EVENTS :: "string list" where
  "TERMINAL_RUN_EVENTS = [''run.completed'', ''run.failed'', ''run.interrupted'', ''run.cancelled'']"

definition NON_RESUMABLE_RUN_EVENTS :: "string list" where
  "NON_RESUMABLE_RUN_EVENTS = [''run.completed'', ''run.failed'', ''run.cancelled'']"

definition TERMINAL_STATES :: "run_state list" where
  "TERMINAL_STATES = [RunCompleted, RunFailed, RunInterrupted, RunCancelled]"

lemma ending_terminal: "st \<in> set TERMINAL_STATES \<longleftrightarrow> ending st"
  by (simp add: TERMINAL_STATES_def ending_def)

definition is_lifecycle_of :: "string \<Rightarrow> event \<Rightarrow> bool" where
  "is_lifecycle_of rid e \<longleftrightarrow> ev_run e = Some rid \<and> ev_type e \<in> set RUN_LIFECYCLE_EVENTS"

definition last_lifecycle_event :: "event list \<Rightarrow> string \<Rightarrow> string option" where
  "last_lifecycle_event es rid = map_option ev_type (find_first (is_lifecycle_of rid) (rev es))"

definition run_started_event :: "event list \<Rightarrow> string \<Rightarrow> event option" where
  "run_started_event es rid =
     find_first (\<lambda>e. ev_run e = Some rid \<and> ev_type e = ''run.started'') es"

text \<open>\<open>last\<close> and \<open>order\<close> of the loop as one dict: a key keeps the place of its first insertion.\<close>

fun last_lifecycles :: "(string, string) dict \<Rightarrow> event list \<Rightarrow> (string, string) dict" where
  "last_lifecycles d [] = d"
| "last_lifecycles d (e # es) =
     (case ev_run e of
        None \<Rightarrow> last_lifecycles d es
      | Some rid \<Rightarrow>
          (if ev_type e \<notin> set RUN_LIFECYCLE_EVENTS then last_lifecycles d es
           else last_lifecycles (dict_set rid (ev_type e) d) es))"

definition suspended_runs :: "event list \<Rightarrow> string list" where
  "suspended_runs es = map fst (filter (\<lambda>p. snd p = ''run.suspended'') (last_lifecycles [] es))"

definition suspended_tool_call_ids :: "event list \<Rightarrow> string \<Rightarrow> string list" where
  "suspended_tool_call_ids es rid =
     (case find_first (is_lifecycle_of rid) (rev es) of
        None \<Rightarrow> []
      | Some e \<Rightarrow>
          (if ev_type e \<noteq> ''run.suspended'' then []
           else case get_or (ev_data e) ''pending_tool_call_ids'' (JArr []) of
               JArr raw \<Rightarrow> map py_str raw
             | _ \<Rightarrow> []))"

section \<open>Calls and approvals\<close>

text \<open>\<^verbatim>\<open>_pending_calls\<close>: the calls of the messages with one of these identifiers, in the messages' order.\<close>

definition calls_with_ids :: "message list \<Rightarrow> string list \<Rightarrow> tool_call_block list" where
  "calls_with_ids msgs ids =
     (if ids = [] then []
      else concat (map (\<lambda>m. filter (\<lambda>c. call_id c \<in> set ids) (tool_calls m)) msgs))"

definition is_request_for :: "string \<Rightarrow> string \<Rightarrow> event \<Rightarrow> bool" where
  "is_request_for rid cid e \<longleftrightarrow>
     ev_type e = ''approval.requested'' \<and> ev_run e = Some rid \<and>
     get_or_none (ev_data e) ''tool_call_id'' = JStr cid"

text \<open>
  The loop of \<^verbatim>\<open>_pending_approval_for_call\<close> over the events, latest first; \<^verbatim>\<open>approval.active()\<close> reads
  the clock.
\<close>

fun pending_approval_loop ::
  "(string, approval) dict \<Rightarrow> string \<Rightarrow> string \<Rightarrow> event list \<Rightarrow> ('w world_scheme, approval option) sm" where
  "pending_approval_loop pending rid cid [] = retE None"
| "pending_approval_loop pending rid cid (e # es) =
     (if \<not> is_request_for rid cid e then pending_approval_loop pending rid cid es
      else case get_or_none (ev_data e) ''approval'' of
          JObj raw \<Rightarrow>
            (case dict_get pending (py_str (get_or_none raw ''approval_id'')) of
               None \<Rightarrow> pending_approval_loop pending rid cid es
             | Some a \<Rightarrow>
                 bindE (approval_active_now a) (\<lambda>active.
                   if active then retE (Some a) else pending_approval_loop pending rid cid es))
        | _ \<Rightarrow> pending_approval_loop pending rid cid es)"

definition pending_approval_for_call :: "string \<Rightarrow> string \<Rightarrow> ('z env_scheme, approval option) sm" where
  "pending_approval_for_call rid cid =
     bindE authorization (\<lambda>st.
     bindE get_self (\<lambda>s.
       pending_approval_loop (pending_approvals st) rid cid (rev (ses_events s))))"

definition approval_resolutions :: "event list \<Rightarrow> string \<Rightarrow> (string, jval) dict" where
  "approval_resolutions es rid =
     foldl (\<lambda>d e. dict_set (py_str (get_or_none (ev_data e) ''approval_id''))
                    (get_or_none (ev_data e) ''status'') d) []
       (filter (\<lambda>e. ev_type e = ''approval.resolved'' \<and> ev_run e = Some rid) es)"

definition approval_was_denied_for_call :: "event list \<Rightarrow> string \<Rightarrow> string \<Rightarrow> bool" where
  "approval_was_denied_for_call es rid cid =
     (case find_first (is_request_for rid cid) (rev es) of
        None \<Rightarrow> False
      | Some e \<Rightarrow>
          (case get_or_none (ev_data e) ''approval'' of
             JObj raw \<Rightarrow>
               dict_get (approval_resolutions es rid) (py_str (get_or_none raw ''approval_id''))
                 = Some (JStr ''denied'')
           | _ \<Rightarrow> False))"

text \<open>\<^verbatim>\<open>_last_text\<close>.\<close>

definition last_text :: "message list \<Rightarrow> role \<Rightarrow> string" where
  "last_text msgs r =
     (case find_first (\<lambda>m. msg_role m = r \<and> \<not> blank (text_content m)) (rev msgs) of
        None \<Rightarrow> ''''
      | Some m \<Rightarrow> text_content m)"

section \<open>Artifacts\<close>

definition deleted_artifact_id :: "jobj \<Rightarrow> string option" where
  "deleted_artifact_id data =
     (case get_or_none data ''artifact_id'' of
        JStr i \<Rightarrow> Some i
      | _ \<Rightarrow>
          (case get_or_none data ''artifact'' of
             JObj raw \<Rightarrow> (case get_or_none raw ''artifact_id'' of JStr i \<Rightarrow> Some i | _ \<Rightarrow> None)
           | _ \<Rightarrow> None))"

definition record_artifact ::
  "(string, artifact_ref) dict \<Rightarrow> event \<Rightarrow> exn + (string, artifact_ref) dict" where
  "record_artifact refs e =
     (if ev_type e = ''artifact.deleted''
      then Inr (case deleted_artifact_id (ev_data e) of None \<Rightarrow> refs | Some i \<Rightarrow> dict_pop i refs)
      else case get_or_none (ev_data e) ''artifact'' of
          JObj raw \<Rightarrow>
            (if ev_type e \<noteq> ''artifact.created'' then Inr refs
             else case ref_from_dict raw of
                 Inl x \<Rightarrow> if is_value_or_type_error x then Inr refs else Inl x
               | Inr ref \<Rightarrow> Inr (dict_set (art_id ref) ref refs))
        | _ \<Rightarrow> Inr refs)"

definition recorded_artifacts :: "event list \<Rightarrow> exn + artifact_ref list" where
  "recorded_artifacts es = bindR (foldR record_artifact [] es) (\<lambda>refs. Inr (map snd refs))"

section \<open>The projections agree\<close>

lemma last_lifecycles_get:
  "dict_get (last_lifecycles d es) rid =
     (case last_lifecycle_event es rid of None \<Rightarrow> dict_get d rid | Some ty \<Rightarrow> Some ty)"
proof (induction es arbitrary: d)
  case (Cons e es)
  then show ?case
    by (auto simp: last_lifecycle_event_def find_first_append is_lifecycle_of_def
        split: option.splits)
qed (simp add: last_lifecycle_event_def)

lemma last_lifecycles_wf: "dict_wf d \<Longrightarrow> dict_wf (last_lifecycles d es)"
  by (induction es arbitrary: d) (auto split: option.split)

text \<open>A run is listed as suspended, and once only, if the last word of the log on it is a suspension.\<close>

lemma suspended_runs_iff: "rid \<in> set (suspended_runs es) \<longleftrightarrow> last_lifecycle_event es rid = Some ''run.suspended''"
proof -
  have "dict_wf (last_lifecycles [] es)" by (rule last_lifecycles_wf) simp
  then have "(rid, ''run.suspended'') \<in> set (last_lifecycles [] es)
      \<longleftrightarrow> dict_get (last_lifecycles [] es) rid = Some ''run.suspended''"
    by (rule dict_get_iff)
  then show ?thesis
    by (force simp: suspended_runs_def last_lifecycles_get split: option.splits)
qed

lemma suspended_runs_distinct: "distinct (suspended_runs es)"
  using last_lifecycles_wf [of "[]" es]
  by (simp add: suspended_runs_def dict_wf_def distinct_map_filter)

lemma suspended_ids_nonempty:
  "suspended_tool_call_ids es rid \<noteq> [] \<Longrightarrow> rid \<in> set (suspended_runs es)"
  by (auto simp: suspended_tool_call_ids_def suspended_runs_iff last_lifecycle_event_def
      split: option.splits if_splits)

end
