(* ===== verification/Tool_Execution.thy ===== *)
theory Tool_Execution
  imports Dispatcher Run_Log Approvals
begin

text \<open>
  How a run executes the tool calls of a model's answer: the part of
  \<^verbatim>\<open>aihi/agent/runtime/coordinator.py\<close> from \<^verbatim>\<open>_execute_tool_calls\<close> to \<^verbatim>\<open>_denied\<close>, with the state
  transitions it makes. Calls that may run together are the coroutines of one \<^verbatim>\<open>gather\<close>; when one of
  them is cancelled the others take no further step here, while the event loop would let them go on.
\<close>

section \<open>The coordinator and its state machine\<close>

text \<open>
  The parts of a \<^verbatim>\<open>RunCoordinator\<close> that tool execution uses. The times to live are microseconds.
\<close>

record 'z tool_runtime =
  co_dispatcher :: "'z renv_scheme dispatcher"
  co_resolver :: approval_resolver
  co_approval_ttl :: "int option"
  co_lease_ttl :: int

text \<open>\<^verbatim>\<open>machine.transition(target)\<close>: the machine moves before anything is appended.\<close>

definition machine_step :: "run_state \<Rightarrow> ('z renv_scheme, run_state) sm" where
  "machine_step target =
     (\<lambda>s. case transition (machine s) target of
        Inl e \<Rightarrow> (Inl e, s)
      | Inr st \<Rightarrow> (Inr st, s\<lparr>machine := st\<rparr>))"

definition new_run_event :: "string \<Rightarrow> string \<Rightarrow> jobj \<Rightarrow> ('z env_scheme, event) sm" where
  "new_run_event ty rid data = bindE get_self (\<lambda>s. new_event ty (ses_id s) (Some rid) data)"

definition transition_event :: "string \<Rightarrow> run_state \<Rightarrow> ('z renv_scheme, event) sm" where
  "transition_event rid target =
     bindE (machine_step target) (\<lambda>st.
       new_run_event ''run.state_changed'' rid [(''state'', JStr (state_value st))])"

definition run_transition :: "string \<Rightarrow> run_state \<Rightarrow> ('z renv_scheme, unit) sm" where
  "run_transition rid target =
     bindE (transition_event rid target) (\<lambda>e. bindE (append_event e) (\<lambda>_. retE ()))"

section \<open>One dispatch\<close>

definition append_tool_event :: "string \<Rightarrow> 'z renv_scheme event_sink" where
  "append_tool_event rid name data =
     liftT (bindE (append_new name (Some rid) data) (\<lambda>_. retE ()))"

definition tool_spec_of :: "'z tool_runtime \<Rightarrow> string \<Rightarrow> tool_spec option" where
  "tool_spec_of co name = map_option spec_of (get_tool (dsp_registry (co_dispatcher co)) name)"

text \<open>\<^verbatim>\<open>_dispatch\<close>: the evidence is read from the log at the time of the call.\<close>

definition call_permission :: "string \<Rightarrow> bool \<Rightarrow> jval \<Rightarrow> ('z env_scheme, permission_context) sm" where
  "call_permission rid require_lease app =
     bindE authorization (\<lambda>st.
     bindE (active_leases_now st rid) (\<lambda>ls.
     bindE (active_approvals_now st rid) (\<lambda>as.
       retE \<lparr>perm_leases = ls, perm_approvals = as, require_capability_lease = require_lease,
             perm_run = Some rid, perm_app = app\<rparr>)))"

definition dispatch_call ::
  "'z tool_runtime \<Rightarrow> string \<Rightarrow> tool_call_block \<Rightarrow> bool \<Rightarrow> jval \<Rightarrow> ('z renv_scheme, dispatch_result) task" where
  "dispatch_call co rid call require_lease app =
     bindT (liftT (call_permission rid require_lease app)) (\<lambda>permission.
     bindT (liftT get_self) (\<lambda>s.
       dispatch (co_dispatcher co) call
         \<lparr>ctx_session = ses_id s, ctx_run = rid, ctx_app = app\<rparr> permission
         (Some (append_tool_event rid))))"

definition denied :: "tool_call_block \<Rightarrow> string \<Rightarrow> string \<Rightarrow> dispatch_result" where
  "denied call content error_code =
     \<lparr>dr_call_id = call_id call, dr_tool_name = call_name call,
      dr_result = \<lparr>exec_content = content, exec_is_error = True,
                   exec_metadata = [(''error_code'', JStr error_code)]\<rparr>,
      dr_decision = None, dr_started = False, dr_metadata = [], dr_prepared_input = [],
      dr_execution = []\<rparr>"

text \<open>The grant that authorized a call is spent if it was for one call.\<close>

definition consume_one_shot :: "string \<Rightarrow> string \<Rightarrow> dispatch_result \<Rightarrow> ('z env_scheme, unit) sm" where
  "consume_one_shot rid scope result =
     (case dr_decision result of
        None \<Rightarrow> retE ()
      | Some d \<Rightarrow>
          (if dec_rule d \<noteq> ''approval.granted'' then retE ()
           else
             bindE authorization (\<lambda>st.
             bindE (consumable_approval_now st rid scope) (\<lambda>found. case found of
                 None \<Rightarrow> retE ()
               | Some a \<Rightarrow> bindE (consume_approval (appr_id a) rid scope) (\<lambda>_. retE ())))))"

section \<open>A call that needs an approval\<close>

definition approved_input :: "tool_call_block \<Rightarrow> dispatch_result \<Rightarrow> jobj" where
  "approved_input call result =
     (if dr_prepared_input result = [] then call_input call else dr_prepared_input result)"

definition capabilities_of :: "tool_spec option \<Rightarrow> string list" where
  "capabilities_of spec = (case spec of None \<Rightarrow> [] | Some sp \<Rightarrow> required_capabilities sp)"

definition approval_metadata ::
  "tool_spec option \<Rightarrow> tool_call_block \<Rightarrow> dispatch_result \<Rightarrow> decision \<Rightarrow> jobj" where
  "approval_metadata spec call result decision =
     [(''tool_call_id'', JStr (call_id call)), (''tool_name'', JStr (call_name call)),
      (''tool_input'', JObj (approval_input_preview (approved_input call result))),
      (''rule_id'', JStr (dec_rule decision)), (''reason'', JStr (dec_reason decision)),
      (''required_capabilities'', jstrs (capabilities_of spec)),
      (''execution'', JObj (dr_execution result))]"

definition make_approval_request ::
  "tool_spec option \<Rightarrow> string \<Rightarrow> string \<Rightarrow> string \<Rightarrow> tool_call_block \<Rightarrow> dispatch_result \<Rightarrow> decision \<Rightarrow>
     approval_request" where
  "make_approval_request spec approval_id sid rid call result decision =
     \<lparr>request_approval_id = approval_id, request_session = sid, request_run = rid,
      request_tool_call = call_id call, request_tool = call_name call,
      request_input = approved_input call result, request_reason = dec_reason decision,
      request_rule = dec_rule decision, request_capabilities = capabilities_of spec,
      request_execution = dr_execution result\<rparr>"

text \<open>The pending approval of this call, or a new one; then the run waits for it.\<close>

definition await_approval ::
  "'z tool_runtime \<Rightarrow> string \<Rightarrow> tool_call_block \<Rightarrow> dispatch_result \<Rightarrow> decision \<Rightarrow>
     ('z renv_scheme, approval) sm" where
  "await_approval co rid call result decision =
     bindE (pending_approval_for_call rid (call_id call)) (\<lambda>pending.
     bindE (case pending of
              Some a \<Rightarrow> retE a
            | None \<Rightarrow> request_approval (call_name call) ''policy'' (co_approval_ttl co) rid
                (approval_metadata (tool_spec_of co (call_name call)) call result decision)) (\<lambda>a.
     bindE (run_transition rid WaitingApproval) (\<lambda>_. retE a)))"

text \<open>After a granted approval: a lease where one was lacking, and the call once more.\<close>

definition retry_granted ::
  "'z tool_runtime \<Rightarrow> string \<Rightarrow> tool_call_block \<Rightarrow> bool \<Rightarrow> jval \<Rightarrow> decision \<Rightarrow>
     ('z renv_scheme, dispatch_result) task" where
  "retry_granted co rid call require_lease app decision =
     bindT (liftT
       (bindE (case tool_spec_of co (call_name call) of
                 None \<Rightarrow> retE ()
               | Some spec \<Rightarrow>
                   whenE (dec_rule decision = ''capability.lease_required'')
                     (bindE (issue_capability_lease rid (set (required_capabilities spec))
                               (co_lease_ttl co) ''approval'') (\<lambda>_. retE ())))
          (\<lambda>_. refresh))) (\<lambda>_.
     bindT (dispatch_call co rid call require_lease app) (\<lambda>retried.
     bindT (liftT (consume_one_shot rid (call_name call) retried)) (\<lambda>_.
       retT (case dr_decision retried of
               Some d \<Rightarrow>
                 (if \<not> dr_started retried \<and> dec_effect d = Ask
                  then denied call (''Approval was granted but policy still requires ''
                         @ dec_rule d @ ''.'') ''permission_approval_ineffective''
                  else retried)
             | None \<Rightarrow> retried))))"

definition ask_approval ::
  "'z tool_runtime \<Rightarrow> string \<Rightarrow> tool_call_block \<Rightarrow> bool \<Rightarrow> bool \<Rightarrow> jval \<Rightarrow> dispatch_result \<Rightarrow> decision \<Rightarrow>
     ('z renv_scheme, dispatch_result) task" where
  "ask_approval co rid call require_lease allow_inline app result decision =
     bindT (liftT get_self) (\<lambda>s.
     let refused = retT (denied call (''Approval denied for tool '' @ call_name call @ ''.'')
                           ''permission_denied'') in
     if approval_was_denied_for_call (ses_events s) rid (call_id call) then refused
     else
       bindT (liftT (await_approval co rid call result decision)) (\<lambda>a.
       if \<not> allow_inline then raiseT (RunSuspended (appr_id a) [call_id call])
       else
         bindT (await_cancelable (externalT (resolve (co_resolver co)
                  (make_approval_request (tool_spec_of co (call_name call)) (appr_id a) (ses_id s) rid
                     call result decision)))) (\<lambda>outcome.
         if outcome = Deferred then raiseT (RunSuspended (appr_id a) [call_id call])
         else
           bindT (liftT (bindE (resolve_approval (appr_id a) (is_grant outcome)
                                  (resolver_id (co_resolver co)) rid (outcome = GrantedOnce))
                           (\<lambda>_. run_transition rid WaitingTool))) (\<lambda>_.
           if \<not> is_grant outcome then refused
           else retry_granted co rid call require_lease app decision))))"

definition dispatch_with_approval ::
  "'z tool_runtime \<Rightarrow> string \<Rightarrow> tool_call_block \<Rightarrow> bool \<Rightarrow> bool \<Rightarrow> jval \<Rightarrow>
     ('z renv_scheme, dispatch_result) task" where
  "dispatch_with_approval co rid call require_lease allow_inline app =
     bindT (dispatch_call co rid call require_lease app) (\<lambda>result.
     let settled = thenT (liftT (consume_one_shot rid (call_name call) result)) (retT result) in
     case dr_decision result of
       None \<Rightarrow> settled
     | Some decision \<Rightarrow>
         (if dr_started result \<or> dec_effect decision \<noteq> Ask then settled
          else ask_approval co rid call require_lease allow_inline app result decision))"

section \<open>Groups of calls\<close>

definition is_parallelizable :: "'z tool_runtime \<Rightarrow> bool \<Rightarrow> tool_call_block \<Rightarrow> bool" where
  "is_parallelizable co require_lease call =
     (case tool_spec_of co (call_name call) of
        None \<Rightarrow> False
      | Some spec \<Rightarrow> concurrency_safe spec \<and> \<not> mutates spec \<and>
          \<not> (require_lease \<and> required_capabilities spec \<noteq> []))"

text \<open>The group that starts a non-empty list of calls.\<close>

fun parallel_group ::
  "'z tool_runtime \<Rightarrow> bool \<Rightarrow> bool \<Rightarrow> tool_call_block list \<Rightarrow> tool_call_block list" where
  "parallel_group co require_lease allow_parallel [] = []"
| "parallel_group co require_lease allow_parallel (c # cs) =
     (if \<not> allow_parallel \<or> \<not> is_parallelizable co require_lease c then [c]
      else c # takeWhile (is_parallelizable co require_lease) cs)"

text \<open>\<^verbatim>\<open>_capture\<close>: everything but a cancellation becomes a value.\<close>

definition captureT :: "('s, 'a) task \<Rightarrow> ('s, exn + 'a) task" where
  "captureT t = catchT (bindT t (\<lambda>x. retT (Inr x)))
     (\<lambda>e. if is_cancelled e then raiseT e else retT (Inl e))"

definition result_block :: "tool_call_block \<Rightarrow> dispatch_result \<Rightarrow> content_block" where
  "result_block call r =
     ToolResult (call_id call) (exec_content (dr_result r)) (exec_is_error (dr_result r))
       (dict_set ''tool_name'' (JStr (call_name call)) (exec_metadata (dr_result r)))"

text \<open>
  The loop over the outcomes of a group: results are committed in the order of the calls. \<open>calls\<close>
  are those from the first uncommitted one to the last of the whole list.
\<close>

fun commit_outcomes ::
  "string \<Rightarrow> tool_call_block list \<Rightarrow> (exn + dispatch_result) list \<Rightarrow> ('z env_scheme, unit) sm" where
  "commit_outcomes rid (call # calls) (outcome # outcomes) =
     (case outcome of
        Inl (RunSuspended a _) \<Rightarrow> raiseE (RunSuspended a (map call_id (call # calls)))
      | Inl e \<Rightarrow> raiseE e
      | Inr r \<Rightarrow>
          bindE (new_message User [result_block call r] []) (\<lambda>m.
          bindE (add_message m (Some rid)) (\<lambda>_. commit_outcomes rid calls outcomes)))"
| "commit_outcomes rid _ _ = retE ()"

definition run_group ::
  "'z tool_runtime \<Rightarrow> string \<Rightarrow> tool_call_block list \<Rightarrow> bool \<Rightarrow> bool \<Rightarrow> jval \<Rightarrow>
     ('z renv_scheme, (exn + dispatch_result) list) task" where
  "run_group co rid grp require_lease allow_inline app =
     (let dispatches = map (\<lambda>c. captureT (dispatch_with_approval co rid c require_lease allow_inline app)) grp in
      if length dispatches = 1 then bindT (hd dispatches) (\<lambda>x. retT [x])
      else gatherT dispatches)"

function execute_tool_calls ::
  "'z tool_runtime \<Rightarrow> string \<Rightarrow> bool \<Rightarrow> bool \<Rightarrow> bool \<Rightarrow> jval \<Rightarrow> tool_call_block list \<Rightarrow>
     ('z renv_scheme, unit) task" where
  "execute_tool_calls co rid require_lease allow_inline allow_parallel app calls =
     (if calls = [] then retT ()
      else
        let grp = parallel_group co require_lease allow_parallel calls in
        thenT (liftT (bindE check_cancel (\<lambda>_. refresh)))
        (bindT (run_group co rid grp require_lease allow_inline app) (\<lambda>outcomes.
         thenT (liftT (commit_outcomes rid calls outcomes))
           (execute_tool_calls co rid require_lease allow_inline allow_parallel app
              (drop (length grp) calls)))))"
  by pat_completeness auto
termination
proof (relation "measure (\<lambda>(_, _, _, _, _, _, calls). length calls)", goal_cases)
  case (2 co rid require_lease allow_inline allow_parallel app calls)
  then show ?case by (cases calls) auto
qed simp

declare execute_tool_calls.simps [simp del]

end
