(* ===== verification/Run_Control.thy ===== *)
theory Run_Control
  imports Tool_Execution
begin

text \<open>
  The frame of a run in \<^verbatim>\<open>aihi/agent/runtime/coordinator.py\<close>: its configuration and the checks on
  resuming it, the terminal events, \<^verbatim>\<open>abandon\<close>, and what \<^verbatim>\<open>run\<close> does around its loop. The telemetry
  observer is not modelled.
\<close>

section \<open>Configuration\<close>

record run_configuration =
  cfg_model :: string
  cfg_lease :: bool
  cfg_prompt :: string
  cfg_max_output :: int
  cfg_max_turns :: int
  cfg_profile :: "jval option"

definition validated_run_profile :: "jval option \<Rightarrow> exn + jobj" where
  "validated_run_profile v =
     (case v of
        None \<Rightarrow> Inr []
      | Some (JObj d) \<Rightarrow>
          (if json_ok_obj d then Inr d
           else Inl (value_error ''run_profile must be JSON serializable''))
      | Some _ \<Rightarrow> Inl (Exn (Py TypeError) ''run_profile must be a JSON object''))"

text \<open>\<open>sha\<close> is \<^verbatim>\<open>hashlib.sha256(...).hexdigest()\<close> on bytes.\<close>

definition system_prompt_sha256 :: "(string \<Rightarrow> string) \<Rightarrow> string \<Rightarrow> string" where
  "system_prompt_sha256 sha prompt = sha (utf8_encode prompt)"

definition run_configuration_data ::
  "(string \<Rightarrow> string) \<Rightarrow> string \<Rightarrow> run_configuration \<Rightarrow> exn + jobj" where
  "run_configuration_data sha provider_name c =
     bindR (validated_run_profile (cfg_profile c)) (\<lambda>profile.
       Inr [(''model'', JStr (cfg_model c)), (''provider'', JStr provider_name),
            (''require_capability_lease'', JBool (cfg_lease c)),
            (''system_prompt_sha256'', JStr (system_prompt_sha256 sha (cfg_prompt c))),
            (''max_output_tokens'', JInt (cfg_max_output c)), (''max_turns'', JInt (cfg_max_turns c)),
            (''application_profile'', JObj profile)])"

definition compared_keys :: "string list" where
  "compared_keys =
     [''model'', ''provider'', ''require_capability_lease'', ''system_prompt_sha256'',
      ''max_output_tokens'', ''max_turns'', ''application_profile'']"

definition configuration_mismatches :: "jobj \<Rightarrow> jobj \<Rightarrow> string list" where
  "configuration_mismatches stored current =
     filter (\<lambda>k. dict_get stored k \<noteq> None \<and>
                 \<not> py_eq (get_or_none stored k) (get_or_none current k)) compared_keys"

definition validate_run_configuration :: "event \<Rightarrow> jobj \<Rightarrow> exn + unit" where
  "validate_run_configuration started current =
     (let mismatches = configuration_mismatches (ev_data started) current in
      if mismatches \<noteq> []
      then Inl (value_error (''run configuration mismatch for resume: '' @ join '', '' mismatches))
      else Inr ())"

text \<open>\<^verbatim>\<open>_validate_max_turns\<close>, on the value as it is stored or passed.\<close>

definition validate_max_turns :: "jval \<Rightarrow> exn + int" where
  "validate_max_turns v =
     (case v of
        JInt i \<Rightarrow> if i \<le> 0 then Inl (value_error ''max_turns must be a positive integer'') else Inr i
      | _ \<Rightarrow> Inl (value_error ''max_turns must be a positive integer''))"

definition DEFAULT_MAX_TURNS :: int where
  "DEFAULT_MAX_TURNS = 100"

section \<open>Resuming\<close>

text \<open>The arguments of \<^verbatim>\<open>resume\<close> that may be left out.\<close>

record resume_overrides =
  ovr_model :: "string option"
  ovr_lease :: "bool option"
  ovr_prompt :: "string option"
  ovr_max_output :: "int option"
  ovr_max_turns :: "int option"
  ovr_profile :: "jval option"

definition persisted_max_output :: "jobj \<Rightarrow> exn + int" where
  "persisted_max_output data =
     (case get_or data ''max_output_tokens'' (JInt 4096) of
        JInt i \<Rightarrow> if i \<le> 0
                  then Inl (value_error ''Persisted run configuration has invalid max_output_tokens'')
                  else Inr i
      | _ \<Rightarrow> Inl (value_error ''Persisted run configuration has invalid max_output_tokens''))"

definition resumed_prompt :: "(string \<Rightarrow> string) \<Rightarrow> jobj \<Rightarrow> string option \<Rightarrow> exn + string" where
  "resumed_prompt sha data given =
     (case given of
        Some prompt \<Rightarrow> Inr prompt
      | None \<Rightarrow>
          (let expected = get_or_none data ''system_prompt_sha256'' in
           if expected = JNull
           then Inl (value_error ''Legacy run configuration requires an explicit system_prompt on resume'')
           else if expected \<noteq> JStr (system_prompt_sha256 sha '''')
           then Inl (value_error ''Non-empty persisted system_prompt requires the original value on resume'')
           else Inr ''''))"

text \<open>The configuration \<^verbatim>\<open>resume\<close> resolves from the log and its arguments.\<close>

definition resumed_configuration ::
  "(string \<Rightarrow> string) \<Rightarrow> int \<Rightarrow> jobj \<Rightarrow> resume_overrides \<Rightarrow> exn + run_configuration" where
  "resumed_configuration sha default_max_turns data ovr =
     (let model = (case ovr_model ovr of Some m \<Rightarrow> m | None \<Rightarrow> py_str (get_or data ''model'' (JStr ''''))) in
      if model = '''' then Inl (value_error ''Persisted run configuration is missing model'')
      else case get_or data ''require_capability_lease'' (JBool False) of
        JBool stored_lease \<Rightarrow>
          bindR (persisted_max_output data) (\<lambda>stored_output.
          bindR (validate_max_turns (get_or data ''max_turns'' (JInt default_max_turns))) (\<lambda>stored_turns.
          bindR (validate_max_turns (JInt (case ovr_max_turns ovr of Some n \<Rightarrow> n | None \<Rightarrow> stored_turns)))
            (\<lambda>turns.
          case get_or data ''application_profile'' (JObj []) of
            JObj stored_profile \<Rightarrow>
              bindR (resumed_prompt sha data (ovr_prompt ovr)) (\<lambda>prompt.
                Inr \<lparr>cfg_model = model,
                     cfg_lease = (case ovr_lease ovr of Some b \<Rightarrow> b | None \<Rightarrow> stored_lease),
                     cfg_prompt = prompt,
                     cfg_max_output = (case ovr_max_output ovr of Some n \<Rightarrow> n | None \<Rightarrow> stored_output),
                     cfg_max_turns = turns,
                     cfg_profile = (case ovr_profile ovr of None \<Rightarrow> Some (JObj stored_profile)
                                    | Some p \<Rightarrow> Some p)\<rparr>)
          | _ \<Rightarrow> Inl (value_error ''Persisted run configuration has invalid application_profile''))))
      | _ \<Rightarrow> Inl (value_error ''Persisted run configuration has invalid capability lease mode''))"

definition resume_run_configuration ::
  "(string \<Rightarrow> string) \<Rightarrow> int \<Rightarrow> event list \<Rightarrow> string \<Rightarrow> resume_overrides \<Rightarrow> exn + run_configuration" where
  "resume_run_configuration sha default_max_turns es rid ovr =
     (case run_started_event es rid of
        None \<Rightarrow> Inl (value_error (''Unknown run or missing run.started configuration: '' @ rid))
      | Some started \<Rightarrow>
          (case last_lifecycle_event es rid of
             None \<Rightarrow> Inl (value_error (''Run has no resumable lifecycle state: '' @ rid))
           | Some last_event \<Rightarrow>
               (if last_event \<in> set NON_RESUMABLE_RUN_EVENTS
                then Inl (value_error (''Run is not resumable after '' @ last_event @ '': '' @ rid))
                else resumed_configuration sha default_max_turns (ev_data started) ovr)))"

section \<open>Ending a run\<close>

record run_result =
  rr_run :: string
  rr_state :: run_state
  rr_response :: "model_response option"
  rr_error :: "string option"
  rr_pending_approval :: "string option"
  rr_pending_calls :: "string list"

definition run_suspended :: "run_result \<Rightarrow> bool" where
  "run_suspended r \<longleftrightarrow> rr_state r = WaitingApproval"

definition get_machine :: "('z renv_scheme, run_state) sm" where
  "get_machine = (\<lambda>s. (Inr (machine s), s))"

definition finish_run :: "string \<Rightarrow> run_state \<Rightarrow> string \<Rightarrow> jobj \<Rightarrow> ('z renv_scheme, unit) sm" where
  "finish_run rid target event_type data =
     bindE get_machine (\<lambda>prior.
     bindE (if prior \<notin> set TERMINAL_STATES then bindE (transition_event rid target) (\<lambda>e. retE [e])
            else retE []) (\<lambda>events.
     bindE get_machine (\<lambda>now.
     bindE (new_run_event event_type rid (dict_merge [(''state'', JStr (state_value now))] data)) (\<lambda>e.
     bindE (append_many (events @ [e])) (\<lambda>_. retE ())))))"

definition emit_run_stopped ::
  "hook_bus \<Rightarrow> string \<Rightarrow> run_state \<Rightarrow> string \<Rightarrow> string option \<Rightarrow> ('z renv_scheme, unit) task" where
  "emit_run_stopped hooks rid st terminal_event error =
     bindT (liftT get_self) (\<lambda>s.
     catchT
       (thenT (emit_hook hooks ''run.stopped''
          [(''session_id'', JStr (ses_id s)), (''run_id'', JStr rid), (''state'', JStr (state_value st)),
           (''terminal_event'', JStr terminal_event), (''error'', jopt_str error)] None) (retT ()))
       (\<lambda>e. if is_cancelled e then raiseT e else retT ()))"

definition repair_after_interrupt :: "string \<Rightarrow> ('z env_scheme, unit) sm" where
  "repair_after_interrupt rid =
     bindE orphan_tool_calls (\<lambda>open_calls.
     if open_calls \<noteq> [] then bindE (repair_orphan_tool_calls rid {}) (\<lambda>_. retE ()) else retE ())"

definition abandon_run :: "string \<Rightarrow> string \<Rightarrow> ('z env_scheme, run_result) sm" where
  "abandon_run rid reason =
     bindE get_self (\<lambda>s.
     bindE (if rid \<in> set (suspended_runs (ses_events s))
            then bindE (repair_orphan_tool_calls rid {}) (\<lambda>_. retE ())
            else case last_lifecycle_event (ses_events s) rid of
                None \<Rightarrow> raiseE (value_error (''Unknown run: '' @ rid))
              | Some last_event \<Rightarrow>
                  (if last_event \<in> set TERMINAL_RUN_EVENTS
                   then raiseE (value_error (''Run is already terminal: '' @ rid)) else retE ())) (\<lambda>_.
     bindE (new_run_event ''run.state_changed'' rid
              [(''state'', JStr (state_value RunCancelled))]) (\<lambda>e1.
     bindE (new_run_event ''run.cancelled'' rid
              [(''state'', JStr (state_value RunCancelled)), (''reason'', JStr reason)]) (\<lambda>e2.
     bindE (append_many [e1, e2]) (\<lambda>_.
       retE \<lparr>rr_run = rid, rr_state = RunCancelled, rr_response = None,
             rr_error = Some ''run_cancelled'', rr_pending_approval = None, rr_pending_calls = []\<rparr>)))))"

section \<open>Recorders\<close>

record run_outcome =
  outcome_session :: string
  outcome_run :: string
  outcome_state :: string
  outcome_assistant :: string
  outcome_user :: string

text \<open>
  A recorder is code outside the coordinator: on its \<open>n\<close>-th call it appends some events, one after
  the other, and then returns or raises.
\<close>

type_synonym run_recorder = "run_outcome \<Rightarrow> nat \<Rightarrow> event list \<times> exn option"

definition call_recorder :: "run_outcome \<Rightarrow> run_recorder \<Rightarrow> ('z renv_scheme, unit) sm" where
  "call_recorder outcome recorder =
     (\<lambda>s. let n = ext_calls s; (events, raised) = recorder outcome n in
      (bindE (mapE append_event events)
         (\<lambda>_. case raised of None \<Rightarrow> retE () | Some e \<Rightarrow> raiseE e)) (s\<lparr>ext_calls := Suc n\<rparr>))"

fun call_recorders :: "run_outcome \<Rightarrow> run_recorder list \<Rightarrow> ('z renv_scheme, unit) sm" where
  "call_recorders outcome [] = retE ()"
| "call_recorders outcome (r # rs) =
     thenE (catchE (call_recorder outcome r) (\<lambda>e. if is_cancelled e then raiseE e else retE ()))
       (call_recorders outcome rs)"

definition record_outcome ::
  "run_recorder list \<Rightarrow> string \<Rightarrow> run_state \<Rightarrow> model_response option \<Rightarrow> ('z renv_scheme, unit) sm" where
  "record_outcome recorders rid st response =
     (if recorders = [] then retE ()
      else
        bindE get_self (\<lambda>s.
          call_recorders
            \<lparr>outcome_session = ses_id s, outcome_run = rid, outcome_state = state_value st,
             outcome_assistant = (case response of None \<Rightarrow> '''' | Some r \<Rightarrow> text_content (resp_message r)),
             outcome_user = last_text (ses_messages s) User\<rparr> recorders))"

section \<open>A run around its loop\<close>

text \<open>The parts of a coordinator that frame a run.\<close>

record run_frame =
  frame_hooks :: hook_bus
  frame_provider :: string
  frame_sha :: "string \<Rightarrow> string"
  frame_recorders :: "run_recorder list"

text \<open>
  The start of \<^verbatim>\<open>run\<close>, up to the \<^verbatim>\<open>try\<close>: what comes out is the run's id, whether it had started before,
  the configuration and the calls an approval left open. \<open>admit_run\<close> is the part after the new state
  machine.
\<close>

definition admit_run ::
  "run_frame \<Rightarrow> run_configuration \<Rightarrow> message option \<Rightarrow> string \<Rightarrow>
     ('z env_scheme, string \<times> bool \<times> jobj \<times> string list) sm" where
  "admit_run fr cfg user_message rid =
     bindE get_self (\<lambda>s.
     let last_event = last_lifecycle_event (ses_events s) rid;
         suspended = suspended_tool_call_ids (ses_events s) rid in
     if (case last_event of None \<Rightarrow> False | Some ty \<Rightarrow> ty \<in> set NON_RESUMABLE_RUN_EVENTS)
     then raiseE (value_error (''Run id is already terminal and cannot be reused: '' @ rid))
     else
       bindE (liftE (run_configuration_data (frame_sha fr) (frame_provider fr) cfg)) (\<lambda>configuration.
       bindE (if last_event = None then retE ()
              else case run_started_event (ses_events s) rid of
                  None \<Rightarrow> raiseE (value_error (''Run has no persisted run.started configuration: '' @ rid))
                | Some started \<Rightarrow> liftE (validate_run_configuration started configuration)) (\<lambda>_.
       bindE (case user_message of None \<Rightarrow> retE []
              | Some m \<Rightarrow> bindE (message_event m (Some rid)) (\<lambda>e. retE [e])) (\<lambda>opening.
       bindE (new_run_event (if last_event = None then ''run.started'' else ''run.resumed'') rid
                configuration) (\<lambda>e.
       bindE (append_many (opening @ [e])) (\<lambda>_.
         retE (rid, last_event \<noteq> None, configuration, suspended)))))))"

definition open_run ::
  "run_frame \<Rightarrow> run_configuration \<Rightarrow> message option \<Rightarrow> string option \<Rightarrow>
     ('z renv_scheme, string \<times> bool \<times> jobj \<times> string list) sm" where
  "open_run fr cfg user_message run_id =
     (if cfg_max_output cfg \<le> 0
      then raiseE (value_error ''max_output_tokens must be a positive integer'')
      else
        bindE (liftE (validate_max_turns (JInt (cfg_max_turns cfg)))) (\<lambda>_.
        bindE refresh (\<lambda>_.
        bindE (case run_id of Some i \<Rightarrow> if i \<noteq> '''' then retE i else new_id ''run''
               | None \<Rightarrow> new_id ''run'') (\<lambda>rid.
        bindE (modifyE (\<lambda>s. s\<lparr>machine := RunCreated\<rparr>)) (\<lambda>_. admit_run fr cfg user_message rid)))))"

definition plain_result :: "string \<Rightarrow> run_state \<Rightarrow> string option \<Rightarrow> run_result" where
  "plain_result rid st error =
     \<lparr>rr_run = rid, rr_state = st, rr_response = None, rr_error = error,
      rr_pending_approval = None, rr_pending_calls = []\<rparr>"

text \<open>The body of the \<^verbatim>\<open>try\<close>; \<open>loop\<close> is the run's loop, given the calls left open.\<close>

definition run_body ::
  "run_frame \<Rightarrow> string \<Rightarrow> bool \<Rightarrow> jobj \<Rightarrow> string list \<Rightarrow>
     (string list \<Rightarrow> ('z renv_scheme, model_response) task) \<Rightarrow> ('z renv_scheme, run_result) task" where
  "run_body fr rid resumed configuration suspended loop =
     bindT (liftT get_self) (\<lambda>s.
     thenT (emit_hook (frame_hooks fr) ''run.started''
       [(''session_id'', JStr (ses_id s)), (''run_id'', JStr rid), (''resumed'', JBool resumed),
        (''configuration'', JObj configuration)] None)
     (thenT (liftT (run_transition rid Running))
     (thenT (liftT (repair_orphan_tool_calls rid (set suspended)))
     (bindT (loop suspended) (\<lambda>response.
      thenT (liftT (thenE (record_outcome (frame_recorders fr) rid RunCompleted (Some response))
                      (finish_run rid RunCompleted ''run.completed'' [])))
      (thenT (emit_run_stopped (frame_hooks fr) rid RunCompleted ''run.completed'' None)
      (bindT (liftT get_machine) (\<lambda>st.
         retT ((plain_result rid st None)\<lparr>rr_response := Some response\<rparr>)))))))))"

text \<open>The \<^verbatim>\<open>except\<close> clauses.\<close>

definition suspend_run :: "string \<Rightarrow> string \<Rightarrow> string list \<Rightarrow> ('z renv_scheme, run_result) sm" where
  "suspend_run rid approval_id pending =
     bindE get_machine (\<lambda>st.
     bindE (append_new ''run.suspended'' (Some rid)
       [(''state'', JStr (state_value st)), (''reason'', JStr ''approval_required''),
        (''approval_id'', JStr approval_id), (''pending_tool_call_ids'', jstrs pending)]) (\<lambda>_.
       retE ((plain_result rid st None)\<lparr>rr_pending_approval := Some approval_id,
                                        rr_pending_calls := pending\<rparr>)))"

definition stop_run ::
  "run_frame \<Rightarrow> string \<Rightarrow> run_state \<Rightarrow> string \<Rightarrow> jobj \<Rightarrow> string option \<Rightarrow> string \<Rightarrow>
     ('z renv_scheme, run_result) task" where
  "stop_run fr rid target event_type data hook_error error =
     thenT (liftT (thenE (repair_after_interrupt rid) (finish_run rid target event_type data)))
     (thenT (emit_run_stopped (frame_hooks fr) rid target event_type hook_error)
     (bindT (liftT get_machine) (\<lambda>st. retT (plain_result rid st (Some error)))))"

definition handle_run_error :: "run_frame \<Rightarrow> string \<Rightarrow> exn \<Rightarrow> ('z renv_scheme, run_result) task" where
  "handle_run_error fr rid e =
     (case e of
        RunSuspended approval_id pending \<Rightarrow> liftT (suspend_run rid approval_id pending)
      | Exn _ text \<Rightarrow>
          (if is_cancelled e
           then stop_run fr rid RunInterrupted ''run.interrupted'' [] None ''run_interrupted''
           else stop_run fr rid RunFailed ''run.failed'' [(''error'', JStr text)] (Some text) text))"

definition run_around ::
  "run_frame \<Rightarrow> run_configuration \<Rightarrow> message option \<Rightarrow> string option \<Rightarrow>
     (string \<Rightarrow> string list \<Rightarrow> ('z renv_scheme, model_response) task) \<Rightarrow>
     ('z renv_scheme, run_result) task" where
  "run_around fr cfg user_message run_id loop =
     bindT (liftT (open_run fr cfg user_message run_id)) (\<lambda>(rid, resumed, configuration, suspended).
     catchT (run_body fr rid resumed configuration suspended (loop rid)) (handle_run_error fr rid))"

end
