(* ===== verification/Model_Turn.thy ===== *)
theory Model_Turn
  imports Run_Control
begin

text \<open>
  One call of the model: the stream chunks of \<^verbatim>\<open>aihi/models/base.py\<close> and \<^verbatim>\<open>_consume_provider\<close> of
  \<^verbatim>\<open>aihi/agent/runtime/coordinator.py\<close>. A provider is code outside the coordinator. A stream is the
  list of chunks that its \<^verbatim>\<open>__anext__\<close> calls give and what ends it, so streams that never end are not
  modelled.
\<close>

section \<open>Chunks\<close>

datatype stream_chunk =
    MessageStart string
  | BlockStart int string
  | TextDelta int string
  | ThinkingDelta int string
  | ToolInputDelta int string
  | BlockEnd int
  | MessageEnd model_response

fun chunk_kind :: "stream_chunk \<Rightarrow> string" where
  "chunk_kind (MessageStart model) = ''message_start''"
| "chunk_kind (BlockStart i kind) = ''block_start''"
| "chunk_kind (TextDelta i text) = ''text_delta''"
| "chunk_kind (ThinkingDelta i text) = ''thinking_delta''"
| "chunk_kind (ToolInputDelta i text) = ''tool_input_delta''"
| "chunk_kind (BlockEnd i) = ''block_end''"
| "chunk_kind (MessageEnd r) = ''message_end''"

text \<open>\<^verbatim>\<open>dataclasses.asdict\<close> of a block, a message and a response; tuples become lists in the event.\<close>

fun block_asdict :: "content_block \<Rightarrow> jobj" where
  "block_asdict (TextBlock text stbl) =
     [(''text'', JStr text), (''stable_prefix'', JBool stbl), (''kind'', JStr ''text'')]"
| "block_asdict (ThinkingBlock text provider opaque) =
     [(''text'', JStr text), (''provider'', JStr provider),
      (''opaque'', case opaque of None \<Rightarrow> JNull | Some d \<Rightarrow> JObj d), (''kind'', JStr ''thinking'')]"
| "block_asdict (ToolCall i name input) =
     [(''id'', JStr i), (''name'', JStr name), (''input'', JObj input), (''kind'', JStr ''tool_call'')]"
| "block_asdict (ToolResult i content is_error metadata) =
     [(''tool_call_id'', JStr i), (''content'', JStr content), (''is_error'', JBool is_error),
      (''metadata'', JObj metadata), (''kind'', JStr ''tool_result'')]"
| "block_asdict (ImageBlock media_type data source_path) =
     [(''media_type'', JStr media_type), (''data'', JStr data), (''source_path'', jopt_str source_path),
      (''kind'', JStr ''image'')]"

definition message_asdict :: "message \<Rightarrow> jobj" where
  "message_asdict m =
     [(''role'', JStr (role_text (msg_role m))),
      (''content'', JArr (map (\<lambda>b. JObj (block_asdict b)) (msg_content m))),
      (''id'', JStr (msg_id m)), (''metadata'', JObj (msg_metadata m))]"

definition usage_asdict :: "usage \<Rightarrow> jobj" where
  "usage_asdict u =
     [(''input_tokens'', JInt (input_tokens u)), (''output_tokens'', JInt (output_tokens u)),
      (''cached_input_tokens'', JInt (cached_input_tokens u)),
      (''cost_usd'', case cost_usd u of None \<Rightarrow> JNull | Some c \<Rightarrow> JFloat c),
      (''cache_write_input_tokens'', JInt (cache_write_input_tokens u))]"

definition response_asdict :: "model_response \<Rightarrow> jobj" where
  "response_asdict r =
     [(''message'', JObj (message_asdict (resp_message r))),
      (''stop_reason'', JStr (stop_reason_text (resp_stop_reason r))),
      (''usage'', JObj (usage_asdict (resp_usage r)))]"

fun chunk_fields :: "stream_chunk \<Rightarrow> jobj" where
  "chunk_fields (MessageStart model) = [(''model'', JStr model)]"
| "chunk_fields (BlockStart i kind) = [(''index'', JInt i), (''block_kind'', JStr kind)]"
| "chunk_fields (TextDelta i text) = [(''index'', JInt i), (''text'', JStr text)]"
| "chunk_fields (ThinkingDelta i text) = [(''index'', JInt i), (''text'', JStr text)]"
| "chunk_fields (ToolInputDelta i text) = [(''index'', JInt i), (''partial_json'', JStr text)]"
| "chunk_fields (BlockEnd i) = [(''index'', JInt i)]"
| "chunk_fields (MessageEnd r) = [(''response'', JObj (response_asdict r))]"

definition chunk_to_dict :: "stream_chunk \<Rightarrow> jobj" where
  "chunk_to_dict c = chunk_fields c @ [(''kind'', JStr (chunk_kind c))]"

section \<open>The call\<close>

text \<open>
  A provider: \<open>prov_stream\<close>, \<open>prov_close\<close> and \<open>prov_count\<close> may answer each call differently and are
  given its number. \<open>prov_close\<close> is \<open>None\<close> where the stream has no \<^verbatim>\<open>aclose\<close>.
\<close>

record provider =
  prov_name :: string
  prov_capabilities :: "string \<Rightarrow> capabilities"
  prov_stream :: "model_request \<Rightarrow> nat \<Rightarrow> exn + stream_chunk list \<times> exn option"
  prov_close :: "(nat \<Rightarrow> exn + unit) option"
  prov_count :: "model_request \<Rightarrow> nat \<Rightarrow> exn + int"

text \<open>A call of outside code that is not awaited.\<close>

definition external_now :: "(nat \<Rightarrow> exn + 'a) \<Rightarrow> ('z renv_scheme, 'a) sm" where
  "external_now f = (\<lambda>s. (f (ext_calls s), s\<lparr>ext_calls := Suc (ext_calls s)\<rparr>))"

text \<open>\<^verbatim>\<open>try: t finally: u\<close>.\<close>

definition finallyT :: "('s, 'a) task \<Rightarrow> ('s, unit) task \<Rightarrow> ('s, 'a) task" where
  "finallyT t u =
     bindT (catchT (bindT t (\<lambda>x. retT (Inr x))) (\<lambda>e. retT (Inl e)))
       (\<lambda>r. thenT u (case r of Inl e \<Rightarrow> raiseT e | Inr x \<Rightarrow> retT x))"

definition protocol_error :: "string \<Rightarrow> exn" where
  "protocol_error m = Exn (Models ProviderProtocolError) m"

definition emit_chunk :: "string \<Rightarrow> stream_chunk \<Rightarrow> ('z env_scheme, unit) sm" where
  "emit_chunk rid c =
     bindE (new_run_event ''model.chunk'' rid (chunk_to_dict c)) (\<lambda>e.
     bindE (emit_event (e\<lparr>ev_ephemeral := True\<rparr>)) (\<lambda>_. retE ()))"

fun consume_chunks ::
  "string \<Rightarrow> stream_chunk list \<Rightarrow> exn option \<Rightarrow> model_response option \<Rightarrow>
     ('z renv_scheme, model_response option) task" where
  "consume_chunks rid [] err response =
     bindT (await_cancelable (externalT (\<lambda>_. case err of None \<Rightarrow> Inr () | Some e \<Rightarrow> Inl e)))
       (\<lambda>_. retT response)"
| "consume_chunks rid (c # cs) err response =
     bindT (await_cancelable (externalT (\<lambda>_. Inr c))) (\<lambda>chunk.
     thenT (liftT check_cancel)
     (if response \<noteq> None then raiseT (protocol_error ''Provider emitted data after message_end'')
      else
        thenT (liftT (emit_chunk rid chunk))
          (consume_chunks rid cs err
             (case chunk of MessageEnd r \<Rightarrow> Some r | _ \<Rightarrow> response))))"

definition close_stream :: "provider \<Rightarrow> ('z renv_scheme, unit) task" where
  "close_stream p = (case prov_close p of None \<Rightarrow> retT () | Some close \<Rightarrow> externalT close)"

definition before_model_payload :: "provider \<Rightarrow> string \<Rightarrow> string \<Rightarrow> model_request \<Rightarrow> jobj" where
  "before_model_payload p sid rid request =
     [(''session_id'', JStr sid), (''run_id'', JStr rid), (''provider'', JStr (prov_name p)),
      (''model'', JStr (req_model request)), (''message_count'', JInt (int (length (req_messages request)))),
      (''tool_count'', JInt (int (length (req_tools request)))),
      (''max_output_tokens'', JInt (req_max_output_tokens request))]"

definition after_model_payload :: "provider \<Rightarrow> string \<Rightarrow> string \<Rightarrow> model_request \<Rightarrow> model_response \<Rightarrow> jobj" where
  "after_model_payload p sid rid request response =
     [(''session_id'', JStr sid), (''run_id'', JStr rid), (''provider'', JStr (prov_name p)),
      (''model'', JStr (req_model request)),
      (''stop_reason'', JStr (stop_reason_text (resp_stop_reason response))),
      (''usage'', JObj (usage_asdict (resp_usage response)))]"

definition consume_provider ::
  "hook_bus \<Rightarrow> provider \<Rightarrow> string \<Rightarrow> model_request \<Rightarrow> ('z renv_scheme, model_response) task" where
  "consume_provider hooks p rid request =
     bindT (liftT get_self) (\<lambda>s.
     thenT (emit_hook hooks ''model.before'' (before_model_payload p (ses_id s) rid request) None)
     (bindT (liftT (external_now (prov_stream p request))) (\<lambda>(chunks, err).
      bindT (finallyT (consume_chunks rid chunks err None) (close_stream p)) (\<lambda>response.
      case response of
        None \<Rightarrow> raiseT (protocol_error ''Provider stream ended without message_end'')
      | Some r \<Rightarrow>
          thenT (emit_hook hooks ''model.after'' (after_model_payload p (ses_id s) rid request r) None)
            (retT r)))))"

end
