(* ===== verification/Context_Types.thy ===== *)
theory Context_Types
  imports Artifacts Tools Model_Turn
begin

text \<open>
  What context assembly and compaction share: the token estimates of \<^verbatim>\<open>aihi/models/tokens.py\<close>, and
  \<^verbatim>\<open>models.py\<close>, \<^verbatim>\<open>policy.py\<close>, \<^verbatim>\<open>grouping.py\<close> and \<^verbatim>\<open>cache.py\<close> of \<^verbatim>\<open>aihi/agent/context\<close>. Ratios are exact
  rationals where the program has floats.
\<close>

section \<open>Text\<close>

text \<open>\<^verbatim>\<open>text.strip()\<close>.\<close>

definition strip :: "string \<Rightarrow> string" where
  "strip s = rev (dropWhile is_space (rev (dropWhile is_space s)))"

lemma dropWhile_rev_id: "xs = [] \<or> \<not> P (last xs) \<Longrightarrow> dropWhile P (rev xs) = rev xs"
  by (cases xs rule: rev_cases) auto

lemma all_dropWhile: "(\<forall>x \<in> set (dropWhile P xs). P x) \<longleftrightarrow> (\<forall>x \<in> set xs. P x)"
  by (induction xs) auto

lemma strip_Nil_iff [simp]: "strip s = [] \<longleftrightarrow> blank s"
  by (simp add: strip_def blank_def list_all_iff dropWhile_eq_Nil_conv all_dropWhile)

lemma blank_Nil [simp]: "blank []"
  by (simp add: blank_def)

lemma strip_ends: "strip s \<noteq> [] \<Longrightarrow> \<not> is_space (hd (strip s)) \<and> \<not> is_space (last (strip s))"
proof -
  assume ne: "strip s \<noteq> []"
  let ?d = "dropWhile is_space s"
  have "\<not> is_space (last (strip s))"
    using ne hd_dropWhile [of is_space "rev ?d"] by (simp add: strip_def last_rev)
  moreover have "hd (strip s) = hd ?d"
  proof -
    obtain ys where ys: "rev ?d = ys @ dropWhile is_space (rev ?d)"
      by (metis takeWhile_dropWhile_id)
    then have "?d = strip s @ rev ys" by (metis rev_append rev_rev_ident strip_def)
    then show ?thesis using ne by (metis hd_append2)
  qed
  moreover have "?d \<noteq> []"
  proof
    assume "?d = []"
    then have "strip s = []" by (simp only: strip_def) simp
    with ne show False by contradiction
  qed
  ultimately show ?thesis using hd_dropWhile [of is_space s] by simp
qed

lemma strip_strip [simp]: "strip (strip s) = strip s"
proof (cases "strip s")
  case (Cons c cs)
  then have "\<not> is_space c" "\<not> is_space (last (c # cs))" using strip_ends [of s] by auto
  then have "dropWhile is_space (c # cs) = c # cs" "dropWhile is_space (rev (c # cs)) = rev (c # cs)"
    by (auto simp del: rev.simps intro: dropWhile_rev_id)
  then have "strip (c # cs) = c # cs" unfolding strip_def by (simp only: rev_rev_ident)
  with Cons show ?thesis by simp
next
  case Nil
  then show ?thesis by (simp only: Nil) (simp add: strip_def)
qed

text \<open>
  What the context code takes from the standard library besides \<open>artifact_codec\<close>: \<^verbatim>\<open>json.loads\<close>
  (\<open>None\<close> for \<^verbatim>\<open>JSONDecodeError\<close>), \<^verbatim>\<open>json.dumps\<close> compact with sorted keys, with the default
  separators, and with those and sorted keys, and \<^verbatim>\<open>str\<close> of a dict.
\<close>

record context_codec =
  cc_loads :: "string \<Rightarrow> jval option"
  cc_dumps_sorted :: "jval \<Rightarrow> string"
  cc_dumps :: "jval \<Rightarrow> string"
  cc_dumps_keys :: "jval \<Rightarrow> string"
  cc_str :: "jobj \<Rightarrow> string"
  cc_files :: artifact_codec

text \<open>\<^verbatim>\<open>sha256(text.encode("utf-8")).hexdigest()\<close>.\<close>

definition text_sha256 :: "context_codec \<Rightarrow> string \<Rightarrow> string" where
  "text_sha256 cc s = sha256_hex (cc_files cc) (utf8_encode s)"

text \<open>\<^verbatim>\<open>dict.fromkeys\<close>: each item once, where it first occurs.\<close>

fun ordered_set :: "'a list \<Rightarrow> 'a list" where
  "ordered_set [] = []"
| "ordered_set (x # xs) = x # filter (\<lambda>y. y \<noteq> x) (ordered_set xs)"

lemma set_ordered_set [simp]: "set (ordered_set xs) = set xs"
  by (induction xs) auto

lemma distinct_ordered_set [simp]: "distinct (ordered_set xs)"
  by (induction xs) auto

lemma ordered_set_distinct: "distinct xs \<Longrightarrow> ordered_set xs = xs"
  by (induction xs) (auto simp: filter_id_conv)

lemma ordered_set_idem [simp]: "ordered_set (ordered_set xs) = ordered_set xs"
  by (simp add: ordered_set_distinct)

lemma ordered_set_Nil_iff [simp]: "ordered_set xs = [] \<longleftrightarrow> xs = []"
  by (cases xs) auto

section \<open>Token estimates\<close>

definition is_ascii :: "char \<Rightarrow> bool" where
  "is_ascii c \<longleftrightarrow> (of_char c :: nat) < 128"

definition estimate_text_tokens :: "string \<Rightarrow> int" where
  "estimate_text_tokens text =
     (if text = [] then 0
      else
        let ascii_chars = length (filter is_ascii text); non_ascii_chars = length text - ascii_chars in
        max 1 (int ((ascii_chars + 3) div 4 + (non_ascii_chars + 1) div 2)))"

fun block_tokens :: "context_codec \<Rightarrow> content_block \<Rightarrow> int" where
  "block_tokens cc (TextBlock text _) = estimate_text_tokens text"
| "block_tokens cc (ThinkingBlock text _ _) = estimate_text_tokens text"
| "block_tokens cc (ToolCall _ name input) = estimate_text_tokens name + estimate_text_tokens (cc_str cc input)"
| "block_tokens cc (ToolResult _ content _ _) = estimate_text_tokens content"
| "block_tokens cc (ImageBlock _ _ _) = 3072"

text \<open>\<^verbatim>\<open>int(total * 4 / 3)\<close> for a total that is not negative.\<close>

definition estimate_messages_tokens :: "context_codec \<Rightarrow> message list \<Rightarrow> int" where
  "estimate_messages_tokens cc messages =
     sum_list (map (\<lambda>m. 4 + sum_list (map (block_tokens cc) (msg_content m))) messages) * 4 div 3"

definition estimate_model_request_tokens :: "context_codec \<Rightarrow> model_request \<Rightarrow> int" where
  "estimate_model_request_tokens cc request =
     (let parts = filter (\<lambda>p. p \<noteq> [])
            (req_system_prompt request # map block_text_part (req_system_blocks request));
          system_tokens = estimate_text_tokens (join [CHR 0x0A, CHR 0x0A] parts);
          tool_tokens =
            (if req_tools request = [] then 0
             else estimate_text_tokens (cc_dumps_sorted cc
                    (JArr (map (\<lambda>t. JObj (definition_to_dict t)) (req_tools request))))) in
      system_tokens + tool_tokens + estimate_messages_tokens cc (req_messages request))"

lemma estimate_text_nonneg [simp]: "0 \<le> estimate_text_tokens s"
  by (simp add: estimate_text_tokens_def Let_def max_def)

lemma block_tokens_nonneg [simp]: "0 \<le> block_tokens cc b"
  by (cases b) simp_all

lemma estimate_messages_nonneg [simp]: "0 \<le> estimate_messages_tokens cc ms"
proof -
  have "0 \<le> sum_list (map (block_tokens cc) bs)" for bs by (rule sum_list_nonneg) auto
  then have "0 \<le> sum_list (map (\<lambda>m. 4 + sum_list (map (block_tokens cc) (msg_content m))) ms)"
    by (intro sum_list_nonneg) (auto intro: add_nonneg_nonneg)
  then show ?thesis by (simp add: estimate_messages_tokens_def)
qed

lemma estimate_request_nonneg [simp]: "0 \<le> estimate_model_request_tokens cc r"
  by (simp add: estimate_model_request_tokens_def Let_def)

section \<open>Grouping\<close>

text \<open>
  \<open>group_tail pending\<close>: the messages that a group with open calls still takes, and the rest. The
  pending ids are a list without order.
\<close>

definition message_call_ids :: "message \<Rightarrow> string list" where
  "message_call_ids m = map call_id (tool_calls m)"

definition message_result_ids :: "message \<Rightarrow> string list" where
  "message_result_ids m = map result_call_id (tool_results m)"

fun group_tail :: "string set \<Rightarrow> message list \<Rightarrow> message list \<times> message list" where
  "group_tail pending [] = ([], [])"
| "group_tail pending (m # ms) =
     (if pending = {} then ([], m # ms)
      else
        let (g, rest) = group_tail (pending - set (message_result_ids m) \<union> set (message_call_ids m)) ms in
        (m # g, rest))"

lemma group_tail_append: "group_tail p ms = (g, rest) \<Longrightarrow> ms = g @ rest"
  by (induction p ms arbitrary: g rule: group_tail.induct) (auto split: if_splits prod.splits)

function group_tool_exchanges :: "message list \<Rightarrow> message list list" where
  "group_tool_exchanges [] = []"
| "group_tool_exchanges (m # ms) =
     (let (g, rest) = group_tail (set (message_call_ids m) - set (message_result_ids m)) ms in
      (m # g) # group_tool_exchanges rest)"
  by pat_completeness auto
termination
proof (relation "measure length", goal_cases)
  case (2 m ms p g rest)
  then have "ms = g @ rest" using group_tail_append [of _ ms g rest] by simp
  then show ?case by simp
qed simp

declare group_tool_exchanges.simps(2) [simp del]

section \<open>Budgets\<close>

record context_budget =
  context_window :: int
  reserved_output :: int
  tool_schema_tokens :: int
  safety_margin :: int

definition input_capacity :: "context_budget \<Rightarrow> int" where
  "input_capacity b = context_window b - reserved_output b - safety_margin b"

definition usable_input :: "context_budget \<Rightarrow> int" where
  "usable_input b = input_capacity b - tool_schema_tokens b"

definition check_context_budget :: "context_budget \<Rightarrow> exn + context_budget" where
  "check_context_budget b =
     (if context_window b \<le> 0 then Inl (value_error ''context_window must be positive'')
      else if reserved_output b < 0 \<or> tool_schema_tokens b < 0 \<or> safety_margin b < 0
      then Inl (value_error ''Context budget components cannot be negative'')
      else if input_capacity b \<le> 0 \<or> usable_input b \<le> 0
      then Inl (value_error ''Context budget leaves no usable input capacity'')
      else Inr b)"

definition estimate_tool_schema_tokens :: "context_codec \<Rightarrow> tool_spec list \<Rightarrow> int" where
  "estimate_tool_schema_tokens cc tools =
     estimate_text_tokens (cc_dumps_sorted cc
       (JArr (map (\<lambda>t. JObj (definition_to_dict (model_definition t))) tools)))"

definition budget_for_request :: "context_codec \<Rightarrow> int \<Rightarrow> int \<Rightarrow> tool_spec list \<Rightarrow> int \<Rightarrow> exn + context_budget" where
  "budget_for_request cc window reserved tools margin =
     check_context_budget
       \<lparr>context_window = window, reserved_output = reserved,
        tool_schema_tokens = estimate_tool_schema_tokens cc tools, safety_margin = margin\<rparr>"

record context_section =
  sec_title :: string
  sec_body :: string
  sec_source :: string

definition check_context_section :: "context_section \<Rightarrow> exn + context_section" where
  "check_context_section s =
     (if blank (sec_title s) then Inl (value_error ''Context section title must not be empty'') else Inr s)"

definition render_section :: "context_section \<Rightarrow> string" where
  "render_section s = ''## '' @ strip (sec_title s) @ CHR 0x0A # strip (sec_body s)"

section \<open>Pressure\<close>

text \<open>
  The fields have their types here, so the checks of \<^verbatim>\<open>isinstance\<close> in \<^verbatim>\<open>__post_init__\<close> have nothing to
  refuse.
\<close>

record compaction_policy =
  exact_count_ratio :: rat
  compaction_trigger_ratio :: rat
  compaction_target_ratio :: rat
  recent_tail_ratio :: rat
  recent_tail_max_tokens :: int
  summary_max_tokens :: int
  summary_fact_max_chars :: int

definition default_compaction_policy :: compaction_policy where
  "default_compaction_policy =
     \<lparr>exact_count_ratio = 3/5, compaction_trigger_ratio = 4/5, compaction_target_ratio = 3/5,
      recent_tail_ratio = 3/10, recent_tail_max_tokens = 32000, summary_max_tokens = 2048,
      summary_fact_max_chars = 512\<rparr>"

definition check_compaction_policy :: "compaction_policy \<Rightarrow> exn + compaction_policy" where
  "check_compaction_policy p =
     (if \<not> (0 < compaction_target_ratio p \<and> compaction_target_ratio p < compaction_trigger_ratio p \<and>
             compaction_trigger_ratio p < 1)
      then Inl (value_error ''CompactionPolicy requires target < trigger < 1'')
      else if \<not> (0 < exact_count_ratio p \<and> exact_count_ratio p \<le> 1)
      then Inl (value_error ''exact_count_ratio must be in (0, 1]'')
      else if \<not> (0 < recent_tail_ratio p \<and> recent_tail_ratio p \<le> 1)
      then Inl (value_error ''recent_tail_ratio must be in (0, 1]'')
      else if recent_tail_max_tokens p \<le> 0 \<or> summary_max_tokens p \<le> 0 \<or> summary_fact_max_chars p \<le> 0
      then Inl (value_error ''CompactionPolicy limits must be positive integers'')
      else Inr p)"

definition compaction_policy_to_dict :: "compaction_policy \<Rightarrow> jobj" where
  "compaction_policy_to_dict p =
     [(''exact_count_ratio'', JFloat (exact_count_ratio p)),
      (''compaction_trigger_ratio'', JFloat (compaction_trigger_ratio p)),
      (''compaction_target_ratio'', JFloat (compaction_target_ratio p)),
      (''recent_tail_ratio'', JFloat (recent_tail_ratio p)),
      (''recent_tail_max_tokens'', JInt (recent_tail_max_tokens p)),
      (''summary_max_tokens'', JInt (summary_max_tokens p)),
      (''summary_fact_max_chars'', JInt (summary_fact_max_chars p))]"

definition validate_capacity :: "int \<Rightarrow> exn + unit" where
  "validate_capacity capacity =
     (if capacity \<le> 0 then Inl (value_error ''input_capacity must be a positive integer'') else Inr ())"

definition recent_tail_budget :: "compaction_policy \<Rightarrow> int \<Rightarrow> exn + int" where
  "recent_tail_budget p capacity =
     bindR (validate_capacity capacity) (\<lambda>_.
       Inr (min \<lfloor>rat_of_int capacity * recent_tail_ratio p\<rfloor> (recent_tail_max_tokens p)))"

definition target_tokens_of :: "compaction_policy \<Rightarrow> int \<Rightarrow> int" where
  "target_tokens_of p capacity = \<lfloor>rat_of_int capacity * compaction_target_ratio p\<rfloor>"

datatype count_method = Estimate | ProviderCount | EstimateFallback

fun count_method_text :: "count_method \<Rightarrow> string" where
  "count_method_text Estimate = ''estimate''"
| "count_method_text ProviderCount = ''provider''"
| "count_method_text EstimateFallback = ''estimate_fallback''"

datatype compaction_decision = KeepContext | CompactContext

fun compaction_decision_text :: "compaction_decision \<Rightarrow> string" where
  "compaction_decision_text KeepContext = ''none''"
| "compaction_decision_text CompactContext = ''compact''"

datatype decision_reason = BelowThreshold | Threshold | OverCapacity

fun decision_reason_text :: "decision_reason \<Rightarrow> string" where
  "decision_reason_text BelowThreshold = ''below_threshold''"
| "decision_reason_text Threshold = ''threshold''"
| "decision_reason_text OverCapacity = ''over_capacity''"

record context_pressure =
  pr_input_tokens :: int
  pr_input_capacity :: int
  pr_ratio :: rat
  pr_target_tokens :: int
  pr_target_ratio :: rat
  pr_count_method :: count_method
  pr_decision :: compaction_decision
  pr_reason :: decision_reason
  pr_fallback :: "string option"

definition needs_compaction :: "context_pressure \<Rightarrow> bool" where
  "needs_compaction p \<longleftrightarrow> pr_decision p = CompactContext"

definition evaluate_pressure ::
  "compaction_policy \<Rightarrow> int \<Rightarrow> int \<Rightarrow> count_method \<Rightarrow> string option \<Rightarrow> exn + context_pressure" where
  "evaluate_pressure p tokens capacity how fallback =
     bindR (validate_capacity capacity) (\<lambda>_.
       if tokens < 0 then Inl (value_error ''input_tokens must be a non-negative integer'')
       else
         let ratio = rat_of_int tokens / rat_of_int capacity;
             (decision, reason) =
               (if tokens > capacity then (CompactContext, OverCapacity)
                else if ratio \<ge> compaction_trigger_ratio p then (CompactContext, Threshold)
                else (KeepContext, BelowThreshold)) in
         Inr \<lparr>pr_input_tokens = tokens, pr_input_capacity = capacity, pr_ratio = ratio,
              pr_target_tokens = target_tokens_of p capacity,
              pr_target_ratio = compaction_target_ratio p, pr_count_method = how,
              pr_decision = decision, pr_reason = reason, pr_fallback = fallback\<rparr>)"

text \<open>\<^verbatim>\<open>type(error).__name__\<close>.\<close>

primrec core_exn_name :: "core_exn \<Rightarrow> string" where
  "core_exn_name HarnessError = ''AgentRuntimeError''"
| "core_exn_name ConcurrencyConflict = ''ConcurrencyConflict''"
| "core_exn_name EventConflict = ''EventConflict''"
| "core_exn_name EventInvariantViolation = ''EventInvariantViolation''"
| "core_exn_name ContextWindowExceeded = ''ContextWindowExceeded''"
| "core_exn_name TurnLimitExceeded = ''TurnLimitExceeded''"
| "core_exn_name SessionNotFound = ''SessionNotFound''"
| "core_exn_name ToolInputError = ''ToolInputError''"
| "core_exn_name ToolNotFound = ''ToolNotFound''"
| "core_exn_name PermissionDenied = ''PermissionDenied''"
| "core_exn_name UnsafeHostNotAcknowledged = ''UnsafeHostNotAcknowledged''"
| "core_exn_name SandboxViolation = ''SandboxViolation''"
| "core_exn_name SandboxUnavailable = ''SandboxUnavailable''"
| "core_exn_name SandboxConfigurationError = ''SandboxConfigurationError''"
| "core_exn_name LeaseConflict = ''LeaseConflict''"
| "core_exn_name LeaseNotFound = ''LeaseNotFound''"
| "core_exn_name StoreUnavailable = ''StoreUnavailable''"
| "core_exn_name ApiUnavailable = ''ApiUnavailable''"
| "core_exn_name InvalidRunTransition = ''InvalidRunTransition''"

primrec hook_exn_name :: "hook_exn \<Rightarrow> string" where
  "hook_exn_name HookError = ''HookError''"
| "hook_exn_name HookRegistrationError = ''HookRegistrationError''"
| "hook_exn_name HookGovernanceError = ''HookGovernanceError''"
| "hook_exn_name HookDispatchError = ''HookDispatchError''"

primrec agent_exn_name :: "agent_exn \<Rightarrow> string" where
  "agent_exn_name AgentError = ''AgentError''"
| "agent_exn_name AgentValidationError = ''AgentValidationError''"
| "agent_exn_name AgentPermissionDenied = ''AgentPermissionDenied''"
| "agent_exn_name AgentBudgetExceeded = ''AgentBudgetExceeded''"
| "agent_exn_name AgentDepthExceeded = ''AgentDepthExceeded''"
| "agent_exn_name AgentStateError = ''AgentStateError''"
| "agent_exn_name MailboxError = ''MailboxError''"
| "agent_exn_name MailboxConflict = ''MailboxConflict''"

primrec models_exn_name :: "models_exn \<Rightarrow> string" where
  "models_exn_name ModelsError = ''ModelsError''"
| "models_exn_name ProviderError = ''ProviderError''"
| "models_exn_name ProviderProtocolError = ''ProviderProtocolError''"
| "models_exn_name ProviderHTTPError = ''ProviderHTTPError''"
| "models_exn_name ProviderContextLengthError = ''ProviderContextLengthError''"
| "models_exn_name ProviderTimeout = ''ProviderTimeout''"

primrec py_exn_name :: "py_exn \<Rightarrow> string" where
  "py_exn_name ValueError = ''ValueError''"
| "py_exn_name TypeError = ''TypeError''"
| "py_exn_name KeyError = ''KeyError''"
| "py_exn_name OverflowError = ''OverflowError''"
| "py_exn_name TimeoutError = ''TimeoutError''"
| "py_exn_name CancelledError = ''CancelledError''"
| "py_exn_name UnsupportedEventSchema = ''UnsupportedEventSchema''"
| "py_exn_name UnsupportedMessageSchema = ''UnsupportedMessageSchema''"

fun exn_type_name :: "exn \<Rightarrow> string" where
  "exn_type_name (Exn (Core c) _) = core_exn_name c"
| "exn_type_name (Exn (Hook c) _) = hook_exn_name c"
| "exn_type_name (Exn (Agent c) _) = agent_exn_name c"
| "exn_type_name (Exn (Models c) _) = models_exn_name c"
| "exn_type_name (Exn (Py c) _) = py_exn_name c"
| "exn_type_name (Exn (OtherError c) _) = c"
| "exn_type_name (RunSuspended _ _) = ''_RunSuspended''"

text \<open>
  \<^verbatim>\<open>measure\<close>: \<open>counter\<close> is the provider's \<^verbatim>\<open>count_tokens\<close> where it has one. The result is the
  counted tokens, how they were counted and why not otherwise.
\<close>

definition count_exactly ::
  "(model_request \<Rightarrow> nat \<Rightarrow> exn + int) \<Rightarrow> model_request \<Rightarrow> int \<Rightarrow>
     ('z renv_scheme, int \<times> count_method \<times> string option) task" where
  "count_exactly counter request estimate =
     catchT
       (bindT (externalT (counter request)) (\<lambda>counted.
          if counted < 0 then raiseT (value_error ''Provider token count must be a non-negative integer'')
          else retT (counted, ProviderCount, None)))
       (\<lambda>error. if is_cancelled error then raiseT error
                 else retT (estimate, EstimateFallback, Some (exn_type_name error)))"

definition measure_pressure ::
  "context_codec \<Rightarrow> compaction_policy \<Rightarrow> model_request \<Rightarrow> int \<Rightarrow>
     (model_request \<Rightarrow> nat \<Rightarrow> exn + int) option \<Rightarrow> bool \<Rightarrow> ('z renv_scheme, context_pressure) task" where
  "measure_pressure cc p request capacity counter force_exact =
     bindT (liftT (liftE (validate_capacity capacity))) (\<lambda>_.
     let estimate = estimate_model_request_tokens cc request in
     bindT (case counter of
              Some ask \<Rightarrow>
                (if force_exact \<or> rat_of_int estimate / rat_of_int capacity \<ge> exact_count_ratio p
                 then count_exactly ask request estimate
                 else retT (estimate, Estimate, None))
            | None \<Rightarrow> retT (estimate, Estimate, None)) (\<lambda>(tokens, how, fallback).
       liftT (liftE (evaluate_pressure p tokens capacity how fallback))))"

section \<open>Prompt caching\<close>

definition PROMPT_CACHE_CONTRACT_VERSION :: int where
  "PROMPT_CACHE_CONTRACT_VERSION = 1"

definition stable_system_blocks :: "content_block list \<Rightarrow> content_block list" where
  "stable_system_blocks blocks = takeWhile (\<lambda>b. case b of TextBlock _ stbl \<Rightarrow> stbl | _ \<Rightarrow> False) blocks"

definition sorted_tools :: "model_tool_definition list \<Rightarrow> model_tool_definition list" where
  "sorted_tools tools = sort_key def_name tools"

definition build_prompt_cache_key ::
  "context_codec \<Rightarrow> string \<Rightarrow> string \<Rightarrow> model_tool_definition list \<Rightarrow> content_block list \<Rightarrow> string" where
  "build_prompt_cache_key cc provider_family model tools blocks =
     (let material = cc_dumps_sorted cc (JObj
            [(''contract_version'', JInt PROMPT_CACHE_CONTRACT_VERSION),
             (''provider_family'', JStr provider_family), (''model'', JStr model),
             (''tools'', JArr (map (\<lambda>t. JObj (definition_to_dict t)) (sorted_tools tools))),
             (''system_blocks'', jstrs (map block_text_part (stable_system_blocks blocks)))]) in
      ''aihi:prompt-cache:v'' @ show_int PROMPT_CACHE_CONTRACT_VERSION @ '':'' @ text_sha256 cc material)"

end
