(* ===== verification/Context_Assembly.thy ===== *)
theory Context_Assembly
  imports Context_Types
begin

text \<open>
  The assembly of a model's input, \<^verbatim>\<open>aihi/agent/context/assembler.py\<close>: the system blocks, and the
  messages with their large tool results replaced by previews. The artifact store is the directory
  of the run's state; \<open>stores\<close> says whether the caller has one. The clock is read once for each text
  that is put, also where the store then answers with a reference it already had.
\<close>

section \<open>System blocks\<close>

definition compose_system_blocks :: "string \<Rightarrow> context_section list \<Rightarrow> content_block list" where
  "compose_system_blocks system_prompt sections =
     (if blank system_prompt then [] else [TextBlock (strip system_prompt) True]) @
     map (\<lambda>s. TextBlock (render_section s) False) (filter (\<lambda>s. \<not> blank (sec_body s)) sections)"

definition blank_line :: string where
  "blank_line = [CHR 0x0A, CHR 0x0A]"

definition compose_system_prompt :: "string \<Rightarrow> context_section list \<Rightarrow> string" where
  "compose_system_prompt system_prompt sections =
     join blank_line (map block_text_part (compose_system_blocks system_prompt sections))"

section \<open>Tool results\<close>

record context_assembler =
  artifact_threshold_tokens :: int
  artifact_preview_chars :: int

definition check_assembler :: "context_assembler \<Rightarrow> exn + context_assembler" where
  "check_assembler a =
     (if artifact_threshold_tokens a \<le> 0 \<or> artifact_preview_chars a \<le> 0
      then Inl (value_error ''Artifact thresholds must be positive'') else Inr a)"

definition bounded_preview :: "string \<Rightarrow> int \<Rightarrow> string \<Rightarrow> string" where
  "bounded_preview content max_chars marker =
     (if int (length content) \<le> max_chars then content
      else
        let head_chars = max 1 \<lfloor>rat_of_int max_chars * (7/10)\<rfloor>;
            tail_chars = max 0 (max_chars - head_chars);
            tail = (if tail_chars = 0 then [] else drop (length content - nat tail_chars) content) in
        take (nat head_chars) content @ blank_line @ marker @ blank_line @ tail)"

definition truncation_marker :: string where
  "truncation_marker =
     ''[Tool output truncated in the model projection; the original Message Event is unchanged.]''"

definition artifact_marker :: string where
  "artifact_marker = ''[Full tool output stored as an artifact.]''"

text \<open>The two dicts of \<^verbatim>\<open>materialize\<close>: references by tool call and by their own id.\<close>

record known_refs =
  by_call :: "(string, artifact_ref) dict"
  by_id :: "(string, artifact_ref) dict"

definition initial_refs :: "artifact_ref list \<Rightarrow> known_refs" where
  "initial_refs known =
     \<lparr>by_call = foldl (\<lambda>d ref. case get_or_none (art_metadata ref) ''tool_call_id'' of
          JStr c \<Rightarrow> dict_set c ref d | _ \<Rightarrow> d) [] known,
      by_id = foldl (\<lambda>d ref. dict_set (art_id ref) ref d) [] known\<rparr>"

definition existing_ref :: "known_refs \<Rightarrow> string \<Rightarrow> jobj \<Rightarrow> artifact_ref option" where
  "existing_ref refs cid metadata =
     (case get_or_none metadata ''artifact_id'' of
        JStr i \<Rightarrow> (case dict_get (by_id refs) i of
                   Some ref \<Rightarrow> Some ref
                 | None \<Rightarrow> dict_get (by_call refs) cid)
      | _ \<Rightarrow> dict_get (by_call refs) cid)"

definition is_large_result :: "context_assembler \<Rightarrow> string \<Rightarrow> jobj \<Rightarrow> bool" where
  "is_large_result a content metadata \<longleftrightarrow>
     \<not> py_eq (get_or_none metadata ''context_projection'') (JStr ''truncated'') \<and>
     estimate_text_tokens content > artifact_threshold_tokens a"

definition store_text ::
  "context_codec \<Rightarrow> string \<Rightarrow> jobj \<Rightarrow> artifact_policy option \<Rightarrow> ('z renv_scheme, artifact_ref) sm" where
  "store_text cc content metadata policy =
     bindE utc_datetime (\<lambda>now s.
       case put_text (cc_files cc) now now content ''text/plain; charset=utf-8'' metadata policy None
              (artifact_files s) of
         (r, fs) \<Rightarrow> (r, s\<lparr>artifact_files := fs\<rparr>))"

definition truncated_result ::
  "context_codec \<Rightarrow> context_assembler \<Rightarrow> string \<Rightarrow> string \<Rightarrow> bool \<Rightarrow> jobj \<Rightarrow> content_block" where
  "truncated_result cc a cid content is_error metadata =
     ToolResult cid (bounded_preview content (artifact_preview_chars a) truncation_marker) is_error
       (dict_merge metadata
         [(''context_projection'', JStr ''truncated''),
          (''original_sha256'', JStr (text_sha256 cc content)),
          (''original_size_bytes'', JInt (int (length (utf8_encode content))))])"

definition referenced_result ::
  "context_assembler \<Rightarrow> artifact_ref \<Rightarrow> string \<Rightarrow> string \<Rightarrow> bool \<Rightarrow> jobj \<Rightarrow> content_block" where
  "referenced_result a ref cid content is_error metadata =
     ToolResult cid (bounded_preview content (artifact_preview_chars a) artifact_marker) is_error
       (dict_merge metadata
         [(''artifact_id'', JStr (art_id ref)), (''artifact_sha256'', JStr (art_sha256 ref)),
          (''artifact_size_bytes'', JInt (art_size ref))])"

definition materialize_result ::
  "context_codec \<Rightarrow> context_assembler \<Rightarrow> bool \<Rightarrow> artifact_policy option \<Rightarrow> known_refs \<Rightarrow>
     string \<Rightarrow> string \<Rightarrow> bool \<Rightarrow> jobj \<Rightarrow> ('z renv_scheme, content_block \<times> known_refs) sm" where
  "materialize_result cc a stores policy refs cid content is_error metadata =
     (let is_large = is_large_result a content metadata in
      case existing_ref refs cid metadata of
        Some ref \<Rightarrow> retE (referenced_result a ref cid content is_error metadata, refs)
      | None \<Rightarrow>
          (if is_large \<and> stores then
             bindE (store_text cc content
                      [(''tool_call_id'', JStr cid), (''is_error'', JBool is_error)] policy) (\<lambda>ref.
               retE (referenced_result a ref cid content is_error metadata,
                     refs\<lparr>by_id := dict_set (art_id ref) ref (by_id refs),
                          by_call := dict_set cid ref (by_call refs)\<rparr>))
           else if is_large then retE (truncated_result cc a cid content is_error metadata, refs)
           else retE (ToolResult cid content is_error metadata, refs)))"

fun materialize_block ::
  "context_codec \<Rightarrow> context_assembler \<Rightarrow> bool \<Rightarrow> artifact_policy option \<Rightarrow> known_refs \<Rightarrow> content_block \<Rightarrow>
     ('z renv_scheme, content_block \<times> known_refs) sm" where
  "materialize_block cc a stores policy refs (ToolResult cid content is_error metadata) =
     materialize_result cc a stores policy refs cid content is_error metadata"
| "materialize_block cc a stores policy refs b = retE (b, refs)"

fun materialize_blocks ::
  "context_codec \<Rightarrow> context_assembler \<Rightarrow> bool \<Rightarrow> artifact_policy option \<Rightarrow> known_refs \<Rightarrow> content_block list \<Rightarrow>
     ('z renv_scheme, content_block list \<times> known_refs) sm" where
  "materialize_blocks cc a stores policy refs [] = retE ([], refs)"
| "materialize_blocks cc a stores policy refs (b # bs) =
     bindE (materialize_block cc a stores policy refs b) (\<lambda>(b', refs').
     bindE (materialize_blocks cc a stores policy refs' bs) (\<lambda>(bs', refs'').
       retE (b' # bs', refs'')))"

fun materialize_messages ::
  "context_codec \<Rightarrow> context_assembler \<Rightarrow> bool \<Rightarrow> artifact_policy option \<Rightarrow> known_refs \<Rightarrow> message list \<Rightarrow>
     ('z renv_scheme, message list \<times> known_refs) sm" where
  "materialize_messages cc a stores policy refs [] = retE ([], refs)"
| "materialize_messages cc a stores policy refs (m # ms) =
     bindE (materialize_blocks cc a stores policy refs (msg_content m)) (\<lambda>(bs, refs').
     bindE (materialize_messages cc a stores policy refs' ms) (\<lambda>(ms', refs'').
       retE (m\<lparr>msg_content := bs\<rparr> # ms', refs'')))"

definition materialize ::
  "context_codec \<Rightarrow> context_assembler \<Rightarrow> bool \<Rightarrow> artifact_policy option \<Rightarrow> artifact_ref list \<Rightarrow> message list \<Rightarrow>
     ('z renv_scheme, message list \<times> artifact_ref list) sm" where
  "materialize cc a stores policy known messages =
     bindE (materialize_messages cc a stores policy (initial_refs known) messages) (\<lambda>(ms, refs).
       retE (ms, map snd (by_id refs)))"

section \<open>Assembly\<close>

record assembled_context =
  asm_system_prompt :: string
  asm_system_blocks :: "content_block list"
  asm_messages :: "message list"
  asm_artifacts :: "artifact_ref list"
  asm_estimated_tokens :: int
  asm_budget :: context_budget

definition assemble ::
  "context_codec \<Rightarrow> context_assembler \<Rightarrow> message list \<Rightarrow> string \<Rightarrow> context_budget \<Rightarrow> context_section list \<Rightarrow>
     bool \<Rightarrow> artifact_policy option \<Rightarrow> artifact_ref list \<Rightarrow> ('z renv_scheme, assembled_context) sm" where
  "assemble cc a messages system_prompt budget sections stores policy known =
     (let system_blocks = compose_system_blocks system_prompt sections;
          rendered_prompt = join blank_line (map block_text_part system_blocks) in
      bindE (materialize cc a stores policy known messages) (\<lambda>(materialized, artifacts).
        retE \<lparr>asm_system_prompt = rendered_prompt, asm_system_blocks = system_blocks,
              asm_messages = materialized, asm_artifacts = artifacts,
              asm_estimated_tokens = estimate_text_tokens rendered_prompt + tool_schema_tokens budget +
                estimate_messages_tokens cc materialized,
              asm_budget = budget\<rparr>))"

end
