(* ===== verification/Context_State.thy ===== *)
theory Context_State
  imports Context_Types
begin

text \<open>
  The state carried across compactions, \<^verbatim>\<open>aihi/agent/context/state.py\<close>: facts with their evidence and
  their dictionary form. A \<^verbatim>\<open>ContextState\<close> has ten fields of facts that the code always reads by name
  from the list \<^verbatim>\<open>FACT_FIELDS\<close>; here they are one function from the names.
\<close>

definition CONTEXT_STATE_SCHEMA_VERSION :: int where
  "CONTEXT_STATE_SCHEMA_VERSION = 2"

text \<open>A list in a dictionary stands for a list or a tuple.\<close>

definition string_tuple :: "jval \<Rightarrow> string list" where
  "string_tuple v = (case v of JArr xs \<Rightarrow> map py_str xs | _ \<Rightarrow> [])"

definition int_item :: "jval \<Rightarrow> exn + int" where
  "int_item v =
     (case v of JInt i \<Rightarrow> Inr i | _ \<Rightarrow> Inl (value_error ''source event sequences must be integers''))"

definition int_tuple :: "jval \<Rightarrow> exn + int list" where
  "int_tuple v = (case v of JArr xs \<Rightarrow> mapR int_item xs | _ \<Rightarrow> Inr [])"

definition jints :: "int list \<Rightarrow> jval" where
  "jints xs = JArr (map JInt xs)"

fun jopt_int :: "int option \<Rightarrow> jval" where
  "jopt_int None = JNull"
| "jopt_int (Some i) = JInt i"

section \<open>Facts\<close>

record context_fact =
  fact_id :: string
  fact_text :: string
  fact_reason :: "string option"
  fact_messages :: "string list"
  fact_seqs :: "int list"
  observed_seq :: "int option"

definition check_fact :: "context_fact \<Rightarrow> exn + context_fact" where
  "check_fact f =
     (if blank (fact_id f) then Inl (value_error ''ContextFact id must not be empty'')
      else if blank (fact_text f) then Inl (value_error ''ContextFact text must not be empty'')
      else if (case observed_seq f of None \<Rightarrow> False | Some n \<Rightarrow> n < 0)
      then Inl (value_error ''ContextFact observed_seq must be a non-negative integer'')
      else Inr f)"

definition fact_to_dict :: "context_fact \<Rightarrow> jobj" where
  "fact_to_dict f =
     [(''id'', JStr (fact_id f)), (''text'', JStr (fact_text f)), (''reason'', jopt_str (fact_reason f)),
      (''source_message_ids'', jstrs (fact_messages f)), (''source_event_seqs'', jints (fact_seqs f)),
      (''observed_seq'', jopt_int (observed_seq f))]"

definition fact_from_dict :: "jobj \<Rightarrow> exn + context_fact" where
  "fact_from_dict v =
     bindR (case get_or_none v ''observed_seq'' of
              JNull \<Rightarrow> Inr None
            | JInt n \<Rightarrow> Inr (Some n)
            | _ \<Rightarrow> Inl (value_error ''ContextFact observed_seq must be an integer'')) (\<lambda>obs.
     bindR (int_tuple (get_or_none v ''source_event_seqs'')) (\<lambda>seqs.
       check_fact \<lparr>fact_id = py_str (get_or v ''id'' (JStr '''')),
                   fact_text = py_str (get_or v ''text'' (JStr '''')),
                   fact_reason = opt_str (get_or_none v ''reason''),
                   fact_messages = string_tuple (get_or_none v ''source_message_ids''),
                   fact_seqs = seqs, observed_seq = obs\<rparr>))"

section \<open>Artifacts\<close>

record artifact_state =
  ast_id :: string
  ast_purpose :: string
  ast_sha256 :: string
  ast_scope :: string
  ast_messages :: "string list"
  ast_seqs :: "int list"

definition check_artifact_state :: "artifact_state \<Rightarrow> exn + artifact_state" where
  "check_artifact_state a =
     (if blank (ast_id a) then Inl (value_error ''ArtifactState artifact_id must not be empty'')
      else if blank (ast_purpose a) then Inl (value_error ''ArtifactState purpose must not be empty'')
      else Inr a)"

definition artifact_state_to_dict :: "artifact_state \<Rightarrow> jobj" where
  "artifact_state_to_dict a =
     [(''artifact_id'', JStr (ast_id a)), (''purpose'', JStr (ast_purpose a)),
      (''sha256'', JStr (ast_sha256 a)), (''scope'', JStr (ast_scope a)),
      (''source_message_ids'', jstrs (ast_messages a)), (''source_event_seqs'', jints (ast_seqs a))]"

definition artifact_state_from_dict :: "jobj \<Rightarrow> exn + artifact_state" where
  "artifact_state_from_dict v =
     bindR (int_tuple (get_or_none v ''source_event_seqs'')) (\<lambda>seqs.
       check_artifact_state
         \<lparr>ast_id = py_str (get_or v ''artifact_id'' (JStr '''')),
          ast_purpose = py_str (get_or v ''purpose'' (JStr '''')),
          ast_sha256 = py_str (get_or v ''sha256'' (JStr '''')),
          ast_scope = py_str (get_or v ''scope'' (JStr '''')),
          ast_messages = string_tuple (get_or_none v ''source_message_ids''), ast_seqs = seqs\<rparr>)"

section \<open>The state\<close>

datatype fact_field =
    Constraints | Decisions | FileFacts | Verified | Failures | OpenQuestions | NextSteps
  | PendingApprovals | SkillFacts | SubagentFacts

definition FACT_FIELDS :: "fact_field list" where
  "FACT_FIELDS =
     [Constraints, Decisions, FileFacts, Verified, Failures, OpenQuestions, NextSteps,
      PendingApprovals, SkillFacts, SubagentFacts]"

text \<open>The fields are finitely many, so tables of facts can be compared.\<close>

instantiation fact_field :: enum
begin

definition enum_fact_field :: "fact_field list" where
  "enum_fact_field = FACT_FIELDS"

definition enum_all_fact_field :: "(fact_field \<Rightarrow> bool) \<Rightarrow> bool" where
  "enum_all_fact_field P = list_all P FACT_FIELDS"

definition enum_ex_fact_field :: "(fact_field \<Rightarrow> bool) \<Rightarrow> bool" where
  "enum_ex_fact_field P = list_ex P FACT_FIELDS"

instance
proof
  have all: "f \<in> set FACT_FIELDS" for f by (cases f) (simp_all add: FACT_FIELDS_def)
  then show "(UNIV :: fact_field set) = set Enum.enum" by (auto simp: enum_fact_field_def)
  show "distinct (Enum.enum :: fact_field list)" by (simp add: enum_fact_field_def FACT_FIELDS_def)
  show "Enum.enum_all P \<longleftrightarrow> Ball UNIV P" for P :: "fact_field \<Rightarrow> bool"
    using all by (auto simp: enum_all_fact_field_def list_all_iff)
  show "Enum.enum_ex P \<longleftrightarrow> Bex UNIV P" for P :: "fact_field \<Rightarrow> bool"
    using all by (auto simp: enum_ex_fact_field_def list_ex_iff)
qed

end

primrec field_name :: "fact_field \<Rightarrow> string" where
  "field_name Constraints = ''constraints''"
| "field_name Decisions = ''decisions''"
| "field_name FileFacts = ''files''"
| "field_name Verified = ''verified''"
| "field_name Failures = ''failures''"
| "field_name OpenQuestions = ''open_questions''"
| "field_name NextSteps = ''next_steps''"
| "field_name PendingApprovals = ''pending_approvals''"
| "field_name SkillFacts = ''skills''"
| "field_name SubagentFacts = ''subagents''"

record context_state =
  cst_strategy :: string
  cst_objective :: string
  cst_facts :: "fact_field \<Rightarrow> context_fact list"
  cst_artifacts :: "artifact_state list"
  cst_messages :: "string list"
  cst_seqs :: "int list"
  previous_compaction :: "string option"
  event_cursor :: int
  omitted_message_count :: int

text \<open>\<^verbatim>\<open>ContextState()\<close>; the schema version of a state that exists is the current one.\<close>

definition empty_context_state :: context_state where
  "empty_context_state =
     \<lparr>cst_strategy = ''rolling_summary'', cst_objective = '''', cst_facts = (\<lambda>_. []), cst_artifacts = [],
      cst_messages = [], cst_seqs = [], previous_compaction = None, event_cursor = 0,
      omitted_message_count = 0\<rparr>"

definition check_context_state :: "context_state \<Rightarrow> exn + context_state" where
  "check_context_state st =
     (if blank (cst_strategy st) then Inl (value_error ''ContextState strategy must not be empty'')
      else if omitted_message_count st < 0
      then Inl (value_error ''omitted_message_count cannot be negative'')
      else if event_cursor st < 0 then Inl (value_error ''event_cursor cannot be negative'')
      else Inr st)"

definition context_state_to_dict :: "context_state \<Rightarrow> jobj" where
  "context_state_to_dict st =
     [(''kind'', JStr ''context_state''), (''schema_version'', JInt CONTEXT_STATE_SCHEMA_VERSION),
      (''strategy'', JStr (cst_strategy st)), (''objective'', JStr (cst_objective st)),
      (''artifacts'', JArr (map (\<lambda>a. JObj (artifact_state_to_dict a)) (cst_artifacts st))),
      (''source_message_ids'', jstrs (cst_messages st)), (''source_event_seqs'', jints (cst_seqs st)),
      (''previous_compaction_id'', jopt_str (previous_compaction st)),
      (''event_cursor'', JInt (event_cursor st)),
      (''omitted_message_count'', JInt (omitted_message_count st))] @
     map (\<lambda>f. (field_name f, JArr (map (\<lambda>x. JObj (fact_to_dict x)) (cst_facts st f)))) FACT_FIELDS"

text \<open>\<^verbatim>\<open>dict(item) for item in items if isinstance(item, dict)\<close>.\<close>

fun dict_item :: "jval \<Rightarrow> jobj option" where
  "dict_item (JObj d) = Some d"
| "dict_item _ = None"

definition facts_from_dict :: "jobj \<Rightarrow> fact_field \<Rightarrow> exn + context_fact list" where
  "facts_from_dict v f =
     (case get_or v (field_name f) (JArr []) of
        JArr items \<Rightarrow> mapR fact_from_dict (List.map_filter dict_item items)
      | _ \<Rightarrow> Inl (value_error (''ContextState '' @ field_name f @ '' must be a list'')))"

definition require_int :: "jval \<Rightarrow> string \<Rightarrow> exn + int" where
  "require_int v m = (case v of JInt i \<Rightarrow> Inr i | _ \<Rightarrow> Inl (value_error m))"

definition context_state_from_dict :: "jobj \<Rightarrow> exn + context_state" where
  "context_state_from_dict v =
     bindR (require_int (get_or v ''schema_version'' (JInt CONTEXT_STATE_SCHEMA_VERSION))
              ''ContextState schema must be an integer'') (\<lambda>version.
     if version \<noteq> CONTEXT_STATE_SCHEMA_VERSION
     then Inl (value_error (''Unsupported ContextState schema: '' @ show_int version))
     else
       bindR (mapR (facts_from_dict v) FACT_FIELDS) (\<lambda>fields.
       bindR (case get_or v ''artifacts'' (JArr []) of
                JArr items \<Rightarrow> Inr (List.map_filter dict_item items)
              | _ \<Rightarrow> Inl (value_error ''ContextState artifacts must be a list'')) (\<lambda>raw_artifacts.
       bindR (require_int (get_or v ''omitted_message_count'' (JInt 0))
                ''omitted_message_count must be an integer'') (\<lambda>omitted.
       bindR (require_int (get_or v ''event_cursor'' (JInt 0)) ''event_cursor must be an integer'') (\<lambda>cursor.
       bindR (mapR artifact_state_from_dict raw_artifacts) (\<lambda>artifacts.
       bindR (int_tuple (get_or_none v ''source_event_seqs'')) (\<lambda>seqs.
         check_context_state
           \<lparr>cst_strategy = py_str (get_or v ''strategy'' (JStr ''rolling_summary'')),
            cst_objective = py_str (get_or v ''objective'' (JStr '''')),
            cst_facts = (\<lambda>f. case map_of (zip FACT_FIELDS fields) f of None \<Rightarrow> [] | Some xs \<Rightarrow> xs),
            cst_artifacts = artifacts, cst_messages = string_tuple (get_or_none v ''source_message_ids''),
            cst_seqs = seqs, previous_compaction = opt_str (get_or_none v ''previous_compaction_id''),
            event_cursor = cursor, omitted_message_count = omitted\<rparr>)))))))"

definition context_state_to_message ::
  "context_codec \<Rightarrow> string \<Rightarrow> context_state \<Rightarrow> ('w world_scheme, message) sm" where
  "context_state_to_message cc strategy st =
     new_message System [TextBlock (cc_dumps_sorted cc (JObj (context_state_to_dict st))) False]
       [(''compaction'', JStr (if strategy = '''' then cst_strategy st else strategy)),
        (''context_state_schema_version'', JInt CONTEXT_STATE_SCHEMA_VERSION),
        (''source_message_ids'', jstrs (cst_messages st)),
        (''source_event_seqs'', jints (cst_seqs st))]"

definition context_state_from_message :: "context_codec \<Rightarrow> message \<Rightarrow> exn + context_state" where
  "context_state_from_message cc m =
     (case cc_loads cc (text_content m) of
        None \<Rightarrow> Inl (value_error ''ContextState message must contain JSON'')
      | Some (JObj raw) \<Rightarrow> context_state_from_dict raw
      | Some _ \<Rightarrow> Inl (value_error ''ContextState message must contain an object''))"

section \<open>Round trips\<close>

lemma int_tuple_jints [simp]: "int_tuple (jints xs) = Inr xs"
proof -
  have "mapR int_item (map JInt xs) = Inr xs" by (induction xs) (simp_all add: int_item_def)
  then show ?thesis by (simp add: int_tuple_def jints_def)
qed

lemma string_tuple_jstrs [simp]: "string_tuple (jstrs xs) = xs"
  by (simp add: string_tuple_def jstrs_def comp_def)

lemma check_same:
  "check_fact f = Inr f' \<Longrightarrow> f' = f" "check_artifact_state a = Inr a' \<Longrightarrow> a' = a"
  "check_context_state st = Inr st' \<Longrightarrow> st' = st"
  by (auto simp: check_fact_def check_artifact_state_def check_context_state_def split: if_splits)

lemma fact_roundtrip: "check_fact f = Inr f \<Longrightarrow> fact_from_dict (fact_to_dict f) = Inr f"
  by (cases f; cases "observed_seq f") (simp_all add: fact_from_dict_def fact_to_dict_def)

lemma artifact_state_roundtrip:
  "check_artifact_state a = Inr a \<Longrightarrow> artifact_state_from_dict (artifact_state_to_dict a) = Inr a"
  by (cases a) (simp add: artifact_state_from_dict_def artifact_state_to_dict_def)

lemma field_name_inject [simp]: "field_name f = field_name g \<longleftrightarrow> f = g"
  by (cases f; cases g) simp_all

lemma fact_field_mem [simp]: "f \<in> set FACT_FIELDS"
  by (cases f) (simp_all add: FACT_FIELDS_def)

text \<open>A state whose parts passed their checks, as every state that exists did.\<close>

definition context_state_ok :: "context_state \<Rightarrow> bool" where
  "context_state_ok st \<longleftrightarrow>
     check_context_state st = Inr st \<and>
     (\<forall>f. \<forall>x \<in> set (cst_facts st f). check_fact x = Inr x) \<and>
     (\<forall>a \<in> set (cst_artifacts st). check_artifact_state a = Inr a)"

lemma mapR_image_Inr: "(\<And>x. x \<in> set xs \<Longrightarrow> g (f x) = Inr x) \<Longrightarrow> mapR g (map f xs) = Inr xs"
  by (induction xs) auto

lemma map_filter_dict_item [simp]: "List.map_filter dict_item (map (\<lambda>x. JObj (g x)) xs) = map g xs"
  by (induction xs) (simp_all add: List.map_filter_simps)

lemma map_of_fields: "map_of (map (\<lambda>f. (field_name f, h f)) fs) (field_name f) = (if f \<in> set fs then Some (h f) else None)"
  by (induction fs) auto

lemma facts_from_to_dict:
  assumes "\<forall>x \<in> set (cst_facts st f). check_fact x = Inr x"
  shows "facts_from_dict (context_state_to_dict st) f = Inr (cst_facts st f)"
proof -
  have "dict_get (context_state_to_dict st) (field_name f) =
      map_of (map (\<lambda>f. (field_name f, JArr (map (\<lambda>x. JObj (fact_to_dict x)) (cst_facts st f)))) FACT_FIELDS)
        (field_name f)"
    unfolding context_state_to_dict_def by (cases f) simp_all
  then have "get_or (context_state_to_dict st) (field_name f) (JArr []) =
      JArr (map (\<lambda>x. JObj (fact_to_dict x)) (cst_facts st f))"
    by (simp add: get_or_def map_of_fields)
  moreover have "mapR fact_from_dict (map fact_to_dict (cst_facts st f)) = Inr (cst_facts st f)"
    using assms by (intro mapR_image_Inr fact_roundtrip) blast
  ultimately show ?thesis by (simp add: facts_from_dict_def)
qed

lemma context_state_get:
  "get_or (context_state_to_dict st) ''schema_version'' w = JInt CONTEXT_STATE_SCHEMA_VERSION"
  "get_or (context_state_to_dict st) ''strategy'' w = JStr (cst_strategy st)"
  "get_or (context_state_to_dict st) ''objective'' w = JStr (cst_objective st)"
  "get_or (context_state_to_dict st) ''artifacts'' w =
     JArr (map (\<lambda>a. JObj (artifact_state_to_dict a)) (cst_artifacts st))"
  "get_or (context_state_to_dict st) ''source_message_ids'' w = jstrs (cst_messages st)"
  "get_or (context_state_to_dict st) ''source_event_seqs'' w = jints (cst_seqs st)"
  "get_or (context_state_to_dict st) ''previous_compaction_id'' w = jopt_str (previous_compaction st)"
  "get_or (context_state_to_dict st) ''event_cursor'' w = JInt (event_cursor st)"
  "get_or (context_state_to_dict st) ''omitted_message_count'' w = JInt (omitted_message_count st)"
  by (simp_all add: context_state_to_dict_def)

lemma context_state_roundtrip:
  assumes "context_state_ok st"
  shows "context_state_from_dict (context_state_to_dict st) = Inr st"
proof -
  have "mapR (facts_from_dict (context_state_to_dict st)) FACT_FIELDS = Inr (map (cst_facts st) FACT_FIELDS)"
    using assms by (intro mapR_all_Inr facts_from_to_dict) (simp add: context_state_ok_def)
  moreover have "mapR artifact_state_from_dict (map artifact_state_to_dict (cst_artifacts st)) = Inr (cst_artifacts st)"
    using assms by (intro mapR_image_Inr artifact_state_roundtrip) (simp add: context_state_ok_def)
  moreover have "(\<lambda>f. case map_of (zip FACT_FIELDS (map (cst_facts st) FACT_FIELDS)) f of None \<Rightarrow> []
      | Some xs \<Rightarrow> xs) = cst_facts st"
    by (simp add: map_of_zip_map)
  moreover have "check_context_state st = Inr st" using assms by (simp add: context_state_ok_def)
  ultimately show ?thesis
    by (cases st) (simp add: context_state_from_dict_def context_state_get require_int_def)
qed

end
