(* ===== verification/Context_Summary.thy ===== *)
theory Context_Summary
  imports Context_Types
begin

text \<open>
  The generators of summaries: the contract and the offline generator of
  \<^verbatim>\<open>aihi/agent/context/summary.py\<close>, and the one that asks a compact model, \<^verbatim>\<open>model_summary.py\<close>. The
  semaphore of the latter only rules out some of the interleavings that \<open>gatherT\<close> ranges over and is
  left out.
\<close>

section \<open>Requests and summaries\<close>

record summary_request =
  omitted_messages :: "message list"
  retained_messages :: "message list"
  sreq_system_prompt :: string
  sreq_artifact_ids :: "string list"

record structured_summary =
  sum_strategy :: string
  sum_objective :: string
  sum_constraints :: "string list"
  sum_decisions :: "string list"
  sum_files_changed :: "string list"
  sum_verified_state :: "string list"
  sum_open_questions :: "string list"
  sum_next_steps :: "string list"
  sum_skills :: "string list"
  sum_subagents :: "string list"
  sum_artifacts :: "string list"
  sum_omitted_count :: int
  sum_fallback_reason :: "string option"

definition summary_to_dict :: "structured_summary \<Rightarrow> jobj" where
  "summary_to_dict s =
     [(''kind'', JStr ''context_compaction_summary''), (''strategy'', JStr (sum_strategy s)),
      (''objective'', JStr (sum_objective s)), (''constraints'', jstrs (sum_constraints s)),
      (''decisions'', jstrs (sum_decisions s)), (''files_changed'', jstrs (sum_files_changed s)),
      (''verified_state'', jstrs (sum_verified_state s)), (''open_questions'', jstrs (sum_open_questions s)),
      (''next_steps'', jstrs (sum_next_steps s)), (''skills'', jstrs (sum_skills s)),
      (''subagents'', jstrs (sum_subagents s)), (''artifacts'', jstrs (sum_artifacts s)),
      (''omitted_message_count'', JInt (sum_omitted_count s)),
      (''fallback_reason'', jopt_str (sum_fallback_reason s))]"

definition summary_to_message ::
  "context_codec \<Rightarrow> string list \<Rightarrow> string \<Rightarrow> structured_summary \<Rightarrow> ('w world_scheme, message) sm" where
  "summary_to_message cc source_ids strategy s =
     new_message System [TextBlock (cc_dumps_sorted cc (JObj (summary_to_dict s))) False]
       [(''compaction'', JStr (if strategy = '''' then sum_strategy s else strategy)),
        (''source_message_ids'', jstrs source_ids)]"

section \<open>The offline generator\<close>

definition deterministic_summary :: "summary_request \<Rightarrow> structured_summary" where
  "deterministic_summary r =
     \<lparr>sum_strategy = ''rolling_summary'',
      sum_objective =
        (case find (\<lambda>m. msg_role m = User \<and> text_content m \<noteq> '''')
                (rev (omitted_messages r @ retained_messages r)) of
           None \<Rightarrow> '''' | Some m \<Rightarrow> text_content m),
      sum_constraints = [], sum_decisions = [], sum_files_changed = [], sum_verified_state = [],
      sum_open_questions = [], sum_next_steps = [], sum_skills = [], sum_subagents = [],
      sum_artifacts = sreq_artifact_ids r, sum_omitted_count = int (length (omitted_messages r)),
      sum_fallback_reason = None\<rparr>"

definition STRATEGY_MODEL :: string where
  "STRATEGY_MODEL = ''rolling_summary_model''"

definition STRATEGY_FALLBACK :: string where
  "STRATEGY_FALLBACK = ''rolling_summary_fallback''"

section \<open>The compact model's input and answer\<close>

definition summary_lines :: "jval \<Rightarrow> string list" where
  "summary_lines v =
     (case v of
        JArr items \<Rightarrow>
          List.map_filter (\<lambda>item. case item of JStr s \<Rightarrow> if blank s then None else Some (strip s) | _ \<Rightarrow> None) items
      | _ \<Rightarrow> [])"

definition json_span :: "string \<Rightarrow> exn + string" where
  "json_span text =
     (let start = length (takeWhile (\<lambda>c. c \<noteq> CHR ''{'') text);
          after_end = length text - length (takeWhile (\<lambda>c. c \<noteq> CHR ''}'') (rev text)) in
      if start = length text \<or> after_end \<le> start + 1
      then Inl (value_error ''compact model returned no JSON object'')
      else Inr (drop start (take after_end text)))"

fun render_block :: "context_codec \<Rightarrow> content_block \<Rightarrow> string option" where
  "render_block cc (TextBlock text _) = (if blank text then None else Some (strip text))"
| "render_block cc (ToolCall i name input) =
     Some (''tool_call id='' @ i @ '' name='' @ name @ '' input='' @ cc_dumps_keys cc (JObj input))"
| "render_block cc (ToolResult i content is_error _) =
     Some (''tool_result call_id='' @ i @ '' status='' @ (if is_error then ''error'' else ''ok'')
       @ CHR 0x0A # content)"
| "render_block cc (ImageBlock media_type _ _) = Some (''[image media_type='' @ media_type @ '']'')"
| "render_block cc (ThinkingBlock _ _ _) = None"

definition render_message :: "context_codec \<Rightarrow> message \<Rightarrow> string" where
  "render_message cc m =
     (let blocks = List.map_filter (render_block cc) (msg_content m) in
      if blocks = [] then '''' else role_text (msg_role m) @ '': '' @ join [CHR 0x0A] blocks)"

definition render_messages :: "context_codec \<Rightarrow> message list \<Rightarrow> string" where
  "render_messages cc ms =
     (let text = join [CHR 0x0A, CHR 0x0A] (filter (\<lambda>p. p \<noteq> []) (map (render_message cc) ms)) in
      if text = [] then ''(no textual messages to summarize)'' else text)"

definition json_decode_error :: exn where
  "json_decode_error = Exn (OtherError ''JSONDecodeError'') ''''"

definition parse_summary :: "context_codec \<Rightarrow> string \<Rightarrow> summary_request \<Rightarrow> exn + structured_summary" where
  "parse_summary cc text r =
     bindR (json_span text) (\<lambda>span.
     case cc_loads cc span of
       None \<Rightarrow> Inl json_decode_error
     | Some (JObj payload) \<Rightarrow>
         (case get_or_none payload ''objective'' of
            JStr objective \<Rightarrow>
              (if blank objective then Inl (value_error ''compact model returned no objective'')
               else Inr
                 \<lparr>sum_strategy = STRATEGY_MODEL, sum_objective = strip objective,
                  sum_constraints = summary_lines (get_or_none payload ''constraints''),
                  sum_decisions = summary_lines (get_or_none payload ''decisions''),
                  sum_files_changed = summary_lines (get_or_none payload ''files_changed''),
                  sum_verified_state = summary_lines (get_or_none payload ''verified_state''),
                  sum_open_questions = summary_lines (get_or_none payload ''open_questions''),
                  sum_next_steps = summary_lines (get_or_none payload ''next_steps''),
                  sum_skills = [], sum_subagents = [], sum_artifacts = sreq_artifact_ids r,
                  sum_omitted_count = int (length (omitted_messages r)), sum_fallback_reason = None\<rparr>)
          | _ \<Rightarrow> Inl (value_error ''compact model returned no objective''))
     | Some _ \<Rightarrow> Inl (value_error ''compact model did not return a JSON object''))"

section \<open>The generator that asks a model\<close>

text \<open>\<open>ms_instructions\<close> is the text \<^verbatim>\<open>_INSTRUCTIONS\<close>.\<close>

record model_summarizer =
  ms_provider :: provider
  ms_model :: string
  ms_instructions :: string
  ms_max_input_chars :: int
  ms_max_output_tokens :: int

definition check_summarizer :: "model_summarizer \<Rightarrow> rat \<Rightarrow> int \<Rightarrow> exn + model_summarizer" where
  "check_summarizer g timeout max_concurrency =
     (if blank (ms_model g) then Inl (value_error ''compact model must be a non-empty string'')
      else if ms_max_input_chars g \<le> 0 \<or> ms_max_output_tokens g \<le> 0 \<or> timeout \<le> 0 \<or> max_concurrency \<le> 0
      then Inl (value_error ''compact generator bounds must be positive'')
      else Inr (g\<lparr>ms_model := strip (ms_model g)\<rparr>))"

text \<open>Packing the groups into chunks: those that are full, and the one being filled.\<close>

fun pack_groups ::
  "context_codec \<Rightarrow> int \<Rightarrow> message list list \<Rightarrow> message list \<Rightarrow> message list list \<Rightarrow> message list list" where
  "pack_groups cc limit chunks current [] = (if current = [] then chunks else chunks @ [current])"
| "pack_groups cc limit chunks current (g # gs) =
     (if current \<noteq> [] \<and> int (length (render_messages cc (current @ g))) > limit
      then pack_groups cc limit (chunks @ [current]) g gs
      else pack_groups cc limit chunks (current @ g) gs)"

definition summary_chunks :: "context_codec \<Rightarrow> int \<Rightarrow> summary_request \<Rightarrow> summary_request list" where
  "summary_chunks cc limit r =
     (let groups = group_tool_exchanges (omitted_messages r) in
      if groups = [] then [r]
      else map (\<lambda>chunk. r\<lparr>omitted_messages := chunk\<rparr>) (pack_groups cc limit [] [] groups))"

fun last_response ::
  "stream_chunk list \<Rightarrow> exn option \<Rightarrow> model_response option \<Rightarrow> ('z renv_scheme, model_response option) task" where
  "last_response [] err response =
     bindT (externalT (\<lambda>_. case err of None \<Rightarrow> Inr () | Some e \<Rightarrow> Inl e)) (\<lambda>_. retT response)"
| "last_response (c # cs) err response =
     bindT (externalT (\<lambda>_. Inr c)) (\<lambda>chunk.
       last_response cs err (case chunk of MessageEnd r \<Rightarrow> Some r | _ \<Rightarrow> response))"

definition ask_compact_model ::
  "context_codec \<Rightarrow> model_summarizer \<Rightarrow> summary_request \<Rightarrow> ('z renv_scheme, string) task" where
  "ask_compact_model cc g r =
     bindT (liftT (new_message User [TextBlock (render_messages cc (omitted_messages r)) False] [])) (\<lambda>m.
     let request = \<lparr>req_model = ms_model g, req_messages = [m], req_tools = [],
            req_system_prompt = ms_instructions g, req_max_output_tokens = ms_max_output_tokens g,
            req_system_blocks = [], req_cache_policy = None\<rparr> in
     bindT (liftT (liftE (check_model_request request))) (\<lambda>_.
     bindT (liftT (external_now (prov_stream (ms_provider g) request))) (\<lambda>(chunks, err).
     bindT (finallyT (last_response chunks err None) (close_stream (ms_provider g))) (\<lambda>response.
     case response of
       None \<Rightarrow> raiseT (value_error ''compact model produced no response'')
     | Some a \<Rightarrow> retT (text_content (resp_message a))))))"

definition summarize_chunk ::
  "context_codec \<Rightarrow> model_summarizer \<Rightarrow> summary_request \<Rightarrow> ('z renv_scheme, structured_summary) task" where
  "summarize_chunk cc g r =
     catchT
       (bindT (ask_compact_model cc g r) (\<lambda>text. liftT (liftE (parse_summary cc text r))))
       (\<lambda>error. if is_cancelled error then raiseT error
                 else retT ((deterministic_summary r)\<lparr>sum_strategy := STRATEGY_FALLBACK,
                        sum_fallback_reason := Some (exn_type_name error)\<rparr>))"

definition merge_summaries :: "structured_summary list \<Rightarrow> summary_request \<Rightarrow> structured_summary" where
  "merge_summaries summaries r =
     (let merged = (\<lambda>field. ordered_set (concat (map field summaries)));
          fallback_reasons = ordered_set (List.map_filter (\<lambda>s. case sum_fallback_reason s of
              Some reason \<Rightarrow> if reason = '''' then None else Some reason | None \<Rightarrow> None) summaries) in
      \<lparr>sum_strategy = (if fallback_reasons \<noteq> [] then STRATEGY_FALLBACK else STRATEGY_MODEL),
       sum_objective = (case find (\<lambda>s. sum_objective s \<noteq> '''') (rev summaries) of
          None \<Rightarrow> '''' | Some s \<Rightarrow> sum_objective s),
       sum_constraints = merged sum_constraints, sum_decisions = merged sum_decisions,
       sum_files_changed = merged sum_files_changed, sum_verified_state = merged sum_verified_state,
       sum_open_questions = merged sum_open_questions, sum_next_steps = merged sum_next_steps,
       sum_skills = [], sum_subagents = [], sum_artifacts = sreq_artifact_ids r,
       sum_omitted_count = int (length (omitted_messages r)),
       sum_fallback_reason =
         (let reasons = join '', '' fallback_reasons in if reasons = [] then None else Some reasons)\<rparr>)"

definition model_summary ::
  "context_codec \<Rightarrow> model_summarizer \<Rightarrow> summary_request \<Rightarrow> ('z renv_scheme, structured_summary) task" where
  "model_summary cc g r =
     bindT (gatherT (map (summarize_chunk cc g) (summary_chunks cc (ms_max_input_chars g) r)))
       (\<lambda>summaries. retT (merge_summaries summaries r))"

section \<open>Generators\<close>

text \<open>The two generators of the package, and any other: its class name and what its calls come to.\<close>

datatype summary_generator =
    DeterministicSummaryGenerator
  | ModelSummaryGenerator model_summarizer
  | CustomGenerator string "summary_request \<Rightarrow> nat \<Rightarrow> exn + structured_summary"

fun generator_name :: "summary_generator \<Rightarrow> string" where
  "generator_name DeterministicSummaryGenerator = ''DeterministicSummaryGenerator''"
| "generator_name (ModelSummaryGenerator _) = ''ModelSummaryGenerator''"
| "generator_name (CustomGenerator n _) = n"

fun generate_with ::
  "context_codec \<Rightarrow> summary_generator \<Rightarrow> summary_request \<Rightarrow> ('z renv_scheme, structured_summary) task" where
  "generate_with cc DeterministicSummaryGenerator r = retT (deterministic_summary r)"
| "generate_with cc (ModelSummaryGenerator g) r = model_summary cc g r"
| "generate_with cc (CustomGenerator _ f) r = externalT (f r)"

section \<open>Packing keeps every message\<close>

lemma pack_groups_concat:
  "concat (pack_groups cc limit chunks current gs) = concat chunks @ current @ concat gs"
  by (induction cc limit chunks current gs rule: pack_groups.induct) auto

lemma pack_groups_nonempty:
  "[] \<notin> set chunks \<Longrightarrow> [] \<notin> set (pack_groups cc limit chunks current gs)"
  by (induction cc limit chunks current gs rule: pack_groups.induct) auto

lemma concat_groups: "concat (group_tool_exchanges ms) = ms"
proof (induction ms rule: group_tool_exchanges.induct)
  case (2 m ms)
  obtain g rest where t: "group_tail (set (message_call_ids m) - set (message_result_ids m)) ms = (g, rest)"
    by fastforce
  then show ?case using 2 [OF t [symmetric] refl] group_tail_append [OF t]
    by (simp add: group_tool_exchanges.simps(2))
qed simp

lemma groups_nonempty: "[] \<notin> set (group_tool_exchanges ms)"
proof (induction ms rule: group_tool_exchanges.induct)
  case (2 m ms)
  obtain g rest where t: "group_tail (set (message_call_ids m) - set (message_result_ids m)) ms = (g, rest)"
    by fastforce
  then show ?case using 2 [OF t [symmetric] refl] by (simp add: group_tool_exchanges.simps(2))
qed simp

lemma chunks_concat:
  "concat (map omitted_messages (summary_chunks cc limit r)) = omitted_messages r"
proof (cases "group_tool_exchanges (omitted_messages r) = []")
  case True
  then show ?thesis by (simp add: summary_chunks_def)
next
  case False
  then show ?thesis
    by (simp add: summary_chunks_def Let_def comp_def pack_groups_concat concat_groups)
qed

text \<open>Each chunk is a run of whole groups.\<close>

lemma pack_groups_whole:
  assumes "\<And>c. c \<in> set chunks \<Longrightarrow> \<exists>gs'. c = concat gs' \<and> set gs' \<subseteq> G"
    and "\<exists>gs'. current = concat gs' \<and> set gs' \<subseteq> G" and "set gs \<subseteq> G"
    and "c \<in> set (pack_groups cc limit chunks current gs)"
  shows "\<exists>gs'. c = concat gs' \<and> set gs' \<subseteq> G"
  using assms
proof (induction cc limit chunks current gs rule: pack_groups.induct)
  case (1 cc limit chunks current)
  then show ?case by (auto split: if_splits)
next
  case (2 cc limit chunks current g gs)
  obtain gs0 where gs0: "current = concat gs0" "set gs0 \<subseteq> G" using "2.prems"(2) by blast
  have one: "\<exists>gs'. g = concat gs' \<and> set gs' \<subseteq> G" using "2.prems"(3) by (intro exI [of _ "[g]"]) simp
  have both: "\<exists>gs'. current @ g = concat gs' \<and> set gs' \<subseteq> G"
    using gs0 "2.prems"(3) by (intro exI [of _ "gs0 @ [g]"]) simp
  show ?case
  proof (cases "current \<noteq> [] \<and> int (length (render_messages cc (current @ g))) > limit")
    case True
    then show ?thesis using "2.IH"(1) [OF True _ one] "2.prems" by auto
  next
    case False
    then show ?thesis using "2.IH"(2) [OF False _ both] "2.prems" by auto
  qed
qed

lemma chunk_at_group_bounds:
  assumes "c \<in> set (summary_chunks cc limit r)" and "omitted_messages r \<noteq> []"
  shows "\<exists>gs. omitted_messages c = concat gs \<and> set gs \<subseteq> set (group_tool_exchanges (omitted_messages r))"
proof -
  have "group_tool_exchanges (omitted_messages r) \<noteq> []"
    using assms(2) concat_groups [of "omitted_messages r"] by (metis concat.simps(1))
  then obtain chunk where "c = r\<lparr>omitted_messages := chunk\<rparr>"
    and "chunk \<in> set (pack_groups cc limit [] [] (group_tool_exchanges (omitted_messages r)))"
    using assms(1) by (auto simp: summary_chunks_def Let_def)
  moreover have "\<exists>gs'. [] = concat gs' \<and> set gs' \<subseteq> set (group_tool_exchanges (omitted_messages r))"
    by (rule exI [of _ "[]"]) simp
  ultimately show ?thesis
    using pack_groups_whole [of "[]" "set (group_tool_exchanges (omitted_messages r))" "[]"
        "group_tool_exchanges (omitted_messages r)" chunk cc limit]
    by simp
qed

end
