(* ===== verification/Context_Projector.thy ===== *)
theory Context_Projector
  imports Context_State Context_Summary
begin

text \<open>
  The projection of durable events, tool results and artifacts to a \<open>context_state\<close>:
  \<^verbatim>\<open>aihi/agent/context/projector.py\<close>. A \<open>ValueError\<close> of a fact or a state that cannot be built is a
  result of the projection.
\<close>

section \<open>Small helpers\<close>

definition strip_text :: "jval \<Rightarrow> string" where
  "strip_text v = (case v of JStr s \<Rightarrow> strip s | _ \<Rightarrow> [])"

text \<open>\<^verbatim>\<open>a or b\<close> on texts.\<close>

definition or_text :: "string \<Rightarrow> string \<Rightarrow> string" where
  "or_text a b = (if a = [] then b else a)"

definition make_fact_id :: "context_codec \<Rightarrow> fact_field \<Rightarrow> string \<Rightarrow> string" where
  "make_fact_id cc field key =
     field_name field @ ''-'' @ take 20 (text_sha256 cc (field_name field @ CHR 0x00 # strip key))"

definition make_fact ::
  "context_codec \<Rightarrow> fact_field \<Rightarrow> string \<Rightarrow> string \<Rightarrow> string \<Rightarrow> string list \<Rightarrow> int list \<Rightarrow> exn + context_fact" where
  "make_fact cc field text stable_key reason messages seqs =
     check_fact
       \<lparr>fact_id = make_fact_id cc field (or_text stable_key text), fact_text = strip text,
        fact_reason = Some reason, fact_messages = ordered_set messages, fact_seqs = ordered_set seqs,
        observed_seq = (if seqs = [] then None else Some (Max (set seqs)))\<rparr>"

definition fact_recency :: "context_fact \<Rightarrow> int" where
  "fact_recency f =
     (case observed_seq f of
        Some n \<Rightarrow> n
      | None \<Rightarrow> (if fact_seqs f = [] then -1 else Max (set (fact_seqs f))))"

type_synonym fact_table = "fact_field \<Rightarrow> (string, context_fact) dict"

definition ordered_facts :: "(string, context_fact) dict \<Rightarrow> context_fact list" where
  "ordered_facts d = sort_key fact_recency (map snd d)"

definition add_fact :: "fact_field \<Rightarrow> context_fact \<Rightarrow> fact_table \<Rightarrow> fact_table" where
  "add_fact field x table = table(field := dict_set (fact_id x) x (table field))"

definition prior_facts :: "context_state \<Rightarrow> fact_table" where
  "prior_facts prior = (\<lambda>f. foldl (\<lambda>d x. dict_set (fact_id x) x d) [] (cst_facts prior f))"

definition seqs_for :: "(string, int) dict \<Rightarrow> string list \<Rightarrow> int list" where
  "seqs_for seqs ids = ordered_set (List.map_filter (dict_get seqs) ids)"

definition evidence_boundaries :: "string list \<Rightarrow> string list" where
  "evidence_boundaries ids =
     (let ordered = ordered_set ids in
      if length ordered \<le> 2 then ordered else [hd ordered, last ordered])"

definition artifact_scope :: "artifact_ref \<Rightarrow> string" where
  "artifact_scope ref =
     (if pol_run (art_policy ref) \<noteq> None then ''run''
      else if pol_session (art_policy ref) \<noteq> None then ''session'' else ''global'')"

definition call_message_id :: "string \<Rightarrow> message list \<Rightarrow> string option" where
  "call_message_id cid messages =
     map_option msg_id (find (\<lambda>m. cid \<in> set (message_call_ids m)) messages)"

text \<open>The ids that are there and not empty.\<close>

definition present_ids :: "string option list \<Rightarrow> string list" where
  "present_ids ids = List.map_filter (\<lambda>i. case i of Some s \<Rightarrow> if s = [] then None else Some s | None \<Rightarrow> None) ids"

section \<open>Messages of the events\<close>

definition is_message_error :: "exn \<Rightarrow> bool" where
  "is_message_error e =
     (case e of Exn c _ \<Rightarrow> c \<in> {Py ValueError, Py TypeError, Py UnsupportedMessageSchema} | _ \<Rightarrow> False)"

definition read_event_message :: "jobj \<Rightarrow> jobj \<Rightarrow> ('w world_scheme, message option) sm" where
  "read_event_message data raw =
     catchE
       (bindE (decode_message_event
                [(''message_schema_version'', get_or data ''message_schema_version'' (JInt 1)),
                 (''message'', JObj raw)]) (\<lambda>m. retE (Some m)))
       (\<lambda>e. if is_message_error e then retE None else raiseE e)"

fun event_messages ::
  "message list \<Rightarrow> (string, int) dict \<Rightarrow> event list \<Rightarrow>
     ('w world_scheme, message list \<times> (string, int) dict) sm" where
  "event_messages msgs seqs [] = retE (msgs, seqs)"
| "event_messages msgs seqs (e # es) =
     (case get_or_none (ev_data e) ''message'' of
        JObj raw \<Rightarrow>
          bindE (read_event_message (ev_data e) raw) (\<lambda>found. case found of
              None \<Rightarrow> event_messages msgs seqs es
            | Some m \<Rightarrow> event_messages (msgs @ [m])
                (case ev_seq e of None \<Rightarrow> seqs | Some n \<Rightarrow> dict_set (msg_id m) n seqs) es)
      | _ \<Rightarrow> event_messages msgs seqs es)"

definition unique_messages :: "message list \<Rightarrow> message list" where
  "unique_messages ms = map snd (foldl (\<lambda>d m. dict_set (msg_id m) m d) [] ms)"

record tool_index =
  ti_calls :: "(string, tool_call_block) dict"
  ti_call_messages :: "(string, string) dict"
  ti_results :: "(string, tool_result_block) dict"
  ti_result_messages :: "(string, string) dict"

definition index_call :: "string \<Rightarrow> tool_index \<Rightarrow> tool_call_block \<Rightarrow> tool_index" where
  "index_call mid ti c =
     ti\<lparr>ti_calls := dict_set (call_id c) c (ti_calls ti),
        ti_call_messages := dict_set (call_id c) mid (ti_call_messages ti)\<rparr>"

definition index_result :: "string \<Rightarrow> tool_index \<Rightarrow> tool_result_block \<Rightarrow> tool_index" where
  "index_result mid ti r =
     ti\<lparr>ti_results := dict_set (result_call_id r) r (ti_results ti),
        ti_result_messages := dict_set (result_call_id r) mid (ti_result_messages ti)\<rparr>"

definition index_message :: "tool_index \<Rightarrow> message \<Rightarrow> tool_index" where
  "index_message ti m =
     foldl (index_result (msg_id m)) (foldl (index_call (msg_id m)) ti (tool_calls m)) (tool_results m)"

definition tool_messages :: "message list \<Rightarrow> tool_index" where
  "tool_messages ms =
     foldl index_message \<lparr>ti_calls = [], ti_call_messages = [], ti_results = [], ti_result_messages = []\<rparr> ms"

definition latest_user_objective :: "message list \<Rightarrow> string \<times> string list" where
  "latest_user_objective ms =
     (let objective_of = (\<lambda>m. join [CHR 0x0A] (List.map_filter (\<lambda>b. case b of
              TextBlock text _ \<Rightarrow> if blank text then None else Some (strip text)
            | _ \<Rightarrow> None) (msg_content m))) in
      case find (\<lambda>m. msg_role m = User \<and> tool_results m = [] \<and> objective_of m \<noteq> []) (rev ms) of
        None \<Rightarrow> ([], [])
      | Some m \<Rightarrow> (objective_of m, [msg_id m]))"

section \<open>Receipts of tools\<close>

text \<open>What is known of one completion, from an event or from a result.\<close>

record tool_completion =
  tc_call_id :: string
  tc_tool_name :: string
  tc_is_error :: bool
  tc_metadata :: jobj
  tc_event_seq :: "int option"

definition completion_sources :: "tool_index \<Rightarrow> string \<Rightarrow> string list" where
  "completion_sources ti cid =
     present_ids [dict_get (ti_call_messages ti) cid, dict_get (ti_result_messages ti) cid]"

definition completion_seqs :: "(string, int) dict \<Rightarrow> string list \<Rightarrow> int option \<Rightarrow> int list" where
  "completion_seqs seqs source_ids event_seq =
     ordered_set (case_option [] (\<lambda>n. [n]) event_seq @ seqs_for seqs source_ids)"

definition project_failure ::
  "context_codec \<Rightarrow> tool_completion \<Rightarrow> tool_result_block option \<Rightarrow> string list \<Rightarrow> int list \<Rightarrow> exn + context_fact" where
  "project_failure cc tc result source_ids source_seqs =
     (let error_code = or_text (strip_text (get_or_none (tc_metadata tc) ''error_code'')) ''tool_error'';
          text = ''Tool '' @ tc_tool_name tc @ '' failed ('' @ error_code @ '')'';
          detail = (case result of None \<Rightarrow> [] | Some r \<Rightarrow> strip (result_content r)) in
      make_fact cc Failures (if detail = [] then text else text @ '': '' @ take 512 detail)
        (tc_call_id tc) ''tool_result'' source_ids source_seqs)"

text \<open>\<^verbatim>\<open>_string(metadata.get(key)) or (_string(call.input.get(key)) if call is not None else "")\<close>.\<close>

definition receipt_text :: "jobj \<Rightarrow> tool_call_block option \<Rightarrow> string \<Rightarrow> string" where
  "receipt_text metadata call key =
     or_text (strip_text (get_or_none metadata key))
       (case call of None \<Rightarrow> [] | Some c \<Rightarrow> strip_text (get_or_none (call_input c) key))"

definition project_file ::
  "context_codec \<Rightarrow> tool_completion \<Rightarrow> string \<Rightarrow> string list \<Rightarrow> int list \<Rightarrow> exn + context_fact" where
  "project_file cc tc path source_ids source_seqs =
     (let digest = or_text (strip_text (get_or_none (tc_metadata tc) ''sha256''))
                     (strip_text (get_or_none (tc_metadata tc) ''new_sha256''));
          text = path @ '' updated by '' @ tc_tool_name tc in
      make_fact cc FileFacts (if digest = [] then text else text @ ''; sha256='' @ digest) path
        ''mutating_tool_receipt'' source_ids source_seqs)"

definition was_verified :: "jobj \<Rightarrow> bool" where
  "was_verified metadata \<longleftrightarrow>
     get_or_none metadata ''exit_code'' = JInt 0 \<or>
     strip_text (get_or_none metadata ''verification'') \<noteq> [] \<or>
     get_or_none metadata ''verified'' = JBool True"

definition project_verified ::
  "context_codec \<Rightarrow> tool_completion \<Rightarrow> tool_call_block option \<Rightarrow> string list \<Rightarrow> int list \<Rightarrow> exn + context_fact" where
  "project_verified cc tc call source_ids source_seqs =
     (let command = receipt_text (tc_metadata tc) call ''command'';
          detail = or_text (strip_text (get_or_none (tc_metadata tc) ''verification''))
                     (or_text command (tc_tool_name tc)) in
      make_fact cc Verified (''Tool '' @ tc_tool_name tc @ '' succeeded: '' @ detail) (tc_call_id tc)
        ''tool_verification_receipt'' source_ids source_seqs)"

definition project_tool_completion ::
  "context_codec \<Rightarrow> tool_index \<Rightarrow> (string, int) dict \<Rightarrow> tool_spec option \<Rightarrow> tool_completion \<Rightarrow> fact_table \<Rightarrow>
     exn + fact_table" where
  "project_tool_completion cc ti seqs spec tc table =
     (let call = dict_get (ti_calls ti) (tc_call_id tc);
          result = dict_get (ti_results ti) (tc_call_id tc);
          source_ids = completion_sources ti (tc_call_id tc);
          source_seqs = completion_seqs seqs source_ids (tc_event_seq tc) in
      if tc_is_error tc \<or> (case result of None \<Rightarrow> False | Some r \<Rightarrow> result_is_error r)
      then bindR (project_failure cc tc result source_ids source_seqs) (\<lambda>f. Inr (add_fact Failures f table))
      else
        bindR (let path = receipt_text (tc_metadata tc) call ''path'' in
               if (case spec of None \<Rightarrow> False | Some sp \<Rightarrow> mutates sp) \<and> path \<noteq> []
               then bindR (project_file cc tc path source_ids source_seqs)
                      (\<lambda>f. Inr (add_fact FileFacts f table))
               else Inr table) (\<lambda>table.
        if was_verified (tc_metadata tc)
        then bindR (project_verified cc tc call source_ids source_seqs)
               (\<lambda>f. Inr (add_fact Verified f table))
        else Inr table))"

definition event_completion :: "event \<Rightarrow> tool_completion option" where
  "event_completion e =
     (let call_id = strip_text (get_or_none (ev_data e) ''tool_call_id'');
          tool_name = strip_text (get_or_none (ev_data e) ''tool_name'') in
      if ev_type e \<noteq> ''tool.completed'' \<or> call_id = [] \<or> tool_name = [] then None
      else Some
        \<lparr>tc_call_id = call_id, tc_tool_name = tool_name,
         tc_is_error = truthy (get_or (ev_data e) ''is_error'' (JBool False)),
         tc_metadata = dict_or_empty (get_or_none (ev_data e) ''metadata''), tc_event_seq = ev_seq e\<rparr>)"

definition result_completion ::
  "tool_index \<Rightarrow> (string, int) dict \<Rightarrow> string \<Rightarrow> tool_result_block \<Rightarrow> tool_completion option" where
  "result_completion ti seqs cid r =
     (case dict_get (ti_calls ti) cid of
        None \<Rightarrow> None
      | Some call \<Rightarrow> Some
          \<lparr>tc_call_id = cid, tc_tool_name = call_name call, tc_is_error = result_is_error r,
           tc_metadata = result_metadata r,
           tc_event_seq = dict_get seqs (case dict_get (ti_result_messages ti) cid of None \<Rightarrow> [] | Some i \<Rightarrow> i)\<rparr>)"

definition tools_by_name :: "tool_spec list \<Rightarrow> (string, tool_spec) dict" where
  "tools_by_name tools = foldl (\<lambda>d t. dict_set (spec_name t) t d) [] tools"

definition all_completions :: "event list \<Rightarrow> tool_index \<Rightarrow> (string, int) dict \<Rightarrow> tool_completion list" where
  "all_completions events ti seqs =
     (let from_events = List.map_filter event_completion events in
      from_events @
      List.map_filter (\<lambda>(cid, r). if cid \<in> tc_call_id ` set from_events then None
                                 else result_completion ti seqs cid r) (ti_results ti))"

definition project_receipts ::
  "context_codec \<Rightarrow> event list \<Rightarrow> tool_spec list \<Rightarrow> tool_index \<Rightarrow> (string, int) dict \<Rightarrow> fact_table \<Rightarrow>
     exn + fact_table" where
  "project_receipts cc events tools ti seqs table =
     foldR (\<lambda>table tc. project_tool_completion cc ti seqs
              (dict_get (tools_by_name tools) (tc_tool_name tc)) tc table)
       table (all_completions events ti seqs)"

section \<open>Approvals, subagents, artifacts\<close>

definition event_seqs :: "event \<Rightarrow> int list" where
  "event_seqs e = (case ev_seq e of None \<Rightarrow> [] | Some n \<Rightarrow> [n])"

definition project_approval :: "context_codec \<Rightarrow> (string, context_fact) dict \<Rightarrow> event \<Rightarrow> exn + (string, context_fact) dict" where
  "project_approval cc values e =
     (if ev_type e = ''approval.requested'' then
        (let approval = dict_or_empty (get_or_none (ev_data e) ''approval'');
             approval_id = strip_text (get_or_none approval ''approval_id'');
             scope = or_text (strip_text (get_or_none approval ''scope''))
                       (strip_text (get_or_none (ev_data e) ''tool_name''));
             cid = strip_text (get_or_none (ev_data e) ''tool_call_id'');
             text = ''Approval '' @ approval_id @ '' pending for '' @ or_text scope ''unknown scope'' in
         if approval_id = [] then Inr values
         else
           bindR (make_fact cc PendingApprovals
                    (if cid = [] then text else text @ ''; tool_call_id='' @ cid) approval_id
                    ''approval_event'' [] (event_seqs e))
             (\<lambda>f. Inr (dict_set (fact_id f) f values)))
      else if ev_type e = ''approval.resolved'' \<or> ev_type e = ''approval.consumed'' then
        (let approval_id = strip_text (get_or_none (ev_data e) ''approval_id'') in
         Inr (if approval_id = [] then values
              else dict_pop (make_fact_id cc PendingApprovals approval_id) values))
      else Inr values)"

definition project_subagent :: "context_codec \<Rightarrow> (string, context_fact) dict \<Rightarrow> event \<Rightarrow> exn + (string, context_fact) dict" where
  "project_subagent cc values e =
     (let task_id = strip_text (get_or_none (ev_data e) ''task_id'');
          status = (if ev_type e = ''subagent.started'' then ''started'' else ''completed'');
          objective = strip_text (get_or_none (ev_data e) ''objective'');
          text = ''Subagent '' @ task_id @ '' '' @ status in
      if (ev_type e \<noteq> ''subagent.started'' \<and> ev_type e \<noteq> ''subagent.completed'') \<or> task_id = [] then Inr values
      else
        bindR (make_fact cc SubagentFacts (if objective = [] then text else text @ '': '' @ objective)
                 task_id ''subagent_event'' [] (event_seqs e))
          (\<lambda>f. Inr (dict_set (fact_id f) f values)))"

text \<open>The artifact an \<^verbatim>\<open>artifact.deleted\<close> event names, or the empty text.\<close>

definition deleted_id :: "event \<Rightarrow> string" where
  "deleted_id e =
     or_text (strip_text (get_or_none (ev_data e) ''artifact_id''))
       (case get_or_none (ev_data e) ''artifact'' of
          JObj d \<Rightarrow> strip_text (get_or_none d ''artifact_id'')
        | _ \<Rightarrow> [])"

definition project_artifact_event ::
  "tool_index \<Rightarrow> (string, int) dict \<Rightarrow> (string, artifact_state) dict \<Rightarrow> event \<Rightarrow>
     exn + (string, artifact_state) dict" where
  "project_artifact_event ti seqs values e =
     (if ev_type e = ''artifact.deleted''
      then Inr (if deleted_id e = [] then values else dict_pop (deleted_id e) values)
      else if ev_type e \<noteq> ''artifact.created'' then Inr values
      else case get_or_none (ev_data e) ''artifact'' of
          JObj raw \<Rightarrow>
            (case ref_from_dict raw of
               Inl error \<Rightarrow> (if is_value_or_type_error error then Inr values else Inl error)
             | Inr ref \<Rightarrow>
                 (let cid = strip_text (get_or_none (art_metadata ref) ''tool_call_id'');
                      source_ids = completion_sources ti cid in
                  bindR (check_artifact_state
                    \<lparr>ast_id = art_id ref,
                     ast_purpose = or_text (strip_text (get_or_none (ev_data e) ''purpose'')) ''context'',
                     ast_sha256 = art_sha256 ref, ast_scope = artifact_scope ref, ast_messages = source_ids,
                     ast_seqs = ordered_set (event_seqs e @ seqs_for seqs source_ids)\<rparr>)
                    (\<lambda>a. Inr (dict_set (art_id ref) a values))))
        | _ \<Rightarrow> Inr values)"

definition deleted_artifact_ids :: "event list \<Rightarrow> string set" where
  "deleted_artifact_ids events =
     deleted_id ` {e \<in> set events. ev_type e = ''artifact.deleted''} - {[]}"

definition project_artifact ::
  "message list \<Rightarrow> tool_index \<Rightarrow> (string, int) dict \<Rightarrow> string set \<Rightarrow> (string, artifact_state) dict \<Rightarrow>
     artifact_ref \<Rightarrow> exn + (string, artifact_state) dict" where
  "project_artifact ordered ti seqs deleted values ref =
     (if art_id ref \<in> deleted then Inr values
      else
        let cid = strip_text (get_or_none (art_metadata ref) ''tool_call_id'');
            source_ids = present_ids [call_message_id cid ordered, dict_get (ti_result_messages ti) cid] in
        bindR (check_artifact_state
          \<lparr>ast_id = art_id ref,
           ast_purpose = or_text (strip_text (get_or_none (art_metadata ref) ''purpose'')) ''tool_result'',
           ast_sha256 = art_sha256 ref, ast_scope = artifact_scope ref, ast_messages = source_ids,
           ast_seqs = seqs_for seqs source_ids\<rparr>)
          (\<lambda>a. Inr (dict_set (art_id ref) a values)))"

section \<open>What a model may add\<close>

text \<open>\<^verbatim>\<open>_SEMANTIC_FIELDS\<close>.\<close>

definition SEMANTIC_FIELDS :: "(fact_field \<times> (structured_summary \<Rightarrow> string list)) list" where
  "SEMANTIC_FIELDS =
     [(Constraints, sum_constraints), (Decisions, sum_decisions), (OpenQuestions, sum_open_questions),
      (NextSteps, sum_next_steps)]"

definition enrich_field ::
  "context_codec \<Rightarrow> (string, int) dict \<Rightarrow> string list \<Rightarrow> structured_summary \<Rightarrow> fact_table \<Rightarrow>
     fact_field \<times> (structured_summary \<Rightarrow> string list) \<Rightarrow> exn + fact_table" where
  "enrich_field cc seqs sources summary table fv =
     foldR (\<lambda>table text. bindR (make_fact cc (fst fv) text [] ''model_enrichment'' sources (seqs_for seqs sources))
              (\<lambda>f. Inr (add_fact (fst fv) f table))) table (snd fv summary)"

definition enrich_facts ::
  "context_codec \<Rightarrow> (string, int) dict \<Rightarrow> string list \<Rightarrow> structured_summary option \<Rightarrow> fact_table \<Rightarrow>
     exn + fact_table" where
  "enrich_facts cc seqs sources enrichment table =
     (case enrichment of
        Some summary \<Rightarrow>
          (if sources = [] then Inr table else foldR (enrich_field cc seqs sources summary) table SEMANTIC_FIELDS)
      | None \<Rightarrow> Inr table)"

section \<open>The whole projection\<close>

record projection_input =
  pin_messages :: "message list"
  pin_objective_messages :: "message list"
  pin_events :: "event list"
  pin_tools :: "tool_spec list"
  pin_artifacts :: "artifact_ref list"
  pin_previous :: "context_state option"
  pin_enrichment :: "structured_summary option"
  pin_sources :: "string list"
  pin_previous_id :: "string option"
  pin_omitted :: int
  pin_strategy :: string

definition state_objective ::
  "projection_input \<Rightarrow> context_state \<Rightarrow> message list \<Rightarrow> string list \<Rightarrow> string \<times> string list" where
  "state_objective pin prior ordered sources =
     (let (objective, source) = latest_user_objective
            (if pin_objective_messages pin = [] then ordered else pin_objective_messages pin) in
      if objective \<noteq> [] then (objective, source)
      else case pin_enrichment pin of
          Some summary \<Rightarrow>
            (if \<not> blank (sum_objective summary) \<and> sources \<noteq> [] then (strip (sum_objective summary), sources)
             else (cst_objective prior, take 1 (cst_messages prior)))
        | None \<Rightarrow> (cst_objective prior, take 1 (cst_messages prior)))"

definition project_facts ::
  "context_codec \<Rightarrow> projection_input \<Rightarrow> context_state \<Rightarrow> tool_index \<Rightarrow> (string, int) dict \<Rightarrow> string list \<Rightarrow>
     exn + fact_table" where
  "project_facts cc pin prior ti seqs sources =
     bindR (project_receipts cc (pin_events pin) (pin_tools pin) ti seqs (prior_facts prior)) (\<lambda>table.
     bindR (foldR (project_approval cc) (table PendingApprovals) (pin_events pin)) (\<lambda>approvals.
     bindR (foldR (project_subagent cc) (table SubagentFacts) (pin_events pin)) (\<lambda>subagents.
       enrich_facts cc seqs sources (pin_enrichment pin)
         (table(PendingApprovals := approvals, SubagentFacts := subagents)))))"

definition project_artifacts ::
  "projection_input \<Rightarrow> context_state \<Rightarrow> message list \<Rightarrow> tool_index \<Rightarrow> (string, int) dict \<Rightarrow>
     exn + (string, artifact_state) dict" where
  "project_artifacts pin prior ordered ti seqs =
     bindR (foldR (project_artifact_event ti seqs)
              (foldl (\<lambda>d a. dict_set (ast_id a) a d) [] (cst_artifacts prior)) (pin_events pin)) (\<lambda>values.
       foldR (project_artifact ordered ti seqs (deleted_artifact_ids (pin_events pin))) values
         (pin_artifacts pin))"

definition project_state ::
  "context_codec \<Rightarrow> projection_input \<Rightarrow> message list \<Rightarrow> (string, int) dict \<Rightarrow> exn + context_state" where
  "project_state cc pin raw_messages seqs =
     (let prior = (case pin_previous pin of None \<Rightarrow> empty_context_state | Some st \<Rightarrow> st);
          ordered = unique_messages (raw_messages @ pin_messages pin);
          ti = tool_messages ordered;
          sources = evidence_boundaries (pin_sources pin) in
      bindR (project_facts cc pin prior ti seqs sources) (\<lambda>table.
      bindR (project_artifacts pin prior ordered ti seqs) (\<lambda>artifacts.
      let (objective, objective_source) = state_objective pin prior ordered sources;
          facts = concat (map (\<lambda>f. map snd (table f)) FACT_FIELDS);
          seq_list = List.map_filter ev_seq (pin_events pin) in
      check_context_state
        \<lparr>cst_strategy = pin_strategy pin, cst_objective = objective,
         cst_facts = (\<lambda>f. ordered_facts (table f)), cst_artifacts = map snd artifacts,
         cst_messages = ordered_set (cst_messages prior @ objective_source @
           concat (map fact_messages facts) @ concat (map (ast_messages \<circ> snd) artifacts)),
         cst_seqs = ordered_set (cst_seqs prior @ seqs_for seqs objective_source @
           concat (map fact_seqs facts) @ concat (map (ast_seqs \<circ> snd) artifacts)),
         previous_compaction = pin_previous_id pin,
         event_cursor = (if seq_list = [] then event_cursor prior else Max (set seq_list)),
         omitted_message_count = omitted_message_count prior + pin_omitted pin\<rparr>)))"

definition project_context_state ::
  "context_codec \<Rightarrow> projection_input \<Rightarrow> ('w world_scheme, context_state) sm" where
  "project_context_state cc pin =
     bindE (event_messages [] [] (pin_events pin)) (\<lambda>(raw_messages, seqs).
       liftE (project_state cc pin raw_messages seqs))"

section \<open>Summaries of the first version\<close>

text \<open>Iterating over a metadata value, as far as its items are texts.\<close>

definition source_ids_of :: "jval \<Rightarrow> exn + string list" where
  "source_ids_of v =
     (case v of
        JArr items \<Rightarrow> Inr (List.map_filter (\<lambda>i. case i of JStr s \<Rightarrow> Some s | _ \<Rightarrow> None) items)
      | JStr s \<Rightarrow> Inr (map (\<lambda>c. [c]) s)
      | JObj d \<Rightarrow> Inr (map fst d)
      | _ \<Rightarrow> Inl (Exn (Py TypeError) ''object is not iterable''))"

definition LEGACY_FIELDS :: "(fact_field \<times> string) list" where
  "LEGACY_FIELDS =
     [(Constraints, ''constraints''), (Decisions, ''decisions''), (FileFacts, ''files_changed''),
      (Verified, ''verified_state''), (OpenQuestions, ''open_questions''), (NextSteps, ''next_steps''),
      (SkillFacts, ''skills''), (SubagentFacts, ''subagents'')]"

definition legacy_facts ::
  "context_codec \<Rightarrow> string list \<Rightarrow> jobj \<Rightarrow> fact_field \<times> string \<Rightarrow> exn + context_fact list" where
  "legacy_facts cc source_ids raw fs =
     mapR (\<lambda>text. make_fact cc (fst fs) text [] ''legacy_summary'' source_ids [])
       (filter (\<lambda>t. t \<noteq> []) (map strip_text
          (case get_or raw (snd fs) (JArr []) of JArr items \<Rightarrow> items | _ \<Rightarrow> [])))"

definition legacy_summary_state :: "context_codec \<Rightarrow> message \<Rightarrow> exn + context_state option" where
  "legacy_summary_state cc m =
     (case cc_loads cc (text_content m) of
        Some (JObj raw) \<Rightarrow>
          (if \<not> py_eq (get_or_none raw ''kind'') (JStr ''context_compaction_summary'') then Inr None
           else
             bindR (source_ids_of (get_or (msg_metadata m) ''source_message_ids'' (JArr []))) (\<lambda>source_ids.
             bindR (mapR (legacy_facts cc source_ids raw) LEGACY_FIELDS) (\<lambda>table.
             bindR (check_context_state
                \<lparr>cst_strategy = ''rolling_summary_legacy'',
                 cst_objective = strip_text (get_or_none raw ''objective''),
                 cst_facts = (\<lambda>f. case map_of (zip (map fst LEGACY_FIELDS) table) f of
                    None \<Rightarrow> [] | Some xs \<Rightarrow> xs),
                 cst_artifacts = [], cst_messages = source_ids, cst_seqs = [], previous_compaction = None,
                 event_cursor = 0,
                 omitted_message_count =
                   (case get_or raw ''omitted_message_count'' (JInt 0) of JInt n \<Rightarrow> n | _ \<Rightarrow> 0)\<rparr>)
               (\<lambda>st. Inr (Some st)))))
      | _ \<Rightarrow> Inr None)"

end
