(* ===== verification/Context_Compaction.thy ===== *)
theory Context_Compaction
  imports Context_Assembly Context_Projector "HOL-Library.Product_Lexorder"
begin

text \<open>
  Compaction of a model's input: \<^verbatim>\<open>aihi/agent/context/compaction.py\<close>, the records of \<^verbatim>\<open>models.py\<close> it
  makes and the facade \<^verbatim>\<open>compiler.py\<close>. The groups that are kept are always the last ones, so the set
  of their indexes is an ascending list here, and removing the least index takes its head.
\<close>

section \<open>Records\<close>

record compaction_record =
  cr_strategy :: string
  cr_version :: int
  cr_replaced :: "string list"
  cr_summary :: message
  cr_before_tokens :: int
  cr_after_tokens :: int
  cr_artifact_ids :: "string list"
  cr_prompt_hash :: string
  cr_trigger :: string
  cr_retained :: "string list"
  cr_state :: "context_state option"
  cr_messages :: "string list"
  cr_seqs :: "int list"
  cr_policy :: jobj
  cr_count_method :: string
  cr_prefix_hash :: string
  cr_generator :: string
  cr_fallback :: "string option"

definition record_to_event_data :: "compaction_record \<Rightarrow> jobj" where
  "record_to_event_data r =
     [(''strategy'', JStr (cr_strategy r)), (''version'', JInt (cr_version r)),
      (''strategy_version'', JInt (cr_version r)), (''replaced_message_ids'', jstrs (cr_replaced r)),
      (''summary'', JObj (message_to_dict (cr_summary r))),
      (''summary_message_schema_version'', JInt MESSAGE_SCHEMA_VERSION),
      (''before_tokens'', JInt (cr_before_tokens r)), (''after_tokens'', JInt (cr_after_tokens r)),
      (''artifact_ids'', jstrs (cr_artifact_ids r)), (''prompt_hash'', JStr (cr_prompt_hash r)),
      (''trigger'', JStr (cr_trigger r)), (''retained_message_ids'', jstrs (cr_retained r)),
      (''context_state'', case cr_state r of None \<Rightarrow> JNull | Some st \<Rightarrow> JObj (context_state_to_dict st)),
      (''source_message_ids'', jstrs (cr_messages r)), (''source_event_seqs'', jints (cr_seqs r)),
      (''policy_snapshot'', JObj (cr_policy r)), (''token_count_method'', JStr (cr_count_method r)),
      (''stable_prefix_hash'', JStr (cr_prefix_hash r)), (''summary_generator'', JStr (cr_generator r)),
      (''fallback_reason'', jopt_str (cr_fallback r))]"

record compiled_context =
  cpl_system_prompt :: string
  cpl_messages :: "message list"
  cpl_estimated_tokens :: int
  cpl_budget :: context_budget
  cpl_system_blocks :: "content_block list"
  cpl_artifacts :: "artifact_ref list"
  cpl_compaction :: "compaction_record option"
  cpl_pressure :: "context_pressure option"

definition over_budget :: "compiled_context \<Rightarrow> bool" where
  "over_budget c \<longleftrightarrow> cpl_estimated_tokens c > input_capacity (cpl_budget c)"

definition compile_context ::
  "context_codec \<Rightarrow> context_assembler \<Rightarrow> message list \<Rightarrow> string \<Rightarrow> context_budget \<Rightarrow> bool \<Rightarrow>
     artifact_policy option \<Rightarrow> context_section list \<Rightarrow> artifact_ref list \<Rightarrow> ('z renv_scheme, compiled_context) sm" where
  "compile_context cc a messages system_prompt budget stores policy sections known =
     bindE (assemble cc a messages system_prompt budget sections stores policy known) (\<lambda>asm.
       retE \<lparr>cpl_system_prompt = asm_system_prompt asm, cpl_messages = asm_messages asm,
             cpl_estimated_tokens = asm_estimated_tokens asm, cpl_budget = asm_budget asm,
             cpl_system_blocks = asm_system_blocks asm, cpl_artifacts = asm_artifacts asm,
             cpl_compaction = None, cpl_pressure = None\<rparr>)"

section \<open>What there was before\<close>

definition candidate_state :: "context_codec \<Rightarrow> message \<Rightarrow> exn + context_state option" where
  "candidate_state cc m =
     (let versioned = py_eq (get_or_none (msg_metadata m) ''context_state_schema_version'')
            (JInt CONTEXT_STATE_SCHEMA_VERSION) in
      case (if versioned then context_state_from_message cc m else Inl (value_error '''')) of
        Inr st \<Rightarrow> Inr (Some st)
      | Inl e \<Rightarrow> (if is_value_error e then legacy_summary_state cc m else Inl e))"

fun previous_context_state ::
  "context_codec \<Rightarrow> context_state option \<Rightarrow> string list \<Rightarrow> message list \<Rightarrow>
     exn + context_state option \<times> string list" where
  "previous_context_state cc previous ids [] = Inr (previous, ids)"
| "previous_context_state cc previous ids (m # ms) =
     bindR (candidate_state cc m) (\<lambda>found. case found of
         Some st \<Rightarrow> previous_context_state cc (Some st) (ids @ [msg_id m]) ms
       | None \<Rightarrow> previous_context_state cc previous ids ms)"

text \<open>The events are given latest first; an id that cannot be hashed raises.\<close>

fun previous_compaction_loop :: "string list \<Rightarrow> event list \<Rightarrow> exn + string option" where
  "previous_compaction_loop ids [] = Inr None"
| "previous_compaction_loop ids (e # es) =
     (if ev_type e \<noteq> ''compaction.created'' then previous_compaction_loop ids es
      else case get_or_none (ev_data e) ''summary'' of
          JObj summary \<Rightarrow>
            (let i = get_or_none summary ''id'' in
             if is_JArr i \<or> is_JObj i then Inl (Exn (Py TypeError) ''unhashable type'')
             else if i \<in> JStr ` set ids then Inr (Some (ev_id e))
             else previous_compaction_loop ids es)
        | _ \<Rightarrow> previous_compaction_loop ids es)"

definition previous_compaction_event_id :: "event list \<Rightarrow> string list \<Rightarrow> exn + string option" where
  "previous_compaction_event_id events ids = previous_compaction_loop ids (rev events)"

definition read_event_delta ::
  "event list \<Rightarrow> (int \<Rightarrow> ('s, event list) sm) option \<Rightarrow> int \<Rightarrow> ('s, event list) sm" where
  "read_event_delta events reader cursor =
     (case reader of
        Some read \<Rightarrow> read cursor
      | None \<Rightarrow> retE (filter (\<lambda>e. case ev_seq e of None \<Rightarrow> True | Some n \<Rightarrow> n > cursor) events))"

section \<open>The tail that is kept\<close>

text \<open>The groups from the last to the first, with the index of the first of them.\<close>

fun tail_loop ::
  "context_codec \<Rightarrow> int \<Rightarrow> nat list \<Rightarrow> int \<Rightarrow> message list list \<Rightarrow> nat list" where
  "tail_loop cc budget selected tokens [] = selected"
| "tail_loop cc budget selected tokens (g # gs) =
     (let group_tokens = estimate_messages_tokens cc g in
      if selected = [] \<or> tokens + group_tokens \<le> budget
      then tail_loop cc budget (length gs # selected) (tokens + group_tokens) gs
      else selected)"

definition initial_tail_indexes ::
  "context_codec \<Rightarrow> message list list \<Rightarrow> assembled_context \<Rightarrow> compaction_policy \<Rightarrow> exn + nat list" where
  "initial_tail_indexes cc groups asm policy =
     (let target_tokens = target_tokens_of policy (input_capacity (asm_budget asm));
          fixed_tokens = estimate_text_tokens (asm_system_prompt asm) + tool_schema_tokens (asm_budget asm);
          summary_reserve = summary_max_tokens policy * 4 div 3 + 8;
          target_tail_budget = max 0 (target_tokens - fixed_tokens - summary_reserve) in
      bindR (recent_tail_budget policy (input_capacity (asm_budget asm))) (\<lambda>recent.
        Inr (tail_loop cc (min recent target_tail_budget) [] 0 (rev groups))))"

definition full_tokens :: "context_codec \<Rightarrow> string \<Rightarrow> message list \<Rightarrow> assembled_context \<Rightarrow> int" where
  "full_tokens cc system_prompt messages asm =
     estimate_text_tokens system_prompt + tool_schema_tokens (asm_budget asm) +
     estimate_messages_tokens cc messages"

definition retained_of :: "message list list \<Rightarrow> nat list \<Rightarrow> message list" where
  "retained_of groups indexes = concat (map (\<lambda>i. groups ! i) indexes)"

definition omitted_of :: "message list list \<Rightarrow> nat list \<Rightarrow> message list" where
  "omitted_of groups indexes =
     concat (map snd (filter (\<lambda>(i, g). i \<notin> set indexes) (enumerate 0 groups)))"

section \<open>Bounding the state\<close>

definition EVICTION_TIERS :: "fact_field list list" where
  "EVICTION_TIERS =
     [[Failures, Verified, FileFacts, SubagentFacts, SkillFacts],
      [Constraints, Decisions, OpenQuestions, NextSteps],
      [PendingApprovals]]"

definition last_items :: "nat \<Rightarrow> 'a list \<Rightarrow> 'a list" where
  "last_items n xs = drop (length xs - n) xs"

definition clipped :: "int \<Rightarrow> context_fact list \<Rightarrow> exn + context_fact list" where
  "clipped max_chars facts =
     bindR (mapR (\<lambda>x. check_fact (x\<lparr>fact_text := take (nat max_chars) (fact_text x)\<rparr>)) facts) (\<lambda>items.
       Inr (last_items 64 (sort_key fact_recency items)))"

definition eviction_candidates :: "context_state \<Rightarrow> ((nat \<times> int \<times> nat) \<times> fact_field) list" where
  "eviction_candidates st =
     concat (map (\<lambda>(tier, row). List.map_filter (\<lambda>(i, f). case cst_facts st f of
         [] \<Rightarrow> None | x # _ \<Rightarrow> Some ((tier, fact_recency x, i), f)) (enumerate 0 row))
       (enumerate 0 EVICTION_TIERS))"

definition state_tokens :: "context_codec \<Rightarrow> context_state \<Rightarrow> int" where
  "state_tokens cc st = estimate_text_tokens (cc_dumps cc (JObj (context_state_to_dict st)))"

definition drop_first_fact :: "fact_field \<Rightarrow> context_state \<Rightarrow> context_state" where
  "drop_first_fact f st = st\<lparr>cst_facts := (cst_facts st)(f := tl (cst_facts st f))\<rparr>"

definition fact_count :: "context_state \<Rightarrow> nat" where
  "fact_count st = sum_list (map (\<lambda>f. length (cst_facts st f)) FACT_FIELDS)"

lemma candidate_has_facts: "(k, f) \<in> set (eviction_candidates st) \<Longrightarrow> cst_facts st f \<noteq> []"
  by (auto simp: eviction_candidates_def List.map_filter_def split: list.splits)

lemma sum_list_update_less:
  assumes "f \<in> set fs" "distinct fs" "xs < g f"
  shows "sum_list (map (g(f := xs)) fs) < sum_list (map g fs :: nat list)"
  using assms
proof (induction fs)
  case (Cons h hs)
  have "map (\<lambda>a. if a = f then xs else g a) hs = map g hs" if "f \<notin> set hs" using that by auto
  then have "(\<Sum>a\<leftarrow>hs. if a = f then xs else g a) = sum_list (map g hs)" if "f \<notin> set hs"
    using that by (metis (no_types, lifting) map_eq_conv)
  then show ?case using Cons by (cases "h = f") auto
qed simp

lemma drop_first_fewer: "cst_facts st f \<noteq> [] \<Longrightarrow> fact_count (drop_first_fact f st) < fact_count st"
proof -
  assume "cst_facts st f \<noteq> []"
  then have "length (tl (cst_facts st f)) < length (cst_facts st f)" by (cases "cst_facts st f") auto
  moreover have "(\<lambda>g. length (cst_facts (drop_first_fact f st) g)) =
      (\<lambda>g. length (cst_facts st g))(f := length (tl (cst_facts st f)))"
    by (auto simp: drop_first_fact_def)
  ultimately show ?thesis
    unfolding fact_count_def
    using sum_list_update_less [of f FACT_FIELDS _ "\<lambda>g. length (cst_facts st g)"]
    by (simp add: FACT_FIELDS_def [THEN arg_cong, of distinct])
qed

function evict_facts :: "context_codec \<Rightarrow> int \<Rightarrow> context_state \<Rightarrow> context_state" where
  "evict_facts cc max_tokens st =
     (if state_tokens cc st > max_tokens then
        (case sort_key fst (eviction_candidates st) of
           [] \<Rightarrow> st
         | (_, evicted) # _ \<Rightarrow> evict_facts cc max_tokens (drop_first_fact evicted st))
      else st)"
  by pat_completeness auto
termination
proof (relation "measure (\<lambda>(cc, n, st). fact_count st)", goal_cases)
  case (2 cc max_tokens st cand cands k evicted)
  then have "(k, evicted) \<in> set (sort_key fst (eviction_candidates st))" by simp
  then have "(k, evicted) \<in> set (eviction_candidates st)" by simp
  then show ?case using drop_first_fewer [OF candidate_has_facts] by simp
qed simp

declare evict_facts.simps [simp del]

definition bound_state :: "context_codec \<Rightarrow> compaction_policy \<Rightarrow> context_state \<Rightarrow> exn + context_state" where
  "bound_state cc policy st =
     (let n = summary_fact_max_chars policy in
      bindR (mapR (\<lambda>f. clipped n (cst_facts st f)) FACT_FIELDS) (\<lambda>table.
        Inr (evict_facts cc (summary_max_tokens policy)
          (st\<lparr>cst_objective := take (nat n) (cst_objective st),
              cst_messages := last_items 128 (cst_messages st), cst_seqs := last_items 128 (cst_seqs st),
              cst_facts := (\<lambda>f. case map_of (zip FACT_FIELDS table) f of None \<Rightarrow> [] | Some xs \<Rightarrow> xs)\<rparr>))))"

section \<open>Fingerprints\<close>

definition stable_prefix_hash :: "context_codec \<Rightarrow> content_block list \<Rightarrow> tool_spec list \<Rightarrow> string" where
  "stable_prefix_hash cc blocks tools =
     text_sha256 cc (cc_dumps_sorted cc (JObj
       [(''system_blocks'', jstrs (map block_text_part (stable_system_blocks blocks))),
        (''tools'', JArr (map (\<lambda>t. JObj (definition_to_dict t)) (sorted_tools (map model_definition tools))))]))"

definition prompt_hash :: "context_codec \<Rightarrow> assembled_context \<Rightarrow> tool_spec list \<Rightarrow> string" where
  "prompt_hash cc asm tools =
     text_sha256 cc (cc_dumps_sorted cc (JObj
       [(''system_prompt'', JStr (asm_system_prompt asm)),
        (''messages'', JArr (map (\<lambda>m. JObj (message_to_dict m)) (asm_messages asm))),
        (''tools'', JArr (map (\<lambda>t. JObj (definition_to_dict (model_definition t))) tools)),
        (''input_capacity'', JInt (input_capacity (asm_budget asm)))]))"

definition state_strategy :: "string \<Rightarrow> string" where
  "state_strategy s = (if s = STRATEGY_FALLBACK then STRATEGY_FALLBACK
                       else if s = STRATEGY_MODEL then STRATEGY_MODEL else ''rolling_summary'')"

section \<open>Compacting\<close>

definition generate_summary ::
  "context_codec \<Rightarrow> summary_generator \<Rightarrow> summary_request \<Rightarrow>
     ('z renv_scheme, structured_summary \<times> string option) task" where
  "generate_summary cc generator r =
     catchT (bindT (generate_with cc generator r) (\<lambda>s. retT (s, None)))
       (\<lambda>error. if is_cancelled error then raiseT error
                 else retT ((deterministic_summary r)\<lparr>sum_strategy := STRATEGY_FALLBACK,
                        sum_fallback_reason := Some (exn_type_name error)\<rparr>,
                      Some (exn_type_name error)))"

text \<open>What a compaction works on, fixed before its loop.\<close>

record compaction_job =
  job_assembled :: assembled_context
  job_tools :: "tool_spec list"
  job_policy :: compaction_policy
  job_generator :: summary_generator
  job_previous :: "context_state option"
  job_summary_ids :: "string list"
  job_messages :: "message list"
  job_groups :: "message list list"
  job_events :: "event list"

record compaction_outcome =
  out_retained :: "message list"
  out_omitted :: "message list"
  out_state :: context_state
  out_strategy :: string
  out_summary :: message
  out_after_tokens :: int
  out_fallback :: "string option"

text \<open>\<^verbatim>\<open>generator_error or enrichment.fallback_reason\<close>.\<close>

definition reason_of :: "string option \<Rightarrow> string option \<Rightarrow> string option" where
  "reason_of generator_error reason =
     (case generator_error of Some (c # cs) \<Rightarrow> generator_error | _ \<Rightarrow> reason)"

text \<open>One pass of the loop: the context that these groups and a summary of the others make.\<close>

definition compaction_pass ::
  "context_codec \<Rightarrow> compaction_job \<Rightarrow> nat list \<Rightarrow> ('z renv_scheme, compaction_outcome) task" where
  "compaction_pass cc job indexes =
     (let asm = job_assembled job;
          retained = retained_of (job_groups job) indexes;
          omitted = omitted_of (job_groups job) indexes in
      bindT (generate_summary cc (job_generator job)
        \<lparr>omitted_messages = omitted, retained_messages = retained,
         sreq_system_prompt = asm_system_prompt asm,
         sreq_artifact_ids = map art_id (asm_artifacts asm)\<rparr>) (\<lambda>(enrichment, generator_error).
      bindT (liftT (liftE (previous_compaction_event_id (job_events job) (job_summary_ids job)))) (\<lambda>previous_id.
      bindT (liftT (project_context_state cc
        \<lparr>pin_messages = (if job_previous job = None then job_messages job else []),
         pin_objective_messages = job_messages job, pin_events = job_events job,
         pin_tools = job_tools job, pin_artifacts = asm_artifacts asm, pin_previous = job_previous job,
         pin_enrichment = Some enrichment, pin_sources = map msg_id omitted,
         pin_previous_id = previous_id, pin_omitted = int (length omitted),
         pin_strategy = state_strategy (sum_strategy enrichment)\<rparr>)) (\<lambda>projected.
      bindT (liftT (liftE (bound_state cc (job_policy job) projected))) (\<lambda>st.
      let strategy = state_strategy (sum_strategy enrichment) in
      bindT (liftT (context_state_to_message cc strategy st)) (\<lambda>summary.
        retT \<lparr>out_retained = retained, out_omitted = omitted, out_state = st, out_strategy = strategy,
              out_summary = summary,
              out_after_tokens = full_tokens cc (asm_system_prompt asm) (summary # retained) asm,
              out_fallback = reason_of generator_error (sum_fallback_reason enrichment)\<rparr>))))))"

definition window_exceeded :: "string \<Rightarrow> exn" where
  "window_exceeded m = Exn (Core ContextWindowExceeded) m"

function compaction_loop ::
  "context_codec \<Rightarrow> compaction_job \<Rightarrow> int \<Rightarrow> nat list \<Rightarrow> ('z renv_scheme, compaction_outcome) task" where
  "compaction_loop cc job target_tokens indexes =
     bindT (compaction_pass cc job indexes) (\<lambda>outcome.
       if out_after_tokens outcome \<le> target_tokens then retT outcome
       else if length indexes \<le> 1 then
         (if out_after_tokens outcome \<le> input_capacity (asm_budget (job_assembled job)) then retT outcome
          else raiseT (window_exceeded
                 ''Context summary and the newest closed group exceed the input budget''))
       else compaction_loop cc job target_tokens (tl indexes))"
  by pat_completeness auto
termination
  by (relation "measure (\<lambda>(cc, job, n, indexes). length indexes)") auto

declare compaction_loop.simps [simp del]

definition compaction_record_of ::
  "context_codec \<Rightarrow> compaction_job \<Rightarrow> string \<Rightarrow> compaction_outcome \<Rightarrow> compaction_record" where
  "compaction_record_of cc job trigger outcome =
     (let asm = job_assembled job in
      \<lparr>cr_strategy = out_strategy outcome, cr_version = 2,
       cr_replaced = job_summary_ids job @ map msg_id (out_omitted outcome),
       cr_summary = out_summary outcome, cr_before_tokens = asm_estimated_tokens asm,
       cr_after_tokens = out_after_tokens outcome, cr_artifact_ids = map art_id (asm_artifacts asm),
       cr_prompt_hash = prompt_hash cc asm (job_tools job), cr_trigger = trigger,
       cr_retained = map msg_id (out_retained outcome), cr_state = Some (out_state outcome),
       cr_messages = cst_messages (out_state outcome), cr_seqs = cst_seqs (out_state outcome),
       cr_policy = compaction_policy_to_dict (job_policy job), cr_count_method = ''estimate'',
       cr_prefix_hash = stable_prefix_hash cc (asm_system_blocks asm) (job_tools job),
       cr_generator = generator_name (job_generator job), cr_fallback = out_fallback outcome\<rparr>)"

definition compact_assembled ::
  "context_codec \<Rightarrow> assembled_context \<Rightarrow> tool_spec list \<Rightarrow> compaction_policy \<Rightarrow> event list \<Rightarrow>
     (int \<Rightarrow> ('z renv_scheme, event list) sm) option \<Rightarrow> summary_generator \<Rightarrow> string \<Rightarrow>
     ('z renv_scheme, compiled_context) task" where
  "compact_assembled cc asm tools policy events reader generator trigger =
     bindT (liftT (liftE (previous_context_state cc None [] (asm_messages asm)))) (\<lambda>(previous, summary_ids).
     let raw_messages = filter (\<lambda>m. msg_id m \<notin> set summary_ids) (asm_messages asm);
         groups = group_tool_exchanges raw_messages in
     if length groups < 2
     then raiseT (window_exceeded ''Context cannot be compacted without an older closed message group'')
     else
       bindT (liftT (read_event_delta events reader
                (case previous of None \<Rightarrow> 0 | Some st \<Rightarrow> event_cursor st))) (\<lambda>event_delta.
       bindT (liftT (liftE (initial_tail_indexes cc groups asm policy))) (\<lambda>tail.
       let indexes = (if length tail = length groups then tl tail else tail);
           job = \<lparr>job_assembled = asm, job_tools = tools, job_policy = policy, job_generator = generator,
                  job_previous = previous, job_summary_ids = summary_ids, job_messages = raw_messages,
                  job_groups = groups, job_events = event_delta\<rparr> in
       bindT (compaction_loop cc job (target_tokens_of policy (input_capacity (asm_budget asm))) indexes)
         (\<lambda>outcome.
           retT \<lparr>cpl_system_prompt = asm_system_prompt asm,
                 cpl_messages = out_summary outcome # out_retained outcome,
                 cpl_estimated_tokens = out_after_tokens outcome, cpl_budget = asm_budget asm,
                 cpl_system_blocks = asm_system_blocks asm, cpl_artifacts = asm_artifacts asm,
                 cpl_compaction = Some (compaction_record_of cc job trigger outcome),
                 cpl_pressure = None\<rparr>))))"

text \<open>\<^verbatim>\<open>ContextCompiler.compact\<close>: the generator given, or the compactor's own.\<close>

definition compact_compiled ::
  "context_codec \<Rightarrow> summary_generator \<Rightarrow> compiled_context \<Rightarrow> tool_spec list \<Rightarrow> compaction_policy \<Rightarrow>
     event list \<Rightarrow> (int \<Rightarrow> ('z renv_scheme, event list) sm) option \<Rightarrow> summary_generator option \<Rightarrow> string \<Rightarrow>
     ('z renv_scheme, compiled_context) task" where
  "compact_compiled cc own compiled tools policy events reader generator trigger =
     compact_assembled cc
       \<lparr>asm_system_prompt = cpl_system_prompt compiled, asm_system_blocks = cpl_system_blocks compiled,
        asm_messages = cpl_messages compiled, asm_artifacts = cpl_artifacts compiled,
        asm_estimated_tokens = cpl_estimated_tokens compiled, asm_budget = cpl_budget compiled\<rparr>
       tools policy events reader (case generator of Some g \<Rightarrow> g | None \<Rightarrow> own) trigger"

definition compile_and_compact ::
  "context_codec \<Rightarrow> context_assembler \<Rightarrow> summary_generator \<Rightarrow> message list \<Rightarrow> string \<Rightarrow> tool_spec list \<Rightarrow>
     context_budget \<Rightarrow> compaction_policy option \<Rightarrow> event list \<Rightarrow>
     (int \<Rightarrow> ('z renv_scheme, event list) sm) option \<Rightarrow> bool \<Rightarrow> artifact_policy option \<Rightarrow>
     artifact_ref list \<Rightarrow> context_section list \<Rightarrow> summary_generator option \<Rightarrow> string \<Rightarrow>
     ('z renv_scheme, compiled_context) task" where
  "compile_and_compact cc a own messages system_prompt tools budget policy events reader stores
       artifact_pol known sections generator trigger =
     bindT (liftT (compile_context cc a messages system_prompt budget stores artifact_pol sections known)) (\<lambda>compiled.
       compact_compiled cc own compiled tools (case policy of None \<Rightarrow> default_compaction_policy | Some p \<Rightarrow> p)
         events reader generator trigger)"

end
