(* ===== verification/Run_Loop.thy ===== *)
theory Run_Loop
  imports Context_Compaction
begin

text \<open>
  The model turns of a run, \<^verbatim>\<open>_loop\<close> of \<^verbatim>\<open>aihi/agent/runtime/coordinator.py\<close> and what it calls:
  the context sections, the request, the measured compaction, what is persisted, and the whole of
  \<^verbatim>\<open>run\<close> and \<^verbatim>\<open>resume\<close>. A run's loop ends because every turn but one adds to the count of model
  calls that \<^verbatim>\<open>max_turns\<close> bounds; the exception is the one retry after a provider refused the length
  of its context.
\<close>

section \<open>The coordinator\<close>

record context_request =
  cxr_session :: string
  cxr_run :: string
  cxr_user_text :: string
  cxr_app :: jval

type_synonym context_contributor = "context_request \<Rightarrow> nat \<Rightarrow> exn + context_section list"

text \<open>
  The parts of a \<^verbatim>\<open>RunCoordinator\<close>: \<open>crd_generator\<close> is the generator of its compactor, \<open>crd_summary\<close>
  the one given to the coordinator, \<open>crd_stores\<close> says whether it has an artifact store.
\<close>

record 'z coordinator =
  crd_tools :: "'z tool_runtime"
  crd_provider :: provider
  crd_codec :: context_codec
  crd_assembler :: context_assembler
  crd_generator :: summary_generator
  crd_summary :: "summary_generator option"
  crd_stores :: bool
  crd_contributors :: "context_contributor list"
  crd_recorders :: "run_recorder list"
  crd_window :: "int option"
  crd_margin :: int
  crd_policy :: compaction_policy
  crd_max_turns :: int

text \<open>The checks of the constructor.\<close>

definition check_coordinator :: "'z coordinator \<Rightarrow> exn + 'z coordinator" where
  "check_coordinator crd =
     (if (case crd_window crd of None \<Rightarrow> False | Some w \<Rightarrow> w \<le> 0)
      then Inl (value_error ''context_window must be positive'')
      else if crd_margin crd < 0 then Inl (value_error ''context_safety_margin cannot be negative'')
      else bindR (validate_max_turns (JInt (crd_max_turns crd))) (\<lambda>_.
        if (case co_approval_ttl (crd_tools crd) of None \<Rightarrow> False | Some t \<Rightarrow> t \<le> 0)
        then Inl (value_error ''approval_ttl_seconds must be positive'')
        else if co_lease_ttl (crd_tools crd) \<le> 0
        then Inl (value_error ''capability_lease_ttl_seconds must be positive'')
        else Inr crd))"

definition coordinator_specs :: "'z coordinator \<Rightarrow> tool_spec list" where
  "coordinator_specs crd = registry_specs (dsp_registry (co_dispatcher (crd_tools crd)))"

definition coordinator_hooks :: "'z coordinator \<Rightarrow> hook_bus" where
  "coordinator_hooks crd = dsp_hooks (co_dispatcher (crd_tools crd))"

text \<open>The arguments of \<^verbatim>\<open>_loop\<close> that stay the same.\<close>

record turn_frame =
  tf_run :: string
  tf_model :: string
  tf_lease :: bool
  tf_prompt :: string
  tf_max_output :: int
  tf_max_turns :: int
  tf_app :: jval

section \<open>One request\<close>

fun collect_sections ::
  "context_request \<Rightarrow> context_contributor list \<Rightarrow> ('z renv_scheme, context_section list) sm" where
  "collect_sections request [] = retE []"
| "collect_sections request (c # cs) =
     bindE (external_now (c request)) (\<lambda>xs.
     bindE (collect_sections request cs) (\<lambda>ys. retE (xs @ ys)))"

definition context_sections :: "'z coordinator \<Rightarrow> turn_frame \<Rightarrow> ('z renv_scheme, context_section list) sm" where
  "context_sections crd tf =
     bindE get_self (\<lambda>s.
       if crd_contributors crd = [] then retE []
       else collect_sections
         \<lparr>cxr_session = ses_id s, cxr_run = tf_run tf, cxr_user_text = last_text (ses_messages s) User,
          cxr_app = tf_app tf\<rparr> (crd_contributors crd))"

definition make_model_request ::
  "'z coordinator \<Rightarrow> string \<Rightarrow> compiled_context \<Rightarrow> model_tool_definition list \<Rightarrow> int \<Rightarrow> bool \<Rightarrow>
     exn + model_request" where
  "make_model_request crd model compiled model_tools max_output prefix_caching =
     bindR (if prefix_caching \<and> stable_system_blocks (cpl_system_blocks compiled) \<noteq> []
            then bindR (make_cache_policy True (Some (build_prompt_cache_key (crd_codec crd)
                     (prov_name (crd_provider crd)) model model_tools (cpl_system_blocks compiled))))
                   (\<lambda>p. Inr (Some p))
            else Inr None) (\<lambda>policy.
     let request = \<lparr>req_model = model, req_messages = cpl_messages compiled, req_tools = model_tools,
            req_system_prompt = '''', req_max_output_tokens = max_output,
            req_system_blocks = cpl_system_blocks compiled, req_cache_policy = policy\<rparr> in
     bindR (check_model_request request) (\<lambda>_. Inr request))"

text \<open>What one iteration has settled before it compiles.\<close>

record turn_setup =
  ts_capabilities :: capabilities
  ts_budget :: context_budget
  ts_max_output :: int
  ts_sections :: "context_section list"
  ts_tools :: "model_tool_definition list"

definition turn_budget :: "'z coordinator \<Rightarrow> turn_frame \<Rightarrow> capabilities \<Rightarrow> exn + context_budget" where
  "turn_budget crd tf caps =
     budget_for_request (crd_codec crd)
       (min (case crd_window crd of
               Some w \<Rightarrow> if w = 0 then cap_max_context caps else w
             | None \<Rightarrow> cap_max_context caps) (cap_max_context caps))
       (min (tf_max_output tf) (cap_max_output caps)) (coordinator_specs crd) (crd_margin crd)"

definition setup_turn :: "'z coordinator \<Rightarrow> turn_frame \<Rightarrow> ('z renv_scheme, turn_setup) sm" where
  "setup_turn crd tf =
     (let caps = prov_capabilities (crd_provider crd) (tf_model tf) in
      bindE (liftE (turn_budget crd tf caps)) (\<lambda>budget.
      bindE (context_sections crd tf) (\<lambda>sections.
        retE \<lparr>ts_capabilities = caps, ts_budget = budget,
              ts_max_output = min (tf_max_output tf) (cap_max_output caps), ts_sections = sections,
              ts_tools = sorted_tools (map model_definition (coordinator_specs crd))\<rparr>)))"

definition compile_turn ::
  "'z coordinator \<Rightarrow> turn_frame \<Rightarrow> turn_setup \<Rightarrow> artifact_ref list \<Rightarrow> ('z renv_scheme, compiled_context) sm" where
  "compile_turn crd tf ts known =
     bindE get_self (\<lambda>s.
       compile_context (crd_codec crd) (crd_assembler crd) (ses_messages s) (tf_prompt tf) (ts_budget ts)
         (crd_stores crd) (Some (session_artifact_policy (ses_id s))) (ts_sections ts) known)"

definition turn_request :: "'z coordinator \<Rightarrow> turn_frame \<Rightarrow> turn_setup \<Rightarrow> compiled_context \<Rightarrow> exn + model_request" where
  "turn_request crd tf ts compiled =
     make_model_request crd (tf_model tf) compiled (ts_tools ts) (ts_max_output ts)
       (cap_prefix_caching (ts_capabilities ts))"

definition measure_turn ::
  "'z coordinator \<Rightarrow> turn_setup \<Rightarrow> model_request \<Rightarrow> bool \<Rightarrow> ('z renv_scheme, context_pressure) task" where
  "measure_turn crd ts request force_exact =
     measure_pressure (crd_codec crd) (crd_policy crd) request (input_capacity (ts_budget ts))
       (if cap_token_counting (ts_capabilities ts) then Some (prov_count (crd_provider crd)) else None)
       force_exact"

section \<open>Compaction\<close>

definition read_events_after :: "int \<Rightarrow> ('z env_scheme, event list) sm" where
  "read_events_after k = bindE get_self (\<lambda>s. on_store (store_read (ses_id s) k))"

definition compact_context ::
  "'z coordinator \<Rightarrow> compiled_context \<Rightarrow> string \<Rightarrow> ('z renv_scheme, compiled_context) task" where
  "compact_context crd compiled trigger =
     compact_compiled (crd_codec crd) (crd_generator crd) compiled (coordinator_specs crd)
       (crd_policy crd) [] (Some read_events_after) (crd_summary crd) trigger"

text \<open>The request of a compiled context, measured again and refused if it is still too long.\<close>

definition remeasured ::
  "'z coordinator \<Rightarrow> turn_frame \<Rightarrow> turn_setup \<Rightarrow> compiled_context \<Rightarrow> string \<Rightarrow>
     ('z renv_scheme, model_request \<times> context_pressure) task" where
  "remeasured crd tf ts compiled failure =
     bindT (liftT (liftE (turn_request crd tf ts compiled))) (\<lambda>request.
     bindT (measure_turn crd ts request (cap_token_counting (ts_capabilities ts))) (\<lambda>pressure.
       if pr_input_tokens pressure > pr_input_capacity pressure then raiseT (window_exceeded failure)
       else retT (request, pressure)))"

definition with_counts :: "context_pressure \<Rightarrow> compaction_record \<Rightarrow> compaction_record" where
  "with_counts pressure r =
     r\<lparr>cr_after_tokens := pr_input_tokens pressure,
       cr_count_method := count_method_text (pr_count_method pressure)\<rparr>"

text \<open>The context of a turn, compacted if its measured request asks for it.\<close>

definition fit_context ::
  "'z coordinator \<Rightarrow> turn_frame \<Rightarrow> turn_setup \<Rightarrow> compiled_context \<Rightarrow>
     ('z renv_scheme, compiled_context \<times> model_request) task" where
  "fit_context crd tf ts compiled =
     bindT (liftT (liftE (turn_request crd tf ts compiled))) (\<lambda>request.
     bindT (measure_turn crd ts request False) (\<lambda>pressure.
     bindT (if needs_compaction pressure \<or> pr_input_tokens pressure > input_capacity (ts_budget ts)
            then bindT (compact_context crd compiled (decision_reason_text (pr_reason pressure))) (\<lambda>smaller.
                 bindT (remeasured crd tf ts smaller
                          ''Context cannot be reduced below the measured input capacity'')
                   (\<lambda>(request', pressure'). retT (smaller, request', pressure')))
            else retT (compiled, request, pressure)) (\<lambda>(chosen, request, pressure).
       retT (chosen\<lparr>cpl_estimated_tokens := pr_input_tokens pressure, cpl_pressure := Some pressure,
                    cpl_compaction := (case cpl_compaction chosen of
                        Some r \<Rightarrow> if 2 \<le> cr_version r then Some (with_counts pressure r) else Some r
                      | None \<Rightarrow> None)\<rparr>, request))))"

section \<open>What is persisted\<close>

fun new_artifact_events ::
  "string \<Rightarrow> (string, artifact_ref) dict \<Rightarrow> artifact_ref list \<Rightarrow>
     ('z env_scheme, event list \<times> (string, artifact_ref) dict) sm" where
  "new_artifact_events rid recorded [] = retE ([], recorded)"
| "new_artifact_events rid recorded (a # as) =
     (if dict_get recorded (art_id a) \<noteq> None then new_artifact_events rid recorded as
      else
        bindE (new_run_event ''artifact.created'' rid
                 [(''artifact'', JObj (ref_to_dict a)), (''purpose'', JStr ''context'')]) (\<lambda>e.
        bindE (new_artifact_events rid (dict_set (art_id a) a recorded) as) (\<lambda>(es, recorded').
          retE (e # es, recorded'))))"

text \<open>The sequence numbers of the messages with these ids; an id that cannot be hashed raises.\<close>

fun source_seqs :: "string list \<Rightarrow> event list \<Rightarrow> exn + int list" where
  "source_seqs ids [] = Inr []"
| "source_seqs ids (e # es) =
     (case (ev_seq e, get_or_none (ev_data e) ''message'') of
        (Some n, JObj m) \<Rightarrow>
          (let i = get_or_none m ''id'' in
           if is_JArr i \<or> is_JObj i then Inl (Exn (Py TypeError) ''unhashable type'')
           else bindR (source_seqs ids es) (\<lambda>ns. Inr (if i \<in> JStr ` set ids then n # ns else ns)))
      | _ \<Rightarrow> source_seqs ids es)"

definition compaction_event_data :: "compaction_record \<Rightarrow> int list \<Rightarrow> jobj" where
  "compaction_event_data r seqs =
     (if seqs = [] then record_to_event_data r
      else dict_set ''source_seq_end'' (JInt (Max (set seqs)))
             (dict_set ''source_seq_start'' (JInt (Min (set seqs))) (record_to_event_data r)))"

definition persist_compiled_context ::
  "string \<Rightarrow> compiled_context \<Rightarrow> (string, artifact_ref) dict \<Rightarrow>
     ('z env_scheme, (string, artifact_ref) dict) sm" where
  "persist_compiled_context rid compiled recorded =
     bindE (new_artifact_events rid recorded (cpl_artifacts compiled)) (\<lambda>(pending, recorded').
     case cpl_compaction compiled of
       None \<Rightarrow>
         (if pending = [] then retE recorded' else bindE (append_many pending) (\<lambda>_. retE recorded'))
     | Some r \<Rightarrow>
         bindE get_self (\<lambda>s.
         bindE (liftE (source_seqs (cr_replaced r) (ses_events s))) (\<lambda>seqs.
         bindE (new_run_event ''compaction.created'' rid (compaction_event_data r seqs)) (\<lambda>e.
         bindE (append_many (pending @ [e])) (\<lambda>_. retE recorded')))))"

definition usage_event_data ::
  "'z coordinator \<Rightarrow> model_request \<Rightarrow> model_response \<Rightarrow> compiled_context \<Rightarrow> context_pressure \<Rightarrow> jobj" where
  "usage_event_data crd request response compiled pressure =
     (let usage = resp_usage response;
          enabled = (case req_cache_policy request of None \<Rightarrow> False | Some p \<Rightarrow> cache_enabled p);
          key = (case req_cache_policy request of
                   Some p \<Rightarrow> if cache_enabled p \<and> cache_key p \<noteq> Some '''' then cache_key p else None
                 | None \<Rightarrow> None) in
      [(''provider'', JStr (prov_name (crd_provider crd))), (''model'', JStr (req_model request)),
       (''input_tokens'', JInt (input_tokens usage)), (''output_tokens'', JInt (output_tokens usage)),
       (''cached_input_tokens'', JInt (cached_input_tokens usage)),
       (''cache_write_input_tokens'', JInt (cache_write_input_tokens usage)),
       (''cache_enabled'', JBool enabled),
       (''cache_key_hash'', jopt_str (map_option (text_sha256 (crd_codec crd)) key)),
       (''cost_usd'', case cost_usd usage of None \<Rightarrow> JNull | Some c \<Rightarrow> JFloat c),
       (''context_tokens'', JInt (cpl_estimated_tokens compiled)),
       (''context_limit'', JInt (usable_input (cpl_budget compiled))),
       (''context_input_capacity'', JInt (input_capacity (cpl_budget compiled))),
       (''context_window'', JInt (context_window (cpl_budget compiled))),
       (''context_count_method'', JStr (count_method_text (pr_count_method pressure))),
       (''context_count_fallback'', jopt_str (pr_fallback pressure)),
       (''context_pressure'', JFloat (pr_ratio pressure)),
       (''context_compaction_decision'', JStr (compaction_decision_text (pr_decision pressure))),
       (''context_compaction_reason'', JStr (decision_reason_text (pr_reason pressure))),
       (''context_target_tokens'', JInt (pr_target_tokens pressure)),
       (''context_target_ratio'', JFloat (pr_target_ratio pressure))])"

definition usage_event ::
  "'z coordinator \<Rightarrow> string \<Rightarrow> model_request \<Rightarrow> model_response \<Rightarrow> compiled_context \<Rightarrow> ('z renv_scheme, event) sm" where
  "usage_event crd rid request response compiled =
     bindE (case cpl_pressure compiled of
              Some p \<Rightarrow> retE p
            | None \<Rightarrow> liftE (evaluate_pressure (crd_policy crd) (cpl_estimated_tokens compiled)
                (input_capacity (cpl_budget compiled)) Estimate None)) (\<lambda>pressure.
       new_run_event ''model.usage'' rid (usage_event_data crd request response compiled pressure))"

text \<open>The usage and the answer, in one transaction.\<close>

definition commit_answer ::
  "'z coordinator \<Rightarrow> string \<Rightarrow> model_request \<Rightarrow> model_response \<Rightarrow> compiled_context \<Rightarrow> ('z renv_scheme, unit) sm" where
  "commit_answer crd rid request response compiled =
     bindE (usage_event crd rid request response compiled) (\<lambda>used.
     bindE (message_event (resp_message response) (Some rid)) (\<lambda>answer.
     bindE (append_many [used, answer]) (\<lambda>_. retE ())))"

section \<open>Turns\<close>

definition prepare_turn ::
  "'z coordinator \<Rightarrow> turn_frame \<Rightarrow> (string, artifact_ref) dict \<Rightarrow>
     ('z renv_scheme, turn_setup \<times> compiled_context \<times> model_request \<times> (string, artifact_ref) dict) task" where
  "prepare_turn crd tf recorded =
     bindT (liftT (setup_turn crd tf)) (\<lambda>ts.
     bindT (liftT (compile_turn crd tf ts (map snd recorded))) (\<lambda>compiled.
     bindT (fit_context crd tf ts compiled) (\<lambda>(chosen, request).
     bindT (liftT (persist_compiled_context (tf_run tf) chosen recorded)) (\<lambda>recorded'.
       retT (ts, chosen, request, recorded')))))"

text \<open>\<^verbatim>\<open>except ProviderContextLengthError\<close>.\<close>

definition is_context_length :: "exn \<Rightarrow> bool" where
  "is_context_length e = (case e of Exn c _ \<Rightarrow> c = Models ProviderContextLengthError | _ \<Rightarrow> False)"

definition ask_model ::
  "'z coordinator \<Rightarrow> string \<Rightarrow> model_request \<Rightarrow> ('z renv_scheme, exn + model_response) task" where
  "ask_model crd rid request =
     catchT (bindT (consume_provider (coordinator_hooks crd) (crd_provider crd) rid request) (\<lambda>r. retT (Inr r)))
       (\<lambda>e. if is_context_length e then retT (Inl e) else raiseT e)"

definition retry_smaller ::
  "'z coordinator \<Rightarrow> turn_frame \<Rightarrow> turn_setup \<Rightarrow> (string, artifact_ref) dict \<Rightarrow>
     ('z renv_scheme, (string, artifact_ref) dict) task" where
  "retry_smaller crd tf ts recorded =
     bindT (liftT refresh) (\<lambda>_.
     bindT (liftT (compile_turn crd tf ts (map snd recorded))) (\<lambda>compiled.
     bindT (compact_context crd compiled ''provider_context_length'') (\<lambda>smaller.
     bindT (remeasured crd tf ts smaller
              ''Provider-error compaction did not reach the measured input capacity'') (\<lambda>(_, pressure).
       liftT (persist_compiled_context (tf_run tf)
         (smaller\<lparr>cpl_estimated_tokens := pr_input_tokens pressure, cpl_pressure := Some pressure,
                  cpl_compaction := map_option (with_counts pressure) (cpl_compaction smaller)\<rparr>)
         recorded)))))"

definition execute_between ::
  "'z coordinator \<Rightarrow> turn_frame \<Rightarrow> bool \<Rightarrow> tool_call_block list \<Rightarrow> ('z renv_scheme, unit) task" where
  "execute_between crd tf allow_inline calls =
     (let caps = prov_capabilities (crd_provider crd) (tf_model tf) in
      thenT (liftT (run_transition (tf_run tf) WaitingTool))
      (thenT (execute_tool_calls (crd_tools crd) (tf_run tf) (tf_lease tf) allow_inline
                (cap_parallel_tools caps) (tf_app tf) calls)
        (liftT (run_transition (tf_run tf) Running))))"

definition turn_limit :: "int \<Rightarrow> exn" where
  "turn_limit n = Exn (Core TurnLimitExceeded) (''Run exceeded max_turns='' @ show_int n)"

function run_turns ::
  "'z coordinator \<Rightarrow> turn_frame \<Rightarrow> bool \<Rightarrow> (string, artifact_ref) dict \<Rightarrow> int \<Rightarrow> tool_call_block list \<Rightarrow>
     ('z renv_scheme, model_response) task" where
  "run_turns crd tf retry_used recorded turns pending =
     thenT (liftT check_cancel)
     (thenT (if pending = [] then retT () else execute_between crd tf False pending)
     (thenT (liftT refresh)
     (if turns \<ge> tf_max_turns tf then raiseT (turn_limit (tf_max_turns tf))
      else
        bindT (prepare_turn crd tf recorded) (\<lambda>(ts, compiled, request, recorded').
        bindT (ask_model crd (tf_run tf) request) (\<lambda>answer. case answer of
            Inl e \<Rightarrow>
              (if retry_used then raiseT e
               else bindT (retry_smaller crd tf ts recorded')
                      (\<lambda>recorded''. run_turns crd tf True recorded'' turns []))
          | Inr response \<Rightarrow>
              thenT (liftT (commit_answer crd (tf_run tf) request response compiled))
              (if tool_calls (resp_message response) = [] then retT response
               else thenT (execute_between crd tf True (tool_calls (resp_message response)))
                      (run_turns crd tf retry_used recorded' (turns + 1) [])))))))"
  by pat_completeness auto
termination
  by (relation "measures [\<lambda>(crd, tf, retry, recorded, turns, pending). nat (tf_max_turns tf - turns),
                          \<lambda>(crd, tf, retry, recorded, turns, pending). if retry then 0 else 1]") auto

declare run_turns.simps [simp del]

text \<open>\<^verbatim>\<open>_loop\<close>: what it reads once, then its turns.\<close>

definition model_calls :: "event list \<Rightarrow> string \<Rightarrow> int" where
  "model_calls es rid = int (length (filter (\<lambda>e. ev_run e = Some rid \<and> ev_type e = ''model.usage'') es))"

definition run_loop ::
  "'z coordinator \<Rightarrow> turn_frame \<Rightarrow> string list \<Rightarrow> ('z renv_scheme, model_response) task" where
  "run_loop crd tf suspended =
     bindT (liftT get_self) (\<lambda>s.
     bindT (liftT (liftE (recorded_artifacts (ses_events s)))) (\<lambda>refs.
       run_turns crd tf False (foldl (\<lambda>d ref. dict_set (art_id ref) ref d) [] refs)
         (model_calls (ses_events s) (tf_run tf)) (calls_with_ids (ses_messages s) suspended)))"

section \<open>Whole runs\<close>

definition coordinator_frame :: "'z coordinator \<Rightarrow> run_frame" where
  "coordinator_frame crd =
     \<lparr>frame_hooks = coordinator_hooks crd, frame_provider = prov_name (crd_provider crd),
      frame_sha = sha256_hex (cc_files (crd_codec crd)), frame_recorders = crd_recorders crd\<rparr>"

definition turn_frame_of :: "run_configuration \<Rightarrow> jval \<Rightarrow> string \<Rightarrow> turn_frame" where
  "turn_frame_of cfg app rid =
     \<lparr>tf_run = rid, tf_model = cfg_model cfg, tf_lease = cfg_lease cfg, tf_prompt = cfg_prompt cfg,
      tf_max_output = cfg_max_output cfg, tf_max_turns = cfg_max_turns cfg, tf_app = app\<rparr>"

definition coordinator_run ::
  "'z coordinator \<Rightarrow> run_configuration \<Rightarrow> message option \<Rightarrow> string option \<Rightarrow> jval \<Rightarrow>
     ('z renv_scheme, run_result) task" where
  "coordinator_run crd cfg user_message run_id app =
     run_around (coordinator_frame crd) cfg user_message run_id
       (\<lambda>rid. run_loop crd (turn_frame_of cfg app rid))"

definition coordinator_resume ::
  "'z coordinator \<Rightarrow> string \<Rightarrow> resume_overrides \<Rightarrow> jval \<Rightarrow> ('z renv_scheme, run_result) task" where
  "coordinator_resume crd rid ovr app =
     bindT (liftT (bindE refresh (\<lambda>_. get_self))) (\<lambda>s.
     bindT (liftT (liftE (resume_run_configuration (sha256_hex (cc_files (crd_codec crd)))
              (crd_max_turns crd) (ses_events s) rid ovr))) (\<lambda>cfg.
       coordinator_run crd cfg None (Some rid) app))"

end
