(* ===== verification/Run_Frames.thy ===== *)
theory Run_Frames
  imports Model_Turn Session_Authorization Session_Frames
begin

text \<open>
  What the operations that runs are made of may add to a session's log. \<open>log_adds T\<close>: a session that
  agrees with its log still does afterwards, the log has gained events of types in \<open>T\<close> only, and
  nothing of the run's own state has changed.
\<close>

section \<open>Operations on the session\<close>

definition log_adds :: "string set \<Rightarrow> 'z env_scheme \<Rightarrow> 'z env_scheme \<Rightarrow> bool" where
  "log_adds T s t \<longleftrightarrow> env.more t = env.more s \<and> (synced s \<longrightarrow> synced t \<and> ses_id (self t) = ses_id (self s) \<and>
     (\<exists>es. ses_events (self t) = ses_events (self s) @ es \<and> ev_type ` set es \<subseteq> T))"

lemma log_adds_trans:
  assumes "log_adds T s t" "log_adds T t u"
  shows "log_adds T s u"
proof (cases "synced s")
  case True
  with assms(1) obtain es where st: "synced t" "ses_id (self t) = ses_id (self s)"
    "ses_events (self t) = ses_events (self s) @ es" "ev_type ` set es \<subseteq> T" by (auto simp: log_adds_def)
  with assms(2) obtain fs where "ses_events (self u) = (ses_events (self s) @ es) @ fs"
    "ev_type ` set fs \<subseteq> T" "synced u" "ses_id (self u) = ses_id (self t)" by (auto simp: log_adds_def)
  with st assms show ?thesis
    unfolding log_adds_def by (intro conjI impI exI [of _ "es @ fs"]) (auto simp: log_adds_def)
qed (use assms in \<open>simp add: log_adds_def\<close>)

interpretation log_adds: step_order "log_adds T" for T
proof
  show "log_adds T s s" for s :: "'z env_scheme"
    unfolding log_adds_def by (auto intro: exI [of _ "[]"])
qed (rule log_adds_trans)

lemma log_adds_mono: "log_adds T s t \<Longrightarrow> T \<subseteq> T' \<Longrightarrow> log_adds T' s t"
  unfolding log_adds_def by blast

lemma world_adds: "advances world_only m \<Longrightarrow> advances (log_adds T) m"
  by (erule advances_weaken)
    (auto simp: world_only_def log_adds_def synced_def intro: exI [of _ "[]"])

lemmas world_add_steps = world_advances [THEN world_adds]

text \<open>What touches neither the log nor the run's own state.\<close>

lemma same_log_adds:
  assumes "advances same_log m" and "\<And>s. env.more (snd (m s)) = env.more s"
  shows "advances (log_adds T) m"
  unfolding advances_def
proof
  fix s
  have "same_log s (snd (m s))" using assms(1) by (simp add: advances_def)
  then show "log_adds T s (snd (m s))"
    using assms(2) [of s] synced_same_log [of s "snd (m s)"]
    by (auto simp: log_adds_def same_log_def intro: exI [of _ "[]"])
qed

definition keeps_more :: "'z env_scheme \<Rightarrow> 'z env_scheme \<Rightarrow> bool" where
  "keeps_more s t \<longleftrightarrow> env.more t = env.more s"

interpretation keeps_more: step_order keeps_more
  by unfold_locales (simp_all add: keeps_more_def)

lemma world_keeps_more: "advances world_only m \<Longrightarrow> advances keeps_more m"
  by (erule advances_weaken) (simp add: world_only_def keeps_more_def)

lemma basic_keeps_more:
  "advances keeps_more (on_store sm)" "advances keeps_more (update_self f)"
  "advances keeps_more (notify_observers ks es)"
  by (simp_all add: advances_def keeps_more_def on_store_def update_self_def notify_observers_def modifyE_def
      split: prod.split)

lemma absorb_keeps_more: "advances keeps_more (absorb_event e)"
  unfolding absorb_event_def
  by (auto intro!: keeps_more.advances_rules basic_keeps_more world_advances [THEN world_keeps_more])

lemma append_many_keeps_more: "advances keeps_more (append_many es)"
  unfolding append_many_def
  by (auto intro!: keeps_more.advances_rules basic_keeps_more absorb_keeps_more
      world_advances [THEN world_keeps_more])

lemma numbered_types: "ev_type ` set (numbered n es) = ev_type ` set es"
  using numbered_simps by (metis list.set_map)

lemma append_many_adds:
  assumes "ev_type ` set es \<subseteq> T"
  shows "advances (log_adds T) (append_many es :: ('z env_scheme, event list) sm)"
  unfolding advances_def
proof
  fix s :: "'z env_scheme"
  obtain r s' where run: "append_many es s = (r, s')" by (cases "append_many es s")
  have more: "env.more s' = env.more s"
    using advancesD [OF append_many_keeps_more run] by (simp add: keeps_more_def)
  show "log_adds T s (snd (append_many es s))"
  proof (cases "synced s")
    case True
    show ?thesis
    proof (rule append_many_cases [OF run True])
      assume "self s' = self s" "the_store s' = the_store s"
      then show ?thesis
        using True more by (auto simp: run log_adds_def synced_def intro: exI [of _ "[]"])
    next
      fix ps assume "ps = numbered (ses_head (self s)) es" "synced s'" "ses_id (self s') = ses_id (self s)"
        "ses_events (self s') = ses_events (self s) @ ps"
      then show ?thesis using assms more by (auto simp: run log_adds_def numbered_types intro!: exI [of _ ps])
    qed
  qed (simp add: log_adds_def run more)
qed

lemma append_new_adds:
  assumes "ty \<in> T"
  shows "advances (log_adds T) (append_new ty rid data :: ('z env_scheme, event) sm)"
  unfolding advances_def append_new_def append_event_def bind_self
proof
  fix s :: "'z env_scheme"
  show "log_adds T s (snd (bindE (new_event ty (ses_id (self s)) rid data)
      (\<lambda>e. bindE (append_many [e]) (\<lambda>ps. retE (hd ps))) s))"
  proof (rule advances_bind_at [where R = "log_adds T"])
    show "log_adds T s (snd (new_event ty (ses_id (self s)) rid data s))"
      by (rule advances_at [OF world_adds [OF advances_new_event]])
    show "log_adds T s1 (snd (bindE (append_many [e]) (\<lambda>ps. retE (hd ps)) s1))"
      if "new_event ty (ses_id (self s)) rid data s = (Inr e, s1)" for e and s1 :: "'z env_scheme"
    proof -
      have "ev_type e = ty" using that by (auto simp: new_event_def bindE_eq_Inr retE_def)
      then have "advances (log_adds T) (bindE (append_many [e]) (\<lambda>ps. retE (hd ps)))"
        using assms by (intro log_adds.advances_rules append_many_adds) simp
      then show ?thesis by (rule advances_at)
    qed
  qed (rule log_adds_trans)
qed

text \<open>Events that are made first and appended then.\<close>

lemma made_event_adds:
  fixes f :: "'b \<Rightarrow> ('z env_scheme, 'c) sm"
  assumes "advances (log_adds T) mk" and "\<And>s x s1. mk s = (Inr x, s1) \<Longrightarrow> P x"
    and "\<And>x. P x \<Longrightarrow> advances (log_adds T) (f x)"
  shows "advances (log_adds T) (bindE mk f)"
  unfolding advances_def
proof
  fix s :: "'z env_scheme"
  show "log_adds T s (snd (bindE mk f s))"
  proof (rule advances_bind_at [where R = "log_adds T"])
    show "log_adds T s (snd (mk s))" by (rule advances_at [OF assms(1)])
    show "log_adds T s1 (snd (f x s1))" if "mk s = (Inr x, s1)" for x and s1 :: "'z env_scheme"
      by (rule advances_at [OF assms(3) [OF assms(2) [OF that]]])
  qed (rule log_adds_trans)
qed

lemma new_event_type: "new_event ty sid rid data s = (Inr e, s1) \<Longrightarrow> ev_type e = ty"
  by (auto simp: new_event_def bindE_eq_Inr retE_def)

lemma append_event_adds: "ev_type e \<in> T \<Longrightarrow> advances (log_adds T) (append_event e)"
  unfolding append_event_def by (intro log_adds.advances_rules append_many_adds) simp

definition message_types :: "string set" where
  "message_types = {''tool.result'', ''user.message'', ''system.message'', ''assistant.message''}"

lemma message_event_type_mem: "message_event_type m \<in> message_types"
  by (simp add: message_event_type_def message_types_def)

lemma message_event_adds: "advances (log_adds T) (message_event m rid)"
  unfolding message_event_def by (intro log_adds.advances_rules world_add_steps)

lemma message_event_made: "message_event m rid s = (Inr e, s1) \<Longrightarrow> ev_type e \<in> message_types"
  using message_event_type_mem new_event_type
  by (fastforce simp: message_event_def bindE_eq_Inr get_self_def)

lemma add_message_adds:
  assumes "message_types \<subseteq> T"
  shows "advances (log_adds T) (add_message m rid)"
  unfolding add_message_def
  by (rule made_event_adds [OF message_event_adds, where P = "\<lambda>e. ev_type e \<in> message_types"])
    (use message_event_made assms in \<open>auto intro!: append_event_adds\<close>)

lemma new_run_event_adds: "advances (log_adds T) (new_run_event ty rid data)"
  unfolding new_run_event_def by (intro log_adds.advances_rules world_add_steps)

lemma new_run_event_made: "new_run_event ty rid data s = (Inr e, s1) \<Longrightarrow> ev_type e = ty"
  by (auto simp: new_run_event_def bindE_eq_Inr get_self_def dest: new_event_type)

lemma refresh_adds: "advances (log_adds T) refresh"
  unfolding advances_def
proof
  fix s :: "'z env_scheme"
  have "advances keeps_more (refresh_loop n :: ('z env_scheme, unit) sm)" for n
    by (induction n) (auto intro!: keeps_more.advances_rules basic_keeps_more world_advances [THEN world_keeps_more])
  then have "env.more (snd (refresh s)) = env.more s"
    unfolding refresh_def keeps_more_def [symmetric] by (rule advances_at)
  then show "log_adds T s (snd (refresh s))"
    by (cases "synced s") (auto simp: refresh_synced log_adds_def intro: exI [of _ "[]"])
qed

lemma authorization_adds:
  "''capability.lease.issued'' \<in> T \<Longrightarrow> advances (log_adds T) (issue_capability_lease r caps ttl who)"
  "''approval.requested'' \<in> T \<Longrightarrow> advances (log_adds T) (request_approval scope who ttl_opt r md)"
  "''approval.resolved'' \<in> T \<Longrightarrow> advances (log_adds T) (resolve_approval i ok who r once)"
  "''approval.consumed'' \<in> T \<Longrightarrow> advances (log_adds T) (consume_approval i r scope)"
  unfolding issue_capability_lease_def request_approval_def resolve_approval_def consume_approval_def
  by (auto intro!: log_adds.advances_rules append_new_adds world_add_steps split: option.split)

lemma new_event_then_adds:
  assumes "\<And>e. ev_type e = ty \<Longrightarrow> advances (log_adds T) (f e)"
  shows "advances (log_adds T) (bindE (new_event ty sid rid data) f)"
  by (rule made_event_adds [where P = "\<lambda>e. ev_type e = ty"])
    (use assms new_event_type in \<open>auto intro!: world_add_steps\<close>)

lemma new_run_event_then_adds:
  assumes "\<And>e. ev_type e = ty \<Longrightarrow> advances (log_adds T) (f e)"
  shows "advances (log_adds T) (bindE (new_run_event ty rid data) f)"
  by (rule made_event_adds [where P = "\<lambda>e. ev_type e = ty"])
    (use assms new_run_event_made in \<open>auto intro!: new_run_event_adds\<close>)

lemma advances_if: "advances R m \<Longrightarrow> advances R n \<Longrightarrow> advances R (if b then m else n)"
  by simp

lemma advances_option:
  "advances R m \<Longrightarrow> (\<And>x. advances R (f x)) \<Longrightarrow> advances R (case v of None \<Rightarrow> m | Some x \<Rightarrow> f x)"
  by (cases v) simp_all

lemma repair_adds:
  assumes "{''session.repaired'', ''tool.result''} \<subseteq> T"
  shows "advances (log_adds T) (repair_orphan_tool_calls r excl)"
proof -
  have two: "advances (log_adds T) (bindE (new_event ''session.repaired'' sid rid d)
      (\<lambda>e1. bindE (new_event ''tool.result'' sid' rid' d') (\<lambda>e2. append_many [e1, e2])))"
    for sid rid d sid' rid' d'
    using assms by (intro new_event_then_adds append_many_adds) auto
  show ?thesis
    unfolding repair_orphan_tool_calls_def Let_def
    by (intro two advances_if log_adds.advances_rules world_add_steps)
qed

lemmas session_adds = append_event_adds append_many_adds append_new_adds add_message_adds refresh_adds
  authorization_adds repair_adds world_add_steps

end
