(* ===== verification/Run_Safety.thy ===== *)
theory Run_Safety
  imports Run_Frames
begin

text \<open>
  What a run does to its session whatever its tools, hooks, provider and resolver answer and however
  its concurrent calls interleave. The locale \<open>run_order\<close> states once what a relation between the
  states of a run has to respect; each guarantee of a run is an interpretation of it.
\<close>

section \<open>Questions that only read\<close>

lemma leases_world:
  "advances world_only (lease_active_now l)" "advances world_only (approval_active_now a)"
  "advances world_only (approval_covers_now a scope)"
  unfolding lease_active_now_def approval_covers_now_def approval_active_now_def
  by (auto intro!: world_frame.advances_rules advances_utc)

lemma authorization_reads_world:
  "advances world_only (active_leases_now st rid)" "advances world_only (active_approvals_now st rid)"
  "advances world_only (consumable_approval_now st rid scope)"
  unfolding active_leases_now_def active_approvals_now_def consumable_approval_now_def
  by (intro world_frame.advances_rules leases_world)+

lemma pending_loop_world: "advances world_only (pending_approval_loop pending rid cid es)"
proof (induction es)
  case (Cons e es)
  then show ?case
    by (auto intro!: world_frame.advances_rules leases_world split: jval.split option.split)
qed (simp add: world_frame.advances_retE)

lemma call_permission_world: "advances world_only (call_permission rid lease app)"
  unfolding call_permission_def
  by (intro world_frame.advances_rules authorization_reads_world advances_authorization)

lemma pending_approval_world: "advances world_only (pending_approval_for_call rid cid)"
  unfolding pending_approval_for_call_def
  by (intro world_frame.advances_rules pending_loop_world advances_authorization advances_get_self)

lemma consume_one_shot_adds:
  "''approval.consumed'' \<in> T \<Longrightarrow> advances (log_adds T) (consume_one_shot rid scope result)"
  unfolding consume_one_shot_def
  by (intro advances_option advances_if log_adds.advances_rules session_adds
      world_adds [OF authorization_reads_world(3)])

lemma commit_outcomes_adds:
  "message_types \<subseteq> T \<Longrightarrow> advances (log_adds T) (commit_outcomes rid calls outcomes)"
proof (induction rid calls outcomes rule: commit_outcomes.induct)
  case (1 rid call calls outcome outcomes)
  show ?case
  proof (cases outcome)
    case (Inl e)
    then show ?thesis by (cases e) (simp_all add: log_adds.advances_raiseE)
  next
    case (Inr r)
    with 1 show ?thesis
      by (simp, intro log_adds.advances_rules world_add_steps add_message_adds)
  qed
qed (simp_all add: log_adds.advances_retE)

section \<open>The order a run respects\<close>

text \<open>The types of the events a run's own bookkeeping adds, its states and tool stages apart.\<close>

definition bookkeeping_types :: "string set" where
  "bookkeeping_types = message_types \<union>
     {''approval.requested'', ''approval.resolved'', ''approval.consumed'', ''capability.lease.issued'',
      ''session.repaired'', ''run.suspended''}"

locale run_order = loop_order R + rely_guarantee R G
  for R :: "'z renv_scheme \<Rightarrow> 'z renv_scheme \<Rightarrow> bool" and G +
  fixes init :: "'z renv_scheme \<Rightarrow> bool" and T :: "string set" and rid :: string and co :: "'z tool_runtime"
  assumes init_kept: "init s \<Longrightarrow> G s t \<Longrightarrow> init t"
    and bookkeeping: "bookkeeping_types \<subseteq> T"
    and adds_step: "log_adds T s t \<Longrightarrow> R s t"
    and transition_step: "advances R (run_transition rid st)"
    and dispatch_step: "init s \<Longrightarrow> upholds G R anyhow (dispatch_call co rid call require_lease app) s"
begin

lemma advances_adds: "advances (log_adds T) m \<Longrightarrow> advances R m"
  by (erule advances_weaken) (rule adds_step)

lemma type_mem: "ty \<in> bookkeeping_types \<Longrightarrow> ty \<in> T"
  using bookkeeping by blast

lemma bookkeeping_mem:
  "''approval.requested'' \<in> T" "''approval.resolved'' \<in> T" "''approval.consumed'' \<in> T"
  "''capability.lease.issued'' \<in> T" "''run.suspended'' \<in> T" "{''session.repaired'', ''tool.result''} \<subseteq> T"
  "message_types \<subseteq> T"
  using bookkeeping by (auto simp: bookkeeping_types_def message_types_def)

lemmas run_adds = session_adds (1-5) [THEN advances_adds] authorization_adds [THEN advances_adds]
  repair_adds [THEN advances_adds] world_add_steps [THEN advances_adds]

lemma upholds_m: "advances R m \<Longrightarrow> upholds G R anyhow (liftT m) s"
  by (intro upholds_steps steps_in_liftT)

lemma await_approval_steps: "advances R (await_approval co rid call result decision)"
  unfolding await_approval_def
  by (intro advances_rules advances_option transition_step bookkeeping_mem
      authorization_adds(2) [THEN advances_adds] pending_approval_world [THEN world_adds, THEN advances_adds])

lemma consume_steps: "upholds G R anyhow (liftT (consume_one_shot rid scope result)) s"
  by (intro upholds_m advances_adds consume_one_shot_adds bookkeeping_mem)

lemma upholds_get_self: "upholds G R anyhow (liftT get_self) s"
  by (intro upholds_m advances_adds world_adds advances_get_self)

lemma upholds_ret: "upholds G R anyhow (retT x) s"
  by (simp add: upholds_retT)

lemma retry_upholds:
  assumes "init s"
  shows "upholds G R anyhow (retry_granted co rid call require_lease app decision) s"
proof -
  have prepared: "advances R (bindE (case tool_spec_of co (call_name call) of
                 None \<Rightarrow> retE ()
               | Some spec \<Rightarrow>
                   whenE (dec_rule decision = ''capability.lease_required'')
                     (bindE (issue_capability_lease rid (set (required_capabilities spec))
                               (co_lease_ttl co) ''approval'') (\<lambda>_. retE ())))
          (\<lambda>_. refresh))"
    by (intro advances_rules advances_option refresh_adds [THEN advances_adds] bookkeeping_mem
        authorization_adds(1) [THEN advances_adds])
  show ?thesis
    unfolding retry_granted_def
    by (intro upholds_rules upholds_m [OF prepared] dispatch_step consume_steps upholds_ret init_kept [OF assms])
qed

lemma upholds_if:
  "upholds G R Q t s \<Longrightarrow> upholds G R Q t' s \<Longrightarrow> upholds G R Q (if b then t else t') s"
  by simp

lemma ask_upholds:
  assumes "init s"
  shows "upholds G R anyhow (ask_approval co rid call require_lease allow_inline app result decision) s"
proof -
  have resolved: "advances R (bindE (resolve_approval i ok who rid once) (\<lambda>_. run_transition rid WaitingTool))"
    for i ok who once
    by (intro advances_rules transition_step bookkeeping_mem authorization_adds(3) [THEN advances_adds])
  have waited: "upholds G R anyhow (await_cancelable (externalT f)) u" for f :: "nat \<Rightarrow> exn + approval_outcome" and u
    by (intro upholds_steps loop_steps)
  show ?thesis
    unfolding ask_approval_def Let_def
    by (intro upholds_rules upholds_if upholds_get_self upholds_ret upholds_m [OF await_approval_steps]
        upholds_m [OF resolved] waited retry_upholds) (use assms in \<open>meson init_kept\<close>)
qed

lemma dispatch_with_approval_upholds:
  assumes "init s"
  shows "upholds G R anyhow (dispatch_with_approval co rid call require_lease allow_inline app) s"
proof -
  have settled: "upholds G R anyhow (thenT (liftT (consume_one_shot rid (call_name call) r)) (retT r)) u" for r u
    by (intro upholds_rules consume_steps upholds_ret)
  show ?thesis
    unfolding dispatch_with_approval_def Let_def
    by (intro upholds_rules dispatch_step assms)
      (auto intro: settled ask_upholds init_kept [OF assms] split: option.split)
qed

lemma capture_upholds: "upholds G R anyhow t s \<Longrightarrow> upholds G R anyhow (captureT t) s"
  unfolding captureT_def
  by (intro upholds_rules) (auto intro: upholds_ret upholds_raiseT)

lemma run_group_upholds:
  assumes "init s"
  shows "upholds G R anyhow (run_group co rid grp require_lease allow_inline app) s"
proof -
  have each: "upholds G R anyhow t s"
    if "t \<in> set (map (\<lambda>c. captureT (dispatch_with_approval co rid c require_lease allow_inline app)) grp)" for t
    using that assms by (auto intro: capture_upholds dispatch_with_approval_upholds)
  have "upholds G R anyhow (gatherT
      (map (\<lambda>c. captureT (dispatch_with_approval co rid c require_lease allow_inline app)) grp)) s"
    unfolding gatherT_def by (rule upholds_gather) (rule each)
  moreover have "upholds G R anyhow (bindT (hd
      (map (\<lambda>c. captureT (dispatch_with_approval co rid c require_lease allow_inline app)) grp)) (\<lambda>x. retT [x])) s"
    if "length grp = 1"
    using that by (intro upholds_rules each upholds_ret) (cases grp; simp)
  ultimately show ?thesis by (simp add: run_group_def Let_def)
qed

lemma execute_upholds:
  assumes "init s"
  shows "upholds G R anyhow (execute_tool_calls co rid require_lease allow_inline allow_parallel app calls) s"
  using assms
proof (induction calls arbitrary: s rule: measure_induct_rule [of length])
  case (less calls)
  show ?case
  proof (cases "calls = []")
    case False
    let ?n = "length (parallel_group co require_lease allow_parallel calls)"
    have "0 < ?n" using False by (cases calls) auto
    then have rest: "upholds G R anyhow
        (execute_tool_calls co rid require_lease allow_inline allow_parallel app (drop ?n calls)) u"
      if "init u" for u
      using False that by (intro less.IH) (simp_all add: length_greater_0_conv [symmetric] del: length_greater_0_conv)
    have check: "advances R (bindE check_cancel (\<lambda>_. refresh))"
      by (intro advances_rules check_cancel_advances refresh_adds [THEN advances_adds])
    show ?thesis
      by (subst execute_tool_calls.simps) (use False in \<open>simp add: Let_def\<close>,
        intro upholds_rules upholds_m [OF check] run_group_upholds rest
          upholds_m [OF advances_adds [OF commit_outcomes_adds]] bookkeeping_mem;
        use less.prems in \<open>meson init_kept\<close>)
  qed (simp add: execute_tool_calls.simps upholds_ret)
qed

end

end
