(* ===== verification/Run_Guarantees.thy ===== *)
theory Run_Guarantees
  imports Run_Safety "HOL-Library.Sublist"
begin

text \<open>
  Two guarantees of a run, each an interpretation of \<open>run_order\<close>: the states a run records in the log
  are a path of its state machine, and no tool starts without a recorded decision that allows it.
\<close>

section \<open>What every dispatch adds\<close>

definition stage_types :: "string set" where
  "stage_types =
     {''tool.requested'', ''tool.rejected'', ''policy.decided'', ''tool.started'', ''tool.completed''}"

lemma more_machine: "env.more t = env.more s \<Longrightarrow> machine t = machine (s :: 'z renv_scheme)"
  by (cases s, cases t) simp

text \<open>The policy reads the clock at most.\<close>

definition policy_reads_only :: "'z renv_scheme dispatcher \<Rightarrow> bool" where
  "policy_reads_only dsp \<longleftrightarrow> (\<forall>spec inp c. advances world_only (dsp_policy dsp spec inp c))"

context loop_order
begin

lemma dispatch_steps:
  assumes sink: "\<And>name data. name \<in> stage_types \<Longrightarrow> steps_in R (sink name data)"
    and policy: "\<And>spec inp c. advances R (dsp_policy dsp spec inp c)"
  shows "steps_in R (dispatch dsp call ctx permission (Some sink))"
proof -
  have told: "steps_in R (emit_to (Some sink) name data)" if "name \<in> stage_types" for name data
    using sink [OF that] by (simp add: emit_to_def)
  have rejected: "steps_in R (reject_call (Some sink) call code content)" for code content
    unfolding reject_call_def by (intro loop_steps told) (simp add: stage_types_def)
  have allowed: "steps_in R (dispatch_allowed dsp tool call prepared ctx g d (Some sink))" for tool prepared g d
    unfolding dispatch_allowed_def by (intro loop_steps told run_allowed_steps) (simp_all add: stage_types_def)
  have decided: "steps_in R (dispatch_decided dsp tool call prepared ctx permission (Some sink) d)"
    for tool prepared d
    unfolding dispatch_decided_def Let_def
    by (intro loop_steps told emit_hook_steps allowed) (simp_all add: stage_types_def)
  have "steps_in R (dispatch_found dsp tool call ctx permission (Some sink))" for tool
    unfolding dispatch_found_def dispatch_prepared_def
    by (intro loop_steps rejected decided policy)
  then show ?thesis
    unfolding dispatch_def by (intro loop_steps told rejected) (simp_all add: stage_types_def)
qed

end

section \<open>The recorded states are a path\<close>

definition state_change :: "string \<Rightarrow> event \<Rightarrow> jval option" where
  "state_change rid e =
     (if ev_type e = ''run.state_changed'' \<and> ev_run e = Some rid
      then Some (get_or_none (ev_data e) ''state'') else None)"

definition state_changes :: "string \<Rightarrow> event list \<Rightarrow> jval list" where
  "state_changes rid es = List.map_filter (state_change rid) es"

definition state_texts :: "run_state list \<Rightarrow> jval list" where
  "state_texts path = map (\<lambda>st. JStr (state_value st)) path"

lemma state_value_inject [simp]: "state_value a = state_value b \<longleftrightarrow> a = b"
  by (cases a; cases b) simp_all

text \<open>In what is recorded of a path a state that ends it is last.\<close>

lemma not_before_the_end:
  assumes "run_path st path u" and sub: "subseq vs (state_texts path)" and "ending v"
  shows "JStr (state_value v) \<notin> set (butlast vs)"
proof (cases vs rule: rev_cases)
  case (snoc bs b)
  with sub obtain us ws where split: "state_texts path = us @ ws" "subseq bs us" "subseq [b] ws"
    by (auto dest: list_emb_appendD)
  then have "set bs \<subseteq> set us" "ws \<noteq> []" by (auto dest: list_emb_set)
  then have "set bs \<subseteq> set (butlast (state_texts path))" using split(1) by (auto simp: butlast_append)
  moreover have "JStr (state_value v) \<notin> set (butlast (state_texts path))"
    using ending_butlast [OF assms(1)] assms(3) by (auto simp: state_texts_def map_butlast [symmetric])
  ultimately show ?thesis using snoc by auto
qed simp

lemma state_changes_simps [simp]:
  "state_changes rid [] = []" "state_changes rid (es @ fs) = state_changes rid es @ state_changes rid fs"
  "state_changes rid (e # es) =
     (case state_change rid e of None \<Rightarrow> state_changes rid es | Some v \<Rightarrow> v # state_changes rid es)"
  by (simp_all add: state_changes_def List.map_filter_def split: option.split)

lemma no_state_changes: "''run.state_changed'' \<notin> ev_type ` set es \<Longrightarrow> state_changes rid es = []"
  by (induction es) (auto simp: state_change_def)

lemma state_changes_numbered: "state_changes rid (numbered n es) = state_changes rid es"
proof (induction es arbitrary: n)
  case (Cons e es)
  have "state_change rid (persisted e m) = state_change rid e" for m
    unfolding state_change_def persisted_simps by (rule refl)
  with Cons show ?case by (simp add: numbered_Cons split: option.split)
qed simp

text \<open>
  The machine has gone along a path, and the log has recorded its states in order, perhaps not all:
  a transition whose record the store refuses moves the machine and raises.
\<close>

definition run_trail :: "string \<Rightarrow> 'z renv_scheme \<Rightarrow> 'z renv_scheme \<Rightarrow> bool" where
  "run_trail rid s t \<longleftrightarrow> (synced s \<longrightarrow> synced t \<and> ses_id (self t) = ses_id (self s) \<and>
     (\<exists>es path. ses_events (self t) = ses_events (self s) @ es \<and> run_path (machine s) path (machine t) \<and>
        subseq (state_changes rid es) (state_texts path)))"

lemma run_trail_trans:
  assumes "run_trail rid s t" "run_trail rid t u"
  shows "run_trail rid s u"
proof (cases "synced s")
  case True
  with assms(1) obtain es path where a: "synced t" "ses_id (self t) = ses_id (self s)"
    "ses_events (self t) = ses_events (self s) @ es" "run_path (machine s) path (machine t)"
    "subseq (state_changes rid es) (state_texts path)" by (auto simp: run_trail_def)
  with assms(2) obtain es' path' where b: "synced u" "ses_id (self u) = ses_id (self t)"
    "ses_events (self u) = ses_events (self t) @ es'" "run_path (machine t) path' (machine u)"
    "subseq (state_changes rid es') (state_texts path')" by (auto simp: run_trail_def)
  have "run_path (machine s) (path @ path') (machine u)"
    using a(4) b(4) run_path_append by blast
  moreover have "subseq (state_changes rid (es @ es')) (state_texts (path @ path'))"
    using list_emb_append_mono [OF a(5) b(5)] by (simp add: state_texts_def)
  ultimately show ?thesis using a b True by (auto simp: run_trail_def intro!: exI [of _ "es @ es'"] exI)
qed (simp add: run_trail_def)

lemma run_trail_refl: "run_trail rid s s"
  by (auto simp: run_trail_def run_path.stay intro!: exI [of _ "[]"])

text \<open>States that differ in nothing the trail looks at.\<close>

lemma run_trail_silent:
  assumes "self t = self s" "the_store t = the_store s" "machine t = machine s"
  shows "run_trail rid s t"
  using assms by (auto simp: run_trail_def synced_def run_path.stay intro!: exI [of _ "[]"])

interpretation run_trail: loop_order "run_trail rid" for rid
  by unfold_locales (rule run_trail_refl, erule (1) run_trail_trans, (rule run_trail_silent, simp_all)+)

interpretation run_trail: rely_guarantee "run_trail rid" "run_trail rid" for rid
  by unfold_locales (auto intro: run_trail_refl run_trail_trans)

lemma adds_run_trail:
  assumes "log_adds (- {''run.state_changed''}) s t"
  shows "run_trail rid s t"
proof (cases "synced s")
  case True
  with assms obtain es where es: "synced t" "ses_id (self t) = ses_id (self s)"
    "ses_events (self t) = ses_events (self s) @ es" "ev_type ` set es \<subseteq> - {''run.state_changed''}"
    by (auto simp: log_adds_def)
  have "machine t = machine s" using assms more_machine by (auto simp: log_adds_def)
  moreover have "state_changes rid es = []" using es(4) by (intro no_state_changes) blast
  ultimately show ?thesis
    using es by (auto simp: run_trail_def intro!: exI [of _ es] exI [of _ "[]"])
qed (simp add: run_trail_def)

text \<open>Appending events is a trail of their own states, or of none.\<close>

lemma append_many_states:
  assumes run: "append_many es s = (r, s')" and sync: "synced s"
  obtains fs where "synced s'" "ses_id (self s') = ses_id (self s)" "env.more s' = env.more s"
    "ses_events (self s') = ses_events (self s) @ fs"
    "state_changes rid fs = [] \<or> state_changes rid fs = state_changes rid es"
proof -
  have more: "env.more s' = env.more s"
    using advancesD [OF append_many_keeps_more run] by (simp add: keeps_more_def)
  show thesis
  proof (rule append_many_cases [OF run sync])
    assume "self s' = self s" "the_store s' = the_store s"
    with more sync show thesis by (intro that [of "[]"]) (simp_all add: synced_def)
  next
    fix ps assume "ps = numbered (ses_head (self s)) es" "synced s'" "ses_id (self s') = ses_id (self s)"
      "ses_events (self s') = ses_events (self s) @ ps"
    with more show thesis by (intro that [of ps]) (simp_all add: state_changes_numbered)
  qed
qed

text \<open>A transition moves the machine first; its event is then appended alone or with others.\<close>

lemma run_trail_moved:
  assumes "self t = self s" "the_store t = the_store s" "transition (machine s) (machine t) = Inr (machine t)"
  shows "run_trail rid s t"
  using assms by (auto simp: run_trail_def synced_def intro!: exI [of _ "[]"] exI [of _ "[machine t]"])

lemma run_trail_appended:
  assumes run: "append_many es s1 = (r, t)" and same: "self s1 = self s" "the_store s1 = the_store s"
    and st: "(transition (machine s) (machine s1) = Inr (machine s1) \<and>
        state_changes rid es = state_texts [machine s1]) \<or> (machine s1 = machine s \<and> state_changes rid es = [])"
  shows "run_trail rid s t"
proof (cases "synced s")
  case True
  with same have "synced s1" by (simp add: synced_def)
  then obtain fs where t: "synced t" "ses_id (self t) = ses_id (self s1)" "env.more t = env.more s1"
    "ses_events (self t) = ses_events (self s1) @ fs"
    "state_changes rid fs = [] \<or> state_changes rid fs = state_changes rid es"
    by (rule append_many_states [OF run])
  have m: "machine t = machine s1" by (rule more_machine [OF t(3)])
  from st show ?thesis
  proof (elim disjE conjE)
    assume "transition (machine s) (machine s1) = Inr (machine s1)"
      "state_changes rid es = state_texts [machine s1]"
    then show ?thesis
      using t m True same by (auto simp: run_trail_def intro!: exI [of _ fs] exI [of _ "[machine s1]"])
  next
    assume "machine s1 = machine s" "state_changes rid es = []"
    then show ?thesis
      using t m True same by (auto simp: run_trail_def intro!: exI [of _ fs] exI [of _ "[]"])
  qed
qed (simp add: run_trail_def)

lemma new_run_event_fields:
  "new_run_event ty rid data s = (Inr e, s1) \<Longrightarrow> ev_type e = ty \<and> ev_run e = Some rid \<and> ev_data e = data"
  by (auto simp: new_run_event_def bindE_eq_Inr get_self_def new_event_def retE_def)

lemma new_run_event_world: "advances world_only (new_run_event ty rid data)"
  unfolding new_run_event_def by (intro world_frame.advances_rules advances_new_event advances_get_self)

lemma world_only_same:
  "world_only s t \<Longrightarrow> self t = self s \<and> the_store t = the_store s \<and> machine t = machine (s :: 'z renv_scheme)"
  using more_machine by (auto simp: world_only_def)

text \<open>The event of a transition: what it says, and where the machine is when it exists.\<close>

lemma transition_event_cases:
  assumes "transition_event rid target s = (r, s1)"
  obtains (invalid) e where "r = Inl e" "s1 = s"
  | (failed) e where "r = Inl e" "self s1 = self s" "the_store s1 = the_store s"
      "transition (machine s) (machine s1) = Inr (machine s1)"
  | (made) e where "r = Inr e" "self s1 = self s" "the_store s1 = the_store s" "machine s1 = target"
      "transition (machine s) target = Inr target" "ev_type e = ''run.state_changed''"
      "ev_run e = Some rid" "ev_data e = [(''state'', JStr (state_value target))]"
proof (cases "transition (machine s) target")
  case (Inl e)
  then show thesis using assms invalid by (auto simp: transition_event_def machine_step_def bindE_def)
next
  case (Inr st)
  then have st: "st = target" by (auto simp: transition_def split: if_splits)
  let ?s0 = "s\<lparr>machine := target\<rparr>"
  have run: "new_run_event ''run.state_changed'' rid [(''state'', JStr (state_value target))] ?s0 = (r, s1)"
    using assms Inr st by (simp add: transition_event_def machine_step_def bindE_def)
  note same = world_only_same [OF advancesD [OF new_run_event_world run]]
  show thesis
  proof (cases r)
    case (Inl e)
    then show thesis using failed same Inr st by simp
  next
    case r: (Inr e)
    then show thesis using made same Inr st new_run_event_fields [of _ _ _ ?s0 e s1] run by simp
  qed
qed

lemma transition_trail: "advances (run_trail rid) (run_transition rid target)"
  unfolding advances_def
proof
  fix s :: "'z renv_scheme"
  obtain r s1 where ev: "transition_event rid target s = (r, s1)" by (cases "transition_event rid target s")
  show "run_trail rid s (snd (run_transition rid target s))"
  proof (rule transition_event_cases [OF ev])
    fix e assume "r = Inl e" "s1 = s"
    then show ?thesis by (simp add: run_transition_def bindE_def ev run_trail_refl)
  next
    fix e assume "r = Inl e" "self s1 = self s" "the_store s1 = the_store s"
      "transition (machine s) (machine s1) = Inr (machine s1)"
    then show ?thesis by (simp add: run_transition_def bindE_def ev run_trail_moved)
  next
    fix e assume e: "r = Inr e" "self s1 = self s" "the_store s1 = the_store s" "machine s1 = target"
      "transition (machine s) target = Inr target" "ev_type e = ''run.state_changed''"
      "ev_run e = Some rid" "ev_data e = [(''state'', JStr (state_value target))]"
    obtain q t where app: "append_many [e] s1 = (q, t)" by (cases "append_many [e] s1")
    have "run_trail rid s t"
      by (rule run_trail_appended [OF app e(2,3)]) (simp add: e state_change_def state_texts_def)
    then show ?thesis
      using app by (simp add: run_transition_def bindE_def ev e(1) append_event_def retE_def split: sum.split)
  qed
qed

lemma finish_trail:
  assumes ty: "ty \<noteq> ''run.state_changed''"
  shows "advances (run_trail rid) (finish_run rid target ty data)"
  unfolding advances_def
proof
  fix s :: "'z renv_scheme"
  have finish: "run_trail rid s (snd (bindE (new_run_event ty rid d) (\<lambda>e.
      bindE (append_many (evs @ [e])) (\<lambda>_. retE ())) s1))"
    if same: "self s1 = self s" "the_store s1 = the_store s"
      and st: "(transition (machine s) (machine s1) = Inr (machine s1) \<and>
        state_changes rid evs = state_texts [machine s1]) \<or> (machine s1 = machine s \<and> state_changes rid evs = [])"
    for d evs and s1 :: "'z renv_scheme"
  proof -
    obtain q s2 where ev: "new_run_event ty rid d s1 = (q, s2)" by (cases "new_run_event ty rid d s1")
    note same2 = world_only_same [OF advancesD [OF new_run_event_world ev]]
    show ?thesis
    proof (cases q)
      case (Inl e)
      then show ?thesis
        using same same2 st run_trail_moved [of s2 s] run_trail_silent [of s2 s]
        by (auto simp: bindE_def ev)
    next
      case (Inr e)
      obtain q' t where app: "append_many (evs @ [e]) s2 = (q', t)" by (cases "append_many (evs @ [e]) s2")
      have "state_change rid e = None"
        using new_run_event_fields [of ty rid d s1 e s2] ev Inr ty by (simp add: state_change_def)
      then have "run_trail rid s t"
        using same same2 st by (intro run_trail_appended [OF app]) auto
      then show ?thesis using app by (simp add: bindE_def ev Inr retE_def split: sum.split)
    qed
  qed
  show "run_trail rid s (snd (finish_run rid target ty data s))"
  proof (cases "machine s \<in> set TERMINAL_STATES")
    case True
    then show ?thesis
      using finish [of s "[]"] by (simp add: finish_run_def get_machine_def bindE_def [of "\<lambda>s. (Inr (machine s), s)"])
  next
    case False
    obtain r s1 where ev: "transition_event rid target s = (r, s1)" by (cases "transition_event rid target s")
    have eq: "finish_run rid target ty data s =
        bindE (bindE (transition_event rid target) (\<lambda>e. retE [e])) (\<lambda>events. bindE get_machine (\<lambda>now.
          bindE (new_run_event ty rid (dict_merge [(''state'', JStr (state_value now))] data)) (\<lambda>e.
          bindE (append_many (events @ [e])) (\<lambda>_. retE ())))) s"
      using False by (simp add: finish_run_def get_machine_def bindE_def [of "\<lambda>s. (Inr (machine s), s)"])
    show ?thesis
    proof (rule transition_event_cases [OF ev])
      fix e assume "r = Inl e" "s1 = s"
      then show ?thesis unfolding eq by (simp add: bindE_def ev run_trail_refl)
    next
      fix e assume "r = Inl e" "self s1 = self s" "the_store s1 = the_store s"
        "transition (machine s) (machine s1) = Inr (machine s1)"
      then show ?thesis unfolding eq by (simp add: bindE_def ev run_trail_moved)
    next
      fix e assume e: "r = Inr e" "self s1 = self s" "the_store s1 = the_store s" "machine s1 = target"
        "transition (machine s) target = Inr target" "ev_type e = ''run.state_changed''"
        "ev_run e = Some rid" "ev_data e = [(''state'', JStr (state_value target))]"
      have "state_changes rid [e] = state_texts [machine s1]"
        by (simp add: e state_change_def state_texts_def)
      then have "run_trail rid s (snd (bindE (new_run_event ty rid d) (\<lambda>e'.
          bindE (append_many ([e] @ [e'])) (\<lambda>_. retE ())) s1))" for d
        using e by (intro finish) auto
      moreover have "bindE (transition_event rid target) (\<lambda>e. retE [e]) s = (Inr [e], s1)"
        by (simp add: bindE_def ev e(1) retE_def)
      moreover have "get_machine s1 = (Inr (machine s1), s1)" by (simp add: get_machine_def)
      ultimately show ?thesis unfolding eq by (simp only: bindE_Inr)
    qed
  qed
qed

lemma sink_adds: "name \<in> T \<Longrightarrow> advances (log_adds T) (bindE (append_new name (Some rid) data) (\<lambda>_. retE ()))"
  by (intro log_adds.advances_rules append_new_adds)

context loop_order
begin

text \<open>Every dispatch of the coordinator, under a relation that allows the stages.\<close>

lemma dispatch_call_steps:
  assumes adds: "\<And>s t. log_adds T s t \<Longrightarrow> R s t" and stages: "stage_types \<subseteq> T"
    and policy: "policy_reads_only (co_dispatcher co)"
  shows "steps_in R (dispatch_call co rid call require_lease app)"
proof -
  have world: "advances R m" if "advances world_only m" for m :: "('z renv_scheme, 'b) sm"
    by (rule advances_weaken [OF world_adds [OF that]]) (rule adds)
  have sink: "steps_in R (append_tool_event rid name data)" if "name \<in> stage_types" for name data
    unfolding append_tool_event_def
    by (intro loop_steps advances_weaken [OF sink_adds [of _ T]]) (use that stages adds in auto)
  have engine: "advances R (dsp_policy (co_dispatcher co) spec inp c)" for spec inp c
    using policy by (intro world) (simp add: policy_reads_only_def)
  show ?thesis
    unfolding dispatch_call_def
    by (intro loop_steps dispatch_steps sink engine world [OF call_permission_world]
        world [OF advances_get_self])
qed

end

lemma run_trail_order:
  assumes "policy_reads_only (co_dispatcher co)"
  shows "run_order (run_trail rid) (run_trail rid) (\<lambda>_. True) (- {''run.state_changed''}) rid co"
proof
  show "bookkeeping_types \<subseteq> - {''run.state_changed''}"
    by (simp add: bookkeeping_types_def message_types_def)
  show "upholds (run_trail rid) (run_trail rid) anyhow (dispatch_call co rid call require_lease app) s"
    for call require_lease app s
    by (intro run_trail.upholds_steps run_trail.dispatch_call_steps [where T = "- {''run.state_changed''}"]
        adds_run_trail assms) (simp_all add: stage_types_def)
qed (auto intro: adds_run_trail transition_trail)

section \<open>The default engine reads the clock only\<close>

lemma clock_world: "advances clock_only m \<Longrightarrow> advances world_only m"
proof (erule advances_weaken)
  fix s t :: "'z env_scheme"
  assume "clock_only s t"
  then obtain n where "t = s\<lparr>clock_reads := n\<rparr>" unfolding clock_only_def by blast
  then show "world_only s t" by (simp add: world_only_def)
qed

lemma default_evaluate_world: "advances world_only (default_evaluate spec inp c)"
  unfolding default_evaluate_def
  by (intro clock_world advances_if clock_advances advances_has_capabilities advances_is_approved)

text \<open>The coordinator's tool execution under the harness's own policy engine.\<close>

definition default_runtime ::
  "tool_registry \<Rightarrow> hook_bus \<Rightarrow> approval_resolver \<Rightarrow> int option \<Rightarrow> int \<Rightarrow> 'z tool_runtime" where
  "default_runtime registry hooks resolver approval_ttl lease_ttl =
     \<lparr>co_dispatcher = \<lparr>dsp_registry = registry, dsp_policy = default_evaluate, dsp_hooks = hooks\<rparr>,
      co_resolver = resolver, co_approval_ttl = approval_ttl, co_lease_ttl = lease_ttl\<rparr>"

lemma default_runtime_reads: "policy_reads_only (co_dispatcher (default_runtime reg hooks resolver ttl lease))"
  by (simp add: policy_reads_only_def default_runtime_def default_evaluate_world)

interpretation default_trail: run_order "run_trail rid" "run_trail rid" "\<lambda>_. True" "- {''run.state_changed''}" rid
    "default_runtime registry hooks resolver ttl lease"
  for rid registry hooks resolver ttl lease
  by (rule run_trail_order) (rule default_runtime_reads)

end
