(* ===== verification/Run_Whole.thy ===== *)
theory Run_Whole
  imports Run_Loop Run_Guarantees
begin

text \<open>
  What whole runs do to their session. \<open>turn_order\<close> extends \<open>loop_order\<close> to the model turns: context
  assembly, compaction, what is persisted of them and the provider's stream. \<open>whole_run\<close> joins it with
  \<open>run_order\<close> and carries a relation from the first step of a run's \<^verbatim>\<open>try\<close> to its last handler.
\<close>

section \<open>What the turns add to the log\<close>

lemma advances_prod: "(\<And>x y. advances R (f x y)) \<Longrightarrow> advances R (case p of (x, y) \<Rightarrow> f x y)"
  by (cases p) simp

lemma advances_list:
  "advances R m \<Longrightarrow> (\<And>x xs. advances R (f x xs)) \<Longrightarrow> advances R (case v of [] \<Rightarrow> m | x # xs \<Rightarrow> f x xs)"
  by (cases v) simp_all

lemma emit_event_adds: "advances (log_adds T) (emit_event e)"
proof -
  have "advances (log_adds T) (notify_observers ks es :: ('z env_scheme, unit) sm)" for ks es
    by (rule same_log_adds [OF messages_same_log(2)]) (simp add: notify_observers_def modifyE_def)
  then show ?thesis
    unfolding emit_event_def by (intro advances_if log_adds.advances_rules world_add_steps)
qed

lemma emit_chunk_adds: "advances (log_adds T) (emit_chunk rid c)"
  unfolding emit_chunk_def
  by (intro log_adds.advances_rules emit_event_adds new_run_event_adds)

lemma read_events_adds: "advances (log_adds T) (read_events_after k)"
proof -
  have same: "on_store (store_read sid k) s = (fst (store_read sid k (the_store s)), s)" for sid and s :: "'z env_scheme"
    using store_read_state(1) [of sid k "the_store s"] by (simp add: on_store_def split_beta)
  have "advances (log_adds T) (on_store (store_read sid k) :: ('z env_scheme, event list) sm)" for sid
    by (simp add: advances_def same log_adds.step_refl)
  then show ?thesis
    unfolding read_events_after_def by (intro log_adds.advances_rules world_add_steps)
qed

lemma new_artifact_events_made:
  "new_artifact_events rid recorded refs s = (Inr (es, d), s') \<Longrightarrow> ev_type ` set es \<subseteq> {''artifact.created''}"
proof (induction refs arbitrary: recorded es d s s')
  case (Cons a refs)
  then show ?case
    by (fastforce simp: bindE_eq_Inr retE_def split: if_splits dest: new_run_event_made)
qed (simp add: retE_def)

lemma new_artifact_events_adds: "advances (log_adds T) (new_artifact_events rid recorded refs)"
  by (induction refs arbitrary: recorded)
    (auto intro!: log_adds.advances_rules advances_if advances_prod new_run_event_adds)

lemma persist_adds:
  assumes "{''artifact.created'', ''compaction.created''} \<subseteq> T"
  shows "advances (log_adds T) (persist_compiled_context rid compiled recorded)"
  unfolding persist_compiled_context_def
proof (rule made_event_adds [OF new_artifact_events_adds, where P = "\<lambda>(es, _). ev_type ` set es \<subseteq> {''artifact.created''}"])
  show "case x of (es, _) \<Rightarrow> ev_type ` set es \<subseteq> {''artifact.created''}"
    if "new_artifact_events rid recorded (cpl_artifacts compiled) s = (Inr x, s1)" for s x s1
    using that new_artifact_events_made by (cases x) blast
  show "advances (log_adds T) (case x of (pending, recorded') \<Rightarrow>
      case cpl_compaction compiled of
        None \<Rightarrow> if pending = [] then retE recorded' else bindE (append_many pending) (\<lambda>_. retE recorded')
      | Some r \<Rightarrow>
          bindE get_self (\<lambda>s. bindE (liftE (source_seqs (cr_replaced r) (ses_events s))) (\<lambda>seqs.
          bindE (new_run_event ''compaction.created'' rid (compaction_event_data r seqs)) (\<lambda>e.
          bindE (append_many (pending @ [e])) (\<lambda>_. retE recorded')))))"
    if x: "case x of (es, _) \<Rightarrow> ev_type ` set es \<subseteq> {''artifact.created''}" for x
  proof (cases x)
    case (Pair pending recorded')
    have made: "ev_type ` set pending \<subseteq> T" using x assms Pair by auto
    have "advances (log_adds T) (bindE (new_run_event ''compaction.created'' rid data) (\<lambda>e.
        bindE (append_many (pending @ [e])) (\<lambda>_. retE recorded')))" for data
      using made assms by (intro new_run_event_then_adds log_adds.advances_rules append_many_adds) auto
    then have "advances (log_adds T) (bindE get_self (\<lambda>s.
        bindE (liftE (source_seqs (cr_replaced r) (ses_events s))) (\<lambda>seqs.
        bindE (new_run_event ''compaction.created'' rid (compaction_event_data r seqs)) (\<lambda>e.
        bindE (append_many (pending @ [e])) (\<lambda>_. retE recorded')))))" for r
      by (intro log_adds.advances_bindE [OF world_adds [OF advances_get_self]]
          log_adds.advances_bindE [OF log_adds.advances_liftE])
    moreover have "advances (log_adds T) (bindE (append_many pending) (\<lambda>_. retE recorded'))"
      using made by (intro log_adds.advances_rules append_many_adds)
    ultimately show ?thesis
      unfolding Pair prod.case by (intro advances_option advances_if log_adds.advances_retE)
  qed
qed

lemma commit_answer_adds:
  assumes "''model.usage'' \<in> T" and "message_types \<subseteq> T"
  shows "advances (log_adds T) (commit_answer crd rid request response compiled)"
proof -
  have two: "advances (log_adds T) (bindE (message_event m r) (\<lambda>answer. bindE (append_many [used, answer]) (\<lambda>_. retE ())))"
    if "ev_type used = ''model.usage''" for m r used
    by (rule made_event_adds [OF message_event_adds, where P = "\<lambda>e. ev_type e \<in> message_types"])
      (use that assms in \<open>auto intro!: log_adds.advances_rules append_many_adds dest: message_event_made\<close>)
  show ?thesis
    unfolding commit_answer_def
  proof (rule made_event_adds [where P = "\<lambda>e. ev_type e = ''model.usage''"])
    show "advances (log_adds T) (usage_event crd rid request response compiled)"
      unfolding usage_event_def
      by (intro log_adds.advances_rules advances_option new_run_event_adds)
    show "ev_type e = ''model.usage''" if "usage_event crd rid request response compiled s = (Inr e, s1)" for s e s1
      using that by (auto simp: usage_event_def bindE_eq_Inr dest: new_run_event_made)
  qed (rule two)
qed

section \<open>A relation the turns respect\<close>

definition context_types :: "string set" where
  "context_types = {''artifact.created'', ''compaction.created''}"

locale turn_order = loop_order R for R :: "'z renv_scheme \<Rightarrow> 'z renv_scheme \<Rightarrow> bool" +
  fixes T :: "string set"
  assumes context_adds: "context_types \<subseteq> T"
    and turn_adds: "log_adds T s t \<Longrightarrow> R s t"
    and files_step: "R s (s\<lparr>artifact_files := fs\<rparr>)"
begin

lemma advances_log: "advances (log_adds T) m \<Longrightarrow> advances R m"
  by (erule advances_weaken) (rule turn_adds)

lemma advances_world: "advances world_only m \<Longrightarrow> advances R m"
  by (rule advances_log [OF world_adds])

lemma external_now_advances: "advances R (external_now f)"
  by (simp add: advances_def external_now_def call_step)

lemmas turn_advances = advances_rules advances_if advances_option advances_prod external_now_advances
  world_advances [THEN advances_world]

lemma store_text_advances: "advances R (store_text cc content metadata policy)"
proof -
  have "advances R (\<lambda>s. case put_text f now now content mt metadata policy x (artifact_files s) of
          (r, fs) \<Rightarrow> (r, s\<lparr>artifact_files := fs\<rparr>))" for f now mt x
    by (simp add: advances_def files_step split: prod.split)
  then show ?thesis unfolding store_text_def by (intro turn_advances)
qed

lemma materialize_block_advances: "advances R (materialize_block cc a stores policy refs b)"
proof (cases b)
  case (ToolResult cid content is_error metadata)
  then show ?thesis
    by (simp add: materialize_result_def Let_def, intro conjI impI turn_advances store_text_advances)
qed (simp_all add: advances_retE)

lemma materialize_blocks_advances: "advances R (materialize_blocks cc a stores policy refs bs)"
proof (induction bs arbitrary: refs)
  case (Cons b bs)
  then show ?case by (simp, intro turn_advances materialize_block_advances)
qed (simp add: advances_retE)

lemma materialize_messages_advances: "advances R (materialize_messages cc a stores policy refs ms)"
proof (induction ms arbitrary: refs)
  case (Cons m ms)
  then show ?case by (simp, intro turn_advances materialize_blocks_advances)
qed (simp add: advances_retE)

lemma compile_turn_advances: "advances R (compile_turn crd tf ts known)"
  unfolding compile_turn_def compile_context_def assemble_def materialize_def Let_def
  by (intro turn_advances materialize_messages_advances)

lemma collect_sections_advances: "advances R (collect_sections request cs)"
proof (induction cs)
  case (Cons c cs)
  then show ?case unfolding collect_sections.simps by (intro turn_advances)
qed (simp add: advances_retE)

lemma setup_turn_advances: "advances R (setup_turn crd tf)"
  unfolding setup_turn_def context_sections_def Let_def
  by (intro turn_advances collect_sections_advances)

lemma persist_advances: "advances R (persist_compiled_context rid compiled recorded)"
  using context_adds by (intro advances_log persist_adds) (simp add: context_types_def)

lemma event_messages_world: "advances world_only (event_messages ms seqs es)"
proof (induction es arbitrary: ms seqs)
  case (Cons e es)
  have "advances world_only (read_event_message data raw)" for data raw
    unfolding read_event_message_def by (intro world_frame.advances_rules advances_if advances_decode)
  with Cons show ?case
    unfolding event_messages.simps
    by (auto intro!: world_frame.advances_rules split: jval.split option.split)
qed (simp add: world_frame.advances_retE)

lemma finallyT_steps: "steps_in R t \<Longrightarrow> steps_in R u \<Longrightarrow> steps_in R (finallyT t u)"
  unfolding finallyT_def by (intro loop_steps)

lemma close_stream_steps: "steps_in R (close_stream p)"
  unfolding close_stream_def by (intro loop_steps)

lemma last_response_steps: "steps_in R (last_response cs err response)"
proof (induction cs arbitrary: response)
  case (Cons c cs)
  then show ?case unfolding last_response.simps by (intro loop_steps)
qed (unfold last_response.simps, intro loop_steps)

lemma ask_compact_steps: "steps_in R (ask_compact_model cc g r)"
  unfolding ask_compact_model_def Let_def
  by (intro loop_steps finallyT_steps close_stream_steps last_response_steps turn_advances
      advances_world [OF advances_message_ids(2)])

lemma generate_steps: "steps_in R (generate_with cc g r)"
proof (cases g)
  case (ModelSummaryGenerator m)
  have "steps_in R (summarize_chunk cc m r)" for r
    unfolding summarize_chunk_def by (intro loop_steps ask_compact_steps turn_advances)
  then have "steps_in R (gatherT (map (summarize_chunk cc m) rs))" for rs
    by (intro gatherT_steps) auto
  then show ?thesis
    unfolding ModelSummaryGenerator generate_with.simps model_summary_def by (intro steps_in_bindT steps_in_basic)
qed (simp_all add: steps_in_basic externalT_steps)

lemma project_advances: "advances R (project_context_state cc pin)"
  unfolding project_context_state_def
  by (intro turn_advances advances_world [OF event_messages_world])

lemma compaction_pass_steps: "steps_in R (compaction_pass cc job indexes)"
  unfolding compaction_pass_def generate_summary_def Let_def context_state_to_message_def
  by (intro loop_steps generate_steps turn_advances project_advances advances_world [OF advances_message_ids(2)])

lemma compaction_loop_steps: "steps_in R (compaction_loop cc job n indexes)"
proof (induction indexes rule: measure_induct_rule [of length])
  case (less indexes)
  have "steps_in R (compaction_loop cc job n (tl indexes))" if "\<not> length indexes \<le> 1"
    using that by (intro less.IH) simp
  then show ?case
    by (subst compaction_loop.simps, intro steps_in_bindT [OF compaction_pass_steps])
      (auto simp: steps_in_basic)
qed

lemma compact_steps:
  assumes "\<And>k. advances R (read k)"
  shows "steps_in R (compact_compiled cc own compiled tools policy events (Some read) generator trigger)"
  unfolding compact_compiled_def compact_assembled_def Let_def read_event_delta_def option.case
  by (intro loop_steps compaction_loop_steps turn_advances assms)

lemma compact_context_steps: "steps_in R (compact_context crd compiled trigger)"
  unfolding compact_context_def by (rule compact_steps) (rule advances_log [OF read_events_adds])

lemma measure_steps: "steps_in R (measure_pressure cc p request capacity counter force_exact)"
  unfolding measure_pressure_def count_exactly_def Let_def
  by (intro loop_steps turn_advances)

lemma fit_context_steps: "steps_in R (fit_context crd tf ts compiled)"
  unfolding fit_context_def remeasured_def measure_turn_def
  by (intro loop_steps measure_steps compact_context_steps turn_advances)

lemma prepare_turn_steps: "steps_in R (prepare_turn crd tf recorded)"
  unfolding prepare_turn_def
  by (intro loop_steps setup_turn_advances compile_turn_advances fit_context_steps persist_advances)

lemma retry_smaller_steps: "steps_in R (retry_smaller crd tf ts recorded)"
  unfolding retry_smaller_def remeasured_def measure_turn_def
  by (intro loop_steps measure_steps compact_context_steps compile_turn_advances persist_advances
      turn_advances advances_log [OF refresh_adds])

lemma consume_chunks_steps: "steps_in R (consume_chunks rid cs err response)"
proof (induction cs arbitrary: response)
  case (Cons c cs)
  then show ?case
    unfolding consume_chunks.simps
    by (intro loop_steps check_cancel_advances advances_log [OF emit_chunk_adds])
qed (unfold consume_chunks.simps, intro loop_steps)

lemma ask_model_steps: "steps_in R (ask_model crd rid request)"
  unfolding ask_model_def consume_provider_def
  by (intro loop_steps emit_hook_steps finallyT_steps close_stream_steps consume_chunks_steps
      external_now_advances advances_world [OF advances_get_self])

end

section \<open>Whole runs\<close>

text \<open>The types of the events that end a run.\<close>

definition ending_types :: "string set" where
  "ending_types = {''run.completed'', ''run.failed'', ''run.interrupted''}"

text \<open>A recorder that appends events of certain types only, whatever it is told.\<close>

definition recorder_adds :: "string set \<Rightarrow> run_recorder \<Rightarrow> bool" where
  "recorder_adds T r \<longleftrightarrow> (\<forall>out n. ev_type ` set (fst (r out n)) \<subseteq> T)"

text \<open>What a run does around its loop: its recorders, its end and its handlers.\<close>

locale frame_order = turn_order R T
  for R :: "'z renv_scheme \<Rightarrow> 'z renv_scheme \<Rightarrow> bool" and T :: "string set" +
  fixes rid :: string and crd :: "'z coordinator"
  assumes frame_adds: "bookkeeping_types \<subseteq> T"
    and finish_step: "ty \<in> ending_types \<Longrightarrow> advances R (finish_run rid st ty data)"
    and recorders: "r \<in> set (crd_recorders crd) \<Longrightarrow> recorder_adds T r"
begin

lemma call_recorder_advances:
  assumes "recorder_adds T r"
  shows "advances R (call_recorder out r)"
  unfolding advances_def call_recorder_def Let_def split_beta
proof
  fix s :: "'z renv_scheme"
  have "advances R (mapE append_event (fst (r out n)))" for n
    using assms by (intro advances_mapE advances_log append_event_adds) (auto simp: recorder_adds_def)
  then have "advances R (bindE (mapE append_event (fst (r out n)))
      (\<lambda>_. case snd (r out n) of None \<Rightarrow> retE () | Some e \<Rightarrow> raiseE e))" for n
    by (intro advances_bindE advances_option advances_retE advances_raiseE)
  then have "R (s\<lparr>ext_calls := Suc (ext_calls s)\<rparr>)
      (snd (bindE (mapE append_event (fst (r out (ext_calls s))))
        (\<lambda>_. case snd (r out (ext_calls s)) of None \<Rightarrow> retE () | Some e \<Rightarrow> raiseE e)
        (s\<lparr>ext_calls := Suc (ext_calls s)\<rparr>)))"
    by (rule advances_at)
  with call_step show "R s (snd (bindE (mapE append_event (fst (r out (ext_calls s))))
        (\<lambda>_. case snd (r out (ext_calls s)) of None \<Rightarrow> retE () | Some e \<Rightarrow> raiseE e)
        (s\<lparr>ext_calls := Suc (ext_calls s)\<rparr>)))"
    by (rule step_trans)
qed

lemma record_outcome_advances: "advances R (record_outcome (crd_recorders crd) rid st response)"
proof -
  have "advances R (call_recorders out rs)" if "set rs \<subseteq> set (crd_recorders crd)" for out rs
    using that
  proof (induction rs)
    case (Cons r rs)
    then have "advances R (call_recorder out r)" by (intro call_recorder_advances recorders) simp
    with Cons show ?case unfolding call_recorders.simps by (intro turn_advances) auto
  qed (simp add: advances_retE)
  then show ?thesis unfolding record_outcome_def by (intro turn_advances) blast
qed

lemma emit_run_stopped_steps: "steps_in R (emit_run_stopped hooks i st ty error)"
  unfolding emit_run_stopped_def
  by (intro loop_steps emit_hook_steps advances_world [OF advances_get_self])

lemma get_machine_advances: "advances R get_machine"
  by (simp add: advances_def get_machine_def step_refl)

lemma frame_simps [simp]:
  "frame_hooks (coordinator_frame c) = coordinator_hooks c"
  "frame_recorders (coordinator_frame c) = crd_recorders c"
  by (simp_all add: coordinator_frame_def)

lemma repair_advances: "advances R (repair_orphan_tool_calls r excl)"
  using frame_adds by (intro advances_log repair_adds) (simp add: bookkeeping_types_def message_types_def)

lemma stop_run_steps:
  assumes "ty \<in> ending_types"
  shows "steps_in R (stop_run (coordinator_frame crd) rid target ty data hook_error error)"
proof -
  have "advances R (repair_after_interrupt rid)"
    unfolding repair_after_interrupt_def by (intro turn_advances repair_advances)
  then show ?thesis
    unfolding stop_run_def
    by (intro loop_steps turn_advances finish_step emit_run_stopped_steps get_machine_advances assms)
qed

lemma handle_run_error_steps: "steps_in R (handle_run_error (coordinator_frame crd) rid e)"
proof (cases e)
  case (RunSuspended a pending)
  have "advances R (suspend_run rid a pending)"
    unfolding suspend_run_def
    using frame_adds
    by (intro turn_advances get_machine_advances advances_log [OF append_new_adds])
      (simp add: bookkeeping_types_def)
  then show ?thesis by (simp add: handle_run_error_def RunSuspended steps_in_liftT)
next
  case (Exn c m)
  then show ?thesis by (simp add: handle_run_error_def stop_run_steps ending_types_def)
qed

end

locale whole_run = run_order R G init T rid "crd_tools crd" + frame_order R T rid crd
  for R G :: "'z renv_scheme \<Rightarrow> 'z renv_scheme \<Rightarrow> bool" and init :: "'z renv_scheme \<Rightarrow> bool"
    and T :: "string set" and rid :: string and crd :: "'z coordinator" +
  assumes usage_type: "''model.usage'' \<in> T"
begin

lemma commit_answer_advances: "advances R (commit_answer crd rid request response compiled)"
  by (intro advances_log commit_answer_adds usage_type bookkeeping_mem)

lemma upholds_prod: "(\<And>x y. upholds G R Q (f x y) s) \<Longrightarrow> upholds G R Q (case p of (x, y) \<Rightarrow> f x y) s"
  by (cases p) simp

lemma upholds_sum:
  "(\<And>e. upholds G R Q (h e) s) \<Longrightarrow> (\<And>x. upholds G R Q (f x) s) \<Longrightarrow>
   upholds G R Q (case v of Inl e \<Rightarrow> h e | Inr x \<Rightarrow> f x) s"
  by (cases v) simp_all

lemma execute_between_upholds:
  assumes "init s" and "tf_run tf = rid"
  shows "upholds G R anyhow (execute_between crd tf allow_inline calls) s"
  unfolding execute_between_def Let_def assms(2)
  by (intro upholds_rules upholds_m transition_step execute_upholds init_kept [OF assms(1)])

lemma run_turns_upholds:
  assumes "init s" and "tf_run tf = rid"
  shows "upholds G R anyhow (run_turns crd tf retry_used recorded turns pending) s"
  using assms(1)
proof (induction "(nat (tf_max_turns tf - turns), if retry_used then 0 else 1 :: nat)"
    arbitrary: s retry_used recorded turns pending rule: wf_induct_rule [OF wf_lex_prod [OF wf_less_than wf_less_than]])
  case 1
  have again: "upholds G R anyhow (run_turns crd tf True recorded' turns []) u"
    if "init u" "\<not> retry_used" for u recorded'
    using that by (intro 1(1)) auto
  have onward: "upholds G R anyhow (run_turns crd tf retry_used recorded' (turns + 1) []) u"
    if "init u" "\<not> tf_max_turns tf \<le> turns" for u recorded'
    using that by (intro 1(1)) auto
  note between = execute_between_upholds [OF _ assms(2)]
  note kept = init_kept [OF 1(2)]
  have turn: "upholds G R anyhow
      (bindT (prepare_turn crd tf recorded) (\<lambda>(ts, compiled, request, recorded').
        bindT (ask_model crd rid request) (\<lambda>answer. case answer of
            Inl e \<Rightarrow>
              (if retry_used then raiseT e
               else bindT (retry_smaller crd tf ts recorded')
                      (\<lambda>recorded''. run_turns crd tf True recorded'' turns []))
          | Inr response \<Rightarrow>
              thenT (liftT (commit_answer crd rid request response compiled))
              (if tool_calls (resp_message response) = [] then retT response
               else thenT (execute_between crd tf True (tool_calls (resp_message response)))
                      (run_turns crd tf retry_used recorded' (turns + 1) []))))) u"
    if u: "init u" and more: "\<not> tf_max_turns tf \<le> turns" for u
  proof (intro upholds_rules upholds_prod upholds_sum upholds_steps [OF prepare_turn_steps]
      upholds_steps [OF ask_model_steps] upholds_m [OF commit_answer_advances])
    fix ts compiled request recorded' answer e v w
    assume "G u v" "G v w"
    then have "init w" using u init_kept by blast
    then show "upholds G R anyhow (if retry_used then raiseT e
        else bindT (retry_smaller crd tf ts recorded')
          (\<lambda>recorded''. run_turns crd tf True recorded'' turns [])) w"
      using init_kept
      by (auto intro!: upholds_raiseT upholds_bindT [OF upholds_steps [OF retry_smaller_steps]] again)
  next
    fix ts compiled request recorded' answer response v w x
    assume "G u v" "G v w" "G w x"
    then have "init x" using u init_kept by blast
    then show "upholds G R anyhow (if tool_calls (resp_message response) = [] then retT response
        else thenT (execute_between crd tf True (tool_calls (resp_message response)))
          (run_turns crd tf retry_used recorded' (turns + 1) [])) x"
      using init_kept more
      by (auto intro!: upholds_ret upholds_thenT [OF between] onward)
  qed
  have pending: "upholds G R anyhow (if pending = [] then retT () else execute_between crd tf False pending) u"
    if "G s u" for u
    using kept [OF that] by (intro upholds_if upholds_ret between)
  have limit: "upholds G R anyhow (if tf_max_turns tf \<le> turns then raiseT (turn_limit (tf_max_turns tf)) else t) u"
    if "\<not> tf_max_turns tf \<le> turns \<Longrightarrow> upholds G R anyhow t u" for t :: "('z renv_scheme, model_response) task" and u
    using that by (auto intro: upholds_raiseT)
  show ?case
    by (subst run_turns.simps, unfold assms(2), intro upholds_thenT upholds_m [OF check_cancel_advances]
        upholds_m [OF advances_log [OF refresh_adds]] pending limit turn)
      (use kept rely_trans in \<open>meson\<close>)+
qed

lemma run_loop_upholds:
  assumes "init s" and "tf_run tf = rid"
  shows "upholds G R anyhow (run_loop crd tf suspended) s"
proof -
  have refs: "advances R (liftE (recorded_artifacts (ses_events x)))" for x
    by (rule advances_liftE)
  show ?thesis
    unfolding run_loop_def
    by (intro upholds_bindT [of anyhow] upholds_get_self upholds_m [OF refs] run_turns_upholds assms(2))
      (use assms(1) init_kept in \<open>meson\<close>)
qed

lemma run_body_upholds:
  assumes "init s" and "tf_run tf = rid"
  shows "upholds G R anyhow (run_body (coordinator_frame crd) rid resumed conf suspended (run_loop crd tf)) s"
proof -
  have ended: "advances R (thenE (record_outcome (crd_recorders crd) rid RunCompleted v)
      (finish_run rid RunCompleted ''run.completed'' []))" for v
    by (intro advances_thenE record_outcome_advances finish_step) (simp add: ending_types_def)
  show ?thesis
    unfolding run_body_def frame_simps
    by (intro upholds_bindT [of anyhow] upholds_thenT upholds_get_self upholds_steps [OF emit_hook_steps]
        upholds_m [OF transition_step] upholds_m [OF repair_advances] upholds_m [OF ended]
        upholds_steps [OF emit_run_stopped_steps] upholds_m [OF get_machine_advances]
        run_loop_upholds upholds_ret assms(2))
      (use init_kept assms(1) in \<open>meson\<close>)
qed

text \<open>Everything a run does after it has opened, to its last handler.\<close>

lemma opened_upholds:
  assumes "init s" and "tf_run tf = rid"
  shows "upholds G R anyhow (catchT
      (run_body (coordinator_frame crd) rid resumed conf suspended (run_loop crd tf))
      (handle_run_error (coordinator_frame crd) rid)) s"
  by (intro upholds_catchT run_body_upholds assms upholds_steps [OF handle_run_error_steps])

lemma run_respects:
  assumes opened: "open_run (coordinator_frame crd) cfg user_message run_id s = (Inr (rid, resumed, conf, suspended), s1)"
    and "init s1"
    and run: "run_task (coordinator_run crd cfg user_message run_id app) s = (r, t)"
  shows "R s1 t"
proof -
  have "run_task (catchT
      (run_body (coordinator_frame crd) rid resumed conf suspended (run_loop crd (turn_frame_of cfg app rid)))
      (handle_run_error (coordinator_frame crd) rid)) s1 = (r, t)"
    using run opened by (simp add: coordinator_run_def run_around_def run_task_rules bindE_def)
  then show ?thesis
    by (rule conjunct1 [OF upholds_run [OF opened_upholds [OF assms(2)], rotated]])
      (simp add: turn_frame_of_def)
qed

end

end
