(* ===== verification/Log_Orders.thy ===== *)
theory Log_Orders
  imports Run_Whole
begin

text \<open>
  Guarantees about the events a run adds. \<open>grows_by P\<close>: a session that agrees with its log still does,
  and what has been added to it is related by \<open>P\<close> to what was there. The locale \<open>log_order\<close> names what
  \<open>P\<close> has to satisfy; where it allows what runs themselves add (\<open>run_log_order\<close>), \<open>grows_by P\<close> is an order a whole run respects as soon as the dispatch of
  one tool call does.
\<close>

section \<open>Events added\<close>

definition grows_by :: "(event list \<Rightarrow> event list \<Rightarrow> bool) \<Rightarrow> 'z env_scheme \<Rightarrow> 'z env_scheme \<Rightarrow> bool" where
  "grows_by P s t \<longleftrightarrow> (synced s \<longrightarrow> synced t \<and> ses_id (self t) = ses_id (self s) \<and>
     (\<exists>es. ses_events (self t) = ses_events (self s) @ es \<and> P (ses_events (self s)) es))"

lemma grows_byD:
  assumes "grows_by P s t" "synced s"
  obtains es where "synced t" "ses_id (self t) = ses_id (self s)"
    "ses_events (self t) = ses_events (self s) @ es" "P (ses_events (self s)) es"
  using assms by (auto simp: grows_by_def)

lemma run_transition_eq:
  "run_transition rid target =
     bindE (machine_step target) (\<lambda>st.
     bindE (new_run_event ''run.state_changed'' rid [(''state'', JStr (state_value st))]) (\<lambda>e.
     bindE (append_event e) (\<lambda>_. retE ())))"
  by (simp add: run_transition_def transition_event_def bindE_assoc)

definition opening_types :: "string set" where
  "opening_types = message_types \<union> {''run.started'', ''run.resumed''}"

definition run_types :: "string set" where
  "run_types = bookkeeping_types \<union> context_types \<union> ending_types \<union> {''run.state_changed''}"

locale log_order =
  fixes P :: "event list \<Rightarrow> event list \<Rightarrow> bool" and T :: "string set"
  assumes adds_none: "P es []"
    and both: "P es fs \<Longrightarrow> P (es @ fs) gs \<Longrightarrow> P es (fs @ gs)"
    and harmless: "ev_type ` set fs \<subseteq> T \<Longrightarrow> P es fs"
    and opening_types: "opening_types \<subseteq> T"
begin

lemma grows_by_trans:
  assumes "grows_by P s t" "grows_by P t u"
  shows "grows_by P s u"
proof (cases "synced s")
  case True
  with assms(1) obtain es where s: "synced t" "ses_id (self t) = ses_id (self s)"
    "ses_events (self t) = ses_events (self s) @ es" "P (ses_events (self s)) es" by (rule grows_byD)
  from assms(2) s(1) obtain fs where "synced u" "ses_id (self u) = ses_id (self t)"
    "ses_events (self u) = ses_events (self t) @ fs" "P (ses_events (self t)) fs" by (rule grows_byD)
  with s both show ?thesis by (auto simp: grows_by_def)
qed (simp add: grows_by_def)

lemma grows_by_same: "self t = self s \<Longrightarrow> the_store t = the_store s \<Longrightarrow> grows_by P s t"
  using adds_none [of "ses_events (self s)"] by (simp add: grows_by_def synced_def)

lemma grows_by_adds: "log_adds T s t \<Longrightarrow> grows_by P s t"
  using harmless by (auto simp: log_adds_def grows_by_def)

lemma log_loop_order: "loop_order (grows_by P :: 'z renv_scheme \<Rightarrow> _)"
  by unfold_locales (auto intro: grows_by_same grows_by_trans)

lemma log_rely_guarantee: "rely_guarantee (grows_by P :: 'z renv_scheme \<Rightarrow> _) (grows_by P)"
  by unfold_locales (auto intro: grows_by_same grows_by_trans)

lemma log_step_order: "step_order (grows_by P :: 'z renv_scheme \<Rightarrow> _)"
  by unfold_locales (auto intro: grows_by_same grows_by_trans)

lemmas log_advances = step_order.advances_rules [OF log_step_order]

lemma adds_advances: "advances (log_adds T) m \<Longrightarrow> advances (grows_by P) m"
  by (erule advances_weaken) (rule grows_by_adds)

lemma machine_advances: "advances (grows_by P :: 'z renv_scheme \<Rightarrow> _) (machine_step st)"
  by (auto simp: advances_def machine_step_def grows_by_same split: sum.split)

lemma machine_reads: "advances (grows_by P :: 'z renv_scheme \<Rightarrow> _) get_machine"
  by (simp add: advances_def get_machine_def grows_by_same)

lemma made_advances:
  fixes f :: "'b \<Rightarrow> ('z renv_scheme, 'c) sm"
  assumes "advances (grows_by P) mk" and "\<And>s x s1. mk s = (Inr x, s1) \<Longrightarrow> Q x"
    and "\<And>x. Q x \<Longrightarrow> advances (grows_by P) (f x)"
  shows "advances (grows_by P) (bindE mk f)"
  unfolding advances_def
proof
  fix s :: "'z renv_scheme"
  show "grows_by P s (snd (bindE mk f s))"
  proof (rule advances_bind_at [where R = "grows_by P"])
    show "grows_by P s (snd (mk s))" by (rule advances_at [OF assms(1)])
    show "grows_by P s1 (snd (f x s1))" if "mk s = (Inr x, s1)" for x and s1 :: "'z renv_scheme"
      by (rule advances_at [OF assms(3) [OF assms(2) [OF that]]])
  qed (rule grows_by_trans)
qed

lemma opened_event:
  assumes "ev_type ` set es \<subseteq> T"
  shows "advances (log_adds T) (bindE (new_run_event (if b then ''run.started'' else ''run.resumed'') rid d) (\<lambda>e.
      bindE (append_many (es @ [e])) (\<lambda>_. retE x)))"
  using assms opening_types
  by (intro new_run_event_then_adds log_adds.advances_rules append_many_adds) (auto simp: opening_types_def)

lemma opening_events:
  "advances (log_adds T)
     (bindE (case user_message of None \<Rightarrow> retE []
             | Some m \<Rightarrow> bindE (message_event m (Some rid)) (\<lambda>e. retE [e])) (\<lambda>es.
      bindE (new_run_event (if b then ''run.started'' else ''run.resumed'') rid d) (\<lambda>e.
      bindE (append_many (es @ [e])) (\<lambda>_. retE x))))"
proof (rule made_event_adds [where P = "\<lambda>es. ev_type ` set es \<subseteq> T"])
  show "advances (log_adds T) (case user_message of None \<Rightarrow> retE []
      | Some m \<Rightarrow> bindE (message_event m (Some rid)) (\<lambda>e. retE [e]))"
    by (intro advances_option log_adds.advances_retE log_adds.advances_bindE message_event_adds)
  show "ev_type ` set es \<subseteq> T" if "(case user_message of None \<Rightarrow> retE []
      | Some m \<Rightarrow> bindE (message_event m (Some rid)) (\<lambda>e. retE [e])) s = (Inr es, s1)" for s s1 es
    using that opening_types
    by (auto simp: bindE_eq_Inr retE_def opening_types_def split: option.splits dest!: message_event_made)
qed (rule opened_event)

lemma admit_adds: "advances (log_adds T) (admit_run fr cfg user_message rid)"
proof -
  have known: "advances (log_adds T) (if b then retE () else case v of None \<Rightarrow> raiseE e | Some w \<Rightarrow> liftE (f w))"
    for b v e f
    by (intro advances_if advances_option log_adds.advances_rules)
  show ?thesis
    unfolding admit_run_def Let_def
    by (intro advances_if log_adds.advances_raiseE log_adds.advances_bindE [OF log_adds.advances_liftE]
        log_adds.advances_bindE [OF world_adds [OF advances_get_self]] log_adds.advances_bindE [OF known]
        opening_events)
qed

lemma log_open: "advances (grows_by P :: 'z renv_scheme \<Rightarrow> _) (open_run fr cfg user_message run_id)"
proof -
  note bind = step_order.advances_bindE [OF log_step_order]
  have lifted: "advances (grows_by P :: 'z renv_scheme \<Rightarrow> _) (liftE v)" for v :: "exn + 'b"
    by (rule step_order.advances_liftE [OF log_step_order])
  have fails: "advances (grows_by P :: 'z renv_scheme \<Rightarrow> _) (raiseE e :: ('z renv_scheme, 'b) sm)" for e
    by (rule step_order.advances_raiseE [OF log_step_order])
  have reset: "advances (grows_by P :: 'z renv_scheme \<Rightarrow> _) (modifyE (\<lambda>s. s\<lparr>machine := RunCreated\<rparr>))"
    by (simp add: advances_def modifyE_def grows_by_same)
  have ident: "advances (log_adds T) (case run_id of
      Some i \<Rightarrow> if i \<noteq> '''' then retE i else new_id ''run'' | None \<Rightarrow> new_id ''run'')"
    by (intro world_adds advances_option advances_if world_frame.advances_retE advances_new_id)
  show ?thesis
    unfolding open_run_def
    by (intro advances_if fails bind [OF lifted] bind [OF adds_advances [OF refresh_adds]]
        bind [OF adds_advances [OF ident]] bind [OF reset] adds_advances [OF admit_adds])
qed

text \<open>A run that opens does so in a new state machine.\<close>

lemma open_run_machine:
  assumes "open_run fr cfg user_message run_id s = (r, t)"
  shows "machine t = machine s \<or> machine t = RunCreated" "r = Inr x \<Longrightarrow> machine t = RunCreated"
proof -
  have keeps: "machine v = machine u" if "log_adds T u v" for u v :: "'a renv_scheme"
    using that more_machine [of v u] by (simp add: log_adds_def)
  note kept = keeps [OF advancesD [OF admit_adds]] keeps [OF advancesD [OF refresh_adds]]
  have ident: "machine v = machine u" if "(case run_id of
      Some i \<Rightarrow> if i \<noteq> '''' then retE i else new_id ''run'' | None \<Rightarrow> new_id ''run'') u = (q, v)"
    for q and u v :: "'a renv_scheme"
    using that world_only_same [OF advancesD [OF advances_new_id]]
    by (auto simp: retE_def split: option.splits if_splits)
  show "machine t = machine s \<or> machine t = RunCreated" "r = Inr x \<Longrightarrow> machine t = RunCreated"
    using assms
    by (auto simp: open_run_def bindE_def modifyE_def liftE_def raiseE_def retE_def split: if_splits sum.splits prod.splits
        dest!: kept ident)
qed

end

locale run_log_order = log_order P T
  for P :: "event list \<Rightarrow> event list \<Rightarrow> bool" and T :: "string set" +
  assumes run_types: "run_types \<subseteq> T"
begin

lemma type_in: "ty \<in> run_types \<Longrightarrow> ty \<in> T"
  using run_types by blast

lemma log_turn_order: "turn_order (grows_by P :: 'z renv_scheme \<Rightarrow> _) T"
  by unfold_locales
    (use run_types in \<open>auto intro: grows_by_same grows_by_trans grows_by_adds simp: run_types_def\<close>)

lemma log_transition: "advances (grows_by P :: 'z renv_scheme \<Rightarrow> _) (run_transition rid st)"
proof -
  have "advances (grows_by P) (bindE (new_run_event ''run.state_changed'' rid d) (\<lambda>e.
      bindE (append_event e) (\<lambda>_. retE ())))" for d
    by (intro adds_advances new_run_event_then_adds log_adds.advances_rules append_event_adds)
      (simp add: type_in run_types_def)
  then show ?thesis
    unfolding run_transition_eq
    by (intro step_order.advances_bindE [OF log_step_order machine_advances])
qed

lemma transition_event_made:
  "transition_event rid st s = (Inr e, s1) \<Longrightarrow> ev_type e = ''run.state_changed''"
  by (auto simp: transition_event_def bindE_eq_Inr dest: new_run_event_made)

lemma log_finish:
  assumes "ty \<in> ending_types"
  shows "advances (grows_by P :: 'z renv_scheme \<Rightarrow> _) (finish_run rid st ty data)"
proof -
  note bind = step_order.advances_bindE [OF log_step_order]
  have world: "advances (grows_by P :: 'z renv_scheme \<Rightarrow> _) m" if "advances world_only m"
    for m :: "('z renv_scheme, 'b) sm"
    using that by (intro adds_advances world_adds)
  have moved: "advances (grows_by P :: 'z renv_scheme \<Rightarrow> _) (transition_event rid st)"
    unfolding transition_event_def by (intro bind machine_advances world new_run_event_world)
  have told: "advances (grows_by P :: 'z renv_scheme \<Rightarrow> _)
      (bindE get_machine (\<lambda>now. bindE (new_run_event ty rid (d now)) (\<lambda>e.
        bindE (append_many (es @ [e])) (\<lambda>_. retE ()))))"
    if "ev_type ` set es \<subseteq> T" for es d
    using that assms
    by (intro bind [OF machine_reads] adds_advances new_run_event_then_adds log_adds.advances_rules append_many_adds)
      (auto simp: type_in run_types_def)
  have "advances (grows_by P :: 'z renv_scheme \<Rightarrow> _) (bindE (transition_event rid st) (\<lambda>e.
      bindE get_machine (\<lambda>now. bindE (new_run_event ty rid (d now)) (\<lambda>f.
        bindE (append_many ([e] @ [f])) (\<lambda>_. retE ())))))" for d
    by (rule made_advances [where Q = "\<lambda>e. ev_type e = ''run.state_changed''", OF moved transition_event_made])
      (auto intro!: told [of "[_]", simplified] simp: type_in run_types_def)
  with told [of "[]"] show ?thesis
    unfolding finish_run_def
    by (intro bind [OF machine_reads]) (simp add: bindE_assoc)
qed

text \<open>A run respects the order if its dispatches do.\<close>

lemma log_run_order:
  assumes "\<And>call require_lease app s. synced s \<Longrightarrow>
      upholds (grows_by P) (grows_by P) anyhow (dispatch_call co rid call require_lease app) s"
  shows "run_order (grows_by P :: 'z renv_scheme \<Rightarrow> _) (grows_by P) synced T rid co"
  by (intro run_order.intro run_order_axioms.intro log_loop_order log_rely_guarantee assms
      grows_by_adds log_transition)
    (use run_types in \<open>auto simp: run_types_def grows_by_def\<close>)

lemma log_frame_order:
  assumes "\<And>r. r \<in> set (crd_recorders crd) \<Longrightarrow> recorder_adds T r"
  shows "frame_order (grows_by P :: 'z renv_scheme \<Rightarrow> _) T rid crd"
  by (intro frame_order.intro frame_order_axioms.intro log_turn_order log_finish assms)
    (use run_types in \<open>auto simp: run_types_def\<close>)

lemma log_whole_run:
  assumes "\<And>call require_lease app s. synced s \<Longrightarrow>
      upholds (grows_by P) (grows_by P) anyhow (dispatch_call (crd_tools crd) rid call require_lease app) s"
    and "''model.usage'' \<in> T" and "\<And>r. r \<in> set (crd_recorders crd) \<Longrightarrow> recorder_adds T r"
  shows "whole_run (grows_by P :: 'z renv_scheme \<Rightarrow> _) (grows_by P) synced T rid crd"
  by (intro whole_run.intro whole_run_axioms.intro log_run_order log_frame_order assms)

text \<open>The whole of \<^verbatim>\<open>run\<close> and of \<^verbatim>\<open>resume\<close>.\<close>

lemma log_run:
  assumes whole: "\<And>rid. whole_run (grows_by P :: 'z renv_scheme \<Rightarrow> _) (grows_by P) synced T rid crd"
    and sync: "synced s" and run: "run_task (coordinator_run crd cfg user_message run_id app) s = (r, t)"
  shows "grows_by P s t"
proof -
  obtain v s1 where opens: "open_run (coordinator_frame crd) cfg user_message run_id s = (v, s1)"
    by (cases "open_run (coordinator_frame crd) cfg user_message run_id s")
  have s1: "grows_by P s s1" by (rule advancesD [OF log_open opens])
  show ?thesis
  proof (cases v)
    case (Inl e)
    then have "t = s1"
      using run opens by (simp add: coordinator_run_def run_around_def run_task_rules bindE_def)
    with s1 show ?thesis by simp
  next
    case (Inr x)
    then obtain rid resumed conf suspended where x: "v = Inr (rid, resumed, conf, suspended)"
      by (cases x) auto
    have "synced s1" using s1 sync by (auto elim: grows_byD)
    then have "grows_by P s1 t"
      using whole_run.run_respects [OF whole] opens run unfolding x by blast
    with s1 show ?thesis by (rule grows_by_trans)
  qed
qed

lemma log_resume:
  assumes whole: "\<And>rid. whole_run (grows_by P :: 'z renv_scheme \<Rightarrow> _) (grows_by P) synced T rid crd"
    and sync: "synced s" and run: "run_task (coordinator_resume crd rid ovr app) s = (r, t)"
  shows "grows_by P s t"
proof -
  let ?cfg = "\<lambda>s1. resume_run_configuration (sha256_hex (cc_files (crd_codec crd))) (crd_max_turns crd)
      (ses_events (self s1)) rid ovr"
  obtain v s1 where fresh: "refresh s = (v, s1)" by (cases "refresh s")
  have s1: "grows_by P s s1" by (rule advancesD [OF adds_advances [OF refresh_adds] fresh])
  have "t = s1 \<or> (\<exists>cfg. run_task (coordinator_run crd cfg None (Some rid) app) s1 = (r, t))"
    using run fresh
    by (cases v; cases "?cfg s1")
      (auto simp: coordinator_resume_def run_task_rules bindE_def get_self_def liftE_def raiseE_def retE_def)
  moreover have "synced s1" using s1 sync by (auto elim: grows_byD)
  ultimately show ?thesis using s1 log_run [OF whole] grows_by_trans by blast
qed

end

end
