(* ===== verification/Run_Promises.thy ===== *)
theory Run_Promises
  imports Log_Orders
begin

text \<open>
  What holds of a whole run, \<^verbatim>\<open>RunCoordinator.run\<close>, whatever its tools, hooks, provider, resolver and
  recorders answer: no tool starts without a recorded decision that allows it, the recorded calls of
  the model never exceed \<^verbatim>\<open>max_turns\<close>, and the recorded states are a path of the state machine.
\<close>

section \<open>Tools start when they are allowed\<close>

text \<open>The event records that this call of this run may go ahead.\<close>

definition allows_call :: "string option \<Rightarrow> jval \<Rightarrow> event \<Rightarrow> bool" where
  "allows_call run call e \<longleftrightarrow>
     ev_type e = ''policy.decided'' \<and> ev_run e = run \<and>
     get_or_none (ev_data e) ''tool_call_id'' = call \<and>
     get_or_none (ev_data e) ''effect'' = JStr (effect_value Allow)"

text \<open>Every start among the added events comes after an event that allows its call.\<close>

fun starts_justified :: "event list \<Rightarrow> event list \<Rightarrow> bool" where
  "starts_justified es [] = True"
| "starts_justified es (e # fs) \<longleftrightarrow>
     (ev_type e = ''tool.started'' \<longrightarrow>
        (\<exists>d \<in> set es. allows_call (ev_run e) (get_or_none (ev_data e) ''tool_call_id'') d)) \<and>
     starts_justified (es @ [e]) fs"

lemma starts_append: "starts_justified es fs \<Longrightarrow> starts_justified (es @ fs) gs \<Longrightarrow> starts_justified es (fs @ gs)"
  by (induction es fs rule: starts_justified.induct) simp_all

lemma no_starts: "ev_type ` set fs \<subseteq> - {''tool.started''} \<Longrightarrow> starts_justified es fs"
proof (induction es fs rule: starts_justified.induct)
  case (2 es e fs)
  then have "ev_type e \<noteq> ''tool.started''" by auto
  with 2 show ?case by simp
qed simp

interpretation starts: run_log_order starts_justified "- {''tool.started''}"
  by unfold_locales
    (auto intro: starts_append no_starts simp: run_types_def bookkeeping_types_def message_types_def
      context_types_def ending_types_def opening_types_def)

interpretation starts: loop_order "grows_by starts_justified :: 'z renv_scheme \<Rightarrow> _"
  by (rule starts.log_loop_order)

interpretation starts: rely_guarantee "grows_by starts_justified :: 'z renv_scheme \<Rightarrow> _"
    "grows_by starts_justified"
  by (rule starts.log_rely_guarantee)

text \<open>The log has a decision that allows the call; it goes on having one.\<close>

definition allowed_call :: "string \<Rightarrow> string \<Rightarrow> 'z env_scheme \<Rightarrow> bool" where
  "allowed_call rid cid s \<longleftrightarrow> synced s \<and> (\<exists>d \<in> set (ses_events (self s)). allows_call (Some rid) (JStr cid) d)"

lemma allowed_kept: "allowed_call rid cid s \<Longrightarrow> grows_by P s t \<Longrightarrow> allowed_call rid cid t"
  by (auto simp: allowed_call_def elim!: grows_byD)

lemma synced_kept: "synced s \<Longrightarrow> grows_by P s t \<Longrightarrow> synced t"
  by (auto elim: grows_byD)

text \<open>Appending one event, whether it returns or raises.\<close>

lemma append_new_at:
  assumes run: "append_new ty rid data s = (r, s')" and sync: "synced s"
  obtains es where "synced s'" "ses_id (self s') = ses_id (self s)" "ses_events (self s') = ses_events (self s) @ es"
    "\<And>e. e \<in> set es \<Longrightarrow> ev_type e = ty \<and> ev_run e = rid \<and> ev_data e = data" "length es \<le> 1"
    "es \<noteq> [] \<or> (\<exists>y. r = Inl y)"
proof -
  obtain q s1 where ev: "new_event ty (ses_id (self s)) rid data s = (q, s1)"
    by (cases "new_event ty (ses_id (self s)) rid data s")
  have same: "self s1 = self s" "the_store s1 = the_store s"
    using advancesD [OF advances_new_event ev] by (auto simp: world_only_def)
  then have sync1: "synced s1" using sync by (simp add: synced_def)
  show thesis
  proof (cases q)
    case (Inl y)
    then have "r = Inl y" "s' = s1"
      using run ev by (auto simp: append_new_def get_self_def bindE_def)
    with same sync1 show thesis by (intro that [of "[]"]) simp_all
  next
    case (Inr e0)
    then have e0: "ev_type e0 = ty" "ev_run e0 = rid" "ev_data e0 = data"
      using ev by (auto simp: new_event_def bindE_eq_Inr retE_def)
    obtain q' s2 where app: "append_many [e0] s1 = (q', s2)" by (cases "append_many [e0] s1")
    then have r: "s' = s2" "\<And>ps. q' = Inr ps \<Longrightarrow> r = Inr (hd ps)" "\<And>y. q' = Inl y \<Longrightarrow> r = Inl y"
      using run ev Inr by (auto simp: append_new_def append_event_def get_self_def bindE_def retE_def split: sum.splits)
    show thesis
    proof (rule append_many_cases [OF app sync1])
      fix y assume "q' = Inl y" "self s2 = self s1" "the_store s2 = the_store s1"
      then show thesis using r same sync1 by (intro that [of "[]"]) (simp_all add: synced_def)
    next
      fix ps assume "ps = numbered (ses_head (self s1)) [e0]" "synced s2"
        "ses_id (self s2) = ses_id (self s1)" "ses_events (self s2) = ses_events (self s1) @ ps"
      then show thesis using r same e0
        by (intro that [of ps]) (auto simp: numbered_Cons persisted_simps)
    qed
  qed
qed

text \<open>The sink of the coordinator.\<close>

definition sink_append :: "string \<Rightarrow> string \<Rightarrow> jobj \<Rightarrow> ('z env_scheme, unit) sm" where
  "sink_append rid name data = bindE (append_new name (Some rid) data) (\<lambda>_. retE ())"

lemma sink_append_at:
  assumes "sink_append rid name data s = (r, s')" and "synced s"
  obtains es where "synced s'" "ses_id (self s') = ses_id (self s)" "ses_events (self s') = ses_events (self s) @ es"
    "\<And>e. e \<in> set es \<Longrightarrow> ev_type e = name \<and> ev_run e = Some rid \<and> ev_data e = data" "length es \<le> 1"
    "r = Inr () \<Longrightarrow> es \<noteq> []"
proof -
  obtain q t where app: "append_new name (Some rid) data s = (q, t)" by (cases "append_new name (Some rid) data s")
  then have "s' = t" "\<And>y. q = Inl y \<Longrightarrow> r = Inl y"
    using assms(1) by (auto simp: sink_append_def bindE_def retE_def split: sum.splits)
  with append_new_at [OF app assms(2)] that show thesis by (metis sum.distinct(1))
qed

lemma sink_told: "name \<noteq> ''tool.started'' \<Longrightarrow> advances (grows_by starts_justified) (sink_append rid name data)"
  unfolding sink_append_def by (intro starts.adds_advances sink_adds) simp

lemma sink_decided:
  assumes "sink_append rid ''policy.decided'' data s = (Inr (), t)" and "synced s"
    and "get_or_none data ''tool_call_id'' = JStr cid" and "get_or_none data ''effect'' = JStr (effect_value Allow)"
  shows "allowed_call rid cid t"
  using assms(3,4)
  by (rule_tac sink_append_at [OF assms(1,2)])
    (auto simp: allowed_call_def allows_call_def neq_Nil_conv)

lemma sink_started:
  assumes "allowed_call rid cid s" and "get_or_none data ''tool_call_id'' = JStr cid"
  shows "grows_by starts_justified s (snd (sink_append rid ''tool.started'' data s))"
proof -
  have sync: "synced s" using assms(1) by (simp add: allowed_call_def)
  obtain r t where run: "sink_append rid ''tool.started'' data s = (r, t)"
    by (cases "sink_append rid ''tool.started'' data s")
  obtain es where es: "synced t" "ses_id (self t) = ses_id (self s)" "ses_events (self t) = ses_events (self s) @ es"
    "\<And>e. e \<in> set es \<Longrightarrow> ev_run e = Some rid \<and> ev_data e = data" "length es \<le> 1"
    using sink_append_at [OF run sync] by metis
  then have "es = [] \<or> (\<exists>e. es = [e] \<and> ev_run e = Some rid \<and> ev_data e = data)"
    by (cases es) auto
  then have "starts_justified (ses_events (self s)) es"
    using assms by (auto simp: allowed_call_def)
  with es run show ?thesis by (auto simp: grows_by_def)
qed

lemma append_tool_event_eq: "append_tool_event rid name data = liftT (sink_append rid name data)"
  by (simp add: append_tool_event_def sink_append_def)

lemma call_fields_get:
  "get_or_none (call_fields call @ d) ''tool_call_id'' = JStr (call_id call)"
  "get_or_none (call_fields call @ decision_to_dict dc) ''effect'' = JStr (effect_value (dec_effect dc))"
  by (simp_all add: call_fields_def decision_to_dict_def)

abbreviation (input) "justified \<equiv> upholds (grows_by starts_justified) (grows_by starts_justified) anyhow"

lemma told_justified:
  "name \<noteq> ''tool.started'' \<Longrightarrow> justified (emit_to (Some (append_tool_event rid)) name data) s"
  unfolding emit_to_def append_tool_event_eq option.case
  by (intro starts.upholds_steps steps_in_liftT sink_told)

lemma reject_justified: "justified (reject_call (Some (append_tool_event rid)) call code content) s"
  unfolding reject_call_def
  by (intro starts.upholds_rules told_justified) (simp_all add: starts.upholds_retT)

lemma allowed_justified:
  assumes "allowed_call rid (call_id call) s"
  shows "justified (dispatch_allowed dsp tool call prepared ctx g d (Some (append_tool_event rid))) s"
proof -
  have started: "justified (emit_to (Some (append_tool_event rid)) ''tool.started''
      (call_fields call @ data)) s" for data
    unfolding emit_to_def append_tool_event_eq option.case
    by (intro starts.upholds_liftT sink_started [OF allowed_kept [OF assms]] call_fields_get) simp_all
  show ?thesis
    unfolding dispatch_allowed_def
    by (intro starts.upholds_thenT starts.upholds_bindT [of anyhow] started told_justified
        starts.upholds_steps [OF starts.run_allowed_steps] starts.upholds_retT) simp_all
qed

lemma decided_justified:
  assumes "synced s"
  shows "justified (dispatch_decided dsp tool call prepared ctx permission (Some (append_tool_event rid)) d) s"
proof (cases "dec_effect d = Allow")
  case True
  let ?payload = "call_fields call @ decision_to_dict d"
  have "upholds (grows_by starts_justified) (grows_by starts_justified)
      (\<lambda>_. allowed_call rid (call_id call)) (liftT (sink_append rid ''policy.decided'' ?payload)) s"
  proof (intro starts.upholds_liftT)
    show "grows_by starts_justified u (snd (sink_append rid ''policy.decided'' ?payload u))" for u :: "'a renv_scheme"
      by (rule advances_at [OF sink_told]) simp
    show "allowed_call rid (call_id call) v"
      if "grows_by starts_justified s u" "fst (sink_append rid ''policy.decided'' ?payload u) = Inr x"
        "grows_by starts_justified (snd (sink_append rid ''policy.decided'' ?payload u)) v" for u v :: "'a renv_scheme" and x
    proof (rule allowed_kept [OF sink_decided that(3)])
      show "sink_append rid ''policy.decided'' ?payload u = (Inr (), snd (sink_append rid ''policy.decided'' ?payload u))"
        using that(2) by (simp add: prod_eq_iff)
      show "synced u" using assms that(1) by (rule synced_kept)
    qed (simp_all add: call_fields_get True)
  qed
  then show ?thesis
    unfolding dispatch_decided_def Let_def emit_to_def append_tool_event_eq option.case thenT_def
    by (elim starts.upholds_bindT, intro starts.upholds_bindT [OF starts.upholds_steps [OF starts.emit_hook_steps]])
      (simp add: True allowed_justified allowed_kept append_tool_event_eq [symmetric])
next
  case False
  then show ?thesis
    unfolding dispatch_decided_def Let_def
    by (intro starts.upholds_thenT told_justified starts.upholds_steps [OF starts.emit_hook_steps])
      (simp_all add: starts.upholds_retT)
qed

lemma dispatch_justified:
  assumes "policy_reads_only (co_dispatcher co)" and "synced s"
  shows "justified (dispatch_call co rid call require_lease app) s"
proof -
  have world: "advances (grows_by starts_justified) m" if "advances world_only m" for m :: "('a renv_scheme, 'b) sm"
    using that by (intro starts.adds_advances world_adds)
  have policy: "advances (grows_by starts_justified) (dsp_policy (co_dispatcher co) spec inp c)" for spec inp c
    using assms(1) by (intro world) (simp add: policy_reads_only_def)
  have found: "justified (dispatch_found (co_dispatcher co) tool call ctx permission (Some (append_tool_event rid))) u"
    if "synced u" for tool ctx permission u
  proof -
    have "justified (dispatch_prepared (co_dispatcher co) tool call prepared ctx permission
        (Some (append_tool_event rid))) u" for prepared
      unfolding dispatch_prepared_def
      by (intro starts.upholds_bindT [OF starts.upholds_steps [OF steps_in_liftT [OF policy]]] decided_justified
          synced_kept [OF that])
    then show ?thesis
      unfolding dispatch_found_def
      by (auto simp: reject_justified starts.upholds_raiseT split: sum.split option.split)
  qed
  have "justified (dispatch (co_dispatcher co) call ctx permission (Some (append_tool_event rid))) u"
    if "synced u" for ctx permission u
    unfolding dispatch_def
    by (intro starts.upholds_thenT told_justified)
      (auto simp: reject_justified split: option.split intro!: found synced_kept [OF that])
  then show ?thesis
    unfolding dispatch_call_def
    by (intro starts.upholds_bindT [OF starts.upholds_steps [OF steps_in_liftT [OF world [OF call_permission_world]]]]
        starts.upholds_bindT [OF starts.upholds_steps [OF steps_in_liftT [OF world [OF advances_get_self]]]])
      (meson synced_kept assms(2))
qed

text \<open>A coordinator whose policy engine only reads and whose recorders append no event of these types.\<close>

definition well_behaved :: "string set \<Rightarrow> 'z coordinator \<Rightarrow> bool" where
  "well_behaved X crd \<longleftrightarrow> policy_reads_only (co_dispatcher (crd_tools crd)) \<and>
     (\<forall>r \<in> set (crd_recorders crd). recorder_adds (- X) r)"

lemma starts_whole:
  "well_behaved {''tool.started''} crd \<Longrightarrow>
   whole_run (grows_by starts_justified) (grows_by starts_justified) synced (- {''tool.started''}) rid crd"
  by (intro starts.log_whole_run dispatch_justified) (simp_all add: well_behaved_def)

lemmas starts_run = starts.log_run [OF starts_whole] starts.log_resume [OF starts_whole]

text \<open>The harness's own coordinator: the default engine, and no recorder.\<close>

definition default_coordinator ::
  "'z coordinator \<Rightarrow> tool_registry \<Rightarrow> hook_bus \<Rightarrow> approval_resolver \<Rightarrow> int option \<Rightarrow> int \<Rightarrow> 'z coordinator" where
  "default_coordinator crd registry hooks resolver approval_ttl lease_ttl =
     crd\<lparr>crd_tools := default_runtime registry hooks resolver approval_ttl lease_ttl, crd_recorders := []\<rparr>"

lemma default_well_behaved: "well_behaved X (default_coordinator crd registry hooks resolver ttl lease)"
  by (simp add: well_behaved_def default_coordinator_def default_runtime_reads)

interpretation default_starts: whole_run "grows_by starts_justified" "grows_by starts_justified" synced
    "- {''tool.started''}" rid "default_coordinator crd registry hooks resolver ttl lease"
  for rid crd registry hooks resolver ttl lease
  by (intro starts_whole default_well_behaved)

section \<open>Model calls are bounded\<close>

definition usage_free :: "event list \<Rightarrow> event list \<Rightarrow> bool" where
  "usage_free es fs \<longleftrightarrow> ''model.usage'' \<notin> ev_type ` set fs"

interpretation usage: run_log_order usage_free "- {''model.usage''}"
  by unfold_locales
    (auto simp: usage_free_def run_types_def bookkeeping_types_def message_types_def
      context_types_def ending_types_def opening_types_def)

interpretation usage: turn_order "grows_by usage_free :: 'z renv_scheme \<Rightarrow> _" "- {''model.usage''}"
  by (rule usage.log_turn_order)

lemma usage_run_order:
  assumes "policy_reads_only (co_dispatcher co)"
  shows "run_order (grows_by usage_free :: 'z renv_scheme \<Rightarrow> _) (grows_by usage_free) synced (- {''model.usage''}) rid co"
proof (rule usage.log_run_order)
  show "upholds (grows_by usage_free) (grows_by usage_free) anyhow (dispatch_call co rid call require_lease app) s"
    for call require_lease app and s :: "'z renv_scheme"
    by (intro rely_guarantee.upholds_steps [OF usage.log_rely_guarantee] usage.grows_by_adds assms
        usage.dispatch_call_steps [where T = "- {''model.usage''}"]) (simp_all add: stage_types_def)
qed

lemma model_calls_append: "model_calls (es @ fs) rid = model_calls es rid + model_calls fs rid"
  by (simp add: model_calls_def)

lemma model_calls_free: "usage_free es fs \<Longrightarrow> model_calls fs rid = 0"
  by (force simp: model_calls_def usage_free_def filter_empty_conv)

text \<open>The session agrees with its log and has recorded at most \<open>n\<close> calls of the run.\<close>

definition at_most :: "string \<Rightarrow> int \<Rightarrow> 'z env_scheme \<Rightarrow> bool" where
  "at_most rid n s \<longleftrightarrow> synced s \<and> model_calls (ses_events (self s)) rid \<le> n"

lemma at_most_mono: "at_most rid m s \<Longrightarrow> m \<le> n \<Longrightarrow> at_most rid n s"
  by (simp add: at_most_def)

lemma at_most_free: "at_most rid n s \<Longrightarrow> grows_by usage_free s t \<Longrightarrow> at_most rid n t"
  by (auto simp: at_most_def model_calls_append model_calls_free elim!: grows_byD)

abbreviation (input) "frees \<equiv> upholds (grows_by usage_free) (grows_by usage_free) anyhow"

lemma frees_steps: "steps_in (grows_by usage_free) t \<Longrightarrow> frees t (s :: 'z renv_scheme)"
  by (rule rely_guarantee.upholds_steps [OF usage.log_rely_guarantee])

lemma frees_m: "advances (grows_by usage_free) m \<Longrightarrow> frees (liftT m) (s :: 'z renv_scheme)"
  by (intro frees_steps steps_in_liftT)

lemma at_most_bind:
  fixes s :: "'z renv_scheme"
  assumes "at_most rid n s" and "frees m s" and "n \<le> N"
    and "\<And>x u. at_most rid n u \<Longrightarrow> at_most rid N (snd (run_task (f x) u))"
  shows "at_most rid N (snd (run_task (bindT m f) s))"
proof -
  obtain r u where run: "run_task m s = (r, u)" by (cases "run_task m s")
  have "grows_by usage_free s u"
    using rely_guarantee.upholds_run [OF usage.log_rely_guarantee assms(2) run] by blast
  then have "at_most rid n u" by (rule at_most_free [OF assms(1)])
  then show ?thesis
    using assms(3,4) by (cases r) (auto simp: run_task_rules bindE_def run at_most_mono)
qed

lemma at_most_then:
  fixes s :: "'z renv_scheme"
  shows "at_most rid n s \<Longrightarrow> frees m s \<Longrightarrow> n \<le> N \<Longrightarrow>
   (\<And>u. at_most rid n u \<Longrightarrow> at_most rid N (snd (run_task t u))) \<Longrightarrow>
   at_most rid N (snd (run_task (thenT m t) s))"
  unfolding thenT_def by (rule at_most_bind)

lemma model_calls_numbered: "model_calls (numbered n es) rid = model_calls es rid"
  by (induction es arbitrary: n) (simp_all add: model_calls_def numbered_Cons persisted_simps)

lemma commit_counts:
  assumes "at_most rid n s"
  shows "at_most rid (n + 1) (snd (commit_answer crd rid request response compiled s))"
proof -
  obtain r t where run: "commit_answer crd rid request response compiled s = (r, t)"
    by (cases "commit_answer crd rid request response compiled s")
  obtain q s1 where used: "usage_event crd rid request response compiled s = (q, s1)"
    by (cases "usage_event crd rid request response compiled s")
  have "advances world_only (usage_event crd rid request response compiled :: ('a renv_scheme, event) sm)"
    unfolding usage_event_def by (intro world_frame.advances_rules advances_option new_run_event_world)
  from advancesD [OF this used] have s1: "at_most rid n s1"
    using assms world_only_same [of s s1] by (auto simp: at_most_def synced_def)
  show ?thesis
  proof (cases q)
    case (Inl e)
    then show ?thesis using run used at_most_mono [OF s1] by (simp add: commit_answer_def bindE_def)
  next
    case (Inr u)
    obtain q' s2 where answer: "message_event (resp_message response) (Some rid) s1 = (q', s2)"
      by (cases "message_event (resp_message response) (Some rid) s1")
    have "advances world_only (message_event m r' :: ('a renv_scheme, event) sm)" for m r'
      unfolding message_event_def by (intro world_frame.advances_rules world_advances)
    from advancesD [OF this answer] have s2: "at_most rid n s2"
      using s1 world_only_same [of s1 s2] by (auto simp: at_most_def synced_def)
    show ?thesis
    proof (cases q')
      case (Inl e)
      then show ?thesis using run used answer Inr at_most_mono [OF s2] by (simp add: commit_answer_def bindE_def)
    next
      case a: (Inr a)
      have "ev_type a \<noteq> ''model.usage''"
        using message_event_made answer a by (fastforce simp: message_types_def)
      then have one: "model_calls [u, a] rid \<le> 1" by (simp add: model_calls_def)
      obtain q'' s3 where app: "append_many [u, a] s2 = (q'', s3)" by (cases "append_many [u, a] s2")
      have "at_most rid (n + 1) s3"
      proof (rule append_many_cases [OF app])
        show "synced s2" using s2 by (simp add: at_most_def)
        fix ps assume "ps = numbered (ses_head (self s2)) [u, a]" "synced s3"
          "ses_events (self s3) = ses_events (self s2) @ ps"
        then show ?thesis using s2 one by (simp add: at_most_def model_calls_append model_calls_numbered)
      qed (use s2 in \<open>simp add: at_most_def synced_def\<close>)
      then show ?thesis
        using run used answer Inr a app by (cases q'') (auto simp: commit_answer_def bindE_def retE_def)
    qed
  qed
qed

lemma execute_frees:
  assumes "policy_reads_only (co_dispatcher (crd_tools crd))" and "synced s" and "tf_run tf = rid"
  shows "frees (execute_between crd tf allow_inline calls) (s :: 'z renv_scheme)"
proof -
  have kept: "synced u" if "grows_by usage_free s u" for u :: "'z renv_scheme"
    using assms(2) that by (rule synced_kept)
  show ?thesis
    unfolding execute_between_def Let_def
    by (intro rely_guarantee.upholds_thenT [OF usage.log_rely_guarantee] frees_m usage.log_transition
        run_order.execute_upholds [OF usage_run_order] kept assms(1))
      (simp add: kept assms(3))
qed

lemma run_turns_counts:
  fixes s :: "'z renv_scheme"
  assumes "policy_reads_only (co_dispatcher (crd_tools crd))" and "tf_run tf = rid" and "at_most rid turns s"
  shows "at_most rid (max turns (tf_max_turns tf)) (snd (run_task (run_turns crd tf retry_used recorded turns pending) s))"
  using assms(3)
proof (induction "(nat (tf_max_turns tf - turns), if retry_used then 0 else 1 :: nat)"
    arbitrary: s retry_used recorded turns pending rule: wf_induct_rule [OF wf_lex_prod [OF wf_less_than wf_less_than]])
  case 1
  let ?N = "max turns (tf_max_turns tf)"
  have again: "at_most rid ?N (snd (run_task (run_turns crd tf True recorded' turns []) u))"
    if "at_most rid turns u" "\<not> retry_used" for u recorded'
    using that by (intro 1(1)) auto
  have onward: "at_most rid ?N (snd (run_task (run_turns crd tf retry_used recorded' (turns + 1) []) u))"
    if "at_most rid (turns + 1) u" "\<not> tf_max_turns tf \<le> turns" for u recorded'
    using 1(1) [of "turns + 1" retry_used u recorded' "[]"] that by (auto simp: max_def split: if_splits)
  have between: "frees (execute_between crd tf b calls) u" if "at_most rid n u" for b calls n and u :: "'z renv_scheme"
    using that by (intro execute_frees [OF assms(1) _ refl]) (simp add: at_most_def)
  have ends: "at_most rid ?N u" if "at_most rid n u" "n \<le> ?N" for n and u :: "'z renv_scheme"
    using that by (rule at_most_mono)
  have answered: "at_most rid ?N (snd (run_task
      (thenT (liftT (commit_answer crd rid request response compiled))
        (if tool_calls (resp_message response) = [] then retT response
         else thenT (execute_between crd tf True (tool_calls (resp_message response)))
                (run_turns crd tf retry_used recorded' (turns + 1) []))) u))"
    if u: "at_most rid turns u" and more: "\<not> tf_max_turns tf \<le> turns" for u request response compiled recorded'
  proof -
    obtain q v where commit: "commit_answer crd rid request response compiled u = (q, v)"
      by (cases "commit_answer crd rid request response compiled u")
    have v: "at_most rid (turns + 1) v" using commit_counts [OF u, of crd request response compiled] commit by simp
    have "at_most rid ?N (snd (run_task (thenT (execute_between crd tf True calls)
        (run_turns crd tf retry_used recorded' (turns + 1) [])) v))" for calls
      using more by (intro at_most_then [OF v between [OF v]] onward) auto
    then show ?thesis
      using commit ends [OF v] more by (cases q) (auto simp: thenE_def bindE_def run_task_rules retE_def max_def)
  qed
  let ?next = "\<lambda>ts compiled request recorded'. (\<lambda>answer. case answer of
      Inl e \<Rightarrow>
        (if retry_used then raiseT e
         else bindT (retry_smaller crd tf ts recorded') (\<lambda>recorded''. run_turns crd tf True recorded'' turns []))
    | Inr response \<Rightarrow>
        thenT (liftT (commit_answer crd rid request response compiled))
        (if tool_calls (resp_message response) = [] then retT response
         else thenT (execute_between crd tf True (tool_calls (resp_message response)))
                (run_turns crd tf retry_used recorded' (turns + 1) [])))"
  have asked: "at_most rid ?N (snd (run_task (bindT (ask_model crd rid request) (?next ts compiled request recorded')) u))"
    if u: "at_most rid turns u" and more: "\<not> tf_max_turns tf \<le> turns" for ts compiled request recorded' u
  proof (rule at_most_bind [OF u frees_steps [OF usage.ask_model_steps]])
    fix answer w assume w: "at_most rid turns (w :: 'z renv_scheme)"
    have "at_most rid ?N (snd (run_task (bindT (retry_smaller crd tf ts recorded')
        (\<lambda>recorded''. run_turns crd tf True recorded'' turns [])) w))" if "\<not> retry_used"
      by (rule at_most_bind [OF w frees_steps [OF usage.retry_smaller_steps]]) (use that again in auto)
    then show "at_most rid ?N (snd (run_task (?next ts compiled request recorded' answer) w))"
      using answered [OF w more] ends [OF w] by (cases answer) (auto simp: raiseE_def)
  qed simp
  have turn: "at_most rid ?N (snd (run_task (bindT (prepare_turn crd tf recorded)
      (\<lambda>(ts, compiled, request, recorded'). bindT (ask_model crd rid request) (?next ts compiled request recorded'))) u))"
    if u: "at_most rid turns u" and more: "\<not> tf_max_turns tf \<le> turns" for u
    by (rule at_most_bind [OF u frees_steps [OF usage.prepare_turn_steps]])
      (use more asked in \<open>auto split: prod.split\<close>)
  have limit: "at_most rid ?N (snd (run_task (if tf_max_turns tf \<le> turns then raiseT (turn_limit (tf_max_turns tf)) else t) u))"
    if "at_most rid turns u" "\<not> tf_max_turns tf \<le> turns \<Longrightarrow> at_most rid ?N (snd (run_task t u))"
    for t :: "('z renv_scheme, model_response) task" and u
    using that ends by (auto simp: raiseE_def)
  have pending: "frees (if pending = [] then retT () else execute_between crd tf False pending) u"
    if "at_most rid turns u" for u :: "'z renv_scheme"
    using between [OF that] by (simp add: frees_steps steps_in_basic)
  show ?case
    by (subst run_turns.simps, unfold assms(2))
      (intro at_most_then [OF 1(2)] at_most_then [where n = turns] frees_m usage.check_cancel_advances
        usage.adds_advances [OF refresh_adds] pending limit turn; simp)
qed

text \<open>The same around the loop.\<close>

lemma at_most_frees:
  fixes s :: "'z renv_scheme"
  assumes "at_most rid n s" and "frees t s"
  shows "at_most rid n (snd (run_task t s))"
proof -
  obtain r u where run: "run_task t s = (r, u)" by (cases "run_task t s")
  then have "grows_by usage_free s u"
    using rely_guarantee.upholds_run [OF usage.log_rely_guarantee assms(2) run] by blast
  with run show ?thesis using at_most_free [OF assms(1)] by simp
qed

lemma at_most_after:
  assumes "at_most rid n (snd (run_task m s))"
    and "\<And>x u. at_most rid n u \<Longrightarrow> at_most rid n (snd (run_task (f x) u))"
  shows "at_most rid n (snd (run_task (bindT m f) s))"
  using assms by (cases "run_task m s"; cases "fst (run_task m s)") (auto simp: run_task_rules bindE_def)

lemma at_most_catch:
  assumes "at_most rid n (snd (run_task m s))"
    and "\<And>e u. at_most rid n u \<Longrightarrow> at_most rid n (snd (run_task (h e) u))"
  shows "at_most rid n (snd (run_task (catchT m h) s))"
  using assms by (cases "run_task m s"; cases "fst (run_task m s)") (auto simp: run_task_rules catchE_def)

lemma run_loop_counts:
  fixes s :: "'z renv_scheme"
  assumes "policy_reads_only (co_dispatcher (crd_tools crd))" and "tf_run tf = rid" and "at_most rid n s"
  shows "at_most rid (max n (tf_max_turns tf)) (snd (run_task (run_loop crd tf suspended) s))"
proof -
  let ?turns = "model_calls (ses_events (self s)) rid"
  have now: "at_most rid ?turns s" "?turns \<le> n" using assms(3) by (simp_all add: at_most_def)
  have "at_most rid (max ?turns (tf_max_turns tf)) (snd (run_task (run_turns crd tf False d ?turns calls) s))"
    for d calls
    by (rule run_turns_counts [OF assms(1,2) now(1)])
  then have turns: "at_most rid (max n (tf_max_turns tf)) (snd (run_task (run_turns crd tf False d ?turns calls) s))"
    for d calls
    by (rule at_most_mono) (use now(2) in simp)
  show ?thesis
  proof (cases "recorded_artifacts (ses_events (self s))")
    case (Inl e)
    then show ?thesis
      using at_most_mono [OF assms(3)] by (simp add: run_loop_def run_task_rules get_self_def bindE_def liftE_def raiseE_def)
  next
    case (Inr refs)
    then show ?thesis
      using turns assms(2) by (simp add: run_loop_def run_task_rules get_self_def bindE_def liftE_def retE_def)
  qed
qed

lemma usage_frame: "well_behaved {''model.usage''} crd \<Longrightarrow>
    frame_order (grows_by usage_free :: 'z renv_scheme \<Rightarrow> _) (- {''model.usage''}) rid crd"
  by (rule usage.log_frame_order) (simp add: well_behaved_def)

lemma open_run_id:
  "open_run fr cfg user_message (Some rid) s = (Inr (i, x), t) \<Longrightarrow> rid \<noteq> '''' \<Longrightarrow> i = rid"
  by (auto simp: open_run_def admit_run_def Let_def bindE_eq_Inr raiseE_def retE_def split: if_splits)

lemma run_counts:
  fixes s :: "'z renv_scheme"
  assumes crd: "well_behaved {''model.usage''} crd" and rid: "rid \<noteq> ''''" and sync: "synced s"
  shows "at_most rid (max (model_calls (ses_events (self s)) rid) (cfg_max_turns cfg))
    (snd (run_task (coordinator_run crd cfg user_message (Some rid) app) s))"
proof -
  let ?n = "model_calls (ses_events (self s)) rid" let ?N = "max ?n (cfg_max_turns cfg)"
  note frame = usage_frame [OF crd, where rid = rid]
  note around = frame_order.record_outcome_advances [OF frame] frame_order.emit_run_stopped_steps [OF frame]
    frame_order.handle_run_error_steps [OF frame] frame_order.repair_advances [OF frame]
  have policy: "policy_reads_only (co_dispatcher (crd_tools crd))" using crd by (simp add: well_behaved_def)
  have body: "at_most rid ?N (snd (run_task (run_body (coordinator_frame crd) rid resumed conf suspended
      (run_loop crd (turn_frame_of cfg app rid))) u))"
    if u: "at_most rid ?n u" for resumed conf suspended u
  proof -
    have ended: "advances (grows_by usage_free :: 'z renv_scheme \<Rightarrow> _) (thenE (record_outcome (crd_recorders crd) rid RunCompleted v)
        (finish_run rid RunCompleted ''run.completed'' []))" for v
      by (intro step_order.advances_thenE [OF usage.log_step_order] around usage.log_finish)
        (simp add: ending_types_def)
    have loop: "at_most rid ?N (snd (run_task (run_loop crd (turn_frame_of cfg app rid) suspended) v))"
      if "at_most rid ?n v" for v :: "'z renv_scheme"
      using run_loop_counts [OF policy _ that, of "turn_frame_of cfg app rid" suspended]
      by (simp add: turn_frame_of_def)
    have last: "at_most rid ?N (snd (run_task (f x) v))" if "at_most rid ?N v" "frees (f x) v"
      for f :: "model_response \<Rightarrow> ('z renv_scheme, run_result) task" and x v
      using that by (rule at_most_frees)
    show ?thesis
      unfolding run_body_def frame_order.frame_simps [OF frame]
      by (intro at_most_bind [OF u frees_m] at_most_then [where n = ?n] frees_m usage.log_transition around
          frees_steps [OF usage.emit_hook_steps] usage.advances_world [OF advances_get_self]
          at_most_after [OF loop] last rely_guarantee.upholds_thenT [OF usage.log_rely_guarantee]
          rely_guarantee.upholds_bindT [OF usage.log_rely_guarantee, of anyhow] ended
          frees_steps [OF steps_in_basic(1)] frees_steps usage.machine_reads; assumption?) auto
  qed
  obtain v s1 where opens: "open_run (coordinator_frame crd) cfg user_message (Some rid) s = (v, s1)"
    by (cases "open_run (coordinator_frame crd) cfg user_message (Some rid) s")
  have s1: "at_most rid ?n s1"
    by (rule at_most_free [OF _ advancesD [OF usage.log_open opens]]) (simp add: at_most_def sync)
  show ?thesis
  proof (cases v)
    case (Inl e)
    then show ?thesis
      using opens at_most_mono [OF s1] by (simp add: coordinator_run_def run_around_def run_task_rules bindE_def)
  next
    case (Inr x)
    obtain i resumed conf suspended where x: "x = (i, resumed, conf, suspended)" by (cases x) auto
    have "i = rid" using opens rid Inr x by (rule_tac open_run_id) auto
    have "at_most rid ?N (snd (run_task (catchT
        (run_body (coordinator_frame crd) rid resumed conf suspended (run_loop crd (turn_frame_of cfg app rid)))
        (handle_run_error (coordinator_frame crd) rid)) s1))"
      by (intro at_most_catch body [OF s1] at_most_frees frees_steps around)
    then show ?thesis
      using opens \<open>i = rid\<close> Inr x by (simp add: coordinator_run_def run_around_def run_task_bindT bindE_def)
  qed
qed

section \<open>The recorded states of a whole run\<close>

interpretation run_trail: turn_order "run_trail rid" "- {''run.state_changed''}" for rid
  by unfold_locales (auto simp: context_types_def intro: adds_run_trail run_trail_silent)

lemma trail_whole:
  assumes "well_behaved {''run.state_changed''} crd"
  shows "whole_run (run_trail rid) (run_trail rid) (\<lambda>_. True) (- {''run.state_changed''}) rid crd"
proof (intro whole_run.intro whole_run_axioms.intro frame_order.intro frame_order_axioms.intro)
  show "run_order (run_trail rid) (run_trail rid) (\<lambda>_. True) (- {''run.state_changed''}) rid (crd_tools crd)"
    using assms by (intro run_trail_order) (simp add: well_behaved_def)
  show "turn_order (run_trail rid) (- {''run.state_changed''})" by unfold_locales
  show "advances (run_trail rid) (finish_run rid st ty data)" if "ty \<in> ending_types" for ty st data
    using that by (intro finish_trail) (auto simp: ending_types_def)
  show "recorder_adds (- {''run.state_changed''}) r" if "r \<in> set (crd_recorders crd)" for r
    using that assms by (simp add: well_behaved_def)
qed (auto simp: bookkeeping_types_def message_types_def)

text \<open>What opens a run records no state.\<close>

definition states_free :: "event list \<Rightarrow> event list \<Rightarrow> bool" where
  "states_free es fs \<longleftrightarrow> ''run.state_changed'' \<notin> ev_type ` set fs"

interpretation states_free: log_order states_free "- {''run.state_changed''}"
  by unfold_locales (auto simp: states_free_def opening_types_def message_types_def)

lemma run_states_path:
  fixes s :: "'z renv_scheme"
  assumes crd: "well_behaved {''run.state_changed''} crd" and rid: "rid \<noteq> ''''" and sync: "synced s"
    and run: "run_task (coordinator_run crd cfg user_message (Some rid) app) s = (r, t)"
  shows "\<exists>es start path. ses_events (self t) = ses_events (self s) @ es \<and> start \<in> {machine s, RunCreated} \<and>
    run_path start path (machine t) \<and> subseq (state_changes rid es) (state_texts path)"
proof -
  obtain v s1 where opens: "open_run (coordinator_frame crd) cfg user_message (Some rid) s = (v, s1)"
    by (cases "open_run (coordinator_frame crd) cfg user_message (Some rid) s")
  obtain es where s1: "synced s1" "ses_events (self s1) = ses_events (self s) @ es" "states_free (ses_events (self s)) es"
    using grows_byD [OF advancesD [OF states_free.log_open opens] sync] by metis
  have none: "state_changes rid es = []" using s1(3) by (intro no_state_changes) (simp add: states_free_def)
  show ?thesis
  proof (cases v)
    case (Inl e)
    then have "t = s1"
      using run opens by (simp add: coordinator_run_def run_around_def run_task_rules bindE_def)
    moreover have "machine s1 \<in> {machine s, RunCreated}"
      using states_free.open_run_machine(1) [OF opens] by simp
    ultimately show ?thesis
      using s1 none run_path.stay by (intro exI [of _ es] exI [of _ "machine s1"] exI [of _ "[]"]) simp
  next
    case (Inr x)
    obtain i resumed conf suspended where x: "x = (i, resumed, conf, suspended)" by (cases x) auto
    have "i = rid" using opens rid Inr x by (rule_tac open_run_id) auto
    then have "run_trail rid s1 t"
      using whole_run.run_respects [OF trail_whole [OF crd] _ TrueI run] opens Inr x by blast
    then obtain fs path where t: "ses_events (self t) = ses_events (self s1) @ fs"
      "run_path (machine s1) path (machine t)" "subseq (state_changes rid fs) (state_texts path)"
      using s1(1) by (auto simp: run_trail_def)
    have "machine s1 = RunCreated" using states_free.open_run_machine(2) [OF opens] Inr by simp
    with t s1 none show ?thesis
      by (intro exI [of _ "es @ fs"] exI [of _ "machine s1"] exI [of _ path]) simp
  qed
qed

end
