(* ===== verification/Run_Endings.thy ===== *)
theory Run_Endings
  imports Run_Promises
begin

text \<open>
  How a run ends: a run that returns a result has written its last word to the log, and the result
  says the same as the log.
\<close>

section \<open>The last word\<close>

definition ended_with :: "string \<Rightarrow> string \<Rightarrow> 'z env_scheme \<Rightarrow> bool" where
  "ended_with rid ty s \<longleftrightarrow> last_lifecycle_event (ses_events (self s)) rid = Some ty"

lemma last_lifecycle_snoc: "is_lifecycle_of rid e \<Longrightarrow> last_lifecycle_event (es @ [e]) rid = Some (ev_type e)"
  by (simp add: last_lifecycle_event_def)

lemma lifecycle_persisted [simp]: "is_lifecycle_of rid (persisted e n) = is_lifecycle_of rid e"
  by (simp add: is_lifecycle_of_def persisted_simps)

lemma numbered_snoc: "numbered n (es @ [e]) = numbered n es @ [persisted e (n + int (length es) + 1)]"
  by (induction es arbitrary: n) (simp_all add: numbered_Cons algebra_simps)

text \<open>Nothing is asked of what is added but that the session stays in step with its log.\<close>

interpretation anything: run_log_order "\<lambda>_ _. True" UNIV
  by unfold_locales simp_all

interpretation self_same: loop_order "\<lambda>s t :: 'z renv_scheme. self t = self s"
  by unfold_locales auto

lemma anything_whole:
  assumes "policy_reads_only (co_dispatcher (crd_tools crd))"
  shows "whole_run (grows_by (\<lambda>_ _. True)) (grows_by (\<lambda>_ _. True)) synced UNIV rid crd"
proof (rule anything.log_whole_run)
  show "upholds (grows_by (\<lambda>_ _. True)) (grows_by (\<lambda>_ _. True)) anyhow
      (dispatch_call (crd_tools crd) rid call require_lease app) s"
    for call require_lease app and s :: "'a renv_scheme"
    by (intro rely_guarantee.upholds_steps [OF anything.log_rely_guarantee]
        loop_order.dispatch_call_steps [OF anything.log_loop_order, where T = UNIV] anything.grows_by_adds assms)
      simp_all
qed (simp_all add: recorder_adds_def)

lemma appended_ends:
  assumes "append_many (es @ [e]) s = (Inr qs, t)" and "synced s" and "is_lifecycle_of rid e"
  shows "ended_with rid (ev_type e) t"
  by (rule append_many_cases [OF assms(1,2)])
    (simp_all add: ended_with_def numbered_snoc last_lifecycle_snoc assms(3) persisted_simps
      flip: append_assoc)

lemma run_event_lifecycle:
  "new_run_event ty rid d s = (Inr e, t) \<Longrightarrow> ty \<in> set RUN_LIFECYCLE_EVENTS \<Longrightarrow> is_lifecycle_of rid e \<and> ev_type e = ty"
  using new_run_event_fields [of ty rid d s e t] by (simp add: is_lifecycle_of_def)

lemma synced_step: "advances (grows_by (\<lambda>_ _. True)) m \<Longrightarrow> m s = (r, t) \<Longrightarrow> synced s \<Longrightarrow> synced t"
  by (drule advancesD, assumption) (erule (1) synced_kept [rotated])

lemma anything_world: "advances world_only m \<Longrightarrow> advances (grows_by (\<lambda>_ _. True)) m"
  by (intro anything.adds_advances world_adds)

lemma finish_run_ends:
  assumes "finish_run rid target ty data s = (Inr u, t)" and "synced s" and "ty \<in> set RUN_LIFECYCLE_EVENTS"
  shows "ended_with rid ty t"
proof -
  obtain evs s1 d e s2 qs where
    moved: "(if machine s \<notin> set TERMINAL_STATES then bindE (transition_event rid target) (\<lambda>e. retE [e]) else retE []) s = (Inr evs, s1)"
    and made: "new_run_event ty rid d s1 = (Inr e, s2)"
    and app: "append_many (evs @ [e]) s2 = (Inr qs, t)"
    using assms(1) by (auto simp: finish_run_def get_machine_def bindE_eq_Inr retE_def [of "()"])
  have event: "advances (grows_by (\<lambda>_ _. True)) (transition_event rid target :: ('a renv_scheme, event) sm)"
    unfolding transition_event_def
    by (intro step_order.advances_bindE [OF anything.log_step_order] anything.machine_advances
        anything_world new_run_event_world)
  have "advances (grows_by (\<lambda>_ _. True)) (if machine s \<notin> set TERMINAL_STATES
      then bindE (transition_event rid target :: ('a renv_scheme, event) sm) (\<lambda>e. retE [e]) else retE [])"
    by (intro advances_if step_order.advances_bindE [OF anything.log_step_order event]
        step_order.advances_retE [OF anything.log_step_order])
  then have "synced s1" using moved assms(2) by (rule synced_step)
  then have "synced s2" by (rule synced_step [OF anything_world [OF new_run_event_world] made])
  then show ?thesis
    using appended_ends [OF app] run_event_lifecycle [OF made assms(3)] by simp
qed

text \<open>The hooks of the end leave the session as it is.\<close>

lemma stopped_same: "steps_in (\<lambda>s t :: 'z renv_scheme. self t = self s) (emit_run_stopped hooks rid st ty error)"
  unfolding emit_run_stopped_def
  by (intro self_same.loop_steps self_same.emit_hook_steps)
    (simp add: advances_def get_self_def)

lemma stopped_ends:
  assumes "run_task (emit_run_stopped hooks rid st ty' error) s = (r, t)" and "ended_with rid ty s"
  shows "ended_with rid ty t"
  using self_same.run_stays [OF stopped_same assms(1)] assms(2) by (simp add: ended_with_def)

section \<open>The handlers and the body\<close>

definition speaks_for :: "string \<Rightarrow> run_result \<Rightarrow> string \<Rightarrow> bool" where
  "speaks_for rid res ty \<longleftrightarrow> rr_run res = rid \<and>
     (case rr_pending_approval res of
        Some a \<Rightarrow> ty = ''run.suspended''
      | None \<Rightarrow> ty \<in> ending_types \<and> (rr_response res \<noteq> None \<longleftrightarrow> ty = ''run.completed''))"

lemma ending_lifecycle: "ty \<in> ending_types \<Longrightarrow> ty \<in> set RUN_LIFECYCLE_EVENTS"
  by (auto simp: ending_types_def RUN_LIFECYCLE_EVENTS_def)

lemma synced_frame:
  fixes s :: "'z renv_scheme"
  assumes "frame_order (grows_by (\<lambda>_ _. True) :: 'z renv_scheme \<Rightarrow> _) UNIV rid crd" and "synced s"
  shows "repair_after_interrupt rid s = (q, u) \<Longrightarrow> synced u"
    "record_outcome (crd_recorders crd) rid st response s = (q', u) \<Longrightarrow> synced u"
proof -
  have "advances (grows_by (\<lambda>_ _. True) :: 'z renv_scheme \<Rightarrow> _) (repair_after_interrupt rid)"
    unfolding repair_after_interrupt_def
    by (intro step_order.advances_bindE [OF anything.log_step_order] advances_if
        step_order.advances_retE [OF anything.log_step_order] anything_world advances_orphan_tool_calls
        frame_order.repair_advances [OF assms(1)])
  then show "repair_after_interrupt rid s = (q, u) \<Longrightarrow> synced u"
    using assms(2) by (blast intro: synced_step)
  show "record_outcome (crd_recorders crd) rid st response s = (q', u) \<Longrightarrow> synced u"
    using frame_order.record_outcome_advances [OF assms(1)] assms(2) by (blast intro: synced_step)
qed

lemma stop_run_ends:
  fixes s :: "'z renv_scheme"
  assumes frame: "frame_order (grows_by (\<lambda>_ _. True) :: 'z renv_scheme \<Rightarrow> _) UNIV rid crd"
    and run: "run_task (stop_run fr rid target ty data hook_error error) s = (Inr res, t)"
    and sync: "synced s" and ty: "ty \<in> ending_types" "ty \<noteq> ''run.completed''"
  shows "ended_with rid ty t \<and> speaks_for rid res ty"
proof -
  obtain q u v w st where rep: "repair_after_interrupt rid s = (Inr q, u)"
    and fin: "finish_run rid target ty data u = (Inr (), v)"
    and stopped: "run_task (emit_run_stopped (frame_hooks fr) rid target ty hook_error) v = (Inr (), w)"
    and res: "t = w" "res = plain_result rid st (Some error)"
    using run
    by (auto simp: stop_run_def run_task_rules thenE_def bindE_eq_Inr get_machine_def retE_def)
  have "ended_with rid ty v"
    using finish_run_ends [OF fin synced_frame(1) [OF frame sync rep]] ending_lifecycle [OF ty(1)] by blast
  then show ?thesis
    using stopped_ends [OF stopped] res ty by (simp add: speaks_for_def plain_result_def)
qed

lemma suspend_run_ends:
  assumes "suspend_run rid a pending s = (Inr res, t)" and "synced s"
  shows "ended_with rid ''run.suspended'' t \<and> speaks_for rid res ''run.suspended''"
proof -
  obtain d e where app: "append_new ''run.suspended'' (Some rid) d s = (Inr e, t)"
    and res: "rr_run res = rid" "rr_pending_approval res = Some a"
    using assms(1) by (auto simp: suspend_run_def get_machine_def bindE_eq_Inr retE_def plain_result_def)
  from append_new_appends [OF app assms(2)] have "ended_with rid ''run.suspended'' t"
    by (simp add: ended_with_def last_lifecycle_snoc is_lifecycle_of_def RUN_LIFECYCLE_EVENTS_def)
  with res show ?thesis by (simp add: speaks_for_def)
qed

lemma handler_ends:
  fixes s :: "'z renv_scheme"
  assumes "frame_order (grows_by (\<lambda>_ _. True) :: 'z renv_scheme \<Rightarrow> _) UNIV rid crd"
    and "run_task (handle_run_error fr rid e) s = (Inr res, t)" and "synced s"
  shows "\<exists>ty. ended_with rid ty t \<and> speaks_for rid res ty"
proof (cases e)
  case (RunSuspended a pending)
  then have "suspend_run rid a pending s = (Inr res, t)" using assms(2) by (simp add: handle_run_error_def)
  from suspend_run_ends [OF this assms(3)] show ?thesis by blast
next
  case (Exn c m)
  have interrupted: "ended_with rid ''run.interrupted'' t \<and> speaks_for rid res ''run.interrupted''"
    if "run_task (stop_run fr rid target ''run.interrupted'' d h x) s = (Inr res, t)" for target d h x
    using stop_run_ends [OF assms(1) that assms(3)] by (simp add: ending_types_def)
  have failed: "ended_with rid ''run.failed'' t \<and> speaks_for rid res ''run.failed''"
    if "run_task (stop_run fr rid target ''run.failed'' d h x) s = (Inr res, t)" for target d h x
    using stop_run_ends [OF assms(1) that assms(3)] by (simp add: ending_types_def)
  show ?thesis
  proof (cases "is_cancelled e")
    case True
    then show ?thesis using assms(2) Exn by (simp add: handle_run_error_def) (drule interrupted, blast)
  next
    case False
    then show ?thesis using assms(2) Exn by (simp add: handle_run_error_def) (drule failed, blast)
  qed
qed

lemma body_ends:
  fixes s :: "'z renv_scheme"
  assumes whole: "whole_run (grows_by (\<lambda>_ _. True)) (grows_by (\<lambda>_ _. True)) synced UNIV rid crd"
    and run: "run_task (run_body (coordinator_frame crd) rid resumed conf suspended (run_loop crd tf)) s = (Inr res, t)"
    and sync: "synced s" and tf: "tf_run tf = rid"
  shows "ended_with rid ''run.completed'' t \<and> speaks_for rid res ''run.completed''"
proof -
  note frame = whole_run.axioms(2) [OF whole]
  let ?hooks = "coordinator_hooks crd"
  obtain p h s1 s2 q s3 response s4 s5 s6 s7 st where
    hook: "run_task (emit_hook ?hooks ''run.started'' p None) s = (Inr h, s1)"
    and moved: "run_transition rid Running s1 = (Inr (), s2)"
    and rep: "repair_orphan_tool_calls rid (set suspended) s2 = (Inr q, s3)"
    and loop: "run_task (run_loop crd tf suspended) s3 = (Inr response, s4)"
    and rec: "record_outcome (crd_recorders crd) rid RunCompleted (Some response) s4 = (Inr (), s5)"
    and fin: "finish_run rid RunCompleted ''run.completed'' [] s5 = (Inr (), s6)"
    and stopped: "run_task (emit_run_stopped ?hooks rid RunCompleted ''run.completed'' None) s6 = (Inr (), s7)"
    and res: "t = s7" "res = (plain_result rid st None)\<lparr>rr_response := Some response\<rparr>"
    using run
    by (auto simp: run_body_def frame_order.frame_simps [OF frame] run_task_rules thenE_def bindE_eq_Inr
        get_machine_def get_self_def retE_def)
  have "synced s1"
    using loop_order.run_stays [OF anything.log_loop_order loop_order.emit_hook_steps [OF anything.log_loop_order] hook]
      sync by (blast intro: synced_kept)
  then have "synced s2" by (rule synced_step [OF anything.log_transition moved])
  then have "synced s3" by (rule synced_step [OF frame_order.repair_advances [OF frame] rep])
  then have "synced s4"
    using rely_guarantee.upholds_run [OF anything.log_rely_guarantee
        whole_run.run_loop_upholds [OF whole \<open>synced s3\<close> tf] loop]
    by (blast intro: synced_kept)
  then have "synced s5" by (rule synced_frame(2) [OF frame _ rec])
  then have "ended_with rid ''run.completed'' s6"
    using finish_run_ends [OF fin] by (simp add: RUN_LIFECYCLE_EVENTS_def)
  then show ?thesis
    using stopped_ends [OF stopped] res by (simp add: speaks_for_def plain_result_def ending_types_def)
qed

lemma run_ends:
  fixes s :: "'z renv_scheme"
  assumes policy: "policy_reads_only (co_dispatcher (crd_tools crd))" and sync: "synced s"
    and run: "run_task (coordinator_run crd cfg user_message run_id app) s = (Inr res, t)"
  shows "\<exists>ty. ended_with (rr_run res) ty t \<and> speaks_for (rr_run res) res ty"
proof -
  obtain rid resumed conf suspended s1 where
    opens: "open_run (coordinator_frame crd) cfg user_message run_id s = (Inr (rid, resumed, conf, suspended), s1)"
    and rest: "run_task (catchT
      (run_body (coordinator_frame crd) rid resumed conf suspended (run_loop crd (turn_frame_of cfg app rid)))
      (handle_run_error (coordinator_frame crd) rid)) s1 = (Inr res, t)"
    using run by (auto simp: coordinator_run_def run_around_def run_task_bindT bindE_eq_Inr)
  note whole = anything_whole [OF policy, where rid = rid]
  note frame = whole_run.axioms(2) [OF whole]
  have s1: "synced s1" by (rule synced_step [OF anything.log_open opens sync])
  obtain q s2 where body: "run_task (run_body (coordinator_frame crd) rid resumed conf suspended
      (run_loop crd (turn_frame_of cfg app rid))) s1 = (q, s2)"
    by (cases "run_task (run_body (coordinator_frame crd) rid resumed conf suspended
      (run_loop crd (turn_frame_of cfg app rid))) s1")
  have "\<exists>ty. ended_with rid ty t \<and> speaks_for rid res ty"
  proof (cases q)
    case (Inl e)
    have "grows_by (\<lambda>_ _. True) s1 s2"
      using rely_guarantee.upholds_run [OF anything.log_rely_guarantee
          whole_run.run_body_upholds [OF whole s1] body] by (simp add: turn_frame_of_def)
    then have "synced s2" by (rule synced_kept [OF s1])
    then show ?thesis
      using rest body Inl handler_ends [OF frame] by (simp add: run_task_rules catchE_def)
  next
    case (Inr x)
    then have "x = res" "s2 = t" using rest body by (simp_all add: run_task_rules catchE_def)
    then have "run_task (run_body (coordinator_frame crd) rid resumed conf suspended
        (run_loop crd (turn_frame_of cfg app rid))) s1 = (Inr res, t)"
      using body Inr by simp
    from body_ends [OF whole this s1] show ?thesis by (auto simp: turn_frame_of_def)
  qed
  then show ?thesis by (auto simp: speaks_for_def)
qed

end
