(* ===== verification/Runtime_Properties.thy ===== *)
theory Runtime_Properties
  imports Run_Endings Session_Properties
begin

text \<open>The properties of runs, each with a run at which it applies.\<close>

section \<open>A session to run on\<close>

definition demo_renv :: renv where
  "demo_renv = env.extend demo_env
     \<lparr>ticks = 0, cancel_event = None, pick_task = (\<lambda>_. 0), ext_calls = 0, delays = (\<lambda>_. 0),
      mono_clock = (\<lambda>_. 0), mono_reads = 0, machine = RunCreated, artifact_files = []\<rparr>"

definition demo_codec :: context_codec where
  "demo_codec = \<lparr>cc_loads = (\<lambda>_. None), cc_dumps_sorted = (\<lambda>_. ''{}''), cc_dumps = (\<lambda>_. ''{}''),
     cc_dumps_keys = (\<lambda>_. ''{}''), cc_str = (\<lambda>_. ''{}''),
     cc_files = \<lparr>sha256_hex = (\<lambda>_. ''00''), manifest_dumps = (\<lambda>_. ''{}''), manifest_loads = (\<lambda>_. None)\<rparr>\<rparr>"

text \<open>A provider that answers every request with the same message.\<close>

definition demo_answer :: message where
  "demo_answer = \<lparr>msg_role = Assistant, msg_content = [TextBlock ''done'' False], msg_id = ''msg_1'', msg_metadata = []\<rparr>"

definition demo_provider :: provider where
  "demo_provider = \<lparr>prov_name = ''demo'',
     prov_capabilities = (\<lambda>_. \<lparr>cap_streaming = True, cap_parallel_tools = False, cap_prefix_caching = False,
       cap_token_counting = False, cap_max_context = 10000, cap_max_output = 1000\<rparr>),
     prov_stream = (\<lambda>_ _. Inr ([MessageEnd \<lparr>resp_message = demo_answer, resp_stop_reason = EndTurn,
       resp_usage = \<lparr>input_tokens = 1, output_tokens = 1, cached_input_tokens = 0, cost_usd = None,
         cache_write_input_tokens = 0\<rparr>\<rparr>], None)),
     prov_close = None, prov_count = (\<lambda>_ _. Inr 1)\<rparr>"

definition demo_bus :: hook_bus where
  "demo_bus = \<lparr>bus_handlers = [], bus_ids = {}, bus_sequence = 0, bus_timeout = 5\<rparr>"

definition demo_tools :: "'z tool_runtime" where
  "demo_tools = default_runtime [] demo_bus suspending_resolver None 60000000"

definition demo_coordinator :: "'z coordinator" where
  "demo_coordinator = \<lparr>crd_tools = demo_tools, crd_provider = demo_provider, crd_codec = demo_codec,
     crd_assembler = \<lparr>artifact_threshold_tokens = 4000, artifact_preview_chars = 2000\<rparr>,
     crd_generator = DeterministicSummaryGenerator, crd_summary = None, crd_stores = False,
     crd_contributors = [], crd_recorders = [], crd_window = None, crd_margin = 0,
     crd_policy = default_compaction_policy, crd_max_turns = 5\<rparr>"

definition demo_config :: run_configuration where
  "demo_config = \<lparr>cfg_model = ''m'', cfg_lease = False, cfg_prompt = '''', cfg_max_output = 100,
     cfg_max_turns = 5, cfg_profile = None\<rparr>"

definition demo_run :: "(exn + run_result) \<times> renv" where
  "demo_run = run_task (coordinator_run demo_coordinator demo_config (Some hello) (Some ''run_1'') JNull) demo_renv"

lemma demo_run_synced: "synced demo_renv"
  using demo_synced by (simp add: demo_renv_def synced_def env.extend_def)

lemma demo_well_behaved: "well_behaved X (demo_coordinator :: 'z coordinator)"
  by (simp add: well_behaved_def demo_coordinator_def demo_tools_def default_runtime_reads)

section \<open>Whole runs\<close>

text \<open>C1: No tool starts without a decision: in every run and every resumption, whatever the tools,
  hooks, provider, approval resolver and recorders answer and however concurrent calls interleave, each
  tool.started event is preceded in the log by a policy.decided event of the same run and tool call
  whose effect is allow.\<close>

theorem tools_start_allowed:
  assumes "well_behaved {''tool.started''} crd" and "synced s"
  shows "grows_by starts_justified s (snd (run_task (coordinator_run crd cfg user_message run_id app) s)) \<and>
    grows_by starts_justified s (snd (run_task (coordinator_resume crd rid ovr app) s))"
  using starts_run [OF assms] by (metis prod.collapse)

theorem tools_start_allowed_witness:
  "grows_by starts_justified demo_renv
     (snd (run_task (coordinator_run demo_coordinator demo_config (Some hello) (Some ''run_1'') JNull) demo_renv))"
  by (rule conjunct1 [OF tools_start_allowed [OF demo_well_behaved demo_run_synced]])

text \<open>C14: The model is called a bounded number of times: however often a run is suspended and resumed
  and whatever the provider answers, the model.usage events of a run never outnumber max_turns, unless
  there were more of them before it was started.\<close>

theorem model_calls_bounded:
  assumes "well_behaved {''model.usage''} crd" and "rid \<noteq> ''''" and "synced s"
  shows "model_calls (ses_events (self (snd (run_task (coordinator_run crd cfg user_message (Some rid) app) s)))) rid
    \<le> max (model_calls (ses_events (self s)) rid) (cfg_max_turns cfg)"
  using run_counts [OF assms] by (simp add: at_most_def)

theorem model_calls_bounded_witness:
  "model_calls (ses_events (self (snd (run_task
     (coordinator_run demo_coordinator demo_config (Some hello) (Some ''run_1'') JNull) demo_renv)))) ''run_1'' \<le> 5"
  using model_calls_bounded [OF demo_well_behaved _ demo_run_synced, of "''run_1''" demo_config
      "Some hello" JNull]
  by (simp add: demo_renv_def env.extend_def demo_env_def model_calls_def demo_config_def)

text \<open>C9: The states a run records are a path of its state machine: the machine goes along allowed
  transitions from where the run began, and the run.state_changed events of the run, in their order, are
  states of that path.\<close>

theorem recorded_states_are_a_path:
  assumes "well_behaved {''run.state_changed''} crd" and "rid \<noteq> ''''" and "synced s"
    and "t = snd (run_task (coordinator_run crd cfg user_message (Some rid) app) s)"
  shows "\<exists>es start path. ses_events (self t) = ses_events (self s) @ es \<and> start \<in> {machine s, RunCreated} \<and>
    run_path start path (machine t) \<and> subseq (state_changes rid es) (state_texts path)"
  using run_states_path [OF assms(1-3)] assms(4) by (metis prod.collapse)

theorem recorded_states_are_a_path_witness:
  "\<exists>path. run_path RunCreated path
     (machine (snd (run_task (coordinator_run demo_coordinator demo_config (Some hello) (Some ''run_1'') JNull) demo_renv)))"
  using recorded_states_are_a_path [OF demo_well_behaved _ demo_run_synced refl, of "''run_1''" demo_config "Some hello" JNull]
  by (auto simp: demo_renv_def env.extend_def)

section \<open>How a run ends\<close>

text \<open>C5: A run that returns has said how it ended, and its result agrees with the log: the last
  lifecycle event of the run is run.suspended exactly when the result carries a pending approval, and
  else run.completed, run.failed or run.interrupted, completed exactly when the result has a response;
  so the run is among the suspended runs of the log exactly when its result says so.\<close>

theorem run_says_how_it_ended:
  assumes "run_task (coordinator_run crd cfg user_message run_id app) s = (Inr res, t)"
    and "synced s" and "policy_reads_only (co_dispatcher (crd_tools crd))"
  shows "\<exists>ty. last_lifecycle_event (ses_events (self t)) (rr_run res) = Some ty \<and>
    (case rr_pending_approval res of
       Some a \<Rightarrow> ty = ''run.suspended''
     | None \<Rightarrow> ty \<in> {''run.completed'', ''run.failed'', ''run.interrupted''} \<and>
               (rr_response res \<noteq> None \<longleftrightarrow> ty = ''run.completed'')) \<and>
    (rr_run res \<in> set (suspended_runs (ses_events (self t))) \<longleftrightarrow> rr_pending_approval res \<noteq> None)"
  using run_ends [OF assms(3,2,1)]
  by (auto simp: ended_with_def speaks_for_def suspended_runs_iff ending_types_def split: option.splits)

text \<open>A run whose owner has cancelled it before it starts.\<close>

definition cancelled_renv :: renv where
  "cancelled_renv = demo_renv\<lparr>cancel_event := Some 0\<rparr>"

definition demo_started :: event where
  "demo_started = \<lparr>ev_type = ''run.started'', ev_session = ''ses_1'',
     ev_data = [(''model'', JStr ''m''), (''provider'', JStr ''demo''), (''require_capability_lease'', JBool False),
       (''system_prompt_sha256'', JStr ''00''), (''max_output_tokens'', JInt 100), (''max_turns'', JInt 5),
       (''application_profile'', JObj [])],
     ev_run = Some ''run_1'', ev_id = ''evt_0000000000000007ab'', ev_seq = Some 1, ev_created = isoformat 0,
     ev_ephemeral = False, ev_version = EVENT_SCHEMA_VERSION\<rparr>"

definition opened_renv :: renv where
  "opened_renv = cancelled_renv\<lparr>clock_reads := 2, last_tick := 7,
     the_store := MemoryStore \<lparr>ms_sessions = [(''ses_1'', \<lparr>info_session = ''ses_1'', info_head = 1,
         info_created = ''t'', info_metadata = [], info_parent = None\<rparr>)],
       ms_events = [(''ses_1'', [demo_started])], ms_event_sessions = [(''evt_0000000000000007ab'', ''ses_1'')]\<rparr>,
     notified := notices [1] [demo_started],
     self := \<lparr>ses_id = ''ses_1'', ses_metadata = [], ses_head = 1, ses_events = [demo_started],
       ses_messages = [], ses_observers = [1]\<rparr>\<rparr>"

lemma demo_frame [simp]:
  "frame_hooks (coordinator_frame demo_coordinator) = demo_bus"
  "frame_provider (coordinator_frame demo_coordinator) = ''demo''"
  "frame_sha (coordinator_frame demo_coordinator) x = ''00''"
  "frame_recorders (coordinator_frame demo_coordinator) = []"
  "coordinator_hooks demo_coordinator = demo_bus"
  by (simp_all add: coordinator_frame_def demo_coordinator_def demo_provider_def demo_codec_def
      coordinator_hooks_def demo_tools_def default_runtime_def)

lemma demo_no_hooks: "emit_hook demo_bus name p g =
    retT \<lparr>disp_event = \<lparr>hev_name = name, hev_payload = p, hev_governance = g\<rparr>, disp_outcomes = []\<rparr>"
  by (simp add: emit_hook_def demo_bus_def registrations_def handlers_of_def retT_def)

lemma demo_id10: "render_id ''evt'' 10 ''ab'' = ''evt_000000000000000aab''"
  by code_simp

lemmas demo_state = cancelled_renv_def demo_renv_def env.extend_def demo_env_def demo_started_def opened_renv_def
  session_eval store_eval demo_ids demo_id10 new_run_event_def

lemma cancelled_open:
  "open_run (coordinator_frame demo_coordinator) demo_config None (Some ''run_1'') cancelled_renv =
   (Inr (''run_1'', False, ev_data demo_started, []), opened_renv)"
  by (simp add: open_run_def admit_run_def demo_state one_session_def numeral_3_eq_3 refresh_def
     demo_config_def store_get_def memory_get_def validate_max_turns_def last_lifecycle_event_def
     run_configuration_data_def validated_run_profile_def system_prompt_sha256_def
     suspended_tool_call_ids_def is_lifecycle_of_def)

lemma cancelled_run:
  "\<exists>res t. run_task (coordinator_run demo_coordinator demo_config None (Some ''run_1'') JNull) cancelled_renv = (Inr res, t) \<and>
     rr_run res = ''run_1'' \<and> rr_pending_approval res = None \<and> rr_response res = None"
  by (simp add: coordinator_run_def run_around_def run_task_bindT run_task_catchT bindE_def catchE_def cancelled_open)
    (simp add: run_body_def run_task_rules eff_simps demo_no_hooks run_transition_def transition_event_def
      machine_step_def transition_def demo_state repair_orphan_tool_calls_def orphan_tool_calls_def
      find_orphan_tool_calls_def track_messages_def no_calls_def calls_with_ids_def append_event_def
      run_loop_def recorded_artifacts_def record_artifact_def run_turns.simps check_cancel_def cancel_requested_def
      TERMINAL_STATES_def cancelled_error_def handle_run_error_def stop_run_def repair_after_interrupt_def
      finish_run_def get_machine_def emit_run_stopped_def dict_merge_def plain_result_def)

theorem run_says_how_it_ended_witness:
  "\<exists>res t ty. run_task (coordinator_run demo_coordinator demo_config None (Some ''run_1'') JNull) cancelled_renv = (Inr res, t) \<and>
     last_lifecycle_event (ses_events (self t)) ''run_1'' = Some ty \<and> ty \<in> {''run.failed'', ''run.interrupted''}"
proof -
  obtain res t where
    run: "run_task (coordinator_run demo_coordinator demo_config None (Some ''run_1'') JNull) cancelled_renv = (Inr res, t)"
    and res: "rr_run res = ''run_1''" "rr_pending_approval res = None" "rr_response res = None"
    using cancelled_run by blast
  have "synced cancelled_renv" using demo_run_synced by (simp add: cancelled_renv_def synced_def)
  moreover have "policy_reads_only (co_dispatcher (crd_tools (demo_coordinator :: unit coordinator)))"
    by (simp add: demo_coordinator_def demo_tools_def default_runtime_reads)
  ultimately show ?thesis
    using run_says_how_it_ended [OF run] run res by auto
qed

section \<open>Dispatch\<close>

lemma sink_event_recorded:
  assumes "run_task (append_tool_event rid n p) s = (Inr u, t)" and "synced s"
  shows "synced t \<and> map ev_type (ses_events (self t)) = map ev_type (ses_events (self s)) @ [n]"
proof -
  obtain e where "append_new n (Some rid) p s = (Inr e, t)"
    using assms(1) by (auto simp: append_tool_event_def bindE_eq_Inr retE_def)
  from append_new_appends [OF this assms(2)] show ?thesis by simp
qed

interpretation stages: event_recorder synced "\<lambda>s. map ev_type (ses_events (self s))" "append_tool_event rid" for rid
  by unfold_locales (auto simp: synced_def dest: sink_event_recorded)

text \<open>C20: A tool call whose dispatch returns has left its stages in the log, each once and in their order
  (the policy engine, which is outside code, reads the state and appends nothing):
  requested, then either rejected, or decided and, exactly when the effect of that decision is allow,
  started and completed; and the result says that the call started exactly when it was allowed.\<close>

theorem dispatch_leaves_stages:
  assumes "run_task (dispatch_call co rid call require_lease app) s = (Inr r, t)" and "synced s"
    and "policy_reads_only (co_dispatcher co)"
  shows "synced t \<and> map ev_type (ses_events (self t)) = map ev_type (ses_events (self s)) @ stages r \<and>
    dr_started r = was_allowed r"
proof -
  let ?ctx = "\<lambda>u. \<lparr>ctx_session = ses_id (self u), ctx_run = rid, ctx_app = app\<rparr>"
  obtain perm u where perm: "call_permission rid require_lease app s = (Inr perm, u)"
    and run: "run_task (dispatch (co_dispatcher co) call (?ctx u) perm (Some (append_tool_event rid))) u = (Inr r, t)"
    using assms(1) by (auto simp: dispatch_call_def run_task_rules bindE_eq_Inr get_self_def)
  have u: "world_only s u" by (rule advancesD [OF call_permission_world perm])
  have "advances stages.quiet (dsp_policy (co_dispatcher co) spec inp c)" for spec inp c
    by (rule advances_weaken [of world_only])
      (use assms(3) in \<open>auto simp: policy_reads_only_def stages.quiet_def synced_def world_only_def\<close>)
  from stages.dispatch_records [OF run _ this] show ?thesis
    using u assms(2) by (auto simp: world_only_def synced_def)
qed

definition demo_call :: tool_call_block where
  "demo_call = \<lparr>call_id = ''call_1'', call_name = ''absent'', call_input = []\<rparr>"

theorem dispatch_leaves_stages_witness:
  "\<exists>r t. run_task (dispatch_call demo_tools ''run_1'' demo_call False JNull) demo_renv = (Inr r, t) \<and>
     map ev_type (ses_events (self t)) = [''tool.requested'', ''tool.rejected'']"
proof -
  have "\<exists>r t. run_task (dispatch_call demo_tools ''run_1'' demo_call False JNull) demo_renv = (Inr r, t)
    \<and> dr_decision r = None"
    by (simp add: dispatch_call_def demo_tools_def default_runtime_def demo_call_def run_task_rules demo_renv_def
      env.extend_def demo_env_def call_permission_def authorization_def auth_from_events_def dispatch_def
      get_tool_def reject_call_def emit_to_def append_tool_event_def append_new_def append_event_def
      active_leases_now_def active_approvals_now_def auth_empty_def call_fields_def demo_ids
      dispatch_error_def session_eval store_eval one_session_def)
  then obtain r t where run: "run_task (dispatch_call demo_tools ''run_1'' demo_call False JNull) demo_renv = (Inr r, t)"
    and none: "dr_decision r = None" by blast
  have "policy_reads_only (co_dispatcher (demo_tools :: unit tool_runtime))"
    by (simp add: demo_tools_def default_runtime_reads)
  from dispatch_leaves_stages [OF run demo_run_synced this] run none show ?thesis
    by (auto simp: stages_def demo_renv_def env.extend_def demo_env_def)
qed

section \<open>Hooks\<close>

text \<open>C33: An emission that returns has called every handler of its event once, in ascending (priority,
  registration) order, and every fail-fast handler among them succeeded; with a mutating handler it
  only returns when its governance allows mutation.\<close>

theorem hooks_run_in_order:
  assumes "run_task (emit_hook bus name payload governance) s = (Inr d, t)"
  shows "map out_hook (disp_outcomes d) = map reg_id (registrations bus name) \<and>
    mset (registrations bus name) = mset (handlers_of bus name) \<and>
    sorted (map (\<lambda>r. (reg_priority r, reg_sequence r)) (registrations bus name)) \<and>
    list_all2 (\<lambda>r out. reg_policy r = FailFast \<longrightarrow> out_success out) (registrations bus name) (disp_outcomes d) \<and>
    ext_calls t = ext_calls s + length (registrations bus name) \<and>
    (list_ex reg_mutates (registrations bus name) \<longrightarrow> may_mutate governance)"
proof -
  let ?e = "\<lparr>hev_name = name, hev_payload = payload, hev_governance = governance\<rparr>"
  let ?rs = "registrations bus name"
  have ok: "\<not> (list_ex reg_mutates ?rs \<and> \<not> may_mutate governance)"
    using assms by (auto simp: emit_hook_def Let_def raiseE_def split: if_splits)
  with assms have "run_task (bindT (call_handlers ?e ?rs [])
      (\<lambda>outcomes. retT \<lparr>disp_event = ?e, disp_outcomes = outcomes\<rparr>)) s = (Inr d, t)"
    by (auto simp: emit_hook_def Let_def)
  then obtain outs where run: "run_task (call_handlers ?e ?rs []) s = (Inr outs, t)" and d: "disp_outcomes d = outs"
    by (auto simp: run_task_rules bindE_eq_Inr retE_def)
  obtain new where "outs = [] @ new" "map out_hook new = map reg_id ?rs"
    "list_all2 (\<lambda>r out. reg_policy r = FailFast \<longrightarrow> out_success out) ?rs new" "ext_calls t = ext_calls s + length ?rs"
    using call_handlers_Inr [OF run] .
  with d ok show ?thesis by (simp add: registrations_def)
qed

text \<open>Two handlers, registered in the order opposite to their priorities.\<close>

definition demo_hook :: "string \<Rightarrow> int \<Rightarrow> int \<Rightarrow> hook_registration" where
  "demo_hook i priority sequence =
     \<lparr>reg_id = i, reg_event = ''tool.before'', reg_handler = (\<lambda>_ _. Inr ()), reg_priority = priority,
      reg_sequence = sequence, reg_timeout = 5, reg_policy = FailFast, reg_mutates = False,
      reg_trusted = False, reg_source = ''test''\<rparr>"

definition two_hooks :: hook_bus where
  "two_hooks = \<lparr>bus_handlers = [(''tool.before'', [demo_hook ''late'' 9 1, demo_hook ''early'' 1 2])],
     bus_ids = {''late'', ''early''}, bus_sequence = 2, bus_timeout = 5\<rparr>"

lemma two_registrations: "registrations two_hooks ''tool.before'' = [demo_hook ''early'' 1 2, demo_hook ''late'' 9 1]"
  by (simp add: registrations_def handlers_of_def two_hooks_def demo_hook_def)

theorem hooks_run_in_order_witness:
  "\<exists>d t. run_task (emit_hook two_hooks ''tool.before'' [] None) demo_renv = (Inr d, t) \<and>
     map out_hook (disp_outcomes d) = [''early'', ''late'']"
proof -
  have "\<exists>d t. run_task (emit_hook two_hooks ''tool.before'' [] None) demo_renv = (Inr d, t)"
    by (simp add: emit_hook_def Let_def two_registrations demo_hook_def call_handler_def run_task_rules run_externalT
        eff_simps monotonic_def demo_renv_def env.extend_def)
  then obtain d t where "run_task (emit_hook two_hooks ''tool.before'' [] None) demo_renv = (Inr d, t)" by blast
  with hooks_run_in_order [OF this] show ?thesis by (auto simp: two_registrations demo_hook_def)
qed

text \<open>C39: A hook bus stays well formed whatever is registered and unregistered on it, whether the calls
  return or raise: identifiers and sequence numbers are unique, the set of identifiers is that of the
  registered hooks, each hook is listed under its event, mutating hooks are trusted and every time
  limit is positive.\<close>

theorem hook_bus_well_formed:
  assumes "new_hook_bus timeout = Inr bus"
  shows "bus_wf (fold run_bus_call calls bus)"
  using assms by (intro run_bus_calls_wf new_hook_bus_wf)

theorem hook_bus_well_formed_witness:
  "\<exists>bus. new_hook_bus (JInt 5) = Inr bus \<and> bus_wf (fold run_bus_call [UnregisterHook ''x''] bus)"
proof -
  obtain bus where bus: "new_hook_bus (JInt 5) = Inr bus"
    by (simp add: new_hook_bus_def positive_number_def)
  from hook_bus_well_formed [OF bus] bus show ?thesis by blast
qed

section \<open>The state machine\<close>

text \<open>C38: A call of run ends at most once and can always be ended: among the states that it records in
  run.state_changed events (which the code outside does not append itself) an end of a run (completed, failed, interrupted, cancelled: the states the
  coordinator's stop code tests for) can only be the last; the machine refuses every transition out of
  one of these and accepts failed, interrupted and cancelled from every other state.\<close>

theorem runs_end_once:
  assumes "well_behaved {''run.state_changed''} crd" and "rid \<noteq> ''''" and "synced s"
    and "t = snd (run_task (coordinator_run crd cfg user_message (Some rid) app) s)"
  shows "\<exists>es. ses_events (self t) = ses_events (self s) @ es \<and>
    (\<forall>st \<in> set TERMINAL_STATES. JStr (state_value st) \<notin> set (butlast (state_changes rid es)) \<and>
       (\<forall>target. transition st target = Inl (invalid_transition st target))) \<and>
    (\<forall>st. st \<notin> set TERMINAL_STATES \<longrightarrow>
       (\<forall>target \<in> {RunFailed, RunInterrupted, RunCancelled}. transition st target = Inr target))"
proof -
  obtain es start path where es: "ses_events (self t) = ses_events (self s) @ es"
    and path: "run_path start path (machine t)" "subseq (state_changes rid es) (state_texts path)"
    using run_states_path [OF assms(1-3)] assms(4) by (metis prod.collapse)
  have "JStr (state_value st) \<notin> set (butlast (state_changes rid es))" if "st \<in> set TERMINAL_STATES" for st
    using not_before_the_end [OF path] that by (simp add: ending_terminal)
  moreover have "transition st target = Inl (invalid_transition st target)" if "st \<in> set TERMINAL_STATES" for st target
    using that by (simp add: ending_terminal ending_iff transition_def)
  ultimately show ?thesis using es can_end by (auto simp: ending_terminal ending_def)
qed

theorem runs_end_once_witness:
  "\<exists>es. ses_events (self (snd (run_task
       (coordinator_run demo_coordinator demo_config None (Some ''run_1'') JNull) cancelled_renv))) = es \<and>
     JStr ''interrupted'' \<notin> set (butlast (state_changes ''run_1'' es))"
proof -
  have "synced cancelled_renv" using demo_run_synced by (simp add: cancelled_renv_def synced_def)
  from runs_end_once [OF demo_well_behaved _ this refl, of "''run_1''" demo_config None JNull]
  obtain es where es: "ses_events (self (snd (run_task
       (coordinator_run demo_coordinator demo_config None (Some ''run_1'') JNull) cancelled_renv))) = es"
    and none: "\<forall>st \<in> set TERMINAL_STATES. JStr (state_value st) \<notin> set (butlast (state_changes ''run_1'' es))"
    by (auto simp: cancelled_renv_def demo_renv_def env.extend_def demo_env_def)
  from none have "JStr (state_value RunInterrupted) \<notin> set (butlast (state_changes ''run_1'' es))"
    by (simp add: TERMINAL_STATES_def)
  with es show ?thesis by simp
qed

end
