(* ===== verification/Context_Facts.thy ===== *)
theory Context_Facts
  imports Run_Loop
begin

text \<open>
  Facts about the context of a turn: groups keep exchanges together, what a model claims stays out of
  the receipts, a bounded state is bounded, and a compaction keeps the end of the conversation.
\<close>

section \<open>Groups\<close>

text \<open>The calls open after a message of a group, and after several.\<close>

definition after_message :: "string set \<Rightarrow> message \<Rightarrow> string set" where
  "after_message p m = p - set (message_result_ids m) \<union> set (message_call_ids m)"

lemma group_tail_closed:
  assumes "group_tail p ms = (g, rest)" "rest \<noteq> []"
  shows "fold (\<lambda>m p. after_message p m) g p = {}"
  using assms
proof (induction p ms arbitrary: g rule: group_tail.induct)
  case (2 p m ms)
  obtain g' rest' where tail: "group_tail (after_message p m) ms = (g', rest')" by fastforce
  show ?case
    using "2.IH" [of g'] "2.prems" tail
    by (auto simp: after_message_def split: if_splits)
qed simp

text \<open>A call that is not open at the end has been answered after it was made.\<close>

lemma open_call_answered:
  assumes "c \<in> p" "c \<notin> fold (\<lambda>m p. after_message p m) g p"
  shows "\<exists>j < length g. c \<in> set (message_result_ids (g ! j))"
  using assms
proof (induction g arbitrary: p)
  case (Cons m g)
  show ?case
  proof (cases "c \<in> set (message_result_ids m)")
    case True
    then show ?thesis by (intro exI [of _ 0]) simp
  next
    case False
    then have "c \<in> after_message p m" using Cons.prems(1) by (simp add: after_message_def)
    with Cons.prems(2) Cons.IH [of "after_message p m"] obtain j
      where "j < length g" "c \<in> set (message_result_ids (g ! j))" by auto
    then show ?thesis by (intro exI [of _ "Suc j"]) simp
  qed
qed simp

lemma call_answered:
  assumes "fold (\<lambda>m p. after_message p m) g p = {}" and "i < length g" and "c \<in> set (message_call_ids (g ! i))"
  shows "\<exists>j < length g. i < j \<and> c \<in> set (message_result_ids (g ! j))"
  using assms
proof (induction g arbitrary: p i)
  case (Cons m g)
  show ?case
  proof (cases i)
    case 0
    then have "c \<in> after_message p m" using Cons.prems(3) by (simp add: after_message_def)
    with Cons.prems(1) open_call_answered [of c "after_message p m" g] obtain j
      where "j < length g" "c \<in> set (message_result_ids (g ! j))" by auto
    then show ?thesis using 0 by (intro exI [of _ "Suc j"]) simp
  next
    case (Suc k)
    with Cons.prems Cons.IH [of "after_message p m" k] obtain j
      where "j < length g" "k < j" "c \<in> set (message_result_ids (g ! j))" by auto
    then show ?thesis using Suc by (intro exI [of _ "Suc j"]) simp
  qed
qed simp

definition answered_in :: "message list \<Rightarrow> bool" where
  "answered_in g \<longleftrightarrow> (\<forall>i < length g. \<forall>c \<in> set (message_call_ids (g ! i)).
     (\<exists>j < length g. i < j \<and> c \<in> set (message_result_ids (g ! j))) \<or>
     (i = 0 \<and> c \<in> set (message_result_ids (g ! 0))))"

lemma closed_answered:
  assumes "fold (\<lambda>m p. after_message p m) g (set (message_call_ids m) - set (message_result_ids m)) = {}"
  shows "answered_in (m # g)"
  unfolding answered_in_def
proof (intro allI impI ballI)
  fix i c assume i: "i < length (m # g)" and c: "c \<in> set (message_call_ids ((m # g) ! i))"
  show "(\<exists>j < length (m # g). i < j \<and> c \<in> set (message_result_ids ((m # g) ! j))) \<or>
     (i = 0 \<and> c \<in> set (message_result_ids ((m # g) ! 0)))"
  proof (cases i)
    case 0
    show ?thesis
    proof (cases "c \<in> set (message_result_ids m)")
      case False
      then have "c \<in> set (message_call_ids m) - set (message_result_ids m)" using c 0 by simp
      with open_call_answered [OF this] assms obtain j
        where "j < length g" "c \<in> set (message_result_ids (g ! j))" by auto
      then show ?thesis using 0 by (intro disjI1 exI [of _ "Suc j"]) simp
    qed (use 0 in simp)
  next
    case (Suc k)
    with call_answered [OF assms, of k c] i c obtain j
      where "j < length g" "k < j" "c \<in> set (message_result_ids (g ! j))" by auto
    then show ?thesis using Suc by (intro disjI1 exI [of _ "Suc j"]) simp
  qed
qed

lemma groups_answered: "g \<in> set (butlast (group_tool_exchanges ms)) \<Longrightarrow> answered_in g"
proof (induction ms rule: group_tool_exchanges.induct)
  case (2 m ms)
  obtain g' rest where tail: "group_tail (set (message_call_ids m) - set (message_result_ids m)) ms = (g', rest)"
    by fastforce
  then have groups: "group_tool_exchanges (m # ms) = (m # g') # group_tool_exchanges rest"
    by (simp add: group_tool_exchanges.simps(2))
  show ?case
  proof (cases "rest = []")
    case True
    then show ?thesis using "2.prems" groups by simp
  next
    case False
    then have "group_tool_exchanges rest \<noteq> []" by (cases rest) (auto simp: group_tool_exchanges.simps(2) split: prod.split)
    then show ?thesis
      using "2.prems" "2.IH" [OF tail [symmetric] refl] closed_answered [OF group_tail_closed [OF tail False]]
      by (auto simp: groups)
  qed
qed simp

section \<open>What a model claims\<close>

lemma enrich_field_others:
  assumes "enrich_field cc seqs sources summary table fv = Inr table'" and "f \<noteq> fst fv"
  shows "table' f = table f"
  using assms unfolding enrich_field_def
  by (rule_tac foldR_invariant [where P = "\<lambda>t. t f = table f"]) (auto simp: add_fact_def bindR_Inr_iff)

lemma enrich_facts_others:
  assumes "enrich_facts cc seqs sources enrichment table = Inr table'" and "f \<notin> fst ` set SEMANTIC_FIELDS"
  shows "table' f = table f"
proof (cases "enrichment = None \<or> sources = []")
  case True
  then show ?thesis using assms(1) by (auto simp: enrich_facts_def split: option.splits)
next
  case False
  then obtain summary where "foldR (enrich_field cc seqs sources summary) table SEMANTIC_FIELDS = Inr table'"
    using assms(1) by (auto simp: enrich_facts_def)
  then show ?thesis
    by (rule foldR_invariant [where P = "\<lambda>t. t f = table f"])
      (use assms(2) in \<open>auto simp: image_iff enrich_field_others\<close>)
qed

lemma project_state_claims:
  assumes "project_state cc (pin\<lparr>pin_enrichment := e1\<rparr>) ms seqs = Inr st1"
    and "project_state cc (pin\<lparr>pin_enrichment := e2\<rparr>) ms seqs = Inr st2"
  shows "f \<notin> fst ` set SEMANTIC_FIELDS \<Longrightarrow> cst_facts st1 f = cst_facts st2 f"
    and "cst_artifacts st1 = cst_artifacts st2" and "event_cursor st1 = event_cursor st2"
proof -
  let ?prior = "case pin_previous pin of None \<Rightarrow> empty_context_state | Some st \<Rightarrow> st"
  let ?ordered = "unique_messages (ms @ pin_messages pin)"
  let ?ti = "tool_messages ?ordered"
  let ?facts = "\<lambda>e. project_facts cc (pin\<lparr>pin_enrichment := e\<rparr>) ?prior ?ti seqs (evidence_boundaries (pin_sources pin))"
  have facts: "\<exists>table artifacts. ?facts e = Inr table \<and> project_artifacts pin ?prior ?ordered ?ti seqs = Inr artifacts \<and>
      cst_facts st = (\<lambda>f. ordered_facts (table f)) \<and> cst_artifacts st = map snd artifacts \<and>
      event_cursor st = (let seq_list = List.map_filter ev_seq (pin_events pin) in
        if seq_list = [] then event_cursor ?prior else Max (set seq_list))"
    if run: "project_state cc (pin\<lparr>pin_enrichment := e\<rparr>) ms seqs = Inr st" for e st
  proof -
    have artifacts: "project_artifacts (pin\<lparr>pin_enrichment := e\<rparr>) = project_artifacts pin"
      by (simp add: project_artifacts_def fun_eq_iff)
    obtain table where table: "?facts e = Inr table"
      using run by (cases "?facts e") (simp_all add: project_state_def Let_def)
    obtain vs where vals: "project_artifacts pin ?prior ?ordered ?ti seqs = Inr vs"
      using run table
      by (cases "project_artifacts pin ?prior ?ordered ?ti seqs") (simp_all add: project_state_def Let_def artifacts)
    obtain obj src where "state_objective (pin\<lparr>pin_enrichment := e\<rparr>) ?prior ?ordered
        (evidence_boundaries (pin_sources pin)) = (obj, src)" by fastforce
    then show ?thesis
      using run table vals
      by (auto simp: project_state_def Let_def artifacts check_context_state_def split: if_splits)
  qed
  have others: "t1 f = t2 f" if "?facts e1 = Inr t1" "?facts e2 = Inr t2" "f \<notin> fst ` set SEMANTIC_FIELDS" for t1 t2 f
    using that by (auto simp: project_facts_def bindR_Inr_iff dest!: enrich_facts_others)
  obtain t1 a1 where one: "?facts e1 = Inr t1" "project_artifacts pin ?prior ?ordered ?ti seqs = Inr a1"
    "cst_facts st1 = (\<lambda>f. ordered_facts (t1 f))" "cst_artifacts st1 = map snd a1"
    "event_cursor st1 = (let seq_list = List.map_filter ev_seq (pin_events pin) in
        if seq_list = [] then event_cursor ?prior else Max (set seq_list))"
    using facts [OF assms(1)] by blast
  obtain t2 a2 where two: "?facts e2 = Inr t2" "project_artifacts pin ?prior ?ordered ?ti seqs = Inr a2"
    "cst_facts st2 = (\<lambda>f. ordered_facts (t2 f))" "cst_artifacts st2 = map snd a2"
    "event_cursor st2 = (let seq_list = List.map_filter ev_seq (pin_events pin) in
        if seq_list = [] then event_cursor ?prior else Max (set seq_list))"
    using facts [OF assms(2)] by blast
  show "cst_facts st1 f = cst_facts st2 f" if "f \<notin> fst ` set SEMANTIC_FIELDS"
    using others [OF one(1) two(1) that] one(3) two(3) by simp
  show "cst_artifacts st1 = cst_artifacts st2" "event_cursor st1 = event_cursor st2"
    using one two by simp_all
qed

section \<open>Bounding a state\<close>

lemma mapR_mem: "mapR f xs = Inr ys \<Longrightarrow> y \<in> set ys \<Longrightarrow> \<exists>x \<in> set xs. f x = Inr y"
  by (induction xs arbitrary: ys) (auto simp: bindR_Inr_iff)

lemma clipped_bounds:
  assumes "clipped n facts = Inr xs" and "0 \<le> n"
  shows "length xs \<le> 64" and "\<And>x. x \<in> set xs \<Longrightarrow> int (length (fact_text x)) \<le> n"
proof -
  obtain items where items: "mapR (\<lambda>x. check_fact (x\<lparr>fact_text := take (nat n) (fact_text x)\<rparr>)) facts = Inr items"
    and xs: "xs = last_items 64 (sort_key fact_recency items)"
    using assms(1) by (auto simp: clipped_def bindR_Inr_iff)
  show "length xs \<le> 64" by (simp add: xs last_items_def)
  have cut: "\<forall>x \<in> set items. length (fact_text x) \<le> nat n"
    using items
  proof (induction facts arbitrary: items)
    case (Cons y ys)
    then show ?case
      by (auto simp: bindR_Inr_iff check_fact_def split: if_splits)
  qed simp
  have "set xs \<subseteq> set items" using set_drop_subset by (auto simp: xs last_items_def dest: in_set_dropD)
  with cut assms(2) show "\<And>x. x \<in> set xs \<Longrightarrow> int (length (fact_text x)) \<le> n" by fastforce
qed

lemma mem_enumerate: "x \<in> set xs \<Longrightarrow> \<exists>i. (i, x) \<in> set (enumerate (0 :: nat) xs)"
proof -
  assume "x \<in> set xs"
  then obtain i where "i < length xs" "xs ! i = x" by (auto simp: in_set_conv_nth)
  then have "(i, x) \<in> set (enumerate 0 xs)" by (simp add: in_set_enumerate_eq)
  then show ?thesis ..
qed

lemma no_candidates: "eviction_candidates st = [] \<longleftrightarrow> (\<forall>f. cst_facts st f = [])"
proof
  assume none: "eviction_candidates st = []"
  show "\<forall>f. cst_facts st f = []"
  proof
    fix f
    have "\<exists>row \<in> set EVICTION_TIERS. f \<in> set row"
      by (cases f) (simp_all add: EVICTION_TIERS_def)
    then obtain i row where row: "(i, row) \<in> set (enumerate 0 EVICTION_TIERS)" "f \<in> set row"
      using mem_enumerate by metis
    then obtain j where j: "(j, f) \<in> set (enumerate 0 row)" using mem_enumerate by metis
    show "cst_facts st f = []"
      using none row(1) j
      by (cases "cst_facts st f") (fastforce simp: eviction_candidates_def List.map_filter_def filter_empty_conv)+
  qed
qed (auto simp: eviction_candidates_def List.map_filter_def)

text \<open>Eviction only shortens lists of facts, from their front.\<close>

lemma evict_result:
  "\<exists>k. evict_facts cc n st = st\<lparr>cst_facts := (\<lambda>f. drop (k f) (cst_facts st f))\<rparr> \<and>
       (state_tokens cc (evict_facts cc n st) \<le> n \<or> (\<forall>f. cst_facts (evict_facts cc n st) f = []))"
proof (induction cc n st rule: evict_facts.induct)
  case (1 cc n st)
  show ?case
  proof (cases "state_tokens cc st > n \<and> sort_key fst (eviction_candidates st) \<noteq> []")
    case True
    then obtain key evicted rest where cand: "sort_key fst (eviction_candidates st) = (key, evicted) # rest"
      by (cases "sort_key fst (eviction_candidates st)") auto
    then have step: "evict_facts cc n st = evict_facts cc n (drop_first_fact evicted st)"
      using True by (subst evict_facts.simps) simp
    obtain k where k: "evict_facts cc n (drop_first_fact evicted st) =
        (drop_first_fact evicted st)\<lparr>cst_facts := (\<lambda>f. drop (k f) (cst_facts (drop_first_fact evicted st) f))\<rparr>"
      and fin: "state_tokens cc (evict_facts cc n (drop_first_fact evicted st)) \<le> n \<or>
        (\<forall>f. cst_facts (evict_facts cc n (drop_first_fact evicted st)) f = [])"
      using 1 True cand by blast
    have "(\<lambda>f. drop (k f) (cst_facts (drop_first_fact evicted st) f)) =
        (\<lambda>f. drop ((k(evicted := Suc (k evicted))) f) (cst_facts st f))"
      by (auto simp: drop_first_fact_def fun_eq_iff drop_Suc)
    with k have "evict_facts cc n st = st\<lparr>cst_facts := (\<lambda>f. drop ((k(evicted := Suc (k evicted))) f) (cst_facts st f))\<rparr>"
      by (simp add: step drop_first_fact_def)
    with fin step show ?thesis by (intro exI [of _ "k(evicted := Suc (k evicted))"]) simp
  next
    case False
    then have "evict_facts cc n st = st" by (subst evict_facts.simps) (auto split: list.split)
    moreover have "sort_key fst (eviction_candidates st) = [] \<Longrightarrow> \<forall>f. cst_facts st f = []"
      using no_candidates [of st] by (metis length_0_conv length_sort)
    ultimately show ?thesis using False by (intro exI [of _ "\<lambda>_. 0"]) auto
  qed
qed

lemma bound_state_bounds:
  assumes "bound_state cc policy st = Inr st'" and "0 \<le> summary_fact_max_chars policy"
  shows "int (length (cst_objective st')) \<le> summary_fact_max_chars policy"
    and "length (cst_messages st') \<le> 128" and "length (cst_seqs st') \<le> 128"
    and "length (cst_facts st' f) \<le> 64"
    and "x \<in> set (cst_facts st' f) \<Longrightarrow> int (length (fact_text x)) \<le> summary_fact_max_chars policy"
    and "state_tokens cc st' \<le> summary_max_tokens policy \<or> (\<forall>f. cst_facts st' f = [])"
proof -
  let ?n = "summary_fact_max_chars policy"
  obtain table where table: "mapR (\<lambda>f. clipped ?n (cst_facts st f)) FACT_FIELDS = Inr table"
    and st': "st' = evict_facts cc (summary_max_tokens policy)
          (st\<lparr>cst_objective := take (nat ?n) (cst_objective st),
              cst_messages := last_items 128 (cst_messages st), cst_seqs := last_items 128 (cst_seqs st),
              cst_facts := (\<lambda>f. case map_of (zip FACT_FIELDS table) f of None \<Rightarrow> [] | Some xs \<Rightarrow> xs)\<rparr>)"
      (is "_ = evict_facts _ _ ?st")
    using assms(1) by (auto simp: bound_state_def Let_def bindR_Inr_iff)
  obtain k where k: "st' = ?st\<lparr>cst_facts := (\<lambda>f. drop (k f) (cst_facts ?st f))\<rparr>"
    and fin: "state_tokens cc st' \<le> summary_max_tokens policy \<or> (\<forall>f. cst_facts st' f = [])"
    using evict_result [of cc "summary_max_tokens policy" ?st] unfolding st' by blast
  have "\<exists>f. clipped ?n (cst_facts st f) = Inr xs" if "xs \<in> set table" for xs
    using mapR_mem [OF table that] by blast
  then have tab: "xs \<in> set table \<Longrightarrow> length xs \<le> 64" "xs \<in> set table \<Longrightarrow> x \<in> set xs \<Longrightarrow> int (length (fact_text x)) \<le> ?n" for xs x
    using clipped_bounds [OF _ assms(2)] by blast+
  have facts: "cst_facts ?st f = [] \<or> cst_facts ?st f \<in> set table"
    by (auto split: option.split dest!: map_of_SomeD set_zip_rightD)
  show "int (length (cst_objective st')) \<le> ?n" using assms(2) by (simp add: k)
  show "length (cst_messages st') \<le> 128" "length (cst_seqs st') \<le> 128" by (simp_all add: k last_items_def)
  show "length (cst_facts st' f) \<le> 64" using facts tab(1) [of "cst_facts ?st f"] by (auto simp: k)
  show "int (length (fact_text x)) \<le> ?n" if "x \<in> set (cst_facts st' f)"
    using that facts tab(2) [of "cst_facts ?st f" x] by (auto simp: k dest: in_set_dropD)
  show "state_tokens cc st' \<le> summary_max_tokens policy \<or> (\<forall>f. cst_facts st' f = [])" by (rule fin)
qed

section \<open>What a compaction keeps\<close>

lemma tail_is_suffix:
  assumes "tail_loop cc budget [length gs..<n] tokens gs = selected" and "length gs \<le> n"
  shows "\<exists>m \<le> length gs. selected = [m..<n] \<and> (gs \<noteq> [] \<longrightarrow> length gs = n \<longrightarrow> m < n)"
  using assms
proof (induction gs arbitrary: tokens)
  case (Cons g gs)
  show ?case
  proof (cases "[length (g # gs)..<n] = [] \<or> tokens + estimate_messages_tokens cc g \<le> budget")
    case True
    have "length gs # [length (g # gs)..<n] = [length gs..<n]"
      using Cons.prems(2) upt_conv_Cons [of "length gs" n] by simp
    then have "tail_loop cc budget [length gs..<n] (tokens + estimate_messages_tokens cc g) gs = selected"
      using Cons.prems(1) True by (simp add: Let_def)
    with Cons.IH Cons.prems(2) obtain m where "m \<le> length gs" "selected = [m..<n]" by fastforce
    then show ?thesis using Cons.prems(2) by (intro exI [of _ m]) simp
  next
    case False
    then have "selected = [length (g # gs)..<n]" using Cons.prems(1) by (auto simp: Let_def)
    then show ?thesis using False by (intro exI [of _ "length (g # gs)"]) auto
  qed
qed auto

lemma suffix_split:
  assumes "m \<le> length groups"
  shows "retained_of groups [m..<length groups] = concat (drop m groups)"
    and "omitted_of groups [m..<length groups] = concat (take m groups)"
proof -
  have "map ((!) groups) [m..<length groups] = drop m groups"
    by (rule nth_equalityI) (simp_all add: nth_drop)
  then show "retained_of groups [m..<length groups] = concat (drop m groups)"
    by (simp add: retained_of_def)
  have "map snd (filter (\<lambda>(i, g). i \<notin> set [m..<length groups]) (enumerate 0 groups)) = take m groups"
  proof -
    have "enumerate 0 groups = enumerate 0 (take m groups) @ enumerate m (drop m groups)"
      using assms enumerate_append_eq [of 0 "take m groups" "drop m groups"] by (simp add: min_def)
    moreover have "filter (\<lambda>(i, g). i \<notin> set [m..<length groups]) (enumerate 0 (take m groups)) = enumerate 0 (take m groups)"
      by (auto simp: filter_id_conv in_set_enumerate_eq)
    moreover have "filter (\<lambda>(i, g). i \<notin> set [m..<length groups]) (enumerate m (drop m groups)) = []"
      by (auto simp: filter_empty_conv in_set_enumerate_eq)
    ultimately show ?thesis by simp
  qed
  then show "omitted_of groups [m..<length groups] = concat (take m groups)"
    by (simp add: omitted_of_def)
qed

lemma pass_result:
  assumes "run_task (compaction_pass cc job indexes) s = (Inr out, t)"
  shows "out_retained out = retained_of (job_groups job) indexes \<and> out_omitted out = omitted_of (job_groups job) indexes \<and>
    out_after_tokens out = full_tokens cc (asm_system_prompt (job_assembled job))
      (out_summary out # out_retained out) (job_assembled job)"
  using assms
  by (auto simp: compaction_pass_def Let_def run_task_rules bindE_eq_Inr retE_def split: prod.splits)

text \<open>The passes drop one group after the other from the front of the tail.\<close>

lemma loop_result:
  assumes "run_task (compaction_loop cc job target indexes) s = (Inr out, t)"
  shows "\<exists>k. (k < length indexes \<or> indexes = []) \<and> out_retained out = retained_of (job_groups job) (drop k indexes) \<and>
    out_omitted out = omitted_of (job_groups job) (drop k indexes) \<and>
    out_after_tokens out = full_tokens cc (asm_system_prompt (job_assembled job))
      (out_summary out # out_retained out) (job_assembled job) \<and>
    (out_after_tokens out \<le> target \<or> out_after_tokens out \<le> input_capacity (asm_budget (job_assembled job)))"
  using assms
proof (induction "length indexes" arbitrary: indexes s)
  case 0
  then obtain out' u where pass: "run_task (compaction_pass cc job []) s = (Inr out', u)"
    and rest: "out' = out" "out_after_tokens out \<le> target \<or> out_after_tokens out \<le> input_capacity (asm_budget (job_assembled job))"
    by (subst (asm) compaction_loop.simps)
      (auto simp: run_task_rules bindE_eq_Inr retE_def raiseE_def split: if_splits)
  then show ?case using pass_result [OF pass] 0 by (intro exI [of _ 0]) simp
next
  case (Suc n)
  obtain out' u where pass: "run_task (compaction_pass cc job indexes) s = (Inr out', u)"
    and rest: "run_task (if out_after_tokens out' \<le> target then retT out'
       else if length indexes \<le> 1 then
         (if out_after_tokens out' \<le> input_capacity (asm_budget (job_assembled job)) then retT out'
          else raiseT (window_exceeded ''Context summary and the newest closed group exceed the input budget''))
       else compaction_loop cc job target (tl indexes)) u = (Inr out, t)"
    using Suc.prems by (subst (asm) compaction_loop.simps) (auto simp: run_task_bindT bindE_eq_Inr)
  show ?case
  proof (cases "out_after_tokens out' \<le> target \<or> length indexes \<le> 1")
    case True
    then have "out' = out" "out_after_tokens out \<le> target \<or> out_after_tokens out \<le> input_capacity (asm_budget (job_assembled job))"
      using rest by (auto simp: retE_def raiseE_def split: if_splits)
    then show ?thesis using pass_result [OF pass] Suc(2) by (intro exI [of _ 0]) simp
  next
    case False
    then have "run_task (compaction_loop cc job target (tl indexes)) u = (Inr out, t)" using rest by auto
    moreover have "n = length (tl indexes)" using Suc(2) by simp
    ultimately obtain k where k: "k < length (tl indexes) \<or> tl indexes = []"
      "out_retained out = retained_of (job_groups job) (drop k (tl indexes))"
      "out_omitted out = omitted_of (job_groups job) (drop k (tl indexes))"
      "out_after_tokens out = full_tokens cc (asm_system_prompt (job_assembled job))
        (out_summary out # out_retained out) (job_assembled job)"
      "out_after_tokens out \<le> target \<or> out_after_tokens out \<le> input_capacity (asm_budget (job_assembled job))"
      using Suc.hyps(1) by blast
    moreover have "Suc k < length indexes" using k(1) False by (cases indexes) auto
    moreover have "drop (Suc k) indexes = drop k (tl indexes)" by (simp add: drop_Suc)
    ultimately show ?thesis by (intro exI [of _ "Suc k"]) simp
  qed
qed

lemma target_within:
  assumes "check_compaction_policy p = Inr q" and "0 \<le> capacity"
  shows "target_tokens_of p capacity \<le> capacity"
proof -
  have "compaction_target_ratio p \<le> 1" using assms(1) by (auto simp: check_compaction_policy_def split: if_splits)
  then have "rat_of_int capacity * compaction_target_ratio p \<le> rat_of_int capacity * 1"
    using assms(2) by (intro mult_left_mono) simp_all
  then show ?thesis by (simp add: target_tokens_of_def floor_le_iff le_less_trans)
qed

lemma compaction_result:
  assumes run: "run_task (compact_assembled cc asm tools policy events reader generator trigger) s = (Inr cpl, t)"
    and policy: "check_compaction_policy policy = Inr policy" and room: "0 \<le> input_capacity (asm_budget asm)"
  obtains previous ids dropped kept summary where
    "previous_context_state cc None [] (asm_messages asm) = Inr (previous, ids)"
    "group_tool_exchanges (filter (\<lambda>m. msg_id m \<notin> set ids) (asm_messages asm)) = dropped @ kept"
    "dropped \<noteq> []" "kept \<noteq> []" "cpl_messages cpl = summary # concat kept"
    "cpl_estimated_tokens cpl = full_tokens cc (asm_system_prompt asm) (cpl_messages cpl) asm"
    "cpl_estimated_tokens cpl \<le> input_capacity (asm_budget asm)"
proof -
  obtain previous ids where prev: "previous_context_state cc None [] (asm_messages asm) = Inr (previous, ids)"
    using run
    by (cases "previous_context_state cc None [] (asm_messages asm)")
      (auto simp: compact_assembled_def run_task_rules bindE_def liftE_def raiseE_def)
  define groups where "groups = group_tool_exchanges (filter (\<lambda>m. msg_id m \<notin> set ids) (asm_messages asm))"
  have two: "2 \<le> length groups"
  proof (rule ccontr)
    assume "\<not> 2 \<le> length groups"
    then have "length groups < 2" by simp
    then show False
      using run prev
      by (simp add: compact_assembled_def Let_def run_task_rules bindE_def liftE_def retE_def raiseE_def
          groups_def [symmetric])
  qed
  obtain job target tail indexes outcome u where
    tail: "initial_tail_indexes cc groups asm policy = Inr tail"
    and indexes: "indexes = (if length tail = length groups then tl tail else tail)"
    and loop: "run_task (compaction_loop cc job (target_tokens_of policy (input_capacity (asm_budget asm))) indexes) u
      = (Inr outcome, t)"
    and job: "job_assembled job = asm" "job_groups job = groups"
    and cpl: "cpl_messages cpl = out_summary outcome # out_retained outcome"
      "cpl_estimated_tokens cpl = out_after_tokens outcome"
    using run prev two
    by (auto simp: compact_assembled_def Let_def run_task_rules bindE_eq_Inr liftE_def retE_def raiseE_def
        groups_def [symmetric] split: sum.splits)
  obtain m where m: "m < length groups" "tail = [m..<length groups]"
  proof -
    obtain b where "tail_loop cc b [length (rev groups)..<length groups] 0 (rev groups) = tail"
      using tail by (auto simp: initial_tail_indexes_def Let_def bindR_Inr_iff)
    from tail_is_suffix [OF this] two that show thesis by fastforce
  qed
  define m' where "m' = (if m = 0 then 1 else m)"
  have m': "0 < m'" "m' < length groups" "indexes = [m'..<length groups]"
    using m two by (auto simp: m'_def indexes upt_conv_Cons)
  obtain k where k: "k < length indexes \<or> indexes = []"
    "out_retained outcome = retained_of groups (drop k indexes)"
    "out_after_tokens outcome = full_tokens cc (asm_system_prompt asm) (out_summary outcome # out_retained outcome) asm"
    "out_after_tokens outcome \<le> target_tokens_of policy (input_capacity (asm_budget asm)) \<or>
     out_after_tokens outcome \<le> input_capacity (asm_budget asm)"
    using loop_result [OF loop] unfolding job by blast
  have less: "m' + k < length groups" using k(1) m' by auto
  then have "out_retained outcome = concat (drop (m' + k) groups)"
    using k(2) m'(3) suffix_split(1) [of "m' + k" groups] by (simp add: drop_upt)
  moreover have "out_after_tokens outcome \<le> input_capacity (asm_budget asm)"
    using k(4) target_within [OF policy room] by auto
  ultimately show thesis
    using less m'(1) k(3) cpl two
    by (intro that [OF prev, of "take (m' + k) groups" "drop (m' + k) groups" "out_summary outcome"])
      (auto simp: groups_def [symmetric])
qed

end
