(* ===== verification/Context_Properties.thy ===== *)
theory Context_Properties
  imports Runtime_Properties Context_Facts
begin

text \<open>The properties of the contexts a run shows its model.\<close>

section \<open>Compaction\<close>

text \<open>C16: Compaction keeps the newest part of the conversation word for word: where it succeeds the new
  messages are one summary followed by the messages of the last groups, groups being cut only between
  closed exchanges, at least one group goes and at least one stays, and the recounted estimate is within
  the input capacity.\<close>

theorem compaction_keeps_the_end:
  assumes "run_task (compact_assembled cc asm tools policy events reader generator trigger) s = (Inr cpl, t)"
    and "check_compaction_policy policy = Inr policy" and "0 \<le> input_capacity (asm_budget asm)"
  shows "\<exists>previous ids dropped kept summary.
    previous_context_state cc None [] (asm_messages asm) = Inr (previous, ids) \<and>
    group_tool_exchanges (filter (\<lambda>m. msg_id m \<notin> set ids) (asm_messages asm)) = dropped @ kept \<and>
    dropped \<noteq> [] \<and> kept \<noteq> [] \<and> cpl_messages cpl = summary # concat kept \<and>
    cpl_estimated_tokens cpl = full_tokens cc (asm_system_prompt asm) (cpl_messages cpl) asm \<and>
    cpl_estimated_tokens cpl \<le> input_capacity (asm_budget asm)"
  by (rule compaction_result [OF assms]) blast

text \<open>A short conversation, compacted.\<close>

definition reply :: message where
  "reply = \<lparr>msg_role = Assistant, msg_content = [TextBlock ''ok'' False], msg_id = ''msg_2'', msg_metadata = []\<rparr>"

definition short_talk :: assembled_context where
  "short_talk = \<lparr>asm_system_prompt = '''', asm_system_blocks = [], asm_messages = [hello, reply],
     asm_artifacts = [], asm_estimated_tokens = 20,
     asm_budget = \<lparr>context_window = 1000, reserved_output = 100, tool_schema_tokens = 0, safety_margin = 0\<rparr>\<rparr>"

definition short_compaction where
  "short_compaction = compact_assembled demo_codec short_talk [] default_compaction_policy [] None
     DeterministicSummaryGenerator ''auto''"

lemma short_compaction_succeeds:
  "\<not> isl (fst (run_task (short_compaction :: (renv, compiled_context) task) demo_renv))"
  by code_simp

lemma not_islE:
  assumes "\<not> isl x"
  obtains y where "x = Inr y"
  using assms by (cases x) simp_all

lemma returned: "\<not> isl (fst p) \<Longrightarrow> \<exists>x t. p = (Inr x, t)"
  by (cases p; cases "fst p") simp_all

lemma compaction_keeps_the_end_witness:
  "\<exists>cpl t previous ids dropped kept summary.
    run_task (short_compaction :: (renv, compiled_context) task) demo_renv = (Inr cpl, t) \<and>
    previous_context_state demo_codec None [] [hello, reply] = Inr (previous, ids) \<and>
    group_tool_exchanges (filter (\<lambda>m. msg_id m \<notin> set ids) [hello, reply]) = dropped @ kept \<and>
    dropped \<noteq> [] \<and> kept \<noteq> [] \<and> cpl_messages cpl = summary # concat kept \<and> cpl_estimated_tokens cpl \<le> 900"
proof -
  obtain cpl t where ran: "run_task (short_compaction :: (renv, compiled_context) task) demo_renv = (Inr cpl, t)"
    using returned [OF short_compaction_succeeds] by blast
  have policy: "check_compaction_policy default_compaction_policy = Inr default_compaction_policy"
    by code_simp
  have talk: "asm_messages short_talk = [hello, reply]" "input_capacity (asm_budget short_talk) = 900"
    by (simp_all add: short_talk_def input_capacity_def)
  have "\<exists>previous ids dropped kept summary.
    previous_context_state demo_codec None [] [hello, reply] = Inr (previous, ids) \<and>
    group_tool_exchanges (filter (\<lambda>m. msg_id m \<notin> set ids) [hello, reply]) = dropped @ kept \<and>
    dropped \<noteq> [] \<and> kept \<noteq> [] \<and> cpl_messages cpl = summary # concat kept \<and> cpl_estimated_tokens cpl \<le> 900"
    using compaction_keeps_the_end [OF ran [unfolded short_compaction_def] policy, unfolded talk] by fastforce
  with ran show ?thesis by blast
qed

section \<open>What is never split and never claimed\<close>

text \<open>C30: Grouping and chunking keep the conversation and its exchanges: the groups, put together, are
  the messages in their order, no group is empty, every group but the last answers each tool call it
  holds, and the chunks the model summarises are runs of whole groups that together are the omitted
  messages.\<close>

theorem groups_keep_exchanges:
  "concat (group_tool_exchanges ms) = ms \<and> [] \<notin> set (group_tool_exchanges ms) \<and>
   (\<forall>g \<in> set (butlast (group_tool_exchanges ms)). answered_in g) \<and>
   concat (map omitted_messages (summary_chunks cc limit r)) = omitted_messages r \<and>
   (omitted_messages r \<noteq> [] \<longrightarrow> (\<forall>c \<in> set (summary_chunks cc limit r).
      \<exists>gs. omitted_messages c = concat gs \<and> set gs \<subseteq> set (group_tool_exchanges (omitted_messages r))))"
  by (simp add: concat_groups groups_nonempty groups_answered chunks_concat chunk_at_group_bounds)

definition asking :: message where
  "asking = \<lparr>msg_role = Assistant, msg_content = [ToolCall ''c'' ''t'' []],
     msg_id = ''msg_3'', msg_metadata = []\<rparr>"

definition answering :: message where
  "answering = \<lparr>msg_role = User, msg_content = [ToolResult ''c'' ''r'' False []],
     msg_id = ''msg_4'', msg_metadata = []\<rparr>"

lemma exchange_groups: "group_tool_exchanges [asking, answering, hello] = [[asking, answering], [hello]]"
  by code_simp

theorem groups_keep_exchanges_witness: "answered_in [asking, answering]"
  using groups_keep_exchanges [of "[asking, answering, hello]"] by (simp add: exchange_groups)

text \<open>C17: What a model's summary says never becomes a fact of the record: the facts of the fact fields for
  receipts (files, verified states, tools, artifacts and the rest), the artifacts and the cursor of a
  projected state are the same whatever the summary claims; of the fact fields only the four semantic ones
  differ. (The objective and the source identifiers, which hold no facts, may follow the summary.)\<close>

theorem claims_are_no_receipts:
  assumes "project_state cc (pin\<lparr>pin_enrichment := e1\<rparr>) ms seqs = Inr st1"
    and "project_state cc (pin\<lparr>pin_enrichment := e2\<rparr>) ms seqs = Inr st2"
  shows "(\<forall>f. f \<notin> {Constraints, Decisions, OpenQuestions, NextSteps} \<longrightarrow> cst_facts st1 f = cst_facts st2 f) \<and>
    cst_artifacts st1 = cst_artifacts st2 \<and> event_cursor st1 = event_cursor st2"
  using project_state_claims [OF assms] by (simp add: SEMANTIC_FIELDS_def)

text \<open>The first message of the talk, projected with and without a summary.\<close>

definition short_pin :: projection_input where
  "short_pin = \<lparr>pin_messages = [hello, reply], pin_objective_messages = [hello, reply], pin_events = [],
     pin_tools = [], pin_artifacts = [], pin_previous = None, pin_enrichment = None,
     pin_sources = [''msg_1''], pin_previous_id = None, pin_omitted = 1, pin_strategy = ''rolling_summary''\<rparr>"

definition boast :: structured_summary where
  "boast = (deterministic_summary \<lparr>omitted_messages = [hello], retained_messages = [reply],
     sreq_system_prompt = '''', sreq_artifact_ids = []\<rparr>)
     \<lparr>sum_verified_state := [''all tests pass''], sum_decisions := [''ship it'']\<rparr>"

lemma short_projections:
  "\<not> isl (project_state demo_codec (short_pin\<lparr>pin_enrichment := None\<rparr>) [] [])"
  "case project_state demo_codec (short_pin\<lparr>pin_enrichment := Some boast\<rparr>) [] [] of
     Inl _ \<Rightarrow> False | Inr st \<Rightarrow> map fact_text (cst_facts st Decisions) = [''ship it'']"
  by code_simp+

theorem claims_are_no_receipts_witness:
  "\<exists>st1 st2. project_state demo_codec (short_pin\<lparr>pin_enrichment := None\<rparr>) [] [] = Inr st1 \<and>
     project_state demo_codec (short_pin\<lparr>pin_enrichment := Some boast\<rparr>) [] [] = Inr st2 \<and>
     cst_facts st1 Verified = cst_facts st2 Verified \<and> map fact_text (cst_facts st2 Decisions) = [''ship it'']"
proof -
  obtain st1 where one: "project_state demo_codec (short_pin\<lparr>pin_enrichment := None\<rparr>) [] [] = Inr st1"
    using short_projections(1) by (blast elim: not_islE)
  obtain st2 where two: "project_state demo_codec (short_pin\<lparr>pin_enrichment := Some boast\<rparr>) [] [] = Inr st2"
    "map fact_text (cst_facts st2 Decisions) = [''ship it'']"
    using short_projections(2)
    by (cases "project_state demo_codec (short_pin\<lparr>pin_enrichment := Some boast\<rparr>) [] []") simp_all
  from claims_are_no_receipts [OF one two(1)] have "cst_facts st1 Verified = cst_facts st2 Verified" by simp
  with one two show ?thesis by (intro exI conjI)
qed

text \<open>C31: A carried state is bounded before it is written, whatever was projected: the objective and
  every fact have at most summary_fact_max_chars characters, a field has at most 64 facts, 128 message
  identifiers and sequence numbers are kept, and the state is within summary_max_tokens unless no fact is
  left to give up.\<close>

theorem bounded_state:
  assumes "bound_state cc policy st = Inr st'" and "check_compaction_policy policy = Inr policy"
  shows "int (length (cst_objective st')) \<le> summary_fact_max_chars policy \<and>
    length (cst_messages st') \<le> 128 \<and> length (cst_seqs st') \<le> 128 \<and>
    (\<forall>f. length (cst_facts st' f) \<le> 64 \<and>
      (\<forall>x \<in> set (cst_facts st' f). int (length (fact_text x)) \<le> summary_fact_max_chars policy)) \<and>
    (state_tokens cc st' \<le> summary_max_tokens policy \<or> (\<forall>f. cst_facts st' f = []))"
proof -
  have "0 \<le> summary_fact_max_chars policy"
    using assms(2) by (auto simp: check_compaction_policy_def split: if_splits)
  from bound_state_bounds [OF assms(1) this] show ?thesis by blast
qed

definition long_state :: context_state where
  "long_state = empty_context_state\<lparr>cst_objective := replicate 3000 CHR ''x'',
     cst_seqs := [1..200]\<rparr>"

definition short_policy :: compaction_policy where
  "short_policy = default_compaction_policy\<lparr>summary_fact_max_chars := 200\<rparr>"

theorem bounded_state_witness:
  "\<exists>st. bound_state demo_codec short_policy long_state = Inr st \<and> length (cst_objective st) \<le> 200 \<and>
     length (cst_seqs st) \<le> 128"
proof -
  have "\<not> isl (bound_state demo_codec short_policy long_state)"
    by (simp add: bound_state_def Let_def short_policy_def default_compaction_policy_def long_state_def
        empty_context_state_def clipped_def FACT_FIELDS_def)
  then obtain st where st: "bound_state demo_codec short_policy long_state = Inr st" by (rule not_islE)
  have "check_compaction_policy short_policy = Inr short_policy" by code_simp
  from bounded_state [OF st this] have "length (cst_objective st) \<le> 200 \<and> length (cst_seqs st) \<le> 128"
    by (simp add: short_policy_def)
  with st show ?thesis by blast
qed

end
