(* ===== verification/Agent_Types.thy ===== *)
theory Agent_Types
  imports Context_Types
begin

text \<open>
  The durable types of the subagent coordinator, \<^verbatim>\<open>aihi/agent/agents/types.py\<close>: task states, budgets,
  specifications, results and nodes, what their constructors check, and their dictionaries. Costs and
  time limits are exact rationals where the program has floats. A \<^verbatim>\<open>from_dict\<close> that fills in a creation
  time reads the clock whether or not it needs the time.
\<close>

section \<open>Checked values\<close>

definition agent_invalid :: "string \<Rightarrow> exn" where
  "agent_invalid m = Exn (Agent AgentValidationError) m"

text \<open>\<^verbatim>\<open>_text\<close>, and with its default limit.\<close>

definition agent_text :: "jval \<Rightarrow> string \<Rightarrow> nat \<Rightarrow> exn + string" where
  "agent_text v name max_length =
     (case v of
        JStr s \<Rightarrow>
          (if blank s then Inl (agent_invalid (name @ '' must be a non-empty string''))
           else if length (strip s) > max_length
           then Inl (agent_invalid (name @ '' exceeds '' @ show_nat max_length @ '' characters''))
           else Inr (strip s))
      | _ \<Rightarrow> Inl (agent_invalid (name @ '' must be a non-empty string'')))"

definition agent_int :: "jval \<Rightarrow> string \<Rightarrow> exn + int" where
  "agent_int v name =
     (case v of JInt i \<Rightarrow> Inr i | _ \<Rightarrow> Inl (agent_invalid (name @ '' must be an integer'')))"

definition agent_mapping :: "jval \<Rightarrow> string \<Rightarrow> exn + jobj" where
  "agent_mapping v name =
     (case v of JObj d \<Rightarrow> Inr d | _ \<Rightarrow> Inl (agent_invalid (name @ '' must be a JSON object'')))"

definition agent_capabilities :: "string set \<Rightarrow> exn + string set" where
  "agent_capabilities caps =
     bindR (mapR (\<lambda>c. agent_text (JStr c) ''capability'' 256) (sorted_list_of_set caps)) (\<lambda>cs. Inr (set cs))"

definition agent_strings :: "string list \<Rightarrow> string \<Rightarrow> exn + string list" where
  "agent_strings xs name = mapR (\<lambda>x. agent_text (JStr x) name 4096) xs"

definition agent_json_object :: "jobj \<Rightarrow> string \<Rightarrow> exn + jobj" where
  "agent_json_object d name =
     (if json_ok_obj d then Inr d else Inl (agent_invalid (name @ '' must be JSON serializable'')))"

text \<open>A list all of whose items are strings.\<close>

fun all_strings :: "jval list \<Rightarrow> string list option" where
  "all_strings [] = Some []"
| "all_strings (JStr s # vs) = map_option ((#) s) (all_strings vs)"
| "all_strings (_ # vs) = None"

lemma all_strings_map [simp]: "all_strings (map JStr xs) = Some xs"
  by (induction xs) simp_all

section \<open>States\<close>

datatype agent_state =
    AgentPending | AgentRunning | AgentWaiting | AgentCompleted | AgentFailed | AgentCancelled
  | AgentInterrupted

fun agent_state_text :: "agent_state \<Rightarrow> string" where
  "agent_state_text AgentPending = ''pending''"
| "agent_state_text AgentRunning = ''running''"
| "agent_state_text AgentWaiting = ''waiting''"
| "agent_state_text AgentCompleted = ''completed''"
| "agent_state_text AgentFailed = ''failed''"
| "agent_state_text AgentCancelled = ''cancelled''"
| "agent_state_text AgentInterrupted = ''interrupted''"

definition AGENT_STATES :: "agent_state list" where
  "AGENT_STATES = [AgentPending, AgentRunning, AgentWaiting, AgentCompleted, AgentFailed, AgentCancelled,
     AgentInterrupted]"

definition parse_agent_state :: "string \<Rightarrow> exn + agent_state" where
  "parse_agent_state s =
     (case find_first (\<lambda>st. agent_state_text st = s) AGENT_STATES of
        None \<Rightarrow> Inl (Exn (Py ValueError) (s @ '' is not a valid AgentState''))
      | Some st \<Rightarrow> Inr st)"

definition agent_terminal :: "agent_state \<Rightarrow> bool" where
  "agent_terminal st \<longleftrightarrow> st \<in> {AgentCompleted, AgentFailed, AgentCancelled}"

lemma parse_agent_state_text [simp]: "parse_agent_state (agent_state_text st) = Inr st"
  by (cases st) (simp_all add: parse_agent_state_def AGENT_STATES_def)

lemma agent_state_text_strip [simp]:
  "strip (agent_state_text st) = agent_state_text st" "\<not> blank (agent_state_text st)"
  "length (agent_state_text st) \<le> 11"
  by (cases st; simp add: strip_def blank_def is_space_def)+

section \<open>Budgets\<close>

record agent_budget =
  bud_tokens :: int
  bud_cost :: "rat option"
  bud_timeout :: rat
  bud_calls :: int

text \<open>A finite number that is not a \<^verbatim>\<open>bool\<close>.\<close>

fun finite_number :: "jval \<Rightarrow> rat option" where
  "finite_number (JInt i) = Some (of_int i)"
| "finite_number (JFloat r) = Some r"
| "finite_number _ = None"

text \<open>\<^verbatim>\<open>AgentBudget(...)\<close>.\<close>

definition make_budget :: "jval \<Rightarrow> jval \<Rightarrow> jval \<Rightarrow> jval \<Rightarrow> exn + agent_budget" where
  "make_budget tokens cost timeout calls =
     bindR (case tokens of JInt n \<Rightarrow> if 0 < n then Inr n
              else Inl (agent_invalid ''max_tokens must be a positive integer'')
            | _ \<Rightarrow> Inl (agent_invalid ''max_tokens must be a positive integer'')) (\<lambda>n.
     bindR (if cost = JNull then Inr None
            else case finite_number cost of
                Some r \<Rightarrow> if 0 \<le> r then Inr (Some r)
                  else Inl (agent_invalid ''max_cost_usd must be a finite, non-negative number'')
              | None \<Rightarrow> Inl (agent_invalid ''max_cost_usd must be a finite, non-negative number'')) (\<lambda>c.
     bindR (case finite_number timeout of
              Some r \<Rightarrow> if 0 < r then Inr r
                else Inl (agent_invalid ''timeout_seconds must be finite and positive'')
            | None \<Rightarrow> Inl (agent_invalid ''timeout_seconds must be finite and positive'')) (\<lambda>t.
     bindR (case calls of JInt n \<Rightarrow> if 0 < n then Inr n
              else Inl (agent_invalid ''max_tool_calls must be a positive integer'')
            | _ \<Rightarrow> Inl (agent_invalid ''max_tool_calls must be a positive integer'')) (\<lambda>k.
       Inr \<lparr>bud_tokens = n, bud_cost = c, bud_timeout = t, bud_calls = k\<rparr>))))"

definition budget_within :: "agent_budget \<Rightarrow> agent_budget \<Rightarrow> bool" where
  "budget_within b parent \<longleftrightarrow>
     bud_tokens b \<le> bud_tokens parent \<and>
     (case bud_cost parent of None \<Rightarrow> True
      | Some limit \<Rightarrow> (case bud_cost b of None \<Rightarrow> False | Some c \<Rightarrow> c \<le> limit)) \<and>
     bud_timeout b \<le> bud_timeout parent \<and> bud_calls b \<le> bud_calls parent"

fun jopt_num :: "rat option \<Rightarrow> jval" where
  "jopt_num None = JNull"
| "jopt_num (Some r) = JFloat r"

definition budget_to_dict :: "agent_budget \<Rightarrow> jobj" where
  "budget_to_dict b =
     [(''max_tokens'', JInt (bud_tokens b)), (''max_cost_usd'', jopt_num (bud_cost b)),
      (''timeout_seconds'', JFloat (bud_timeout b)), (''max_tool_calls'', JInt (bud_calls b))]"

text \<open>A number that is not a \<^verbatim>\<open>bool\<close>, finite or not; an integer that is not one.\<close>

fun is_number :: "jval \<Rightarrow> bool" where
  "is_number (JInt i) = True"
| "is_number (JFloat r) = True"
| "is_number JNonFinite = True"
| "is_number _ = False"

fun is_integer :: "jval \<Rightarrow> bool" where
  "is_integer (JInt i) = True"
| "is_integer _ = False"

definition budget_from_dict :: "jobj \<Rightarrow> exn + agent_budget" where
  "budget_from_dict v =
     (case (dict_get v ''max_tokens'', dict_get v ''max_cost_usd'', dict_get v ''timeout_seconds'',
            dict_get v ''max_tool_calls'') of
        (Some tokens, Some cost, Some timeout, Some calls) \<Rightarrow>
          (if \<not> is_integer tokens \<or> (cost \<noteq> JNull \<and> \<not> is_number cost) \<or> \<not> is_number timeout \<or>
              \<not> is_integer calls
           then Inl (agent_invalid ''budget fields have invalid types'')
           else make_budget tokens cost timeout calls)
      | _ \<Rightarrow> Inl (agent_invalid ''budget is missing required fields''))"

definition budget_ok :: "agent_budget \<Rightarrow> bool" where
  "budget_ok b \<longleftrightarrow> 0 < bud_tokens b \<and> (\<forall>c. bud_cost b = Some c \<longrightarrow> 0 \<le> c) \<and> 0 < bud_timeout b \<and> 0 < bud_calls b"

lemma make_budget_ok: "make_budget t c l k = Inr b \<Longrightarrow> budget_ok b"
  by (auto simp: make_budget_def budget_ok_def bindR_Inr_iff split: jval.splits if_splits option.splits)

lemma budget_roundtrip: "budget_ok b \<Longrightarrow> budget_from_dict (budget_to_dict b) = Inr b"
  by (cases "bud_cost b") (auto simp: budget_from_dict_def budget_to_dict_def make_budget_def budget_ok_def)

lemma budget_within_refl [simp]: "budget_within b b"
  by (simp add: budget_within_def split: option.split)

lemma budget_within_trans: "budget_within a b \<Longrightarrow> budget_within b c \<Longrightarrow> budget_within a c"
  by (auto simp: budget_within_def split: option.splits)

section \<open>Task specifications\<close>

record task_spec =
  ts_parent_run :: string
  ts_objective :: string
  ts_budget :: agent_budget
  ts_task :: string
  ts_child_run :: string
  ts_parent_task :: "string option"
  ts_constraints :: "string list"
  ts_capabilities :: "string set"
  ts_depth :: int
  ts_max_depth :: int
  ts_max_children :: int
  ts_metadata :: jobj
  ts_created :: string

text \<open>\<^verbatim>\<open>TaskSpec.__post_init__\<close>: the texts are stripped and measured, the numbers compared.\<close>

definition check_task_spec :: "task_spec \<Rightarrow> exn + task_spec" where
  "check_task_spec t =
     bindR (agent_text (JStr (ts_parent_run t)) ''parent_run_id'' 256) (\<lambda>parent_run.
     bindR (agent_text (JStr (ts_objective t)) ''objective'' 4096) (\<lambda>objective.
     bindR (agent_text (JStr (ts_task t)) ''task_id'' 256) (\<lambda>task.
     bindR (agent_text (JStr (ts_child_run t)) ''child_run_id'' 256) (\<lambda>child_run.
     bindR (if ts_created t = [] then Inl (agent_invalid ''created_at must be a non-empty string'')
            else Inr ()) (\<lambda>_.
     bindR (case ts_parent_task t of None \<Rightarrow> Inr None
            | Some i \<Rightarrow> bindR (agent_text (JStr i) ''parent_task_id'' 256) (\<lambda>i'. Inr (Some i')))
       (\<lambda>parent_task.
     bindR (agent_strings (ts_constraints t) ''constraint'') (\<lambda>constraints.
     bindR (agent_capabilities (ts_capabilities t)) (\<lambda>caps.
     bindR (if ts_depth t < 0 then Inl (agent_invalid ''depth must be a non-negative integer'')
            else if ts_max_depth t < ts_depth t
            then Inl (agent_invalid ''max_depth must be at least depth'')
            else if ts_max_children t < 0
            then Inl (agent_invalid ''max_children must be non-negative'')
            else Inr ()) (\<lambda>_.
     bindR (agent_json_object (ts_metadata t) ''metadata'') (\<lambda>metadata.
       Inr (t\<lparr>ts_parent_run := parent_run, ts_objective := objective, ts_task := task,
              ts_child_run := child_run, ts_parent_task := parent_task, ts_constraints := constraints,
              ts_capabilities := caps, ts_metadata := metadata\<rparr>)))))))))))"

definition task_spec_to_dict :: "task_spec \<Rightarrow> jobj" where
  "task_spec_to_dict t =
     [(''parent_run_id'', JStr (ts_parent_run t)), (''objective'', JStr (ts_objective t)),
      (''budget'', JObj (budget_to_dict (ts_budget t))), (''task_id'', JStr (ts_task t)),
      (''child_run_id'', JStr (ts_child_run t)), (''parent_task_id'', jopt_str (ts_parent_task t)),
      (''constraints'', jstrs (ts_constraints t)),
      (''capabilities'', jstrs (sorted_list_of_set (ts_capabilities t))),
      (''depth'', JInt (ts_depth t)), (''max_depth'', JInt (ts_max_depth t)),
      (''max_children'', JInt (ts_max_children t)), (''metadata'', JObj (ts_metadata t)),
      (''created_at'', JStr (ts_created t))]"

definition spec_fields :: "string list" where
  "spec_fields = [''parent_run_id'', ''objective'', ''budget'', ''task_id'', ''child_run_id'']"

fun is_text :: "jval \<Rightarrow> bool" where
  "is_text (JStr s) = True"
| "is_text _ = False"

text \<open>The part of \<^verbatim>\<open>TaskSpec.from_dict\<close> before the clock is read: what it checks of the fields.\<close>

definition spec_checks :: "jobj \<Rightarrow> exn + (string list \<times> string list \<times> string option \<times> jobj)" where
  "spec_checks v =
     (if \<not> list_all (\<lambda>k. dict_get v k \<noteq> None) spec_fields
      then Inl (agent_invalid ''task spec is missing required fields'')
      else if \<not> list_all (\<lambda>k. is_text (get_or_none v k))
                [''parent_run_id'', ''objective'', ''task_id'', ''child_run_id'']
      then Inl (agent_invalid ''task spec identity fields must be strings'')
      else case (get_or v ''constraints'' (JArr []), get_or v ''capabilities'' (JArr [])) of
          (JArr constraints, JArr caps) \<Rightarrow>
            (case all_strings constraints of
               None \<Rightarrow> Inl (agent_invalid ''task constraints must contain strings'')
             | Some cs \<Rightarrow>
                 (case all_strings caps of
                    None \<Rightarrow> Inl (agent_invalid ''task capabilities must contain strings'')
                  | Some ks \<Rightarrow>
                      bindR (case get_or_none v ''parent_task_id'' of
                               JNull \<Rightarrow> Inr None | JStr i \<Rightarrow> Inr (Some i)
                             | _ \<Rightarrow> Inl (agent_invalid ''parent_task_id must be a string or null''))
                        (\<lambda>parent_task.
                      bindR (agent_mapping (get_or v ''metadata'' (JObj [])) ''task metadata'') (\<lambda>metadata.
                        Inr (cs, ks, parent_task, metadata)))))
        | _ \<Rightarrow> Inl (agent_invalid ''task constraints and capabilities must be collections''))"

text \<open>The rest of it, given the time.\<close>

definition make_task_spec ::
  "jobj \<Rightarrow> string list \<times> string list \<times> string option \<times> jobj \<Rightarrow> string \<Rightarrow> exn + task_spec" where
  "make_task_spec v checked now =
     (case (checked, get_or v ''created_at'' (JStr now)) of
        ((constraints, caps, parent_task, metadata), JStr created) \<Rightarrow>
          bindR (agent_text (get_or_none v ''parent_run_id'') ''parent_run_id'' 4096) (\<lambda>parent_run.
          bindR (agent_text (get_or_none v ''objective'') ''objective'' 4096) (\<lambda>objective.
          bindR (bindR (agent_mapping (get_or_none v ''budget'') ''task budget'') budget_from_dict) (\<lambda>budget.
          bindR (agent_text (get_or_none v ''task_id'') ''task_id'' 4096) (\<lambda>task.
          bindR (agent_text (get_or_none v ''child_run_id'') ''child_run_id'' 4096) (\<lambda>child_run.
          bindR (agent_int (get_or v ''depth'' (JInt 0)) ''task depth'') (\<lambda>depth.
          bindR (agent_int (get_or v ''max_depth'' (JInt 4)) ''task max_depth'') (\<lambda>max_depth.
          bindR (agent_int (get_or v ''max_children'' (JInt 8)) ''task max_children'') (\<lambda>max_children.
            check_task_spec \<lparr>ts_parent_run = parent_run, ts_objective = objective, ts_budget = budget,
              ts_task = task, ts_child_run = child_run, ts_parent_task = parent_task,
              ts_constraints = constraints, ts_capabilities = set caps, ts_depth = depth,
              ts_max_depth = max_depth, ts_max_children = max_children, ts_metadata = metadata,
              ts_created = created\<rparr>))))))))
      | _ \<Rightarrow> Inl (agent_invalid ''task created_at must be a string''))"

definition task_spec_from_dict :: "jobj \<Rightarrow> ('w world_scheme, task_spec) sm" where
  "task_spec_from_dict v =
     bindE (liftE (spec_checks v)) (\<lambda>checked.
     bindE utc_now (\<lambda>now. liftE (make_task_spec v checked now)))"

section \<open>Results\<close>

record task_result =
  tr_task :: string
  tr_state :: agent_state
  tr_summary :: string
  tr_artifacts :: "string list"
  tr_error :: "string option"
  tr_metrics :: jobj

text \<open>\<^verbatim>\<open>TaskResult.__post_init__\<close>.\<close>

definition check_task_result :: "task_result \<Rightarrow> exn + task_result" where
  "check_task_result r =
     bindR (agent_text (JStr (tr_task r)) ''task_id'' 256) (\<lambda>task.
     if length (tr_summary r) > 4096 then Inl (agent_invalid ''summary exceeds 4096 characters'')
     else bindR (mapR (\<lambda>a. agent_text (JStr a) ''output_artifact_id'' 256) (tr_artifacts r)) (\<lambda>artifacts.
     if (case tr_error r of None \<Rightarrow> False | Some e \<Rightarrow> length e > 4096)
     then Inl (agent_invalid ''error exceeds 4096 characters'')
     else bindR (agent_json_object (tr_metrics r) ''metrics'') (\<lambda>metrics.
       Inr (r\<lparr>tr_task := task, tr_artifacts := artifacts, tr_metrics := metrics\<rparr>))))"

definition task_result_to_dict :: "task_result \<Rightarrow> jobj" where
  "task_result_to_dict r =
     [(''task_id'', JStr (tr_task r)), (''state'', JStr (agent_state_text (tr_state r))),
      (''summary'', JStr (tr_summary r)), (''output_artifact_ids'', jstrs (tr_artifacts r)),
      (''error'', jopt_str (tr_error r)), (''metrics'', JObj (tr_metrics r))]"

definition task_result_from_dict :: "jobj \<Rightarrow> exn + task_result" where
  "task_result_from_dict v =
     (case (case get_or v ''output_artifact_ids'' (JArr []) of JArr xs \<Rightarrow> all_strings xs | _ \<Rightarrow> None) of
        None \<Rightarrow> Inl (agent_invalid ''output_artifact_ids must be a collection'')
      | Some artifacts \<Rightarrow>
          (case (get_or_none v ''task_id'', get_or_none v ''state'') of
             (JStr task, JStr st) \<Rightarrow>
               (case (get_or v ''summary'' (JStr ''''), get_or_none v ''error'') of
                  (JStr summary, err) \<Rightarrow>
                    (if err \<noteq> JNull \<and> \<not> is_text err
                     then Inl (agent_invalid ''task result text fields have invalid types'')
                     else case get_or v ''metrics'' (JObj []) of
                         JObj metrics \<Rightarrow>
                           bindR (parse_agent_state st) (\<lambda>state.
                             check_task_result \<lparr>tr_task = task, tr_state = state, tr_summary = summary,
                               tr_artifacts = artifacts, tr_error = opt_str err, tr_metrics = metrics\<rparr>)
                       | _ \<Rightarrow> Inl (agent_invalid ''task result metrics must be an object''))
                | _ \<Rightarrow> Inl (agent_invalid ''task result text fields have invalid types''))
           | _ \<Rightarrow> Inl (agent_invalid ''task result identity fields must be strings'')))"

section \<open>Nodes\<close>

record task_node =
  tn_spec :: task_spec
  tn_state :: agent_state
  tn_children :: "string list"
  tn_result :: "task_result option"
  tn_reason :: "string option"
  tn_updated :: string

definition task_node_to_dict :: "task_node \<Rightarrow> jobj" where
  "task_node_to_dict n =
     [(''spec'', JObj (task_spec_to_dict (tn_spec n))),
      (''state'', JStr (agent_state_text (tn_state n))),
      (''child_task_ids'', jstrs (tn_children n)),
      (''result'', case tn_result n of None \<Rightarrow> JNull | Some r \<Rightarrow> JObj (task_result_to_dict r)),
      (''reason'', jopt_str (tn_reason n)), (''updated_at'', JStr (tn_updated n))]"

definition node_checks :: "jobj \<Rightarrow> exn + (jobj \<times> string list)" where
  "node_checks v =
     (case dict_get v ''spec'' of
        Some (JObj spec) \<Rightarrow>
          (case (case get_or v ''child_task_ids'' (JArr []) of JArr xs \<Rightarrow> all_strings xs | _ \<Rightarrow> None) of
             None \<Rightarrow> Inl (agent_invalid ''child_task_ids must be a collection'')
           | Some children \<Rightarrow>
               (let raw_result = get_or_none v ''result'' in
                if raw_result \<noteq> JNull \<and> \<not> is_JObj raw_result
                then Inl (agent_invalid ''Task node result must be an object or null'')
                else Inr (spec, children)))
      | _ \<Rightarrow> Inl (agent_invalid ''Task node spec must be an object''))"

definition node_times :: "jobj \<Rightarrow> string \<Rightarrow> exn + string" where
  "node_times v now =
     (let reason = get_or_none v ''reason'' in
      if reason \<noteq> JNull \<and> \<not> is_text reason
      then Inl (agent_invalid ''task node reason must be a string or null'')
      else case get_or v ''updated_at'' (JStr now) of
          JStr updated \<Rightarrow> Inr updated
        | _ \<Rightarrow> Inl (agent_invalid ''task node updated_at must be a string''))"

definition make_task_node :: "jobj \<Rightarrow> string list \<Rightarrow> string \<Rightarrow> task_spec \<Rightarrow> exn + task_node" where
  "make_task_node v children updated t =
     bindR (bindR (agent_text (get_or v ''state'' (JStr ''pending'')) ''task state'' 4096) parse_agent_state) (\<lambda>st.
     bindR (case get_or_none v ''result'' of
              JObj d \<Rightarrow> bindR (task_result_from_dict d) (\<lambda>r. Inr (Some r))
            | _ \<Rightarrow> Inr None) (\<lambda>result.
       Inr \<lparr>tn_spec = t, tn_state = st, tn_children = children, tn_result = result,
            tn_reason = opt_str (get_or_none v ''reason''), tn_updated = updated\<rparr>))"

definition task_node_from_dict :: "jobj \<Rightarrow> ('w world_scheme, task_node) sm" where
  "task_node_from_dict v =
     bindE (liftE (node_checks v)) (\<lambda>(spec, children).
     bindE utc_now (\<lambda>now.
     bindE (liftE (node_times v now)) (\<lambda>updated.
     bindE (task_spec_from_dict spec) (\<lambda>t. liftE (make_task_node v children updated t)))))"

section \<open>What the constructors accept reads back as itself\<close>

lemma agent_text_Inr: "agent_text v name n = Inr s \<Longrightarrow> agent_text (JStr s) name n = Inr s"
  by (auto simp: agent_text_def simp flip: strip_Nil_iff split: jval.splits if_splits)

lemma agent_text_larger: "agent_text v name n = Inr s \<Longrightarrow> n \<le> m \<Longrightarrow> agent_text v name m = Inr s"
  by (auto simp: agent_text_def split: jval.splits if_splits)

lemma agent_text_name: "agent_text v name n = Inr s \<Longrightarrow> agent_text v name' n = Inr s"
  by (auto simp: agent_text_def split: jval.splits if_splits)

lemma mapR_text_Inr: "mapR (\<lambda>x. agent_text (JStr x) name n) xs = Inr ys \<Longrightarrow>
    mapR (\<lambda>x. agent_text (JStr x) name n) ys = Inr ys"
  by (induction xs arbitrary: ys) (auto simp: bindR_Inr_iff dest: agent_text_Inr)

lemma mapR_text_id:
  "mapR (\<lambda>x. agent_text (JStr x) name n) xs = Inr xs \<longleftrightarrow> (\<forall>x \<in> set xs. agent_text (JStr x) name n = Inr x)"
  by (induction xs) (auto simp: bindR_Inr_iff)

definition spec_ok :: "task_spec \<Rightarrow> bool" where
  "spec_ok t \<longleftrightarrow> check_task_spec t = Inr t \<and> finite (ts_capabilities t) \<and> budget_ok (ts_budget t)"

definition result_ok :: "task_result \<Rightarrow> bool" where
  "result_ok r \<longleftrightarrow> check_task_result r = Inr r"

definition node_ok :: "task_node \<Rightarrow> bool" where
  "node_ok n \<longleftrightarrow> spec_ok (tn_spec n) \<and> (\<forall>r. tn_result n = Some r \<longrightarrow> result_ok r)"

lemma spec_fields_ok:
  assumes "check_task_spec t = Inr u"
  shows "agent_text (JStr (ts_parent_run t)) ''parent_run_id'' 256 = Inr (ts_parent_run u)"
    and "agent_text (JStr (ts_objective t)) ''objective'' 4096 = Inr (ts_objective u)"
    and "agent_text (JStr (ts_task t)) ''task_id'' 256 = Inr (ts_task u)"
    and "agent_text (JStr (ts_child_run t)) ''child_run_id'' 256 = Inr (ts_child_run u)"
    and "case ts_parent_task t of None \<Rightarrow> ts_parent_task u = None
         | Some i \<Rightarrow> \<exists>i'. agent_text (JStr i) ''parent_task_id'' 256 = Inr i' \<and> ts_parent_task u = Some i'"
    and "agent_strings (ts_constraints t) ''constraint'' = Inr (ts_constraints u)"
    and "agent_capabilities (ts_capabilities t) = Inr (ts_capabilities u)"
    and "0 \<le> ts_depth t \<and> ts_depth t \<le> ts_max_depth t \<and> 0 \<le> ts_max_children t"
    and "json_ok_obj (ts_metadata t) \<and> ts_created t \<noteq> []"
    and "ts_depth u = ts_depth t" "ts_max_depth u = ts_max_depth t" "ts_max_children u = ts_max_children t"
    and "ts_metadata u = ts_metadata t" "ts_created u = ts_created t" "ts_budget u = ts_budget t"
  using assms
  by (auto simp: check_task_spec_def bindR_Inr_iff agent_json_object_def split: if_splits option.splits)

lemma agent_capabilities_Inr:
  assumes "agent_capabilities caps = Inr ks"
  shows "finite ks" and "agent_capabilities ks = Inr ks"
proof -
  obtain cs where cs: "mapR (\<lambda>c. agent_text (JStr c) ''capability'' 256) (sorted_list_of_set caps) = Inr cs"
    and ks: "ks = set cs" using assms by (auto simp: agent_capabilities_def bindR_Inr_iff)
  then show "finite ks" by simp
  have "\<forall>x \<in> set cs. agent_text (JStr x) ''capability'' 256 = Inr x"
    using mapR_text_Inr [OF cs] by (simp add: mapR_text_id)
  then have "mapR (\<lambda>c. agent_text (JStr c) ''capability'' 256) (sorted_list_of_set ks) = Inr (sorted_list_of_set ks)"
    by (subst mapR_text_id) (simp add: ks)
  then show "agent_capabilities ks = Inr ks" by (simp add: agent_capabilities_def ks)
qed

lemma check_task_spec_ok:
  assumes "check_task_spec t = Inr u" and "budget_ok (ts_budget t)"
  shows "spec_ok u"
proof -
  note f = spec_fields_ok [OF assms(1)]
  have "agent_strings (ts_constraints u) ''constraint'' = Inr (ts_constraints u)"
    using f(6) unfolding agent_strings_def by (rule mapR_text_Inr)
  moreover have "case ts_parent_task u of None \<Rightarrow> True | Some i \<Rightarrow> agent_text (JStr i) ''parent_task_id'' 256 = Inr i"
    using f(5) by (auto split: option.splits dest: agent_text_Inr)
  ultimately have "check_task_spec u = Inr u"
    using f(1-4) [THEN agent_text_Inr] agent_capabilities_Inr [OF f(7)] f(8-)
    by (cases "ts_parent_task u") (auto simp: check_task_spec_def agent_json_object_def)
  then show ?thesis using agent_capabilities_Inr(1) [OF f(7)] assms(2) f by (simp add: spec_ok_def)
qed

lemma check_task_result_ok:
  assumes "check_task_result r = Inr u"
  shows "result_ok u"
proof -
  obtain task artifacts where t: "agent_text (JStr (tr_task r)) ''task_id'' 256 = Inr task"
    and a: "mapR (\<lambda>a. agent_text (JStr a) ''output_artifact_id'' 256) (tr_artifacts r) = Inr artifacts"
    and u: "u = r\<lparr>tr_task := task, tr_artifacts := artifacts\<rparr>" and rest: "length (tr_summary r) \<le> 4096"
      "\<not> (case tr_error r of None \<Rightarrow> False | Some e \<Rightarrow> length e > 4096)" "json_ok_obj (tr_metrics r)"
    using assms by (auto simp: check_task_result_def bindR_Inr_iff agent_json_object_def split: if_splits)
  show ?thesis
    using agent_text_Inr [OF t] mapR_text_Inr [OF a] rest
    by (simp add: u result_ok_def check_task_result_def agent_json_object_def)
qed

lemma jopt_str_text [simp]: "jopt_str x \<noteq> JNull \<Longrightarrow> is_text (jopt_str x)"
  by (cases x) simp_all

lemma spec_checks_dict:
  "spec_checks (task_spec_to_dict t) =
     Inr (ts_constraints t, sorted_list_of_set (ts_capabilities t), ts_parent_task t, ts_metadata t)"
  by (cases "ts_parent_task t")
     (simp_all add: spec_checks_def task_spec_to_dict_def spec_fields_def jstrs_def agent_mapping_def)

lemma clock_read: "utc_now w = (Inr (isoformat (clock w (clock_reads w) div 1000)), w\<lparr>clock_reads := Suc (clock_reads w)\<rparr>)"
  by (simp add: utc_now_def utc_datetime_def time_ns_def bindE_def retE_def)

lemma spec_roundtrip:
  assumes "spec_ok t"
  shows "task_spec_from_dict (task_spec_to_dict t) w = (Inr t, w\<lparr>clock_reads := Suc (clock_reads w)\<rparr>)"
proof -
  have t: "check_task_spec t = Inr t" "finite (ts_capabilities t)" "budget_ok (ts_budget t)"
    using assms by (simp_all add: spec_ok_def)
  note f = spec_fields_ok [OF t(1)]
  have "agent_text (JStr (ts_parent_run t)) ''parent_run_id'' 4096 = Inr (ts_parent_run t)"
    "agent_text (JStr (ts_task t)) ''task_id'' 4096 = Inr (ts_task t)"
    "agent_text (JStr (ts_child_run t)) ''child_run_id'' 4096 = Inr (ts_child_run t)"
    using f(1,3,4) by (auto elim: agent_text_larger)
  moreover have "agent_mapping (JObj d) name = Inr d" for d name by (simp add: agent_mapping_def)
  moreover have whole: "\<lparr>ts_parent_run = ts_parent_run t, ts_objective = ts_objective t, ts_budget = ts_budget t,
      ts_task = ts_task t, ts_child_run = ts_child_run t, ts_parent_task = ts_parent_task t,
      ts_constraints = ts_constraints t, ts_capabilities = ts_capabilities t, ts_depth = ts_depth t,
      ts_max_depth = ts_max_depth t, ts_max_children = ts_max_children t, ts_metadata = ts_metadata t,
      ts_created = ts_created t\<rparr> = t" by simp
  ultimately show ?thesis
    using f(2) budget_roundtrip [OF t(3)]
    apply (simp add: task_spec_from_dict_def spec_checks_dict clock_read bindE_def liftE_def retE_def)
    apply (simp add: make_task_spec_def)
    apply (simp add: task_spec_to_dict_def agent_int_def t(2))
    apply (unfold whole, simp add: t retE_def)
    done
qed

lemma result_roundtrip:
  assumes "result_ok r"
  shows "task_result_from_dict (task_result_to_dict r) = Inr r"
proof -
  have whole: "\<lparr>tr_task = tr_task r, tr_state = tr_state r, tr_summary = tr_summary r, tr_artifacts = tr_artifacts r,
    tr_error = tr_error r, tr_metrics = tr_metrics r\<rparr> = r" by simp
  have "task_result_from_dict (task_result_to_dict r) = check_task_result
    \<lparr>tr_task = tr_task r, tr_state = tr_state r, tr_summary = tr_summary r, tr_artifacts = tr_artifacts r,
     tr_error = tr_error r, tr_metrics = tr_metrics r\<rparr>"
    using jopt_str_text [of "tr_error r"]
    by (auto simp: task_result_from_dict_def task_result_to_dict_def jstrs_def simp del: jopt_str_text)
  then show ?thesis using assms by (unfold whole result_ok_def) simp
qed

text \<open>\<open>copied\<close> is the only trace a copy leaves: two clock readings.\<close>

definition copied :: "'w world_scheme \<Rightarrow> 'w world_scheme" where
  "copied w = w\<lparr>clock_reads := Suc (Suc (clock_reads w))\<rparr>"

lemma node_roundtrip:
  assumes "node_ok n"
  shows "task_node_from_dict (task_node_to_dict n) w = (Inr n, copied w)"
proof -
  have st: "agent_text (JStr (agent_state_text (tn_state n))) ''task state'' 4096 = Inr (agent_state_text (tn_state n))"
    using le_trans [OF agent_state_text_strip(3), of 4096 "tn_state n"] by (simp add: agent_text_def not_less)
  have s: "task_spec_from_dict (task_spec_to_dict (tn_spec n)) u = (Inr (tn_spec n), u\<lparr>clock_reads := Suc (clock_reads u)\<rparr>)"
    for u :: "'a world_scheme" using assms by (intro spec_roundtrip) (simp add: node_ok_def)
  have r: "task_result_from_dict (task_result_to_dict x) = Inr x" if "tn_result n = Some x" for x
    using assms that by (intro result_roundtrip) (simp add: node_ok_def)
  have "node_checks (task_node_to_dict n) = Inr (task_spec_to_dict (tn_spec n), tn_children n)"
    by (cases "tn_result n") (simp_all add: node_checks_def task_node_to_dict_def jstrs_def)
  moreover have "node_times (task_node_to_dict n) now = Inr (tn_updated n)" for now
    by (cases "tn_reason n") (simp_all add: node_times_def task_node_to_dict_def)
  moreover have "make_task_node (task_node_to_dict n) (tn_children n) (tn_updated n) (tn_spec n) = Inr n"
    by (cases "tn_result n") (simp_all add: make_task_node_def task_node_to_dict_def st r)
  ultimately show ?thesis
    by (simp add: task_node_from_dict_def clock_read s bindE_def liftE_def retE_def copied_def)
qed

end
