(* ===== verification/Task_Graph.thy ===== *)
theory Task_Graph
  imports Agent_Types Runtime_Env
begin

text \<open>
  The task graph of a parent run, \<^verbatim>\<open>aihi/agent/agents/graph.py\<close>: its transition table, spawning under
  the parent's authority, completion, interruption and cancellation of subtrees, snapshots and their
  validation. A method is an effect on the environment \<open>genv\<close>, whose \<open>graph\<close> is the object; the lock
  makes one call one atomic step. Every node that a method hands out is a copy made through the
  dictionaries, as in the program.

  The event sink is outside code: it is called with an event and either returns or raises, as \<open>tg_sink\<close>
  says for each of its calls; \<open>emitted\<close> lists the events it was called with. The two walks over
  descendants take as fuel one more than the number of nodes; when it runs out they raise, which is
  where Python raises \<^verbatim>\<open>RecursionError\<close> (\<open>cancel_below_ends\<close> in \<open>Graph_Walks\<close>: a cancellation never does).
\<close>

section \<open>State\<close>

record task_graph =
  tg_session :: "string option"
  tg_sink :: "(nat \<Rightarrow> event \<Rightarrow> exn option) option"
  tg_nodes :: "(string, task_node) dict"
  tg_roots :: "string list"

definition new_task_graph :: "string option \<Rightarrow> (nat \<Rightarrow> event \<Rightarrow> exn option) option \<Rightarrow> task_graph" where
  "new_task_graph session sink = \<lparr>tg_session = session, tg_sink = sink, tg_nodes = [], tg_roots = []\<rparr>"

record genv = renv +
  graph :: task_graph
  emitted :: "event list"
  graphs :: "(string \<times> string, task_graph \<times> string) dict"

definition get_graph :: "('z genv_scheme, task_graph) sm" where
  "get_graph = (\<lambda>s. (Inr (graph s), s))"

definition update_nodes ::
  "((string, task_node) dict \<Rightarrow> (string, task_node) dict) \<Rightarrow> ('z genv_scheme, unit) sm" where
  "update_nodes f = modifyE (\<lambda>s. s\<lparr>graph := (graph s)\<lparr>tg_nodes := f (tg_nodes (graph s))\<rparr>\<rparr>)"

text \<open>\<^verbatim>\<open>_TRANSITIONS\<close>.\<close>

fun agent_transitions :: "agent_state \<Rightarrow> agent_state set" where
  "agent_transitions AgentPending = {AgentRunning, AgentCancelled, AgentFailed, AgentInterrupted}"
| "agent_transitions AgentRunning =
     {AgentWaiting, AgentCompleted, AgentFailed, AgentCancelled, AgentInterrupted}"
| "agent_transitions AgentWaiting =
     {AgentRunning, AgentCompleted, AgentFailed, AgentCancelled, AgentInterrupted}"
| "agent_transitions AgentInterrupted = {AgentRunning, AgentCancelled, AgentFailed}"
| "agent_transitions AgentCompleted = {}"
| "agent_transitions AgentFailed = {}"
| "agent_transitions AgentCancelled = {}"

section \<open>Events and copies\<close>

definition task_event_data :: "task_node \<Rightarrow> string option \<Rightarrow> jobj" where
  "task_event_data n reason =
     [(''task'', JObj (task_spec_to_dict (tn_spec n))), (''state'', JStr (agent_state_text (tn_state n)))] @
     (case reason of None \<Rightarrow> [] | Some r \<Rightarrow> if r = [] then [] else [(''reason'', JStr r)]) @
     (case tn_result n of None \<Rightarrow> [] | Some r \<Rightarrow> [(''result'', JObj (task_result_to_dict r))])"

definition call_sink :: "(nat \<Rightarrow> event \<Rightarrow> exn option) \<Rightarrow> event \<Rightarrow> ('z genv_scheme, unit) sm" where
  "call_sink f e = (\<lambda>s.
     (case f (length (emitted s)) e of None \<Rightarrow> Inr () | Some err \<Rightarrow> Inl err,
      s\<lparr>emitted := emitted s @ [e]\<rparr>))"

definition emit_task_event :: "string \<Rightarrow> task_node \<Rightarrow> string option \<Rightarrow> ('z genv_scheme, unit) sm" where
  "emit_task_event ty n reason =
     bindE get_graph (\<lambda>g. case (tg_sink g, tg_session g) of
         (Some f, Some sid) \<Rightarrow>
           bindE (new_event ty sid (Some (ts_child_run (tn_spec n))) (task_event_data n reason)) (call_sink f)
       | _ \<Rightarrow> retE ())"

definition copy_node :: "task_node \<Rightarrow> ('w world_scheme, task_node) sm" where
  "copy_node n = task_node_from_dict (task_node_to_dict n)"

section \<open>Reading\<close>

definition has_task :: "task_graph \<Rightarrow> string \<Rightarrow> bool" where
  "has_task g tid \<longleftrightarrow> dict_get (tg_nodes g) tid \<noteq> None"

definition get_task :: "string \<Rightarrow> ('z genv_scheme, task_node) sm" where
  "get_task tid =
     bindE get_graph (\<lambda>g. case dict_get (tg_nodes g) tid of
         None \<Rightarrow> raiseE (agent_invalid (''Unknown task: '' @ tid))
       | Some n \<Rightarrow> copy_node n)"

definition task_children :: "string \<Rightarrow> ('z genv_scheme, task_node list) sm" where
  "task_children tid = bindE (get_task tid) (\<lambda>n. mapE get_task (tn_children n))"

definition active_tasks :: "('z genv_scheme, task_node list) sm" where
  "active_tasks =
     bindE get_graph (\<lambda>g. mapE copy_node (filter (\<lambda>n. \<not> agent_terminal (tn_state n)) (map snd (tg_nodes g))))"

definition recursion_error :: exn where
  "recursion_error = Exn (OtherError ''RecursionError'') ''maximum recursion depth exceeded''"

primrec visit_subtree :: "nat \<Rightarrow> string \<Rightarrow> ('z genv_scheme, task_node list) sm" where
  "visit_subtree 0 tid = raiseE recursion_error"
| "visit_subtree (Suc fuel) tid =
     bindE (get_task tid) (\<lambda>n. bindE (mapE (visit_subtree fuel) (tn_children n)) (\<lambda>below. retE (n # concat below)))"

definition graph_fuel :: "('z genv_scheme, nat) sm" where
  "graph_fuel = bindE get_graph (\<lambda>g. retE (Suc (length (tg_nodes g))))"

definition task_subtree :: "string \<Rightarrow> ('z genv_scheme, task_node list) sm" where
  "task_subtree tid = bindE graph_fuel (\<lambda>fuel. visit_subtree fuel tid)"

section \<open>Creating tasks\<close>

text \<open>\<^verbatim>\<open>TaskSpec(...)\<close> with its drawn identifiers and creation time; \<^verbatim>\<open>TaskNode(spec=spec)\<close>.\<close>

definition new_task_spec ::
  "string \<Rightarrow> string \<Rightarrow> agent_budget \<Rightarrow> string option \<Rightarrow> string list \<Rightarrow> string set \<Rightarrow> int \<Rightarrow> int \<Rightarrow> int \<Rightarrow> jobj \<Rightarrow>
     ('w world_scheme, task_spec) sm" where
  "new_task_spec parent_run objective budget parent_task constraints caps depth max_depth max_children metadata =
     bindE (new_id ''task'') (\<lambda>task. bindE (new_id ''run'') (\<lambda>child_run. bindE utc_now (\<lambda>created.
       liftE (check_task_spec \<lparr>ts_parent_run = parent_run, ts_objective = objective, ts_budget = budget,
         ts_task = task, ts_child_run = child_run, ts_parent_task = parent_task, ts_constraints = constraints,
         ts_capabilities = caps, ts_depth = depth, ts_max_depth = max_depth, ts_max_children = max_children,
         ts_metadata = metadata, ts_created = created\<rparr>))))"

definition new_task_node :: "task_spec \<Rightarrow> ('w world_scheme, task_node) sm" where
  "new_task_node t =
     bindE utc_now (\<lambda>now. retE \<lparr>tn_spec = t, tn_state = AgentPending, tn_children = [], tn_result = None,
       tn_reason = None, tn_updated = now\<rparr>)"

definition add_root :: "task_spec \<Rightarrow> ('z genv_scheme, task_node) sm" where
  "add_root t =
     bindE (new_task_node t) (\<lambda>n.
     thenE (emit_task_event ''subagent.spawned'' n None)
    (thenE (update_nodes (dict_set (ts_task t) n))
    (thenE (modifyE (\<lambda>s. s\<lparr>graph := (graph s)\<lparr>tg_roots := tg_roots (graph s) @ [ts_task t]\<rparr>\<rparr>))
           (copy_node n))))"

definition create_root ::
  "string \<Rightarrow> string \<Rightarrow> agent_budget \<Rightarrow> string set \<Rightarrow> string list \<Rightarrow> int \<Rightarrow> int \<Rightarrow> jobj \<Rightarrow> ('z genv_scheme, task_node) sm" where
  "create_root parent_run objective budget caps constraints max_depth max_children metadata =
     bindE (new_task_spec parent_run objective budget None constraints caps 0 max_depth max_children metadata)
       (\<lambda>t.
     bindE get_graph (\<lambda>g.
     if tg_roots g \<noteq> [] then raiseE (agent_invalid ''A task graph has one root'') else add_root t))"

text \<open>The checks of \<^verbatim>\<open>spawn\<close>: what the parent lets its child have.\<close>

definition spawn_checks ::
  "task_node \<Rightarrow> agent_budget option \<Rightarrow> string set option \<Rightarrow> exn + (agent_budget \<times> string set \<times> int)" where
  "spawn_checks parent budget caps =
     (let spec = tn_spec parent;
          child_budget = (case budget of None \<Rightarrow> ts_budget spec | Some b \<Rightarrow> b);
          child_caps = (case caps of None \<Rightarrow> ts_capabilities spec | Some c \<Rightarrow> c);
          depth = ts_depth spec + 1 in
      if tn_state parent \<notin> {AgentRunning, AgentWaiting}
      then Inl (Exn (Agent AgentStateError) ''Only running or waiting tasks may spawn children'')
      else if int (length (tn_children parent)) \<ge> ts_max_children spec
      then Inl (Exn (Agent AgentPermissionDenied) ''Parent task child limit has been reached'')
      else if \<not> child_caps \<subseteq> ts_capabilities spec
      then Inl (Exn (Agent AgentPermissionDenied)
             ''Child capabilities must be a subset of the parent capabilities'')
      else if \<not> budget_within child_budget (ts_budget spec)
      then Inl (Exn (Agent AgentBudgetExceeded) ''Child budget must be a subset of the parent budget'')
      else if depth > ts_max_depth spec
      then Inl (Exn (Agent AgentDepthExceeded) ''Child task exceeds the configured maximum depth'')
      else Inr (child_budget, child_caps, depth))"

text \<open>The part of \<^verbatim>\<open>spawn\<close> after the child's specification is made.\<close>

definition add_child :: "string \<Rightarrow> task_node \<Rightarrow> task_spec \<Rightarrow> ('z genv_scheme, task_node) sm" where
  "add_child parent_id parent t =
     bindE (new_task_node t) (\<lambda>n.
     bindE utc_now (\<lambda>now.
     let parent' = parent\<lparr>tn_children := tn_children parent @ [ts_task t], tn_updated := now\<rparr> in
     thenE (emit_task_event ''subagent.spawned'' n None)
    (thenE (update_nodes (\<lambda>ns. dict_set parent_id parent' (dict_set (ts_task t) n ns)))
           (copy_node n))))"

definition spawn_task ::
  "string \<Rightarrow> string \<Rightarrow> agent_budget option \<Rightarrow> string set option \<Rightarrow> string list \<Rightarrow> jobj \<Rightarrow>
     ('z genv_scheme, task_node) sm" where
  "spawn_task parent_id objective budget caps constraints metadata =
     bindE (get_task parent_id) (\<lambda>parent.
     bindE (liftE (spawn_checks parent budget caps)) (\<lambda>(child_budget, child_caps, depth).
     bindE (new_task_spec (ts_child_run (tn_spec parent)) objective child_budget (Some parent_id) constraints
              child_caps depth (ts_max_depth (tn_spec parent)) (ts_max_children (tn_spec parent)) metadata)
       (add_child parent_id parent)))"

section \<open>Transitions\<close>

text \<open>The result a transition stores: the caller's, checked and copied, or one made from the reason.\<close>

definition transition_result ::
  "string \<Rightarrow> agent_state \<Rightarrow> string option \<Rightarrow> task_result option \<Rightarrow> exn + task_result option" where
  "transition_result tid st reason result =
     (case result of
        Some r \<Rightarrow>
          (if tr_task r \<noteq> tid then Inl (agent_invalid ''Task result task_id does not match node'')
           else if tr_state r \<noteq> st then Inl (agent_invalid ''Task result state does not match target state'')
           else if \<not> agent_terminal st
           then Inl (agent_invalid ''Only terminal transitions may include a task result'')
           else bindR (task_result_from_dict (task_result_to_dict r)) (\<lambda>r'. Inr (Some r')))
      | None \<Rightarrow>
          (if agent_terminal st
           then bindR (check_task_result \<lparr>tr_task = tid, tr_state = st,
                    tr_summary = (case reason of None \<Rightarrow> '''' | Some m \<Rightarrow> m), tr_artifacts = [],
                    tr_error = (if st = AgentFailed then reason else None), tr_metrics = []\<rparr>) (\<lambda>r. Inr (Some r))
           else Inr None))"

text \<open>\<^verbatim>\<open>any(not self.get(child_id).state.terminal ...)\<close>, and the step into the new state.\<close>

definition busy_children :: "task_node \<Rightarrow> ('z genv_scheme, bool) sm" where
  "busy_children n =
     anyE (\<lambda>c. bindE (get_task c) (\<lambda>m. retE (\<not> agent_terminal (tn_state m)))) (tn_children n)"

definition enter_state ::
  "string \<Rightarrow> task_node \<Rightarrow> agent_state \<Rightarrow> string option \<Rightarrow> task_result option \<Rightarrow> ('z genv_scheme, task_node) sm" where
  "enter_state tid n st reason result =
     bindE utc_now (\<lambda>now.
     let updated = n\<lparr>tn_state := st, tn_result := result, tn_reason := reason, tn_updated := now\<rparr>;
         ty = (if st = AgentRunning then ''subagent.started'' else ''subagent.'' @ agent_state_text st) in
     thenE (emit_task_event ty updated reason)
    (thenE (update_nodes (dict_set tid updated)) (copy_node updated)))"

definition transition_task ::
  "string \<Rightarrow> agent_state \<Rightarrow> string option \<Rightarrow> task_result option \<Rightarrow> ('z genv_scheme, task_node) sm" where
  "transition_task tid st reason result =
     bindE (get_task tid) (\<lambda>n.
     if st \<notin> agent_transitions (tn_state n)
     then raiseE (Exn (Agent AgentStateError) (''Invalid task transition: '' @
            agent_state_text (tn_state n) @ '' -> '' @ agent_state_text st))
     else
       bindE (liftE (transition_result tid st reason result)) (\<lambda>result'.
       bindE (andE (st = AgentCompleted) (busy_children n)) (\<lambda>busy.
       if busy then raiseE (Exn (Agent AgentStateError) ''A task cannot complete while a child is still active'')
       else enter_state tid n st reason result')))"

text \<open>A target state given as text.\<close>

definition transition_named ::
  "string \<Rightarrow> string \<Rightarrow> string option \<Rightarrow> task_result option \<Rightarrow> ('z genv_scheme, task_node) sm" where
  "transition_named tid st reason result =
     (case parse_agent_state st of
        Inl _ \<Rightarrow> raiseE (agent_invalid ''Unknown task state'')
      | Inr target \<Rightarrow> transition_task tid target reason result)"

definition complete_task ::
  "string \<Rightarrow> string \<Rightarrow> string list \<Rightarrow> jobj \<Rightarrow> ('z genv_scheme, task_node) sm" where
  "complete_task tid summary artifacts metrics =
     bindE (liftE (check_task_result \<lparr>tr_task = tid, tr_state = AgentCompleted, tr_summary = summary,
         tr_artifacts = artifacts, tr_error = None, tr_metrics = metrics\<rparr>))
       (\<lambda>r. transition_task tid AgentCompleted None (Some r))"

definition fail_task :: "string \<Rightarrow> string \<Rightarrow> ('z genv_scheme, task_node) sm" where
  "fail_task tid err =
     bindE (liftE (check_task_result \<lparr>tr_task = tid, tr_state = AgentFailed, tr_summary = err,
         tr_artifacts = [], tr_error = Some err, tr_metrics = []\<rparr>))
       (\<lambda>r. transition_task tid AgentFailed (Some err) (Some r))"

definition resume_task :: "string \<Rightarrow> ('z genv_scheme, task_node) sm" where
  "resume_task tid = transition_task tid AgentRunning (Some ''resumed'') None"

text \<open>\<^verbatim>\<open>_interrupt_descendants\<close> and \<^verbatim>\<open>_cancel_descendants\<close>: the same walk with two tests and two targets.\<close>

primrec interrupt_below :: "nat \<Rightarrow> string \<Rightarrow> string \<Rightarrow> ('z genv_scheme, unit) sm" where
  "interrupt_below 0 reason tid = raiseE recursion_error"
| "interrupt_below (Suc fuel) reason tid =
     bindE (get_task tid) (\<lambda>n.
     thenE (mapE (\<lambda>c. bindE (get_task c) (\<lambda>child.
         if tn_state child \<in> {AgentPending, AgentRunning, AgentWaiting}
         then thenE (interrupt_below fuel reason c)
                (thenE (transition_task c AgentInterrupted (Some reason) None) (retE ()))
         else retE ())) (tn_children n)) (retE ()))"

primrec cancel_below :: "nat \<Rightarrow> string \<Rightarrow> string \<Rightarrow> ('z genv_scheme, unit) sm" where
  "cancel_below 0 reason tid = raiseE recursion_error"
| "cancel_below (Suc fuel) reason tid =
     bindE (get_task tid) (\<lambda>n.
     thenE (mapE (\<lambda>c. bindE (get_task c) (\<lambda>child.
         if \<not> agent_terminal (tn_state child)
         then thenE (cancel_below fuel reason c)
                (thenE (transition_task c AgentCancelled (Some reason) None) (retE ()))
         else retE ())) (tn_children n)) (retE ()))"

definition interrupt_task :: "string \<Rightarrow> string \<Rightarrow> ('z genv_scheme, task_node) sm" where
  "interrupt_task tid reason =
     bindE graph_fuel (\<lambda>fuel.
     thenE (interrupt_below fuel reason tid) (transition_task tid AgentInterrupted (Some reason) None))"

definition cancel_task :: "string \<Rightarrow> string \<Rightarrow> ('z genv_scheme, task_node) sm" where
  "cancel_task tid reason =
     bindE graph_fuel (\<lambda>fuel.
     thenE (cancel_below fuel reason tid)
    (bindE (get_task tid) (\<lambda>n.
       if agent_terminal (tn_state n) then retE n
       else transition_task tid AgentCancelled (Some reason) None)))"

end
