(* ===== verification/Graph_Snapshots.thy ===== *)
theory Graph_Snapshots
  imports Task_Graph
begin

text \<open>
  Snapshots of a task graph (\<^verbatim>\<open>snapshot\<close>, \<^verbatim>\<open>from_snapshot\<close>, \<^verbatim>\<open>restore\<close> of \<^verbatim>\<open>aihi/agent/agents/graph.py\<close>) and
  \<^verbatim>\<open>_validate_graph\<close>, which decides what a restored graph may be. The depth-first search of the
  validation is a function of the nodes it is inside of (\<^verbatim>\<open>active\<close>) and those it has left (\<^verbatim>\<open>seen\<close>).
\<close>

section \<open>Validation\<close>

definition check_child :: "(string, task_node) dict \<Rightarrow> string \<Rightarrow> task_node \<Rightarrow> string \<Rightarrow> exn + unit" where
  "check_child nodes tid n c =
     (case dict_get nodes c of
        None \<Rightarrow> Inl (agent_invalid ''Task graph parent/child link is inconsistent'')
      | Some child \<Rightarrow>
          (let p = tn_spec n; k = tn_spec child in
           if ts_parent_task k \<noteq> Some tid
           then Inl (agent_invalid ''Task graph parent/child link is inconsistent'')
           else if ts_parent_run k \<noteq> ts_child_run p
           then Inl (agent_invalid ''Task graph child parent_run_id is inconsistent'')
           else if ts_depth k \<noteq> ts_depth p + 1
           then Inl (agent_invalid ''Task graph child depth is inconsistent'')
           else if ts_max_depth k \<noteq> ts_max_depth p
           then Inl (agent_invalid ''Task graph child max_depth is inconsistent'')
           else if ts_max_children k > ts_max_children p
           then Inl (agent_invalid ''Task graph child limit exceeds parent limit'')
           else if \<not> ts_capabilities k \<subseteq> ts_capabilities p
           then Inl (agent_invalid ''Task graph child capabilities exceed parent'')
           else if \<not> budget_within (ts_budget k) (ts_budget p)
           then Inl (agent_invalid ''Task graph child budget exceeds parent'')
           else Inr ()))"

text \<open>The checks of one node after those of its children.\<close>

definition check_node :: "(string, task_node) dict \<Rightarrow> string list \<Rightarrow> string \<Rightarrow> task_node \<Rightarrow> exn + unit" where
  "check_node nodes roots tid n =
     (let p = tn_spec n in
      if int (length (tn_children n)) > ts_max_children p
      then Inl (agent_invalid ''Task graph child count exceeds configured limit'')
      else if ts_parent_task p = None \<and> tid \<notin> set roots
      then Inl (agent_invalid ''Non-root task is missing parent'')
      else if ts_parent_task p = None \<and> ts_depth p \<noteq> 0
      then Inl (agent_invalid ''Root task depth must be zero'')
      else if (case ts_parent_task p of None \<Rightarrow> False | Some q \<Rightarrow> dict_get nodes q = None)
      then Inl (agent_invalid ''Task graph contains an unknown parent'')
      else case tn_result n of
          Some r \<Rightarrow>
            (if tr_task r \<noteq> tid then Inl (agent_invalid ''Task graph result task_id mismatch'')
             else if tr_state r \<noteq> tn_state n
             then Inl (agent_invalid ''Task graph result state does not match node state'')
             else if \<not> agent_terminal (tn_state n)
             then Inl (agent_invalid ''Active task cannot contain a terminal result'')
             else Inr ())
        | None \<Rightarrow>
            (if agent_terminal (tn_state n) then Inl (agent_invalid ''Terminal task is missing a result'')
             else Inr ()))"

definition check_entry :: "(string, task_node) dict \<Rightarrow> string list \<Rightarrow> string \<times> task_node \<Rightarrow> exn + unit" where
  "check_entry nodes roots entry =
     (case entry of (tid, n) \<Rightarrow>
        if ts_task (tn_spec n) \<noteq> tid
        then Inl (agent_invalid ''Task graph node key does not match task_id'')
        else if \<not> distinct (tn_children n)
        then Inl (agent_invalid ''Task graph contains duplicate child IDs'')
        else bindR (mapR (check_child nodes tid n) (tn_children n)) (\<lambda>_. check_node nodes roots tid n))"

lemma foldR_cong [fundef_cong]:
  assumes "b = b'" and "xs = ys" and "\<And>x c. x \<in> set ys \<Longrightarrow> f c x = g c x"
  shows "foldR f b xs = foldR g b' ys"
  using assms by (induction xs arbitrary: b b' ys) (auto simp: bindR_def split: sum.split)

function visit_task ::
  "(string, task_node) dict \<Rightarrow> string list \<Rightarrow> string \<Rightarrow> string list \<Rightarrow> exn + string list" where
  "visit_task nodes active tid seen =
     (if tid \<in> set active then Inl (agent_invalid ''Task graph contains a cycle'')
      else if tid \<in> set seen then Inr seen
      else case dict_get nodes tid of
          None \<Rightarrow> Inl (Exn (Py KeyError) tid)
        | Some n \<Rightarrow>
            bindR (foldR (\<lambda>seen' c. visit_task nodes (tid # active) c seen') seen (tn_children n))
              (\<lambda>seen'. Inr (tid # seen')))"
  by pat_completeness auto
termination
proof (relation "measure (\<lambda>(nodes, active, tid, seen). card (fst ` set nodes - set active))", goal_cases)
  case (2 nodes active tid seen n c seen')
  then have "tid \<in> fst ` set nodes - set active" by (auto dest!: dict_get_mem intro: rev_image_eqI)
  then have "fst ` set nodes - set (tid # active) \<subset> fst ` set nodes - set active" by auto
  then show ?case by (simp add: psubset_card_mono)
qed simp

declare visit_task.simps [simp del]

definition validate_graph :: "task_graph \<Rightarrow> exn + unit" where
  "validate_graph g =
     (let nodes = tg_nodes g; roots = tg_roots g in
      case roots of
        [r] \<Rightarrow>
          (if dict_get nodes r = None
           then Inl (agent_invalid ''Task graph must contain exactly one valid root'')
           else
             bindR (mapR (check_entry nodes roots) nodes) (\<lambda>_.
             bindR (visit_task nodes [] r []) (\<lambda>seen.
               if set seen \<noteq> fst ` set nodes
               then Inl (agent_invalid ''Task graph contains unreachable nodes'') else Inr ())))
      | _ \<Rightarrow> Inl (agent_invalid ''Task graph must contain exactly one valid root''))"

section \<open>Snapshots\<close>

definition graph_snapshot :: "task_graph \<Rightarrow> jobj" where
  "graph_snapshot g =
     [(''schema_version'', JInt 2), (''session_id'', jopt_str (tg_session g)),
      (''roots'', jstrs (tg_roots g)),
      (''nodes'', JObj (map (\<lambda>(tid, n). (tid, JObj (task_node_to_dict n))) (sort_key fst (tg_nodes g))))]"

definition supported_schema :: "jval \<Rightarrow> exn + unit" where
  "supported_schema v =
     (if is_JArr v \<or> is_JObj v then Inl (Exn (Py TypeError) ''unhashable type'')
      else if py_eq v (JInt 1) \<or> py_eq v (JInt 2) then Inr ()
      else Inl (agent_invalid ''Unsupported task graph snapshot schema''))"

definition node_entry :: "string \<times> jval \<Rightarrow> ('w world_scheme, string \<times> task_node) sm" where
  "node_entry p =
     bindE (liftE (agent_mapping (snd p) ''task graph node'')) (\<lambda>d.
     bindE (task_node_from_dict d) (\<lambda>n. retE (fst p, n)))"

definition snapshot_checks :: "jobj \<Rightarrow> exn + (jobj \<times> string option)" where
  "snapshot_checks snapshot =
     (case dict_get snapshot ''nodes'' of
        Some (JObj raw_nodes) \<Rightarrow>
          bindR (supported_schema (get_or snapshot ''schema_version'' (JInt 1))) (\<lambda>_.
          let session = get_or_none snapshot ''session_id'' in
          if session \<noteq> JNull \<and> \<not> is_text session
          then Inl (agent_invalid ''Task graph session_id must be a string or null'')
          else if \<not> list_all (\<lambda>p. is_JObj (snd p)) raw_nodes
          then Inl (agent_invalid ''Task graph nodes must be objects'')
          else Inr (raw_nodes, opt_str session))
      | _ \<Rightarrow> Inl (agent_invalid ''Malformed task graph snapshot''))"

definition assemble_graph ::
  "jobj \<Rightarrow> (nat \<Rightarrow> event \<Rightarrow> exn option) option \<Rightarrow> string option \<Rightarrow> (string, task_node) dict \<Rightarrow> exn + task_graph" where
  "assemble_graph snapshot sink session nodes =
     (case (case get_or snapshot ''roots'' (JArr []) of JArr xs \<Rightarrow> all_strings xs | _ \<Rightarrow> None) of
        None \<Rightarrow> Inl (agent_invalid ''Task graph roots must be a list'')
      | Some roots \<Rightarrow>
          (let g = \<lparr>tg_session = session, tg_sink = sink, tg_nodes = nodes, tg_roots = roots\<rparr> in
           bindR (validate_graph g) (\<lambda>_. Inr g)))"

definition graph_from_snapshot ::
  "jobj \<Rightarrow> (nat \<Rightarrow> event \<Rightarrow> exn option) option \<Rightarrow> ('w world_scheme, task_graph) sm" where
  "graph_from_snapshot snapshot sink =
     bindE (liftE (snapshot_checks snapshot)) (\<lambda>p.
     bindE (mapE node_entry (fst p)) (\<lambda>nodes. liftE (assemble_graph snapshot sink (snd p) nodes)))"

definition restore_graph :: "jobj \<Rightarrow> ('z genv_scheme, unit) sm" where
  "restore_graph snapshot =
     bindE get_graph (\<lambda>g.
     bindE (graph_from_snapshot snapshot (tg_sink g)) (\<lambda>restored.
       modifyE (\<lambda>s. s\<lparr>graph := (graph s)\<lparr>tg_session := tg_session restored, tg_nodes := tg_nodes restored,
         tg_roots := tg_roots restored\<rparr>\<rparr>)))"

section \<open>What validation decides\<close>

text \<open>
  The links of a valid graph: \<open>sound_child\<close> is what a parent's link to a child promises, \<open>linked r\<close> what
  holds of every node of a graph with root \<open>r\<close>.
\<close>

definition sound_child :: "task_node \<Rightarrow> task_node \<Rightarrow> bool" where
  "sound_child n child \<longleftrightarrow>
     (let p = tn_spec n; k = tn_spec child in
      ts_parent_task k = Some (ts_task p) \<and> ts_parent_run k = ts_child_run p \<and> ts_depth k = ts_depth p + 1 \<and>
      ts_max_depth k = ts_max_depth p \<and> ts_max_children k \<le> ts_max_children p \<and>
      ts_capabilities k \<subseteq> ts_capabilities p \<and> budget_within (ts_budget k) (ts_budget p))"

definition sound_result :: "task_node \<Rightarrow> bool" where
  "sound_result n \<longleftrightarrow>
     (case tn_result n of None \<Rightarrow> \<not> agent_terminal (tn_state n)
      | Some r \<Rightarrow> agent_terminal (tn_state n) \<and> tr_task r = ts_task (tn_spec n) \<and> tr_state r = tn_state n)"

definition sound_node :: "(string, task_node) dict \<Rightarrow> string \<Rightarrow> string \<Rightarrow> task_node \<Rightarrow> bool" where
  "sound_node nodes r tid n \<longleftrightarrow>
     ts_task (tn_spec n) = tid \<and> distinct (tn_children n) \<and> sound_result n \<and>
     int (length (tn_children n)) \<le> ts_max_children (tn_spec n) \<and>
     (\<forall>c \<in> set (tn_children n). \<exists>child. dict_get nodes c = Some child \<and> sound_child n child) \<and>
     (case ts_parent_task (tn_spec n) of
        None \<Rightarrow> tid = r \<and> ts_depth (tn_spec n) = 0 | Some q \<Rightarrow> dict_get nodes q \<noteq> None)"

definition is_child :: "(string, task_node) dict \<Rightarrow> string \<Rightarrow> string \<Rightarrow> bool" where
  "is_child nodes p c \<longleftrightarrow> (\<exists>n. dict_get nodes p = Some n \<and> c \<in> set (tn_children n))"

definition linked :: "(string, task_node) dict \<Rightarrow> string \<Rightarrow> bool" where
  "linked nodes r \<longleftrightarrow> dict_get nodes r \<noteq> None \<and>
     (\<forall>tid n. dict_get nodes tid = Some n \<longrightarrow>
        sound_node nodes r tid n \<and> (tid = r \<or> (\<exists>p. is_child nodes p tid)))"

lemma mapR_unit: "(\<exists>us. mapR f xs = Inr us) \<longleftrightarrow> (\<forall>x \<in> set xs. \<exists>u. f x = Inr u)"
  by (induction xs) (auto simp: bindR_Inr_iff)

lemma check_child_iff:
  "(\<exists>u. check_child nodes tid n c = Inr u) \<longleftrightarrow>
     (\<exists>child. dict_get nodes c = Some child \<and> ts_parent_task (tn_spec child) = Some tid \<and>
        sound_child (n\<lparr>tn_spec := (tn_spec n)\<lparr>ts_task := tid\<rparr>\<rparr>) child)"
  by (auto simp: check_child_def sound_child_def Let_def split: option.split)

lemma check_entry_iff:
  "(\<exists>u. check_entry nodes [r] (tid, n) = Inr u) \<longleftrightarrow> sound_node nodes r tid n"
proof (cases "ts_task (tn_spec n) = tid")
  case True
  then have same: "n\<lparr>tn_spec := (tn_spec n)\<lparr>ts_task := tid\<rparr>\<rparr> = n" by simp
  have node: "(\<exists>u. check_node nodes [r] tid n = Inr u) \<longleftrightarrow>
      int (length (tn_children n)) \<le> ts_max_children (tn_spec n) \<and> sound_result n \<and>
      (case ts_parent_task (tn_spec n) of
        None \<Rightarrow> tid = r \<and> ts_depth (tn_spec n) = 0 | Some q \<Rightarrow> dict_get nodes q \<noteq> None)"
    using True by (auto simp: check_node_def sound_result_def Let_def split: option.splits if_splits)
  have child: "(\<exists>u. check_child nodes tid n c = Inr u) \<longleftrightarrow>
      (\<exists>child. dict_get nodes c = Some child \<and> sound_child n child)" for c
    unfolding check_child_iff same using True by (auto simp: sound_child_def Let_def)
  have "(\<exists>u. check_entry nodes [r] (tid, n) = Inr u) \<longleftrightarrow> distinct (tn_children n) \<and>
      (\<exists>us. mapR (check_child nodes tid n) (tn_children n) = Inr us) \<and> (\<exists>u. check_node nodes [r] tid n = Inr u)"
    using True by (auto simp: check_entry_def bindR_Inr_iff)
  then show ?thesis unfolding mapR_unit child node sound_node_def using True by blast
next
  case False
  then show ?thesis by (simp add: check_entry_def sound_node_def)
qed

end
