(* ===== verification/Task_Graph_Facts.thy ===== *)
theory Task_Graph_Facts
  imports Graph_Snapshots
begin

text \<open>
  Facts about task graphs: the search of the validation visits exactly what the root reaches, so that
  validation decides \<open>linked\<close>; and every operation keeps the invariant \<open>graph_ok\<close>.
\<close>

section \<open>The search\<close>

definition closed :: "(string, task_node) dict \<Rightarrow> string set \<Rightarrow> bool" where
  "closed nodes S \<longleftrightarrow> (\<forall>x \<in> S. \<forall>n. dict_get nodes x = Some n \<longrightarrow> set (tn_children n) \<subseteq> S)"

definition deepening :: "(string, task_node) dict \<Rightarrow> bool" where
  "deepening nodes \<longleftrightarrow> (\<forall>p n. dict_get nodes p = Some n \<longrightarrow>
     (\<forall>c \<in> set (tn_children n). \<exists>k. dict_get nodes c = Some k \<and> ts_depth (tn_spec k) = ts_depth (tn_spec n) + 1))"

lemma visit_within:
  assumes "visit_task nodes active tid seen = Inr seen'" and "tid \<in> S" and "closed nodes S"
  shows "set seen' \<subseteq> set seen \<union> S"
  using assms
proof (induction nodes active tid seen arbitrary: seen' rule: visit_task.induct)
  case (1 nodes active tid seen)
  show ?case
  proof (cases "tid \<in> set seen")
    case True
    then show ?thesis using "1.prems"(1) by (subst (asm) visit_task.simps) (auto split: if_splits)
  next
    case False
    then obtain n seen1 where new: "tid \<notin> set active" "dict_get nodes tid = Some n"
      and walk: "foldR (\<lambda>seen' c. visit_task nodes (tid # active) c seen') seen (tn_children n) = Inr seen1"
      and res: "seen' = tid # seen1"
      using "1.prems"(1) by (subst (asm) visit_task.simps) (auto simp: bindR_Inr_iff split: if_splits option.splits)
    have "set (tn_children n) \<subseteq> S" using "1.prems"(2,3) new(2) by (auto simp: closed_def)
    then have step: "set b' \<subseteq> set seen \<union> S"
      if "c \<in> set (tn_children n)" "set b \<subseteq> set seen \<union> S" "visit_task nodes (tid # active) c b = Inr b'" for c b b'
      using "1.IH" [OF new(1) False new(2) that(1,3) _ "1.prems"(3)] that(1,2) by blast
    have "set seen1 \<subseteq> set seen \<union> S"
      by (rule foldR_invariant [OF walk, of "\<lambda>sn. set sn \<subseteq> set seen \<union> S"]) (use step in blast)+
    then show ?thesis using res "1.prems"(2) by auto
  qed
qed

lemma visit_succeeds:
  assumes "deepening nodes" and "dict_get nodes tid = Some n"
    and "\<forall>a \<in> set active. \<exists>m. dict_get nodes a = Some m \<and> ts_depth (tn_spec m) < ts_depth (tn_spec n)"
    and "closed nodes (set seen)"
  shows "\<exists>seen'. visit_task nodes active tid seen = Inr seen' \<and> insert tid (set seen) \<subseteq> set seen' \<and>
    closed nodes (set seen')"
  using assms
proof (induction nodes active tid seen arbitrary: n rule: visit_task.induct)
  case (1 nodes active tid seen)
  have out: "tid \<notin> set active" using "1.prems"(2,3) by force
  show ?case
  proof (cases "tid \<in> set seen")
    case True
    then show ?thesis using out "1.prems"(4) by (subst visit_task.simps) auto
  next
    case False
    let ?step = "\<lambda>seen' c. visit_task nodes (tid # active) c seen'"
    have walk: "\<exists>seen'. foldR ?step sn cs = Inr seen' \<and> set cs \<union> set sn \<subseteq> set seen' \<and> closed nodes (set seen')"
      if "set cs \<subseteq> set (tn_children n)" "closed nodes (set sn)" for cs sn
      using that
    proof (induction cs arbitrary: sn)
      case (Cons c cs)
      then obtain k where k: "dict_get nodes c = Some k" "ts_depth (tn_spec k) = ts_depth (tn_spec n) + 1"
        using "1.prems"(1,2) by (force simp: deepening_def)
      have "\<forall>a \<in> set (tid # active). \<exists>m. dict_get nodes a = Some m \<and> ts_depth (tn_spec m) < ts_depth (tn_spec k)"
        using "1.prems"(2,3) k(2) by force
      with "1.IH" [OF out False "1.prems"(2) _ "1.prems"(1) k(1)] Cons.prems obtain sn' where
        "?step sn c = Inr sn'" "insert c (set sn) \<subseteq> set sn'" "closed nodes (set sn')" by force
      with Cons.IH [of sn'] Cons.prems show ?case by fastforce
    qed (auto simp: closed_def)
    from walk [OF subset_refl "1.prems"(4)] obtain seen1 where
      seen1: "foldR ?step seen (tn_children n) = Inr seen1" "set (tn_children n) \<union> set seen \<subseteq> set seen1"
        "closed nodes (set seen1)" by blast
    moreover have "closed nodes (insert tid (set seen1))"
      using seen1(2,3) "1.prems"(2) by (auto simp: closed_def)
    ultimately show ?thesis
      using out False "1.prems"(2) by (subst visit_task.simps) auto
  qed
qed

section \<open>Validation decides \<open>linked\<close>\<close>

definition depths_ok :: "(string, task_node) dict \<Rightarrow> bool" where
  "depths_ok nodes \<longleftrightarrow> (\<forall>tid n. dict_get nodes tid = Some n \<longrightarrow> 0 \<le> ts_depth (tn_spec n))"

lemma linked_deepening: "linked nodes r \<Longrightarrow> deepening nodes"
  by (fastforce simp: linked_def sound_node_def deepening_def sound_child_def Let_def)

lemma linked_reached:
  assumes "linked nodes r" and "depths_ok nodes" and "r \<in> S" and "closed nodes S"
    and "dict_get nodes tid = Some n"
  shows "tid \<in> S"
  using assms(5)
proof (induction "nat (ts_depth (tn_spec n))" arbitrary: tid n rule: less_induct)
  case less
  show ?case
  proof (cases "tid = r")
    case True
    then show ?thesis using assms(3) by simp
  next
    case False
    then obtain p m where p: "dict_get nodes p = Some m" "tid \<in> set (tn_children m)"
      using assms(1) less.prems unfolding linked_def is_child_def by blast
    then have "ts_depth (tn_spec n) = ts_depth (tn_spec m) + 1"
      using linked_deepening [OF assms(1)] less.prems by (force simp: deepening_def)
    moreover have "0 \<le> ts_depth (tn_spec m)" using assms(2) p(1) by (simp add: depths_ok_def)
    ultimately have "p \<in> S" using less.hyps [OF _ p(1)] by simp
    then show ?thesis using assms(4) p by (auto simp: closed_def)
  qed
qed

lemma validate_iff:
  assumes "dict_wf (tg_nodes g)" and "depths_ok (tg_nodes g)"
  shows "validate_graph g = Inr () \<longleftrightarrow> (\<exists>r. tg_roots g = [r] \<and> linked (tg_nodes g) r)"
proof -
  let ?ns = "tg_nodes g"
  have entries: "(\<exists>us. mapR (check_entry ?ns [r]) ?ns = Inr us) \<longleftrightarrow>
      (\<forall>tid n. dict_get ?ns tid = Some n \<longrightarrow> sound_node ?ns r tid n)" for r
  proof -
    have entry: "check_entry ?ns [r] (tid, n) = Inr () \<longleftrightarrow> sound_node ?ns r tid n" for tid n
      using check_entry_iff [of ?ns r tid n] by simp
    have all: "(\<exists>us. mapR (check_entry ?ns [r]) ?ns = Inr us) \<longleftrightarrow>
        (\<forall>tid n. (tid, n) \<in> set ?ns \<longrightarrow> check_entry ?ns [r] (tid, n) = Inr ())"
      unfolding mapR_unit by auto
    show ?thesis by (simp only: all entry dict_get_iff [OF assms(1)])
  qed
  have keys: "tid \<in> fst ` set ?ns \<longleftrightarrow> (\<exists>n. dict_get ?ns tid = Some n)" for tid
    using dict_get_None [of ?ns tid] by auto
  have "validate_graph g = Inr ()" if r: "tg_roots g = [r]" and l: "linked ?ns r" for r
  proof -
    obtain n where n: "dict_get ?ns r = Some n" using l by (auto simp: linked_def)
    obtain seen where seen: "visit_task ?ns [] r [] = Inr seen" "r \<in> set seen" "closed ?ns (set seen)"
      using visit_succeeds [OF linked_deepening [OF l] n, of "[]" "[]"] by (auto simp: closed_def)
    have shut: "closed ?ns (fst ` set ?ns)"
      unfolding closed_def using linked_deepening [OF l] keys unfolding deepening_def by blast
    have "r \<in> fst ` set ?ns" using n keys by blast
    from visit_within [OF seen(1) this shut] have "set seen \<subseteq> fst ` set ?ns" by simp
    moreover have "fst ` set ?ns \<subseteq> set seen"
      using linked_reached [OF l assms(2) seen(2,3)] keys by blast
    moreover obtain us where "mapR (check_entry ?ns [r]) ?ns = Inr us"
      using entries [of r] l unfolding linked_def by blast
    ultimately show ?thesis using n r seen(1) by (simp add: validate_graph_def)
  qed
  moreover have "linked ?ns r" if r: "tg_roots g = [r]" and v: "validate_graph g = Inr ()" for r
  proof -
    obtain us seen where root: "dict_get ?ns r \<noteq> None" and us: "mapR (check_entry ?ns [r]) ?ns = Inr us"
      and seen: "visit_task ?ns [] r [] = Inr seen" "set seen = fst ` set ?ns"
      using v r by (auto simp: validate_graph_def Let_def bindR_Inr_iff split: if_splits)
    have "closed ?ns (insert r {c. \<exists>p. is_child ?ns p c})" by (auto simp: closed_def is_child_def)
    from visit_within [OF seen(1) _ this] have sub: "fst ` set ?ns \<subseteq> insert r {c. \<exists>p. is_child ?ns p c}"
      by (simp add: seen(2))
    have reached: "tid = r \<or> (\<exists>p. is_child ?ns p tid)" if "dict_get ?ns tid = Some n" for tid n
      using subsetD [OF sub, of tid] keys [of tid] that by simp
    have "\<forall>tid n. dict_get ?ns tid = Some n \<longrightarrow> sound_node ?ns r tid n"
      by (rule iffD1 [OF entries]) (rule exI, rule us)
    with root reached show ?thesis by (simp add: linked_def)
  qed
  moreover have "\<exists>r. tg_roots g = [r]" if "validate_graph g = Inr ()"
    using that by (auto simp: validate_graph_def Let_def split: list.splits)
  ultimately show ?thesis by blast
qed

section \<open>The invariant\<close>

definition graph_ok :: "task_graph \<Rightarrow> bool" where
  "graph_ok g \<longleftrightarrow> (\<forall>tid n. dict_get (tg_nodes g) tid = Some n \<longrightarrow> node_ok n) \<and> dict_wf (tg_nodes g) \<and>
     (tg_nodes g = [] \<and> tg_roots g = [] \<or> (\<exists>r. tg_roots g = [r] \<and> linked (tg_nodes g) r))"

lemma node_ok_depth: "node_ok n \<Longrightarrow> 0 \<le> ts_depth (tn_spec n) \<and> ts_depth (tn_spec n) \<le> ts_max_depth (tn_spec n)"
  using spec_fields_ok(8) [of "tn_spec n" "tn_spec n"] by (simp add: node_ok_def spec_ok_def)

lemma graph_ok_depths: "graph_ok g \<Longrightarrow> depths_ok (tg_nodes g)"
  by (auto simp: graph_ok_def depths_ok_def dest!: node_ok_depth)

lemma graph_ok_empty [simp]: "graph_ok (new_task_graph session sink)"
  by (simp add: graph_ok_def new_task_graph_def)

lemma graph_ok_valid: "graph_ok g \<Longrightarrow> tg_nodes g \<noteq> [] \<Longrightarrow> validate_graph g = Inr ()"
  using validate_iff [of g] graph_ok_depths [of g] by (auto simp: graph_ok_def)

text \<open>Storing a node with the old specification and children.\<close>

lemma sound_child_cong:
  "tn_spec n' = tn_spec n \<Longrightarrow> tn_spec k' = tn_spec k \<Longrightarrow> sound_child n' k' = sound_child n k"
  by (simp add: sound_child_def)

lemma linked_set:
  assumes "linked ns r" and "dict_get ns tid = Some n" and "tn_spec n' = tn_spec n"
    and "tn_children n' = tn_children n" and "sound_result n'"
  shows "linked (dict_set tid n' ns) r"
proof -
  let ?ns = "dict_set tid n' ns"
  have child: "\<exists>child. dict_get ?ns c = Some child \<and> sound_child m child"
    if "\<exists>child. dict_get ns c = Some child \<and> sound_child m child" for c m
    using that assms(2,3) sound_child_cong [of m m n' n] by auto
  have "sound_node ?ns r a m'" if a: "dict_get ?ns a = Some m'" for a m'
  proof -
    obtain m where m: "dict_get ns a = Some m" "tn_spec m' = tn_spec m" "tn_children m' = tn_children m"
      "sound_result m \<longrightarrow> sound_result m'"
      using a assms(2-5) by (auto split: if_splits)
    then have old: "sound_node ns r a m" using assms(1) by (simp add: linked_def)
    have "\<exists>child. dict_get ?ns c = Some child \<and> sound_child m' child" if "c \<in> set (tn_children m')" for c
    proof -
      have "\<exists>child. dict_get ns c = Some child \<and> sound_child m child" using old m that by (simp add: sound_node_def)
      then show ?thesis using child [of c m] sound_child_cong [of m' m] m(2) by auto
    qed
    then show ?thesis using old m by (auto simp: sound_node_def split: option.splits)
  qed
  moreover have "a = r \<or> (\<exists>p. is_child ?ns p a)" if a: "dict_get ?ns a \<noteq> None" for a
  proof -
    have "dict_get ns a \<noteq> None" using a assms(2) by (auto split: if_splits)
    then have "a = r \<or> (\<exists>p. is_child ns p a)" using assms(1) by (auto simp: linked_def)
    then show ?thesis using assms(2,4) unfolding is_child_def by (metis dict_get_set option.inject)
  qed
  moreover have "dict_get ?ns r \<noteq> None" using assms(1) by (simp add: linked_def)
  ultimately show ?thesis by (auto simp: linked_def)
qed

lemma graph_ok_set:
  assumes "graph_ok g" and "dict_get (tg_nodes g) tid = Some n" and "tn_spec n' = tn_spec n"
    and "tn_children n' = tn_children n" and "sound_result n'" and "\<forall>x. tn_result n' = Some x \<longrightarrow> result_ok x"
  shows "graph_ok (g\<lparr>tg_nodes := dict_set tid n' (tg_nodes g)\<rparr>)"
proof -
  have "node_ok n'" using assms(1-3,6) by (auto simp: graph_ok_def node_ok_def)
  then show ?thesis using assms(1) linked_set [OF _ assms(2-5)] assms(2) by (auto simp: graph_ok_def)
qed

text \<open>Adding a child.\<close>

lemma graph_ok_add:
  assumes "graph_ok g" and "dict_get (tg_nodes g) p = Some n" and "dict_get (tg_nodes g) (ts_task t) = None"
    and "spec_ok t" and "sound_child n \<lparr>tn_spec = t, tn_state = AgentPending, tn_children = [], tn_result = None,
       tn_reason = None, tn_updated = now\<rparr>"
    and "int (length (tn_children n)) < ts_max_children (tn_spec n)"
  shows "graph_ok (g\<lparr>tg_nodes := dict_set p (n\<lparr>tn_children := tn_children n @ [ts_task t], tn_updated := now'\<rparr>)
     (dict_set (ts_task t) \<lparr>tn_spec = t, tn_state = AgentPending, tn_children = [], tn_result = None,
       tn_reason = None, tn_updated = now\<rparr> (tg_nodes g))\<rparr>)"
proof -
  let ?new = "\<lparr>tn_spec = t, tn_state = AgentPending, tn_children = [], tn_result = None,
       tn_reason = None, tn_updated = now\<rparr>"
  let ?n = "n\<lparr>tn_children := tn_children n @ [ts_task t], tn_updated := now'\<rparr>"
  let ?old = "tg_nodes g"
  let ?ns = "dict_set p ?n (dict_set (ts_task t) ?new ?old)"
  obtain r where r: "tg_roots g = [r]" "linked ?old r"
    using assms(1,2) by (auto simp: graph_ok_def)
  have diff: "ts_task t \<noteq> p" using assms(2,3) by auto
  have new: "dict_get ?ns (ts_task t) = Some ?new" using diff by simp
  have parent: "sound_node ?old r p n" using r(2) assms(2) by (simp add: linked_def)
  have fresh: "ts_task t \<notin> set (tn_children m)" if "dict_get ?old a = Some m" for a m
  proof
    assume "ts_task t \<in> set (tn_children m)"
    moreover have "sound_node ?old r a m" using r(2) that by (simp add: linked_def)
    ultimately show False using assms(3) by (auto simp: sound_node_def)
  qed
  have keep: "\<exists>child. dict_get ?ns c = Some child \<and> sound_child m child"
    if "\<exists>child. dict_get ?old c = Some child \<and> sound_child m child" for c m
    using that assms(2,3) sound_child_cong [of m m ?n n] by auto
  have "sound_node ?ns r a m'" if a: "dict_get ?ns a = Some m'" for a m'
  proof -
    consider "a = p" "m' = ?n" | "a = ts_task t" "m' = ?new" | "a \<noteq> p" "a \<noteq> ts_task t" "dict_get ?old a = Some m'"
      using a by (auto split: if_splits)
    then show ?thesis
    proof cases
      case 1
      have "\<exists>child. dict_get ?ns c = Some child \<and> sound_child ?n child" if "c \<in> set (tn_children ?n)" for c
        using that parent keep [of c n] new assms(5) sound_child_cong [of ?n n]
        by (auto simp: sound_node_def)
      moreover have "distinct (tn_children ?n)" using parent fresh [OF assms(2)] by (simp add: sound_node_def)
      ultimately show ?thesis using 1 parent assms(6)
        by (auto simp: sound_node_def sound_result_def split: option.splits)
    next
      case 2
      have "ts_parent_task t = Some (ts_task (tn_spec n))" "0 \<le> ts_max_children t"
        using assms(5) spec_fields_ok(8) [of t t] assms(4) by (simp_all add: sound_child_def Let_def spec_ok_def)
      then show ?thesis using 2 parent by (simp add: sound_node_def sound_result_def agent_terminal_def)
    next
      case 3
      then have "sound_node ?old r a m'" using r(2) by (simp add: linked_def)
      then show ?thesis using keep [of _ m'] by (auto simp: sound_node_def split: option.splits)
    qed
  qed
  moreover have "a = r \<or> (\<exists>q. is_child ?ns q a)" if a: "dict_get ?ns a \<noteq> None" for a
  proof (cases "a = ts_task t")
    case True
    then have "is_child ?ns p a" by (simp add: is_child_def)
    then show ?thesis by blast
  next
    case False
    then have "dict_get ?old a \<noteq> None" using a assms(2) by (auto split: if_splits)
    then have "a = r \<or> (\<exists>q. is_child ?old q a)" using r(2) by (auto simp: linked_def)
    moreover have "is_child ?ns q a" if "is_child ?old q a" for q
      using that assms(2,3) by (auto simp: is_child_def)
    ultimately show ?thesis by blast
  qed
  moreover have "dict_get ?ns r \<noteq> None" using r(2) by (auto simp: linked_def)
  ultimately have "linked ?ns r" by (auto simp: linked_def)
  moreover have "node_ok ?n" using assms(1,2) by (auto simp: graph_ok_def node_ok_def)
  moreover have "node_ok ?new" using assms(4) by (simp add: node_ok_def)
  ultimately show ?thesis using assms(1) r(1) by (auto simp: graph_ok_def)
qed

lemma graph_ok_root:
  assumes "tg_nodes g = []" and "tg_roots g = []" and "spec_ok t" and "ts_parent_task t = None" and "ts_depth t = 0"
  shows "graph_ok (g\<lparr>tg_nodes := [(ts_task t, \<lparr>tn_spec = t, tn_state = AgentPending, tn_children = [],
     tn_result = None, tn_reason = None, tn_updated = now\<rparr>)], tg_roots := [ts_task t]\<rparr>)"
  using assms spec_fields_ok(8) [of t t]
  by (auto simp: graph_ok_def linked_def sound_node_def sound_result_def agent_terminal_def node_ok_def
    spec_ok_def dict_wf_def)

section \<open>Steps that leave the graph alone\<close>

definition quiet :: "'z genv_scheme \<Rightarrow> 'z genv_scheme \<Rightarrow> bool" where
  "quiet s t \<longleftrightarrow> graph t = graph s \<and> process_salt t = process_salt s \<and> last_tick s \<le> last_tick t"

interpretation quiet: step_order quiet
  by unfold_locales (auto simp: quiet_def)

lemma quiet_clock: "advances quiet utc_now"
  by (simp add: advances_def clock_read quiet_def)

lemma quiet_new_id: "advances quiet (new_id kind)"
  by (auto simp: advances_def new_id_def raiseE_def bindE_def time_ns_def Let_def quiet_def)

lemma quiet_get_graph: "advances quiet get_graph"
  by (simp add: advances_def get_graph_def quiet_def)

lemmas quiet_rules = quiet.advances_rules quiet_clock quiet_new_id quiet_get_graph

lemma quiet_new_event: "advances quiet (new_event ty sid rid data)"
  unfolding new_event_def by (intro quiet_rules)

lemma quiet_call_sink: "advances quiet (call_sink f e)"
  by (simp add: advances_def call_sink_def quiet_def)

lemma quiet_emit: "advances quiet (emit_task_event ty n reason)"
  unfolding emit_task_event_def
  by (intro quiet_rules) (auto split: option.split intro!: quiet_rules quiet_new_event quiet_call_sink)

lemma quiet_spec_from_dict: "advances quiet (task_spec_from_dict v)"
  unfolding task_spec_from_dict_def by (intro quiet_rules)

lemma quiet_node_from_dict: "advances quiet (task_node_from_dict v)"
  unfolding task_node_from_dict_def
  by (rule quiet.advances_bindE, rule quiet.advances_liftE, simp only: split_beta)
     (intro quiet.advances_bindE quiet_clock quiet_spec_from_dict quiet.advances_liftE)

lemma quiet_copy: "advances quiet (copy_node n)"
  unfolding copy_node_def by (rule quiet_node_from_dict)

lemma quiet_get_task: "advances quiet (get_task tid)"
  unfolding get_task_def by (intro quiet_rules) (auto split: option.split intro!: quiet_rules quiet_copy)

lemma quiet_new_node: "advances quiet (new_task_node t)"
  unfolding new_task_node_def by (intro quiet_rules)

lemma quiet_new_spec: "advances quiet (new_task_spec a b c d e f g h i j)"
  unfolding new_task_spec_def by (intro quiet_rules)

lemma copy_node_ok: "node_ok n \<Longrightarrow> copy_node n w = (Inr n, copied w)"
  unfolding copy_node_def by (rule node_roundtrip)

section \<open>Fresh identifiers\<close>

lemma strip_plain: "list_all (\<lambda>c. \<not> is_space c) s \<Longrightarrow> strip s = s"
proof -
  assume plain: "list_all (\<lambda>c. \<not> is_space c) s"
  then have "dropWhile is_space s = s" by (cases s) auto
  moreover have "dropWhile is_space (rev s) = rev s"
    using plain by (intro dropWhile_rev_id) (auto simp: list_all_iff)
  ultimately show ?thesis by (simp add: strip_def)
qed

lemma hex_char_plain: "n < 16 \<Longrightarrow> \<not> is_space (hex_char n)"
  by (auto simp: hex_char_def is_space_def)

lemma hex_nat_plain: "list_all (\<lambda>c. \<not> is_space c) (hex_nat n)"
  by (induction n rule: hex_nat.induct) (subst hex_nat.simps, auto intro!: hex_char_plain)

lemma render_task_plain:
  "list_all (\<lambda>c. \<not> is_space c) salt \<Longrightarrow> list_all (\<lambda>c. \<not> is_space c) (render_id ''task'' k salt)"
proof -
  assume salt: "list_all (\<lambda>c. \<not> is_space c) salt"
  have "list_all (\<lambda>c. \<not> is_space c) (replicate n CHR ''0'')" for n
    by (induction n) (simp_all add: is_space_def)
  moreover have "list_all (\<lambda>c. \<not> is_space c) ''task_''" by (simp add: is_space_def)
  ultimately show ?thesis using salt hex_nat_plain by (simp add: render_id_def hex_pad_def Let_def)
qed

text \<open>
  \<open>sound\<close>: the invariant, and that no node has an identifier the process may still draw. The salt is the
  hexadecimal text of \<^verbatim>\<open>secrets.token_hex\<close>.
\<close>

definition sound :: "'z genv_scheme \<Rightarrow> bool" where
  "sound s \<longleftrightarrow> graph_ok (graph s) \<and> 0 \<le> last_tick s \<and> list_all (\<lambda>c. \<not> is_space c) (process_salt s) \<and>
     (\<forall>k > last_tick s. dict_get (tg_nodes (graph s)) (render_id ''task'' k (process_salt s)) = None)"

lemma sound_quiet: "sound s \<Longrightarrow> quiet s t \<Longrightarrow> sound t"
  by (auto simp: sound_def quiet_def)

definition drawn :: "string \<Rightarrow> 'z genv_scheme \<Rightarrow> bool" where
  "drawn tid s \<longleftrightarrow> dict_get (tg_nodes (graph s)) tid = None \<and>
     (\<exists>k. 0 \<le> k \<and> k \<le> last_tick s \<and> tid = render_id ''task'' k (process_salt s))"

lemma drawn_quiet: "drawn tid s \<Longrightarrow> quiet s t \<Longrightarrow> drawn tid t"
  by (fastforce simp: drawn_def quiet_def)

lemma new_id_drawn:
  assumes "sound s" and "new_id ''task'' s = (Inr i, t)"
  shows "drawn i t \<and> list_all (\<lambda>c. \<not> is_space c) i"
proof -
  note i = new_id_Inr [OF assms(2)]
  have q: "quiet s t" by (rule advancesD [OF quiet_new_id assms(2)])
  have "drawn i t"
    unfolding drawn_def using i assms(1) q
    by (intro conjI exI [of _ "last_tick t"]) (auto simp: sound_def quiet_def)
  then show ?thesis using i(1) render_task_plain assms(1) by (auto simp: sound_def)
qed

lemma liftE_eq_Inr: "liftE r s = (Inr x, t) \<longleftrightarrow> r = Inr x \<and> t = s"
  by (auto simp: liftE_def raiseE_def retE_def split: sum.splits)

lemma new_task_spec_Inr:
  assumes "new_task_spec parent_run objective budget parent_task constraints caps depth max_depth max_children
      metadata s = (Inr t, s')" and "sound s" and "budget_ok budget"
  shows "drawn (ts_task t) s' \<and> spec_ok t \<and>
    (\<exists>raw. check_task_spec raw = Inr t \<and> ts_parent_run raw = parent_run \<and> ts_budget raw = budget \<and>
       ts_parent_task raw = parent_task \<and> ts_capabilities raw = caps \<and> ts_depth raw = depth \<and>
       ts_max_depth raw = max_depth \<and> ts_max_children raw = max_children)"
proof -
  obtain i r c s1 s2 s3 where i: "new_id ''task'' s = (Inr i, s1)" and r: "new_id ''run'' s1 = (Inr r, s2)"
    and c: "utc_now s2 = (Inr c, s3)" and s': "s' = s3"
    and check: "check_task_spec \<lparr>ts_parent_run = parent_run, ts_objective = objective, ts_budget = budget,
         ts_task = i, ts_child_run = r, ts_parent_task = parent_task, ts_constraints = constraints,
         ts_capabilities = caps, ts_depth = depth, ts_max_depth = max_depth, ts_max_children = max_children,
         ts_metadata = metadata, ts_created = c\<rparr> = Inr t"
    using assms(1) unfolding new_task_spec_def bindE_eq_Inr liftE_eq_Inr by blast
  note new = new_id_drawn [OF assms(2) i]
  have "quiet s1 s'"
    using quiet.step_trans [OF advancesD [OF quiet_new_id r] advancesD [OF quiet_clock c]] s' by simp
  with new have drawn: "drawn i s'" using drawn_quiet by blast
  have "agent_text (JStr i) ''task_id'' 256 = Inr (ts_task t)" using spec_fields_ok(3) [OF check] by simp
  then have "ts_task t = i" using strip_plain new by (auto simp: agent_text_def split: if_splits)
  with drawn have "drawn (ts_task t) s'" by simp
  moreover have "spec_ok t" by (rule check_task_spec_ok [OF check]) (simp add: assms(3))
  moreover have "\<exists>raw. check_task_spec raw = Inr t \<and> ts_parent_run raw = parent_run \<and> ts_budget raw = budget \<and>
       ts_parent_task raw = parent_task \<and> ts_capabilities raw = caps \<and> ts_depth raw = depth \<and>
       ts_max_depth raw = max_depth \<and> ts_max_children raw = max_children"
    by (rule exI, rule conjI, rule check) simp
  ultimately show ?thesis by blast
qed

section \<open>Operations keep the invariant\<close>

text \<open>
  \<open>safely P m Q\<close>: from a state with \<open>P\<close>, \<open>m\<close> ends in a sound state when it raises, and in one with \<open>Q\<close> of
  its result when it returns. \<open>stable P\<close>: \<open>P\<close> implies \<open>sound\<close> and survives quiet steps.
\<close>

definition safely ::
  "('z genv_scheme \<Rightarrow> bool) \<Rightarrow> ('z genv_scheme, 'a) sm \<Rightarrow> ('a \<Rightarrow> 'z genv_scheme \<Rightarrow> bool) \<Rightarrow> bool" where
  "safely P m Q \<longleftrightarrow> (\<forall>s. P s \<longrightarrow>
     (case fst (m s) of Inl e \<Rightarrow> sound (snd (m s)) | Inr x \<Rightarrow> Q x (snd (m s))))"

definition stable :: "('z genv_scheme \<Rightarrow> bool) \<Rightarrow> bool" where
  "stable P \<longleftrightarrow> (\<forall>s. P s \<longrightarrow> sound s) \<and> (\<forall>s t. P s \<longrightarrow> quiet s t \<longrightarrow> P t)"

lemma safely_bind: "safely P m Q \<Longrightarrow> (\<And>x. safely (Q x) (f x) R) \<Longrightarrow> safely P (bindE m f) R"
  by (fastforce simp: safely_def bindE_def split: prod.splits sum.splits)

lemma safely_then: "safely P m (\<lambda>_. Q) \<Longrightarrow> safely Q n R \<Longrightarrow> safely P (thenE m n) R"
  unfolding thenE_def by (rule safely_bind)

lemma safely_ret: "(\<And>s. P s \<Longrightarrow> Q x s) \<Longrightarrow> safely P (retE x) Q"
  by (simp add: safely_def retE_def)

lemma safely_raise: "stable P \<Longrightarrow> safely P (raiseE e) Q"
  by (simp add: safely_def raiseE_def stable_def)

lemma safely_lift: "stable P \<Longrightarrow> safely P (liftE r) (\<lambda>x s. P s \<and> r = Inr x)"
  by (auto simp: safely_def liftE_def raiseE_def retE_def stable_def split: sum.split)

lemma safely_if: "(b \<Longrightarrow> safely P m Q) \<Longrightarrow> (\<not> b \<Longrightarrow> safely P n Q) \<Longrightarrow> safely P (if b then m else n) Q"
  by simp

lemma safely_quiet_result:
  assumes "stable P" and "advances quiet m" and "\<And>s x t. P s \<Longrightarrow> m s = (Inr x, t) \<Longrightarrow> Q x t"
  shows "safely P m (\<lambda>x t. P t \<and> Q x t)"
  unfolding safely_def
proof (intro allI impI)
  fix s assume s: "P s"
  have q: "quiet s (snd (m s))" using assms(2) by (simp add: advances_def)
  then have "P (snd (m s))" "sound (snd (m s))" using assms(1) s by (auto simp: stable_def)
  with assms(3) [OF s] show "case fst (m s) of Inl e \<Rightarrow> sound (snd (m s)) | Inr x \<Rightarrow> P (snd (m s)) \<and> Q x (snd (m s))"
    by (cases "m s") (auto split: sum.split)
qed

lemma safely_quiet: "stable P \<Longrightarrow> advances quiet m \<Longrightarrow> safely P m (\<lambda>_. P)"
  using safely_quiet_result [of P m "\<lambda>_ _. True"] by simp

lemma safely_weaken: "safely P m Q \<Longrightarrow> (\<And>x s. Q x s \<Longrightarrow> R x s) \<Longrightarrow> safely P m R"
  unfolding safely_def by (auto split: sum.splits)

lemma safely_pre: "safely P m Q \<Longrightarrow> (\<And>s. P' s \<Longrightarrow> P s) \<Longrightarrow> safely P' m Q"
  by (simp add: safely_def)

lemma safely_fact: "(B \<Longrightarrow> safely P m Q) \<Longrightarrow> safely (\<lambda>s. P s \<and> B) m Q"
  by (simp add: safely_def)

lemma stable_sound [simp]: "stable sound"
  using sound_quiet by (auto simp: stable_def)

definition holds_at :: "string \<Rightarrow> task_node \<Rightarrow> 'z genv_scheme \<Rightarrow> bool" where
  "holds_at tid n s \<longleftrightarrow> sound s \<and> dict_get (tg_nodes (graph s)) tid = Some n"

lemma stable_holds_at [simp]: "stable (holds_at tid n)"
  using sound_quiet by (fastforce simp: stable_def holds_at_def quiet_def)

lemma stable_conj: "stable P \<Longrightarrow> (\<And>s t. Q s \<Longrightarrow> quiet s t \<Longrightarrow> Q t) \<Longrightarrow> stable (\<lambda>s. P s \<and> Q s)"
  unfolding stable_def by blast

lemma copied_graph [simp]: "graph (copied s) = graph s" "quiet s (copied s)"
  by (simp_all add: copied_def quiet_def)

lemma get_task_ok:
  "graph_ok (graph s) \<Longrightarrow> get_task tid s =
     (case dict_get (tg_nodes (graph s)) tid of
        None \<Rightarrow> (Inl (agent_invalid (''Unknown task: '' @ tid)), s) | Some n \<Rightarrow> (Inr n, copied s))"
  by (auto simp: get_task_def bindE_def get_graph_def raiseE_def copy_node_ok graph_ok_def split: option.split)

lemma safely_get_task:
  "stable P \<Longrightarrow> safely P (get_task tid) (\<lambda>n s. P s \<and> holds_at tid n s)"
proof (rule safely_quiet_result)
  fix s n t
  assume "stable P" "P s" "get_task tid s = (Inr n, t)"
  moreover from this have "sound s" by (simp add: stable_def)
  ultimately show "holds_at tid n t"
    using sound_quiet [OF \<open>sound s\<close> copied_graph(2)]
    by (auto simp: get_task_ok sound_def holds_at_def split: option.splits)
qed (simp_all add: quiet_get_task)

lemma safely_update:
  assumes "\<And>s. P s \<Longrightarrow> sound (s\<lparr>graph := (graph s)\<lparr>tg_nodes := f (tg_nodes (graph s))\<rparr>\<rparr>)"
  shows "safely P (update_nodes f) (\<lambda>_. sound)"
  using assms by (simp add: safely_def update_nodes_def modifyE_def)

lemma safely_copy: "safely sound (copy_node n) (\<lambda>_. sound)"
  by (rule safely_quiet [OF stable_sound quiet_copy])

text \<open>Storing at a key that is taken, or at one that was drawn, leaves no key that may still be drawn.\<close>

lemma sound_stored:
  assumes "sound s" and "graph_ok (graph s\<lparr>tg_nodes := ns\<rparr>)"
    and "\<And>k. last_tick s < k \<Longrightarrow> dict_get ns (render_id ''task'' k (process_salt s)) = None"
  shows "sound (s\<lparr>graph := graph s\<lparr>tg_nodes := ns\<rparr>\<rparr>)"
  using assms by (simp add: sound_def)

lemma checked_result:
  assumes "check_task_result z = Inr y"
  shows "result_ok y" and "tr_state y = tr_state z" and "strip (tr_task z) = tr_task z \<Longrightarrow> tr_task y = tr_task z"
  using assms check_task_result_ok [OF assms]
  by (auto simp: check_task_result_def bindR_Inr_iff agent_text_def split: if_splits)

lemma transition_result_ok:
  assumes "transition_result tid st reason result = Inr r" and "strip tid = tid"
  shows "case r of None \<Rightarrow> \<not> agent_terminal st
    | Some y \<Rightarrow> agent_terminal st \<and> tr_state y = st \<and> result_ok y \<and> tr_task y = tid"
proof -
  have "\<exists>z. check_task_result z = Inr y \<and> tr_state z = st \<and> tr_task z = tid \<and> agent_terminal st" if r: "r = Some y" for y
  proof (cases result)
    case None
    then show ?thesis using assms(1) r
      by (cases "agent_terminal st") (auto simp: transition_result_def bindR_Inr_iff intro!: exI)
  next
    case (Some x)
    then have "tr_task x = tid" "tr_state x = st" "agent_terminal st" "task_result_from_dict (task_result_to_dict x) = Inr y"
      using assms(1) r by (auto simp: transition_result_def bindR_Inr_iff split: if_splits)
    then show ?thesis
      by (auto simp: task_result_from_dict_def task_result_to_dict_def jstrs_def split: if_splits intro!: exI)
  qed
  note made = this
  show ?thesis
  proof (cases r)
    case None
    then show ?thesis
      using assms(1) by (auto simp: transition_result_def bindR_Inr_iff split: if_splits option.splits)
  next
    case (Some y)
    then obtain z where z: "check_task_result z = Inr y" "tr_state z = st" "tr_task z = tid" "agent_terminal st"
      using made by blast
    with checked_result [OF z(1)] assms(2) Some show ?thesis by simp
  qed
qed

lemma task_key:
  assumes "graph_ok g" and "dict_get (tg_nodes g) tid = Some n"
  shows "ts_task (tn_spec n) = tid" and "strip tid = tid" and "sound_result n" and "node_ok n"
proof -
  obtain r where "linked (tg_nodes g) r" using assms by (auto simp: graph_ok_def)
  then have n: "sound_node (tg_nodes g) r tid n" using assms(2) by (simp add: linked_def)
  then show key: "ts_task (tn_spec n) = tid" and "sound_result n" by (simp_all add: sound_node_def)
  show ok: "node_ok n" using assms by (simp add: graph_ok_def)
  then have "agent_text (JStr (ts_task (tn_spec n))) ''task_id'' 256 = Inr (ts_task (tn_spec n))"
    using spec_fields_ok(3) [of "tn_spec n" "tn_spec n"] by (simp add: node_ok_def spec_ok_def)
  then show "strip tid = tid" using key by (auto simp: agent_text_def split: if_splits)
qed

lemma enter_state_safe:
  assumes "transition_result tid st reason result = Inr r"
  shows "safely (holds_at tid n) (enter_state tid n st reason r) (\<lambda>_. sound)"
proof -
  let ?new = "\<lambda>now. n\<lparr>tn_state := st, tn_result := r, tn_reason := reason, tn_updated := now\<rparr>"
  have store: "safely (holds_at tid n) (update_nodes (dict_set tid (?new now))) (\<lambda>_. sound)" for now
  proof (rule safely_update)
    fix s
    assume "holds_at tid n s"
    then have s: "sound s" and n: "dict_get (tg_nodes (graph s)) tid = Some n" by (simp_all add: holds_at_def)
    then have ok: "graph_ok (graph s)" by (simp add: sound_def)
    note key = task_key [OF ok n]
    have "graph_ok (graph s\<lparr>tg_nodes := dict_set tid (?new now) (tg_nodes (graph s))\<rparr>)"
      by (rule graph_ok_set [OF ok n])
         (use transition_result_ok [OF assms key(2)] key in \<open>auto simp: sound_result_def split: option.splits\<close>)
    moreover have "dict_get (tg_nodes (graph s)) (render_id ''task'' k (process_salt s)) = None" if "last_tick s < k" for k
      using s that by (simp add: sound_def)
    ultimately show "sound (s\<lparr>graph := graph s\<lparr>tg_nodes := dict_set tid (?new now) (tg_nodes (graph s))\<rparr>\<rparr>)"
      using s n by (intro sound_stored) auto
  qed
  show ?thesis
    unfolding enter_state_def Let_def
    by (rule safely_bind [OF safely_quiet [OF stable_holds_at quiet_clock]],
        rule safely_then [OF safely_quiet [OF stable_holds_at quiet_emit]], rule safely_then [OF store], rule safely_copy)
qed

lemma quiet_busy: "advances quiet (busy_children n)"
  unfolding busy_children_def by (intro quiet_rules quiet_get_task)

lemma transition_safe: "safely sound (transition_task tid st reason result) (\<lambda>_. sound)"
proof -
  have rest: "safely (holds_at tid n) (bindE (liftE (transition_result tid st reason result)) (\<lambda>result'.
       bindE (andE (st = AgentCompleted) (busy_children n)) (\<lambda>busy.
       if busy then raiseE e else enter_state tid n st reason result'))) (\<lambda>_. sound)" for n e
    by (rule safely_bind [OF safely_lift [OF stable_holds_at]], rule safely_fact,
        rule safely_bind [OF safely_quiet [OF stable_holds_at quiet.advances_andE [OF quiet_busy]]],
        rule safely_if, rule safely_raise [OF stable_holds_at], rule enter_state_safe)
  show ?thesis
    unfolding transition_task_def
    by (rule safely_bind [OF safely_get_task [OF stable_sound]], rule safely_pre [where P = "holds_at tid n" for n],
        rule safely_if, rule safely_raise [OF stable_holds_at], rule rest) simp
qed

text \<open>Spawning.\<close>

lemma agent_text_strip: "agent_text (JStr s) name n = Inr t \<Longrightarrow> t = strip s"
  by (auto simp: agent_text_def split: if_splits)

lemma capabilities_stripped:
  assumes "agent_capabilities caps = Inr ks"
  shows "ks \<subseteq> strip ` caps" and "\<And>k. k \<in> ks \<Longrightarrow> strip k = k"
proof -
  obtain cs where cs: "mapR (\<lambda>c. agent_text (JStr c) ''capability'' 256) (sorted_list_of_set caps) = Inr cs"
    and ks: "ks = set cs" using assms by (auto simp: agent_capabilities_def bindR_Inr_iff)
  have mem: "mapR (\<lambda>c. agent_text (JStr c) name n) xs = Inr ys \<Longrightarrow> y \<in> set ys \<Longrightarrow> \<exists>x \<in> set xs. y = strip x"
    for name n xs and ys :: "string list" and y
    by (induction xs arbitrary: ys) (auto simp: bindR_Inr_iff dest: agent_text_strip)
  show "ks \<subseteq> strip ` caps"
    using mem [OF cs] ks by (cases "finite caps") fastforce+
  show "strip k = k" if "k \<in> ks" for k
    using mem [OF cs] that ks by force
qed

lemma spec_ok_texts:
  assumes "spec_ok t"
  shows "strip (ts_child_run t) = ts_child_run t" and "\<And>k. k \<in> ts_capabilities t \<Longrightarrow> strip k = k"
proof -
  have "check_task_spec t = Inr t" using assms by (simp add: spec_ok_def)
  note f = spec_fields_ok [OF this]
  show "strip (ts_child_run t) = ts_child_run t" using agent_text_strip [OF f(4)] by simp
  show "strip k = k" if "k \<in> ts_capabilities t" for k using capabilities_stripped(2) [OF f(7) that] .
qed

lemma child_of_checks:
  assumes "spawn_checks n budget caps = Inr (b, ks, depth)" and "node_ok n" and "strip p = p"
    and "ts_task (tn_spec n) = p" and "check_task_spec raw = Inr t"
    and "ts_parent_run raw = ts_child_run (tn_spec n)" and "ts_budget raw = b" and "ts_parent_task raw = Some p"
    and "ts_capabilities raw = ks" and "ts_depth raw = depth" and "ts_max_depth raw = ts_max_depth (tn_spec n)"
    and "ts_max_children raw = ts_max_children (tn_spec n)" and "tn_spec k = t"
  shows "sound_child n k"
proof -
  have checks: "int (length (tn_children n)) < ts_max_children (tn_spec n)" "ks \<subseteq> ts_capabilities (tn_spec n)"
    "budget_within b (ts_budget (tn_spec n))" "depth = ts_depth (tn_spec n) + 1"
    using assms(1) by (auto simp: spawn_checks_def Let_def split: if_splits option.splits)
  note f = spec_fields_ok [OF assms(5)]
  have n: "spec_ok (tn_spec n)" using assms(2) by (simp add: node_ok_def)
  have "ts_parent_task t = Some p" using f(5) assms(3,8) by (auto dest: agent_text_strip)
  moreover have "ts_parent_run t = ts_child_run (tn_spec n)"
    using agent_text_strip [OF f(1)] spec_ok_texts(1) [OF n] assms(6) by simp
  moreover have "ts_capabilities t \<subseteq> ts_capabilities (tn_spec n)"
  proof
    fix c
    assume "c \<in> ts_capabilities t"
    then obtain c' where "c' \<in> ks" "c = strip c'" using capabilities_stripped(1) [OF f(7)] assms(9) by auto
    moreover from this have "c' \<in> ts_capabilities (tn_spec n)" using checks(2) by auto
    ultimately show "c \<in> ts_capabilities (tn_spec n)" using spec_ok_texts(2) [OF n] by simp
  qed
  ultimately show "sound_child n k"
    using checks f(10-15) assms(4,7,10-13) by (simp add: sound_child_def Let_def)
qed

definition budget_given :: "agent_budget option \<Rightarrow> bool" where
  "budget_given b \<longleftrightarrow> (\<forall>x. b = Some x \<longrightarrow> budget_ok x)"

lemma drawn_used:
  assumes "sound s" and "drawn tid s" and "last_tick s < k"
  shows "render_id ''task'' k (process_salt s) \<noteq> tid"
proof
  assume eq: "render_id ''task'' k (process_salt s) = tid"
  obtain j where "0 \<le> j" "j \<le> last_tick s" "tid = render_id ''task'' j (process_salt s)"
    using assms(2) by (auto simp: drawn_def)
  with eq render_id_inject [of k j] assms(1,3) show False by (auto simp: sound_def)
qed

text \<open>A child about to be added below the node \<open>n\<close>.\<close>

definition joins :: "task_node \<Rightarrow> task_spec \<Rightarrow> 'z genv_scheme \<Rightarrow> bool" where
  "joins n t s \<longleftrightarrow> drawn (ts_task t) s \<and> spec_ok t \<and> (\<forall>k. tn_spec k = t \<longrightarrow> sound_child n k) \<and>
     int (length (tn_children n)) < ts_max_children (tn_spec n)"

lemma stable_joins: "stable (\<lambda>s. holds_at p n s \<and> joins n t s \<and> B)"
  by (rule stable_conj [OF stable_holds_at]) (auto simp: joins_def dest: drawn_quiet)

lemma add_child_safe: "safely (\<lambda>s. holds_at p n s \<and> joins n t s) (add_child p n t) (\<lambda>_. sound)"
proof -
  let ?node = "\<lambda>u. \<lparr>tn_spec = t, tn_state = AgentPending, tn_children = [], tn_result = None, tn_reason = None, tn_updated = u\<rparr>"
  let ?n = "\<lambda>now. n\<lparr>tn_children := tn_children n @ [ts_task t], tn_updated := now\<rparr>"
  have stay: "stable (\<lambda>s. holds_at p n s \<and> joins n t s)" using stable_joins [of p n t True] by simp
  have node: "safely (\<lambda>s. holds_at p n s \<and> joins n t s) (new_task_node t)
      (\<lambda>k s. holds_at p n s \<and> joins n t s \<and> (\<exists>u. k = ?node u))"
    by (rule safely_weaken [OF safely_quiet_result [OF stay quiet_new_node, where Q = "\<lambda>k _. \<exists>u. k = ?node u"]])
       (auto simp: new_task_node_def bindE_eq_Inr clock_read retE_def)
  have store: "safely (\<lambda>s. holds_at p n s \<and> joins n t s \<and> (\<exists>u. k = ?node u))
      (update_nodes (\<lambda>ns. dict_set p (?n now) (dict_set (ts_task t) k ns))) (\<lambda>_. sound)" for k now
  proof (rule safely_update)
    fix s
    assume h: "holds_at p n s \<and> joins n t s \<and> (\<exists>u. k = ?node u)"
    then obtain u where k: "k = ?node u" by blast
    from h have s: "sound s" and at: "dict_get (tg_nodes (graph s)) p = Some n" and new: "drawn (ts_task t) s"
      by (simp_all add: holds_at_def joins_def)
    have ok: "graph_ok (graph s\<lparr>tg_nodes := dict_set p (?n now) (dict_set (ts_task t) k (tg_nodes (graph s)))\<rparr>)"
      unfolding k using h s at by (intro graph_ok_add) (simp_all add: sound_def drawn_def joins_def)
    have "dict_get (dict_set p (?n now) (dict_set (ts_task t) k (tg_nodes (graph s)))) (render_id ''task'' j (process_salt s)) = None"
      if "last_tick s < j" for j
    proof -
      have "dict_get (tg_nodes (graph s)) (render_id ''task'' j (process_salt s)) = None"
        using s that by (simp add: sound_def)
      moreover from this have "p \<noteq> render_id ''task'' j (process_salt s)" using at by auto
      ultimately show ?thesis using drawn_used [OF s new that] by simp
    qed
    with ok show "sound (s\<lparr>graph := graph s\<lparr>tg_nodes := dict_set p (?n now) (dict_set (ts_task t) k (tg_nodes (graph s)))\<rparr>\<rparr>)"
      by (rule sound_stored [OF s])
  qed
  show ?thesis
    unfolding add_child_def Let_def
    by (rule safely_bind [OF node], rule safely_bind [OF safely_quiet [OF stable_joins quiet_clock]],
        rule safely_then [OF safely_quiet [OF stable_joins quiet_emit]], rule safely_then [OF store], rule safely_copy)
qed

lemma spawn_safe:
  assumes "budget_given budget"
  shows "safely sound (spawn_task p objective budget caps constraints metadata) (\<lambda>_. sound)"
proof -
  let ?spec = "\<lambda>n b ks depth. new_task_spec (ts_child_run (tn_spec n)) objective b (Some p) constraints ks depth
    (ts_max_depth (tn_spec n)) (ts_max_children (tn_spec n)) metadata"
  have step: "safely (holds_at p n) (bindE (?spec n b ks depth) (add_child p n)) (\<lambda>_. sound)"
    if checks: "spawn_checks n budget caps = Inr (b, ks, depth)" for n b ks depth
  proof (rule safely_bind [OF safely_quiet_result [OF stable_holds_at quiet_new_spec] add_child_safe])
    fix s t s'
    assume at: "holds_at p n s" and new: "?spec n b ks depth s = (Inr t, s')"
    then have s: "sound s" and n: "node_ok n" "strip p = p" "ts_task (tn_spec n) = p"
      using task_key [of "graph s" p n] by (simp_all add: holds_at_def sound_def)
    have b: "budget_ok b" and room: "int (length (tn_children n)) < ts_max_children (tn_spec n)"
      using checks n(1) assms
      by (auto simp: spawn_checks_def Let_def node_ok_def spec_ok_def budget_given_def split: if_splits option.splits)
    from new_task_spec_Inr [OF new s b] child_of_checks [OF checks n] room show "joins n t s'"
      by (auto simp: joins_def)
  qed
  show ?thesis
    unfolding spawn_task_def
    by (rule safely_bind [OF safely_get_task [OF stable_sound]], rule safely_pre [where P = "holds_at p n" for n],
        rule safely_bind [OF safely_lift [OF stable_holds_at]], rule safely_fact) (auto intro: step)
qed

text \<open>The root: between the store of its node and the store of its identifier the graph has no root.\<close>

definition rootless :: "task_spec \<Rightarrow> 'z genv_scheme \<Rightarrow> bool" where
  "rootless t s \<longleftrightarrow> sound s \<and> tg_roots (graph s) = [] \<and> drawn (ts_task t) s \<and> spec_ok t \<and>
     ts_parent_task t = None \<and> ts_depth t = 0"

lemma stable_rootless: "stable (\<lambda>s. rootless t s \<and> B)"
proof -
  have "rootless t u" if "rootless t s" "quiet s u" for s u :: "'z genv_scheme"
    using that drawn_quiet [OF _ that(2)] sound_quiet [OF _ that(2)] by (simp add: rootless_def quiet_def)
  then show ?thesis unfolding stable_def by (auto simp: rootless_def)
qed

lemma add_root_safe: "safely (rootless t) (add_root t) (\<lambda>_. sound)"
proof -
  let ?node = "\<lambda>u. \<lparr>tn_spec = t, tn_state = AgentPending, tn_children = [], tn_result = None, tn_reason = None, tn_updated = u\<rparr>"
  have stay: "stable (rootless t)" using stable_rootless [of t True] by simp
  have node: "safely (rootless t) (new_task_node t) (\<lambda>k s. rootless t s \<and> (\<exists>u. k = ?node u))"
    by (rule safely_quiet_result [OF stay quiet_new_node]) (auto simp: new_task_node_def bindE_eq_Inr clock_read retE_def)
  have store: "safely (\<lambda>s. rootless t s \<and> (\<exists>u. k = ?node u)) (thenE (update_nodes (dict_set (ts_task t) k))
      (modifyE (\<lambda>s. s\<lparr>graph := (graph s)\<lparr>tg_roots := tg_roots (graph s) @ [ts_task t]\<rparr>\<rparr>))) (\<lambda>_. sound)" for k
    unfolding safely_def
  proof (intro allI impI)
    fix s
    assume h: "rootless t s \<and> (\<exists>u. k = ?node u)"
    then obtain u where k: "k = ?node u" by blast
    from h have s: "sound s" and empty: "tg_roots (graph s) = []" "tg_nodes (graph s) = []" and new: "drawn (ts_task t) s"
      and t: "spec_ok t" "ts_parent_task t = None" "ts_depth t = 0"
      by (auto simp: rootless_def sound_def graph_ok_def)
    have "graph_ok (graph s\<lparr>tg_nodes := [(ts_task t, k)], tg_roots := [ts_task t]\<rparr>)"
      unfolding k by (rule graph_ok_root [OF empty(2,1) t])
    then have "sound (s\<lparr>graph := graph s\<lparr>tg_nodes := [(ts_task t, k)], tg_roots := [ts_task t]\<rparr>\<rparr>)"
      using s drawn_used [OF s new] by (auto simp: sound_def)
    then show "case fst (thenE (update_nodes (dict_set (ts_task t) k))
        (modifyE (\<lambda>s. s\<lparr>graph := (graph s)\<lparr>tg_roots := tg_roots (graph s) @ [ts_task t]\<rparr>\<rparr>)) s) of
      Inl e \<Rightarrow> sound (snd (thenE (update_nodes (dict_set (ts_task t) k))
        (modifyE (\<lambda>s. s\<lparr>graph := (graph s)\<lparr>tg_roots := tg_roots (graph s) @ [ts_task t]\<rparr>\<rparr>)) s))
      | Inr x \<Rightarrow> sound (snd (thenE (update_nodes (dict_set (ts_task t) k))
        (modifyE (\<lambda>s. s\<lparr>graph := (graph s)\<lparr>tg_roots := tg_roots (graph s) @ [ts_task t]\<rparr>\<rparr>)) s))"
      using empty by (simp add: thenE_def bindE_def update_nodes_def modifyE_def)
  qed
  have assoc: "thenE a (thenE b c) = thenE (thenE a b) c" for a b :: "('a genv_scheme, unit) sm" and c :: "('a genv_scheme, task_node) sm"
    by (simp add: thenE_def bindE_assoc)
  show ?thesis
    unfolding add_root_def assoc [of "update_nodes _"]
    by (rule safely_bind [OF node], rule safely_then [OF safely_quiet [OF stable_rootless quiet_emit]],
        rule safely_then [OF store], rule safely_copy)
qed

lemma create_root_safe:
  assumes "budget_ok budget"
  shows "safely sound (create_root parent_run objective budget caps constraints max_depth max_children metadata) (\<lambda>_. sound)"
proof -
  let ?spec = "new_task_spec parent_run objective budget None constraints caps 0 max_depth max_children metadata"
  have spec: "safely sound ?spec (\<lambda>t s. sound s \<and> (tg_roots (graph s) = [] \<longrightarrow> rootless t s))"
  proof (rule safely_quiet_result [OF stable_sound quiet_new_spec], rule impI)
    fix s t s'
    assume s: "sound s" and new: "?spec s = (Inr t, s')" and none: "tg_roots (graph s') = []"
    from new_task_spec_Inr [OF new s assms] obtain raw where raw: "check_task_spec raw = Inr t"
      "ts_parent_task raw = None" "ts_depth raw = 0" "drawn (ts_task t) s'" "spec_ok t" by blast
    have "sound s'" using sound_quiet [OF s] quiet_new_spec new by (metis advancesD)
    then show "rootless t s'"
      using raw none spec_fields_ok(5,10) [OF raw(1)] by (simp add: rootless_def)
  qed
  have rest: "safely (\<lambda>s. sound s \<and> (tg_roots (graph s) = [] \<longrightarrow> rootless t s))
     (bindE get_graph (\<lambda>g. if tg_roots g \<noteq> [] then raiseE e else add_root t)) (\<lambda>_. sound)" for t e
    using add_root_safe [of t] by (auto simp: safely_def bindE_def get_graph_def raiseE_def split: sum.splits)
  show ?thesis unfolding create_root_def by (rule safely_bind [OF spec rest])
qed

text \<open>The walks and the operations made of transitions.\<close>

lemma safely_mapE: "(\<And>x. x \<in> set xs \<Longrightarrow> safely sound (f x) (\<lambda>_. sound)) \<Longrightarrow> safely sound (mapE f xs) (\<lambda>_. sound)"
proof (induction xs)
  case (Cons x xs)
  then show ?case
    unfolding mapE.simps
    by (intro safely_bind [where Q = "\<lambda>_. sound"] safely_ret) auto
qed (simp add: safely_ret)

lemma get_task_safe: "safely sound (get_task tid) (\<lambda>_. sound)"
  by (rule safely_quiet [OF stable_sound quiet_get_task])

lemma interrupt_below_safe: "safely sound (interrupt_below fuel reason tid) (\<lambda>_. sound)"
proof (induction fuel arbitrary: tid)
  case (Suc fuel)
  show ?case
    unfolding interrupt_below.simps
    by (rule safely_bind [OF get_task_safe], rule safely_then [OF safely_mapE safely_ret],
        rule safely_bind [OF get_task_safe], rule safely_if,
        rule safely_then [OF Suc.IH], rule safely_then [OF transition_safe], simp_all add: safely_ret)
qed (simp add: safely_raise)

lemma cancel_below_safe: "safely sound (cancel_below fuel reason tid) (\<lambda>_. sound)"
proof (induction fuel arbitrary: tid)
  case (Suc fuel)
  show ?case
    unfolding cancel_below.simps
    by (rule safely_bind [OF get_task_safe], rule safely_then [OF safely_mapE safely_ret],
        rule safely_bind [OF get_task_safe], rule safely_if,
        rule safely_then [OF Suc.IH], rule safely_then [OF transition_safe], simp_all add: safely_ret)
qed (simp add: safely_raise)

lemma graph_fuel_safe: "safely sound graph_fuel (\<lambda>_. sound)"
  by (rule safely_quiet [OF stable_sound]) (unfold graph_fuel_def, intro quiet_rules)

lemma subtree_operations_safe:
  "safely sound (interrupt_task tid reason) (\<lambda>_. sound)" "safely sound (cancel_task tid reason) (\<lambda>_. sound)"
  unfolding interrupt_task_def cancel_task_def
  by (rule safely_bind [OF graph_fuel_safe], rule safely_then [OF interrupt_below_safe], rule transition_safe)
     (rule safely_bind [OF graph_fuel_safe], rule safely_then [OF cancel_below_safe],
      rule safely_bind [OF get_task_safe], rule safely_if, rule safely_ret, simp, rule transition_safe)

lemma lifted_safe: "(\<And>x. safely sound (f x) (\<lambda>_. sound)) \<Longrightarrow> safely sound (bindE (liftE r) f) (\<lambda>_. sound)"
  by (rule safely_bind [OF safely_weaken [OF safely_lift [OF stable_sound], where R = "\<lambda>_. sound"]]) simp_all

lemma ending_operations_safe:
  "safely sound (complete_task tid summary artifacts metrics) (\<lambda>_. sound)"
  "safely sound (fail_task tid err) (\<lambda>_. sound)" "safely sound (resume_task tid) (\<lambda>_. sound)"
  "safely sound (transition_named tid st reason result) (\<lambda>_. sound)"
  unfolding complete_task_def fail_task_def resume_task_def transition_named_def
  by (rule lifted_safe transition_safe | simp add: transition_safe safely_raise split: sum.split)+

end
