(* ===== verification/Graph_Walks.thy ===== *)
theory Graph_Walks
  imports Task_Graph_Facts
begin

text \<open>
  The walks over a task's descendants: in a graph that satisfies the invariant they end, and cancelling a
  task ends exactly the task and the active tasks below it that are reached through active tasks. Also
  restoring: a snapshot of such a graph reads back as the graph, and what restores satisfies the
  invariant.
\<close>

section \<open>Active descendants\<close>

abbreviation nodes_of :: "'z genv_scheme \<Rightarrow> (string, task_node) dict" where
  "nodes_of s \<equiv> tg_nodes (graph s)"

definition ended_at :: "(string, task_node) dict \<Rightarrow> string \<Rightarrow> bool" where
  "ended_at ns tid \<longleftrightarrow> (\<exists>n. dict_get ns tid = Some n \<and> agent_terminal (tn_state n))"

definition active_child :: "(string, task_node) dict \<Rightarrow> string \<Rightarrow> string \<Rightarrow> bool" where
  "active_child ns p c \<longleftrightarrow> is_child ns p c \<and> \<not> ended_at ns c"

inductive active_below :: "(string, task_node) dict \<Rightarrow> string \<Rightarrow> string \<Rightarrow> bool" for ns where
  direct: "active_child ns p c \<Longrightarrow> active_below ns p c"
| deeper: "active_child ns p c \<Longrightarrow> active_below ns c x \<Longrightarrow> active_below ns p x"

inductive_cases active_belowE: "active_below ns p x"

text \<open>
  \<open>cancels ns ns'\<close>: the nodes and their links are the same, some tasks that had not ended are cancelled, and
  with each of them everything active below it has ended.
\<close>

definition cancels :: "(string, task_node) dict \<Rightarrow> (string, task_node) dict \<Rightarrow> bool" where
  "cancels ns ns' \<longleftrightarrow>
     (\<forall>x. dict_get ns x = None \<longrightarrow> dict_get ns' x = None) \<and>
     (\<forall>x n. dict_get ns x = Some n \<longrightarrow> (\<exists>n'. dict_get ns' x = Some n' \<and> tn_spec n' = tn_spec n \<and>
        tn_children n' = tn_children n \<and>
        (n' = n \<or> \<not> agent_terminal (tn_state n) \<and> tn_state n' = AgentCancelled \<and>
           (\<forall>y. active_below ns x y \<longrightarrow> ended_at ns' y))))"

lemma cancels_refl: "cancels ns ns"
  by (simp add: cancels_def)

lemma cancels_child: "cancels ns ns' \<Longrightarrow> is_child ns' p c = is_child ns p c"
  unfolding cancels_def is_child_def by (metis option.distinct(1) option.exhaust option.inject)

lemma cancels_ended: "cancels ns ns' \<Longrightarrow> ended_at ns x \<Longrightarrow> ended_at ns' x"
  unfolding cancels_def ended_at_def by fastforce

lemma cancels_now_ended:
  "cancels ns ns' \<Longrightarrow> ended_at ns' x \<Longrightarrow> \<not> ended_at ns x \<Longrightarrow> active_below ns x y \<Longrightarrow> ended_at ns' y"
  unfolding cancels_def ended_at_def by (metis option.distinct(1) option.exhaust option.inject)

lemma active_below_step:
  assumes "cancels ns ns'" and "active_below ns p x"
  shows "active_below ns' p x \<or> ended_at ns' x"
  using assms(2)
proof (induction rule: active_below.induct)
  case (direct p c)
  then show ?case using cancels_child [OF assms(1)] by (auto simp: active_child_def intro: active_below.direct)
next
  case (deeper p c x)
  show ?case
  proof (cases "ended_at ns' c")
    case True
    then show ?thesis using cancels_now_ended [OF assms(1) True _ deeper.hyps(2)] deeper.hyps(1)
      by (auto simp: active_child_def)
  next
    case False
    then have "active_child ns' p c"
      using deeper.hyps(1) cancels_child [OF assms(1)] by (simp add: active_child_def)
    then show ?thesis using deeper.IH by (auto intro: active_below.deeper)
  qed
qed

lemma cancels_trans:
  assumes "cancels a b" and "cancels b c"
  shows "cancels a c"
  unfolding cancels_def
proof (intro conjI allI impI)
  fix x assume "dict_get a x = None"
  then show "dict_get c x = None" using assms by (simp add: cancels_def)
next
  fix x n assume n: "dict_get a x = Some n"
  obtain m where m: "dict_get b x = Some m" "tn_spec m = tn_spec n" "tn_children m = tn_children n"
    "m = n \<or> \<not> agent_terminal (tn_state n) \<and> tn_state m = AgentCancelled \<and> (\<forall>y. active_below a x y \<longrightarrow> ended_at b y)"
    using assms(1) n unfolding cancels_def by blast
  obtain k where k: "dict_get c x = Some k" "tn_spec k = tn_spec m" "tn_children k = tn_children m"
    "k = m \<or> \<not> agent_terminal (tn_state m) \<and> tn_state k = AgentCancelled \<and> (\<forall>y. active_below b x y \<longrightarrow> ended_at c y)"
    using assms(2) m(1) unfolding cancels_def by blast
  have "\<forall>y. active_below a x y \<longrightarrow> ended_at c y"
    if "k \<noteq> n"
  proof (intro allI impI)
    fix y assume y: "active_below a x y"
    show "ended_at c y"
    proof (cases "m = n")
      case True
      then have "\<forall>y. active_below b x y \<longrightarrow> ended_at c y" using k(4) that by blast
      then show ?thesis using active_below_step [OF assms(1) y] cancels_ended [OF assms(2)] by blast
    next
      case False
      then show ?thesis using m(4) y cancels_ended [OF assms(2)] by blast
    qed
  qed
  then show "\<exists>n'. dict_get c x = Some n' \<and> tn_spec n' = tn_spec n \<and> tn_children n' = tn_children n \<and>
      (n' = n \<or> \<not> agent_terminal (tn_state n) \<and> tn_state n' = AgentCancelled \<and> (\<forall>y. active_below a x y \<longrightarrow> ended_at c y))"
    using m k by (auto simp: agent_terminal_def)
qed

section \<open>One cancellation\<close>

text \<open>A graph without an event sink, or with one that answers every call.\<close>

definition answers :: "task_graph \<Rightarrow> bool" where
  "answers g \<longleftrightarrow> (\<forall>f k e. tg_sink g = Some f \<longrightarrow> f k e = None)"

lemma answers_simps [simp]:
  "answers (g\<lparr>tg_nodes := ns\<rparr>) = answers g" "tg_sink g = None \<Longrightarrow> answers g"
  by (simp_all add: answers_def)

lemma new_event_total: "\<exists>e t. new_event ty sid rid data s = (Inr e, t)"
proof -
  have "valid_id_kind ''evt''" by code_simp
  then show ?thesis by (simp add: new_event_def bindE_def new_id_result Let_def clock_read retE_def)
qed

lemma emit_answers:
  assumes "answers (graph s)"
  shows "\<exists>t. emit_task_event ty n reason s = (Inr (), t) \<and> quiet s t"
proof -
  have "\<exists>t. emit_task_event ty n reason s = (Inr (), t)"
  proof (cases "tg_sink (graph s)"; cases "tg_session (graph s)")
    fix f sid
    assume sink: "tg_sink (graph s) = Some f" "tg_session (graph s) = Some sid"
    obtain e t where "new_event ty sid (Some (ts_child_run (tn_spec n))) (task_event_data n reason) s = (Inr e, t)"
      using new_event_total by blast
    moreover have "f k e = None" for k using assms sink by (simp add: answers_def)
    ultimately show ?thesis using sink by (simp add: emit_task_event_def get_graph_def bindE_def call_sink_def)
  qed (simp_all add: emit_task_event_def get_graph_def bindE_def retE_def)
  then show ?thesis using advancesD [OF quiet_emit] by blast
qed

lemma enter_state_answers:
  assumes "answers (graph s)" and "node_ok (n\<lparr>tn_result := r\<rparr>)"
  shows "\<exists>n' t. enter_state tid n st reason r s = (Inr n', t) \<and>
    graph t = graph s\<lparr>tg_nodes := dict_set tid n' (nodes_of s)\<rparr> \<and> tn_spec n' = tn_spec n \<and>
    tn_children n' = tn_children n \<and> tn_state n' = st"
proof -
  obtain now s1 where now: "utc_now s = (Inr now, s1)" "graph s1 = graph s" by (simp add: clock_read)
  let ?new = "n\<lparr>tn_state := st, tn_result := r, tn_reason := reason, tn_updated := now\<rparr>"
  let ?ty = "if st = AgentRunning then ''subagent.started'' else ''subagent.'' @ agent_state_text st"
  obtain s2 where s2: "emit_task_event ?ty ?new reason s1 = (Inr (), s2)" "graph s2 = graph s"
    using emit_answers [of s1 ?ty ?new reason] assms(1) now(2) by (auto simp: quiet_def)
  let ?t = "s2\<lparr>graph := (graph s2)\<lparr>tg_nodes := dict_set tid ?new (nodes_of s2)\<rparr>\<rparr>"
  have "copy_node ?new ?t = (Inr ?new, copied ?t)" using assms(2) by (intro copy_node_ok) (simp add: node_ok_def)
  then have "enter_state tid n st reason r s = (Inr ?new, copied ?t)"
    using now(1) s2(1) by (simp add: enter_state_def bindE_def thenE_def Let_def update_nodes_def modifyE_def)
  then show ?thesis using s2(2) by (intro exI [of _ ?new] exI [of _ "copied ?t"]) simp
qed

lemma transition_cancel:
  assumes "sound s" and "answers (graph s)" and "length reason \<le> 4096"
    and "dict_get (nodes_of s) c = Some n" and "\<not> agent_terminal (tn_state n)"
  shows "\<exists>n' t. transition_task c AgentCancelled (Some reason) None s = (Inr n', t) \<and> sound t \<and>
    graph t = graph s\<lparr>tg_nodes := dict_set c n' (nodes_of s)\<rparr> \<and> tn_spec n' = tn_spec n \<and>
    tn_children n' = tn_children n \<and> tn_state n' = AgentCancelled"
proof -
  have ok: "graph_ok (graph s)" using assms(1) by (simp add: sound_def)
  note key = task_key [OF ok assms(4)]
  have get: "get_task c s = (Inr n, copied s)" using get_task_ok [OF ok, of c] assms(4) by simp
  have allowed: "AgentCancelled \<in> agent_transitions (tn_state n)"
    using assms(5) by (cases "tn_state n") (simp_all add: agent_terminal_def)
  have "agent_text (JStr c) ''task_id'' 256 = Inr c"
    using spec_fields_ok(3) [of "tn_spec n" "tn_spec n"] key by (simp add: node_ok_def spec_ok_def)
  then have "\<exists>r. transition_result c AgentCancelled (Some reason) None = Inr (Some r)"
    using assms(3) by (simp add: transition_result_def agent_terminal_def check_task_result_def agent_json_object_def)
  then obtain r where r: "transition_result c AgentCancelled (Some reason) None = Inr (Some r)" ..
  have "result_ok r" using transition_result_ok [OF r key(2)] by simp
  then have node: "node_ok (n\<lparr>tn_result := Some r\<rparr>)" using key(4) by (simp add: node_ok_def)
  have "answers (graph (copied s))" using assms(2) by simp
  from enter_state_answers [OF this node, of c AgentCancelled "Some reason"] obtain n' t where
    t: "enter_state c n AgentCancelled (Some reason) (Some r) (copied s) = (Inr n', t)"
      "graph t = graph s\<lparr>tg_nodes := dict_set c n' (nodes_of s)\<rparr>" "tn_spec n' = tn_spec n"
      "tn_children n' = tn_children n" "tn_state n' = AgentCancelled" by (auto simp: copied_graph)
  have run: "transition_task c AgentCancelled (Some reason) None s = (Inr n', t)"
    using get allowed r t(1) by (simp add: transition_task_def bindE_def liftE_def retE_def andE_def)
  moreover have "sound t"
    using transition_safe [of c AgentCancelled "Some reason" None] assms(1) run by (fastforce simp: safely_def)
  ultimately show ?thesis using t by blast
qed

section \<open>The walk\<close>

definition lower_nodes :: "(string, task_node) dict \<Rightarrow> int \<Rightarrow> string set" where
  "lower_nodes ns d = {x. \<exists>k. dict_get ns x = Some k \<and> d < ts_depth (tn_spec k)}"

lemma finite_lower: "finite (lower_nodes ns d)"
proof -
  have "lower_nodes ns d \<subseteq> fst ` set ns" by (auto simp: lower_nodes_def dest!: dict_get_mem intro: rev_image_eqI)
  then show ?thesis by (rule finite_subset) simp
qed

lemma cancels_Some: "cancels ns ns' \<Longrightarrow> dict_get ns x = Some n \<Longrightarrow>
    \<exists>n'. dict_get ns' x = Some n' \<and> tn_spec n' = tn_spec n \<and> tn_children n' = tn_children n"
  unfolding cancels_def by blast

lemma cancels_back: "cancels ns ns' \<Longrightarrow> dict_get ns' x = Some n' \<Longrightarrow>
    \<exists>n. dict_get ns x = Some n \<and> tn_spec n = tn_spec n' \<and> tn_children n = tn_children n'"
  by (cases "dict_get ns x") (fastforce simp: cancels_def dest: cancels_Some)+

lemma lower_cancels: "cancels ns ns' \<Longrightarrow> lower_nodes ns' d = lower_nodes ns d"
  unfolding lower_nodes_def using cancels_Some [of ns ns'] cancels_back [of ns ns'] by fastforce

lemma lower_child:
  assumes "dict_get ns c = Some k" and "ts_depth (tn_spec k) = d + 1"
  shows "card (lower_nodes ns (d + 1)) < card (lower_nodes ns d)"
proof (rule psubset_card_mono [OF finite_lower])
  have "c \<in> lower_nodes ns d" "c \<notin> lower_nodes ns (d + 1)" using assms by (simp_all add: lower_nodes_def)
  moreover have "lower_nodes ns (d + 1) \<subseteq> lower_nodes ns d" by (auto simp: lower_nodes_def)
  ultimately show "lower_nodes ns (d + 1) \<subset> lower_nodes ns d" by blast
qed

lemma lower_fuel: "card (lower_nodes ns d) < Suc (length ns)"
proof -
  have "card (lower_nodes ns d) \<le> card (fst ` set ns)"
    by (rule card_mono) (auto simp: lower_nodes_def dest!: dict_get_mem intro: rev_image_eqI)
  also have "\<dots> \<le> length ns" by (metis card_image_le card_length finite_set le_trans)
  finally show ?thesis by simp
qed

text \<open>A state in which a walk goes on: sound, with no sink or one that answers, after some cancellations.\<close>

definition walking :: "'z genv_scheme \<Rightarrow> 'z genv_scheme \<Rightarrow> bool" where
  "walking s t \<longleftrightarrow> sound t \<and> answers (graph t) \<and> cancels (nodes_of s) (nodes_of t)"

lemma walking_trans: "walking s t \<Longrightarrow> walking t u \<Longrightarrow> walking s u"
  using cancels_trans by (auto simp: walking_def)

lemma sound_deepening: "sound s \<Longrightarrow> deepening (nodes_of s)"
proof -
  assume "sound s"
  then consider "nodes_of s = []" | r where "linked (nodes_of s) r" by (auto simp: sound_def graph_ok_def)
  then show ?thesis by cases (simp add: deepening_def, rule linked_deepening)
qed

lemma mapE_walk:
  assumes "\<And>c s. c \<in> set cs \<Longrightarrow> W s \<Longrightarrow>
      \<exists>t. f c s = (Inr (), t) \<and> W t \<and> cancels (nodes_of s) (nodes_of t) \<and> G c (nodes_of t)"
    and "\<And>c a b. G c a \<Longrightarrow> cancels a b \<Longrightarrow> G c b" and "W s"
  shows "\<exists>us t. mapE f cs s = (Inr us, t) \<and> W t \<and> cancels (nodes_of s) (nodes_of t) \<and>
    (\<forall>c \<in> set cs. G c (nodes_of t))"
  using assms(1,3)
proof (induction cs arbitrary: s)
  case (Cons c cs)
  have "c \<in> set (c # cs)" by simp
  from Cons.prems(1) [OF this Cons.prems(2)] obtain t where t: "f c s = (Inr (), t)" "W t"
    "cancels (nodes_of s) (nodes_of t)" "G c (nodes_of t)" by blast
  have "\<exists>us u. mapE f cs t = (Inr us, u) \<and> W u \<and> cancels (nodes_of t) (nodes_of u) \<and>
      (\<forall>c \<in> set cs. G c (nodes_of u))"
    by (rule Cons.IH [OF Cons.prems(1) t(2)]) simp_all
  then obtain us u where u: "mapE f cs t = (Inr us, u)" "W u" "cancels (nodes_of t) (nodes_of u)"
    "\<forall>c \<in> set cs. G c (nodes_of u)" by blast
  have "G c (nodes_of u)" by (rule assms(2) [OF t(4) u(3)])
  then show ?case using t(1) u cancels_trans [OF t(3) u(3)] by (simp add: bindE_def retE_def)
qed (simp add: retE_def cancels_refl)

text \<open>Cancelling one task when everything active below it has ended.\<close>

lemma cancels_set:
  assumes "dict_get ns c = Some n" and "\<not> agent_terminal (tn_state n)" and "tn_spec n' = tn_spec n"
    and "tn_children n' = tn_children n" and "tn_state n' = AgentCancelled"
    and "\<And>y. active_below ns c y \<Longrightarrow> ended_at ns y"
  shows "cancels ns (dict_set c n' ns)"
  unfolding cancels_def using assms
  by (auto simp: ended_at_def agent_terminal_def)

lemma no_active_below_ended:
  "active_below ns p x \<Longrightarrow> \<not> ended_at ns x"
  by (induction rule: active_below.induct) (auto simp: active_child_def)

lemma active_below_back:
  assumes "cancels ns ns'" and "active_below ns' p x"
  shows "active_below ns p x"
proof -
  have old: "active_child ns a b" if "active_child ns' a b" for a b
    using that cancels_child [OF assms(1)] cancels_ended [OF assms(1)] by (auto simp: active_child_def)
  show ?thesis
    using assms(2) by (induction rule: active_below.induct) (auto dest: old intro: active_below.intros)
qed

lemma active_below_deeper:
  assumes "deepening ns" and "active_below ns p x"
  shows "\<exists>n k. dict_get ns p = Some n \<and> dict_get ns x = Some k \<and> ts_depth (tn_spec n) < ts_depth (tn_spec k)"
proof -
  have step: "\<exists>n k. dict_get ns a = Some n \<and> dict_get ns b = Some k \<and> ts_depth (tn_spec n) < ts_depth (tn_spec k)"
    if "active_child ns a b" for a b
    using that assms(1) unfolding active_child_def is_child_def deepening_def by fastforce
  show ?thesis
    using assms(2)
  proof (induction rule: active_below.induct)
    case (deeper p c x)
    then show ?case using step [OF deeper.hyps(1)] by fastforce
  qed (rule step)
qed

text \<open>What the walk below \<open>tid\<close> has done when it is at \<open>u\<close>: it has cancelled tasks active below \<open>tid\<close>, no others.\<close>

definition cancelling :: "'z genv_scheme \<Rightarrow> string \<Rightarrow> 'z genv_scheme \<Rightarrow> bool" where
  "cancelling s tid u \<longleftrightarrow> walking s u \<and>
     (\<forall>x. dict_get (nodes_of u) x \<noteq> dict_get (nodes_of s) x \<longrightarrow> active_below (nodes_of s) tid x)"

lemma cancelling_copied: "cancelling s tid u \<Longrightarrow> cancelling s tid (copied u)"
  using sound_quiet [OF _ copied_graph(2), of u] by (auto simp: cancelling_def walking_def)

text \<open>The step for one child: the walk below it, then its own cancellation.\<close>

lemma cancel_child:
  assumes u: "cancelling s tid u" and c: "is_child (nodes_of s) tid c" and k: "dict_get (nodes_of u) c = Some k"
    and active: "\<not> agent_terminal (tn_state k)" and reason: "length reason \<le> 4096"
    and below: "\<exists>v. cancel_below fuel reason c u = (Inr (), v) \<and> cancelling u c v \<and>
      (\<forall>y. active_below (nodes_of u) c y \<longrightarrow> ended_at (nodes_of v) y)"
  shows "\<exists>t. thenE (cancel_below fuel reason c) (thenE (transition_task c AgentCancelled (Some reason) None) (retE ())) u
      = (Inr (), t) \<and> cancelling s tid t \<and> cancels (nodes_of u) (nodes_of t) \<and> ended_at (nodes_of t) c \<and>
      (\<forall>y. active_below (nodes_of s) c y \<longrightarrow> ended_at (nodes_of t) y)"
proof -
  obtain v where v: "cancel_below fuel reason c u = (Inr (), v)" "cancelling u c v"
    and done_below: "\<forall>y. active_below (nodes_of u) c y \<longrightarrow> ended_at (nodes_of v) y" using below by blast
  have su: "cancels (nodes_of s) (nodes_of u)" and uv: "cancels (nodes_of u) (nodes_of v)"
    and sound: "sound u" "sound v" and sink: "answers (graph v)"
    using u v(2) by (simp_all add: cancelling_def walking_def)
  have acyclic: "\<not> active_below (nodes_of u) c c"
    using active_below_deeper [OF sound_deepening [OF sound(1)], of c c] by auto
  then have "dict_get (nodes_of v) c = dict_get (nodes_of u) c" using v(2) unfolding cancelling_def by blast
  then have kv: "dict_get (nodes_of v) c = Some k" using k by simp
  obtain n' t where t: "transition_task c AgentCancelled (Some reason) None v = (Inr n', t)" "sound t"
    "graph t = graph v\<lparr>tg_nodes := dict_set c n' (nodes_of v)\<rparr>" "tn_spec n' = tn_spec k"
    "tn_children n' = tn_children k" "tn_state n' = AgentCancelled"
    using transition_cancel [OF sound(2) sink reason kv active] by blast
  have vt: "cancels (nodes_of v) (nodes_of t)"
    unfolding t(3) using cancels_set [OF kv active t(4-6)] active_below_back [OF uv] done_below by auto
  have ended: "ended_at (nodes_of t) c" using t(3,6) by (simp add: ended_at_def agent_terminal_def)
  have child: "active_child (nodes_of s) tid c"
    using c cancels_ended [OF su, of c] k active by (auto simp: active_child_def ended_at_def)
  have "active_below (nodes_of s) tid x" if changed: "dict_get (nodes_of t) x \<noteq> dict_get (nodes_of s) x" for x
  proof -
    consider "x = c" | "dict_get (nodes_of v) x \<noteq> dict_get (nodes_of u) x" | "dict_get (nodes_of u) x \<noteq> dict_get (nodes_of s) x"
      using changed t(3) by (cases "x = c"; cases "dict_get (nodes_of v) x = dict_get (nodes_of u) x") auto
    then show ?thesis
    proof cases
      case 1
      then show ?thesis using child by (auto intro: active_below.direct)
    next
      case 2
      then have "active_below (nodes_of u) c x" using v(2) by (simp add: cancelling_def)
      then show ?thesis using active_below_back [OF su] child by (auto intro: active_below.deeper)
    next
      case 3
      then show ?thesis using u by (simp add: cancelling_def)
    qed
  qed
  moreover have "walking s t"
    using t(2,3) sink cancels_trans [OF su cancels_trans [OF uv vt]] by (simp add: walking_def)
  moreover have "ended_at (nodes_of t) y" if "active_below (nodes_of s) c y" for y
    using active_below_step [OF su that] done_below cancels_ended [OF vt] cancels_ended [OF uv] by blast
  moreover have "thenE (cancel_below fuel reason c) (thenE (transition_task c AgentCancelled (Some reason) None) (retE ())) u = (Inr (), t)"
    using v(1) t(1) by (simp add: thenE_def bindE_def retE_def)
  ultimately show ?thesis using cancels_trans [OF uv vt] ended by (auto simp: cancelling_def)
qed

lemma cancel_below_ends:
  assumes "sound s" and "answers (graph s)" and "length reason \<le> 4096"
    and "dict_get (nodes_of s) tid = Some n" and "card (lower_nodes (nodes_of s) (ts_depth (tn_spec n))) < fuel"
  shows "\<exists>t. cancel_below fuel reason tid s = (Inr (), t) \<and> cancelling s tid t \<and>
    (\<forall>y. active_below (nodes_of s) tid y \<longrightarrow> ended_at (nodes_of t) y)"
  using assms
proof (induction fuel arbitrary: tid s n)
  case (Suc fuel)
  let ?ns = "nodes_of s"
  let ?step = "\<lambda>c. bindE (get_task c) (\<lambda>child. if \<not> agent_terminal (tn_state child)
      then thenE (cancel_below fuel reason c) (thenE (transition_task c AgentCancelled (Some reason) None) (retE ()))
      else retE ())"
  let ?G = "\<lambda>c a. ended_at a c \<and> (\<not> ended_at ?ns c \<longrightarrow> (\<forall>y. active_below ?ns c y \<longrightarrow> ended_at a y))"
  have ok: "graph_ok (graph s)" using Suc.prems(1) by (simp add: sound_def)
  have start: "cancelling s tid (copied s)"
    by (rule cancelling_copied) (simp add: cancelling_def walking_def Suc.prems(1,2) cancels_refl)
  have step: "\<exists>t. ?step c u = (Inr (), t) \<and> cancelling s tid t \<and> cancels (nodes_of u) (nodes_of t) \<and> ?G c (nodes_of t)"
    if c: "c \<in> set (tn_children n)" and u: "cancelling s tid u" for c u
  proof -
    have child: "is_child ?ns tid c" using c Suc.prems(4) by (auto simp: is_child_def)
    obtain k0 where k0: "dict_get ?ns c = Some k0" "ts_depth (tn_spec k0) = ts_depth (tn_spec n) + 1"
      using sound_deepening [OF Suc.prems(1)] Suc.prems(4) c unfolding deepening_def by blast
    have su: "cancels ?ns (nodes_of u)" and sound: "sound u" and sink: "answers (graph u)"
      using u by (simp_all add: cancelling_def walking_def)
    obtain k where k: "dict_get (nodes_of u) c = Some k" "tn_spec k = tn_spec k0"
      using cancels_Some [OF su k0(1)] by blast
    have get: "get_task c u = (Inr k, copied u)" using get_task_ok [of u c] sound k(1) by (simp add: sound_def)
    show ?thesis
    proof (cases "agent_terminal (tn_state k)")
      case True
      then have "ended_at (nodes_of u) c" using k(1) by (simp add: ended_at_def)
      then show ?thesis
        using True get cancelling_copied [OF u] cancels_now_ended [OF su]
        by (simp add: bindE_def retE_def cancels_refl)
    next
      case False
      have "card (lower_nodes ?ns (ts_depth (tn_spec n) + 1)) < card (lower_nodes ?ns (ts_depth (tn_spec n)))"
        by (rule lower_child [OF k0])
      then have "card (lower_nodes (nodes_of (copied u)) (ts_depth (tn_spec k))) < fuel"
        using Suc.prems(5) k(2) k0(2) lower_cancels [OF su] by simp
      then have "\<exists>v. cancel_below fuel reason c (copied u) = (Inr (), v) \<and> cancelling (copied u) c v \<and>
          (\<forall>y. active_below (nodes_of (copied u)) c y \<longrightarrow> ended_at (nodes_of v) y)"
        using Suc.IH [of "copied u" c k] sound sink k(1) Suc.prems(3) sound_quiet [OF sound copied_graph(2)] by simp
      from cancel_child [OF cancelling_copied [OF u] child _ False Suc.prems(3) this] k(1) get False show ?thesis
        by (auto simp: bindE_def)
    qed
  qed
  have keep: "?G c b" if "?G c a" "cancels a b" for c a b
    using that cancels_ended [OF that(2)] by blast
  obtain us t where t: "mapE ?step (tn_children n) (copied s) = (Inr us, t)" "cancelling s tid t"
    "\<forall>c \<in> set (tn_children n). ?G c (nodes_of t)"
  proof -
    have "\<exists>us t. mapE ?step (tn_children n) (copied s) = (Inr us, t) \<and> cancelling s tid t \<and>
        cancels (nodes_of (copied s)) (nodes_of t) \<and> (\<forall>c \<in> set (tn_children n). ?G c (nodes_of t))"
      by (rule mapE_walk [where W = "cancelling s tid" and f = ?step and s = "copied s" and G = ?G])
         (use step in blast, use keep in blast, rule start)
    then show thesis using that by blast
  qed
  have "get_task tid s = (Inr n, copied s)" using get_task_ok [OF ok, of tid] Suc.prems(4) by simp
  then have run: "cancel_below (Suc fuel) reason tid s = (Inr (), t)"
    using t(1) by (simp add: bindE_def thenE_def retE_def)
  have "ended_at (nodes_of t) y" if y: "active_below ?ns tid y" for y
    using y
  proof (rule active_belowE)
    assume "active_child ?ns tid y"
    then show ?thesis using t(3) Suc.prems(4) by (auto simp: active_child_def is_child_def)
  next
    fix c assume "active_child ?ns tid c" "active_below ?ns c y"
    then show ?thesis using t(3) Suc.prems(4) by (auto simp: active_child_def is_child_def)
  qed
  with run t(2) show ?case by blast
qed simp

section \<open>Cancelling and interrupting a task\<close>

lemma fuel_eq: "graph_fuel s = (Inr (Suc (length (nodes_of s))), s)"
  by (simp add: graph_fuel_def get_graph_def bindE_def retE_def)

lemma cancel_task_ends:
  assumes "sound s" and "answers (graph s)" and "length reason \<le> 4096" and "dict_get (nodes_of s) tid = Some n"
  shows "\<exists>m t. cancel_task tid reason s = (Inr m, t) \<and> sound t \<and> ended_at (nodes_of t) tid \<and>
    (\<forall>y. active_below (nodes_of s) tid y \<longrightarrow> ended_at (nodes_of t) y) \<and>
    (\<forall>x. dict_get (nodes_of t) x \<noteq> dict_get (nodes_of s) x \<longrightarrow> x = tid \<or> active_below (nodes_of s) tid x)"
proof -
  obtain t where t: "cancel_below (Suc (length (nodes_of s))) reason tid s = (Inr (), t)" "cancelling s tid t"
    "\<forall>y. active_below (nodes_of s) tid y \<longrightarrow> ended_at (nodes_of t) y"
    using cancel_below_ends [OF assms lower_fuel] by blast
  have st: "cancels (nodes_of s) (nodes_of t)" and sound: "sound t" and sink: "answers (graph t)"
    using t(2) by (simp_all add: cancelling_def walking_def)
  obtain k where k: "dict_get (nodes_of t) tid = Some k" using cancels_Some [OF st assms(4)] by blast
  have get: "get_task tid t = (Inr k, copied t)" using get_task_ok [of t tid] sound k by (simp add: sound_def)
  show ?thesis
  proof (cases "agent_terminal (tn_state k)")
    case True
    then have "cancel_task tid reason s = (Inr k, copied t)"
      using t(1) get fuel_eq [of s] by (simp add: cancel_task_def bindE_def thenE_def retE_def)
    moreover have "ended_at (nodes_of t) tid" using True k by (simp add: ended_at_def)
    ultimately show ?thesis using t sound_quiet [OF sound copied_graph(2)] by (auto simp: cancelling_def)
  next
    case False
    have "dict_get (nodes_of (copied t)) tid = Some k" "sound (copied t)" "answers (graph (copied t))"
      using k sink sound_quiet [OF sound copied_graph(2)] by simp_all
    from transition_cancel [OF this(2,3) assms(3) this(1) False] obtain n' u where
      u: "transition_task tid AgentCancelled (Some reason) None (copied t) = (Inr n', u)" "sound u"
      "graph u = graph (copied t)\<lparr>tg_nodes := dict_set tid n' (nodes_of (copied t))\<rparr>" "tn_state n' = AgentCancelled" by blast
    have "cancel_task tid reason s = (Inr n', u)"
      using t(1) get False fuel_eq [of s] u(1) by (simp add: cancel_task_def bindE_def thenE_def)
    moreover have "ended_at (nodes_of u) tid" using u(3,4) by (simp add: ended_at_def agent_terminal_def)
    moreover have "ended_at (nodes_of u) y" if "ended_at (nodes_of t) y" for y
      using that u(3,4) by (auto simp: ended_at_def agent_terminal_def)
    moreover have "dict_get (nodes_of u) x = dict_get (nodes_of t) x" if "x \<noteq> tid" for x using that u(3) by simp
    ultimately show ?thesis using t(2,3) u(2) unfolding cancelling_def by metis
  qed
qed

section \<open>Authority\<close>

lemma authority_narrows:
  assumes "graph_ok g" and "dict_get (tg_nodes g) tid = Some n"
  shows "\<exists>r root. tg_roots g = [r] \<and> dict_get (tg_nodes g) r = Some root \<and>
    ts_capabilities (tn_spec n) \<subseteq> ts_capabilities (tn_spec root) \<and>
    budget_within (ts_budget (tn_spec n)) (ts_budget (tn_spec root)) \<and>
    ts_depth (tn_spec n) \<le> ts_max_depth (tn_spec root) \<and>
    int (length (tn_children n)) \<le> ts_max_children (tn_spec root)"
proof -
  let ?ns = "tg_nodes g"
  obtain r where r: "tg_roots g = [r]" "linked ?ns r" using assms by (auto simp: graph_ok_def)
  then obtain root where root: "dict_get ?ns r = Some root" by (auto simp: linked_def)
  define S where "S = {x. \<forall>m. dict_get ?ns x = Some m \<longrightarrow>
    ts_capabilities (tn_spec m) \<subseteq> ts_capabilities (tn_spec root) \<and>
    budget_within (ts_budget (tn_spec m)) (ts_budget (tn_spec root)) \<and>
    ts_max_depth (tn_spec m) = ts_max_depth (tn_spec root) \<and> ts_max_children (tn_spec m) \<le> ts_max_children (tn_spec root)}"
  have "closed ?ns S"
    unfolding closed_def
  proof (intro ballI allI impI subsetI)
    fix x m c
    assume x: "x \<in> S" and m: "dict_get ?ns x = Some m" and c: "c \<in> set (tn_children m)"
    have "sound_node ?ns r x m" using r(2) m by (simp add: linked_def)
    then obtain k where "dict_get ?ns c = Some k" "sound_child m k" using c by (auto simp: sound_node_def)
    then show "c \<in> S"
      using x m budget_within_trans by (fastforce simp: S_def sound_child_def Let_def)
  qed
  moreover have "r \<in> S" using root by (simp add: S_def)
  ultimately have "tid \<in> S" using linked_reached [OF r(2) graph_ok_depths [OF assms(1)] _ _ assms(2)] by blast
  moreover have "sound_node ?ns r tid n" "node_ok n" using r(2) assms by (simp_all add: linked_def graph_ok_def)
  ultimately show ?thesis
    using assms(2) r(1) root node_ok_depth [of n] by (force simp: S_def sound_node_def)
qed

section \<open>Restoring\<close>

lemma mapE_entries:
  assumes "\<forall>p \<in> set ps. node_ok (snd p)"
  shows "\<exists>t. mapE node_entry (map (\<lambda>(tid, n). (tid, JObj (task_node_to_dict n))) ps) s = (Inr ps, t)"
  using assms
proof (induction ps arbitrary: s)
  case (Cons p ps)
  obtain tid n where p: "p = (tid, n)" by (cases p)
  have "node_entry (tid, JObj (task_node_to_dict n)) s = (Inr (tid, n), copied s)"
    using Cons.prems node_roundtrip [of n s]
    by (simp add: node_entry_def p agent_mapping_def liftE_def bindE_def retE_def)
  moreover obtain t where "mapE node_entry (map (\<lambda>(tid, n). (tid, JObj (task_node_to_dict n))) ps) (copied s) = (Inr ps, t)"
    using Cons by (metis list.set_intros(2))
  ultimately show ?case by (simp add: p bindE_def retE_def)
qed (simp add: retE_def)

lemma map_of_sorted: "dict_wf d \<Longrightarrow> dict_get (sort_key fst d) = dict_get d" for d :: "(string, 'v) dict"
  unfolding dict_wf_def
  by (intro map_of_inject_set [THEN iffD2])
     (simp_all add: distinct_map distinct_sort inj_on_def)

lemma dict_wf_sorted: "dict_wf d \<Longrightarrow> dict_wf (sort_key fst d)" for d :: "(string, 'v) dict"
  unfolding dict_wf_def by (simp add: distinct_map)

lemma linked_same: "dict_get a = dict_get b \<Longrightarrow> linked a r = linked b r"
  by (simp add: linked_def sound_node_def is_child_def cong: option.case_cong)

lemma snapshot_restores:
  assumes "graph_ok g" and "tg_nodes g \<noteq> []"
  shows "\<exists>t. graph_from_snapshot (graph_snapshot g) sink s =
    (Inr (g\<lparr>tg_sink := sink, tg_nodes := sort_key fst (tg_nodes g)\<rparr>), t)"
proof -
  let ?ns = "sort_key fst (tg_nodes g)"
  let ?g = "g\<lparr>tg_sink := sink, tg_nodes := ?ns\<rparr>"
  have wf: "dict_wf (tg_nodes g)" using assms(1) by (simp add: graph_ok_def)
  have same: "dict_get ?ns = dict_get (tg_nodes g)" by (rule map_of_sorted [OF wf])
  have nodes: "\<forall>p \<in> set ?ns. node_ok (snd p)"
    using assms(1) dict_get_iff [OF wf] by (auto simp: graph_ok_def)
  obtain t where t: "mapE node_entry (map (\<lambda>(tid, n). (tid, JObj (task_node_to_dict n))) ?ns) s = (Inr ?ns, t)"
    using mapE_entries [OF nodes] by blast
  have "graph_ok ?g"
    using assms(1) same dict_wf_sorted [OF wf] linked_same [OF same] assms(2)
    by (auto simp: graph_ok_def simp flip: set_empty2)
  then have "validate_graph ?g = Inr ()" by (rule graph_ok_valid) (use assms(2) in \<open>simp flip: set_empty2\<close>)
  moreover have whole: "\<lparr>tg_session = tg_session g, tg_sink = sink, tg_nodes = ?ns, tg_roots = tg_roots g\<rparr> = ?g" by simp
  moreover have "list_all (\<lambda>p. is_JObj (snd p)) (map (\<lambda>(tid, n). (tid, JObj (task_node_to_dict n))) ?ns)"
    by (auto simp: list_all_iff)
  then have "snapshot_checks (graph_snapshot g) =
      Inr (map (\<lambda>(tid, n). (tid, JObj (task_node_to_dict n))) ?ns, tg_session g)"
    by (cases "tg_session g") (simp_all add: snapshot_checks_def graph_snapshot_def supported_schema_def Let_def)
  moreover have "assemble_graph (graph_snapshot g) sink (tg_session g) ?ns =
      (let h = \<lparr>tg_session = tg_session g, tg_sink = sink, tg_nodes = ?ns, tg_roots = tg_roots g\<rparr>
       in bindR (validate_graph h) (\<lambda>_. Inr h))"
    by (simp add: assemble_graph_def graph_snapshot_def jstrs_def)
  ultimately have "assemble_graph (graph_snapshot g) sink (tg_session g) ?ns = Inr ?g"
    by (simp only: Let_def whole) simp
  with \<open>snapshot_checks (graph_snapshot g) = _\<close> t
  have "graph_from_snapshot (graph_snapshot g) sink s = (Inr ?g, t)"
    by (simp add: graph_from_snapshot_def liftE_def bindE_def retE_def)
  then show ?thesis by blast
qed

text \<open>What reads back satisfies what the constructors check.\<close>

lemma budget_from_dict_ok: "budget_from_dict d = Inr b \<Longrightarrow> budget_ok b"
  by (auto simp: budget_from_dict_def intro: make_budget_ok split: option.splits if_splits)

lemma make_task_spec_ok: "make_task_spec d checked now = Inr x \<Longrightarrow> spec_ok x"
  by (auto simp: make_task_spec_def bindR_Inr_iff dest!: budget_from_dict_ok intro!: check_task_spec_ok
      split: prod.splits jval.splits)

lemma task_spec_from_dict_ok: "task_spec_from_dict d s = (Inr x, t) \<Longrightarrow> spec_ok x"
  unfolding task_spec_from_dict_def bindE_eq_Inr liftE_eq_Inr by (auto dest: make_task_spec_ok)

lemma task_result_from_dict_ok: "task_result_from_dict d = Inr r \<Longrightarrow> result_ok r"
  by (auto simp: task_result_from_dict_def bindR_Inr_iff dest: check_task_result_ok
      split: jval.splits option.splits if_splits)

lemma node_from_dict_ok: "task_node_from_dict d s = (Inr n, t) \<Longrightarrow> node_ok n"
  by (auto simp: task_node_from_dict_def bindE_eq_Inr liftE_eq_Inr make_task_node_def bindR_Inr_iff node_ok_def
      dest!: task_spec_from_dict_ok task_result_from_dict_ok split: prod.splits jval.splits)

lemma node_entries_ok:
  assumes "mapE node_entry raw s = (Inr nodes, t)"
  shows "map fst nodes = map fst raw \<and> (\<forall>p \<in> set nodes. node_ok (snd p))"
  using assms
proof (induction raw arbitrary: nodes s t)
  case (Cons p raw)
  then obtain q qs u v where q: "node_entry p s = (Inr q, u)" and qs: "mapE node_entry raw u = (Inr qs, v)"
    and nodes: "nodes = q # qs" by (auto simp: bindE_eq_Inr retE_def)
  have "fst q = fst p \<and> node_ok (snd q)"
    using q by (auto simp: node_entry_def bindE_eq_Inr liftE_eq_Inr retE_def dest: node_from_dict_ok)
  with Cons.IH [OF qs] nodes show ?case by simp
qed (simp add: retE_def)

lemma restored_ok:
  assumes "graph_from_snapshot snapshot sink s = (Inr g, t)"
    and "\<And>raw. dict_get snapshot ''nodes'' = Some (JObj raw) \<Longrightarrow> dict_wf raw"
  shows "graph_ok g \<and> (\<exists>raw. dict_get snapshot ''nodes'' = Some (JObj raw) \<and> map fst (tg_nodes g) = map fst raw)"
proof -
  obtain p nodes where p: "snapshot_checks snapshot = Inr p" and nodes: "mapE node_entry (fst p) s = (Inr nodes, t)"
    and g: "assemble_graph snapshot sink (snd p) nodes = Inr g"
    using assms(1) unfolding graph_from_snapshot_def bindE_eq_Inr liftE_eq_Inr by blast
  have raw: "dict_get snapshot ''nodes'' = Some (JObj (fst p))"
    using p by (auto simp: snapshot_checks_def Let_def bindR_Inr_iff split: option.splits jval.splits if_splits)
  have valid: "validate_graph g = Inr ()" and same: "nodes = tg_nodes g"
    using g by (auto simp: assemble_graph_def Let_def bindR_Inr_iff split: option.splits)
  note nodes = nodes [unfolded same]
  have wf: "dict_wf (tg_nodes g)" and all: "\<forall>p \<in> set (tg_nodes g). node_ok (snd p)"
    using node_entries_ok [OF nodes] assms(2) [OF raw] by (simp_all add: dict_wf_def)
  have ok: "node_ok n" if "dict_get (tg_nodes g) tid = Some n" for tid n
    using all dict_get_mem [OF that] by force
  then have "depths_ok (tg_nodes g)" by (auto simp: depths_ok_def dest!: node_ok_depth)
  with validate_iff [OF wf] valid ok wf have "graph_ok g" by (auto simp: graph_ok_def)
  with raw node_entries_ok [OF nodes] show ?thesis by blast
qed

text \<open>An empty graph has no root, and its snapshot is refused.\<close>

lemma empty_snapshot_refused:
  assumes "graph_ok g" and "tg_nodes g = []"
  shows "graph_from_snapshot (graph_snapshot g) sink s =
    (Inl (agent_invalid ''Task graph must contain exactly one valid root''), s)"
proof -
  have roots: "tg_roots g = []" using assms by (auto simp: graph_ok_def linked_def)
  have "snapshot_checks (graph_snapshot g) = Inr ([], tg_session g)"
    using assms(2) by (cases "tg_session g") (simp_all add: snapshot_checks_def graph_snapshot_def supported_schema_def Let_def)
  then show ?thesis
    using roots
    by (simp add: graph_from_snapshot_def liftE_def bindE_def retE_def raiseE_def assemble_graph_def graph_snapshot_def
        jstrs_def validate_graph_def Let_def)
qed

lemma quiet_from_snapshot: "advances quiet (graph_from_snapshot snapshot sink)"
  unfolding graph_from_snapshot_def node_entry_def by (intro quiet_rules quiet_node_from_dict)

text \<open>A restore that raises leaves the graph; one that returns leaves one that is as sound as any.\<close>

lemma restore_raises: "restore_graph p s = (Inl e, t) \<Longrightarrow> quiet s t"
proof -
  assume run: "restore_graph p s = (Inl e, t)"
  obtain r s1 where read: "graph_from_snapshot p (tg_sink (graph s)) s = (r, s1)" by fastforce
  with run have "t = s1" by (cases r) (simp_all add: restore_graph_def bindE_def get_graph_def modifyE_def)
  then show ?thesis using advancesD [OF quiet_from_snapshot read] by simp
qed

text \<open>The snapshot has no identifiers that this process has yet to draw.\<close>

definition known_snapshot :: "'z genv_scheme \<Rightarrow> jobj \<Rightarrow> bool" where
  "known_snapshot s p \<longleftrightarrow> (\<forall>raw. dict_get p ''nodes'' = Some (JObj raw) \<longrightarrow>
     dict_wf raw \<and> (\<forall>k > last_tick s. render_id ''task'' k (process_salt s) \<notin> fst ` set raw))"

lemma restore_sound:
  assumes run: "restore_graph p s = (x, t)" and s: "sound s" and known: "known_snapshot s p"
  shows "sound t"
proof (cases x)
  case (Inl e)
  then show ?thesis using run restore_raises sound_quiet [OF s] by blast
next
  case (Inr u)
  then obtain g s1 where g: "graph_from_snapshot p (tg_sink (graph s)) s = (Inr g, s1)"
    and t: "t = s1\<lparr>graph := (graph s1)\<lparr>tg_session := tg_session g, tg_nodes := tg_nodes g, tg_roots := tg_roots g\<rparr>\<rparr>"
    using run by (auto simp: restore_graph_def bindE_eq_Inr get_graph_def modifyE_def)
  have q: "quiet s s1" by (rule advancesD [OF quiet_from_snapshot g])
  obtain raw where ok: "graph_ok g" and raw: "dict_get p ''nodes'' = Some (JObj raw)" "map fst (tg_nodes g) = map fst raw"
    using restored_ok [OF g] known unfolding known_snapshot_def by blast
  have "graph_ok (graph t)" using ok by (simp add: t graph_ok_def)
  moreover have "dict_get (tg_nodes g) (render_id ''task'' k (process_salt s)) = None" if "last_tick s1 < k" for k
  proof -
    have "last_tick s < k" using that q by (simp add: quiet_def)
    then have "render_id ''task'' k (process_salt s) \<notin> set (map fst raw)"
      using known raw(1) by (simp add: known_snapshot_def)
    then have "render_id ''task'' k (process_salt s) \<notin> fst ` set (tg_nodes g)"
      unfolding raw(2) [symmetric] by simp
    then show ?thesis by (simp only: dict_get_None not_False_eq_True)
  qed
  ultimately show ?thesis using s q by (simp add: sound_def quiet_def t)
qed

end
