(* ===== verification/Subagents.thy ===== *)
theory Subagents
  imports Graph_Walks Run_Control
begin

text \<open>
  Spawning governed child runs, \<^verbatim>\<open>aihi/agent/agents/subagent.py\<close>: the tool \<^verbatim>\<open>task\<close>, the runner of child
  runs, the observer that enforces a child's budget, and the registry a child is given.

  \<^verbatim>\<open>SubagentRunner\<close> is a protocol: the tool takes its runners as parameters, and \<open>child_run\<close> is the one of
  the package. What \<open>child_run\<close> is given itself (the factories for its context, session and coordinator)
  are parameters too; awaiting the coordinator under the time limit is one task, which raises
  \<open>TimeoutError\<close> when the limit passes. A number that is not finite is read as not-a-number.
\<close>

section \<open>Authority\<close>

definition SPAWN_CAPABILITY :: string where
  "SPAWN_CAPABILITY = ''agent.spawn''"

record subagent_authority =
  auth_budget :: agent_budget
  auth_capabilities :: "string set"
  auth_max_depth :: int
  auth_max_children :: int

record child_run_context =
  child_app_context :: jval
  child_run_profile :: jobj

text \<open>\<^verbatim>\<open>restrict_registry\<close>.\<close>

definition restrict_registry :: "tool_registry \<Rightarrow> string set \<Rightarrow> exn + tool_registry" where
  "restrict_registry reg caps =
     make_registry (List.map_filter (\<lambda>spec. case get_tool reg (spec_name spec) of
         None \<Rightarrow> None
       | Some t \<Rightarrow> if set (required_capabilities spec) \<subseteq> caps then Some t else None) (registry_specs reg))"

section \<open>The budget of a child run\<close>

record tool_call_budget =
  tcb_max_calls :: int
  tcb_max_tokens :: int
  tcb_max_cost :: "rat option"
  tcb_started :: int
  tcb_output :: int
  tcb_cost :: rat
  tcb_reported :: bool
  tcb_cancelled :: bool

definition new_call_budget :: "agent_budget \<Rightarrow> tool_call_budget" where
  "new_call_budget b =
     \<lparr>tcb_max_calls = bud_calls b, tcb_max_tokens = bud_tokens b, tcb_max_cost = bud_cost b, tcb_started = 0,
      tcb_output = 0, tcb_cost = 0, tcb_reported = False, tcb_cancelled = False\<rparr>"

definition cost_exceeded :: "tool_call_budget \<Rightarrow> bool" where
  "cost_exceeded b \<longleftrightarrow>
     (case tcb_max_cost b of None \<Rightarrow> False | Some limit \<Rightarrow> tcb_cost b > limit \<or> \<not> tcb_reported b)"

definition budget_exceeded :: "tool_call_budget \<Rightarrow> bool" where
  "budget_exceeded b \<longleftrightarrow> tcb_started b > tcb_max_calls b \<or> tcb_output b > tcb_max_tokens b \<or> cost_exceeded b"

definition budget_error_code :: "tool_call_budget \<Rightarrow> string" where
  "budget_error_code b =
     (if tcb_started b > tcb_max_calls b then ''subagent_tool_budget_exceeded''
      else if tcb_output b > tcb_max_tokens b then ''subagent_token_budget_exceeded''
      else if tcb_max_cost b \<noteq> None \<and> \<not> tcb_reported b then ''subagent_cost_unavailable''
      else ''subagent_cost_budget_exceeded'')"

text \<open>The part of \<^verbatim>\<open>observe\<close> for a model's final chunk, given its usage.\<close>

definition observe_usage :: "jobj \<Rightarrow> tool_call_budget \<Rightarrow> tool_call_budget" where
  "observe_usage usage b =
     (let b1 = (case get_or usage ''output_tokens'' (JInt 0) of
                  JInt n \<Rightarrow> if 0 \<le> n then b\<lparr>tcb_output := tcb_output b + n\<rparr> else b | _ \<Rightarrow> b);
          b2 = (case finite_number (get_or_none usage ''cost_usd'') of
                  Some r \<Rightarrow> if 0 \<le> r then b1\<lparr>tcb_cost := tcb_cost b1 + r, tcb_reported := True\<rparr> else b1
                | None \<Rightarrow> b1) in
      if tcb_output b2 > tcb_max_tokens b2 \<or> cost_exceeded b2 then b2\<lparr>tcb_cancelled := True\<rparr> else b2)"

definition observe :: "tool_call_budget \<Rightarrow> event \<Rightarrow> tool_call_budget" where
  "observe b e =
     (if ev_type e = ''tool.started''
      then let b' = b\<lparr>tcb_started := tcb_started b + 1\<rparr> in
           if tcb_started b' > tcb_max_calls b' then b'\<lparr>tcb_cancelled := True\<rparr> else b'
      else if ev_type e \<noteq> ''model.chunk'' \<or> get_or_none (ev_data e) ''kind'' \<noteq> JStr ''message_end'' then b
      else case get_or_none (ev_data e) ''response'' of
          JObj response \<Rightarrow>
            (case get_or_none response ''usage'' of JObj usage \<Rightarrow> observe_usage usage b | _ \<Rightarrow> b)
        | _ \<Rightarrow> b)"

section \<open>The runner of child runs\<close>

record 'z child_runner =
  chr_model :: string
  chr_system_prompt :: string
  chr_context :: "task_spec \<Rightarrow> tool_context \<Rightarrow> exn + child_run_context"
  chr_session :: "task_spec \<Rightarrow> tool_context \<Rightarrow> ('z renv_scheme, unit) sm"
  chr_coordinator :: "task_spec \<Rightarrow>
    exn + (task_spec \<Rightarrow> string \<Rightarrow> string \<Rightarrow> child_run_context \<Rightarrow> ('z renv_scheme, run_result) task)"

text \<open>A number for the budget's observer that no observer has.\<close>

definition fresh_observer :: "'z env_scheme \<Rightarrow> nat" where
  "fresh_observer s = Suc (foldl max 0 (ses_observers (self s) @ map fst (notified s)))"

text \<open>What the observer \<open>k\<close> has counted.\<close>

definition observed_budget :: "agent_budget \<Rightarrow> nat \<Rightarrow> 'z env_scheme \<Rightarrow> tool_call_budget" where
  "observed_budget b k s =
     foldl observe (new_call_budget b) (map snd (filter (\<lambda>p. fst p = k) (notified s)))"

definition started_data :: "task_spec \<Rightarrow> tool_context \<Rightarrow> jobj" where
  "started_data spec ctx =
     [(''task_id'', JStr (ts_task spec)), (''objective'', JStr (ts_objective spec)),
      (''child_run_id'', JStr (ts_child_run spec)), (''parent_session_id'', JStr (ctx_session ctx)),
      (''parent_run_id'', JStr (ctx_run ctx)), (''budget'', JObj (budget_to_dict (ts_budget spec))),
      (''capabilities'', jstrs (sorted_list_of_set (ts_capabilities spec))), (''depth'', JInt (ts_depth spec))]"

definition child_metrics :: "task_spec \<Rightarrow> string \<Rightarrow> jobj" where
  "child_metrics spec sid = [(''session_id'', JStr sid), (''run_id'', JStr (ts_child_run spec))]"

definition failed_result :: "task_spec \<Rightarrow> string \<Rightarrow> jobj \<Rightarrow> task_result" where
  "failed_result spec err metrics =
     \<lparr>tr_task = ts_task spec, tr_state = AgentFailed, tr_summary = '''', tr_artifacts = [],
      tr_error = Some err, tr_metrics = metrics\<rparr>"

text \<open>\<^verbatim>\<open>_to_task_result\<close>.\<close>

definition to_task_result ::
  "task_spec \<Rightarrow> string \<Rightarrow> run_result \<Rightarrow> tool_call_budget \<Rightarrow> exn + task_result" where
  "to_task_result spec sid result b =
     (let metrics = child_metrics spec sid in
      check_task_result
        (if budget_exceeded b
         then failed_result spec (budget_error_code b)
                (metrics @ [(''output_tokens'', JInt (tcb_output b)), (''cost_usd'', JFloat (tcb_cost b))])
         else if run_suspended result
         then \<lparr>tr_task = ts_task spec, tr_state = AgentWaiting,
                tr_summary = ''The subagent is waiting for an approval.'', tr_artifacts = [], tr_error = None,
                tr_metrics = metrics @ [(''approval_id'', jopt_str (rr_pending_approval result))]\<rparr>
         else case rr_error result of
             Some err \<Rightarrow> failed_result spec err metrics
           | None \<Rightarrow>
               \<lparr>tr_task = ts_task spec, tr_state = AgentCompleted,
                tr_summary = take 4096 (case rr_response result of
                    None \<Rightarrow> '''' | Some response \<Rightarrow> text_content (resp_message response)),
                tr_artifacts = [], tr_error = None, tr_metrics = metrics\<rparr>))"

definition finish_child :: "task_spec \<Rightarrow> tool_context \<Rightarrow> task_result \<Rightarrow> ('z renv_scheme, task_result) sm" where
  "finish_child spec ctx result =
     bindE (append_new ''subagent.completed'' None
       [(''task_id'', JStr (ts_task spec)), (''child_run_id'', JStr (ts_child_run spec)),
        (''parent_session_id'', JStr (ctx_session ctx)), (''parent_run_id'', JStr (ctx_run ctx)),
        (''result'', JObj (task_result_to_dict result))]) (\<lambda>_. retE result)"

definition child_run ::
  "'z child_runner \<Rightarrow> task_spec \<Rightarrow> tool_context \<Rightarrow> ('z renv_scheme, task_result) task" where
  "child_run r spec ctx =
     bindT (liftT (liftE (chr_context r spec ctx))) (\<lambda>child_context.
     thenT (liftT (chr_session r spec ctx))
    (bindT (liftT (liftE (chr_coordinator r spec))) (\<lambda>coordinator.
     bindT (liftT (\<lambda>s. (Inr (fresh_observer s), s))) (\<lambda>k.
     thenT (liftT (add_event_observer k))
    (thenT (liftT (append_new ''subagent.started'' None (started_data spec ctx)))
    (bindT (liftT get_self) (\<lambda>session.
     bindT (catchT (bindT (coordinator spec (chr_model r) (chr_system_prompt r) child_context)
                     (\<lambda>result. retT (Some result)))
              (\<lambda>e. if is_timeout e then retT None else raiseT e)) (\<lambda>outcome.
     bindT (liftT (\<lambda>s. liftE (case outcome of
               None \<Rightarrow> check_task_result (failed_result spec ''subagent_timeout'' (child_metrics spec (ses_id session)))
             | Some result \<Rightarrow>
                 to_task_result spec (ses_id session) result (observed_budget (ts_budget spec) k s)) s))
       (\<lambda>result. liftT (finish_child spec ctx result))))))))))"

section \<open>The tool\<close>

record 'z subagent_tool =
  sat_runners :: "(string, task_spec \<Rightarrow> tool_context \<Rightarrow> ('z genv_scheme, task_result) task) dict"
  sat_authority :: subagent_authority
  sat_ceilings :: "(string, string set) dict"

text \<open>\<^verbatim>\<open>SubagentTool(...)\<close> with a mapping of runners.\<close>

definition make_subagent_tool ::
  "(string, task_spec \<Rightarrow> tool_context \<Rightarrow> ('z genv_scheme, task_result) task) dict \<Rightarrow> subagent_authority \<Rightarrow>
     (string, string set) dict \<Rightarrow> exn + 'z subagent_tool" where
  "make_subagent_tool runners authority ceilings =
     (if dict_get runners ''general'' = None
      then Inl (Exn (Py ValueError) ''Named subagent runners must include a 'general' entry'')
      else Inr \<lparr>sat_runners = runners, sat_authority = authority, sat_ceilings = ceilings\<rparr>)"

text \<open>\<^verbatim>\<open>float(value)\<close>; a text is read when it is a decimal integer.\<close>

fun py_float :: "jval \<Rightarrow> exn + jval" where
  "py_float (JFloat r) = Inr (JFloat r)"
| "py_float JNonFinite = Inr JNonFinite"
| "py_float v = bindR (py_int v) (\<lambda>i. Inr (JFloat (rat_of_int i)))"

definition min_float :: "jval \<Rightarrow> rat \<Rightarrow> jval" where
  "min_float v limit = (case v of JFloat r \<Rightarrow> JFloat (min r limit) | _ \<Rightarrow> v)"

definition child_budget :: "subagent_authority \<Rightarrow> jobj \<Rightarrow> exn + agent_budget" where
  "child_budget authority inp =
     (let parent = auth_budget authority in
      bindR (py_int (get_or inp ''max_tokens'' (JInt (bud_tokens parent)))) (\<lambda>tokens.
      bindR (py_float (get_or inp ''timeout_seconds'' (JFloat (bud_timeout parent)))) (\<lambda>timeout.
      bindR (py_int (get_or inp ''max_tool_calls'' (JInt (bud_calls parent)))) (\<lambda>calls.
        make_budget (JInt (min tokens (bud_tokens parent))) (jopt_num (bud_cost parent))
          (min_float timeout (bud_timeout parent)) (JInt (min calls (bud_calls parent)))))))"

definition child_capabilities :: "subagent_authority \<Rightarrow> jobj \<Rightarrow> exn + string set" where
  "child_capabilities authority inp =
     (case get_or_none inp ''capabilities'' of
        JNull \<Rightarrow> Inr (auth_capabilities authority - {SPAWN_CAPABILITY})
      | JArr xs \<Rightarrow>
          (case all_strings xs of
             Some cs \<Rightarrow> Inr (set cs)
           | None \<Rightarrow> Inl (agent_invalid ''Subagent capabilities must be a list of strings''))
      | _ \<Rightarrow> Inl (agent_invalid ''Subagent capabilities must be a list of strings''))"

definition capabilities_for :: "'z subagent_tool \<Rightarrow> string \<Rightarrow> jobj \<Rightarrow> exn + string set" where
  "capabilities_for sub agent_type inp =
     bindR (child_capabilities (sat_authority sub) inp) (\<lambda>requested.
       Inr (case dict_get (sat_ceilings sub) agent_type of None \<Rightarrow> requested | Some upper \<Rightarrow> requested \<inter> upper))"

text \<open>Using the graph of a key: the operation works on the object in the table.\<close>

definition on_graph :: "string \<times> string \<Rightarrow> ('z genv_scheme, 'a) sm \<Rightarrow> ('z genv_scheme, 'a) sm" where
  "on_graph key m = (\<lambda>s. case dict_get (graphs s) key of
       None \<Rightarrow> (Inl (Exn (Py KeyError) ''''), s)
     | Some (g, root_id) \<Rightarrow>
         (case m (s\<lparr>graph := g\<rparr>) of (r, t) \<Rightarrow>
            (r, t\<lparr>graph := graph s, graphs := dict_set key (graph t, root_id) (graphs t)\<rparr>)))"

definition new_run_graph :: "subagent_authority \<Rightarrow> tool_context \<Rightarrow> ('z genv_scheme, string) sm" where
  "new_run_graph authority ctx =
     bindE (create_root (ctx_run ctx) ''parent run'' (auth_budget authority) (auth_capabilities authority) []
              (auth_max_depth authority) (auth_max_children authority) []) (\<lambda>node.
     bindE (transition_task (ts_task (tn_spec node)) AgentRunning None None) (\<lambda>_.
       retE (ts_task (tn_spec node))))"

text \<open>\<^verbatim>\<open>_graph_for\<close>: the root's identifier; the graph is the one of the session and run.\<close>

definition graph_for :: "subagent_authority \<Rightarrow> tool_context \<Rightarrow> ('z genv_scheme, string) sm" where
  "graph_for authority ctx = (\<lambda>s. case dict_get (graphs s) (ctx_session ctx, ctx_run ctx) of
       Some (g, root_id) \<Rightarrow> (Inr root_id, s)
     | None \<Rightarrow>
         (case new_run_graph authority ctx (s\<lparr>graph := new_task_graph (Some (ctx_session ctx)) None\<rparr>) of
            (Inl e, t) \<Rightarrow> (Inl e, t\<lparr>graph := graph s\<rparr>)
          | (Inr root_id, t) \<Rightarrow>
              (Inr root_id, t\<lparr>graph := graph s,
                 graphs := dict_set (ctx_session ctx, ctx_run ctx) (graph t, root_id) (graphs t)\<rparr>)))"

definition tool_error :: "string \<Rightarrow> jobj \<Rightarrow> tool_execution_result" where
  "tool_error content metadata = \<lparr>exec_content = content, exec_is_error = True, exec_metadata = metadata\<rparr>"

text \<open>\<^verbatim>\<open>_commit\<close>.\<close>

definition commit_result ::
  "string \<times> string \<Rightarrow> string \<Rightarrow> task_result \<Rightarrow> ('z genv_scheme, tool_execution_result) sm" where
  "commit_result key tid result =
     (let metadata = dict_merge [(''task_id'', JStr tid), (''state'', JStr (agent_state_text (tr_state result)))]
            (tr_metrics result) in
      if tr_state result = AgentCompleted
      then thenE (on_graph key (complete_task tid (tr_summary result) (tr_artifacts result) (tr_metrics result)))
             (retE \<lparr>exec_content = tr_summary result, exec_is_error = False, exec_metadata = metadata\<rparr>)
      else if tr_state result = AgentWaiting
      then thenE (on_graph key (transition_task tid AgentWaiting None None))
             (retE (tool_error (tr_summary result) metadata))
      else thenE (on_graph key (fail_task tid (case tr_error result of
                    None \<Rightarrow> ''subagent_failed'' | Some e \<Rightarrow> if e = '''' then ''subagent_failed'' else e)))
             (retE (tool_error (case tr_error result of
                    None \<Rightarrow> ''The subagent did not complete.''
                  | Some e \<Rightarrow> if e = '''' then ''The subagent did not complete.'' else e)
                (dict_set ''error_code'' (JStr ''subagent_failed'') metadata))))"

text \<open>The \<^verbatim>\<open>try\<close> around \<^verbatim>\<open>spawn\<close>: a denial is a result, anything else is raised.\<close>

definition spawn_child ::
  "'z subagent_tool \<Rightarrow> string \<times> string \<Rightarrow> string \<Rightarrow> string \<Rightarrow> string \<Rightarrow> jobj \<Rightarrow>
     ('z genv_scheme, tool_execution_result + task_spec) sm" where
  "spawn_child sub key root_id objective agent_type inp =
     catchE
       (bindE (liftE (child_budget (sat_authority sub) inp)) (\<lambda>budget.
        bindE (liftE (capabilities_for sub agent_type inp)) (\<lambda>caps.
        bindE (on_graph key (spawn_task root_id objective (Some budget) (Some caps) []
                 [(''agent_type'', JStr agent_type)])) (\<lambda>n. retE (Inr (tn_spec n))))))
       (\<lambda>e. case e of
            Exn (Agent c) m \<Rightarrow>
              retE (Inl (tool_error (''Subagent request denied: '' @ m) [(''error_code'', JStr (agent_error_code c))]))
          | _ \<Rightarrow> raiseE e)"

text \<open>The \<^verbatim>\<open>try\<close> around the runner.\<close>

definition run_spawned ::
  "'z subagent_tool \<Rightarrow> string \<times> string \<Rightarrow> (task_spec \<Rightarrow> tool_context \<Rightarrow> ('z genv_scheme, task_result) task) \<Rightarrow>
     task_spec \<Rightarrow> tool_context \<Rightarrow> ('z genv_scheme, tool_execution_result) task" where
  "run_spawned sub key runner spec ctx =
     (let tid = ts_task spec in
      thenT (liftT (on_graph key (transition_task tid AgentRunning None None)))
     (bindT (catchT (bindT (runner spec ctx) (\<lambda>result. retT (Inr result)))
               (\<lambda>e. if is_cancelled e then raiseT e else retT (Inl e))) (\<lambda>outcome. liftT (case outcome of
          Inl e \<Rightarrow>
            thenE (on_graph key (fail_task tid (exn_text e)))
              (retE (tool_error (''Subagent failed: '' @ exn_text e)
                 [(''error_code'', JStr (case agent_runtime_code e of None \<Rightarrow> ''subagent_failed'' | Some c \<Rightarrow> c)),
                  (''task_id'', JStr tid)]))
        | Inr result \<Rightarrow> commit_result key tid result))))"

definition run_subagent ::
  "'z subagent_tool \<Rightarrow> jobj \<Rightarrow> tool_context \<Rightarrow> ('z genv_scheme, tool_execution_result) task" where
  "run_subagent sub inp ctx =
     (case (get_or_none inp ''objective'', get_or inp ''agent_type'' (JStr ''general'')) of
        (JStr objective, raw_type) \<Rightarrow>
          (if blank objective
           then raiseT (agent_invalid ''Subagent objective must be a non-empty string'')
           else case raw_type of
               JStr name \<Rightarrow>
                 (if blank name
                  then raiseT (agent_invalid ''Subagent agent_type must be a non-empty string'')
                  else case dict_get (sat_runners sub) (strip name) of
                      None \<Rightarrow> retT (tool_error (''Unknown subagent type: '' @ name)
                                [(''error_code'', JStr ''subagent_type_unknown'')])
                    | Some runner \<Rightarrow>
                        (let key = (ctx_session ctx, ctx_run ctx) in
                         bindT (liftT (graph_for (sat_authority sub) ctx)) (\<lambda>root_id.
                         bindT (liftT (spawn_child sub key root_id objective (strip name) inp)) (\<lambda>spawned.
                           case spawned of
                             Inl refusal \<Rightarrow> retT refusal
                           | Inr spec \<Rightarrow> run_spawned sub key runner spec ctx))))
             | _ \<Rightarrow> raiseT (agent_invalid ''Subagent agent_type must be a non-empty string''))
      | _ \<Rightarrow> raiseT (agent_invalid ''Subagent objective must be a non-empty string''))"

end
