(* ===== verification/Subagent_Facts.thy ===== *)
theory Subagent_Facts
  imports Subagents
begin

text \<open>
  What the operations the subagent tool uses do to a graph without an event sink, and to the table of
  graphs: a task once stored keeps its specification, a spawn gives what its checks allow, and no operation
  touches the table.
\<close>

section \<open>The effect of the operations the tool uses\<close>

text \<open>
  Without a sink, an operation either leaves the nodes alone and raises, or stores one node (and, for a
  spawn, adds one) whose specification is the old one.
\<close>

definition respecs :: "task_graph \<Rightarrow> task_graph \<Rightarrow> bool" where
  "respecs g g' \<longleftrightarrow> tg_sink g' = tg_sink g \<and> tg_roots g' = tg_roots g \<and>
     (\<forall>tid n. dict_get (tg_nodes g) tid = Some n \<longrightarrow>
        (\<exists>n'. dict_get (tg_nodes g') tid = Some n' \<and> tn_spec n' = tn_spec n))"

lemma respecs_refl [simp]: "respecs g g"
  by (simp add: respecs_def)

lemma respecs_set:
  "dict_get (tg_nodes g) tid = Some n \<Longrightarrow> tn_spec n' = tn_spec n \<Longrightarrow> respecs g (g\<lparr>tg_nodes := dict_set tid n' (tg_nodes g)\<rparr>)"
  by (simp add: respecs_def)

lemma quiet_graph: "advances quiet m \<Longrightarrow> m s = (r, t) \<Longrightarrow> graph t = graph s"
  by (auto dest!: advancesD simp: quiet_def)

lemma copy_graph: "graph (snd (copy_node n s)) = graph s"
  by (cases "copy_node n s") (simp add: quiet_graph [OF quiet_copy])

lemma emit_without_sink: "tg_sink (graph s) = None \<Longrightarrow> emit_task_event ty n reason s = (Inr (), s)"
  by (simp add: emit_task_event_def get_graph_def bindE_def retE_def)

lemma enter_state_respecs:
  assumes "tg_sink (graph s) = None" and "dict_get (tg_nodes (graph s)) tid = Some n"
  shows "respecs (graph s) (graph (snd (enter_state tid n st reason r s)))"
proof -
  let ?new = "n\<lparr>tn_state := st, tn_result := r, tn_reason := reason,
    tn_updated := isoformat (clock s (clock_reads s) div 1000)\<rparr>"
  let ?s = "s\<lparr>clock_reads := Suc (clock_reads s)\<rparr>"
  let ?t = "?s\<lparr>graph := graph s\<lparr>tg_nodes := dict_set tid ?new (tg_nodes (graph s))\<rparr>\<rparr>"
  have "enter_state tid n st reason r s = copy_node ?new ?t"
    using emit_without_sink [of ?s] assms(1)
    by (simp add: enter_state_def clock_read bindE_def thenE_def Let_def update_nodes_def modifyE_def)
  moreover have "graph (snd (copy_node ?new ?t)) = graph ?t"
    by (rule copy_graph)
  ultimately show ?thesis using respecs_set [OF assms(2), of ?new] by simp
qed

lemma transition_respecs:
  assumes "sound s" and "tg_sink (graph s) = None"
  shows "respecs (graph s) (graph (snd (transition_task tid st reason result s)))"
proof (cases "dict_get (tg_nodes (graph s)) tid")
  case None
  then have "get_task tid s = (Inl (agent_invalid (''Unknown task: '' @ tid)), s)"
    using get_task_ok [of s tid] assms(1) by (simp add: sound_def)
  then show ?thesis by (simp add: transition_task_def bindE_def)
next
  case (Some n)
  let ?s = "copied s"
  have get: "get_task tid s = (Inr n, ?s)" using get_task_ok [of s tid] assms(1) Some by (simp add: sound_def)
  obtain b u where busy: "andE (st = AgentCompleted) (busy_children n) ?s = (b, u)" by fastforce
  have u: "graph u = graph s"
    using quiet_graph [OF quiet.advances_andE [OF quiet_busy] busy] by simp
  have "respecs (graph s) (graph (snd (enter_state tid n st reason r u)))" for r
    using enter_state_respecs [of u tid n st reason r] u assms(2) Some by simp
  then show ?thesis
    using get busy u
    by (cases b; cases "transition_result tid st reason result")
       (auto simp: transition_task_def bindE_def liftE_def raiseE_def retE_def)
qed

lemma sound_after: "safely sound m (\<lambda>_. sound) \<Longrightarrow> sound s \<Longrightarrow> sound (snd (m s))"
  by (fastforce simp: safely_def split: sum.splits)

text \<open>\<open>tends m\<close>: without a sink, \<open>m\<close> keeps the invariant, the roots and every specification.\<close>

definition tends :: "('z genv_scheme, 'a) sm \<Rightarrow> bool" where
  "tends m \<longleftrightarrow> (\<forall>s. sound s \<and> tg_sink (graph s) = None \<longrightarrow> sound (snd (m s)) \<and> respecs (graph s) (graph (snd (m s))))"

lemma tends_lift: "(\<And>x. tends (f x)) \<Longrightarrow> tends (bindE (liftE r) f)"
  by (cases r) (auto simp: tends_def bindE_def liftE_def raiseE_def retE_def)

lemma tendsI:
  assumes "safely sound m (\<lambda>_. sound)"
    and "\<And>s. sound s \<Longrightarrow> tg_sink (graph s) = None \<Longrightarrow> respecs (graph s) (graph (snd (m s)))"
  shows "tends m"
  using sound_after [OF assms(1)] assms(2) by (simp add: tends_def)

lemma tends_transition: "tends (transition_task tid st reason result)"
  by (intro tendsI transition_safe transition_respecs)

lemma tends_complete: "tends (complete_task tid summary artifacts metrics)"
  unfolding complete_task_def by (intro tends_lift tends_transition)

lemma tends_fail: "tends (fail_task tid err)"
  unfolding fail_task_def by (intro tends_lift tends_transition)

text \<open>A spawn and what it returns.\<close>

lemma add_child_runs:
  assumes "tg_sink (graph s) = None"
  shows "add_child p n t s =
    (let now = isoformat (clock s (clock_reads s) div 1000);
         k = \<lparr>tn_spec = t, tn_state = AgentPending, tn_children = [], tn_result = None, tn_reason = None, tn_updated = now\<rparr>;
         n' = n\<lparr>tn_children := tn_children n @ [ts_task t], tn_updated := isoformat (clock s (Suc (clock_reads s)) div 1000)\<rparr> in
     copy_node k (s\<lparr>clock_reads := Suc (Suc (clock_reads s)),
       graph := graph s\<lparr>tg_nodes := dict_set p n' (dict_set (ts_task t) k (tg_nodes (graph s)))\<rparr>\<rparr>))"
  using emit_without_sink [of "s\<lparr>clock_reads := Suc (Suc (clock_reads s))\<rparr>"] assms
  by (simp add: add_child_def new_task_node_def clock_read bindE_def retE_def thenE_def Let_def update_nodes_def modifyE_def)

lemma add_child_result:
  assumes "tg_sink (graph s) = None" and "dict_get (tg_nodes (graph s)) p = Some n"
    and "dict_get (tg_nodes (graph s)) (ts_task t) = None"
  shows "respecs (graph s) (graph (snd (add_child p n t s)))"
    and "spec_ok t \<Longrightarrow> \<exists>k u. add_child p n t s = (Inr k, u) \<and> tn_spec k = t"
proof -
  let ?k = "\<lparr>tn_spec = t, tn_state = AgentPending, tn_children = [], tn_result = None, tn_reason = None,
    tn_updated = isoformat (clock s (clock_reads s) div 1000)\<rparr>"
  let ?n = "n\<lparr>tn_children := tn_children n @ [ts_task t],
    tn_updated := isoformat (clock s (Suc (clock_reads s)) div 1000)\<rparr>"
  let ?t = "s\<lparr>clock_reads := Suc (Suc (clock_reads s)),
    graph := graph s\<lparr>tg_nodes := dict_set p ?n (dict_set (ts_task t) ?k (tg_nodes (graph s)))\<rparr>\<rparr>"
  have run: "add_child p n t s = copy_node ?k ?t" using add_child_runs [OF assms(1), of p n t] by (simp add: Let_def)
  have "graph (snd (copy_node ?k ?t)) = graph ?t"
    by (rule copy_graph)
  then show "respecs (graph s) (graph (snd (add_child p n t s)))"
    unfolding run using assms(2,3) by (auto simp: respecs_def)
  show "\<exists>k u. add_child p n t s = (Inr k, u) \<and> tn_spec k = t" if "spec_ok t"
    unfolding run using that by (intro exI [of _ ?k] exI [of _ "copied ?t"]) (simp add: copy_node_ok node_ok_def)
qed

lemma spawn_result:
  assumes "sound s" and "tg_sink (graph s) = None" and "budget_given budget"
  shows "respecs (graph s) (graph (snd (spawn_task p objective budget caps constraints metadata s)))"
    and "spawn_task p objective budget caps constraints metadata s = (Inr k, u) \<Longrightarrow>
      \<exists>n b ks d raw. dict_get (tg_nodes (graph s)) p = Some n \<and> spawn_checks n budget caps = Inr (b, ks, d) \<and>
        spec_ok (tn_spec k) \<and> check_task_spec raw = Inr (tn_spec k) \<and> ts_budget raw = b \<and> ts_capabilities raw = ks \<and>
        sound_child n k"
proof -
  let ?run = "spawn_task p objective budget caps constraints metadata s"
  have ok: "graph_ok (graph s)" using assms(1) by (simp add: sound_def)
  have "respecs (graph s) (graph (snd ?run)) \<and> (\<forall>k u. ?run = (Inr k, u) \<longrightarrow> (\<exists>n b ks d raw.
      dict_get (tg_nodes (graph s)) p = Some n \<and> spawn_checks n budget caps = Inr (b, ks, d) \<and>
      spec_ok (tn_spec k) \<and> check_task_spec raw = Inr (tn_spec k) \<and> ts_budget raw = b \<and> ts_capabilities raw = ks \<and>
      sound_child n k))"
  proof (cases "dict_get (tg_nodes (graph s)) p")
    case None
    then have "get_task p s = (Inl (agent_invalid (''Unknown task: '' @ p)), s)" using get_task_ok [OF ok, of p] by simp
    then show ?thesis by (simp add: spawn_task_def bindE_def)
  next
    case (Some n)
    note key = task_key [OF ok Some]
    have get: "get_task p s = (Inr n, copied s)" using get_task_ok [OF ok, of p] Some by simp
    show ?thesis
    proof (cases "spawn_checks n budget caps")
      case (Inl e)
      then show ?thesis using get by (simp add: spawn_task_def bindE_def liftE_def raiseE_def)
    next
      case (Inr c)
      obtain b ks d where c: "c = (b, ks, d)" by (cases c)
      let ?spec = "new_task_spec (ts_child_run (tn_spec n)) objective b (Some p) constraints ks d
        (ts_max_depth (tn_spec n)) (ts_max_children (tn_spec n)) metadata"
      have run: "?run = bindE ?spec (add_child p n) (copied s)"
        using get Inr c by (simp add: spawn_task_def bindE_def liftE_def retE_def)
      obtain r v where new: "?spec (copied s) = (r, v)" by fastforce
      have v: "graph v = graph s" using quiet_graph [OF quiet_new_spec new] by simp
      have b: "budget_ok b"
        using Inr c key(4) assms(3)
        by (auto simp: spawn_checks_def Let_def node_ok_def spec_ok_def budget_given_def split: if_splits option.splits)
      show ?thesis
      proof (cases r)
        case (Inl e)
        then show ?thesis using run new v by (simp add: bindE_def)
      next
        case r: (Inr t)
        have copied: "sound (copied s)" using sound_quiet [OF assms(1) copied_graph(2)] .
        from new_task_spec_Inr [OF new [unfolded r] copied b] obtain raw where
          t: "drawn (ts_task t) v" "spec_ok t" "check_task_spec raw = Inr t" "ts_parent_run raw = ts_child_run (tn_spec n)"
            "ts_budget raw = b" "ts_parent_task raw = Some p" "ts_capabilities raw = ks" "ts_depth raw = d"
            "ts_max_depth raw = ts_max_depth (tn_spec n)" "ts_max_children raw = ts_max_children (tn_spec n)" by blast
        have at: "tg_sink (graph v) = None" "dict_get (tg_nodes (graph v)) p = Some n"
          "dict_get (tg_nodes (graph v)) (ts_task t) = None" using v assms(2) Some t(1) by (simp_all add: drawn_def)
        obtain k u where k: "add_child p n t v = (Inr k, u)" "tn_spec k = t" using add_child_result(2) [OF at t(2)] by blast
        have "?run = (Inr k, u)" using run new r k(1) by (simp add: bindE_def)
        moreover have "respecs (graph s) (graph u)" using add_child_result(1) [OF at] k(1) v by simp
        moreover have "sound_child n k"
          using child_of_checks [OF Inr [unfolded c] key(4,2,1) t(3-10) k(2)] .
        ultimately show ?thesis using Some Inr c t(2,3,5,7) k(2) by auto
      qed
    qed
  qed
  then show "respecs (graph s) (graph (snd ?run))" and "?run = (Inr k, u) \<Longrightarrow>
      \<exists>n b ks d raw. dict_get (tg_nodes (graph s)) p = Some n \<and> spawn_checks n budget caps = Inr (b, ks, d) \<and>
        spec_ok (tn_spec k) \<and> check_task_spec raw = Inr (tn_spec k) \<and> ts_budget raw = b \<and> ts_capabilities raw = ks \<and>
        sound_child n k" by blast+
qed

lemma tends_spawn: "budget_given budget \<Longrightarrow> tends (spawn_task p objective budget caps constraints metadata)"
  by (intro tendsI spawn_safe spawn_result(1))

section \<open>The table of graphs\<close>

definition table_kept :: "'z genv_scheme \<Rightarrow> 'z genv_scheme \<Rightarrow> bool" where
  "table_kept s t \<longleftrightarrow> graphs t = graphs s \<and> process_salt t = process_salt s \<and> last_tick s \<le> last_tick t"

interpretation kept: step_order table_kept
  by unfold_locales (auto simp: table_kept_def)

lemma kept_clock: "advances table_kept utc_now"
  by (simp add: advances_def clock_read table_kept_def)

lemma kept_new_id: "advances table_kept (new_id kind)"
  by (auto simp: advances_def new_id_def raiseE_def bindE_def time_ns_def Let_def table_kept_def)

lemma kept_get_graph: "advances table_kept get_graph"
  by (simp add: advances_def get_graph_def table_kept_def)

lemma kept_update: "advances table_kept (update_nodes f)"
  by (simp add: advances_def update_nodes_def modifyE_def table_kept_def)

lemma kept_roots: "advances table_kept (modifyE (\<lambda>s. s\<lparr>graph := f (graph s)\<rparr>))"
  by (simp add: advances_def modifyE_def table_kept_def)

lemma kept_call_sink: "advances table_kept (call_sink f e)"
  by (simp add: advances_def call_sink_def table_kept_def)

lemmas kept_rules = kept.advances_rules kept_clock kept_new_id kept_get_graph kept_update kept_roots kept_call_sink

lemma kept_emit: "advances table_kept (emit_task_event ty n reason)"
  unfolding emit_task_event_def new_event_def
  by (intro kept_rules) (auto split: option.split intro!: kept_rules)

lemma kept_copy: "advances table_kept (copy_node n)"
  unfolding copy_node_def task_node_from_dict_def task_spec_from_dict_def
  by (rule kept.advances_bindE, rule kept.advances_liftE, simp only: split_beta) (intro kept_rules)

lemma kept_get_task: "advances table_kept (get_task tid)"
  unfolding get_task_def by (intro kept_rules) (auto split: option.split intro!: kept_rules kept_copy)

lemma kept_new_spec: "advances table_kept (new_task_spec a b c d e f g h i j)"
  unfolding new_task_spec_def by (intro kept_rules)

lemma kept_new_node: "advances table_kept (new_task_node t)"
  unfolding new_task_node_def by (intro kept_rules)

lemmas kept_parts = kept_rules kept_emit kept_copy kept_get_task kept_new_spec kept_new_node

lemma kept_enter: "advances table_kept (enter_state tid n st reason r)"
  unfolding enter_state_def Let_def by (intro kept_parts)

lemma kept_transition: "advances table_kept (transition_task tid st reason result)"
  unfolding transition_task_def busy_children_def
  by (intro kept_parts kept_enter) (auto intro!: kept_parts kept_enter)

lemma kept_complete: "advances table_kept (complete_task tid summary artifacts metrics)"
  unfolding complete_task_def by (intro kept_parts kept_transition)

lemma kept_fail: "advances table_kept (fail_task tid err)"
  unfolding fail_task_def by (intro kept_parts kept_transition)

lemma kept_spawn: "advances table_kept (spawn_task p objective budget caps constraints metadata)"
  unfolding spawn_task_def add_child_def Let_def
  by (intro kept.advances_bindE kept_get_task kept.advances_liftE) (auto intro!: kept_parts)

lemma kept_create_root: "advances table_kept (create_root run objective budget caps constraints d c metadata)"
  unfolding create_root_def add_root_def
  by (intro kept.advances_bindE kept_new_spec kept_get_graph) (auto intro!: kept_parts)

end
