(* ===== verification/Subagent_Authority.thy ===== *)
theory Subagent_Authority
  imports Subagent_Facts
begin

text \<open>
  What the subagent tool keeps: every graph in its table satisfies the invariant and has a root with the
  tool's authority, whatever is asked of the tool, whatever its runners do to the rest of the state, and
  however several of its calls interleave.
\<close>

section \<open>Governed graphs\<close>

definition has_authority :: "subagent_authority \<Rightarrow> task_spec \<Rightarrow> bool" where
  "has_authority a t \<longleftrightarrow> ts_budget t = auth_budget a \<and> ts_capabilities t \<subseteq> strip ` auth_capabilities a \<and>
     ts_depth t = 0 \<and> ts_max_depth t = auth_max_depth a \<and> ts_max_children t = auth_max_children a"

definition governed :: "subagent_authority \<Rightarrow> task_graph \<Rightarrow> string \<Rightarrow> bool" where
  "governed a g r \<longleftrightarrow> tg_sink g = None \<and> tg_roots g = [r] \<and>
     (\<exists>n. dict_get (tg_nodes g) r = Some n \<and> has_authority a (tn_spec n))"

definition tool_ok :: "subagent_authority \<Rightarrow> 'z genv_scheme \<Rightarrow> bool" where
  "tool_ok a s \<longleftrightarrow> 0 \<le> last_tick s \<and> list_all (\<lambda>c. \<not> is_space c) (process_salt s) \<and>
     (\<forall>key g r. dict_get (graphs s) key = Some (g, r) \<longrightarrow> sound (s\<lparr>graph := g\<rparr>) \<and> governed a g r)"

text \<open>\<open>table_grows\<close>: no graph is lost or swapped, no task of it is lost, and no specification changes.\<close>

definition table_grows :: "'z genv_scheme \<Rightarrow> 'z genv_scheme \<Rightarrow> bool" where
  "table_grows s t \<longleftrightarrow> (\<forall>key g r. dict_get (graphs s) key = Some (g, r) \<longrightarrow>
     (\<exists>g'. dict_get (graphs t) key = Some (g', r) \<and> respecs g g'))"

lemma respecs_trans: "respecs a b \<Longrightarrow> respecs b c \<Longrightarrow> respecs a c"
  unfolding respecs_def by metis

lemma table_grows_same: "graphs t = graphs s \<Longrightarrow> table_grows s t"
  by (auto simp: table_grows_def)

lemma table_grows_trans: "table_grows a b \<Longrightarrow> table_grows b c \<Longrightarrow> table_grows a c"
  unfolding table_grows_def by (meson respecs_trans)

definition keeps_tool :: "subagent_authority \<Rightarrow> 'z genv_scheme \<Rightarrow> 'z genv_scheme \<Rightarrow> bool" where
  "keeps_tool a s t \<longleftrightarrow> (tool_ok a s \<longrightarrow> tool_ok a t \<and> table_grows s t)"

interpretation tool: step_order "keeps_tool a" for a
proof unfold_locales
  show "keeps_tool a s s" for s :: "'b genv_scheme" by (simp add: keeps_tool_def table_grows_same)
  show "keeps_tool a s u" if "keeps_tool a s t" "keeps_tool a t u" for s t u :: "'b genv_scheme"
    using that table_grows_trans unfolding keeps_tool_def by blast
qed

lemma governed_respects: "governed a g r \<Longrightarrow> respecs g g' \<Longrightarrow> governed a g' r"
  by (fastforce simp: governed_def respecs_def)

lemma tool_okD: "tool_ok a s \<Longrightarrow> dict_get (graphs s) key = Some (g, r) \<Longrightarrow> sound (s\<lparr>graph := g\<rparr>) \<and> governed a g r"
  unfolding tool_ok_def by blast

lemma sound_swap:
  "sound (s\<lparr>graph := g\<rparr>) \<longleftrightarrow> graph_ok g \<and> 0 \<le> last_tick s \<and> list_all (\<lambda>c. \<not> is_space c) (process_salt s) \<and>
     (\<forall>k > last_tick s. dict_get (tg_nodes g) (render_id ''task'' k (process_salt s)) = None)"
  by (simp add: sound_def)

lemma tool_ok_entry:
  assumes "tool_ok a s" and "process_salt t = process_salt s" and "last_tick s \<le> last_tick t"
    and "\<And>k g r. dict_get (graphs t) k = Some (g, r) \<Longrightarrow>
      dict_get (graphs s) k = Some (g, r) \<or> sound (t\<lparr>graph := g\<rparr>) \<and> governed a g r"
  shows "tool_ok a t"
  unfolding tool_ok_def
proof (intro conjI allI impI)
  show "0 \<le> last_tick t" "list_all (\<lambda>c. \<not> is_space c) (process_salt t)"
    using assms(1-3) by (simp_all add: tool_ok_def)
  fix k g r
  assume at: "dict_get (graphs t) k = Some (g, r)"
  from assms(4) [OF at] have "sound (t\<lparr>graph := g\<rparr>) \<and> governed a g r"
  proof
    assume "dict_get (graphs s) k = Some (g, r)"
    from tool_okD [OF assms(1) this] show ?thesis using assms(2,3) by (auto simp: sound_swap)
  qed
  then show "sound (t\<lparr>graph := g\<rparr>)" "governed a g r" by simp_all
qed

lemma tendsD: "tends m \<Longrightarrow> sound s \<Longrightarrow> tg_sink (graph s) = None \<Longrightarrow>
    sound (snd (m s)) \<and> respecs (graph s) (graph (snd (m s)))"
  by (simp add: tends_def)

text \<open>Working on one graph of the table.\<close>

lemma on_graph_keeps:
  assumes "tends m" and "advances table_kept m"
  shows "advances (keeps_tool a) (on_graph key m)"
  unfolding advances_def keeps_tool_def
proof (intro allI impI)
  fix s :: "'a genv_scheme"
  assume ok: "tool_ok a s"
  show "tool_ok a (snd (on_graph key m s)) \<and> table_grows s (snd (on_graph key m s))"
  proof (cases "dict_get (graphs s) key")
    case None
    then show ?thesis using ok by (simp add: on_graph_def table_grows_same)
  next
    case (Some p)
    obtain g r where p: "p = (g, r)" by (cases p)
    obtain x t where run: "m (s\<lparr>graph := g\<rparr>) = (x, t)" by fastforce
    have start: "sound (s\<lparr>graph := g\<rparr>)" "governed a g r" using tool_okD [OF ok] Some p by blast+
    then have moved: "sound t" "respecs g (graph t)"
      using tendsD [OF assms(1), of "s\<lparr>graph := g\<rparr>"] run by (simp_all add: governed_def)
    have kept: "graphs t = graphs s" "process_salt t = process_salt s" "last_tick s \<le> last_tick t"
      using advancesD [OF assms(2) run] by (simp_all add: table_kept_def)
    let ?u = "t\<lparr>graph := graph s, graphs := dict_set key (graph t, r) (graphs t)\<rparr>"
    have "tool_ok a ?u"
      by (rule tool_ok_entry [OF ok])
         (use kept moved governed_respects [OF start(2) moved(2)] in \<open>auto simp: sound_swap sound_def split: if_splits\<close>)
    moreover have "table_grows s ?u"
      using Some p kept(1) moved(2) by (auto simp: table_grows_def split: if_splits)
    ultimately show ?thesis using Some p run by (simp add: on_graph_def)
  qed
qed

section \<open>The graph of a new run\<close>

lemma add_root_runs:
  assumes "tg_sink (graph v) = None" and "spec_ok t"
  shows "add_root t v =
    (let k = \<lparr>tn_spec = t, tn_state = AgentPending, tn_children = [], tn_result = None, tn_reason = None,
           tn_updated = isoformat (clock v (clock_reads v) div 1000)\<rparr> in
     (Inr k, copied (v\<lparr>clock_reads := Suc (clock_reads v), graph := graph v\<lparr>tg_nodes := dict_set (ts_task t) k (tg_nodes (graph v)),
        tg_roots := tg_roots (graph v) @ [ts_task t]\<rparr>\<rparr>)))"
proof -
  let ?k = "\<lparr>tn_spec = t, tn_state = AgentPending, tn_children = [], tn_result = None, tn_reason = None,
    tn_updated = isoformat (clock v (clock_reads v) div 1000)\<rparr>"
  let ?v = "v\<lparr>clock_reads := Suc (clock_reads v)\<rparr>"
  let ?w = "?v\<lparr>graph := graph v\<lparr>tg_nodes := dict_set (ts_task t) ?k (tg_nodes (graph v)), tg_roots := tg_roots (graph v) @ [ts_task t]\<rparr>\<rparr>"
  have "add_root t v = copy_node ?k ?w"
    using emit_without_sink [of ?v] assms(1)
    by (simp add: add_root_def new_task_node_def clock_read bindE_def retE_def thenE_def Let_def update_nodes_def
        modifyE_def)
  moreover have "copy_node ?k ?w = (Inr ?k, copied ?w)" by (rule copy_node_ok) (simp add: node_ok_def assms(2))
  ultimately show ?thesis by (simp add: Let_def)
qed

lemma create_root_result:
  assumes "sound s" and "tg_sink (graph s) = None" and "tg_roots (graph s) = []" and "budget_ok b"
    and "create_root run objective b caps constraints d c metadata s = (Inr k, u)"
  shows "sound u \<and> tg_sink (graph u) = None \<and> tg_roots (graph u) = [ts_task (tn_spec k)] \<and>
    dict_get (tg_nodes (graph u)) (ts_task (tn_spec k)) = Some k \<and>
    ts_budget (tn_spec k) = b \<and> ts_capabilities (tn_spec k) \<subseteq> strip ` caps \<and> ts_depth (tn_spec k) = 0 \<and>
    ts_max_depth (tn_spec k) = d \<and> ts_max_children (tn_spec k) = c"
proof -
  let ?spec = "new_task_spec run objective b None constraints caps 0 d c metadata"
  obtain t v where new: "?spec s = (Inr t, v)"
    using assms(5) by (cases "?spec s"; cases "fst (?spec s)") (auto simp: create_root_def bindE_def)
  have v: "graph v = graph s" using quiet_graph [OF quiet_new_spec new] .
  from new_task_spec_Inr [OF new assms(1,4)] obtain raw where t: "spec_ok t" "check_task_spec raw = Inr t"
    "ts_budget raw = b" "ts_capabilities raw = caps" "ts_max_depth raw = d" "ts_max_children raw = c" "ts_depth raw = 0" by blast
  let ?k = "\<lparr>tn_spec = t, tn_state = AgentPending, tn_children = [], tn_result = None, tn_reason = None,
    tn_updated = isoformat (clock v (clock_reads v) div 1000)\<rparr>"
  have "create_root run objective b caps constraints d c metadata s = add_root t v"
    using new v assms(3) by (simp add: create_root_def bindE_def get_graph_def)
  then have k: "k = ?k" "graph u = graph v\<lparr>tg_nodes := dict_set (ts_task t) ?k (tg_nodes (graph v)), tg_roots := [ts_task t]\<rparr>"
    using assms(5) add_root_runs [of v t] v assms(2,3) t(1) by (auto simp: Let_def)
  have "sound u" using sound_after [OF create_root_safe assms(1)] assms(4,5) by (metis prod.sel(2))
  moreover note f = spec_fields_ok [OF t(2)]
  have "ts_capabilities t \<subseteq> strip ` caps" using capabilities_stripped(1) [OF f(7)] t(4) by simp
  ultimately show ?thesis using k v assms(2) f(10-15) t(3-7) by simp
qed

lemma new_run_graph_ok:
  assumes "budget_ok (auth_budget a)" and "sound s" and "tg_sink (graph s) = None" and "tg_roots (graph s) = []"
    and "new_run_graph a ctx s = (Inr r, u)"
  shows "sound u \<and> governed a (graph u) r"
proof -
  let ?root = "create_root (ctx_run ctx) ''parent run'' (auth_budget a) (auth_capabilities a) []
    (auth_max_depth a) (auth_max_children a) []"
  obtain k v where new: "?root s = (Inr k, v)"
    using assms(5) by (cases "?root s"; cases "fst (?root s)") (auto simp: new_run_graph_def bindE_def)
  note root = create_root_result [OF assms(2-4,1) new]
  obtain x w where run: "transition_task (ts_task (tn_spec k)) AgentRunning None None v = (x, w)" by fastforce
  have u: "u = w" "r = ts_task (tn_spec k)"
    using assms(5) new run by (auto simp: new_run_graph_def bindE_def retE_def split: sum.splits)
  have "governed a (graph v) r" using root u(2) by (simp add: governed_def has_authority_def)
  moreover have "respecs (graph v) (graph w)" "sound w"
    using transition_respecs [of v] sound_after [OF transition_safe, of v] root run by (metis prod.sel(2))+
  ultimately show ?thesis using u(1) governed_respects by blast
qed

lemma kept_new_run_graph: "advances table_kept (new_run_graph a ctx)"
  unfolding new_run_graph_def by (intro kept_rules kept_create_root kept_transition)

lemma graph_for_keeps:
  assumes "budget_ok (auth_budget a)"
  shows "advances (keeps_tool a) (graph_for a ctx)"
  unfolding advances_def keeps_tool_def
proof (intro allI impI)
  fix s :: "'a genv_scheme"
  assume ok: "tool_ok a s"
  let ?key = "(ctx_session ctx, ctx_run ctx)"
  let ?s = "s\<lparr>graph := new_task_graph (Some (ctx_session ctx)) None\<rparr>"
  obtain x t where run: "new_run_graph a ctx ?s = (x, t)" by fastforce
  have kept: "graphs t = graphs s" "process_salt t = process_salt s" "last_tick s \<le> last_tick t"
    using advancesD [OF kept_new_run_graph run] by (simp_all add: table_kept_def)
  show "tool_ok a (snd (graph_for a ctx s)) \<and> table_grows s (snd (graph_for a ctx s))"
  proof (cases "dict_get (graphs s) ?key")
    case (Some p)
    then show ?thesis using ok by (cases p) (simp add: graph_for_def table_grows_same)
  next
    case None
    show ?thesis
    proof (cases x)
      case (Inl e)
      have "tool_ok a (t\<lparr>graph := graph s\<rparr>)"
        by (rule tool_ok_entry [OF ok]) (use kept in auto)
      then show ?thesis using None run Inl kept(1) by (simp add: graph_for_def table_grows_same)
    next
      case (Inr r)
      let ?u = "t\<lparr>graph := graph s, graphs := dict_set ?key (graph t, r) (graphs t)\<rparr>"
      have "sound ?s" using ok by (simp add: sound_swap tool_ok_def new_task_graph_def graph_ok_def)
      then have made: "sound t" "governed a (graph t) r"
        using new_run_graph_ok [OF assms _ _ _ run [unfolded Inr]] by (simp_all add: new_task_graph_def)
      have "tool_ok a ?u"
        by (rule tool_ok_entry [OF ok])
           (use kept made in \<open>auto simp: sound_swap sound_def split: if_splits\<close>)
      moreover have "table_grows s ?u" using None kept(1) by (auto simp: table_grows_def)
      ultimately show ?thesis using None run Inr by (simp add: graph_for_def)
    qed
  qed
qed

section \<open>The tool\<close>

lemma child_budget_ok: "child_budget a inp = Inr b \<Longrightarrow> budget_ok b"
  by (auto simp: child_budget_def Let_def bindR_Inr_iff intro: make_budget_ok)

lemmas graph_work_keeps = tool.advances_rules on_graph_keeps tends_complete tends_fail tends_transition
  kept_complete kept_fail kept_transition

lemma commit_keeps: "advances (keeps_tool a) (commit_result key tid result)"
  unfolding commit_result_def Let_def by (auto intro!: graph_work_keeps)

lemma spawn_child_keeps: "advances (keeps_tool (sat_authority sub)) (spawn_child sub key r objective ty inp)"
proof -
  let ?spawn = "\<lambda>b caps. bindE (on_graph key (spawn_task r objective (Some b) (Some caps) []
    [(''agent_type'', JStr ty)])) (\<lambda>n. retE (Inr (tn_spec n)))"
  have spawn: "advances (keeps_tool (sat_authority sub)) (?spawn b caps)" if "budget_ok b" for b caps
    using that by (intro tool.advances_bindE tool.advances_retE on_graph_keeps tends_spawn kept_spawn)
      (simp add: budget_given_def)
  have "advances (keeps_tool (sat_authority sub)) (bindE (liftE (child_budget (sat_authority sub) inp)) (\<lambda>budget.
      bindE (liftE (capabilities_for sub ty inp)) (?spawn budget)))"
  proof (cases "child_budget (sat_authority sub) inp")
    case (Inl e)
    then show ?thesis by (simp add: liftE_def bindE_def raiseE_def advances_def tool.step_refl)
  next
    case (Inr b)
    have "advances (keeps_tool (sat_authority sub)) (bindE (liftE (capabilities_for sub ty inp)) (?spawn b))"
      by (rule tool.advances_bindE [OF tool.advances_liftE spawn [OF child_budget_ok [OF Inr]]])
    then show ?thesis using Inr by (simp add: liftE_def bindE_def retE_def)
  qed
  then show ?thesis
    unfolding spawn_child_def
    by (intro tool.advances_catchE)
       (auto split: exn.split exn_class.split intro!: tool.advances_retE tool.advances_raiseE)
qed

lemma run_spawned_keeps:
  "steps_in (keeps_tool a) (runner spec ctx) \<Longrightarrow> steps_in (keeps_tool a) (run_spawned sub key runner spec ctx)"
  unfolding run_spawned_def Let_def
  by (intro steps_in_rules tool.advances_rules on_graph_keeps tends_transition kept_transition)
     (auto split: sum.split intro!: tool.advances_rules on_graph_keeps tends_fail kept_fail commit_keeps)

lemma run_subagent_keeps:
  assumes "budget_ok (auth_budget (sat_authority sub))"
    and "\<And>name runner spec. dict_get (sat_runners sub) name = Some runner \<Longrightarrow>
      steps_in (keeps_tool (sat_authority sub)) (runner spec ctx)"
  shows "steps_in (keeps_tool (sat_authority sub)) (run_subagent sub inp ctx)"
proof -
  have "steps_in (keeps_tool (sat_authority sub)) (bindT (liftT (graph_for (sat_authority sub) ctx)) (\<lambda>root_id.
      bindT (liftT (spawn_child sub (ctx_session ctx, ctx_run ctx) root_id objective name inp)) (\<lambda>spawned.
        case spawned of Inl refusal \<Rightarrow> retT refusal
        | Inr spec \<Rightarrow> run_spawned sub (ctx_session ctx, ctx_run ctx) runner spec ctx)))"
    if "dict_get (sat_runners sub) name = Some runner" for objective name runner
    using assms that
    by (intro steps_in_rules graph_for_keeps spawn_child_keeps run_spawned_keeps) auto
  then show ?thesis
    unfolding run_subagent_def
    by (auto simp: Let_def intro!: steps_in_basic split: jval.split option.split)
qed

section \<open>The runner of the package\<close>

text \<open>Steps of a session: the identifiers go forward and the rest of the state, the table in it, stays.\<close>

definition ids_forward :: "'z env_scheme \<Rightarrow> 'z env_scheme \<Rightarrow> bool" where
  "ids_forward s t \<longleftrightarrow> process_salt t = process_salt s \<and> last_tick s \<le> last_tick t \<and> env.more t = env.more s"

interpretation ids: step_order ids_forward
  by unfold_locales (auto simp: ids_forward_def)

lemma graphs_more: "env.more t = env.more s \<Longrightarrow> graphs t = graphs s" for s t :: "'z genv_scheme"
  by (cases s; cases t) simp

lemma ids_forward_keeps: "advances ids_forward m \<Longrightarrow> advances (keeps_tool a) m"
  unfolding advances_def keeps_tool_def ids_forward_def
  by (metis graphs_more table_grows_same tool_ok_entry)

lemma forward_time: "advances ids_forward time_ns" "advances ids_forward token_hex"
  by (simp_all add: advances_def ids_forward_def time_ns_def token_hex_def)

lemma forward_new_id: "advances ids_forward (new_id kind)"
  by (cases "valid_id_kind kind")
    (simp_all add: new_id_def advances_def ids_forward_def time_ns_def eff_simps Let_def max_def)

lemma forward_state: "advances ids_forward get_self" "advances ids_forward (update_self f)"
  "advances ids_forward (on_store op)" "advances ids_forward (notify_observers ks es)"
  by (auto simp: advances_def ids_forward_def get_self_def update_self_def on_store_def notify_observers_def
      modifyE_def split: prod.split)

lemmas forward_rules = ids.advances_rules forward_time forward_new_id forward_state

lemma forward_decode: "advances ids_forward (decode_message_event v)"
  unfolding decode_message_event_def new_message_id_def by (auto intro!: forward_rules)

lemma forward_project: "advances ids_forward (project_messages es)"
proof -
  have "advances ids_forward (project_from msgs es)" for msgs
    by (induction es arbitrary: msgs)
       (auto simp: project_step_def intro!: forward_rules forward_decode split: jval.split option.split)
  then show ?thesis unfolding project_messages_def .
qed

lemma forward_validate: "advances ids_forward (validate_batch ms es)"
  by (induction es arbitrary: ms) (auto intro!: forward_rules forward_decode)

lemma forward_append: "advances ids_forward (append_new ty rid data)"
proof -
  have "advances ids_forward (absorb_event e)" for e
    unfolding absorb_event_def by (auto intro!: forward_rules forward_decode forward_project)
  then have "advances ids_forward (append_many es)" for es
    unfolding append_many_def by (auto intro!: forward_rules forward_validate)
  then show ?thesis
    unfolding append_new_def new_event_def append_event_def utc_now_def utc_datetime_def
    by (intro forward_rules)
qed

lemma child_run_steps:
  assumes "step_order R" and "\<And>s t. ids_forward s t \<Longrightarrow> R s t" and "\<And>spec. advances R (chr_session r spec ctx)"
    and "\<And>spec run model prompt c. chr_coordinator r spec = Inr run \<Longrightarrow> steps_in R (run spec model prompt c)"
  shows "steps_in R (child_run r spec ctx)"
proof -
  have forward: "advances R m" if "advances ids_forward m" for m :: "('a renv_scheme, 'b) sm"
    using that assms(2) by (simp add: advances_def)
  have same: "R s s" for s by (rule step_order.step_refl [OF assms(1)])
  have read: "advances R (\<lambda>s. (Inr (fresh_observer s), s))"
    by (simp add: advances_def same)
  have result: "advances R (\<lambda>s. liftE (f s) s)" for f :: "'a renv_scheme \<Rightarrow> exn + 'b"
    by (simp add: advances_def liftE_def raiseE_def retE_def same split: sum.split)
  have rules: "advances R (append_new ty rid data)" "advances R get_self" "advances R (update_self f)" for ty rid data f
    by (rule forward, rule forward_append) (rule forward, rule forward_state)+
  have known: "steps_in R (bindT (liftT (liftE x)) f)" if "\<And>y. x = Inr y \<Longrightarrow> steps_in R (f y)"
    for x :: "exn + 'b" and f :: "'b \<Rightarrow> ('a renv_scheme, 'c) task"
    using that
    by (cases x) (auto simp: liftT_def liftE_def retE_def raiseE_def same intro: steps_in_basic)
  show ?thesis
    unfolding child_run_def finish_child_def add_event_observer_def
    by (intro known steps_in_rules step_order.advances_rules [OF assms(1)] assms(3,4) read result rules)
qed

text \<open>A runner that leaves the tool's table alone leaves it governed.\<close>

lemma table_kept_keeps: "table_kept s t \<Longrightarrow> keeps_tool a s t"
  unfolding table_kept_def keeps_tool_def by (metis table_grows_same tool_ok_entry)

lemma steps_in_mono: "steps_in R t \<Longrightarrow> (\<And>s u. R s u \<Longrightarrow> Q s u) \<Longrightarrow> steps_in Q t"
proof (induction t)
  case (Do g)
  have "steps_in Q (fst (g s))" for s
    by (rule Do.IH [OF rangeI [of g s]]) (use Do.prems in \<open>auto simp: fsts.simps steps_in_Do simp del: steps_in.simps\<close>)
  then show ?case using Do.prems by (simp add: steps_in_Do del: steps_in.simps)
qed simp_all

section \<open>What a child is given\<close>

lemma catchE_result:
  assumes "catchE m h s = (Inr x, t)" and "\<And>e u v. h e u \<noteq> (Inr x, v)"
  shows "m s = (Inr x, t)"
  using assms by (auto simp: catchE_def split: prod.splits sum.splits)

lemma spawn_child_Inr:
  assumes "spawn_child sub key r objective ty inp s = (Inr (Inr t), s')"
  shows "\<exists>b caps n. child_budget (sat_authority sub) inp = Inr b \<and> capabilities_for sub ty inp = Inr caps \<and>
    on_graph key (spawn_task r objective (Some b) (Some caps) [] [(''agent_type'', JStr ty)]) s = (Inr n, s') \<and>
    t = tn_spec n"
proof -
  have "bindE (liftE (child_budget (sat_authority sub) inp)) (\<lambda>budget.
      bindE (liftE (capabilities_for sub ty inp)) (\<lambda>caps.
      bindE (on_graph key (spawn_task r objective (Some budget) (Some caps) [] [(''agent_type'', JStr ty)]))
        (\<lambda>n. retE (Inr (tn_spec n))))) s = (Inr (Inr t :: tool_execution_result + task_spec), s')"
    by (rule catchE_result [OF assms [unfolded spawn_child_def]])
       (auto simp: retE_def raiseE_def split: exn.split exn_class.split)
  then show ?thesis unfolding bindE_eq_Inr liftE_eq_Inr by (auto simp: retE_def)
qed

lemma on_graph_Inr:
  "on_graph key m s = (Inr n, t) \<Longrightarrow> dict_get (graphs s) key = Some (g, r) \<Longrightarrow> \<exists>u. m (s\<lparr>graph := g\<rparr>) = (Inr n, u)"
  by (auto simp: on_graph_def split: prod.splits)

lemma spawn_child_gives:
  assumes "tool_ok a s" and "dict_get (graphs s) key = Some (g, r)" and "sat_authority sub = a"
    and "spawn_child sub key r objective ty inp s = (Inr (Inr t), s')"
  shows "\<exists>caps b. capabilities_for sub ty inp = Inr caps \<and> child_budget a inp = Inr b \<and>
    ts_capabilities t \<subseteq> strip ` caps \<and> ts_capabilities t \<subseteq> strip ` auth_capabilities a \<and> ts_budget t = b \<and>
    budget_within b (auth_budget a) \<and> ts_parent_task t = Some r \<and> ts_depth t = 1 \<and> 1 \<le> auth_max_depth a"
proof -
  from spawn_child_Inr [OF assms(4)] obtain b caps k where b: "child_budget a inp = Inr b"
    and caps: "capabilities_for sub ty inp = Inr caps"
    and spawned: "on_graph key (spawn_task r objective (Some b) (Some caps) [] [(''agent_type'', JStr ty)]) s = (Inr k, s')"
    and k: "tn_spec k = t" unfolding assms(3) by blast
  from on_graph_Inr [OF spawned assms(2)] obtain v where
    run: "spawn_task r objective (Some b) (Some caps) [] [(''agent_type'', JStr ty)] (s\<lparr>graph := g\<rparr>) = (Inr k, v)" by blast
  have graph: "sound (s\<lparr>graph := g\<rparr>)" "governed a g r" using tool_okD [OF assms(1,2)] by blast+
  have at: "tg_sink (graph (s\<lparr>graph := g\<rparr>)) = None" "budget_given (Some b)"
    using graph(2) child_budget_ok [OF b] by (simp_all add: governed_def budget_given_def)
  from spawn_result(2) [OF graph(1) at run] obtain n b' ks d raw where
    n: "dict_get (tg_nodes g) r = Some n" "spawn_checks n (Some b) (Some caps) = Inr (b', ks, d)"
      "check_task_spec raw = Inr (tn_spec k)" "ts_budget raw = b'" "ts_capabilities raw = ks" "sound_child n k" by auto
  note f = spec_fields_ok [OF n(3)]
  have root: "has_authority a (tn_spec n)" "ts_task (tn_spec n) = r"
    using graph n(1) task_key(1) [of g r n] by (auto simp: governed_def sound_def)
  have checks: "b' = b" "ks = caps" "budget_within b (ts_budget (tn_spec n))" "d \<le> ts_max_depth (tn_spec n)"
    "d = ts_depth (tn_spec n) + 1"
    using n(2) by (auto simp: spawn_checks_def Let_def split: if_splits)
  have "ts_capabilities t \<subseteq> strip ` caps" using capabilities_stripped(1) [OF f(7)] n(5) checks(2) k by simp
  moreover have "ts_capabilities t \<subseteq> ts_capabilities (tn_spec n)" "ts_parent_task t = Some r"
    "ts_depth t = ts_depth (tn_spec n) + 1"
    using n(6) k root(2) by (simp_all add: sound_child_def Let_def)
  ultimately show ?thesis
    using b caps root(1) checks f(15) n(4) k by (auto simp: has_authority_def)
qed

lemma graph_for_entry:
  "graph_for a ctx s = (Inr r, t) \<Longrightarrow> \<exists>g. dict_get (graphs t) (ctx_session ctx, ctx_run ctx) = Some (g, r)"
  by (auto simp: graph_for_def split: option.splits prod.splits sum.splits)

section \<open>Several calls at once\<close>

lemma run_slice_run: "run_task (fst (run_slice t s)) (snd (run_slice t s)) = run_task t s"
proof (induction t arbitrary: s)
  case (Do g)
  have "run_task (fst (run_slice (fst (g s)) u)) (snd (run_slice (fst (g s)) u)) = run_task (fst (g s)) u" for u
    by (rule Do.IH [OF rangeI [of g s]]) (simp add: fsts.simps)
  then show ?case by (simp add: split_beta)
qed simp_all

lemma wake_run: "run_task (fst (wake t s)) (snd (wake t s)) = run_task t s"
proof (cases t)
  case (Do g)
  then show ?thesis using run_slice_run [of t s] by (simp only: wake.simps)
next
  case (Yield u)
  then show ?thesis using run_slice_run [of u s] by (simp only: wake.simps run_task.simps)
qed simp

text \<open>One task gathered is the task.\<close>

lemma gather_one: "run_task (gather pick [t]) s = bindE (run_task t) (\<lambda>x. retE [x]) s"
proof (induction t arbitrary: s rule: wf_induct_rule [OF wf_trancl [OF wf_task_sub]])
  case (1 t)
  show ?case
  proof (cases "is_done t")
    case True
    then obtain r where "t = Ret r" by (cases t) simp_all
    then show ?thesis
      by (cases r; subst gather.simps) (simp_all add: List.map_filter_def live_def bindE_def retE_def)
  next
    case False
    then have none: "raised t = None" "live [t] = [0]"
      by (cases t; simp add: live_def)+
    have "run_task (gather pick [t]) s = run_task (gather pick [fst (wake t s)]) (snd (wake t s))"
      by (subst gather.simps) (simp add: none Let_def)
    also have "\<dots> = bindE (run_task (fst (wake t s))) (\<lambda>x. retE [x]) (snd (wake t s))"
      by (rule 1) (rule wake_sub [OF False])
    also have "\<dots> = bindE (run_task t) (\<lambda>x. retE [x]) s"
      by (simp add: bindE_def wake_run)
    finally show ?thesis .
  qed
qed

lemma subagents_keep:
  assumes "budget_ok (auth_budget (sat_authority sub))"
    and "\<And>name runner spec ctx. dict_get (sat_runners sub) name = Some runner \<Longrightarrow> steps_in table_kept (runner spec ctx)"
  shows "steps_in (keeps_tool (sat_authority sub)) (gather pick (map (\<lambda>(inp, ctx). run_subagent sub inp ctx) calls))"
proof (rule tool.steps_in_gather)
  fix t
  assume "t \<in> set (map (\<lambda>(inp, ctx). run_subagent sub inp ctx) calls)"
  then obtain inp ctx where t: "t = run_subagent sub inp ctx" by auto
  have "steps_in (keeps_tool (sat_authority sub)) (runner spec ctx)"
    if "dict_get (sat_runners sub) name = Some runner" for name runner spec
    using steps_in_mono [OF assms(2) [OF that] table_kept_keeps] .
  then show "steps_in (keeps_tool (sat_authority sub)) t" unfolding t by (intro run_subagent_keeps assms(1))
qed

end
