(* ===== verification/Graph_Histories.thy ===== *)
theory Graph_Histories
  imports Subagent_Authority
begin

text \<open>
  What any use of a task graph leaves true, with or without an event sink: through every operation but
  restore each task keeps its specification, moves only along the transition table, never loses a child,
  and does not change once it has ended; the invariant survives a restore as well.
\<close>

section \<open>Lawful changes\<close>

definition moves :: "(agent_state \<times> agent_state) set" where
  "moves = {(a, b). b \<in> agent_transitions a}"

definition lawful_node :: "task_node \<Rightarrow> task_node \<Rightarrow> bool" where
  "lawful_node n n' \<longleftrightarrow> tn_spec n' = tn_spec n \<and> (tn_state n, tn_state n') \<in> moves\<^sup>* \<and>
     (\<exists>cs. tn_children n' = tn_children n @ cs) \<and> (agent_terminal (tn_state n) \<longrightarrow> n' = n)"

lemma lawful_node_refl [simp]: "lawful_node n n"
  by (simp add: lawful_node_def)

lemma lawful_node_trans: "lawful_node a b \<Longrightarrow> lawful_node b c \<Longrightarrow> lawful_node a c"
  unfolding lawful_node_def by (metis append.assoc rtrancl_trans)

definition lawful :: "'z genv_scheme \<Rightarrow> 'z genv_scheme \<Rightarrow> bool" where
  "lawful s t \<longleftrightarrow> (sound s \<longrightarrow> sound t \<and>
     (\<forall>tid n. dict_get (nodes_of s) tid = Some n \<longrightarrow> (\<exists>n'. dict_get (nodes_of t) tid = Some n' \<and> lawful_node n n')))"

lemma lawful_trans:
  assumes "lawful a b" and "lawful b c"
  shows "lawful a c"
  unfolding lawful_def
proof (intro impI conjI allI)
  assume a: "sound a"
  with assms show "sound c" by (simp add: lawful_def)
  fix tid n
  assume "dict_get (nodes_of a) tid = Some n"
  with a assms(1) obtain m where m: "dict_get (nodes_of b) tid = Some m" "lawful_node n m" "sound b"
    unfolding lawful_def by blast
  with assms(2) show "\<exists>n'. dict_get (nodes_of c) tid = Some n' \<and> lawful_node n n'"
    unfolding lawful_def using lawful_node_trans by blast
qed

interpretation lawful: step_order lawful
proof unfold_locales
  show "lawful s s" for s :: "'a genv_scheme" by (simp add: lawful_def)
qed (rule lawful_trans)

lemma quiet_lawful: "advances quiet m \<Longrightarrow> advances lawful m"
  unfolding advances_def lawful_def using sound_quiet by (auto simp: quiet_def)

text \<open>A stored node that the table allows.\<close>

lemma enter_state_effect:
  "graph (snd (enter_state tid n st reason r s)) = graph s \<or>
   (\<exists>now. graph (snd (enter_state tid n st reason r s)) = graph s\<lparr>tg_nodes := dict_set tid
      (n\<lparr>tn_state := st, tn_result := r, tn_reason := reason, tn_updated := now\<rparr>) (nodes_of s)\<rparr>)"
proof -
  obtain now s1 where now: "utc_now s = (Inr now, s1)" "graph s1 = graph s" by (simp add: clock_read)
  let ?new = "n\<lparr>tn_state := st, tn_result := r, tn_reason := reason, tn_updated := now\<rparr>"
  let ?ty = "if st = AgentRunning then ''subagent.started'' else ''subagent.'' @ agent_state_text st"
  obtain x s2 where emit: "emit_task_event ?ty ?new reason s1 = (x, s2)" by fastforce
  then have s2: "graph s2 = graph s" using quiet_graph [OF quiet_emit] now(2) by metis
  show ?thesis
  proof (cases x)
    case (Inl e)
    then show ?thesis using now emit s2 by (simp add: enter_state_def bindE_def thenE_def Let_def)
  next
    case (Inr u)
    let ?t = "s2\<lparr>graph := (graph s2)\<lparr>tg_nodes := dict_set tid ?new (nodes_of s2)\<rparr>\<rparr>"
    have "graph (snd (enter_state tid n st reason r s)) = graph (snd (copy_node ?new ?t))"
      using now emit Inr by (simp add: enter_state_def bindE_def thenE_def Let_def update_nodes_def modifyE_def)
    then show ?thesis using copy_graph [of ?new ?t] s2 by auto
  qed
qed

lemma transition_lawful: "advances lawful (transition_task tid st reason result)"
  unfolding advances_def
proof
  fix s :: "'a genv_scheme"
  let ?run = "transition_task tid st reason result s"
  have sound: "sound (snd ?run)" if "sound s" by (rule sound_after [OF transition_safe that])
  have "\<exists>n'. dict_get (nodes_of (snd ?run)) x = Some n' \<and> lawful_node m n'"
    if s: "sound s" and x: "dict_get (nodes_of s) x = Some m" for x m
  proof (cases "dict_get (nodes_of s) tid")
    case None
    then have "get_task tid s = (Inl (agent_invalid (''Unknown task: '' @ tid)), s)"
      using get_task_ok [of s tid] s by (simp add: sound_def)
    then show ?thesis using x by (simp add: transition_task_def bindE_def)
  next
    case (Some n)
    have get: "get_task tid s = (Inr n, copied s)" using get_task_ok [of s tid] s Some by (simp add: sound_def)
    obtain b u where busy: "andE (st = AgentCompleted) (busy_children n) (copied s) = (b, u)" by fastforce
    have u: "graph u = graph s"
      using quiet_graph [OF quiet.advances_andE [OF quiet_busy] busy] by simp
    have step: "\<exists>n'. dict_get (nodes_of (snd (enter_state tid n st reason r u))) x = Some n' \<and> lawful_node m n'"
      if allowed: "st \<in> agent_transitions (tn_state n)" for r
    proof -
      have "lawful_node n (n\<lparr>tn_state := st, tn_result := r, tn_reason := reason, tn_updated := now\<rparr>)" for now
        using allowed by (cases "tn_state n") (auto simp: lawful_node_def moves_def agent_terminal_def)
      then show ?thesis using enter_state_effect [of tid n st reason r u] u x Some by auto
    qed
    show ?thesis
    proof (cases "st \<in> agent_transitions (tn_state n)")
      case False
      then show ?thesis using get x by (simp add: transition_task_def bindE_def raiseE_def)
    next
      case True
      then show ?thesis
        using get busy u x step [OF True]
        by (cases b; cases "transition_result tid st reason result")
           (auto simp: transition_task_def bindE_def liftE_def raiseE_def retE_def)
    qed
  qed
  with sound show "lawful s (snd ?run)" unfolding lawful_def by blast
qed

text \<open>A spawn changes its parent's children, a root is only made in an empty graph.\<close>

lemma add_child_effect:
  "graph (snd (add_child p n t s)) = graph s \<or>
   (\<exists>now k. graph (snd (add_child p n t s)) = graph s\<lparr>tg_nodes := dict_set p
      (n\<lparr>tn_children := tn_children n @ [ts_task t], tn_updated := now\<rparr>) (dict_set (ts_task t) k (nodes_of s))\<rparr>)"
proof -
  obtain k s1 where k: "new_task_node t s = (Inr k, s1)" "graph s1 = graph s"
    by (simp add: new_task_node_def clock_read bindE_def retE_def)
  obtain now s2 where now: "utc_now s1 = (Inr now, s2)" "graph s2 = graph s" using k(2) by (simp add: clock_read)
  let ?n = "n\<lparr>tn_children := tn_children n @ [ts_task t], tn_updated := now\<rparr>"
  obtain x s3 where emit: "emit_task_event ''subagent.spawned'' k None s2 = (x, s3)" by fastforce
  then have s3: "graph s3 = graph s" using quiet_graph [OF quiet_emit] now(2) by metis
  show ?thesis
  proof (cases x)
    case (Inl e)
    then show ?thesis using k now emit s3 by (simp add: add_child_def bindE_def thenE_def Let_def)
  next
    case (Inr u)
    let ?t = "s3\<lparr>graph := (graph s3)\<lparr>tg_nodes := dict_set p ?n (dict_set (ts_task t) k (nodes_of s3))\<rparr>\<rparr>"
    have "graph (snd (add_child p n t s)) = graph (snd (copy_node k ?t))"
      using k now emit Inr
      by (simp add: add_child_def bindE_def thenE_def Let_def update_nodes_def modifyE_def)
    then show ?thesis using copy_graph [of k ?t] s3 by auto
  qed
qed

lemma spawn_lawful:
  assumes "budget_given budget"
  shows "advances lawful (spawn_task p objective budget caps constraints metadata)"
  unfolding advances_def
proof
  fix s :: "'a genv_scheme"
  let ?run = "spawn_task p objective budget caps constraints metadata s"
  have sound: "sound (snd ?run)" if "sound s" by (rule sound_after [OF spawn_safe [OF assms] that])
  have "\<exists>n'. dict_get (nodes_of (snd ?run)) x = Some n' \<and> lawful_node m n'"
    if s: "sound s" and x: "dict_get (nodes_of s) x = Some m" for x m
  proof (cases "dict_get (nodes_of s) p")
    case None
    then have "get_task p s = (Inl (agent_invalid (''Unknown task: '' @ p)), s)"
      using get_task_ok [of s p] s by (simp add: sound_def)
    then show ?thesis using x by (simp add: spawn_task_def bindE_def)
  next
    case (Some n)
    have ok: "graph_ok (graph s)" using s by (simp add: sound_def)
    have get: "get_task p s = (Inr n, copied s)" using get_task_ok [OF ok, of p] Some by simp
    show ?thesis
    proof (cases "spawn_checks n budget caps")
      case (Inl e)
      then show ?thesis using get x by (simp add: spawn_task_def bindE_def liftE_def raiseE_def)
    next
      case (Inr c)
      obtain b ks d where c: "c = (b, ks, d)" by (cases c)
      have busy: "\<not> agent_terminal (tn_state n)" and b: "budget_ok b"
        using Inr c task_key(4) [OF ok Some] assms
        by (auto simp: spawn_checks_def Let_def agent_terminal_def node_ok_def spec_ok_def budget_given_def
            split: if_splits option.splits)
      let ?spec = "new_task_spec (ts_child_run (tn_spec n)) objective b (Some p) constraints ks d
        (ts_max_depth (tn_spec n)) (ts_max_children (tn_spec n)) metadata"
      obtain r v where new: "?spec (copied s) = (r, v)" by fastforce
      have v: "graph v = graph s" using quiet_graph [OF quiet_new_spec new] by simp
      have run: "?run = bindE ?spec (add_child p n) (copied s)"
        using get Inr c by (simp add: spawn_task_def bindE_def liftE_def retE_def)
      show ?thesis
      proof (cases r)
        case (Inl e)
        then show ?thesis using run new v x by (simp add: bindE_def)
      next
        case r: (Inr t)
        have "sound (copied s)" using sound_quiet [OF s copied_graph(2)] .
        from new_task_spec_Inr [OF new [unfolded r] this b] have "dict_get (nodes_of s) (ts_task t) = None"
          using v by (simp add: drawn_def)
        moreover have "lawful_node n (n\<lparr>tn_children := tn_children n @ [ts_task t], tn_updated := now\<rparr>)" for now
          using busy by (simp add: lawful_node_def)
        ultimately show ?thesis
          using run new r add_child_effect [of p n t v] v x Some by (auto simp: bindE_def)
      qed
    qed
  qed
  with sound show "lawful s (snd ?run)" unfolding lawful_def by blast
qed

lemma create_root_lawful:
  assumes "budget_ok budget"
  shows "advances lawful (create_root parent_run objective budget caps constraints d c metadata)"
  unfolding advances_def
proof
  fix s :: "'a genv_scheme"
  let ?run = "create_root parent_run objective budget caps constraints d c metadata s"
  let ?spec = "new_task_spec parent_run objective budget None constraints caps 0 d c metadata"
  obtain r v where new: "?spec s = (r, v)" by fastforce
  have v: "graph v = graph s" using quiet_graph [OF quiet_new_spec new] .
  have "graph (snd ?run) = graph s" if "tg_roots (graph s) \<noteq> []"
    using that new v by (cases r) (simp_all add: create_root_def bindE_def get_graph_def raiseE_def)
  moreover have "nodes_of s = []" if "sound s" "tg_roots (graph s) = []"
    using that by (auto simp: sound_def graph_ok_def)
  ultimately have "\<exists>n'. dict_get (nodes_of (snd ?run)) x = Some n' \<and> lawful_node m n'"
    if "sound s" "dict_get (nodes_of s) x = Some m" for x m
    using that by (cases "tg_roots (graph s) = []") auto
  with sound_after [OF create_root_safe [OF assms]] show "lawful s (snd ?run)" unfolding lawful_def by blast
qed

text \<open>The operations made of these.\<close>

lemmas lawful_rules = lawful.advances_rules transition_lawful quiet_get_task [THEN quiet_lawful]

lemma interrupt_below_lawful: "advances lawful (interrupt_below fuel reason tid)"
  by (induction fuel arbitrary: tid) (auto intro!: lawful_rules)

lemma cancel_below_lawful: "advances lawful (cancel_below fuel reason tid)"
  by (induction fuel arbitrary: tid) (auto intro!: lawful_rules)

lemma fuel_lawful: "advances lawful graph_fuel"
  by (rule quiet_lawful) (unfold graph_fuel_def, intro quiet_rules)

lemma operations_lawful:
  "advances lawful (complete_task tid summary artifacts metrics)" "advances lawful (fail_task tid err)"
  "advances lawful (resume_task tid)" "advances lawful (transition_named tid name reason result)"
  "advances lawful (interrupt_task tid why)" "advances lawful (cancel_task tid why)"
  unfolding complete_task_def fail_task_def resume_task_def transition_named_def interrupt_task_def cancel_task_def
  by (auto intro!: lawful_rules fuel_lawful interrupt_below_lawful cancel_below_lawful split: sum.split)

section \<open>Histories\<close>

text \<open>
  One use of the graph, whether it returns or raises: an operation of the graph, or anything that leaves
  the graph alone and draws identifiers only forward. A budget an operation is given is one that its
  constructor accepts.
\<close>

inductive graph_step :: "'z genv_scheme \<Rightarrow> 'z genv_scheme \<Rightarrow> bool" where
  root: "budget_ok b \<Longrightarrow> create_root run objective b caps constraints d c metadata s = (x, t) \<Longrightarrow> graph_step s t"
| spawn: "budget_given b \<Longrightarrow> spawn_task p objective b caps constraints metadata s = (x, t) \<Longrightarrow> graph_step s t"
| move: "transition_task tid st reason result s = (x, t) \<Longrightarrow> graph_step s t"
| move_named: "transition_named tid name reason result s = (x, t) \<Longrightarrow> graph_step s t"
| complete: "complete_task tid summary artifacts metrics s = (x, t) \<Longrightarrow> graph_step s t"
| fail: "fail_task tid err s = (x, t) \<Longrightarrow> graph_step s t"
| resume: "resume_task tid s = (x, t) \<Longrightarrow> graph_step s t"
| interrupt: "interrupt_task tid reason s = (x, t) \<Longrightarrow> graph_step s t"
| cancel: "cancel_task tid reason s = (x, t) \<Longrightarrow> graph_step s t"
| other: "quiet s t \<Longrightarrow> graph_step s t"

lemma graph_step_lawful: "graph_step s t \<Longrightarrow> lawful s t"
proof (induction rule: graph_step.induct)
  case (other s t)
  then show ?case using sound_quiet by (auto simp: lawful_def quiet_def)
qed (blast intro: advancesD create_root_lawful spawn_lawful transition_lawful operations_lawful)+

lemma history_lawful: "graph_step\<^sup>*\<^sup>* s t \<Longrightarrow> lawful s t"
  by (induction rule: rtranclp_induct) (blast intro: lawful.step_refl lawful.step_trans graph_step_lawful)+

text \<open>
  Any use at all: also a restore, which puts another graph in the place of this one. The tasks need not be
  the same afterwards, but what the invariant says of them is.
\<close>

inductive graph_use :: "'z genv_scheme \<Rightarrow> 'z genv_scheme \<Rightarrow> bool" where
  operation: "graph_step s t \<Longrightarrow> graph_use s t"
| restore: "known_snapshot s p \<Longrightarrow> restore_graph p s = (x, t) \<Longrightarrow> graph_use s t"

lemma use_sound: "graph_use s t \<Longrightarrow> sound s \<Longrightarrow> sound t"
  by (induction rule: graph_use.induct) (auto dest: graph_step_lawful restore_sound simp: lawful_def)

lemma uses_sound: "graph_use\<^sup>*\<^sup>* s t \<Longrightarrow> sound s \<Longrightarrow> sound t"
  by (induction rule: rtranclp_induct) (auto intro: use_sound)

lemma history_uses: "graph_step\<^sup>*\<^sup>* s t \<Longrightarrow> graph_use\<^sup>*\<^sup>* s t"
  by (rule rtranclp_mono [THEN predicate2D, rotated]) (auto intro: graph_use.operation)

text \<open>A transition into a state that is no end, without a sink, in full.\<close>

lemma transition_runs:
  assumes "sound s" and "tg_sink (graph s) = None" and "dict_get (nodes_of s) tid = Some n"
    and "st \<in> agent_transitions (tn_state n)" and "\<not> agent_terminal st"
  shows "transition_task tid st reason None s =
    (let n' = n\<lparr>tn_state := st, tn_result := None, tn_reason := reason,
           tn_updated := isoformat (clock s (Suc (Suc (clock_reads s))) div 1000)\<rparr> in
     (Inr n', copied (s\<lparr>clock_reads := Suc (Suc (Suc (clock_reads s))),
        graph := graph s\<lparr>tg_nodes := dict_set tid n' (nodes_of s)\<rparr>\<rparr>)))"
proof -
  have ok: "graph_ok (graph s)" using assms(1) by (simp add: sound_def)
  note key = task_key [OF ok assms(3)]
  have get: "get_task tid s = (Inr n, copied s)" using get_task_ok [OF ok, of tid] assms(3) by simp
  let ?n' = "n\<lparr>tn_state := st, tn_result := None, tn_reason := reason,
    tn_updated := isoformat (clock s (Suc (Suc (clock_reads s))) div 1000)\<rparr>"
  let ?s = "s\<lparr>clock_reads := Suc (Suc (Suc (clock_reads s)))\<rparr>"
  let ?t = "?s\<lparr>graph := graph s\<lparr>tg_nodes := dict_set tid ?n' (nodes_of s)\<rparr>\<rparr>"
  have "copy_node ?n' ?t = (Inr ?n', copied ?t)" using key(4) by (intro copy_node_ok) (simp add: node_ok_def)
  then show ?thesis
    using get assms(4,5) emit_without_sink [of ?s] assms(2)
    by (simp add: transition_task_def transition_result_def enter_state_def bindE_def liftE_def retE_def andE_def
        clock_read Let_def thenE_def update_nodes_def modifyE_def copied_def agent_terminal_def)
qed

end
