(* ===== verification/Agent_Properties.thy ===== *)
theory Agent_Properties
  imports Runtime_Properties Graph_Histories
begin

text \<open>The properties of task graphs and of the subagents that work on them.\<close>

section \<open>A process with an empty graph\<close>

definition demo_genv :: genv where
  "demo_genv = renv.extend demo_renv \<lparr>graph = new_task_graph (Some ''ses_1'') None, emitted = [], graphs = []\<rparr>"

definition demo_budget :: agent_budget where
  "demo_budget = \<lparr>bud_tokens = 100, bud_cost = None, bud_timeout = 60, bud_calls = 5\<rparr>"

abbreviation demo_root_id :: string where
  "demo_root_id \<equiv> ''task_0000000000000007ab''"

abbreviation demo_child_id :: string where
  "demo_child_id \<equiv> ''task_0000000000000009ab''"

definition demo_spec :: task_spec where
  "demo_spec = \<lparr>ts_parent_run = ''run_1'', ts_objective = ''parent run'', ts_budget = demo_budget,
     ts_task = demo_root_id, ts_child_run = ''run_0000000000000008ab'', ts_parent_task = None,
     ts_constraints = [], ts_capabilities = {''fs.read''}, ts_depth = 0, ts_max_depth = 2, ts_max_children = 3,
     ts_metadata = [], ts_created = isoformat 0\<rparr>"

definition demo_child_spec :: task_spec where
  "demo_child_spec = demo_spec\<lparr>ts_parent_run := ''run_0000000000000008ab'', ts_objective := ''look'',
     ts_task := demo_child_id, ts_child_run := ''run_000000000000000aab'', ts_parent_task := Some demo_root_id,
     ts_depth := 1, ts_metadata := [(''agent_type'', JStr ''general'')]\<rparr>"

lemma demo_task_ids: "render_id ''task'' 7 ''ab'' = demo_root_id" "render_id ''run'' 8 ''ab'' = ''run_0000000000000008ab''"
  "render_id ''task'' 9 ''ab'' = demo_child_id" "render_id ''run'' 10 ''ab'' = ''run_000000000000000aab''"
  by code_simp+

lemma task_kinds: "valid_id_kind ''task''" "valid_id_kind ''run''"
  by code_simp+

lemma demo_specs_checked: "check_task_spec demo_spec = Inr demo_spec" "check_task_spec demo_child_spec = Inr demo_child_spec"
  by (simp_all add: check_task_spec_def demo_child_spec_def demo_spec_def agent_text_def blank_def strip_def
      is_space_def agent_capabilities_def agent_strings_def agent_json_object_def)

lemma demo_specs_ok: "spec_ok demo_spec" "spec_ok demo_child_spec"
proof -
  have "budget_ok demo_budget" by (simp add: budget_ok_def demo_budget_def)
  then show "spec_ok demo_spec" "spec_ok demo_child_spec"
    using demo_specs_checked by (simp_all add: spec_ok_def demo_child_spec_def demo_spec_def)
qed

lemma demo_genv_facts: "clock demo_genv k = 7" "clock_reads demo_genv = 0" "last_tick demo_genv = 0"
  "process_salt demo_genv = ''ab''" "graph demo_genv = new_task_graph (Some ''ses_1'') None" "graphs demo_genv = []"
  by (simp_all add: demo_genv_def demo_renv_def demo_env_def env.defs renv.defs)

lemma demo_sound: "sound demo_genv"
  by (simp add: sound_def demo_genv_facts is_space_def) (simp add: new_task_graph_def)

text \<open>A root is created and started, and spawns a child.\<close>

definition demo_root_node :: "agent_state \<Rightarrow> string list \<Rightarrow> task_node" where
  "demo_root_node st cs = \<lparr>tn_spec = demo_spec, tn_state = st, tn_children = cs, tn_result = None,
     tn_reason = None, tn_updated = isoformat 0\<rparr>"

definition demo_child_node :: task_node where
  "demo_child_node = \<lparr>tn_spec = demo_child_spec, tn_state = AgentPending, tn_children = [], tn_result = None,
     tn_reason = None, tn_updated = isoformat 0\<rparr>"

definition demo_at :: "nat \<Rightarrow> int \<Rightarrow> (string, task_node) dict \<Rightarrow> genv" where
  "demo_at n k nodes = demo_genv\<lparr>clock_reads := n, last_tick := k, graph :=
     (graph demo_genv)\<lparr>tg_nodes := nodes, tg_roots := [demo_root_id]\<rparr>\<rparr>"

lemma demo_created:
  "create_root ''run_1'' ''parent run'' demo_budget {''fs.read''} [] 2 3 [] demo_genv =
     (Inr (demo_root_node AgentPending []), demo_at 6 8 [(demo_root_id, demo_root_node AgentPending [])])"
proof -
  let ?s = "demo_genv\<lparr>clock_reads := 3, last_tick := 8\<rparr>"
  have "new_task_spec ''run_1'' ''parent run'' demo_budget None [] {''fs.read''} 0 2 3 [] demo_genv = (Inr demo_spec, ?s)"
    using demo_specs_checked(1)
    by (simp add: new_task_spec_def bindE_def new_id_result task_kinds demo_genv_facts demo_task_ids clock_read Let_def
        liftE_def retE_def demo_spec_def numeral_eq_Suc)
  then have "create_root ''run_1'' ''parent run'' demo_budget {''fs.read''} [] 2 3 [] demo_genv = add_root demo_spec ?s"
    by (simp add: create_root_def bindE_def get_graph_def demo_genv_facts new_task_graph_def)
  then show ?thesis
    using add_root_runs [of ?s demo_spec] demo_specs_ok(1)
    by (simp add: demo_genv_facts new_task_graph_def Let_def demo_root_node_def demo_at_def copied_def demo_spec_def
        numeral_eq_Suc)
qed

lemma demo_created_sound: "sound (demo_at 6 8 [(demo_root_id, demo_root_node AgentPending [])])"
  using sound_after [OF create_root_safe demo_sound, of demo_budget "''run_1''" "''parent run''" "{''fs.read''}" "[]" 2 3 "[]"]
    demo_specs_ok(1) demo_created by (simp add: spec_ok_def demo_spec_def)

lemma demo_started:
  "transition_task demo_root_id AgentRunning None None (demo_at 6 8 [(demo_root_id, demo_root_node AgentPending [])]) =
     (Inr (demo_root_node AgentRunning []), demo_at 11 8 [(demo_root_id, demo_root_node AgentRunning [])])"
  using transition_runs [OF demo_created_sound, of demo_root_id "demo_root_node AgentPending []" AgentRunning None]
  by (simp add: demo_at_def demo_root_node_def demo_genv_facts new_task_graph_def Let_def copied_def agent_terminal_def)

definition demo_nodes :: "(string, task_node) dict" where
  "demo_nodes = [(demo_root_id, demo_root_node AgentRunning [demo_child_id]), (demo_child_id, demo_child_node)]"

lemma demo_started_sound: "sound (demo_at 11 8 [(demo_root_id, demo_root_node AgentRunning [])])"
  using sound_after [OF transition_safe demo_created_sound, of demo_root_id AgentRunning None None] demo_started
  by simp

lemma demo_at_no_table: "demo_at n k nodes\<lparr>graphs := []\<rparr> = demo_at n k nodes"
  by (simp add: demo_at_def demo_genv_def renv.defs)

lemma demo_spawned:
  "\<exists>k u. spawn_task demo_root_id ''look'' (Some demo_budget) (Some {''fs.read''}) [] [(''agent_type'', JStr ''general'')] 
       (demo_at 11 8 [(demo_root_id, demo_root_node AgentRunning [])]\<lparr>graphs := tbl\<rparr>) = (Inr k, u) \<and> tn_spec k = demo_child_spec \<and> graph u = graph (demo_at 0 0 demo_nodes)"
proof -
  let ?s = "demo_at 11 8 [(demo_root_id, demo_root_node AgentRunning [])]\<lparr>graphs := tbl\<rparr>"
  let ?n = "demo_root_node AgentRunning []"
  let ?v = "demo_at 16 10 [(demo_root_id, demo_root_node AgentRunning [])]\<lparr>graphs := tbl\<rparr>"
  have "graph_ok (graph ?s)" using demo_started_sound by (simp add: sound_def)
  then have get: "get_task demo_root_id ?s = (Inr ?n, copied ?s)"
    using get_task_ok [of ?s demo_root_id] by (simp add: demo_at_def)
  have within: "spawn_checks ?n (Some demo_budget) (Some {''fs.read''}) = Inr (demo_budget, {''fs.read''}, 1)"
    by (simp add: spawn_checks_def Let_def demo_root_node_def demo_spec_def budget_within_def demo_budget_def)
  have "new_task_spec ''run_0000000000000008ab'' ''look'' demo_budget (Some demo_root_id) [] {''fs.read''} 1 2 3
      [(''agent_type'', JStr ''general'')] (copied ?s) =
      (Inr demo_child_spec, ?v)"
    using demo_specs_checked(2)
    by (simp add: new_task_spec_def bindE_def new_id_result task_kinds demo_genv_facts demo_task_ids clock_read Let_def
        liftE_def retE_def demo_child_spec_def demo_spec_def demo_at_def copied_def)
  then have run: "spawn_task demo_root_id ''look'' (Some demo_budget) (Some {''fs.read''}) [] [(''agent_type'', JStr ''general'')] ?s = add_child demo_root_id ?n demo_child_spec ?v"
    using get within
    by (simp add: spawn_task_def bindE_def liftE_def retE_def demo_root_node_def demo_spec_def)
  have "graph (snd (add_child demo_root_id ?n demo_child_spec ?v)) = graph (demo_at 0 0 demo_nodes)"
    using add_child_runs [of ?v demo_root_id ?n demo_child_spec]
    by (simp add: Let_def copy_graph demo_at_def demo_genv_facts new_task_graph_def demo_nodes_def
        demo_root_node_def demo_child_node_def demo_child_spec_def)
  moreover have "\<exists>k u. add_child demo_root_id ?n demo_child_spec ?v = (Inr k, u) \<and> tn_spec k = demo_child_spec"
    by (rule add_child_result(2) [OF _ _ _ demo_specs_ok(2)])
       (simp_all add: demo_at_def demo_genv_facts new_task_graph_def demo_child_spec_def)
  ultimately show ?thesis using run by auto
qed

lemma demo_history: "\<exists>u. graph_step\<^sup>*\<^sup>* demo_genv u \<and> graph u = graph (demo_at 0 0 demo_nodes)"
proof -
  obtain k u where k: "spawn_task demo_root_id ''look'' (Some demo_budget) (Some {''fs.read''}) []
      [(''agent_type'', JStr ''general'')] (demo_at 11 8 [(demo_root_id, demo_root_node AgentRunning [])]) = (Inr k, u)"
    and u: "graph u = graph (demo_at 0 0 demo_nodes)" using demo_spawned [of "[]"] unfolding demo_at_no_table by blast
  have "budget_ok demo_budget" by (simp add: budget_ok_def demo_budget_def)
  note steps = root [OF this demo_created] move [OF demo_started]
  have "graph_step (demo_at 11 8 [(demo_root_id, demo_root_node AgentRunning [])]) u"
    by (rule spawn [OF _ k]) (simp add: budget_given_def budget_ok_def demo_budget_def)
  then have "graph_step\<^sup>*\<^sup>* (demo_at 11 8 [(demo_root_id, demo_root_node AgentRunning [])]) u"
    by (rule r_into_rtranclp)
  from converse_rtranclp_into_rtranclp [OF steps(1) converse_rtranclp_into_rtranclp [OF steps(2) this]] u
  show ?thesis by blast
qed

section \<open>Task graphs\<close>

text \<open>C3: However a new task graph is used, with any operations in any order, whether they return or raise,
  restoring snapshots included (of any content, but with no identifier that the process has yet to draw),
  every task in it stays within the authority of the one root: its capabilities and its budget are the
  root's or less, it is no deeper than the root's limit and has no more children than it; and the graph
  is one that restoring a snapshot would accept.\<close>

theorem tasks_stay_within_the_root:
  assumes "graph_use\<^sup>*\<^sup>* s t" and "graph s = new_task_graph session sink" and "0 \<le> last_tick s"
    and "list_all (\<lambda>c. \<not> is_space c) (process_salt s)" and "dict_get (tg_nodes (graph t)) tid = Some n"
  shows "\<exists>r root_node. tg_roots (graph t) = [r] \<and> dict_get (tg_nodes (graph t)) r = Some root_node \<and>
    ts_capabilities (tn_spec n) \<subseteq> ts_capabilities (tn_spec root_node) \<and>
    budget_within (ts_budget (tn_spec n)) (ts_budget (tn_spec root_node)) \<and>
    ts_depth (tn_spec n) \<le> ts_max_depth (tn_spec root_node) \<and>
    int (length (tn_children n)) \<le> ts_max_children (tn_spec root_node) \<and> validate_graph (graph t) = Inr ()"
proof -
  have "sound s" using assms(2-4) by (simp add: sound_def) (simp add: new_task_graph_def)
  with uses_sound [OF assms(1)] have ok: "graph_ok (graph t)" by (simp add: sound_def)
  moreover have "tg_nodes (graph t) \<noteq> []" using assms(5) by auto
  ultimately show ?thesis using authority_narrows [OF ok assms(5)] graph_ok_valid by blast
qed

text \<open>A root and its child.\<close>

theorem tasks_stay_within_the_root_witness:
  "ts_capabilities demo_child_spec \<subseteq> ts_capabilities demo_spec \<and> ts_depth demo_child_spec \<le> 2 \<and>
   validate_graph (graph (demo_at 0 0 demo_nodes)) = Inr ()"
proof -
  obtain u where u: "graph_step\<^sup>*\<^sup>* demo_genv u" "graph u = graph (demo_at 0 0 demo_nodes)"
    using demo_history by blast
  have at: "dict_get (tg_nodes (graph u)) demo_child_id = Some demo_child_node"
    "tg_roots (graph u) = [demo_root_id]"
    "dict_get (tg_nodes (graph u)) demo_root_id = Some (demo_root_node AgentRunning [demo_child_id])"
    unfolding u(2) by (simp_all add: demo_at_def demo_nodes_def)
  have "graph demo_genv = new_task_graph (Some ''ses_1'') None" "0 \<le> last_tick demo_genv"
    "list_all (\<lambda>c. \<not> is_space c) (process_salt demo_genv)"
    by (simp_all add: demo_genv_facts is_space_def)
  from tasks_stay_within_the_root [OF history_uses [OF u(1)] this at(1)] at(2,3) show ?thesis
    unfolding u(2) [symmetric] by (auto simp: demo_child_node_def demo_root_node_def demo_spec_def)
qed

text \<open>C18: From a state that satisfies the invariant, through any sequence of a task graph's operations other
  than restore, which puts another graph in its place, whether they return or raise, a task keeps its specification and its children, is never
  lost, is only ever in states that the transition table reaches from the one it had, and does not change
  in any way once it has completed, failed or been cancelled. A restore that raises changes no task
  either; one that returns may lose tasks and revive ended ones.\<close>

theorem tasks_move_by_the_table:
  assumes "graph_step\<^sup>*\<^sup>* s t" and "sound s" and "dict_get (tg_nodes (graph s)) tid = Some n"
  shows "\<exists>n'. dict_get (tg_nodes (graph t)) tid = Some n' \<and> tn_spec n' = tn_spec n \<and>
    (\<exists>cs. tn_children n' = tn_children n @ cs) \<and>
    (tn_state n, tn_state n') \<in> {(a, b). b \<in> agent_transitions a}\<^sup>* \<and>
    (agent_terminal (tn_state n) \<longrightarrow> n' = n) \<and>
    (\<forall>p e u. restore_graph p t = (Inl e, u) \<longrightarrow> dict_get (tg_nodes (graph u)) tid = Some n')"
proof -
  obtain n' where n': "dict_get (tg_nodes (graph t)) tid = Some n'" "lawful_node n n'"
    using history_lawful [OF assms(1)] assms(2,3) unfolding lawful_def by blast
  moreover have "dict_get (tg_nodes (graph u)) tid = Some n'" if "restore_graph p t = (Inl e, u)" for p e u
    using restore_raises [OF that] n'(1) by (simp add: quiet_def)
  ultimately show ?thesis unfolding lawful_node_def moves_def by blast
qed

theorem tasks_move_by_the_table_witness:
  "\<exists>n t. dict_get (tg_nodes (graph t)) demo_root_id = Some n \<and> tn_spec n = demo_spec \<and>
     graph_step (demo_at 6 8 [(demo_root_id, demo_root_node AgentPending [])]) t"
proof -
  note step = move [OF demo_started]
  then have "graph_step\<^sup>*\<^sup>* (demo_at 6 8 [(demo_root_id, demo_root_node AgentPending [])])
      (demo_at 11 8 [(demo_root_id, demo_root_node AgentRunning [])])" by (rule r_into_rtranclp)
  moreover have "dict_get (tg_nodes (graph (demo_at 6 8 [(demo_root_id, demo_root_node AgentPending [])]))) demo_root_id =
      Some (demo_root_node AgentPending [])" by (simp add: demo_at_def)
  ultimately show ?thesis
    using tasks_move_by_the_table [OF _ demo_created_sound] step by (fastforce simp: demo_root_node_def)
qed

lemma demo_graph: "\<exists>u :: genv. sound u \<and> graph u = graph (demo_at 0 0 demo_nodes)"
proof -
  obtain u where u: "graph_step\<^sup>*\<^sup>* demo_genv u" "graph u = graph (demo_at 0 0 demo_nodes)" using demo_history by blast
  moreover have "sound u" using history_lawful [OF u(1)] demo_sound by (simp add: lawful_def)
  ultimately show ?thesis by blast
qed

text \<open>C10: Cancelling a task with a reason of at most 4096 characters, in a graph that satisfies the invariant
  (every use of a graph keeps it) and has no event sink or one that answers each call, returns: the walk over its descendants ends, and nothing it does raises.
  Afterwards the task and every task that was active below it, through active tasks, have ended, and no
  other task has changed. (A longer reason is no valid result summary and a sink may raise: then so does
  the cancellation.)\<close>

theorem cancelling_ends:
  assumes "sound s" and "\<forall>f k e. tg_sink (graph s) = Some f \<longrightarrow> f k e = None" and "length reason \<le> 4096"
    and "dict_get (tg_nodes (graph s)) tid = Some n"
  shows "\<exists>m t. cancel_task tid reason s = (Inr m, t) \<and> ended_at (tg_nodes (graph t)) tid \<and>
    (\<forall>y. active_below (tg_nodes (graph s)) tid y \<longrightarrow> ended_at (tg_nodes (graph t)) y) \<and>
    (\<forall>x. dict_get (tg_nodes (graph t)) x \<noteq> dict_get (tg_nodes (graph s)) x \<longrightarrow>
       x = tid \<or> active_below (tg_nodes (graph s)) tid x)"
proof -
  have "answers (graph s)" using assms(2) by (simp add: answers_def)
  from cancel_task_ends [OF assms(1) this assms(3,4)] show ?thesis by blast
qed

text \<open>The graph of a root and its child, with a sink that takes every event.\<close>

definition heard_graph :: task_graph where
  "heard_graph = (graph (demo_at 0 0 demo_nodes))\<lparr>tg_sink := Some (\<lambda>k e. None)\<rparr>"

lemma demo_heard: "\<exists>s :: genv. sound s \<and> graph s = heard_graph"
proof -
  obtain u :: genv where "sound u" "graph u = graph (demo_at 0 0 demo_nodes)" using demo_graph by blast
  then have "sound (u\<lparr>graph := heard_graph\<rparr>)" by (simp add: sound_def heard_graph_def graph_ok_def)
  then show ?thesis by (intro exI [of _ "u\<lparr>graph := heard_graph\<rparr>"]) simp
qed

theorem cancelling_ends_witness:
  "\<exists>(s :: genv) m t. graph s = heard_graph \<and> cancel_task demo_root_id ''stop'' s = (Inr m, t) \<and>
     ended_at (tg_nodes (graph t)) demo_root_id \<and> ended_at (tg_nodes (graph t)) demo_child_id"
proof -
  obtain s :: genv where s: "sound s" "graph s = heard_graph" using demo_heard by blast
  have at: "\<forall>f k e. tg_sink (graph s) = Some f \<longrightarrow> f k e = None" "length ''stop'' \<le> 4096"
    "dict_get (tg_nodes (graph s)) demo_root_id = Some (demo_root_node AgentRunning [demo_child_id])"
    unfolding s(2) by (auto simp: heard_graph_def demo_at_def demo_nodes_def)
  have "active_below (tg_nodes (graph s)) demo_root_id demo_child_id"
    unfolding s(2) by (rule active_below.direct)
      (simp add: heard_graph_def active_child_def is_child_def ended_at_def demo_at_def demo_nodes_def demo_root_node_def
        demo_child_node_def agent_terminal_def)
  with cancelling_ends [OF s(1) at] s(2) show ?thesis by blast
qed

text \<open>C21: Validation is exact: a graph read from a snapshot is accepted precisely when it has one root, every
  node is consistent with its own identifier, result and parent, every link narrows the parent's
  authority, no node has two links to a child, and every node but the root is someone's child. The
  search for cycles and unreachable nodes refuses nothing else and misses nothing.\<close>

theorem validation_is_exact:
  assumes "dict_wf (tg_nodes g)" and "\<forall>tid n. dict_get (tg_nodes g) tid = Some n \<longrightarrow> 0 \<le> ts_depth (tn_spec n)"
  shows "validate_graph g = Inr () \<longleftrightarrow> (\<exists>r. tg_roots g = [r] \<and> linked (tg_nodes g) r)"
  by (rule validate_iff [OF assms(1)]) (use assms(2) in \<open>simp add: depths_ok_def\<close>)

theorem validation_is_exact_witness:
  "validate_graph (graph (demo_at 0 0 demo_nodes)) = Inr () \<longleftrightarrow>
     (\<exists>r. tg_roots (graph (demo_at 0 0 demo_nodes)) = [r] \<and> linked (tg_nodes (graph (demo_at 0 0 demo_nodes))) r)"
  by (rule validation_is_exact)
     (simp_all add: demo_at_def demo_nodes_def dict_wf_def demo_root_node_def demo_child_node_def demo_spec_def
       demo_child_spec_def split: if_splits)

text \<open>C27: The snapshot of a graph that satisfies the invariant and has a task in it restores to the graph: reading it back gives the same
  session, roots and tasks, in the order of their identifiers and looked up alike. The snapshot of an
  empty graph is refused, for it has no root.\<close>

theorem snapshot_restores_graph:
  assumes "graph_ok g"
  shows "if tg_nodes g = []
    then graph_from_snapshot (graph_snapshot g) sink s =
      (Inl (agent_invalid ''Task graph must contain exactly one valid root''), s)
    else \<exists>t nodes. graph_from_snapshot (graph_snapshot g) sink s = (Inr (g\<lparr>tg_sink := sink, tg_nodes := nodes\<rparr>), t) \<and>
      dict_get nodes = dict_get (tg_nodes g) \<and> mset nodes = mset (tg_nodes g) \<and> sorted (map fst nodes)"
proof (cases "tg_nodes g = []")
  case True
  then show ?thesis using empty_snapshot_refused [OF assms True, of sink s] by simp
next
  case False
  have "dict_get (sort_key fst (tg_nodes g)) = dict_get (tg_nodes g)"
    using assms by (intro map_of_sorted) (simp add: graph_ok_def)
  moreover obtain t where "graph_from_snapshot (graph_snapshot g) sink s =
      (Inr (g\<lparr>tg_sink := sink, tg_nodes := sort_key fst (tg_nodes g)\<rparr>), t)"
    using snapshot_restores [OF assms False, of sink s] by blast
  ultimately have "\<exists>t nodes. graph_from_snapshot (graph_snapshot g) sink s = (Inr (g\<lparr>tg_sink := sink, tg_nodes := nodes\<rparr>), t) \<and>
      dict_get nodes = dict_get (tg_nodes g) \<and> mset nodes = mset (tg_nodes g) \<and> sorted (map fst nodes)"
    by (metis mset_sort sorted_sort_key)
  with False show ?thesis by (simp only: if_False)
qed

theorem snapshot_restores_graph_witness:
  "\<exists>h t. graph_from_snapshot (graph_snapshot (graph (demo_at 0 0 demo_nodes))) None demo_genv = (Inr h, t) \<and>
     dict_get (tg_nodes h) demo_child_id = Some demo_child_node"
proof -
  have "graph_ok (graph (demo_at 0 0 demo_nodes))" using demo_graph unfolding sound_def by metis
  moreover have "tg_nodes (graph (demo_at 0 0 demo_nodes)) \<noteq> []"
    and "dict_get (tg_nodes (graph (demo_at 0 0 demo_nodes))) demo_child_id = Some demo_child_node"
    by (simp_all add: demo_at_def demo_nodes_def)
  ultimately show ?thesis
    using snapshot_restores_graph [of "graph (demo_at 0 0 demo_nodes)" None demo_genv] by fastforce
qed

section \<open>Subagents\<close>

text \<open>C6: Subagents stay within the authority their tool was given: however many calls of the tool run
  concurrently, in whatever order the event loop interleaves them and whatever each was asked for, every
  task of every run's graph has at most the authority's capabilities (up to surrounding white space) and
  budget, and no run has more children, or children any deeper, than the authority allows. The runners
  are other code, which does not touch the tool's private table of graphs.\<close>

theorem subagents_stay_within_authority:
  assumes "budget_ok (auth_budget (sat_authority sub))"
    and "\<And>name runner spec ctx. dict_get (sat_runners sub) name = Some runner \<Longrightarrow> steps_in table_kept (runner spec ctx)"
    and "graphs s = []" and "0 \<le> last_tick s" and "list_all (\<lambda>c. \<not> is_space c) (process_salt s)"
    and "run_task (gatherT (map (\<lambda>(inp, ctx). run_subagent sub inp ctx) calls)) s = (res, t)"
    and "dict_get (graphs t) key = Some (g, r)" and "dict_get (tg_nodes g) tid = Some n"
  shows "ts_capabilities (tn_spec n) \<subseteq> strip ` auth_capabilities (sat_authority sub) \<and>
    budget_within (ts_budget (tn_spec n)) (auth_budget (sat_authority sub)) \<and>
    ts_depth (tn_spec n) \<le> auth_max_depth (sat_authority sub) \<and>
    int (length (tn_children n)) \<le> auth_max_children (sat_authority sub)"
proof -
  have "steps_in (keeps_tool (sat_authority sub)) (gatherT (map (\<lambda>(inp, ctx). run_subagent sub inp ctx) calls))"
    unfolding gatherT_def by (rule subagents_keep [OF assms(1)]) (rule assms(2))
  from advancesD [OF tool.run_task_advances [OF this] assms(6)] have "keeps_tool (sat_authority sub) s t" .
  then have "tool_ok (sat_authority sub) t" using assms(3-5) by (simp add: keeps_tool_def tool_ok_def)
  then have "sound (t\<lparr>graph := g\<rparr>)" and top: "governed (sat_authority sub) g r" using tool_okD assms(7) by blast+
  then have "graph_ok g" by (simp add: sound_def)
  from authority_narrows [OF this assms(8)] top show ?thesis
    unfolding governed_def has_authority_def by (metis list.inject option.inject subset_trans)
qed

text \<open>A tool with one runner, which reports at once, called once.\<close>

definition demo_authority :: subagent_authority where
  "demo_authority = \<lparr>auth_budget = demo_budget, auth_capabilities = {''fs.read''}, auth_max_depth = 2,
     auth_max_children = 3\<rparr>"

definition reporting :: "task_spec \<Rightarrow> tool_context \<Rightarrow> (genv, task_result) task" where
  "reporting spec ctx = retT \<lparr>tr_task = ts_task spec, tr_state = AgentCompleted, tr_summary = ''found it'',
     tr_artifacts = [], tr_error = None, tr_metrics = []\<rparr>"

definition demo_subagents :: "unit subagent_tool" where
  "demo_subagents = \<lparr>sat_runners = [(''general'', reporting)], sat_authority = demo_authority, sat_ceilings = []\<rparr>"

definition demo_ctx :: tool_context where
  "demo_ctx = \<lparr>ctx_session = ''ses_1'', ctx_run = ''run_1'', ctx_app = JNull\<rparr>"

abbreviation demo_request :: jobj where
  "demo_request \<equiv> [(''objective'', JStr ''look'')]"

abbreviation demo_table :: "(string \<times> string, task_graph \<times> string) dict" where
  "demo_table \<equiv> [((''ses_1'', ''run_1''), (graph (demo_at 11 8 [(demo_root_id, demo_root_node AgentRunning [])]), demo_root_id))]"

lemma demo_graph_for:
  "graph_for demo_authority demo_ctx demo_genv =
     (Inr demo_root_id, demo_at 11 8 [(demo_root_id, demo_root_node AgentRunning [])]
        \<lparr>graph := graph demo_genv, graphs := demo_table\<rparr>)"
proof -
  have same: "demo_genv\<lparr>graph := new_task_graph (Some ''ses_1'') None\<rparr> = demo_genv"
    by (simp add: demo_genv_def renv.defs)
  have id: "ts_task (tn_spec (demo_root_node st cs)) = demo_root_id" for st cs
    by (simp add: demo_root_node_def demo_spec_def)
  have "new_run_graph demo_authority demo_ctx demo_genv =
      (Inr demo_root_id, demo_at 11 8 [(demo_root_id, demo_root_node AgentRunning [])])"
    using demo_created demo_started
    by (simp add: new_run_graph_def demo_authority_def demo_ctx_def bindE_def retE_def id)
  then show ?thesis
    by (simp add: graph_for_def demo_ctx_def demo_genv_facts same) (simp add: demo_at_def demo_genv_facts)
qed

lemma demo_child_budget: "child_budget demo_authority demo_request = Inr demo_budget"
  by code_simp

lemma demo_caps: "capabilities_for demo_subagents ''general'' demo_request = Inr {''fs.read''}"
  by (simp add: capabilities_for_def child_capabilities_def demo_subagents_def demo_authority_def SPAWN_CAPABILITY_def)

lemma demo_spawn_child:
  "\<exists>u g. spawn_child demo_subagents (''ses_1'', ''run_1'') demo_root_id ''look'' ''general'' demo_request
      (demo_at 11 8 [(demo_root_id, demo_root_node AgentRunning [])]\<lparr>graph := graph demo_genv, graphs := demo_table\<rparr>) =
      (Inr (Inr demo_child_spec), u) \<and> dict_get (graphs u) (''ses_1'', ''run_1'') = Some (g, demo_root_id) \<and>
      dict_get (tg_nodes g) demo_child_id = Some demo_child_node"
proof -
  let ?s = "demo_at 11 8 [(demo_root_id, demo_root_node AgentRunning [])]\<lparr>graph := graph demo_genv, graphs := demo_table\<rparr>"
  let ?t = "demo_at 11 8 [(demo_root_id, demo_root_node AgentRunning [])]\<lparr>graphs := demo_table\<rparr>"
  obtain k v where k: "spawn_task demo_root_id ''look'' (Some demo_budget) (Some {''fs.read''}) []
      [(''agent_type'', JStr ''general'')] ?t = (Inr k, v)" "tn_spec k = demo_child_spec"
    and v: "graph v = graph (demo_at 0 0 demo_nodes)" using demo_spawned [of demo_table] by blast
  have "on_graph (''ses_1'', ''run_1'') (spawn_task demo_root_id ''look'' (Some demo_budget) (Some {''fs.read''}) []
      [(''agent_type'', JStr ''general'')]) ?s =
      (Inr k, v\<lparr>graph := graph demo_genv, graphs := dict_set (''ses_1'', ''run_1'') (graph v, demo_root_id) (graphs v)\<rparr>)"
    using k(1) by (simp add: on_graph_def)
  then show ?thesis
    using demo_child_budget demo_caps k(2) v
    by (simp add: spawn_child_def catchE_def bindE_def liftE_def retE_def demo_subagents_def demo_at_def demo_nodes_def)
qed

lemma demo_salt: "0 \<le> last_tick demo_genv" "list_all (\<lambda>c. \<not> is_space c) (process_salt demo_genv)"
  by (simp_all add: demo_genv_facts is_space_def)

lemma demo_tool_ok: "tool_ok demo_authority demo_genv"
  using demo_salt by (simp add: tool_ok_def demo_genv_facts)

lemma demo_authority_ok: "budget_ok (auth_budget demo_authority)"
  by (simp add: demo_authority_def budget_ok_def demo_budget_def)

lemma demo_runners:
  "dict_get (sat_runners demo_subagents) name = Some runner \<Longrightarrow> steps_in table_kept (runner spec ctx)"
  by (auto simp: demo_subagents_def reporting_def steps_in_basic split: if_splits)

text \<open>The child's task is still in the table when the call has ended.\<close>

lemma demo_call:
  assumes "run_task (run_subagent demo_subagents demo_request demo_ctx) demo_genv = (res, t)"
  shows "\<exists>g n. dict_get (graphs t) (''ses_1'', ''run_1'') = Some (g, demo_root_id) \<and>
    dict_get (tg_nodes g) demo_child_id = Some n \<and> tn_spec n = demo_child_spec"
proof -
  let ?key = "(''ses_1'', ''run_1'')"
  let ?s = "demo_at 11 8 [(demo_root_id, demo_root_node AgentRunning [])]\<lparr>graph := graph demo_genv, graphs := demo_table\<rparr>"
  obtain u g where spawned: "spawn_child demo_subagents ?key demo_root_id ''look'' ''general'' demo_request ?s =
      (Inr (Inr demo_child_spec), u)" and g: "dict_get (graphs u) ?key = Some (g, demo_root_id)"
    "dict_get (tg_nodes g) demo_child_id = Some demo_child_node" using demo_spawn_child by blast
  have ctx: "ctx_session demo_ctx = ''ses_1''" "ctx_run demo_ctx = ''run_1''" by (simp_all add: demo_ctx_def)
  have tool: "sat_authority demo_subagents = demo_authority"
    "dict_get (sat_runners demo_subagents) ''general'' = Some reporting" by (simp_all add: demo_subagents_def)
  have strip: "strip ''general'' = ''general''" "\<not> blank ''look''" "\<not> blank ''general''" by code_simp+
  have "run_task (run_subagent demo_subagents demo_request demo_ctx) demo_genv =
      run_task (run_spawned demo_subagents ?key reporting demo_child_spec demo_ctx) u"
    using demo_graph_for spawned
    by (simp add: run_subagent_def run_task_rules bindE_def ctx tool strip Let_def)
  moreover have "steps_in (keeps_tool demo_authority) (reporting demo_child_spec demo_ctx)"
    by (simp add: reporting_def steps_in_basic)
  ultimately have kept: "keeps_tool demo_authority u t"
    using advancesD [OF tool.run_task_advances [OF run_spawned_keeps]] assms by metis
  have "keeps_tool demo_authority demo_genv ?s"
    using advancesD [OF graph_for_keeps [OF demo_authority_ok] demo_graph_for] .
  moreover have "keeps_tool demo_authority ?s u"
    using advancesD [OF spawn_child_keeps spawned] by (simp add: tool)
  ultimately have "tool_ok demo_authority u" using demo_tool_ok by (simp add: keeps_tool_def)
  with kept obtain g' where "dict_get (graphs t) ?key = Some (g', demo_root_id)" "respecs g g'"
    using g(1) unfolding keeps_tool_def table_grows_def by blast
  moreover from this g(2) obtain n where "dict_get (tg_nodes g') demo_child_id = Some n"
    "tn_spec n = tn_spec demo_child_node" unfolding respecs_def by blast
  ultimately show ?thesis by (auto simp: demo_child_node_def)
qed

theorem subagents_stay_within_authority_witness:
  "\<exists>res t g n. run_task (gatherT [run_subagent demo_subagents demo_request demo_ctx]) demo_genv = (res, t) \<and>
     dict_get (graphs t) (''ses_1'', ''run_1'') = Some (g, demo_root_id) \<and>
     dict_get (tg_nodes g) demo_child_id = Some n \<and> ts_capabilities (tn_spec n) \<subseteq> strip ` {''fs.read''}"
proof -
  obtain r t where run: "run_task (run_subagent demo_subagents demo_request demo_ctx) demo_genv = (r, t)" by fastforce
  obtain g n where at: "dict_get (graphs t) (''ses_1'', ''run_1'') = Some (g, demo_root_id)"
    "dict_get (tg_nodes g) demo_child_id = Some n" using demo_call [OF run] by blast
  obtain res where all: "run_task (gatherT [run_subagent demo_subagents demo_request demo_ctx]) demo_genv = (res, t)"
    using run by (cases r) (simp_all add: gatherT_def gather_one bindE_def retE_def)
  have tool: "sat_authority demo_subagents = demo_authority" "auth_capabilities demo_authority = {''fs.read''}"
    by (simp_all add: demo_subagents_def demo_authority_def)
  have "ts_capabilities (tn_spec n) \<subseteq> strip ` {''fs.read''}"
    using subagents_stay_within_authority [of demo_subagents demo_genv "[(demo_request, demo_ctx)]" res t]
      demo_authority_ok demo_runners demo_genv_facts(6) demo_salt all at by (simp add: tool)
  with all at show ?thesis by blast
qed

text \<open>C23: What one call gives its child: no capability outside the authority, none outside the declared ceiling
  of its type, and when none are asked for not the right to spawn; a budget within the authority's; and
  the depth one, whichever run the call is made in, so that a child which may itself spawn is not held to
  its own capabilities or to the depth limit by this tool.\<close>

theorem child_gets_no_more:
  assumes "budget_ok (auth_budget (sat_authority sub))" and "tool_ok (sat_authority sub) s"
    and "graph_for (sat_authority sub) ctx s = (Inr r, s')"
    and "spawn_child sub (ctx_session ctx, ctx_run ctx) r objective ty inp s' = (Inr (Inr t), s'')"
  shows "ts_capabilities t \<subseteq> strip ` auth_capabilities (sat_authority sub) \<and>
    (\<forall>upper. dict_get (sat_ceilings sub) ty = Some upper \<longrightarrow> ts_capabilities t \<subseteq> strip ` upper) \<and>
    (get_or_none inp ''capabilities'' = JNull \<longrightarrow>
       ts_capabilities t \<subseteq> strip ` (auth_capabilities (sat_authority sub) - {SPAWN_CAPABILITY})) \<and>
    budget_within (ts_budget t) (auth_budget (sat_authority sub)) \<and> ts_depth t = 1"
proof -
  have ok: "tool_ok (sat_authority sub) s'"
    using advancesD [OF graph_for_keeps [OF assms(1)] assms(3)] assms(2) by (simp add: keeps_tool_def)
  obtain g where "dict_get (graphs s') (ctx_session ctx, ctx_run ctx) = Some (g, r)"
    using graph_for_entry [OF assms(3)] by blast
  from spawn_child_gives [OF ok this refl assms(4)] obtain caps where
    caps: "capabilities_for sub ty inp = Inr caps" "ts_capabilities t \<subseteq> strip ` caps"
    and rest: "ts_capabilities t \<subseteq> strip ` auth_capabilities (sat_authority sub)"
      "budget_within (ts_budget t) (auth_budget (sat_authority sub))" "ts_depth t = 1" by blast
  have "caps \<subseteq> upper" if "dict_get (sat_ceilings sub) ty = Some upper" for upper
    using caps(1) that by (auto simp: capabilities_for_def bindR_Inr_iff)
  moreover have "caps \<subseteq> auth_capabilities (sat_authority sub) - {SPAWN_CAPABILITY}"
    if "get_or_none inp ''capabilities'' = JNull"
    using caps(1) that by (auto simp: capabilities_for_def child_capabilities_def bindR_Inr_iff split: option.splits)
  ultimately show ?thesis using caps(2) rest by (meson image_mono subset_trans)
qed

theorem child_gets_no_more_witness:
  "\<exists>s' t s''. graph_for demo_authority demo_ctx demo_genv = (Inr demo_root_id, s') \<and>
     spawn_child demo_subagents (''ses_1'', ''run_1'') demo_root_id ''look'' ''general'' demo_request s' = (Inr (Inr t), s'') \<and>
     ts_capabilities t \<subseteq> strip ` {''fs.read''} \<and> ts_depth t = 1"
proof -
  obtain u where spawned: "spawn_child demo_subagents (''ses_1'', ''run_1'') demo_root_id ''look'' ''general'' demo_request
      (demo_at 11 8 [(demo_root_id, demo_root_node AgentRunning [])]\<lparr>graph := graph demo_genv, graphs := demo_table\<rparr>) =
      (Inr (Inr demo_child_spec), u)" using demo_spawn_child by blast
  have tool: "sat_authority demo_subagents = demo_authority" "auth_capabilities demo_authority = {''fs.read''}"
    "ctx_session demo_ctx = ''ses_1''" "ctx_run demo_ctx = ''run_1''"
    by (simp_all add: demo_subagents_def demo_authority_def demo_ctx_def)
  have "ts_capabilities demo_child_spec \<subseteq> strip ` {''fs.read''} \<and> ts_depth demo_child_spec = 1"
    using child_gets_no_more [of demo_subagents demo_genv demo_ctx] demo_authority_ok demo_tool_ok demo_graph_for spawned
    unfolding tool by blast
  with demo_graph_for spawned show ?thesis by blast
qed

end
