(* ===== verification/Regular_Expressions.thy ===== *)
theory Regular_Expressions
  imports Approvals
begin

text \<open>
  Python's regular expressions as far as the memory service uses them: matching by backtracking, which
  finds the first alternative that succeeds. A position is the text before it (its last character
  first), the text after it and what group 1 has matched; \<open>run_rx\<close> lists the positions after a match in
  the order in which the matcher would try them. An iteration of a repetition that consumes nothing ends
  it. Text is Latin-1.
\<close>

section \<open>Patterns and matches\<close>

datatype rx =
    Chars "char \<Rightarrow> bool"
  | Cat rx rx
  | Alt rx rx
  | Many bool nat "nat option" rx
  | Group rx
  | Edge
  | After "char \<Rightarrow> bool"
  | NotAfter "char \<Rightarrow> bool"
  | NotBefore "char \<Rightarrow> bool"
  | AtEnd

record rx_pos =
  rx_before :: string
  rx_rest :: string
  rx_group :: string

definition rx_start :: "string \<Rightarrow> string \<Rightarrow> rx_pos" where
  "rx_start lead s = \<lparr>rx_before = lead, rx_rest = s, rx_group = []\<rparr>"

definition next_is :: "(char \<Rightarrow> bool) \<Rightarrow> string \<Rightarrow> bool" where
  "next_is P s \<longleftrightarrow> (case s of [] \<Rightarrow> False | c # _ \<Rightarrow> P c)"

primrec repeat_rx ::
  "nat \<Rightarrow> (rx_pos \<Rightarrow> rx_pos list) \<Rightarrow> bool \<Rightarrow> nat \<Rightarrow> nat option \<Rightarrow> rx_pos \<Rightarrow> rx_pos list" where
  "repeat_rx 0 f greedy m n p = (if m = 0 then [p] else [])"
| "repeat_rx (Suc k) f greedy m n p =
     (let longer = (if n = Some 0 then []
            else concat (map (repeat_rx k f greedy (m - 1) (map_option (\<lambda>i. i - 1) n))
                   (filter (\<lambda>q. length (rx_rest q) < length (rx_rest p)) (f p))));
          here = (if m = 0 then [p] else []) in
      if greedy then longer @ here else here @ longer)"

primrec run_rx :: "rx \<Rightarrow> rx_pos \<Rightarrow> rx_pos list" where
  "run_rx (Chars P) p =
     (case rx_rest p of
        [] \<Rightarrow> [] | c # s \<Rightarrow> if P c then [p\<lparr>rx_before := c # rx_before p, rx_rest := s\<rparr>] else [])"
| "run_rx (Cat a b) p = concat (map (run_rx b) (run_rx a p))"
| "run_rx (Alt a b) p = run_rx a p @ run_rx b p"
| "run_rx (Many greedy m n a) p = repeat_rx (length (rx_rest p)) (run_rx a) greedy m n p"
| "run_rx (Group a) p =
     map (\<lambda>q. q\<lparr>rx_group := take (length (rx_rest p) - length (rx_rest q)) (rx_rest p)\<rparr>) (run_rx a p)"
| "run_rx Edge p = (if next_is is_word_char (rx_before p) \<noteq> next_is is_word_char (rx_rest p) then [p] else [])"
| "run_rx (After P) p = (if next_is P (rx_before p) then [p] else [])"
| "run_rx (NotAfter P) p = (if next_is P (rx_before p) then [] else [p])"
| "run_rx (NotBefore P) p = (if next_is P (rx_rest p) then [] else [p])"
| "run_rx AtEnd p = (if rx_rest p = [] \<or> rx_rest p = [CHR 0x0A] then [p] else [])"

text \<open>\<^verbatim>\<open>pattern.match(s)\<close>, \<^verbatim>\<open>pattern.search(s)\<close>.\<close>

definition rx_match :: "rx \<Rightarrow> string \<Rightarrow> rx_pos option" where
  "rx_match r s = (case run_rx r (rx_start [] s) of [] \<Rightarrow> None | m # _ \<Rightarrow> Some m)"

fun rx_found :: "rx \<Rightarrow> string \<Rightarrow> string \<Rightarrow> bool" where
  "rx_found r lead [] = (run_rx r (rx_start lead []) \<noteq> [])"
| "rx_found r lead (c # s) = (run_rx r (rx_start lead (c # s)) \<noteq> [] \<or> rx_found r (c # lead) s)"

text \<open>A match that consumes something at this place.\<close>

definition rx_here :: "rx \<Rightarrow> string \<Rightarrow> string \<Rightarrow> rx_pos option" where
  "rx_here r lead s =
     (case run_rx r (rx_start lead s) of
        [] \<Rightarrow> None | m # _ \<Rightarrow> if length (rx_rest m) < length s then Some m else None)"

lemma rx_here_shorter: "rx_here r lead s = Some m \<Longrightarrow> length (rx_rest m) < length s"
  by (auto simp: rx_here_def split: list.splits if_splits)

text \<open>
  \<^verbatim>\<open>pattern.subn(f, s)\<close> and \<^verbatim>\<open>re.split(pattern, s)\<close> for patterns that never match the empty text: the leftmost
  match is replaced, and the search goes on behind it.
\<close>

function rx_subn :: "rx \<Rightarrow> (rx_pos \<Rightarrow> string) \<Rightarrow> string \<Rightarrow> string \<Rightarrow> string \<times> nat" where
  "rx_subn r f lead s =
     (case rx_here r lead s of
        Some m \<Rightarrow> (case rx_subn r f (rx_before m) (rx_rest m) of (t, n) \<Rightarrow> (f m @ t, Suc n))
      | None \<Rightarrow> (case s of [] \<Rightarrow> ([], 0) | c # s' \<Rightarrow> (case rx_subn r f (c # lead) s' of (t, n) \<Rightarrow> (c # t, n))))"
  by pat_completeness auto
termination
  by (relation "measure (\<lambda>(r, f, lead, s). length s)") (auto dest: rx_here_shorter)

declare rx_subn.simps [simp del]

function rx_split :: "rx \<Rightarrow> string \<Rightarrow> string \<Rightarrow> string \<Rightarrow> string list" where
  "rx_split r piece lead s =
     (case rx_here r lead s of
        Some m \<Rightarrow> rev piece # rx_split r [] (rx_before m) (rx_rest m)
      | None \<Rightarrow> (case s of [] \<Rightarrow> [rev piece] | c # s' \<Rightarrow> rx_split r (c # piece) (c # lead) s'))"
  by pat_completeness auto
termination
  by (relation "measure (\<lambda>(r, piece, lead, s). length s)") (auto dest: rx_here_shorter)

declare rx_split.simps [simp del]

section \<open>Notations for patterns\<close>

definition one_of :: "string \<Rightarrow> char \<Rightarrow> bool" where
  "one_of s c \<longleftrightarrow> c \<in> set s"

definition between :: "char \<Rightarrow> char \<Rightarrow> char \<Rightarrow> bool" where
  "between a b c \<longleftrightarrow> (of_char a :: nat) \<le> of_char c \<and> (of_char c :: nat) \<le> of_char b"

definition is_digit :: "char \<Rightarrow> bool" where
  "is_digit = between (CHR ''0'') (CHR ''9'')"

definition is_upper :: "char \<Rightarrow> bool" where
  "is_upper = between (CHR ''A'') (CHR ''Z'')"

definition is_letter :: "char \<Rightarrow> bool" where
  "is_letter c \<longleftrightarrow> is_upper c \<or> between (CHR ''a'') (CHR ''z'') c"

text \<open>A word, letters in any case or as they are; a sequence of patterns.\<close>

definition any_case :: "string \<Rightarrow> rx" where
  "any_case w = foldr (\<lambda>c r. Cat (Chars (\<lambda>d. lower_char d = lower_char c)) r) w (Many True 0 (Some 0) Edge)"

definition exactly :: "string \<Rightarrow> rx" where
  "exactly w = foldr (\<lambda>c r. Cat (Chars (\<lambda>d. d = c)) r) w (Many True 0 (Some 0) Edge)"

definition seq :: "rx list \<Rightarrow> rx" where
  "seq rs = foldr Cat rs (Many True 0 (Some 0) Edge)"

definition any_of :: "rx list \<Rightarrow> rx" where
  "any_of rs = foldr Alt rs (Chars (\<lambda>_. False))"

abbreviation some :: "rx \<Rightarrow> rx" where
  "some \<equiv> Many True 1 None"

abbreviation star :: "rx \<Rightarrow> rx" where
  "star \<equiv> Many True 0 None"

abbreviation optional :: "rx \<Rightarrow> rx" where
  "optional \<equiv> Many True 0 (Some 1)"

abbreviation times :: "nat \<Rightarrow> rx \<Rightarrow> rx" where
  "times n \<equiv> Many True n (Some n)"

end
