(* ===== verification/Memory_Redaction.thy ===== *)
theory Memory_Redaction
  imports Regular_Expressions
begin

text \<open>
  Scrubbing secrets before memory is kept, \<^verbatim>\<open>aihi/agent/memory/redaction.py\<close>, and the memory errors of
  \<^verbatim>\<open>aihi/agent/memory/errors.py\<close>.
\<close>

section \<open>Errors\<close>

definition memory_invalid :: "string \<Rightarrow> exn" where
  "memory_invalid m = Exn (OtherError ''MemoryValidationError'') m"

definition memory_denied :: "string \<Rightarrow> exn" where
  "memory_denied m = Exn (OtherError ''MemoryAccessDenied'') m"

definition memory_not_found :: "string \<Rightarrow> exn" where
  "memory_not_found i = Exn (OtherError ''MemoryNotFound'') (''Memory was not found: '' @ i)"

definition memory_conflict :: "string \<Rightarrow> exn" where
  "memory_conflict i = Exn (OtherError ''MemoryConflict'') (''Memory already exists: '' @ i)"

definition MEMORY_ERRORS :: "string list" where
  "MEMORY_ERRORS = [''MemoryError'', ''MemoryValidationError'', ''MemoryAccessDenied'', ''MemoryNotFound'', ''MemoryConflict'']"

definition is_memory_error :: "exn \<Rightarrow> bool" where
  "is_memory_error e \<longleftrightarrow> (case e of Exn (OtherError n) _ \<Rightarrow> n \<in> set MEMORY_ERRORS | _ \<Rightarrow> False)"

section \<open>The patterns\<close>

definition REDACTED :: string where
  "REDACTED = ''[REDACTED_SECRET]''"

definition REDACTED_PII :: string where
  "REDACTED_PII = ''[REDACTED_PII]''"

definition token_char :: "char \<Rightarrow> bool" where
  "token_char c \<longleftrightarrow> is_letter c \<or> is_digit c \<or> one_of ''._~+/=-'' c"

abbreviation spaces :: rx where
  "spaces \<equiv> some (Chars is_space)"

definition private_key_rx :: rx where
  "private_key_rx =
     (let name = star (Chars (\<lambda>c. is_letter c \<or> is_digit c \<or> c = CHR '' '')) in
      seq [any_case ''-----BEGIN '', name, any_case ''PRIVATE KEY-----'', Many False 0 None (Chars (\<lambda>_. True)),
           any_case ''-----END '', name, any_case ''PRIVATE KEY-----''])"

definition credential_url_rx :: rx where
  "credential_url_rx =
     seq [any_case ''http'', optional (any_case ''s''), exactly ''://'',
          some (Chars (\<lambda>c. \<not> is_space c \<and> \<not> one_of ''/@:'' c)), exactly '':'',
          some (Chars (\<lambda>c. \<not> is_space c \<and> \<not> one_of ''/@'' c)), exactly ''@'', some (Chars (\<lambda>c. \<not> is_space c))]"

definition authorization_rx :: rx where
  "authorization_rx =
     seq [Edge, Alt (any_case ''Bearer'') (any_case ''Basic''), spaces, Many True 12 None (Chars token_char)]"

text \<open>Group 1 is the name with what separates it from the value.\<close>

definition named_secret_rx :: rx where
  "named_secret_rx =
     (let sp = star (Chars is_space); joint = optional (Chars (one_of ''_ -'')) in
      seq [Group (seq [Edge,
             any_of [seq [any_case ''api'', joint, any_case ''key''], seq [any_case ''access'', joint, any_case ''token''],
                     any_case ''secret'', any_case ''password'', any_case ''passwd'', any_case ''token''],
             any_of [seq [sp, Chars (one_of '':=''), sp], seq [spaces, any_case ''is'', spaces], spaces]]),
           optional (Chars (\<lambda>c. c = CHR 0x22 \<or> c = CHR 0x27)), some (Chars token_char)])"

definition aws_access_key_rx :: rx where
  "aws_access_key_rx =
     seq [Edge, Alt (exactly ''AKIA'') (exactly ''ASIA''), times 16 (Chars (\<lambda>c. is_upper c \<or> is_digit c)), Edge]"

definition github_token_rx :: rx where
  "github_token_rx =
     seq [Edge, any_of (map exactly [''ghp'', ''gho'', ''ghu'', ''ghs'', ''ghr'']), exactly ''_'',
          Many True 20 None (Chars (\<lambda>c. is_letter c \<or> is_digit c \<or> c = CHR ''_'')), Edge]"

definition provider_token_rx :: rx where
  "provider_token_rx =
     seq [Edge, any_of (map exactly [''sk'', ''pk'', ''rk'']), exactly ''-'',
          Many True 16 None (Chars (\<lambda>c. is_letter c \<or> is_digit c \<or> one_of ''_-'' c)), Edge]"

definition email_rx :: rx where
  "email_rx =
     seq [Edge, some (Chars (\<lambda>c. is_letter c \<or> is_digit c \<or> one_of ''._%+-'' c)), exactly ''@'',
          some (Chars (\<lambda>c. is_letter c \<or> is_digit c \<or> one_of ''.-'' c)), exactly ''.'',
          Many True 2 None (Chars is_letter), Edge]"

definition phone_rx :: rx where
  "phone_rx =
     (let d = Chars is_digit; gap = Chars (\<lambda>c. is_space c \<or> one_of ''.-'' c) in
      seq [NotAfter is_digit,
           Alt (seq [exactly ''1'', Chars (between (CHR ''3'') (CHR ''9'')), times 9 d])
               (seq [optional (exactly ''+''), Many True 1 (Some 3) d, optional gap,
                     optional (exactly ''(''), times 3 d, optional (exactly '')''), gap,
                     times 3 d, gap, times 4 d]),
           NotBefore is_digit])"

definition SECRET_PATTERNS :: "(string \<times> rx) list" where
  "SECRET_PATTERNS =
     [(''private_key'', private_key_rx), (''credential_url'', credential_url_rx), (''authorization'', authorization_rx),
      (''named_secret'', named_secret_rx), (''aws_access_key'', aws_access_key_rx), (''github_token'', github_token_rx),
      (''provider_token'', provider_token_rx)]"

definition PII_PATTERNS :: "(string \<times> rx) list" where
  "PII_PATTERNS = [(''email'', email_rx), (''phone'', phone_rx)]"

section \<open>Redaction\<close>

record redaction_result =
  red_text :: string
  red_count :: nat
  red_categories :: "string list"

text \<open>One pattern of the two loops of \<^verbatim>\<open>redact\<close>.\<close>

definition redact_pattern :: "(rx_pos \<Rightarrow> string) \<Rightarrow> string \<times> rx \<Rightarrow> redaction_result \<Rightarrow> redaction_result" where
  "redact_pattern f p r =
     (case rx_subn (snd p) f [] (red_text r) of (t, n) \<Rightarrow>
        \<lparr>red_text = t, red_count = red_count r + n,
         red_categories = (if n = 0 \<or> fst p \<in> set (red_categories r) then red_categories r
                           else red_categories r @ [fst p])\<rparr>)"

definition keep_secret_name :: "rx_pos \<Rightarrow> string" where
  "keep_secret_name m = rx_group m @ REDACTED"

definition redact :: "string \<Rightarrow> redaction_result" where
  "redact s =
     (let clean = foldl (\<lambda>r p. redact_pattern
            (if fst p = ''named_secret'' then keep_secret_name else (\<lambda>_. REDACTED)) p r)
            \<lparr>red_text = s, red_count = 0, red_categories = []\<rparr> SECRET_PATTERNS in
      foldl (\<lambda>r p. redact_pattern (\<lambda>_. REDACTED_PII) p r) clean PII_PATTERNS)"

abbreviation redacted :: "string \<Rightarrow> string" where
  "redacted s \<equiv> red_text (redact s)"

section \<open>Metadata\<close>

definition SENSITIVE_KEY_PARTS :: "string list" where
  "SENSITIVE_KEY_PARTS =
     [''apikey'', ''accesstoken'', ''authorization'', ''credential'', ''password'', ''passwd'', ''privatekey'', ''secret'',
      ''token'']"

fun has_part :: "string \<Rightarrow> string \<Rightarrow> bool" where
  "has_part part [] = (part = [])"
| "has_part part (c # s) = (take (length part) (c # s) = part \<or> has_part part s)"

text \<open>\<^verbatim>\<open>re.sub(r"[^a-z0-9]", "", str(key).casefold())\<close>; the sharp s folds to two letters.\<close>

definition normalized_key :: "string \<Rightarrow> string" where
  "normalized_key key =
     concat (map (\<lambda>c. if c = CHR 0xDF then ''ss''
        else let d = lower_char c in if between (CHR ''a'') (CHR ''z'') d \<or> is_digit d then [d] else []) key)"

definition secret_key :: "string \<Rightarrow> bool" where
  "secret_key key \<longleftrightarrow> (\<exists>part \<in> set SENSITIVE_KEY_PARTS. has_part part (normalized_key key))"

fun scrub_json :: "jval \<Rightarrow> exn + jval" and scrub_list :: "jval list \<Rightarrow> exn + jval list"
  and scrub_fields :: "(string \<times> jval) list \<Rightarrow> exn + (string \<times> jval) list" where
  "scrub_json (JStr s) = Inr (JStr (redacted s))"
| "scrub_json (JObj d) = bindR (scrub_fields d) (\<lambda>d'. Inr (JObj d'))"
| "scrub_json (JArr xs) = bindR (scrub_list xs) (\<lambda>ys. Inr (JArr ys))"
| "scrub_json JNonFinite = Inl (memory_invalid ''Memory metadata numbers must be finite'')"
| "scrub_json (JForeign i) = Inl (memory_invalid ''Memory metadata must contain JSON-compatible values'')"
| "scrub_json v = Inr v"
| "scrub_list [] = Inr []"
| "scrub_list (x # xs) = bindR (scrub_json x) (\<lambda>y. bindR (scrub_list xs) (\<lambda>ys. Inr (y # ys)))"
| "scrub_fields [] = Inr []"
| "scrub_fields (p # d) =
     bindR (if secret_key (fst p) then Inr (JStr REDACTED) else scrub_json (snd p)) (\<lambda>v.
     bindR (scrub_fields d) (\<lambda>d'. Inr ((fst p, v) # d')))"

end
