(* ===== verification/Memory_Types.thy ===== *)
theory Memory_Types
  imports Memory_Redaction Run_Loop
begin

text \<open>
  Memory values, \<^verbatim>\<open>aihi/agent/memory/types.py\<close>: candidates, durable records with their provenance and
  tombstones, and the access a caller has. A constructor returns the object with the fields its
  \<^verbatim>\<open>__post_init__\<close> has cleaned; \<^verbatim>\<open>replace\<close> constructs and so cleans again. \<open>sha\<close> is
  \<^verbatim>\<open>hashlib.sha256(...).hexdigest()\<close> on bytes.
\<close>

section \<open>Kinds, scopes and fields\<close>

datatype memory_kind = Working | Episodic | Semantic | Procedural

datatype memory_scope = RunScope | SessionScope | ProjectScope | UserScope | GlobalScope

fun kind_text :: "memory_kind \<Rightarrow> string" where
  "kind_text Working = ''working''"
| "kind_text Episodic = ''episodic''"
| "kind_text Semantic = ''semantic''"
| "kind_text Procedural = ''procedural''"

fun scope_text :: "memory_scope \<Rightarrow> string" where
  "scope_text RunScope = ''run''"
| "scope_text SessionScope = ''session''"
| "scope_text ProjectScope = ''project''"
| "scope_text UserScope = ''user''"
| "scope_text GlobalScope = ''global''"

definition MEMORY_KINDS :: "memory_kind list" where
  "MEMORY_KINDS = [Working, Episodic, Semantic, Procedural]"

definition MEMORY_SCOPES :: "memory_scope list" where
  "MEMORY_SCOPES = [RunScope, SessionScope, ProjectScope, UserScope, GlobalScope]"

definition require_memory_text :: "string \<Rightarrow> string \<Rightarrow> nat \<Rightarrow> exn + string" where
  "require_memory_text s name max_length =
     (if blank s \<or> length s > max_length
      then Inl (memory_invalid (''Memory '' @ name @ '' must be a non-empty string of at most '' @
             show_nat max_length @ '' characters''))
      else Inr (strip s))"

definition memory_field_text :: "jobj \<Rightarrow> string \<Rightarrow> exn + string" where
  "memory_field_text d name =
     (case get_or_none d name of
        JStr s \<Rightarrow> Inr s | _ \<Rightarrow> Inl (memory_invalid (''Memory '' @ name @ '' must be a string'')))"

definition memory_field_optional :: "jobj \<Rightarrow> string \<Rightarrow> exn + string option" where
  "memory_field_optional d name =
     (case get_or_none d name of
        JNull \<Rightarrow> Inr None | JStr s \<Rightarrow> Inr (Some s)
      | _ \<Rightarrow> Inl (memory_invalid (''Memory '' @ name @ '' must be a string or null'')))"

definition memory_field_enum :: "jobj \<Rightarrow> string \<Rightarrow> ('e \<Rightarrow> string) \<Rightarrow> 'e list \<Rightarrow> exn + 'e" where
  "memory_field_enum d name txt members =
     bindR (memory_field_text d name) (\<lambda>s.
       case find_first (\<lambda>k. txt k = s) members of
         Some k \<Rightarrow> Inr k | None \<Rightarrow> Inl (memory_invalid (''Memory '' @ name @ '' is invalid'')))"

fun memory_number :: "jval \<Rightarrow> rat option" where
  "memory_number (JInt i) = Some (rat_of_int i)"
| "memory_number (JFloat r) = Some r"
| "memory_number _ = None"

definition memory_field_number :: "jobj \<Rightarrow> string \<Rightarrow> exn + jval" where
  "memory_field_number d name =
     (let v = get_or_none d name in
      if memory_number v = None then Inl (memory_invalid (''Memory '' @ name @ '' must be a finite number'')) else Inr v)"

definition memory_field_metadata :: "jobj \<Rightarrow> string \<Rightarrow> exn + jobj" where
  "memory_field_metadata d what =
     (case get_or d ''metadata'' (JObj []) of
        JObj m \<Rightarrow> Inr m | _ \<Rightarrow> Inl (memory_invalid (''Memory '' @ what @ '' metadata must be an object'')))"

definition id_char :: "char \<Rightarrow> bool" where
  "id_char c \<longleftrightarrow> is_letter c \<or> is_digit c \<or> one_of ''_.-'' c"

definition require_memory_id :: "string \<Rightarrow> string \<Rightarrow> exn + string" where
  "require_memory_id s name =
     (case s of
        c # cs \<Rightarrow>
          (if is_letter c \<and> list_all id_char cs \<and> length cs \<le> 127 then Inr s
           else Inl (memory_invalid (''Memory '' @ name @ '' has an invalid identifier'')))
      | [] \<Rightarrow> Inl (memory_invalid (''Memory '' @ name @ '' has an invalid identifier'')))"

section \<open>Candidates\<close>

record memory_candidate =
  mc_content :: string
  mc_kind :: memory_kind
  mc_scope :: memory_scope
  mc_scope_id :: string
  mc_source :: string
  mc_confidence :: jval
  mc_session :: "string option"
  mc_run :: "string option"
  mc_metadata :: jobj
  mc_id :: string

definition optional_memory_text :: "string option \<Rightarrow> string \<Rightarrow> exn + string option" where
  "optional_memory_text v name =
     (case v of None \<Rightarrow> Inr None | Some s \<Rightarrow> bindR (require_memory_text s name 4000) (\<lambda>t. Inr (Some t)))"

text \<open>What \<^verbatim>\<open>MemoryCandidate.__post_init__\<close> checks and cleans.\<close>

definition check_confidence :: "jval \<Rightarrow> exn + unit" where
  "check_confidence v =
     (case memory_number v of
        Some r \<Rightarrow> if 0 \<le> r \<and> r \<le> 1 then Inr ()
          else Inl (memory_invalid ''Memory confidence must be a number between 0 and 1'')
      | None \<Rightarrow> Inl (memory_invalid ''Memory confidence must be a number between 0 and 1''))"

definition check_provenance :: "memory_scope \<Rightarrow> string \<Rightarrow> string option \<Rightarrow> string option \<Rightarrow> exn + unit" where
  "check_provenance scope scope_id session run =
     (if scope = SessionScope \<and> session \<noteq> None \<and> session \<noteq> Some scope_id
      then Inl (memory_invalid ''Session memory scope_id must match session_id'')
      else if scope = RunScope \<and> run \<noteq> None \<and> run \<noteq> Some scope_id
      then Inl (memory_invalid ''Run memory scope_id must match run_id'')
      else Inr ())"

definition check_candidate :: "memory_candidate \<Rightarrow> exn + memory_candidate" where
  "check_candidate c =
     bindR (require_memory_id (mc_id c) ''candidate_id'') (\<lambda>i.
     bindR (require_memory_text (mc_content c) ''content'' 4000) (\<lambda>content.
     bindR (require_memory_text (mc_source c) ''source'' 256) (\<lambda>source.
     bindR (require_memory_text (mc_scope_id c) ''scope_id'' 256) (\<lambda>scope_id.
     bindR (check_confidence (mc_confidence c)) (\<lambda>_.
     bindR (optional_memory_text (mc_session c) ''session_id'') (\<lambda>session.
     bindR (optional_memory_text (mc_run c) ''run_id'') (\<lambda>run.
     bindR (check_provenance (mc_scope c) scope_id session run) (\<lambda>_.
     bindR (scrub_fields (mc_metadata c)) (\<lambda>metadata.
       Inr (c\<lparr>mc_content := redacted content, mc_scope_id := scope_id, mc_source := redacted source,
              mc_session := session, mc_run := run, mc_metadata := metadata\<rparr>))))))))))"

definition candidate_to_dict :: "memory_candidate \<Rightarrow> jobj" where
  "candidate_to_dict c =
     [(''candidate_id'', JStr (mc_id c)), (''content'', JStr (mc_content c)), (''kind'', JStr (kind_text (mc_kind c))),
      (''scope'', JStr (scope_text (mc_scope c))), (''scope_id'', JStr (mc_scope_id c)),
      (''source'', JStr (mc_source c)), (''confidence'', mc_confidence c), (''session_id'', jopt_str (mc_session c)),
      (''run_id'', jopt_str (mc_run c)), (''metadata'', JObj (mc_metadata c))]"

definition candidate_from_dict :: "jobj \<Rightarrow> exn + memory_candidate" where
  "candidate_from_dict d =
     bindR (memory_field_text d ''candidate_id'') (\<lambda>i.
     bindR (memory_field_text d ''content'') (\<lambda>content.
     bindR (memory_field_enum d ''kind'' kind_text MEMORY_KINDS) (\<lambda>kind.
     bindR (memory_field_enum d ''scope'' scope_text MEMORY_SCOPES) (\<lambda>scope.
     bindR (memory_field_text d ''scope_id'') (\<lambda>scope_id.
     bindR (memory_field_text d ''source'') (\<lambda>source.
     bindR (memory_field_number d ''confidence'') (\<lambda>confidence.
     bindR (memory_field_optional d ''session_id'') (\<lambda>session.
     bindR (memory_field_optional d ''run_id'') (\<lambda>run.
     bindR (memory_field_metadata d ''candidate'') (\<lambda>metadata.
       check_candidate \<lparr>mc_content = content, mc_kind = kind, mc_scope = scope, mc_scope_id = scope_id,
         mc_source = source, mc_confidence = confidence, mc_session = session, mc_run = run,
         mc_metadata = metadata, mc_id = i\<rparr>))))))))))"

section \<open>Records\<close>

record memory_record =
  mr_content :: string
  mr_kind :: memory_kind
  mr_scope :: memory_scope
  mr_scope_id :: string
  mr_source :: string
  mr_confidence :: jval
  mr_id :: string
  mr_session :: "string option"
  mr_run :: "string option"
  mr_created :: string
  mr_updated :: string
  mr_metadata :: jobj
  mr_deleted :: "string option"

definition record_candidate :: "memory_record \<Rightarrow> memory_candidate" where
  "record_candidate r =
     \<lparr>mc_content = mr_content r, mc_kind = mr_kind r, mc_scope = mr_scope r, mc_scope_id = mr_scope_id r,
      mc_source = mr_source r, mc_confidence = mr_confidence r, mc_session = mr_session r, mc_run = mr_run r,
      mc_metadata = mr_metadata r, mc_id = ''candidate''\<rparr>"

definition take_candidate :: "memory_record \<Rightarrow> memory_candidate \<Rightarrow> memory_record" where
  "take_candidate r c =
     r\<lparr>mr_content := mc_content c, mr_kind := mc_kind c, mr_scope := mc_scope c, mr_scope_id := mc_scope_id c,
       mr_source := mc_source c, mr_confidence := mc_confidence c, mr_session := mc_session c, mr_run := mc_run c,
       mr_metadata := mc_metadata c\<rparr>"

text \<open>The checks of \<^verbatim>\<open>MemoryRecord.__post_init__\<close> behind those of its candidate.\<close>

definition check_durable :: "memory_record \<Rightarrow> exn + unit" where
  "check_durable r =
     (if mr_scope r = SessionScope \<and> mr_session r \<noteq> Some (mr_scope_id r)
      then Inl (memory_invalid ''Durable session memory requires matching session_id'')
      else if mr_scope r = RunScope \<and> mr_run r \<noteq> Some (mr_scope_id r)
      then Inl (memory_invalid ''Durable run memory requires matching run_id'')
      else if mr_created r = [] then Inl (memory_invalid ''Memory created_at must be non-empty'')
      else if mr_updated r = [] then Inl (memory_invalid ''Memory updated_at must be non-empty'')
      else if mr_deleted r = Some [] then Inl (memory_invalid ''Memory deleted_at must be a timestamp or null'')
      else Inr ())"

definition check_record :: "memory_record \<Rightarrow> exn + memory_record" where
  "check_record r =
     bindR (require_memory_id (mr_id r) ''memory_id'') (\<lambda>i.
     bindR (check_candidate (record_candidate r)) (\<lambda>c.
     let r' = take_candidate r c in
     bindR (check_durable r') (\<lambda>_. Inr r')))"

definition memory_deleted :: "memory_record \<Rightarrow> bool" where
  "memory_deleted r \<longleftrightarrow> mr_deleted r \<noteq> None"

definition fingerprint :: "(string \<Rightarrow> string) \<Rightarrow> memory_record \<Rightarrow> string" where
  "fingerprint sha r =
     sha (utf8_encode (kind_text (mr_kind r) @ [CHR 0x00] @ scope_text (mr_scope r) @ [CHR 0x00] @
       mr_scope_id r @ [CHR 0x00] @ mr_content r))"

text \<open>\<^verbatim>\<open>MemoryRecord(...)\<close> with its drawn identifier and times, from a candidate's fields.\<close>

definition new_record :: "memory_candidate \<Rightarrow> ('w world_scheme, memory_record) sm" where
  "new_record c =
     bindE (new_id ''mem'') (\<lambda>i. bindE utc_now (\<lambda>created. bindE utc_now (\<lambda>updated.
       liftE (check_record \<lparr>mr_content = mc_content c, mr_kind = mc_kind c, mr_scope = mc_scope c,
         mr_scope_id = mc_scope_id c, mr_source = mc_source c, mr_confidence = mc_confidence c, mr_id = i,
         mr_session = mc_session c, mr_run = mc_run c, mr_created = created, mr_updated = updated,
         mr_metadata = mc_metadata c, mr_deleted = None\<rparr>))))"

definition record_to_dict :: "(string \<Rightarrow> string) \<Rightarrow> memory_record \<Rightarrow> jobj" where
  "record_to_dict sha r =
     [(''memory_id'', JStr (mr_id r)), (''content'', JStr (mr_content r)), (''kind'', JStr (kind_text (mr_kind r))),
      (''scope'', JStr (scope_text (mr_scope r))), (''scope_id'', JStr (mr_scope_id r)),
      (''source'', JStr (mr_source r)), (''confidence'', mr_confidence r), (''session_id'', jopt_str (mr_session r)),
      (''run_id'', jopt_str (mr_run r)), (''created_at'', JStr (mr_created r)), (''updated_at'', JStr (mr_updated r)),
      (''metadata'', JObj (mr_metadata r)), (''deleted_at'', jopt_str (mr_deleted r)),
      (''fingerprint'', JStr (fingerprint sha r))]"

definition record_from_dict :: "jobj \<Rightarrow> exn + memory_record" where
  "record_from_dict d =
     bindR (memory_field_text d ''memory_id'') (\<lambda>i.
     bindR (memory_field_text d ''content'') (\<lambda>content.
     bindR (memory_field_enum d ''kind'' kind_text MEMORY_KINDS) (\<lambda>kind.
     bindR (memory_field_enum d ''scope'' scope_text MEMORY_SCOPES) (\<lambda>scope.
     bindR (memory_field_text d ''scope_id'') (\<lambda>scope_id.
     bindR (memory_field_text d ''source'') (\<lambda>source.
     bindR (memory_field_number d ''confidence'') (\<lambda>confidence.
     bindR (memory_field_optional d ''session_id'') (\<lambda>session.
     bindR (memory_field_optional d ''run_id'') (\<lambda>run.
     bindR (memory_field_text d ''created_at'') (\<lambda>created.
     bindR (memory_field_text d ''updated_at'') (\<lambda>updated.
     bindR (memory_field_optional d ''deleted_at'') (\<lambda>deleted.
     bindR (memory_field_metadata d ''record'') (\<lambda>metadata.
       check_record \<lparr>mr_content = content, mr_kind = kind, mr_scope = scope, mr_scope_id = scope_id,
         mr_source = source, mr_confidence = confidence, mr_id = i, mr_session = session, mr_run = run,
         mr_created = created, mr_updated = updated, mr_metadata = metadata, mr_deleted = deleted\<rparr>)))))))))))))"

section \<open>Access\<close>

record memory_access =
  mac_ids :: "string set"
  mac_grants :: "(memory_scope \<times> string) set"
  mac_global :: bool
  mac_admin :: bool

definition check_access :: "memory_access \<Rightarrow> exn + memory_access" where
  "check_access a =
     (if [] \<in> mac_ids a then Inl (memory_invalid ''Memory access scope_ids must be non-empty strings'')
      else if [] \<in> snd ` mac_grants a then Inl (memory_invalid ''Memory access scope grant id must be non-empty'')
      else Inr a)"

definition access_for_scope :: "string \<Rightarrow> memory_scope \<Rightarrow> exn + memory_access" where
  "access_for_scope scope_id scope =
     check_access
       (if scope = SessionScope then \<lparr>mac_ids = {scope_id}, mac_grants = {}, mac_global = False, mac_admin = False\<rparr>
        else if scope = GlobalScope then \<lparr>mac_ids = {}, mac_grants = {}, mac_global = True, mac_admin = False\<rparr>
        else \<lparr>mac_ids = {}, mac_grants = {(scope, scope_id)}, mac_global = False, mac_admin = False\<rparr>)"

definition can_read :: "memory_access \<Rightarrow> memory_record \<Rightarrow> bool" where
  "can_read a r \<longleftrightarrow>
     mac_admin a \<or>
     (if mr_scope r = GlobalScope then mac_global a
      else mr_scope r = SessionScope \<and> mr_scope_id r \<in> mac_ids a \<or> (mr_scope r, mr_scope_id r) \<in> mac_grants a)"

definition can_delete :: "memory_access \<Rightarrow> memory_record \<Rightarrow> bool" where
  "can_delete a r \<longleftrightarrow> can_read a r"

end
