(* ===== verification/Memory_Store.thy ===== *)
theory Memory_Store
  imports Memory_Types
begin

text \<open>
  The reference memory store, \<^verbatim>\<open>InMemoryMemoryStore\<close> of \<^verbatim>\<open>aihi/agent/memory/store.py\<close>. A method is an effect
  on \<open>menv\<close>, whose \<open>mem_records\<close> is the store's dictionary; the lock makes one call one atomic step. Every
  record that goes in or comes out is constructed once more (\<open>replace\<close>), and so cleaned and checked again.
\<close>

section \<open>State\<close>

record menv = world +
  mem_records :: "(string, memory_record) dict"
  mem_emitted :: "event list"

definition get_records :: "('z menv_scheme, (string, memory_record) dict) sm" where
  "get_records = (\<lambda>s. (Inr (mem_records s), s))"

definition keep_record :: "memory_record \<Rightarrow> ('z menv_scheme, unit) sm" where
  "keep_record r = modifyE (\<lambda>s. s\<lparr>mem_records := dict_set (mr_id r) r (mem_records s)\<rparr>)"

definition clone_record :: "memory_record \<Rightarrow> exn + memory_record" where
  "clone_record r = check_record r"

section \<open>Text search\<close>

text \<open>\<^verbatim>\<open>casefold\<close> on Latin-1 text, but for the micro sign, which it maps to a letter outside.\<close>

definition fold_char :: "char \<Rightarrow> string" where
  "fold_char c =
     (let k = of_char c :: nat in
      if k = 223 then ''ss'' else if 192 \<le> k \<and> k \<le> 222 \<and> k \<noteq> 215 then [char_of (k + 32)] else [lower_char c])"

definition casefold :: "string \<Rightarrow> string" where
  "casefold s = concat (map fold_char s)"

text \<open>\<^verbatim>\<open>split()\<close>: the runs of characters that are not spaces, with the run that is being read first.\<close>

fun words_from :: "string \<Rightarrow> string \<Rightarrow> string list" where
  "words_from w [] = (if w = [] then [] else [w])"
| "words_from w (c # s) =
     (if is_space c then (if w = [] then [] else [w]) @ words_from [] s else words_from (w @ [c]) s)"

definition search_terms :: "string \<Rightarrow> string list" where
  "search_terms query = words_from [] (casefold query)"

text \<open>\<^verbatim>\<open>haystack.count(term)\<close>: occurrences that do not overlap; \<open>k\<close> characters are still to be skipped.\<close>

fun occurrences :: "string \<Rightarrow> nat \<Rightarrow> string \<Rightarrow> nat" where
  "occurrences t k [] = 0"
| "occurrences t (Suc k) (c # s) = occurrences t k s"
| "occurrences t 0 (c # s) =
     (if take (length t) (c # s) = t then Suc (occurrences t (length t - 1) s) else occurrences t 0 s)"

definition search_score :: "string list \<Rightarrow> memory_record \<Rightarrow> nat" where
  "search_score terms r =
     (let haystack = casefold (mr_content r @ '' '' @ mr_source r) in
      if terms = [] then 1 else sum_list (map (\<lambda>t. occurrences t 0 haystack) terms))"

text \<open>\<^verbatim>\<open>_timestamp\<close>, in microseconds.\<close>

definition record_time :: "string \<Rightarrow> int" where
  "record_time s = (case fromisoformat s of Some t \<Rightarrow> t | None \<Rightarrow> 0)"

definition search_rank :: "nat \<times> memory_record \<Rightarrow> int \<times> int \<times> string" where
  "search_rank p = (- int (fst p), - record_time (mr_updated (snd p)), mr_id (snd p))"

definition search_match :: "memory_scope option \<Rightarrow> string option \<Rightarrow> bool \<Rightarrow> memory_record \<Rightarrow> bool" where
  "search_match scope scope_id include_deleted r \<longleftrightarrow>
     (include_deleted \<or> \<not> memory_deleted r) \<and> (\<forall>k. scope = Some k \<longrightarrow> mr_scope r = k) \<and>
     (\<forall>i. scope_id = Some i \<longrightarrow> mr_scope_id r = i)"

definition ranked_records ::
  "string \<Rightarrow> memory_scope option \<Rightarrow> string option \<Rightarrow> bool \<Rightarrow> (string, memory_record) dict \<Rightarrow> memory_record list" where
  "ranked_records query scope scope_id include_deleted d =
     (let scored = map (\<lambda>r. (search_score (search_terms query) r, r))
            (filter (search_match scope scope_id include_deleted) (map snd d)) in
      map snd (sort_key search_rank (filter (\<lambda>p. fst p \<noteq> 0) scored)))"

section \<open>The methods\<close>

definition clean_record :: "memory_record \<Rightarrow> exn + memory_record" where
  "clean_record r =
     bindR (scrub_fields (mr_metadata r)) (\<lambda>metadata.
       check_record (r\<lparr>mr_content := redacted (mr_content r), mr_source := redacted (mr_source r),
         mr_metadata := metadata\<rparr>))"

definition memstore_put :: "memory_record \<Rightarrow> ('z menv_scheme, memory_record) sm" where
  "memstore_put r =
     bindE (liftE (clean_record r)) (\<lambda>clean.
     bindE get_records (\<lambda>d.
     if dict_get d (mr_id clean) \<noteq> None then raiseE (memory_conflict (mr_id clean))
     else bindE (liftE (clone_record clean)) (\<lambda>stored.
          thenE (keep_record stored) (liftE (clone_record stored)))))"

definition new_memory_store :: "memory_record list \<Rightarrow> ('z menv_scheme, unit) sm" where
  "new_memory_store rs =
     thenE (modifyE (\<lambda>s. s\<lparr>mem_records := []\<rparr>)) (thenE (mapE memstore_put rs) (retE ()))"

definition memstore_get :: "string \<Rightarrow> bool \<Rightarrow> ('z menv_scheme, memory_record) sm" where
  "memstore_get i include_deleted =
     bindE get_records (\<lambda>d.
     case dict_get d i of
       None \<Rightarrow> raiseE (memory_not_found i)
     | Some r \<Rightarrow> if memory_deleted r \<and> \<not> include_deleted then raiseE (memory_not_found i)
         else liftE (clone_record r))"

definition memstore_search ::
  "string \<Rightarrow> memory_scope option \<Rightarrow> string option \<Rightarrow> int \<Rightarrow> bool \<Rightarrow> ('z menv_scheme, memory_record list) sm" where
  "memstore_search query scope scope_id limit include_deleted =
     (if limit \<le> 0 then raiseE (value_error ''Memory search limit must be positive'')
      else bindE get_records (\<lambda>d.
        liftE (mapR clone_record (take (nat limit) (ranked_records query scope scope_id include_deleted d)))))"

definition memstore_delete :: "string \<Rightarrow> string option \<Rightarrow> ('z menv_scheme, memory_record) sm" where
  "memstore_delete i deleted_at =
     bindE get_records (\<lambda>d.
     case dict_get d i of
       None \<Rightarrow> raiseE (memory_not_found i)
     | Some r \<Rightarrow>
         if memory_deleted r then liftE (clone_record r)
         else bindE (case deleted_at of Some (c # t) \<Rightarrow> retE (c # t) | _ \<Rightarrow> utc_now) (\<lambda>now.
              bindE (liftE (check_record (r\<lparr>mr_deleted := Some now, mr_updated := now\<rparr>))) (\<lambda>tomb.
              thenE (modifyE (\<lambda>s. s\<lparr>mem_records := dict_set i tomb (mem_records s)\<rparr>))
                (liftE (clone_record tomb)))))"

definition memstore_all :: "bool \<Rightarrow> ('z menv_scheme, memory_record list) sm" where
  "memstore_all include_deleted =
     bindE get_records (\<lambda>d.
       liftE (mapR clone_record
         (filter (\<lambda>r. include_deleted \<or> \<not> memory_deleted r) (sort_key mr_id (map snd d)))))"

end
