(* ===== verification/Memory_Service.thy ===== *)
theory Memory_Service
  imports Memory_Store
begin

text \<open>
  The memory service: extraction of candidates (\<^verbatim>\<open>extraction.py\<close>), governed writes, scoped retrieval and
  deletion with their audit events (\<^verbatim>\<open>service.py\<close>), and the two directions in which a run uses it
  (\<^verbatim>\<open>context.py\<close>), all under \<^verbatim>\<open>aihi/agent/memory/\<close>.

  An event sink is outside code: it is called with an event and either returns or raises, as the sink
  says for each of its calls; \<open>mem_emitted\<close> lists the events that sinks were called with.
\<close>

section \<open>Extraction\<close>

definition explicit_rx :: rx where
  "explicit_rx =
     (let sp = star (Chars is_space) in
      seq [optional (seq [any_case ''please'', spaces]),
           any_of (map any_case [''remember'', ''note'', ''keep in mind'', ''store'']), sp,
           optional (Alt (any_case ''that'') (exactly '':'')), spaces,
           Group (some (Chars (\<lambda>c. c \<noteq> CHR 0x0A))), AtEnd])"

definition whole_words :: "string list \<Rightarrow> rx" where
  "whole_words ws = seq [Edge, any_of (map any_case ws), Edge]"

definition preference_rx :: rx where
  "preference_rx =
     (let s = optional (any_case ''s'') in
      seq [Edge, any_of [seq [any_case ''prefer'', s], any_case ''preference'', seq [any_case ''like'', s],
             seq [any_case ''dislike'', s], any_case ''always'', any_case ''never''], Edge])"

definition procedure_rx :: rx where
  "procedure_rx = whole_words [''step'', ''steps'', ''workflow'', ''runbook'', ''procedure'', ''process'']"

definition paragraph_rx :: rx where
  "paragraph_rx =
     Alt (Many True 2 None (seq [optional (exactly [CHR 0x0D]), exactly [CHR 0x0A]]))
         (seq [After (one_of ''.!?''), spaces])"

text \<open>The statement that a paragraph asks to remember, if it does.\<close>

definition remembered :: "string \<Rightarrow> string option" where
  "remembered paragraph =
     (case rx_match explicit_rx (strip paragraph) of
        None \<Rightarrow> None
      | Some m \<Rightarrow> (let content = redacted (strip (rx_group m)) in if content = [] then None else Some content))"

definition content_kind :: "memory_scope \<Rightarrow> string \<Rightarrow> memory_kind" where
  "content_kind scope content =
     (if rx_found procedure_rx [] content then Procedural
      else if scope = RunScope then Working
      else if rx_found preference_rx [] content then Semantic
      else Episodic)"

type_synonym 'z memory_extractor =
  "string \<Rightarrow> string \<Rightarrow> memory_scope \<Rightarrow> string \<Rightarrow> string option \<Rightarrow> string option \<Rightarrow> ('z menv_scheme, memory_candidate list) sm"

definition new_candidate ::
  "string \<Rightarrow> string \<Rightarrow> memory_scope \<Rightarrow> string \<Rightarrow> string option \<Rightarrow> string option \<Rightarrow>
     ('w world_scheme, memory_candidate) sm" where
  "new_candidate content source scope scope_id session run =
     bindE (new_id ''memcand'') (\<lambda>i.
       liftE (check_candidate \<lparr>mc_content = content, mc_kind = content_kind scope content, mc_scope = scope,
         mc_scope_id = scope_id, mc_source = source, mc_confidence = JFloat (8 / 10), mc_session = session,
         mc_run = run, mc_metadata = [(''extractor'', JStr ''deterministic-v1'')], mc_id = i\<rparr>))"

text \<open>The loop of \<^verbatim>\<open>DeterministicMemoryExtractor.extract\<close>; \<open>n\<close> candidates may still be found.\<close>

primrec extract_paragraphs ::
  "(string \<Rightarrow> ('z menv_scheme, memory_candidate) sm) \<Rightarrow> string list \<Rightarrow> nat \<Rightarrow> ('z menv_scheme, memory_candidate list) sm" where
  "extract_paragraphs build [] n = retE []"
| "extract_paragraphs build (p # ps) n =
     (case remembered p of
        None \<Rightarrow> extract_paragraphs build ps n
      | Some content \<Rightarrow>
          bindE (build content) (\<lambda>c.
            if n \<le> 1 then retE [c] else bindE (extract_paragraphs build ps (n - 1)) (\<lambda>cs. retE (c # cs))))"

definition deterministic_extract :: "nat \<Rightarrow> 'z memory_extractor" where
  "deterministic_extract max_candidates s source scope scope_id session run =
     extract_paragraphs (\<lambda>content. new_candidate content source scope scope_id session run)
       (rx_split paragraph_rx [] [] s) max_candidates"

definition new_deterministic_extractor :: "int \<Rightarrow> exn + 'z memory_extractor" where
  "new_deterministic_extractor max_candidates =
     (if max_candidates \<le> 0 then Inl (value_error ''max_candidates must be positive'')
      else Inr (deterministic_extract (nat max_candidates)))"

section \<open>The service\<close>

type_synonym memory_sink = "nat \<Rightarrow> event \<Rightarrow> exn option"

record 'z memory_service =
  msv_extractor :: "'z memory_extractor"
  msv_sink :: "memory_sink option"
  msv_session :: "string option"
  msv_write_access :: "memory_access option"
  msv_audit :: bool

definition call_memory_sink :: "memory_sink \<Rightarrow> event \<Rightarrow> ('z menv_scheme, unit) sm" where
  "call_memory_sink f e = (\<lambda>s.
     (case f (length (mem_emitted s)) e of None \<Rightarrow> Inr () | Some err \<Rightarrow> Inl err,
      s\<lparr>mem_emitted := mem_emitted s @ [e]\<rparr>))"

definition sink_or :: "memory_sink option \<Rightarrow> 'z memory_service \<Rightarrow> memory_sink option" where
  "sink_or sink svc = (case sink of Some f \<Rightarrow> Some f | None \<Rightarrow> msv_sink svc)"

definition check_audit ::
  "'z memory_service \<Rightarrow> string option \<Rightarrow> string option \<Rightarrow> memory_scope \<Rightarrow> string \<Rightarrow> memory_sink option \<Rightarrow> exn + unit" where
  "check_audit svc session run scope scope_id sink =
     (if \<not> msv_audit svc then Inr ()
      else if sink_or sink svc = None then Inl (memory_invalid ''Memory audit event sink is required'')
      else if session = None \<and> msv_session svc = None then Inl (memory_invalid ''Memory audit event requires a session_id'')
      else if scope = SessionScope \<and> session \<noteq> Some scope_id
      then Inl (memory_invalid ''Session memory audit requires matching provenance'')
      else if scope = RunScope \<and> run \<noteq> Some scope_id
      then Inl (memory_invalid ''Run memory audit requires matching provenance'')
      else Inr ())"

text \<open>\<^verbatim>\<open>session_id or self.event_session_id\<close>.\<close>

definition event_session :: "'z memory_service \<Rightarrow> string option \<Rightarrow> string option" where
  "event_session svc session = (case session of Some (c # t) \<Rightarrow> session | _ \<Rightarrow> msv_session svc)"

definition emit_memory ::
  "'z memory_service \<Rightarrow> string \<Rightarrow> jobj \<Rightarrow> string option \<Rightarrow> string option \<Rightarrow> memory_scope \<Rightarrow> string \<Rightarrow>
     memory_sink option \<Rightarrow> ('z menv_scheme, unit) sm" where
  "emit_memory svc ty data session run scope scope_id sink =
     thenE (liftE (check_audit svc session run scope scope_id (sink_or sink svc)))
       (case (sink_or sink svc, event_session svc session) of
          (Some f, Some sid) \<Rightarrow> bindE (new_event ty sid run data) (call_memory_sink f)
        | _ \<Rightarrow> retE ())"

definition clean_candidate :: "memory_candidate \<Rightarrow> exn + memory_candidate" where
  "clean_candidate c =
     bindR (scrub_fields (mc_metadata c)) (\<lambda>metadata.
       check_candidate (c\<lparr>mc_content := redacted (mc_content c), mc_source := redacted (mc_source c),
         mc_metadata := metadata\<rparr>))"

definition memory_extract ::
  "'z memory_service \<Rightarrow> string \<Rightarrow> string \<Rightarrow> memory_scope \<Rightarrow> string \<Rightarrow> string option \<Rightarrow> string option \<Rightarrow>
     memory_sink option \<Rightarrow> ('z menv_scheme, memory_candidate list) sm" where
  "memory_extract svc s source scope scope_id session run sink =
     bindE (msv_extractor svc s source scope scope_id session run) (mapE (\<lambda>c.
       bindE (liftE (clean_candidate c)) (\<lambda>clean.
         thenE (emit_memory svc ''memory.candidate'' [(''candidate'', JObj (candidate_to_dict clean))]
                  (mc_session clean) (mc_run clean) (mc_scope clean) (mc_scope_id clean) sink)
           (retE clean))))"

text \<open>Whether the access allows the write; but for global memory it is asked on a record of its own.\<close>

definition write_allowed :: "memory_access \<Rightarrow> memory_candidate \<Rightarrow> ('w world_scheme, bool) sm" where
  "write_allowed a c =
     (if mc_scope c = GlobalScope then retE (mac_global a \<or> mac_admin a)
      else bindE (new_record c) (\<lambda>r. retE (can_read a r)))"

definition write_denial :: "memory_access option \<Rightarrow> memory_candidate \<Rightarrow> exn + memory_access" where
  "write_denial access c =
     (case access of
        None \<Rightarrow> Inl (memory_denied ''Memory writes require an explicit scope access grant'')
      | Some a \<Rightarrow>
          if mc_scope c = SessionScope \<and> mc_session c \<noteq> Some (mc_scope_id c)
          then Inl (memory_denied ''Session memory writes require matching session provenance'')
          else if mc_scope c = RunScope \<and> mc_run c \<noteq> Some (mc_scope_id c)
          then Inl (memory_denied ''Run memory writes require matching run provenance'')
          else Inr a)"

definition candidate_record :: "memory_candidate \<Rightarrow> ('w world_scheme, memory_record) sm" where
  "candidate_record c =
     bindE (liftE (scrub_fields (mc_metadata c))) (\<lambda>metadata.
       new_record (c\<lparr>mc_content := redacted (mc_content c), mc_source := redacted (mc_source c),
         mc_metadata := metadata\<rparr>))"

definition write_access :: "'z memory_service \<Rightarrow> memory_access option \<Rightarrow> memory_access option" where
  "write_access svc access = (case access of Some a \<Rightarrow> Some a | None \<Rightarrow> msv_write_access svc)"

definition save_record ::
  "(string \<Rightarrow> string) \<Rightarrow> 'z memory_service \<Rightarrow> memory_candidate \<Rightarrow> memory_record \<Rightarrow> ('z menv_scheme, memory_record) sm" where
  "save_record sha svc c r =
     bindE (memstore_put r) (\<lambda>saved.
       thenE (emit_memory svc ''memory.written''
                [(''memory'', JObj (record_to_dict sha saved)), (''candidate_id'', JStr (mc_id c))]
                (mc_session c) (mc_run c) (mc_scope c) (mc_scope_id c) None)
         (retE saved))"

definition memory_write ::
  "(string \<Rightarrow> string) \<Rightarrow> 'z memory_service \<Rightarrow> memory_candidate \<Rightarrow> memory_access option \<Rightarrow>
     ('z menv_scheme, memory_record) sm" where
  "memory_write sha svc c access =
     bindE (liftE (write_denial (write_access svc access) c)) (\<lambda>a.
     bindE (write_allowed a c) (\<lambda>allowed.
     if \<not> allowed then raiseE (memory_denied ''Memory write is outside the caller scope'')
     else bindE (candidate_record c) (\<lambda>r.
       thenE (liftE (check_audit svc (mc_session c) (mc_run c) (mc_scope c) (mc_scope_id c) None))
         (bindE (memstore_all False) (\<lambda>existing.
            case find_first (\<lambda>x. \<not> memory_deleted x \<and> fingerprint sha x = fingerprint sha r) existing of
              Some x \<Rightarrow> retE x
            | None \<Rightarrow> save_record sha svc c r)))))"

definition memory_retrieve ::
  "string \<Rightarrow> memory_access \<Rightarrow> memory_scope option \<Rightarrow> string option \<Rightarrow> int \<Rightarrow> ('z menv_scheme, memory_record list) sm" where
  "memory_retrieve query a scope scope_id limit =
     (if limit \<le> 0 then raiseE (value_error ''Memory retrieve limit must be positive'')
      else bindE (memstore_all False) (\<lambda>live.
           bindE (memstore_search query scope scope_id (max limit (int (length live))) False) (\<lambda>rs.
             retE (take (nat limit) (filter (can_read a) rs)))))"

definition memory_delete ::
  "'z memory_service \<Rightarrow> string \<Rightarrow> memory_access \<Rightarrow> string \<Rightarrow> string \<Rightarrow> ('z menv_scheme, memory_record) sm" where
  "memory_delete svc i a reason actor =
     bindE (memstore_get i False) (\<lambda>r.
     if \<not> can_delete a r then raiseE (memory_denied (''Memory deletion is outside the caller scope: '' @ i))
     else thenE (liftE (check_audit svc (mr_session r) (mr_run r) (mr_scope r) (mr_scope_id r) None))
       (bindE (memstore_delete i None) (\<lambda>gone.
          thenE (emit_memory svc ''memory.deleted''
                   [(''memory_id'', JStr (mr_id gone)), (''scope'', JStr (scope_text (mr_scope gone))),
                    (''scope_id'', JStr (mr_scope_id gone)), (''reason'', JStr (redacted reason)),
                    (''actor'', JStr (redacted actor))]
                   (mr_session gone) (mr_run gone) (mr_scope gone) (mr_scope_id gone) None)
            (retE gone))))"

section \<open>A run's use of memory\<close>

definition render_records :: "memory_record list \<Rightarrow> string" where
  "render_records rs =
     join [CHR 0x0A] (map (\<lambda>r. ''- ['' @ kind_text (mr_kind r) @ ''/'' @ scope_text (mr_scope r) @ ''] '' @ mr_content r) rs)"

record memory_contributor =
  mct_access :: memory_access
  mct_scope :: "memory_scope option"
  mct_limit :: int

definition new_memory_contributor :: "memory_access \<Rightarrow> memory_scope option \<Rightarrow> int \<Rightarrow> exn + memory_contributor" where
  "new_memory_contributor a scope limit =
     (if limit \<le> 0 then Inl (value_error ''Memory context limit must be positive'')
      else Inr \<lparr>mct_access = a, mct_scope = scope, mct_limit = limit\<rparr>)"

definition request_scope_id :: "memory_contributor \<Rightarrow> context_request \<Rightarrow> string option" where
  "request_scope_id m q =
     (let given = (\<lambda>i. if i = [] then None else Some i) in
      case mct_scope m of
        Some SessionScope \<Rightarrow> given (cxr_session q) | Some RunScope \<Rightarrow> given (cxr_run q) | _ \<Rightarrow> None)"

definition memory_sections :: "memory_contributor \<Rightarrow> context_request \<Rightarrow> ('z menv_scheme, context_section list) sm" where
  "memory_sections m q =
     (if blank (cxr_user_text q) then retE []
      else bindE (memory_retrieve (cxr_user_text q) (mct_access m) (mct_scope m) (request_scope_id m q) (mct_limit m))
        (\<lambda>rs. let body = render_records rs in
           if body = [] then retE []
           else bindE (liftE (check_context_section
                  \<lparr>sec_title = ''Relevant memory'', sec_body = body, sec_source = ''memory''\<rparr>)) (\<lambda>x. retE [x])))"

definition record_candidates ::
  "'z memory_service \<Rightarrow> memory_scope \<Rightarrow> string \<Rightarrow> run_outcome \<Rightarrow> memory_sink \<Rightarrow> ('z menv_scheme, unit) sm" where
  "record_candidates svc scope source outcome sink =
     (if blank (outcome_assistant outcome) then retE ()
      else let scope_id = (if scope = RunScope then outcome_run outcome else outcome_session outcome) in
        catchE (thenE (memory_extract svc (outcome_assistant outcome) source scope scope_id
                         (Some (outcome_session outcome)) (Some (outcome_run outcome)) (Some sink)) (retE ()))
          (\<lambda>e. if is_memory_error e then retE () else raiseE e))"

end
