(* ===== verification/Memory_Facts.thy ===== *)
theory Memory_Facts
  imports Memory_Service
begin

text \<open>
  What constructing a memory value leaves alone, the well-formedness of the store, and what each method of
  the store and the service does to it: nothing, one new record, or one tombstone.
\<close>

section \<open>Values\<close>

lemma lifted_Inr: "liftE r s = (Inr x, t) \<longleftrightarrow> r = Inr x \<and> t = s"
  by (auto simp: eff_simps split: sum.splits)

lemma require_memory_text_Inr: "require_memory_text s n k = Inr t \<longleftrightarrow> t = strip s \<and> \<not> blank s \<and> length s \<le> k"
  by (auto simp: require_memory_text_def)

lemma optional_memory_text_Inr:
  "optional_memory_text v n = Inr u \<Longrightarrow> u = map_option strip v \<and> u \<noteq> Some []"
  by (auto simp: optional_memory_text_def bindR_Inr_iff require_memory_text_Inr split: option.splits)

lemma require_memory_id_Inr: "require_memory_id s n = Inr t \<Longrightarrow> t = s \<and> s \<noteq> []"
  by (auto simp: require_memory_id_def split: list.splits if_splits)

lemma check_candidate_Inr:
  assumes "check_candidate c = Inr d"
  shows "mc_kind d = mc_kind c" "mc_scope d = mc_scope c" "mc_confidence d = mc_confidence c" "mc_id d = mc_id c"
    "mc_scope_id d = strip (mc_scope_id c)" "mc_session d = map_option strip (mc_session c)"
    "mc_run d = map_option strip (mc_run c)" "mc_session d \<noteq> Some []" "mc_run d \<noteq> Some []" "mc_scope_id d \<noteq> []"
  using assms
  by (auto simp: check_candidate_def bindR_Inr_iff require_memory_text_Inr dest!: optional_memory_text_Inr)

text \<open>Records with the provenance that their scope asks for.\<close>

definition record_ok :: "memory_record \<Rightarrow> bool" where
  "record_ok r \<longleftrightarrow>
     (mr_scope r = SessionScope \<longrightarrow> mr_session r = Some (mr_scope_id r)) \<and>
     (mr_scope r = RunScope \<longrightarrow> mr_run r = Some (mr_scope_id r)) \<and>
     strip (mr_scope_id r) = mr_scope_id r \<and> map_option strip (mr_session r) = mr_session r \<and>
     map_option strip (mr_run r) = mr_run r \<and> mr_session r \<noteq> Some [] \<and> mr_run r \<noteq> Some []"

text \<open>Who may see and change a record, and where it comes from.\<close>

definition same_origin :: "memory_record \<Rightarrow> memory_record \<Rightarrow> bool" where
  "same_origin r q \<longleftrightarrow>
     mr_id q = mr_id r \<and> mr_kind q = mr_kind r \<and> mr_scope q = mr_scope r \<and> mr_scope_id q = mr_scope_id r \<and>
     mr_session q = mr_session r \<and> mr_run q = mr_run r \<and> mr_created q = mr_created r"

lemma same_origin_trans: "same_origin r q \<Longrightarrow> same_origin q p \<Longrightarrow> same_origin r p"
  and same_origin_refl [simp]: "same_origin r r"
  by (simp_all add: same_origin_def)

lemma same_origin_read: "same_origin r q \<Longrightarrow> can_read a q = can_read a r"
  by (simp add: same_origin_def can_read_def)

lemma check_record_Inr:
  assumes "check_record r = Inr q"
  shows "mr_id q = mr_id r" "mr_kind q = mr_kind r" "mr_scope q = mr_scope r" "mr_scope_id q = strip (mr_scope_id r)"
    "mr_created q = mr_created r" "mr_updated q = mr_updated r" "mr_deleted q = mr_deleted r"
    "mr_session q = map_option strip (mr_session r)" "mr_run q = map_option strip (mr_run r)" "record_ok q"
proof -
  obtain c where c: "check_candidate (record_candidate r) = Inr c" "q = take_candidate r c" "check_durable q = Inr ()"
    using assms by (auto simp: check_record_def bindR_Inr_iff Let_def)
  show "mr_id q = mr_id r" "mr_kind q = mr_kind r" "mr_scope q = mr_scope r" "mr_scope_id q = strip (mr_scope_id r)"
    "mr_created q = mr_created r" "mr_updated q = mr_updated r" "mr_deleted q = mr_deleted r"
    "mr_session q = map_option strip (mr_session r)" "mr_run q = map_option strip (mr_run r)"
    using check_candidate_Inr [OF c(1)] by (simp_all add: c(2) take_candidate_def record_candidate_def)
  then show "record_ok q"
    using check_candidate_Inr(8,9) [OF c(1)] c(3)
    by (auto simp: record_ok_def check_durable_def c(2) take_candidate_def option.map_comp comp_def split: if_splits)
qed

lemma check_record_origin: "check_record r = Inr q \<Longrightarrow> record_ok r \<Longrightarrow> same_origin r q"
  by (simp add: same_origin_def check_record_Inr) (simp add: record_ok_def)

lemma clone_record_Inr:
  "clone_record r = Inr q \<Longrightarrow> record_ok r \<Longrightarrow> same_origin r q \<and> record_ok q \<and> mr_deleted q = mr_deleted r \<and> mr_updated q = mr_updated r"
  by (simp add: clone_record_def check_record_origin check_record_Inr)

section \<open>The store\<close>

definition mem_ok :: "(string, memory_record) dict \<Rightarrow> bool" where
  "mem_ok d \<longleftrightarrow> dict_wf d \<and> (\<forall>(i, r) \<in> set d. mr_id r = i \<and> record_ok r)"

lemma mem_ok_get: "mem_ok d \<Longrightarrow> dict_get d i = Some r \<Longrightarrow> mr_id r = i \<and> record_ok r"
  by (auto simp: mem_ok_def dest: map_of_SomeD)

lemma mem_ok_set: "mem_ok d \<Longrightarrow> mr_id r = i \<Longrightarrow> record_ok r \<Longrightarrow> mem_ok (dict_set i r d)"
  by (auto simp: mem_ok_def dict_values_set)

definition same_memory :: "'z menv_scheme \<Rightarrow> 'z menv_scheme \<Rightarrow> bool" where
  "same_memory s t \<longleftrightarrow> mem_records t = mem_records s \<and> mem_emitted t = mem_emitted s"

interpretation silent: step_order same_memory
  by unfold_locales (auto simp: same_memory_def)

lemma new_id_silent: "advances same_memory (new_id k)"
  by (auto simp: advances_def new_id_def time_ns_def same_memory_def eff_simps Let_def)

lemma utc_now_silent: "advances same_memory utc_now"
  by (auto simp: advances_def utc_now_def utc_datetime_def time_ns_def same_memory_def eff_simps)

lemma new_record_silent: "advances same_memory (new_record c)"
  unfolding new_record_def
  by (intro silent.advances_bindE new_id_silent utc_now_silent silent.advances_liftE)

lemma write_allowed_silent: "advances same_memory (write_allowed a c)"
  unfolding write_allowed_def
  by (auto intro!: silent.advances_bindE silent.advances_retE new_record_silent)

lemma candidate_record_silent: "advances same_memory (candidate_record c)"
  unfolding candidate_record_def by (intro silent.advances_bindE silent.advances_liftE new_record_silent)

lemma new_event_silent: "advances same_memory (new_event ty sid rid data)"
  unfolding new_event_def
  by (intro silent.advances_bindE new_id_silent utc_now_silent silent.advances_retE)

lemma memstore_all_run: "memstore_all deleted s =
    (mapR clone_record (filter (\<lambda>r. deleted \<or> \<not> memory_deleted r) (sort_key mr_id (map snd (mem_records s)))), s)"
  by (simp add: memstore_all_def get_records_def eff_simps split: sum.split)

lemma memstore_get_run: "memstore_get i deleted s =
    (case dict_get (mem_records s) i of
       None \<Rightarrow> Inl (memory_not_found i)
     | Some r \<Rightarrow> if memory_deleted r \<and> \<not> deleted then Inl (memory_not_found i) else clone_record r, s)"
  by (simp add: memstore_get_def get_records_def eff_simps split: sum.split option.split)

text \<open>A record goes in under a fresh identifier, or nothing happens.\<close>

definition put_record :: "memory_record \<Rightarrow> memory_record \<Rightarrow> bool" where
  "put_record r q \<longleftrightarrow> same_origin r q \<and> record_ok q \<and> mr_deleted q = mr_deleted r \<and> mr_updated q = mr_updated r"

lemma clean_record_Inr: "clean_record r = Inr q \<Longrightarrow> record_ok r \<Longrightarrow> put_record r q"
  by (auto simp: clean_record_def bindR_Inr_iff put_record_def same_origin_def check_record_Inr)
    (simp_all add: record_ok_def)

lemma put_record_trans: "put_record r q \<Longrightarrow> put_record q p \<Longrightarrow> put_record r p"
  by (auto simp: put_record_def intro: same_origin_trans)

lemma clone_put: "clone_record r = Inr q \<Longrightarrow> record_ok r \<Longrightarrow> put_record r q"
  using clone_record_Inr unfolding put_record_def by blast

lemma memstore_put_run:
  assumes "memstore_put r s = (res, t)" and "record_ok r"
  shows "(\<exists>e. res = Inl e) \<and> t = s \<or>
    (\<exists>q. put_record r q \<and> dict_get (mem_records s) (mr_id r) = None \<and> res = clone_record q \<and>
       t = s\<lparr>mem_records := mem_records s @ [(mr_id r, q)]\<rparr>)"
proof (cases "clean_record r")
  case (Inl e)
  then have "res = Inl e \<and> t = s" using assms(1) by (simp add: memstore_put_def eff_simps)
  then show ?thesis by blast
next
  case (Inr clean)
  then have put: "put_record r clean" by (rule clean_record_Inr [OF _ assms(2)])
  then have i: "mr_id clean = mr_id r" and ok: "record_ok clean" by (auto simp: put_record_def same_origin_def)
  show ?thesis
  proof (cases "dict_get (mem_records s) (mr_id r) = None")
    case False
    then show ?thesis using assms(1) Inr by (auto simp: memstore_put_def get_records_def eff_simps i)
  next
    case fresh: True
    show ?thesis
    proof (cases "clone_record clean")
      case (Inl e)
      then have "res = Inl e \<and> t = s" using assms(1) Inr fresh
        by (simp add: memstore_put_def get_records_def eff_simps i)
      then show ?thesis by blast
    next
      case (Inr q)
      then have q: "put_record r q" using clone_put [OF _ ok] put put_record_trans by blast
      then have "mr_id q = mr_id r" by (simp add: put_record_def same_origin_def)
      with q show ?thesis using assms(1) \<open>clean_record r = Inr clean\<close> fresh Inr
        by (auto simp: memstore_put_def get_records_def keep_record_def eff_simps i dict_set_new split: sum.splits)
    qed
  qed
qed

text \<open>A tombstone takes the place of a live record, or nothing happens.\<close>

definition tombstone :: "memory_record \<Rightarrow> memory_record \<Rightarrow> bool" where
  "tombstone r q \<longleftrightarrow> \<not> memory_deleted r \<and> memory_deleted q \<and> same_origin r q \<and> record_ok q"

lemma memstore_delete_run:
  assumes "memstore_delete i when s = (res, t)" and "mem_ok (mem_records s)"
  shows "same_memory s t \<and> ((\<exists>e. res = Inl e) \<or> (\<exists>r. dict_get (mem_records s) i = Some r \<and> memory_deleted r)) \<or>
    (\<exists>r q. dict_get (mem_records s) i = Some r \<and> tombstone r q \<and> res = clone_record q \<and>
       mem_records t = dict_set i q (mem_records s) \<and> mem_emitted t = mem_emitted s)"
proof (cases "dict_get (mem_records s) i")
  case None
  then show ?thesis using assms(1) by (auto simp: memstore_delete_def get_records_def eff_simps same_memory_def)
next
  case (Some r)
  note r = mem_ok_get [OF assms(2) Some]
  show ?thesis
  proof (cases "memory_deleted r")
    case True
    then show ?thesis using assms(1) Some
      by (auto simp: memstore_delete_def get_records_def eff_simps same_memory_def split: sum.splits)
  next
    case live: False
    define stamp :: "('a menv_scheme, string) sm" where
      "stamp = (case when of Some (c # u) \<Rightarrow> retE (c # u) | _ \<Rightarrow> utc_now)"
    have "advances same_memory stamp"
      by (simp add: stamp_def utc_now_silent silent.advances_retE split: option.split list.split)
    then obtain now s1 where now: "stamp s = (now, s1)" "same_memory s s1"
      by (cases "stamp s") (auto dest: advancesD)
    have t: "(res, t) = bindE stamp (\<lambda>now.
        bindE (liftE (check_record (r\<lparr>mr_deleted := Some now, mr_updated := now\<rparr>))) (\<lambda>tomb.
          thenE (modifyE (\<lambda>s. s\<lparr>mem_records := dict_set i tomb (mem_records s)\<rparr>)) (liftE (clone_record tomb)))) s"
      using assms(1) Some live by (simp add: memstore_delete_def get_records_def stamp_def eff_simps cong: option.case_cong)
    show ?thesis
    proof (cases now)
      case (Inl e)
      then show ?thesis using t now by (simp add: eff_simps)
    next
      case (Inr time)
      show ?thesis
      proof (cases "check_record (r\<lparr>mr_deleted := Some time, mr_updated := time\<rparr>)")
        case (Inl e)
        then show ?thesis using t now Inr by (simp add: eff_simps)
      next
        case tomb: (Inr q)
        then have "tombstone r q"
          using check_record_Inr [OF tomb] live r
          by (simp add: tombstone_def same_origin_def memory_deleted_def) (simp add: record_ok_def)
        then show ?thesis using t now Inr tomb Some
          by (auto simp: eff_simps same_memory_def split: sum.splits)
      qed
    qed
  qed
qed

end
