(* ===== verification/Memory_Operations.thy ===== *)
theory Memory_Operations
  imports Memory_Facts Context_Facts
begin

text \<open>
  What a write, a retrieval and a deletion of the memory service do to the store and its audit trail, and
  the histories that the service's operations make: a record is never lost, never rewritten, and leaves
  only as a tombstone that stays.
\<close>

section \<open>Running past what leaves memory alone\<close>

lemma silent_bind:
  assumes "bindE m f s = (res, t)" and "advances same_memory m"
  obtains (stopped) e where "res = Inl e" "same_memory s t"
    | (went) x s1 where "m s = (Inr x, s1)" "same_memory s s1" "f x s1 = (res, t)"
proof (cases "m s")
  case (Pair r s1)
  with assms(2) have same: "same_memory s s1" by (rule advancesD)
  show ?thesis
  proof (cases r)
    case (Inl e)
    then have "res = Inl e" "t = s1" using assms(1) Pair by (simp_all add: bindE_def)
    with stopped same show ?thesis by blast
  next
    case (Inr x)
    then show ?thesis using went same assms(1) Pair by (simp add: bindE_def)
  qed
qed

lemma silent_then:
  assumes "thenE (liftE r) m s = (res, t)"
  obtains (stopped) e where "res = Inl e" "t = s" "r = Inl e" | (went) x where "r = Inr x" "m s = (res, t)"
  using assms by (cases r) (auto simp: eff_simps)

lemma memstore_all_silent: "advances same_memory (memstore_all b)"
  by (simp add: advances_def memstore_all_run same_memory_def)

lemma memstore_get_silent: "advances same_memory (memstore_get i b)"
  by (simp add: advances_def memstore_get_run same_memory_def split: option.split)

lemma same_memory_trans: "same_memory s t \<Longrightarrow> same_memory t u \<Longrightarrow> same_memory s u"
  by (simp add: same_memory_def)

section \<open>Audit\<close>

text \<open>With audit required, an operation that ends well has told a sink.\<close>

definition told :: "string \<Rightarrow> jobj \<Rightarrow> 'z menv_scheme \<Rightarrow> 'z menv_scheme \<Rightarrow> bool" where
  "told ty data s t \<longleftrightarrow> (\<exists>e. ev_type e = ty \<and> ev_data e = data \<and> mem_emitted t = mem_emitted s @ [e])"

lemma audited:
  assumes "check_audit svc session run scope scope_id sink = Inr ()" and "msv_audit svc" and "session \<noteq> Some []"
  obtains f sid where "sink_or sink svc = Some f" "event_session svc session = Some sid"
proof -
  have "sink_or sink svc \<noteq> None" "\<not> (session = None \<and> msv_session svc = None)"
    using assms(1,2) by (auto simp: check_audit_def split: if_splits)
  moreover from this(2) have "event_session svc session \<noteq> None"
    using assms(3) by (auto simp: event_session_def split: option.split list.split)
  ultimately show ?thesis using that by blast
qed

lemma sink_or_twice: "sink_or (sink_or sink svc) svc = sink_or sink svc"
  by (simp add: sink_or_def split: option.split)

lemma call_memory_sink_run:
  "call_memory_sink f e s = (res, t) \<Longrightarrow> mem_records t = mem_records s \<and> mem_emitted t = mem_emitted s @ [e]"
  by (auto simp: call_memory_sink_def)

lemma emit_memory_run:
  assumes "emit_memory svc ty data session run scope scope_id sink s = (res, t)"
  shows "mem_records t = mem_records s"
    and "res = Inr () \<Longrightarrow> msv_audit svc \<Longrightarrow> session \<noteq> Some [] \<Longrightarrow> told ty data s t"
proof -
  have "mem_records t = mem_records s \<and> (res = Inr () \<longrightarrow> msv_audit svc \<longrightarrow> session \<noteq> Some [] \<longrightarrow> told ty data s t)"
    using assms unfolding emit_memory_def
  proof (cases rule: silent_then)
    case (went u)
    show ?thesis
    proof (cases "\<exists>f sid. sink_or sink svc = Some f \<and> event_session svc session = Some sid")
      case True
      then obtain f sid where f: "sink_or sink svc = Some f" "event_session svc session = Some sid" by blast
      with went(2) have "bindE (new_event ty sid run data) (call_memory_sink f) s = (res, t)" by simp
      then show ?thesis using new_event_silent
      proof (cases rule: silent_bind)
        case (went e s1)
        then have "ev_type e = ty" "ev_data e = data"
          by (auto simp: new_event_def bindE_eq_Inr retE_def)
        with went(2) call_memory_sink_run [OF went(3)] show ?thesis by (auto simp: told_def same_memory_def)
      qed (simp add: same_memory_def)
    next
      case False
      then have "res = Inr () \<and> t = s" using went(2) by (auto simp: retE_def split: option.splits)
      moreover have "\<not> (msv_audit svc \<and> session \<noteq> Some [])"
      proof
        assume required: "msv_audit svc \<and> session \<noteq> Some []"
        have "check_audit svc session run scope scope_id (sink_or sink svc) = Inr ()" using went(1) by simp
        then obtain f sid where "sink_or (sink_or sink svc) svc = Some f" "event_session svc session = Some sid"
          using audited required by blast
        then show False using False by (simp only: sink_or_twice) blast
      qed
      ultimately show ?thesis by blast
    qed
  qed simp
  then show "mem_records t = mem_records s"
    and "res = Inr () \<Longrightarrow> msv_audit svc \<Longrightarrow> session \<noteq> Some [] \<Longrightarrow> told ty data s t" by blast+
qed

section \<open>Writes\<close>

lemma new_record_Inr:
  assumes "new_record c s = (Inr r, t)"
  shows "record_ok r" "mr_scope r = mc_scope c" "mr_scope_id r = strip (mc_scope_id c)" "\<not> memory_deleted r"
  using assms unfolding new_record_def bindE_eq_Inr lifted_Inr
  by (auto simp: check_record_Inr memory_deleted_def)

lemma write_allowed_True:
  assumes "write_allowed a c s = (Inr True, t)" and "mr_scope q = mc_scope c" and "mr_scope_id q = strip (mc_scope_id c)"
  shows "can_read a q"
proof (cases "mc_scope c = GlobalScope")
  case True
  then show ?thesis using assms by (auto simp: write_allowed_def can_read_def retE_def)
next
  case False
  then obtain r s' where "new_record c s = (Inr r, s')" "can_read a r"
    using assms(1) by (auto simp: write_allowed_def bindE_eq_Inr retE_def)
  moreover have "mr_scope q = mr_scope r" "mr_scope_id q = mr_scope_id r"
    using assms(2,3) new_record_Inr(2,3) [OF calculation(1)] by simp_all
  ultimately show ?thesis by (simp only: can_read_def)
qed

lemma candidate_record_Inr:
  assumes "candidate_record c s = (Inr r, t)"
  shows "record_ok r" "mr_scope r = mc_scope c" "mr_scope_id r = strip (mc_scope_id c)" "\<not> memory_deleted r"
  using assms unfolding candidate_record_def bindE_eq_Inr by (auto dest: new_record_Inr)

text \<open>A new record as a write makes it.\<close>

definition written :: "memory_candidate \<Rightarrow> memory_access \<Rightarrow> memory_record \<Rightarrow> bool" where
  "written c a q \<longleftrightarrow>
     can_read a q \<and> record_ok q \<and> \<not> memory_deleted q \<and> mr_scope q = mc_scope c \<and> mr_scope_id q = strip (mc_scope_id c)"

text \<open>A write that ends well returns the stored record and, with audit required, has told a sink of it.\<close>

definition write_reported ::
  "(string \<Rightarrow> string) \<Rightarrow> 'z memory_service \<Rightarrow> memory_candidate \<Rightarrow> memory_record \<Rightarrow> exn + memory_record \<Rightarrow>
     'z menv_scheme \<Rightarrow> 'z menv_scheme \<Rightarrow> bool" where
  "write_reported sha svc c q res s t \<longleftrightarrow>
     (\<forall>saved. res = Inr saved \<longrightarrow> clone_record q = Inr saved \<and>
        (msv_audit svc \<longrightarrow> mc_session c \<noteq> Some [] \<longrightarrow> told ''memory.written''
           [(''memory'', JObj (record_to_dict sha saved)), (''candidate_id'', JStr (mc_id c))] s t))"

lemma told_from: "mem_emitted s' = mem_emitted s \<Longrightarrow> told ty data s' t = told ty data s t"
  by (simp add: told_def)

lemma write_reported_from: "same_memory s s' \<Longrightarrow> write_reported sha svc c q res s' t = write_reported sha svc c q res s t"
  by (simp add: write_reported_def same_memory_def told_def)

lemma save_record_run:
  assumes "save_record sha svc c r s = (res, t)" and "record_ok r"
  shows "t = s \<and> (\<exists>e. res = Inl e) \<or>
    (\<exists>q. put_record r q \<and> dict_get (mem_records s) (mr_id q) = None \<and> mem_records t = mem_records s @ [(mr_id q, q)] \<and>
       write_reported sha svc c q res s t)"
proof (cases "memstore_put r s")
  case (Pair r' s1)
  from memstore_put_run [OF Pair assms(2)] show ?thesis
  proof
    assume "(\<exists>e. r' = Inl e) \<and> s1 = s"
    then show ?thesis using assms(1) Pair by (auto simp: save_record_def bindE_def)
  next
    assume "\<exists>q. put_record r q \<and> dict_get (mem_records s) (mr_id r) = None \<and> r' = clone_record q \<and>
       s1 = s\<lparr>mem_records := mem_records s @ [(mr_id r, q)]\<rparr>"
    then obtain q where q: "put_record r q" "dict_get (mem_records s) (mr_id r) = None" "r' = clone_record q"
      "s1 = s\<lparr>mem_records := mem_records s @ [(mr_id r, q)]\<rparr>" by blast
    then have i: "mr_id q = mr_id r" by (simp add: put_record_def same_origin_def)
    show ?thesis
    proof (cases r')
      case (Inl e)
      then have "res = Inl e \<and> t = s1" using assms(1) Pair by (simp add: save_record_def bindE_def)
      then have "mem_records t = mem_records s @ [(mr_id q, q)]" "write_reported sha svc c q res s t"
        using q i by (simp_all add: write_reported_def)
      then show ?thesis using q(1,2) i by auto
    next
      case (Inr saved)
      let ?data = "[(''memory'', JObj (record_to_dict sha saved)), (''candidate_id'', JStr (mc_id c))]"
      obtain told' t' where emit: "emit_memory svc ''memory.written'' ?data (mc_session c) (mc_run c) (mc_scope c)
          (mc_scope_id c) None s1 = (told', t')" by (meson surj_pair)
      have "t = t' \<and> (\<forall>x. res = Inr x \<longrightarrow> x = saved \<and> told' = Inr ())"
        using assms(1) emit by (cases told') (auto simp: save_record_def bindE_def thenE_def Pair Inr retE_def)
      moreover have "mem_records t' = mem_records s @ [(mr_id q, q)]"
        using emit_memory_run(1) [OF emit] q(4) i by simp
      moreover have "told' = Inr () \<Longrightarrow> msv_audit svc \<Longrightarrow> mc_session c \<noteq> Some [] \<Longrightarrow> told ''memory.written'' ?data s t'"
        using emit_memory_run(2) [OF emit] told_from [of s1 s] q(4) by simp
      ultimately have "mem_records t = mem_records s @ [(mr_id q, q)]" "write_reported sha svc c q res s t"
        using q(3) Inr unfolding write_reported_def by metis+
      then show ?thesis using q(1,2) i by auto
    qed
  qed
qed

lemma write_denial_Inr: "write_denial access c = Inr a \<Longrightarrow> access = Some a"
  by (auto simp: write_denial_def split: option.splits if_splits)

text \<open>
  A write that repeats what is known returns the copy of a live stored record that has the fingerprint of
  the record the candidate makes.
\<close>

definition write_repeated ::
  "(string \<Rightarrow> string) \<Rightarrow> memory_candidate \<Rightarrow> memory_record \<Rightarrow> 'z menv_scheme \<Rightarrow> bool" where
  "write_repeated sha c got s \<longleftrightarrow>
     (\<exists>x r s1 s2. x \<in> snd ` set (mem_records s) \<and> \<not> memory_deleted x \<and> clone_record x = Inr got \<and>
        candidate_record c (s1 :: 'z menv_scheme) = (Inr r, s2) \<and> fingerprint sha got = fingerprint sha r)"

lemma known_record:
  assumes "memstore_all False s = (Inr existing, t)" and "find_first P existing = Some x"
  shows "P x \<and> (\<exists>y \<in> snd ` set (mem_records s). \<not> memory_deleted y \<and> clone_record y = Inr x)"
proof -
  have "x \<in> set existing" "P x" using find_first_Some [OF assms(2)] by simp_all
  moreover have "mapR clone_record (filter (\<lambda>r. \<not> memory_deleted r) (sort_key mr_id (map snd (mem_records s)))) = Inr existing"
    using assms(1) by (auto simp: memstore_all_run)
  ultimately show ?thesis using mapR_mem by fastforce
qed

lemma memory_write_run:
  assumes "memory_write sha svc c access s = (res, t)"
  shows "same_memory s t \<and> (\<forall>saved. res = Inr saved \<longrightarrow> write_repeated sha c saved s) \<or>
    (\<exists>a q. write_access svc access = Some a \<and> written c a q \<and> dict_get (mem_records s) (mr_id q) = None \<and>
       mem_records t = mem_records s @ [(mr_id q, q)] \<and>
       write_reported sha svc c q res s t)"
  using assms silent.advances_liftE unfolding memory_write_def
proof (cases rule: silent_bind)
  case (went a s0)
  then have a: "write_access svc access = Some a" and s0: "s0 = s" by (auto simp: lifted_Inr dest: write_denial_Inr)
  from went(3) write_allowed_silent show ?thesis
  proof (cases rule: silent_bind)
    case (went ok s1)
    note s1 = went(2) and allowed = went(1)
    show ?thesis
    proof (cases ok)
      case False
      then show ?thesis using went(3) s1 s0 by (auto simp: raiseE_def)
    next
      case True
      with went(3) have "bindE (candidate_record c) (\<lambda>r.
         thenE (liftE (check_audit svc (mc_session c) (mc_run c) (mc_scope c) (mc_scope_id c) None))
           (bindE (memstore_all False) (\<lambda>existing.
              case find_first (\<lambda>x. \<not> memory_deleted x \<and> fingerprint sha x = fingerprint sha r) existing of
                Some x \<Rightarrow> retE x
              | None \<Rightarrow> save_record sha svc c r))) s1 = (res, t)" by simp
      then show ?thesis using candidate_record_silent
      proof (cases rule: silent_bind)
        case (went r s2)
        note candidate = went(1)
        note r = candidate_record_Inr [OF candidate]
        have s2: "same_memory s s2" using s1 went(2) s0 same_memory_trans by metis
        from went(3) show ?thesis
        proof (cases rule: silent_then)
          case (went u)
          from went(2) memstore_all_silent show ?thesis
          proof (cases rule: silent_bind)
            case (went existing s3)
            note existing = went(1)
            have s3: "same_memory s s3" using s2 went(2) same_memory_trans by metis
            show ?thesis
            proof (cases "find_first (\<lambda>x. \<not> memory_deleted x \<and> fingerprint sha x = fingerprint sha r) existing")
              case None
              with went(3) have "save_record sha svc c r s3 = (res, t)" by simp
              from save_record_run [OF this r(1)] show ?thesis
              proof
                assume "t = s3 \<and> (\<exists>e. res = Inl e)"
                then show ?thesis using s3 by auto
              next
                assume "\<exists>q. put_record r q \<and> dict_get (mem_records s3) (mr_id q) = None \<and>
                  mem_records t = mem_records s3 @ [(mr_id q, q)] \<and>
                  write_reported sha svc c q res s3 t"
                then obtain q where put: "put_record r q" and rest: "dict_get (mem_records s3) (mr_id q) = None"
                  "mem_records t = mem_records s3 @ [(mr_id q, q)]"
                  "write_reported sha svc c q res s3 t" by blast
                have "mr_scope q = mc_scope c" "mr_scope_id q = strip (mc_scope_id c)" "record_ok q" "\<not> memory_deleted q"
                  using put r by (auto simp: put_record_def same_origin_def memory_deleted_def)
                then have "written c a q" using allowed True write_allowed_True by (auto simp: written_def)
                moreover have "dict_get (mem_records s) (mr_id q) = None" "mem_records t = mem_records s @ [(mr_id q, q)]"
                  using rest(1,2) s3 by (simp_all add: same_memory_def)
                ultimately show ?thesis using a rest(3) write_reported_from [OF s3] by blast
              qed
            next
              case (Some x)
              then have "t = s3" "res = Inr x" using went(3) by (simp_all add: retE_def)
              moreover have "write_repeated sha c x s"
                using known_record [OF existing Some] candidate s2 unfolding write_repeated_def same_memory_def by metis
              ultimately show ?thesis using s3 by simp
            qed
          qed (use s2 same_memory_trans in auto)
        qed (use s2 in simp)
      qed (use s0 s1 same_memory_trans in auto)
    qed
  qed (use s0 in simp)
qed simp

section \<open>Deletions\<close>

definition deletion_reported ::
  "'z memory_service \<Rightarrow> string \<Rightarrow> string \<Rightarrow> memory_record \<Rightarrow> exn + memory_record \<Rightarrow> 'z menv_scheme \<Rightarrow> 'z menv_scheme \<Rightarrow> bool" where
  "deletion_reported svc reason actor q res s t \<longleftrightarrow>
     (\<forall>gone. res = Inr gone \<longrightarrow> clone_record q = Inr gone \<and>
        (msv_audit svc \<longrightarrow> told ''memory.deleted''
           [(''memory_id'', JStr (mr_id gone)), (''scope'', JStr (scope_text (mr_scope gone))),
            (''scope_id'', JStr (mr_scope_id gone)), (''reason'', JStr (redacted reason)),
            (''actor'', JStr (redacted actor))] s t))"

definition report_deletion ::
  "'z memory_service \<Rightarrow> string \<Rightarrow> string \<Rightarrow> memory_record \<Rightarrow> ('z menv_scheme, memory_record) sm" where
  "report_deletion svc reason actor gone =
     thenE (emit_memory svc ''memory.deleted''
              [(''memory_id'', JStr (mr_id gone)), (''scope'', JStr (scope_text (mr_scope gone))),
               (''scope_id'', JStr (mr_scope_id gone)), (''reason'', JStr (redacted reason)),
               (''actor'', JStr (redacted actor))]
              (mr_session gone) (mr_run gone) (mr_scope gone) (mr_scope_id gone) None)
       (retE gone)"

lemma memory_delete_reports:
  "memory_delete svc i a reason actor = bindE (memstore_get i False) (\<lambda>r.
     if \<not> can_delete a r then raiseE (memory_denied (''Memory deletion is outside the caller scope: '' @ i))
     else thenE (liftE (check_audit svc (mr_session r) (mr_run r) (mr_scope r) (mr_scope_id r) None))
       (bindE (memstore_delete i None) (report_deletion svc reason actor)))"
  unfolding memory_delete_def report_deletion_def by (rule refl)

lemma report_deletion_run:
  assumes "report_deletion svc reason actor gone s = (res, t)" and "clone_record q = Inr gone" and "record_ok q"
  shows "mem_records t = mem_records s \<and> deletion_reported svc reason actor q res s t"
proof -
  let ?data = "[(''memory_id'', JStr (mr_id gone)), (''scope'', JStr (scope_text (mr_scope gone))),
      (''scope_id'', JStr (mr_scope_id gone)), (''reason'', JStr (redacted reason)), (''actor'', JStr (redacted actor))]"
  obtain r t' where emit: "emit_memory svc ''memory.deleted'' ?data (mr_session gone) (mr_run gone) (mr_scope gone)
      (mr_scope_id gone) None s = (r, t')" by (meson surj_pair)
  have "t = t' \<and> (\<forall>x. res = Inr x \<longrightarrow> x = gone \<and> r = Inr ())"
    using assms(1) emit by (cases r) (auto simp: report_deletion_def bindE_def thenE_def retE_def)
  moreover have "mr_session gone \<noteq> Some []"
    using clone_record_Inr [OF assms(2,3)] by (simp add: record_ok_def)
  then have "r = Inr () \<Longrightarrow> msv_audit svc \<Longrightarrow> told ''memory.deleted'' ?data s t'"
    using emit_memory_run(2) [OF emit] by simp
  ultimately show ?thesis
    using emit_memory_run(1) [OF emit] assms(2) unfolding deletion_reported_def by metis
qed

lemma raised_run: "raiseE e s = (res, t) \<Longrightarrow> same_memory s t \<and> (\<exists>e. res = Inl e)"
  by (auto simp: raiseE_def same_memory_def)

lemma memstore_get_live:
  assumes "memstore_get i False s = (Inr c, t)"
  shows "t = s \<and> (\<exists>r. dict_get (mem_records s) i = Some r \<and> \<not> memory_deleted r \<and> clone_record r = Inr c)"
proof (cases "dict_get (mem_records s) i")
  case None
  then show ?thesis using assms by (simp add: memstore_get_run)
next
  case (Some r)
  then show ?thesis using assms by (cases "memory_deleted r") (simp_all add: memstore_get_run)
qed

text \<open>A deletion leaves memory alone, or replaces a live record that the access covers by its tombstone.\<close>

lemma memory_delete_run:
  assumes "memory_delete svc i a reason actor s = (res, t)" and "mem_ok (mem_records s)"
  shows "same_memory s t \<and> (\<exists>e. res = Inl e) \<or>
    (\<exists>r q. dict_get (mem_records s) i = Some r \<and> tombstone r q \<and> can_delete a r \<and>
       mem_records t = dict_set i q (mem_records s) \<and> deletion_reported svc reason actor q res s t)"
proof -
  from assms(1) [unfolded memory_delete_reports] show ?thesis using memstore_get_silent
  proof (cases rule: silent_bind)
    case (went c s0)
    obtain r where r: "dict_get (mem_records s) i = Some r" "\<not> memory_deleted r" "clone_record r = Inr c" and s0: "s0 = s"
      using memstore_get_live [OF went(1)] by blast
    note ok = mem_ok_get [OF assms(2) r(1)]
    have origin: "same_origin r c" using clone_record_Inr [OF r(3)] ok by blast
    show ?thesis
    proof (cases "can_delete a c")
      case False
      with went(3) s0
      have "raiseE (memory_denied (''Memory deletion is outside the caller scope: '' @ i)) s = (res, t)" by simp
      from raised_run [OF this] show ?thesis by simp
    next
      case True
      then have allowed: "can_delete a r" using same_origin_read [OF origin] by (simp add: can_delete_def)
      from True went(3) s0
      have "thenE (liftE (check_audit svc (mr_session c) (mr_run c) (mr_scope c) (mr_scope_id c) None))
         (bindE (memstore_delete i None) (report_deletion svc reason actor)) s = (res, t)" by simp
      then show ?thesis
      proof (cases rule: silent_then)
        case (went u)
        obtain r' s1 where del: "memstore_delete i None s = (r', s1)" by (meson surj_pair)
        from memstore_delete_run [OF this assms(2)] show ?thesis
        proof
          assume "same_memory s s1 \<and> ((\<exists>e. r' = Inl e) \<or> (\<exists>r. dict_get (mem_records s) i = Some r \<and> memory_deleted r))"
          then obtain e where "same_memory s s1" "r' = Inl e" using r(1,2) by auto
          moreover from this have "res = Inl e" "t = s1" using went(2) del by (simp_all add: bindE_def)
          ultimately show ?thesis by blast
        next
          assume "\<exists>r q. dict_get (mem_records s) i = Some r \<and> tombstone r q \<and> r' = clone_record q \<and>
            mem_records s1 = dict_set i q (mem_records s) \<and> mem_emitted s1 = mem_emitted s"
          then obtain q where q: "tombstone r q" "r' = clone_record q" "mem_records s1 = dict_set i q (mem_records s)"
            "mem_emitted s1 = mem_emitted s" using r(1) by auto
          have "mem_records t = mem_records s1 \<and> deletion_reported svc reason actor q res s1 t"
          proof (cases r')
            case (Inl e)
            then have "res = Inl e" "t = s1" using went(2) del by (simp_all add: bindE_def)
            then show ?thesis by (simp add: deletion_reported_def)
          next
            case (Inr gone)
            then have "report_deletion svc reason actor gone s1 = (res, t)" using went(2) del by (simp add: bindE_def)
            moreover have "clone_record q = Inr gone" "record_ok q" using Inr q(1,2) by (simp_all add: tombstone_def)
            ultimately show ?thesis by (rule report_deletion_run)
          qed
          moreover have "deletion_reported svc reason actor q res s1 t = deletion_reported svc reason actor q res s t"
            unfolding deletion_reported_def told_from [OF q(4)] by (rule refl)
          ultimately show ?thesis using r(1) q(1,3) allowed by auto
        qed
      qed (simp add: same_memory_def)
    qed
  qed simp
qed

section \<open>Retrieval\<close>

lemma ranked_length: "length (ranked_records query scope scope_id False d) \<le> length (filter (\<lambda>r. \<not> memory_deleted r) (map snd d))"
  unfolding ranked_records_def Let_def
  by (simp del: filter_map filter_filter add: filter_map comp_def) (induction d, auto simp: search_match_def)

lemma ranked_member:
  "r \<in> set (ranked_records query scope scope_id deleted d) \<Longrightarrow>
   search_match scope scope_id deleted r \<and> search_score (search_terms query) r \<noteq> 0 \<and> r \<in> snd ` set d"
  by (auto simp: ranked_records_def Let_def intro: rev_image_eqI)

text \<open>The store is asked for so many records that nothing is cut off before the access is checked.\<close>

lemma memory_retrieve_run:
  "memory_retrieve query a scope scope_id limit s = (Inr rs, t) \<longleftrightarrow>
     0 < limit \<and> t = s \<and> (\<exists>live. mapR clone_record (filter (\<lambda>r. \<not> memory_deleted r) (sort_key mr_id (map snd (mem_records s)))) = Inr live) \<and>
     (\<exists>cs. mapR clone_record (ranked_records query scope scope_id False (mem_records s)) = Inr cs \<and>
       rs = take (nat limit) (filter (can_read a) cs))"
proof -
  have whole: "take (nat (max limit (int (length live)))) (ranked_records query scope scope_id False (mem_records s)) =
      ranked_records query scope scope_id False (mem_records s)"
    if "mapR clone_record (filter (\<lambda>r. \<not> memory_deleted r) (sort_key mr_id (map snd (mem_records s)))) = Inr live" for live
  proof -
    have "length live = length (filter (\<lambda>r. \<not> memory_deleted r) (map snd (mem_records s)))"
      using mapR_Inr_length [OF that] by (metis filter_sort length_sort)
    then show ?thesis using ranked_length [of query scope scope_id "mem_records s"] by simp
  qed
  let ?live = "mapR clone_record (filter (\<lambda>r. \<not> memory_deleted r) (sort_key mr_id (map snd (mem_records s))))"
  show ?thesis
  proof (cases "0 < limit \<and> (\<exists>live. ?live = Inr live)")
    case True
    then obtain live where live: "?live = Inr live" by blast
    have "memory_retrieve query a scope scope_id limit s =
        (case mapR clone_record (ranked_records query scope scope_id False (mem_records s)) of
           Inl e \<Rightarrow> (Inl e, s) | Inr cs \<Rightarrow> (Inr (take (nat limit) (filter (can_read a) cs)), s))"
      using True live
      by (simp add: memory_retrieve_def bindE_def memstore_all_run memstore_search_def get_records_def liftE_def raiseE_def
          retE_def whole [OF live] split: sum.split)
    then show ?thesis using True by (auto split: sum.split)
  next
    case False
    have "\<not> (\<exists>live. ?live = Inr live) \<Longrightarrow> \<exists>e. ?live = Inl e" by (cases ?live) auto
    then have "\<exists>e. memory_retrieve query a scope scope_id limit s = (Inl e, s)"
      using False by (auto simp: memory_retrieve_def bindE_def memstore_all_run raiseE_def)
    then show ?thesis using False by auto
  qed
qed

section \<open>Histories\<close>

definition mem_history :: "'z menv_scheme \<Rightarrow> 'z menv_scheme \<Rightarrow> bool" where
  "mem_history s t \<longleftrightarrow>
     (mem_ok (mem_records s) \<longrightarrow>
        mem_ok (mem_records t) \<and>
        (\<forall>i r. dict_get (mem_records s) i = Some r \<longrightarrow>
          (\<exists>q. dict_get (mem_records t) i = Some q \<and> (q = r \<or> tombstone r q))))"

lemma tombstone_final: "tombstone r q \<Longrightarrow> \<not> tombstone q p"
  by (simp add: tombstone_def)

interpretation history: step_order mem_history
proof
  show "mem_history s s" for s :: "'z menv_scheme" by (simp add: mem_history_def)
next
  fix s t u :: "'z menv_scheme"
  assume st: "mem_history s t" and tu: "mem_history t u"
  show "mem_history s u"
    unfolding mem_history_def
  proof (intro impI conjI allI)
    assume ok: "mem_ok (mem_records s)"
    then have ok_t: "mem_ok (mem_records t)" using st by (simp add: mem_history_def)
    then show "mem_ok (mem_records u)" using tu by (simp add: mem_history_def)
    fix i r
    assume "dict_get (mem_records s) i = Some r"
    then obtain q where q: "dict_get (mem_records t) i = Some q" "q = r \<or> tombstone r q"
      using st ok unfolding mem_history_def by blast
    then obtain p where "dict_get (mem_records u) i = Some p" "p = q \<or> tombstone q p"
      using tu ok_t unfolding mem_history_def by blast
    with q(2) tombstone_final show "\<exists>q. dict_get (mem_records u) i = Some q \<and> (q = r \<or> tombstone r q)" by blast
  qed
qed

lemma same_memory_history: "mem_records t = mem_records s \<Longrightarrow> mem_history s t"
  by (simp add: mem_history_def)

lemma history_put:
  assumes "dict_get (mem_records s) (mr_id q) = None" and "mem_records t = mem_records s @ [(mr_id q, q)]" and "record_ok q"
  shows "mem_history s t"
proof -
  have t: "mem_records t = dict_set (mr_id q) q (mem_records s)" using assms(1,2) by (simp add: dict_set_new)
  show ?thesis unfolding mem_history_def
  proof (intro impI conjI allI)
    assume "mem_ok (mem_records s)"
    then show "mem_ok (mem_records t)" unfolding t by (rule mem_ok_set [OF _ refl assms(3)])
  next
    fix i r assume "dict_get (mem_records s) i = Some r"
    then show "\<exists>p. dict_get (mem_records t) i = Some p \<and> (p = r \<or> tombstone r p)" using assms(1) by (auto simp: t)
  qed
qed

lemma memory_write_history: "memory_write sha svc c access s = (res, t) \<Longrightarrow> mem_history s t"
  using memory_write_run [of sha svc c access s res t]
  by (auto simp: same_memory_def written_def intro: same_memory_history history_put)

lemma memory_delete_history:
  assumes "memory_delete svc i a reason actor s = (res, t)"
  shows "mem_history s t"
  unfolding mem_history_def
proof (rule impI)
  assume ok: "mem_ok (mem_records s)"
  from memory_delete_run [OF assms ok]
  show "mem_ok (mem_records t) \<and> (\<forall>j r. dict_get (mem_records s) j = Some r \<longrightarrow>
      (\<exists>q. dict_get (mem_records t) j = Some q \<and> (q = r \<or> tombstone r q)))"
  proof
    assume "same_memory s t \<and> (\<exists>e. res = Inl e)"
    then show ?thesis using ok by (simp add: same_memory_def)
  next
    assume "\<exists>r q. dict_get (mem_records s) i = Some r \<and> tombstone r q \<and> can_delete a r \<and>
       mem_records t = dict_set i q (mem_records s) \<and> deletion_reported svc reason actor q res s t"
    then obtain r q where q: "dict_get (mem_records s) i = Some r" "tombstone r q"
      "mem_records t = dict_set i q (mem_records s)" by blast
    moreover have "mr_id q = i" "record_ok q"
      using mem_ok_get [OF ok q(1)] q(2) by (simp_all add: tombstone_def same_origin_def)
    ultimately show ?thesis using mem_ok_set [OF ok] by auto
  qed
qed

text \<open>An extractor only reads; the deterministic one draws identifiers besides.\<close>

definition only_extracts :: "'z memory_service \<Rightarrow> bool" where
  "only_extracts svc \<longleftrightarrow>
     (\<forall>s source scope scope_id session run. advances same_memory (msv_extractor svc s source scope scope_id session run))"

lemma deterministic_extract_silent: "advances same_memory (deterministic_extract n s source scope scope_id session run)"
proof -
  have "advances same_memory (extract_paragraphs (\<lambda>content. new_candidate content source scope scope_id session run) ps n)"
    for ps n
    by (induction ps arbitrary: n)
      (auto simp: new_candidate_def split: option.split
         intro!: silent.advances_bindE silent.advances_retE silent.advances_liftE new_id_silent)
  then show ?thesis by (simp add: deterministic_extract_def)
qed

lemma emit_memory_history: "advances mem_history (emit_memory svc ty data session run scope scope_id sink)"
  unfolding advances_def
  by (metis emit_memory_run(1) same_memory_history prod.collapse)

lemma memory_extract_history:
  assumes "only_extracts svc"
  shows "advances mem_history (memory_extract svc s source scope scope_id session run sink)"
proof -
  have "advances mem_history (msv_extractor svc s source scope scope_id session run)"
    using assms by (simp add: only_extracts_def advances_def same_memory_def same_memory_history)
  then show ?thesis
    unfolding memory_extract_def
    by (intro history.advances_bindE history.advances_mapE history.advances_liftE history.advances_thenE
      history.advances_retE emit_memory_history)
qed

text \<open>Whatever a program does with the service; other code may draw identifiers and read the clock.\<close>

inductive memory_runs :: "(string \<Rightarrow> string) \<Rightarrow> 'z memory_service \<Rightarrow> 'z menv_scheme \<Rightarrow> 'z menv_scheme \<Rightarrow> bool"
  for sha svc where
  stays: "memory_runs sha svc s s"
| writes: "memory_runs sha svc s t \<Longrightarrow> memory_write sha svc c access t = (res, u) \<Longrightarrow> memory_runs sha svc s u"
| deletes: "memory_runs sha svc s t \<Longrightarrow> memory_delete svc i a reason actor t = (res, u) \<Longrightarrow> memory_runs sha svc s u"
| retrieves: "memory_runs sha svc s t \<Longrightarrow> memory_retrieve query a scope scope_id limit t = (found, u) \<Longrightarrow> memory_runs sha svc s u"
| extracts: "memory_runs sha svc s t \<Longrightarrow> memory_extract svc x source scope scope_id session run sink t = (cs, u) \<Longrightarrow> memory_runs sha svc s u"
| elsewhere: "memory_runs sha svc s t \<Longrightarrow> mem_records u = mem_records t \<Longrightarrow> memory_runs sha svc s u"

lemma memstore_search_silent: "advances same_memory (memstore_search query scope scope_id limit b)"
  by (simp add: advances_def memstore_search_def get_records_def same_memory_def eff_simps split: sum.split)

lemma memory_retrieve_silent: "advances same_memory (memory_retrieve query a scope scope_id limit)"
  unfolding memory_retrieve_def
  by (auto intro!: silent.advances_bindE silent.advances_retE silent.advances_raiseE memstore_all_silent memstore_search_silent)

lemma memory_runs_history: "memory_runs sha svc s t \<Longrightarrow> only_extracts svc \<Longrightarrow> mem_history s t"
proof (induction rule: memory_runs.induct)
  case (retrieves s t query a scope scope_id limit found u)
  have "same_memory t u" by (rule advancesD [OF memory_retrieve_silent retrieves.hyps(2)])
  then show ?case using retrieves by (auto simp: same_memory_def intro: history.step_trans same_memory_history)
next
  case (extracts s t x source scope scope_id session run sink cs u)
  then show ?case using advancesD [OF memory_extract_history] history.step_trans by blast
qed (auto intro: history.step_refl history.step_trans memory_write_history memory_delete_history same_memory_history)

text \<open>A store built from constructed records is well formed.\<close>

lemma memstore_put_history: "record_ok r \<Longrightarrow> advances mem_history (memstore_put r)"
  unfolding advances_def
proof (intro allI)
  fix s
  assume ok: "record_ok r"
  obtain res t where run: "memstore_put r s = (res, t)" by (meson surj_pair)
  from memstore_put_run [OF this ok] have "mem_history s t"
  proof
    assume "(\<exists>e. res = Inl e) \<and> t = s"
    then show ?thesis by (simp add: same_memory_history)
  next
    assume "\<exists>q. put_record r q \<and> dict_get (mem_records s) (mr_id r) = None \<and> res = clone_record q \<and>
       t = s\<lparr>mem_records := mem_records s @ [(mr_id r, q)]\<rparr>"
    then obtain q where q: "put_record r q" "dict_get (mem_records s) (mr_id r) = None"
      "t = s\<lparr>mem_records := mem_records s @ [(mr_id r, q)]\<rparr>" by blast
    then have "mr_id q = mr_id r" "record_ok q" by (simp_all add: put_record_def same_origin_def)
    with q(2,3) show ?thesis by (intro history_put) simp_all
  qed
  then show "mem_history s (snd (memstore_put r s))" by (simp add: run)
qed

lemma new_memory_store_ok:
  assumes "\<forall>r \<in> set rs. record_ok r"
  shows "mem_ok (mem_records (snd (new_memory_store rs s)))"
proof -
  have "advances mem_history (thenE (mapE memstore_put rs) (retE ()))"
    using assms by (intro history.advances_thenE history.advances_mapE history.advances_retE memstore_put_history) blast
  then have "mem_history (s\<lparr>mem_records := []\<rparr>) (snd (thenE (mapE memstore_put rs) (retE ()) (s\<lparr>mem_records := []\<rparr>)))"
    unfolding advances_def ..
  moreover have "new_memory_store rs s = thenE (mapE memstore_put rs) (retE ()) (s\<lparr>mem_records := []\<rparr>)"
    by (simp add: new_memory_store_def thenE_def bindE_def modifyE_def)
  ultimately show ?thesis by (simp add: mem_history_def mem_ok_def)
qed

end
