(* ===== verification/Memory_Properties.thy ===== *)
theory Memory_Properties
  imports Memory_Operations
begin

text \<open>
  The properties of the memory service: what a write and a deletion may do to the store and what they
  report, what a retrieval returns, and that deletion is final.
\<close>

section \<open>A small store\<close>

definition demo_menv :: menv where
  "demo_menv = \<lparr>clock = (\<lambda>n. 1000 * int n), clock_reads = 0, entropy = (\<lambda>_. ''00''), entropy_reads = 0, last_tick = 0,
     process_salt = ''ab'', mem_records = [], mem_emitted = []\<rparr>"

definition demo_service :: "unit memory_service" where
  "demo_service = \<lparr>msv_extractor = deterministic_extract 8, msv_sink = Some (\<lambda>_ _. None), msv_session = None,
     msv_write_access = None, msv_audit = True\<rparr>"

definition demo_reader :: memory_access where
  "demo_reader = \<lparr>mac_ids = {''s''}, mac_grants = {}, mac_global = False, mac_admin = False\<rparr>"

definition demo_memory :: memory_record where
  "demo_memory = \<lparr>mr_content = ''x'', mr_kind = Semantic, mr_scope = SessionScope, mr_scope_id = ''s'', mr_source = ''x'',
     mr_confidence = JInt 1, mr_id = ''m'', mr_session = Some ''s'', mr_run = None, mr_created = ''t'', mr_updated = ''t'',
     mr_metadata = [], mr_deleted = None\<rparr>"

definition demo_written :: memory_candidate where
  "demo_written = \<lparr>mc_content = ''x'', mc_kind = Semantic, mc_scope = SessionScope, mc_scope_id = ''s'', mc_source = ''x'',
     mc_confidence = JInt 1, mc_session = Some ''s'', mc_run = None, mc_metadata = [], mc_id = ''c''\<rparr>"

definition demo_kept :: menv where
  "demo_kept = demo_menv\<lparr>mem_records := [(''m'', demo_memory)]\<rparr>"

text \<open>No pattern matches in a text of one letter.\<close>

lemmas rx_eval = rx_here_def rx_start_def seq_def any_of_def any_case_def exactly_def token_char_def
  is_letter_def is_upper_def is_digit_def between_def one_of_def next_is_def lower_char_def is_space_def is_word_char_def

lemma private_key_none: "rx_here private_key_rx [] ''x'' = None" "rx_here private_key_rx ''x'' [] = None"
  by (simp_all add: private_key_rx_def rx_eval Let_def)

lemma credential_url_none: "rx_here credential_url_rx [] ''x'' = None" "rx_here credential_url_rx ''x'' [] = None"
  by (simp_all add: credential_url_rx_def rx_eval Let_def)

lemma authorization_none: "rx_here authorization_rx [] ''x'' = None" "rx_here authorization_rx ''x'' [] = None"
  by (simp_all add: authorization_rx_def rx_eval Let_def)

lemma named_secret_none: "rx_here named_secret_rx [] ''x'' = None" "rx_here named_secret_rx ''x'' [] = None"
  by (simp_all add: named_secret_rx_def rx_eval Let_def)

lemma aws_access_key_none: "rx_here aws_access_key_rx [] ''x'' = None" "rx_here aws_access_key_rx ''x'' [] = None"
  by (simp_all add: aws_access_key_rx_def rx_eval Let_def)

lemma github_token_none: "rx_here github_token_rx [] ''x'' = None" "rx_here github_token_rx ''x'' [] = None"
  by (simp_all add: github_token_rx_def rx_eval Let_def)

lemma provider_token_none: "rx_here provider_token_rx [] ''x'' = None" "rx_here provider_token_rx ''x'' [] = None"
  by (simp_all add: provider_token_rx_def rx_eval Let_def)

lemma email_none: "rx_here email_rx [] ''x'' = None" "rx_here email_rx ''x'' [] = None"
  by (simp_all add: email_rx_def rx_eval Let_def)

lemma phone_none: "rx_here phone_rx [] ''x'' = None" "rx_here phone_rx ''x'' [] = None"
  by (simp_all add: phone_rx_def rx_eval Let_def)

lemma subn_none: "rx_here r [] ''x'' = None \<Longrightarrow> rx_here r ''x'' [] = None \<Longrightarrow> rx_subn r f [] ''x'' = (''x'', 0)"
  by (simp add: rx_subn.simps)

lemma demo_texts: "redacted ''x'' = ''x''"
  by (simp add: redact_def SECRET_PATTERNS_def PII_PATTERNS_def redact_pattern_def subn_none private_key_none
      credential_url_none authorization_none named_secret_none aws_access_key_none github_token_none provider_token_none
      email_none phone_none)

lemma demo_strips: "strip ''x'' = ''x''" "\<not> blank ''x''" "strip ''s'' = ''s''" "\<not> blank ''s''"
  "require_memory_id ''m'' n = Inr ''m''" "require_memory_id ''c'' n = Inr ''c''"
  "require_memory_id ''candidate'' n = Inr ''candidate''"
  by (simp_all add: strip_def blank_def is_space_def require_memory_id_def is_letter_def is_upper_def between_def id_char_def)

lemma demo_candidate: "check_candidate demo_written = Inr demo_written"
  by (simp add: check_candidate_def demo_written_def demo_strips demo_texts require_memory_text_def check_confidence_def
      optional_memory_text_def check_provenance_def)

lemma demo_checked: "check_record demo_memory = Inr demo_memory"
  by (simp add: check_record_def check_candidate_def demo_memory_def record_candidate_def take_candidate_def demo_strips
      demo_texts require_memory_text_def check_confidence_def optional_memory_text_def check_provenance_def check_durable_def)

lemma demo_tombstone:
  "now \<noteq> [] \<Longrightarrow> check_record (demo_memory\<lparr>mr_deleted := Some now, mr_updated := now\<rparr>) =
     Inr (demo_memory\<lparr>mr_deleted := Some now, mr_updated := now\<rparr>)"
  by (simp add: check_record_def check_candidate_def demo_memory_def record_candidate_def take_candidate_def demo_strips
      demo_texts require_memory_text_def check_confidence_def optional_memory_text_def check_provenance_def check_durable_def)

lemma demo_store_ok: "mem_ok (mem_records demo_kept)"
  using check_record_Inr(10) [OF demo_checked] by (simp add: mem_ok_def dict_wf_def demo_kept_def demo_menv_def) (simp add: demo_memory_def)

lemma demo_deletion: "\<exists>gone t. memory_delete demo_service ''m'' demo_reader ''x'' ''x'' demo_kept = (Inr gone, t)"
proof -
  have kept: "dict_get (mem_records demo_kept) ''m'' = Some demo_memory" "\<not> memory_deleted demo_memory"
    by (simp_all add: demo_kept_def memory_deleted_def demo_memory_def)
  have may: "can_delete demo_reader demo_memory"
    by (simp add: can_delete_def can_read_def demo_reader_def demo_memory_def)
  have audit: "check_audit demo_service (Some ''s'') run SessionScope ''s'' sink = Inr ()" for run sink
    by (simp add: check_audit_def demo_service_def sink_or_def split: option.split)
  have sink: "sink_or sink demo_service = Some (case sink of Some f \<Rightarrow> f | None \<Rightarrow> (\<lambda>_ _. None))" for sink
    by (simp add: demo_service_def sink_or_def split: option.split)
  obtain now s1 where now: "utc_now demo_kept = (Inr now, s1)" "now \<noteq> []"
    by (simp add: utc_now_def utc_datetime_def time_ns_def eff_simps isoformat_nonempty)
  let ?gone = "demo_memory\<lparr>mr_deleted := Some now, mr_updated := now\<rparr>"
  have here: "mr_session demo_memory = Some ''s''" "mr_scope demo_memory = SessionScope" "mr_scope_id demo_memory = ''s''"
    by (simp_all add: demo_memory_def)
  obtain t where "memstore_delete ''m'' None demo_kept = (Inr ?gone, t)"
    using kept now by (simp add: memstore_delete_def get_records_def clone_record_def demo_tombstone eff_simps)
  moreover have "\<exists>u. report_deletion demo_service ''x'' ''x'' ?gone t = (Inr ?gone, u)"
    by (simp add: report_deletion_def emit_memory_def here audit eff_simps sink event_session_def
        new_event_def new_id_def valid_id_kind_def is_alnum_def time_ns_def utc_now_def utc_datetime_def
        call_memory_sink_def Let_def)
  ultimately show ?thesis using kept may here audit
    by (auto simp: memory_delete_reports bindE_def thenE_def liftE_def retE_def memstore_get_run clone_record_def demo_checked)
qed

section \<open>Governed changes\<close>

text \<open>C8: A write of a candidate, whatever it raises, leaves the stored memory alone, or adds exactly one
  record at the end, under an identifier the store did not have. That record is live, has the candidate's
  scope, is within the access given (or the service's own), and a session or run record has the provenance
  that matches its scope. When a write that added a record returns and audit is required, exactly one event
  was emitted, a memory.written with the record returned. A write that added none emitted nothing, and if it
  returns it returns the copy of a live stored record that has the fingerprint of the record the
  candidate makes.\<close>

theorem memory_writes_are_governed:
  fixes s :: "'z menv_scheme"
  assumes "check_candidate given = Inr c" and "memory_write sha svc c access s = (res, t)"
  shows "mem_records t = mem_records s \<and> mem_emitted t = mem_emitted s \<and>
      (\<forall>saved. res = Inr saved \<longrightarrow> (\<exists>x r s1 s2. x \<in> snd ` set (mem_records s) \<and> \<not> memory_deleted x \<and>
         clone_record x = Inr saved \<and> candidate_record c (s1 :: 'z menv_scheme) = (Inr r, s2) \<and>
         fingerprint sha saved = fingerprint sha r)) \<or>
    (\<exists>a q. write_access svc access = Some a \<and> can_read a q \<and> \<not> memory_deleted q \<and>
       mr_scope q = mc_scope c \<and> mr_scope_id q = mc_scope_id c \<and>
       (mr_scope q = SessionScope \<longrightarrow> mr_session q = Some (mr_scope_id q)) \<and>
       (mr_scope q = RunScope \<longrightarrow> mr_run q = Some (mr_scope_id q)) \<and>
       dict_get (mem_records s) (mr_id q) = None \<and> mem_records t = mem_records s @ [(mr_id q, q)] \<and>
       (\<forall>saved. res = Inr saved \<and> msv_audit svc \<longrightarrow> (\<exists>e. mem_emitted t = mem_emitted s @ [e] \<and> ev_type e = ''memory.written'' \<and>
          dict_get (ev_data e) ''memory'' = Some (JObj (record_to_dict sha saved)))))"
proof -
  have c: "strip (mc_scope_id c) = mc_scope_id c" "mc_session c \<noteq> Some []"
    using check_candidate_Inr [OF assms(1)] by simp_all
  from memory_write_run [OF assms(2)] show ?thesis
  proof
    assume "\<exists>a q. write_access svc access = Some a \<and> written c a q \<and> dict_get (mem_records s) (mr_id q) = None \<and>
       mem_records t = mem_records s @ [(mr_id q, q)] \<and> write_reported sha svc c q res s t"
    then obtain a q where q: "write_access svc access = Some a" "written c a q" "dict_get (mem_records s) (mr_id q) = None"
      "mem_records t = mem_records s @ [(mr_id q, q)]" and told: "write_reported sha svc c q res s t" by blast
    have "\<exists>e. mem_emitted t = mem_emitted s @ [e] \<and> ev_type e = ''memory.written'' \<and>
          dict_get (ev_data e) ''memory'' = Some (JObj (record_to_dict sha saved))"
      if "res = Inr saved \<and> msv_audit svc" for saved
      using that told c(2) unfolding write_reported_def told_def by fastforce
    moreover have "can_read a q" "\<not> memory_deleted q" "record_ok q" "mr_scope q = mc_scope c" "mr_scope_id q = mc_scope_id c"
      using q(2) c(1) by (simp_all add: written_def)
    ultimately show ?thesis using q(1,3,4) unfolding record_ok_def by blast
  qed (simp add: same_memory_def write_repeated_def)
qed

theorem memory_writes_are_governed_witness:
  "\<exists>res t. memory_write (\<lambda>b. b) demo_service demo_written (Some demo_reader) demo_menv = (res, t) \<and>
    (mem_records t = [] \<or> (\<exists>q. can_read demo_reader q \<and> mem_records t = [(mr_id q, q)]))"
proof -
  obtain res t where run: "memory_write (\<lambda>b. b) demo_service demo_written (Some demo_reader) demo_menv = (res, t)"
    by (meson surj_pair)
  from memory_writes_are_governed [OF demo_candidate run] have
    "mem_records t = [] \<or> (\<exists>q. can_read demo_reader q \<and> mem_records t = [(mr_id q, q)])"
    by (auto simp: write_access_def demo_menv_def)
  with run show ?thesis by blast
qed

text \<open>C22: A deletion leaves the stored memory alone and raises, or replaces one live record, which the access
  covers, by its tombstone: same identifier, scope and provenance, now deleted. When it returns and audit is
  required, exactly one event was emitted, a memory.deleted with that identifier.\<close>

theorem memory_deletions_are_governed:
  assumes "mem_ok (mem_records s)" and "memory_delete svc i a reason actor s = (res, t)"
  shows "mem_records t = mem_records s \<and> (\<exists>e. res = Inl e) \<or>
    (\<exists>r q. dict_get (mem_records s) i = Some r \<and> \<not> memory_deleted r \<and> can_delete a r \<and>
       mem_records t = dict_set i q (mem_records s) \<and> memory_deleted q \<and> same_origin r q \<and>
       (\<forall>gone. res = Inr gone \<and> msv_audit svc \<longrightarrow> (\<exists>e. mem_emitted t = mem_emitted s @ [e] \<and> ev_type e = ''memory.deleted'' \<and>
          dict_get (ev_data e) ''memory_id'' = Some (JStr i))))"
  using memory_delete_run [OF assms(2,1)]
proof
  assume "\<exists>r q. dict_get (mem_records s) i = Some r \<and> tombstone r q \<and> can_delete a r \<and>
       mem_records t = dict_set i q (mem_records s) \<and> deletion_reported svc reason actor q res s t"
  then obtain r q where q: "dict_get (mem_records s) i = Some r" "tombstone r q" "can_delete a r"
    "mem_records t = dict_set i q (mem_records s)" and told: "deletion_reported svc reason actor q res s t" by blast
  have i: "mr_id q = i" "record_ok q"
    using mem_ok_get [OF assms(1) q(1)] q(2) by (simp_all add: tombstone_def same_origin_def)
  have "\<exists>e. mem_emitted t = mem_emitted s @ [e] \<and> ev_type e = ''memory.deleted'' \<and>
          dict_get (ev_data e) ''memory_id'' = Some (JStr i)"
    if "res = Inr gone \<and> msv_audit svc" for gone
  proof -
    have "clone_record q = Inr gone" using told that unfolding deletion_reported_def by blast
    from clone_record_Inr [OF this i(2)] have "mr_id gone = i" using i(1) by (simp add: same_origin_def)
    then show ?thesis using told that unfolding deletion_reported_def told_def by fastforce
  qed
  then show ?thesis using q unfolding tombstone_def by blast
qed (simp add: same_memory_def)

theorem memory_deletions_are_governed_witness:
  "\<exists>gone t. memory_delete demo_service ''m'' demo_reader ''x'' ''x'' demo_kept = (Inr gone, t) \<and>
    (\<exists>q. mem_records t = [(''m'', q)] \<and> memory_deleted q)"
proof -
  obtain gone t where run: "memory_delete demo_service ''m'' demo_reader ''x'' ''x'' demo_kept = (Inr gone, t)"
    using demo_deletion by blast
  from memory_deletions_are_governed [OF demo_store_ok run] have "\<exists>q. mem_records t = [(''m'', q)] \<and> memory_deleted q"
    by (auto simp: demo_kept_def)
  with run show ?thesis by blast
qed

section \<open>Retrieval\<close>

text \<open>C12: A retrieval changes nothing and returns as many as the limit allows of the records that the access covers,
  in the order of the full search: however many better matches the caller may not see, they take no place
  of the limit. Every record returned is live, readable, of the scope asked for, and the copy of a stored
  record with that identifier whose text holds a term of the query (a blank query matches every record).\<close>

theorem retrieval_filters_then_limits:
  assumes "memory_retrieve query a scope scope_id limit s = (Inr rs, t)"
  shows "t = s \<and> 0 < limit \<and>
    (\<exists>cs. mapR clone_record (ranked_records query scope scope_id False (mem_records s)) = Inr cs \<and>
       rs = take (nat limit) (filter (can_read a) cs)) \<and>
    (\<forall>r \<in> set rs. can_read a r \<and> \<not> memory_deleted r \<and> (\<forall>k. scope = Some k \<longrightarrow> mr_scope r = k) \<and>
       (\<exists>x. x \<in> snd ` set (mem_records s) \<and> \<not> memory_deleted x \<and> mr_id r = mr_id x \<and> clone_record x = Inr r \<and>
          search_score (search_terms query) x \<noteq> 0))"
proof -
  obtain cs where run: "t = s" "0 < limit" and cs: "mapR clone_record (ranked_records query scope scope_id False (mem_records s)) = Inr cs"
    "rs = take (nat limit) (filter (can_read a) cs)"
    using assms unfolding memory_retrieve_run by blast
  have "can_read a r \<and> \<not> memory_deleted r \<and> (\<forall>k. scope = Some k \<longrightarrow> mr_scope r = k) \<and>
       (\<exists>x. x \<in> snd ` set (mem_records s) \<and> \<not> memory_deleted x \<and> mr_id r = mr_id x \<and> clone_record x = Inr r \<and>
          search_score (search_terms query) x \<noteq> 0)" if "r \<in> set rs" for r
  proof -
    have "r \<in> set cs" "can_read a r" using that cs(2) by (auto dest: in_set_takeD)
    with mapR_mem [OF cs(1)] obtain x where x: "x \<in> set (ranked_records query scope scope_id False (mem_records s))"
      "clone_record x = Inr r" by blast
    note found = ranked_member [OF x(1)]
    have "mr_id r = mr_id x" "mr_scope r = mr_scope x" "mr_deleted r = mr_deleted x"
      using check_record_Inr [OF x(2) [unfolded clone_record_def]] by simp_all
    with found x(2) \<open>can_read a r\<close> show ?thesis by (auto simp: search_match_def memory_deleted_def)
  qed
  with run cs show ?thesis by blast
qed

lemma demo_retrieval: "memory_retrieve ''x'' demo_reader None None 5 demo_kept = (Inr [demo_memory], demo_kept)"
proof -
  have "search_score (search_terms ''x'') demo_memory \<noteq> 0"
    by (simp add: search_score_def search_terms_def casefold_def fold_char_def lower_char_def is_space_def demo_memory_def Let_def)
  then have "ranked_records ''x'' None None False (mem_records demo_kept) = [demo_memory]"
    by (simp add: ranked_records_def demo_kept_def search_match_def memory_deleted_def) (simp add: demo_memory_def)
  moreover have "can_read demo_reader demo_memory" by (simp add: can_read_def demo_reader_def demo_memory_def)
  moreover have "filter (\<lambda>r. \<not> memory_deleted r) (sort_key mr_id (map snd (mem_records demo_kept))) = [demo_memory]"
    by (simp add: demo_kept_def memory_deleted_def) (simp add: demo_memory_def)
  ultimately show ?thesis
    unfolding memory_retrieve_run by (simp add: clone_record_def demo_checked)
qed

theorem retrieval_filters_then_limits_witness:
  "memory_retrieve ''x'' demo_reader None None 5 demo_kept = (Inr [demo_memory], demo_kept) \<and>
   can_read demo_reader demo_memory \<and> \<not> memory_deleted demo_memory"
  using demo_retrieval retrieval_filters_then_limits [OF demo_retrieval] by simp

section \<open>Deletion is final\<close>

text \<open>C11: Once a record has been deleted, whatever the program does with the service afterwards (writes,
  deletions, retrievals, extractions, with any access and whatever they raise), its tombstone stays as it
  is: reading it by identifier says that there is none, and no retrieval returns it.\<close>

theorem deleted_memory_stays_deleted:
  assumes "only_extracts svc" and "mem_ok (mem_records s)"
    and "memory_delete svc i a reason actor s = (Inr gone, t)" and "memory_runs sha svc t u"
  shows "dict_get (mem_records u) i = dict_get (mem_records t) i \<and>
    memstore_get i False u = (Inl (memory_not_found i), u) \<and>
    (\<forall>query acc scope scope_id limit rs v. memory_retrieve query acc scope scope_id limit u = (Inr rs, v) \<longrightarrow> i \<notin> mr_id ` set rs)"
proof -
  obtain r q where q: "tombstone r q" "mem_records t = dict_set i q (mem_records s)"
    using memory_delete_run [OF assms(3,2)] by auto
  have ok: "mem_ok (mem_records t)" using memory_delete_history [OF assms(3)] assms(2) by (simp add: mem_history_def)
  have t: "dict_get (mem_records t) i = Some q" using q(2) by simp
  have hist: "mem_history t u" by (rule memory_runs_history [OF assms(4,1)])
  then have okU: "mem_ok (mem_records u)" using ok by (simp add: mem_history_def)
  have u: "dict_get (mem_records u) i = Some q"
    using hist ok t tombstone_final [OF q(1)] unfolding mem_history_def by blast
  have gone: "memory_deleted q" using q(1) by (simp add: tombstone_def)
  have "i \<notin> mr_id ` set rs" if found: "memory_retrieve query acc scope scope_id limit u = (Inr rs, v)"
    for query acc scope scope_id limit rs v
  proof
    assume "i \<in> mr_id ` set rs"
    then obtain p where p: "p \<in> set rs" "mr_id p = i" by blast
    obtain cs where cs: "mapR clone_record (ranked_records query scope scope_id False (mem_records u)) = Inr cs" "p \<in> set cs"
      using found p(1) unfolding memory_retrieve_run by (auto dest: in_set_takeD)
    from mapR_mem [OF this] obtain x where x: "x \<in> set (ranked_records query scope scope_id False (mem_records u))"
      "clone_record x = Inr p" by blast
    have "mr_id x = i" using check_record_Inr(1) [OF x(2) [unfolded clone_record_def]] p(2) by simp
    moreover obtain j where "(j, x) \<in> set (mem_records u)" using ranked_member [OF x(1)] by auto
    moreover from this have "mr_id x = j" using okU by (auto simp: mem_ok_def)
    ultimately have "dict_get (mem_records u) i = Some x" using okU by (auto simp: mem_ok_def dict_get_iff)
    then show False using u gone ranked_member [OF x(1)] by (simp add: search_match_def)
  qed
  then show ?thesis using t u gone by (simp add: memstore_get_run)
qed

theorem deleted_memory_stays_deleted_witness:
  "\<exists>gone t. memory_delete demo_service ''m'' demo_reader ''x'' ''x'' demo_kept = (Inr gone, t) \<and>
    memstore_get ''m'' False t = (Inl (memory_not_found ''m''), t)"
proof -
  obtain gone t where run: "memory_delete demo_service ''m'' demo_reader ''x'' ''x'' demo_kept = (Inr gone, t)"
    using demo_deletion by blast
  have "only_extracts demo_service"
    by (simp add: only_extracts_def demo_service_def deterministic_extract_silent)
  from deleted_memory_stays_deleted [OF this demo_store_ok run memory_runs.stays [of "\<lambda>b. b"]] run show ?thesis by blast
qed

end
