(* ===== verification/Coding_Frames.thy ===== *)
theory Coding_Frames
  imports Memory_Redaction Context_Types
begin

text \<open>
  The frames of the worker's standard streams, \<^verbatim>\<open>aihi/code_agent/framing.py\<close>, and the ledger of the files a
  run has read, \<^verbatim>\<open>aihi/code_agent/tools/ledger.py\<close>. A byte is a character, a stream what is left to read of it or
  what has been written to it; \<open>dumps\<close> is \<^verbatim>\<open>json.dumps\<close> in its compact form, which may raise.
\<close>

section \<open>Reading a frame\<close>

definition frame_error :: "string \<Rightarrow> exn" where
  "frame_error m = Exn (OtherError ''FrameError'') m"

definition DEFAULT_MAX_FRAME_BYTES :: int where
  "DEFAULT_MAX_FRAME_BYTES = 4 * 1024 * 1024"

definition DEFAULT_MAX_HEADER_BYTES :: int where
  "DEFAULT_MAX_HEADER_BYTES = 16 * 1024"

abbreviation newline :: char where "newline \<equiv> CHR 0x0A"

text \<open>\<^verbatim>\<open>stream.readline(n)\<close>.\<close>

fun read_line :: "nat \<Rightarrow> string \<Rightarrow> string \<times> string" where
  "read_line 0 s = ([], s)"
| "read_line (Suc n) [] = ([], [])"
| "read_line (Suc n) (c # s) =
     (if c = newline then ([c], s) else (case read_line n s of (l, r) \<Rightarrow> (c # l, r)))"

lemma read_line_Nil [simp]: "read_line n [] = ([], [])"
  by (cases n) simp_all

lemma read_line_splits: "read_line n s = (l, r) \<Longrightarrow> s = l @ r"
  by (induction n s arbitrary: l r rule: read_line.induct) (auto split: if_splits prod.splits)

lemma read_line_shorter: "(l, r) = read_line n s \<Longrightarrow> l \<noteq> [] \<Longrightarrow> length r < length s"
  using read_line_splits [of n s l r] by simp

text \<open>\<^verbatim>\<open>int(text)\<close> on text without spaces at its ends: a sign, digits, single underscores between digits.\<close>

fun decimal_digits :: "string \<Rightarrow> string option" where
  "decimal_digits [] = None"
| "decimal_digits [c] = (if is_digit c then Some [c] else None)"
| "decimal_digits (c # d # s) =
     (if is_digit c then map_option ((#) c) (if d = CHR ''_'' then decimal_digits s else decimal_digits (d # s)) else None)"

definition decimal_value :: "string \<Rightarrow> nat option" where
  "decimal_value s =
     (case decimal_digits s of None \<Rightarrow> None | Some ds \<Rightarrow> if length ds > 4300 then None else parse_nat ds)"

definition frame_int :: "string \<Rightarrow> int option" where
  "frame_int s =
     (case s of
        c # t \<Rightarrow> if c = CHR ''-'' then map_option (\<lambda>n. - int n) (decimal_value t)
          else if c = CHR ''+'' then map_option int (decimal_value t) else map_option int (decimal_value s)
      | [] \<Rightarrow> None)"

text \<open>\<^verbatim>\<open>partition(":")\<close>; \<open>None\<close> where there is no colon.\<close>

fun at_colon :: "string \<Rightarrow> (string \<times> string) option" where
  "at_colon [] = None"
| "at_colon (c # s) = (if c = CHR '':'' then Some ([], s) else map_option (\<lambda>(a, b). (c # a, b)) (at_colon s))"

definition ascii_char :: "char \<Rightarrow> bool" where
  "ascii_char c \<longleftrightarrow> (of_char c :: nat) < 128"

text \<open>One header line; the length found so far goes in and out.\<close>

definition header_line :: "int \<Rightarrow> int option \<Rightarrow> string \<Rightarrow> exn + int option" where
  "header_line max_frame found line =
     (if \<not> list_all ascii_char line then Inl (frame_error ''Frame headers must be ASCII'')
      else case at_colon line of
          None \<Rightarrow> Inl (frame_error ''Malformed frame header'')
        | Some (name, value) \<Rightarrow>
            if strip (map lower_char name) \<noteq> ''content-length'' then Inr found
            else if found \<noteq> None then Inl (frame_error ''Duplicate Content-Length header'')
            else case frame_int (strip value) of
                None \<Rightarrow> Inl (frame_error ''Content-Length must be an integer'')
              | Some n \<Rightarrow> if n < 0 \<or> n > max_frame then Inl (frame_error ''Content-Length is outside the configured limit'')
                  else Inr (Some n))"

text \<open>The header lines up to the blank one; \<open>Inr None\<close> is the end of the stream before a frame.\<close>

function read_headers :: "int \<Rightarrow> nat \<Rightarrow> bool \<Rightarrow> int option \<Rightarrow> string \<Rightarrow> (exn + int option option) \<times> string" where
  "read_headers max_frame max_header saw found s =
     (case read_line (Suc max_header) s of (line, rest) \<Rightarrow>
        if line = [] then (if saw then Inl (frame_error ''Unexpected EOF in frame headers'') else Inr None, rest)
        else if length line > max_header then (Inl (frame_error ''Frame headers exceed the configured limit''), rest)
        else if line = [CHR 0x0D, newline] \<or> line = [newline] then (Inr (Some found), rest)
        else case header_line max_frame found line of
            Inl e \<Rightarrow> (Inl e, rest)
          | Inr found' \<Rightarrow> read_headers max_frame max_header True found' rest)"
  by pat_completeness auto
termination
  by (relation "measure (\<lambda>(max_frame, max_header, saw, found, s). length s)") (auto dest: read_line_shorter)

declare read_headers.simps [simp del]

definition read_frame :: "int \<Rightarrow> int \<Rightarrow> (string, string option) sm" where
  "read_frame max_frame max_header =
     (\<lambda>s. if max_frame \<le> 0 \<or> max_header \<le> 0 then (Inl (Exn (Py ValueError) ''frame limits must be positive''), s)
      else case read_headers max_frame (nat max_header) False None s of
          (Inl e, rest) \<Rightarrow> (Inl e, rest)
        | (Inr None, rest) \<Rightarrow> (Inr None, rest)
        | (Inr (Some None), rest) \<Rightarrow> (Inl (frame_error ''Content-Length header is required''), rest)
        | (Inr (Some (Some n)), rest) \<Rightarrow>
            (if length rest < nat n then Inl (frame_error ''Unexpected EOF in frame payload'')
             else Inr (Some (take (nat n) rest)), drop (nat n) rest))"

section \<open>Writing a frame\<close>

definition frame_bytes :: "string \<Rightarrow> string" where
  "frame_bytes body =
     ''Content-Length: '' @ show_nat (length body) @ [CHR 0x0D, newline, CHR 0x0D, newline] @ body"

definition write_frame :: "(jobj \<Rightarrow> exn + string) \<Rightarrow> int \<Rightarrow> jobj \<Rightarrow> (string, unit) sm" where
  "write_frame dumps max_frame payload =
     bindE (liftE (dumps payload)) (\<lambda>t. let body = utf8_encode t in
       if int (length body) > max_frame then raiseE (frame_error ''Encoded frame exceeds the configured limit'')
       else modifyE (\<lambda>out. out @ frame_bytes body))"

section \<open>The ledger\<close>

record read_ledger =
  led_max :: nat
  led_runs :: "(string, string set) dict"

definition new_ledger :: "int \<Rightarrow> exn + read_ledger" where
  "new_ledger max_runs =
     (if max_runs \<le> 0 then Inl (Exn (Py ValueError) ''max_runs must be positive'')
      else Inr \<lparr>led_max = nat max_runs, led_runs = []\<rparr>)"

definition record_read :: "string \<Rightarrow> string \<Rightarrow> read_ledger \<Rightarrow> read_ledger" where
  "record_read run path l =
     (case dict_get (led_runs l) run of
        Some paths \<Rightarrow> l\<lparr>led_runs := dict_set run (insert path paths) (led_runs l)\<rparr>
      | None \<Rightarrow> let kept = (if length (led_runs l) \<ge> led_max l then drop 1 (led_runs l) else led_runs l) in
          l\<lparr>led_runs := dict_set run {path} kept\<rparr>)"

definition has_read :: "string \<Rightarrow> string \<Rightarrow> read_ledger \<Rightarrow> bool" where
  "has_read run path l \<longleftrightarrow> path \<in> (case dict_get (led_runs l) run of Some paths \<Rightarrow> paths | None \<Rightarrow> {})"

definition forget_run :: "string \<Rightarrow> read_ledger \<Rightarrow> read_ledger" where
  "forget_run run l = l\<lparr>led_runs := dict_pop run (led_runs l)\<rparr>"

section \<open>Frames come back\<close>

lemma show_nat_digits: "list_all is_digit (show_nat n)"
proof (induction n rule: show_nat.induct)
  case (1 n)
  have "is_digit (digit_char k)" if "k < 10" for k
    using that by (simp add: is_digit_def between_def digit_char_def)
  with 1 show ?case by (subst show_nat.simps) simp
qed

lemma show_nat_length: "n < 10 ^ Suc k \<Longrightarrow> length (show_nat n) \<le> Suc k"
proof (induction k arbitrary: n)
  case 0
  then show ?case by (subst show_nat.simps) simp
next
  case (Suc k)
  then have "n div 10 < 10 ^ Suc k" by (simp add: less_mult_imp_div_less mult.commute)
  from Suc.IH [OF this] show ?case by (subst show_nat.simps) simp
qed

lemma show_nat_nonempty [simp]: "show_nat n \<noteq> []"
  by (subst show_nat.simps) simp

lemma parse_show_nat: "parse_nat (show_nat n) = Some n"
proof -
  have "foldl parse_digit (Some 0) (show_nat n) = Some n"
  proof (induction n rule: show_nat.induct)
    case (1 n)
    then show ?case by (subst show_nat.simps) auto
  qed
  then show ?thesis by (simp add: parse_nat_def)
qed

lemma decimal_digits_id: "list_all is_digit s \<Longrightarrow> s \<noteq> [] \<Longrightarrow> decimal_digits s = Some s"
proof (induction s rule: decimal_digits.induct)
  case (3 c d s)
  have "d \<noteq> CHR ''_''" using 3(3) by (auto simp: is_digit_def between_def)
  with 3 show ?case by simp
qed simp_all

lemma frame_int_show:
  assumes "n < 10 ^ Suc k" and "Suc k \<le> 4300"
  shows "frame_int (show_nat n) = Some (int n)"
proof -
  obtain c t where c: "show_nat n = c # t" by (cases "show_nat n") auto
  have "is_digit c" using show_nat_digits [of n] c by simp
  then have "c \<noteq> CHR ''-''" "c \<noteq> CHR ''+''" by (auto simp: is_digit_def between_def)
  moreover have "length (show_nat n) \<le> 4300"
    using show_nat_length [OF assms(1)] assms(2) by (rule le_trans)
  then have "decimal_value (show_nat n) = Some n"
    using decimal_digits_id [OF show_nat_digits, of n] parse_show_nat [of n] by (simp add: decimal_value_def)
  ultimately show ?thesis by (simp add: frame_int_def c)
qed

lemma read_line_to: "newline \<notin> set l \<Longrightarrow> length l < n \<Longrightarrow> read_line n (l @ newline # r) = (l @ [newline], r)"
proof (induction l arbitrary: n)
  case Nil
  then show ?case by (cases n) simp_all
next
  case (Cons c l)
  then show ?case by (cases n) auto
qed

lemma digit_facts: "is_digit c \<Longrightarrow> ascii_char c \<and> \<not> is_space c \<and> c \<noteq> newline"
  by (auto simp: is_digit_def between_def ascii_char_def is_space_def)

lemma strip_digits:
  assumes "list_all is_digit ds" and "ds \<noteq> []"
  shows "strip (CHR '' '' # ds @ [CHR 0x0D, newline]) = ds"
proof -
  have space: "is_space (CHR '' '')" "is_space (CHR 0x0D)" "is_space newline" by (simp_all add: is_space_def)
  have edge: "\<not> is_space (hd ds)" "\<not> is_space (last ds)"
    using assms digit_facts by (auto simp: list_all_iff)
  have "dropWhile is_space (CHR '' '' # ds @ [CHR 0x0D, newline]) = ds @ [CHR 0x0D, newline]"
    using space(1) edge(1) assms(2) by (cases ds) simp_all
  moreover have "dropWhile is_space (rev (ds @ [CHR 0x0D, newline])) = rev ds"
    using space(2,3) edge(2) assms(2) by (cases ds rule: rev_cases) simp_all
  ultimately show ?thesis by (simp add: strip_def)
qed

abbreviation length_header :: "nat \<Rightarrow> string" where
  "length_header k \<equiv> ''Content-Length: '' @ show_nat k @ [CHR 0x0D]"

lemma length_header_line:
  assumes "int k \<le> max_frame" and "k < 10 ^ Suc d" and "Suc d \<le> 4300"
  shows "header_line max_frame None (length_header k @ [newline]) = Inr (Some (int k))"
proof -
  have "list_all ascii_char (show_nat k)"
    using show_nat_digits [of k] digit_facts by (auto simp: list_all_iff)
  then have "list_all ascii_char (length_header k @ [newline])" by (simp add: ascii_char_def)
  moreover have "at_colon (length_header k @ [newline]) = Some (''Content-Length'', CHR '' '' # show_nat k @ [CHR 0x0D, newline])"
    by simp
  moreover have "strip (map lower_char ''Content-Length'') = ''content-length''"
    by code_simp
  ultimately show ?thesis
    using frame_int_show [OF assms(2,3)] strip_digits [OF show_nat_digits show_nat_nonempty, of k] assms(1)
    by (simp add: header_line_def del: at_colon.simps append.simps)
qed

lemma read_headers_step:
  assumes "newline \<notin> set h" and "length h < max_header" and "h \<noteq> []" and "h \<noteq> [CHR 0x0D]"
    and "header_line max_frame found (h @ [newline]) = Inr found'"
  shows "read_headers max_frame max_header saw found (h @ newline # rest) = read_headers max_frame max_header True found' rest"
  using assms
  by (subst read_headers.simps) (simp add: read_line_to del: read_line.simps)

lemma read_headers_frame:
  assumes "int k \<le> max_frame" and "k < 10 ^ Suc d" and "Suc d \<le> 4300" and "Suc d + 18 \<le> max_header"
  shows "read_headers max_frame max_header False None (length_header k @ newline # CHR 0x0D # newline # rest) =
    (Inr (Some (Some (int k))), rest)"
proof -
  have "newline \<notin> set (show_nat k)" using show_nat_digits [of k] digit_facts by (auto simp: list_all_iff)
  then have "newline \<notin> set (length_header k)" by simp
  moreover have "length (length_header k) < max_header" using show_nat_length [OF assms(2)] assms(4) by simp
  moreover have "length_header k \<noteq> []" "length_header k \<noteq> [CHR 0x0D]" by simp_all
  ultimately have "read_headers max_frame max_header False None (length_header k @ newline # CHR 0x0D # newline # rest) =
      read_headers max_frame max_header True (Some (int k)) (CHR 0x0D # newline # rest)"
    using length_header_line [OF assms(1-3)] by (rule read_headers_step)
  moreover have "read_line (Suc max_header) (CHR 0x0D # newline # rest) = ([CHR 0x0D, newline], rest)"
    using assms(4) by (cases max_header) simp_all
  then have "read_headers max_frame max_header True (Some (int k)) (CHR 0x0D # newline # rest) = (Inr (Some (Some (int k))), rest)"
    using assms(4) by (subst read_headers.simps) (simp del: read_line.simps)
  ultimately show ?thesis by (rule trans)
qed

lemma read_frame_back:
  assumes "int (length body) \<le> DEFAULT_MAX_FRAME_BYTES"
  shows "read_frame DEFAULT_MAX_FRAME_BYTES DEFAULT_MAX_HEADER_BYTES (frame_bytes body @ rest) = (Inr (Some body), rest)"
proof -
  have "length body < 10 ^ Suc 6" using assms by (simp add: DEFAULT_MAX_FRAME_BYTES_def)
  from read_headers_frame [OF assms this, of "nat DEFAULT_MAX_HEADER_BYTES" "body @ rest"]
  have "read_headers DEFAULT_MAX_FRAME_BYTES (nat DEFAULT_MAX_HEADER_BYTES) False None (frame_bytes body @ rest) =
      (Inr (Some (Some (int (length body)))), body @ rest)"
    by (simp add: frame_bytes_def DEFAULT_MAX_HEADER_BYTES_def)
  then show ?thesis by (simp add: read_frame_def DEFAULT_MAX_FRAME_BYTES_def DEFAULT_MAX_HEADER_BYTES_def)
qed

lemma read_frame_end: "read_frame DEFAULT_MAX_FRAME_BYTES DEFAULT_MAX_HEADER_BYTES [] = (Inr None, [])"
  by (simp add: read_frame_def read_headers.simps DEFAULT_MAX_FRAME_BYTES_def DEFAULT_MAX_HEADER_BYTES_def)

lemma write_frame_run:
  "write_frame dumps max_frame payload out = (Inr u, out') \<longleftrightarrow>
     (\<exists>t. dumps payload = Inr t \<and> int (length (utf8_encode t)) \<le> max_frame \<and> out' = out @ frame_bytes (utf8_encode t))"
  by (cases "dumps payload") (auto simp: write_frame_def Let_def eff_simps)

lemma write_frames_run:
  assumes "mapE (write_frame dumps max_frame) payloads out = (Inr us, out')"
  shows "\<exists>texts. mapR dumps payloads = Inr texts \<and> (\<forall>t \<in> set texts. int (length (utf8_encode t)) \<le> max_frame) \<and>
    out' = out @ concat (map (\<lambda>t. frame_bytes (utf8_encode t)) texts)"
  using assms
proof (induction payloads arbitrary: out us)
  case Nil
  then show ?case by (simp add: retE_def)
next
  case (Cons p ps)
  then obtain out1 vs where p: "write_frame dumps max_frame p out = (Inr (), out1)"
    and ps: "mapE (write_frame dumps max_frame) ps out1 = (Inr vs, out')"
    by (auto simp: bindE_eq_Inr retE_def)
  from Cons.IH [OF ps] obtain texts where "mapR dumps ps = Inr texts"
    "\<forall>t \<in> set texts. int (length (utf8_encode t)) \<le> max_frame"
    "out' = out1 @ concat (map (\<lambda>t. frame_bytes (utf8_encode t)) texts)" by blast
  moreover obtain t where "dumps p = Inr t" "int (length (utf8_encode t)) \<le> max_frame" "out1 = out @ frame_bytes (utf8_encode t)"
    using p write_frame_run by blast
  ultimately show ?case by (intro exI [of _ "t # texts"]) simp
qed

lemma read_frames_back:
  assumes "\<forall>t \<in> set texts. int (length (utf8_encode t)) \<le> DEFAULT_MAX_FRAME_BYTES" and "length ps = length texts"
  shows "mapE (\<lambda>_. read_frame DEFAULT_MAX_FRAME_BYTES DEFAULT_MAX_HEADER_BYTES) ps
    (concat (map (\<lambda>t. frame_bytes (utf8_encode t)) texts)) = (Inr (map (\<lambda>t. Some (utf8_encode t)) texts), [])"
  using assms
proof (induction texts arbitrary: ps)
  case Nil
  then show ?case by (simp add: retE_def)
next
  case (Cons t texts)
  then obtain p qs where ps: "ps = p # qs" by (cases ps) simp_all
  with Cons.prems have len: "length qs = length texts"
    and bound: "\<forall>t \<in> set texts. int (length (utf8_encode t)) \<le> DEFAULT_MAX_FRAME_BYTES"
      "int (length (utf8_encode t)) \<le> DEFAULT_MAX_FRAME_BYTES" by simp_all
  show ?case
    using read_frame_back [OF bound(2)] Cons.IH [OF bound(1) len] by (simp add: ps bindE_def retE_def)
qed

section \<open>What a frame that was read is\<close>

lemma read_headers_splits:
  "read_headers max_frame max_header saw found s = (Inr (Some got), rest) \<Longrightarrow>
   (\<forall>n. found = Some n \<longrightarrow> 0 \<le> n \<and> n \<le> max_frame) \<Longrightarrow>
   (\<exists>header. header \<noteq> [] \<and> s = header @ rest) \<and> (\<forall>n. got = Some n \<longrightarrow> 0 \<le> n \<and> n \<le> max_frame)"
proof (induction max_frame max_header saw found s arbitrary: got rest rule: read_headers.induct)
  case (1 max_frame max_header saw found s)
  obtain line rest1 where line: "read_line (Suc max_header) s = (line, rest1)" by (cases "read_line (Suc max_header) s")
  have s: "s = line @ rest1" by (rule read_line_splits [OF line])
  have run: "(if line = [] then (if saw then Inl (frame_error ''Unexpected EOF in frame headers'') else Inr None, rest1)
      else if length line > max_header then (Inl (frame_error ''Frame headers exceed the configured limit''), rest1)
      else if line = [CHR 0x0D, newline] \<or> line = [newline] then (Inr (Some found), rest1)
      else case header_line max_frame found line of
          Inl e \<Rightarrow> (Inl e, rest1)
        | Inr found' \<Rightarrow> read_headers max_frame max_header True found' rest1) = (Inr (Some got), rest)"
    using "1.prems"(1) by (subst (asm) read_headers.simps) (simp add: line)
  have nonempty: "line \<noteq> []" and fits: "\<not> length line > max_header" using run by (auto split: if_splits)
  show ?case
  proof (cases "line = [CHR 0x0D, newline] \<or> line = [newline]")
    case True
    then have "found = got" "rest1 = rest" using run nonempty fits by simp_all
    then show ?thesis using s nonempty "1.prems"(2) by blast
  next
    case False
    then obtain found' where found': "header_line max_frame found line = Inr found'"
      and rec: "read_headers max_frame max_header True found' rest1 = (Inr (Some got), rest)"
      using run nonempty fits by (cases "header_line max_frame found line") simp_all
    have "\<forall>n. found' = Some n \<longrightarrow> 0 \<le> n \<and> n \<le> max_frame"
      using found' "1.prems"(2) by (auto simp: header_line_def split: if_splits option.splits prod.splits)
    from "1.IH" [OF line [symmetric] nonempty fits False found' rec this]
    show ?thesis using s nonempty by auto
  qed
qed

lemma read_frame_splits:
  assumes "read_frame max_frame max_header s = (Inr (Some payload), rest)"
  shows "int (length payload) \<le> max_frame \<and> (\<exists>header. header \<noteq> [] \<and> s = header @ payload @ rest)"
proof -
  have lim: "\<not> (max_frame \<le> 0 \<or> max_header \<le> 0)" using assms by (auto simp: read_frame_def)
  obtain r rest1 where run: "read_headers max_frame (nat max_header) False None s = (r, rest1)" by (meson surj_pair)
  with assms lim obtain n where r: "r = Inr (Some (Some n))" and n: "nat n \<le> length rest1"
    "payload = take (nat n) rest1" "rest = drop (nat n) rest1"
    by (auto simp: read_frame_def split: sum.splits option.splits if_splits)
  have "(\<exists>header. header \<noteq> [] \<and> s = header @ rest1) \<and> 0 \<le> n \<and> n \<le> max_frame"
    using read_headers_splits [OF run [unfolded r]] by simp
  then obtain header where "header \<noteq> []" "s = header @ rest1" "0 \<le> n" "n \<le> max_frame" by blast
  then show ?thesis using n by auto
qed

section \<open>What the ledger knows\<close>

datatype ledger_op = Note string string | Forget string

primrec ledger_step :: "ledger_op \<Rightarrow> read_ledger \<Rightarrow> read_ledger" where
  "ledger_step (Note run path) l = record_read run path l"
| "ledger_step (Forget run) l = forget_run run l"

definition ledger_ok :: "(string \<times> string) set \<Rightarrow> read_ledger \<Rightarrow> bool" where
  "ledger_ok seen l \<longleftrightarrow>
     0 < led_max l \<and> dict_wf (led_runs l) \<and> length (led_runs l) \<le> led_max l \<and>
     (\<forall>(run, paths) \<in> set (led_runs l). \<forall>path \<in> paths. (run, path) \<in> seen)"

lemma dict_set_length: "length (dict_set k v d) = (if dict_get d k = None then Suc (length d) else length d)"
  by (induction d) (auto split: if_splits)

lemma dict_wf_drop: "dict_wf d \<Longrightarrow> dict_wf (drop n d)"
  by (simp add: dict_wf_def drop_map [symmetric])

lemma dict_get_drop: "dict_get d k = None \<Longrightarrow> dict_get (drop n d) k = None"
  by (auto simp: dict_get_None dest: in_set_dropD)

lemma ledger_step_ok:
  assumes "ledger_ok seen l"
  shows "ledger_ok (case op of Note run path \<Rightarrow> insert (run, path) seen | Forget run \<Rightarrow> seen) (ledger_step op l)"
proof (cases op)
  case (Forget run)
  have "length (dict_pop run (led_runs l)) \<le> length (led_runs l)" by (simp add: dict_pop_filter)
  then show ?thesis using assms Forget by (auto simp: ledger_ok_def forget_run_def set_dict_pop)
next
  case (Note run path)
  show ?thesis
  proof (cases "dict_get (led_runs l) run")
    case (Some paths)
    then have "(run, paths) \<in> set (led_runs l)" by (rule map_of_SomeD)
    with assms Note Some show ?thesis
      by (fastforce simp: ledger_ok_def record_read_def dict_set_length dict_values_set)
  next
    case None
    define kept where "kept = (if length (led_runs l) \<ge> led_max l then drop 1 (led_runs l) else led_runs l)"
    have kept: "dict_wf kept" "dict_get kept run = None" "length kept < led_max l" "set kept \<subseteq> set (led_runs l)"
      using assms None by (auto simp: kept_def ledger_ok_def dict_wf_drop dict_get_drop [of _ _ 1, simplified] dest: in_set_dropD)
    have "ledger_step op l = l\<lparr>led_runs := kept @ [(run, {path})]\<rparr>"
      using Note None kept(2) by (simp add: record_read_def kept_def [symmetric] Let_def dict_set_new)
    moreover have "dict_wf (kept @ [(run, {path})])" using kept(1,2) by (simp add: dict_wf_def dict_get_None)
    moreover have "\<forall>(run, paths) \<in> set kept. \<forall>path \<in> paths. (run, path) \<in> seen"
      using assms kept(4) unfolding ledger_ok_def by blast
    ultimately show ?thesis using assms Note kept(3) by (auto simp: ledger_ok_def)
  qed
qed

lemma ledger_history_ok:
  assumes "ledger_ok seen l"
  shows "ledger_ok (seen \<union> {(run, path). Note run path \<in> set ops}) (fold ledger_step ops l)"
  using assms
proof (induction ops arbitrary: seen l)
  case (Cons op ops)
  have "ledger_ok (case op of Note run path \<Rightarrow> insert (run, path) seen | Forget run \<Rightarrow> seen) (ledger_step op l)"
    by (rule ledger_step_ok [OF Cons.prems])
  from Cons.IH [OF this] have "ledger_ok ((case op of Note run path \<Rightarrow> insert (run, path) seen | Forget run \<Rightarrow> seen) \<union>
      {(run, path). Note run path \<in> set ops}) (fold ledger_step (op # ops) l)" by simp
  moreover have "(case op of Note run path \<Rightarrow> insert (run, path) seen | Forget run \<Rightarrow> seen) \<union>
      {(run, path). Note run path \<in> set ops} = seen \<union> {(run, path). Note run path \<in> set (op # ops)}"
    by (cases op) auto
  ultimately show ?case by simp
qed simp

end
