(* ===== verification/Coding_Policy.thy ===== *)
theory Coding_Policy
  imports Policy_Engine Memory_Redaction
begin

text \<open>
  The coding agent's authority, \<^verbatim>\<open>aihi/code_agent/permissions.py\<close>: access modes and run modes, its policy
  engine, and the profile of a run; the descriptor of a sandbox is that of \<^verbatim>\<open>aihi/agent/sandbox/base.py\<close>.

  The file system is outside code: \<open>locate\<close> is a path with the home directory expanded, symbolic links
  resolved and existence required, \<open>resolve_from\<close> the same from a workspace without that requirement;
  both may raise. A path is its text. The harness passes the context of the application on without looking
  at it; \<open>view\<close> reads the coding agent's own out of such a value.
\<close>

section \<open>Contexts\<close>

datatype access_mode = ReadOnly | WorkspaceWrite | FullAccess

datatype run_mode = Execute | Plan

primrec access_text :: "access_mode \<Rightarrow> string" where
  "access_text ReadOnly = ''read_only''"
| "access_text WorkspaceWrite = ''workspace_write''"
| "access_text FullAccess = ''full_access''"

primrec mode_text :: "run_mode \<Rightarrow> string" where
  "mode_text Execute = ''execute''"
| "mode_text Plan = ''plan''"

record sandbox_descriptor =
  sbx_name :: string
  sbx_unsafe :: bool
  sbx_filesystem :: bool
  sbx_network :: bool
  sbx_writes :: bool
  sbx_process :: bool
  sbx_mechanism :: string
  sbx_image :: "string option"
  sbx_network_mode :: "string option"
  sbx_mount :: "string option"

definition sandbox_to_dict :: "sandbox_descriptor \<Rightarrow> jobj" where
  "sandbox_to_dict d =
     [(''name'', JStr (sbx_name d)), (''unsafe'', JBool (sbx_unsafe d)),
      (''filesystem_isolated'', JBool (sbx_filesystem d)), (''network_isolated'', JBool (sbx_network d)),
      (''filesystem_write_isolated'', JBool (sbx_writes d)), (''process_isolated'', JBool (sbx_process d)),
      (''mechanism'', JStr (sbx_mechanism d)), (''image'', jopt_str (sbx_image d)),
      (''network_mode'', jopt_str (sbx_network_mode d)), (''mount_scope'', jopt_str (sbx_mount d))]"

record file_system =
  locate :: "string \<Rightarrow> exn + string"
  resolve_from :: "string \<Rightarrow> string \<Rightarrow> exn + string"
  is_directory :: "string \<Rightarrow> bool"

record coding_context =
  cod_workspace :: string
  cod_access :: access_mode
  cod_mode :: run_mode
  cod_sandbox :: sandbox_descriptor

definition check_coding_context :: "file_system \<Rightarrow> coding_context \<Rightarrow> exn + coding_context" where
  "check_coding_context fs c =
     bindR (locate fs (cod_workspace c)) (\<lambda>workspace.
       if is_directory fs workspace then Inr (c\<lparr>cod_workspace := workspace\<rparr>)
       else Inl (Exn (Py ValueError) (''Coding workspace is not a directory: '' @ workspace)))"

definition build_run_profile :: "coding_context \<Rightarrow> jobj" where
  "build_run_profile c =
     [(''schema'', JStr ''aihi.code_agent.run_profile.v1''), (''workspace'', JStr (cod_workspace c)),
      (''access_mode'', JStr (access_text (cod_access c))), (''run_mode'', JStr (mode_text (cod_mode c))),
      (''command_sandbox'', JObj (sandbox_to_dict (cod_sandbox c)))]"

section \<open>Sensitive paths\<close>

text \<open>\<^verbatim>\<open>fnmatch\<close> for patterns whose only wildcard is the star.\<close>

fun glob_match :: "string \<Rightarrow> string \<Rightarrow> bool" where
  "glob_match [] s = (s = [])"
| "glob_match (p # ps) [] = (p = CHR ''*'' \<and> glob_match ps [])"
| "glob_match (p # ps) (c # s) =
     (if p = CHR ''*'' then glob_match ps (c # s) \<or> glob_match (p # ps) s else p = c \<and> glob_match ps s)"

definition SENSITIVE_PATTERNS :: "string list" where
  "SENSITIVE_PATTERNS =
     [''*/.ssh/*'', ''*/.aws/credentials'', ''*/.config/gcloud/*'', ''*/.azure/*'', ''*/.gnupg/*'',
      ''*/.docker/config.json'', ''*/.kube/config'']"

definition SENSITIVE_FRAGMENTS :: "string list" where
  "SENSITIVE_FRAGMENTS =
     [''/.ssh/'', ''/.aws/credentials'', ''/.config/gcloud/'', ''/.azure/'', ''/.gnupg/'', ''/.docker/config.json'',
      ''/.kube/config'', ''.ssh/'', ''.aws/credentials'', ''.config/gcloud/'', ''.azure/'', ''.gnupg/'',
      ''.docker/config.json'', ''.kube/config'']"

definition SENSITIVE_COMPONENTS :: "string list" where
  "SENSITIVE_COMPONENTS = [''.ssh'', ''.aws'', ''.config'', ''.azure'', ''.gnupg'', ''.docker'', ''.kube'']"

fun split_slash :: "string \<Rightarrow> string \<Rightarrow> string list" where
  "split_slash part [] = [part]"
| "split_slash part (c # s) = (if c = CHR ''/'' then part # split_slash [] s else split_slash (part @ [c]) s)"

definition normal_slashes :: "string \<Rightarrow> string" where
  "normal_slashes s = map (\<lambda>c. if c = CHR 0x5C then CHR ''/'' else c) s"

definition path_components :: "string \<Rightarrow> string list" where
  "path_components s = filter (\<lambda>p. p \<noteq> []) (split_slash [] (normal_slashes s))"

definition input_texts :: "jval \<Rightarrow> string list" where
  "input_texts v = (case v of JStr s \<Rightarrow> [s] | _ \<Rightarrow> [])"

definition path_candidates :: "jobj \<Rightarrow> string list" where
  "path_candidates inp =
     input_texts (get_or_none inp ''path'') @ input_texts (get_or_none inp ''file_path'') @
     (case get_or_none inp ''argv'' of JArr xs \<Rightarrow> concat (map input_texts xs) | _ \<Rightarrow> []) @
     input_texts (get_or_none inp ''command'')"

definition names_secret :: "string \<Rightarrow> string \<Rightarrow> bool" where
  "names_secret candidate resolved \<longleftrightarrow>
     list_ex (\<lambda>p. glob_match p resolved) SENSITIVE_PATTERNS \<or>
     list_ex (\<lambda>f. has_part f (normal_slashes candidate)) SENSITIVE_FRAGMENTS \<or>
     list_ex (\<lambda>p. p \<in> set SENSITIVE_COMPONENTS) (path_components candidate)"

primrec sensitive_path :: "file_system \<Rightarrow> string \<Rightarrow> string list \<Rightarrow> exn + bool" where
  "sensitive_path fs workspace [] = Inr False"
| "sensitive_path fs workspace (p # ps) =
     bindR (resolve_from fs workspace p) (\<lambda>resolved.
       if names_secret p resolved then Inr True else sensitive_path fs workspace ps)"

section \<open>The policy\<close>

definition LOCAL_FILE_CAPABILITIES :: "string list" where
  "LOCAL_FILE_CAPABILITIES = [''filesystem.read'', ''filesystem.write'']"

definition local_file_write :: "tool_spec \<Rightarrow> bool" where
  "local_file_write spec \<longleftrightarrow>
     mutates spec \<and> ''filesystem.write'' \<in> set (required_capabilities spec) \<and>
     set (required_capabilities spec) \<subseteq> set LOCAL_FILE_CAPABILITIES"

text \<open>What is decided when there is neither an approval nor a lease to decide it.\<close>

definition access_decision :: "access_mode \<Rightarrow> tool_spec \<Rightarrow> decision" where
  "access_decision access spec =
     (if access = FullAccess
      then make_decision Allow ''Full-access mode allows the tool after hard safety checks.'' ''access_mode.full_access''
      else if requires_execution spec
      then make_decision Ask ''Workspace-write mode requires approval for arbitrary commands.''
             ''access_mode.workspace_write.command_approval''
      else if local_file_write spec
      then make_decision Allow ''Workspace-write mode allows application-owned local file edits.''
             ''access_mode.workspace_write.local_edit''
      else if mutates spec
      then make_decision Ask ''Workspace-write mode requires approval for external mutation.''
             ''access_mode.workspace_write.external_approval''
      else make_decision Allow ''Read-only tool allowed by Coding Agent policy.'' ''code_agent.read_only'')"

definition evidence_decision :: "access_mode \<Rightarrow> tool_spec \<Rightarrow> permission_context \<Rightarrow> ('w world_scheme, decision) sm" where
  "evidence_decision access spec c =
     bindE (ask_lacking spec c) (\<lambda>lacking.
     if lacking then retE (make_decision Ask ''The tool requires an active capability lease.'' ''capability.lease_required'')
     else bindE (ask_granted spec c) (\<lambda>granted.
     if granted
     then retE (make_decision Allow ''An active approval grant allows this privileged tool.'' ''approval.granted'')
     else bindE (ask_leased spec c) (\<lambda>leased.
     if leased
     then retE (make_decision Allow ''An active capability lease allows this privileged tool.'' ''capability.lease_granted'')
     else retE (access_decision access spec))))"

text \<open>The ceilings that no approval raises.\<close>

definition ceiling_denial :: "coding_context \<Rightarrow> tool_spec \<Rightarrow> decision option" where
  "ceiling_denial app spec =
     (if cod_mode app = Plan \<and> privileged spec
      then Some (make_decision Deny ''Mutating and process-executing tools are disabled in plan mode.'' ''run_mode.plan.read_only'')
      else if cod_access app = ReadOnly \<and> privileged spec
      then Some (make_decision Deny ''The read-only access mode cannot be upgraded by approval.'' ''access_mode.read_only'')
      else None)"

definition coding_evaluate ::
  "file_system \<Rightarrow> (jval \<Rightarrow> coding_context option) \<Rightarrow> ('w world_scheme) policy_engine" where
  "coding_evaluate fs view spec inp c =
     (case view (perm_app c) of
        None \<Rightarrow> retE (make_decision Deny ''Coding tools require an application permission context.'' ''code_agent.context_required'')
      | Some app \<Rightarrow>
          bindE (liftE (sensitive_path fs (cod_workspace app) (path_candidates inp))) (\<lambda>sensitive.
          if sensitive
          then retE (make_decision Deny ''Sensitive credential paths are never available to Coding tools.'' ''code_agent.sensitive_path'')
          else case ceiling_denial app spec of
              Some d \<Rightarrow> retE d | None \<Rightarrow> evidence_decision (cod_access app) spec c))"

section \<open>What an answer of Allow means\<close>

lemma sensitive_path_False:
  "sensitive_path fs ws ps = Inr False \<Longrightarrow> p \<in> set ps \<Longrightarrow> \<exists>resolved. resolve_from fs ws p = Inr resolved \<and> \<not> names_secret p resolved"
  by (induction ps) (auto simp: bindR_Inr_iff split: if_splits)

lemma asks_advance:
  "advances clock_only (ask_lacking spec c)" "advances clock_only (ask_granted spec c)" "advances clock_only (ask_leased spec c)"
  unfolding ask_lacking_def ask_granted_def ask_leased_def
  by (auto intro!: clock_advances advances_has_capabilities advances_is_approved)

lemma andE_answers: "\<exists>b w'. m w = (Inr b, w') \<Longrightarrow> \<exists>b w'. andE a m w = (Inr b, w')"
  by (auto simp: andE_def retE_def intro: exI [of _ False])

lemma ask_lacking_total: "\<exists>b w'. ask_lacking spec c w = (Inr b, w')"
proof -
  obtain b w' where "has_capabilities c (required_capabilities spec) w = (Inr b, w')" using has_capabilities_total by blast
  then show ?thesis by (auto simp: ask_lacking_def bindE_def retE_def intro: exI [of _ False])
qed

lemma ask_granted_total: "\<exists>b w'. ask_granted spec c w = (Inr b, w')"
  unfolding ask_granted_def by (rule andE_answers [OF is_approved_total])

lemma ask_leased_total: "\<exists>b w'. ask_leased spec c w = (Inr b, w')"
  unfolding ask_leased_def by (rule andE_answers [OF has_capabilities_total])

text \<open>The three questions and the answer, which reads the access mode only in the end.\<close>

definition evidence_answer :: "bool \<Rightarrow> bool \<Rightarrow> bool \<Rightarrow> decision \<Rightarrow> decision" where
  "evidence_answer lacking granted leased otherwise =
     (if lacking then make_decision Ask ''The tool requires an active capability lease.'' ''capability.lease_required''
      else if granted then make_decision Allow ''An active approval grant allows this privileged tool.'' ''approval.granted''
      else if leased then make_decision Allow ''An active capability lease allows this privileged tool.'' ''capability.lease_granted''
      else otherwise)"

lemma evidence_decision_run:
  assumes "ask_lacking spec c w = (Inr b1, w1)" and "ask_granted spec c w1 = (Inr b2, w2)" and "ask_leased spec c w2 = (Inr b3, w3)"
  shows "evidence_decision access spec c w =
    (Inr (evidence_answer b1 b2 b3 (access_decision access spec)), if b1 then w1 else if b2 then w2 else w3)"
  using assms by (simp add: evidence_decision_def evidence_answer_def bindE_def retE_def)

lemma questions:
  obtains b1 b2 b3 w1 w2 w3
  where "ask_lacking spec c w = (Inr b1, w1)" "ask_granted spec c w1 = (Inr b2, w2)" "ask_leased spec c w2 = (Inr b3, w3)"
    "clock_only w w1" "clock_only w1 w2" "clock_only w2 w3"
proof -
  obtain b1 w1 where 1: "ask_lacking spec c w = (Inr b1, w1)" using ask_lacking_total by blast
  obtain b2 w2 where 2: "ask_granted spec c w1 = (Inr b2, w2)" using ask_granted_total by blast
  obtain b3 w3 where 3: "ask_leased spec c w2 = (Inr b3, w3)" using ask_leased_total by blast
  show ?thesis
    using that [OF 1 2 3] asks_advance [THEN advancesD] 1 2 3 by blast
qed

lemma ask_lacking_evidence:
  assumes "ask_lacking spec c w = (Inr False, w1)" and "require_capability_lease c"
  shows "required_capabilities spec = [] \<or> lease_evidence c (required_capabilities spec) w w1"
  using assms by (intro has_capabilities_evidence) (auto simp: ask_lacking_def bindE_eq_Inr retE_def)

lemma ask_granted_evidence:
  assumes "ask_granted spec c w = (Inr True, w1)"
  shows "approval_evidence c (spec_name spec) w w1"
  using assms by (intro is_approved_evidence) (auto simp: ask_granted_def andE_def retE_def split: if_splits)

lemma ask_leased_evidence:
  assumes "ask_leased spec c w = (Inr True, w1)"
  shows "lease_evidence c (required_capabilities spec) w w1"
proof -
  have "has_capabilities c (required_capabilities spec) w = (Inr True, w1)" "required_capabilities spec \<noteq> []"
    using assms by (auto simp: ask_leased_def andE_def retE_def split: if_splits)
  with has_capabilities_evidence [OF this(1)] show ?thesis by simp
qed

text \<open>What lets a privileged tool run without an approval or a lease.\<close>

definition mode_allows :: "access_mode \<Rightarrow> tool_spec \<Rightarrow> bool" where
  "mode_allows access spec \<longleftrightarrow>
     access = FullAccess \<or> \<not> privileged spec \<or> (local_file_write spec \<and> \<not> requires_execution spec)"

lemma access_decision_Allow: "dec_effect (access_decision access spec) = Allow \<longleftrightarrow> mode_allows access spec"
  by (auto simp: access_decision_def mode_allows_def make_decision_def privileged_def local_file_write_def)

lemma evidence_decision_Allow:
  assumes "evidence_decision access spec c w = (Inr d, w')" and "dec_effect d = Allow"
  shows "(require_capability_lease c \<longrightarrow>
            required_capabilities spec = [] \<or> lease_evidence c (required_capabilities spec) w w') \<and>
    (approval_evidence c (spec_name spec) w w' \<or> lease_evidence c (required_capabilities spec) w w' \<or> mode_allows access spec)"
proof (rule questions [of spec c w])
  fix b1 b2 b3 w1 w2 w3
  assume ask: "ask_lacking spec c w = (Inr b1, w1)" "ask_granted spec c w1 = (Inr b2, w2)" "ask_leased spec c w2 = (Inr b3, w3)"
    and steps: "clock_only w w1" "clock_only w1 w2" "clock_only w2 w3"
  have d: "d = evidence_answer b1 b2 b3 (access_decision access spec)" and w': "w' = (if b1 then w1 else if b2 then w2 else w3)"
    using assms(1) by (simp_all add: evidence_decision_run [OF ask])
  have b1: "\<not> b1" using assms(2) d by (auto simp: evidence_answer_def make_decision_def)
  then have on: "clock_only w1 w'" "clock_only w2 w'"
    using w' steps clock_order.step_trans clock_order.step_refl by (auto split: if_splits)
  note same = clock_order.step_refl
  have "require_capability_lease c \<Longrightarrow> required_capabilities spec = [] \<or> lease_evidence c (required_capabilities spec) w w'"
    using ask_lacking_evidence [of spec c w w1] ask(1) b1 evidence_mono(1) [OF same steps(1) on(1)] by auto
  moreover have "approval_evidence c (spec_name spec) w w' \<or> lease_evidence c (required_capabilities spec) w w' \<or> mode_allows access spec"
  proof (cases b2)
    case True
    then have "approval_evidence c (spec_name spec) w1 w2" using ask(2) by (intro ask_granted_evidence) simp
    then show ?thesis using evidence_mono(2) [OF steps(1,2) on(2)] by blast
  next
    case False
    show ?thesis
    proof (cases b3)
      case True
      then have "lease_evidence c (required_capabilities spec) w2 w3" using ask(3) by (intro ask_leased_evidence) simp
      moreover have "clock_only w w2" using steps(1,2) by (rule clock_order.step_trans)
      moreover have "clock_only w3 w'" using w' b1 False same by simp
      ultimately show ?thesis using evidence_mono(1) steps(3) by blast
    next
      case False
      with \<open>\<not> b2\<close> b1 have "dec_effect (access_decision access spec) = Allow" using assms(2) d by (simp add: evidence_answer_def)
      then show ?thesis by (simp add: access_decision_Allow)
    qed
  qed
  ultimately show ?thesis by blast
qed

lemma coding_evaluate_Allow:
  assumes "coding_evaluate fs view spec inp c w = (Inr d, w')" and "dec_effect d = Allow"
  obtains app where "view (perm_app c) = Some app"
    "sensitive_path fs (cod_workspace app) (path_candidates inp) = Inr False" "ceiling_denial app spec = None"
    "evidence_decision (cod_access app) spec c w = (Inr d, w')"
proof -
  obtain app where app: "view (perm_app c) = Some app"
    using assms by (cases "view (perm_app c)") (auto simp: coding_evaluate_def retE_def make_decision_def)
  with assms(1) have "sensitive_path fs (cod_workspace app) (path_candidates inp) = Inr True \<and> dec_effect d = Deny \<or>
      sensitive_path fs (cod_workspace app) (path_candidates inp) = Inr False \<and>
      (case ceiling_denial app spec of Some d \<Rightarrow> retE d | None \<Rightarrow> evidence_decision (cod_access app) spec c) w = (Inr d, w')"
    by (cases "sensitive_path fs (cod_workspace app) (path_candidates inp)")
      (auto simp: coding_evaluate_def bindE_def liftE_def raiseE_def retE_def make_decision_def split: if_splits)
  then have sens: "sensitive_path fs (cod_workspace app) (path_candidates inp) = Inr False"
    and rest: "(case ceiling_denial app spec of Some d \<Rightarrow> retE d | None \<Rightarrow> evidence_decision (cod_access app) spec c) w = (Inr d, w')"
    using assms(2) by auto
  have "ceiling_denial app spec = None"
    using rest assms(2) by (auto simp: ceiling_denial_def retE_def make_decision_def split: if_splits)
  then show ?thesis using that [OF app sens] rest by simp
qed

lemma ceiling_None: "ceiling_denial app spec = None \<longleftrightarrow> (privileged spec \<longrightarrow> cod_mode app = Execute \<and> cod_access app \<noteq> ReadOnly)"
  using run_mode.exhaust by (auto simp: ceiling_denial_def)

end
