(* ===== verification/Coding_Subagents.thy ===== *)
theory Coding_Subagents
  imports Coding_Policy Subagents
begin

text \<open>
  The coding agent's sessions and subagents: the metadata a session carries and its construction
  (\<^verbatim>\<open>aihi/code_agent/sessions.py\<close>), the authority of a child (\<^verbatim>\<open>subagents/authority.py\<close>), and the roster of
  subagents (\<^verbatim>\<open>subagents/registry.py\<close>, \<^verbatim>\<open>subagents/__init__.py\<close>). \<open>is_os\<close> says which of the errors that the
  file system raises are instances of \<^verbatim>\<open>OSError\<close>; \<open>wrap\<close> makes the opaque value that the harness passes on
  from a context of the application, \<open>view\<close> reads it.
\<close>

section \<open>Sessions\<close>

definition metadata_error :: "string \<Rightarrow> exn" where
  "metadata_error m = Exn (OtherError ''CodingSessionMetadataError'') m"

record coding_metadata =
  cmd_workspace :: string
  cmd_provider :: string
  cmd_model :: string

definition RESERVED_KEYS :: "string list" where
  "RESERVED_KEYS = [''cwd'', ''provider'', ''model'']"

definition required_metadata :: "jval \<Rightarrow> string \<Rightarrow> exn + string" where
  "required_metadata v key =
     (case v of
        JStr s \<Rightarrow> if blank s then Inl (metadata_error (''Coding Session metadata '' @ key @ '' must be a non-empty string''))
          else Inr (strip s)
      | _ \<Rightarrow> Inl (metadata_error (''Coding Session metadata '' @ key @ '' must be a non-empty string'')))"

definition persisted_workspace :: "jval \<Rightarrow> exn + string" where
  "persisted_workspace v =
     (case v of
        JStr s \<Rightarrow> if blank s \<or> take 1 s \<noteq> ''/''
          then Inl (metadata_error ''Coding Session metadata cwd must be a non-empty absolute path'') else Inr s
      | _ \<Rightarrow> Inl (metadata_error ''Coding Session metadata cwd must be a non-empty absolute path''))"

definition canonical_workspace :: "file_system \<Rightarrow> (exn \<Rightarrow> bool) \<Rightarrow> string \<Rightarrow> exn + string" where
  "canonical_workspace fs is_os cwd =
     (if blank cwd then Inl (metadata_error ''Coding Session metadata cwd must be a non-empty path'')
      else case locate fs cwd of
          Inl e \<Rightarrow> Inl (if is_os e then metadata_error (''Coding Session metadata cwd is invalid: '' @ exn_text e) else e)
        | Inr workspace \<Rightarrow>
            if is_directory fs workspace then Inr workspace
            else Inl (metadata_error ''Coding Session metadata cwd must be a directory''))"

definition metadata_from_mapping :: "jobj \<Rightarrow> exn + coding_metadata" where
  "metadata_from_mapping md =
     bindR (persisted_workspace (get_or_none md ''cwd'')) (\<lambda>workspace.
     bindR (required_metadata (get_or_none md ''provider'') ''provider'') (\<lambda>provider.
     bindR (required_metadata (get_or_none md ''model'') ''model'') (\<lambda>model.
       Inr \<lparr>cmd_workspace = workspace, cmd_provider = provider, cmd_model = model\<rparr>)))"

definition metadata_from_session :: "session \<Rightarrow> exn + coding_metadata" where
  "metadata_from_session ses = metadata_from_mapping (ses_metadata ses)"

definition require_workspace :: "file_system \<Rightarrow> (exn \<Rightarrow> bool) \<Rightarrow> coding_metadata \<Rightarrow> exn + string" where
  "require_workspace fs is_os m = canonical_workspace fs is_os (cmd_workspace m)"

definition coding_session_data ::
  "file_system \<Rightarrow> (exn \<Rightarrow> bool) \<Rightarrow> string \<Rightarrow> string \<Rightarrow> string \<Rightarrow> jobj option \<Rightarrow> exn + jobj" where
  "coding_session_data fs is_os cwd provider model metadata =
     bindR (canonical_workspace fs is_os cwd) (\<lambda>workspace.
     bindR (required_metadata (JStr provider) ''provider'') (\<lambda>p.
     bindR (required_metadata (JStr model) ''model'') (\<lambda>m.
       Inr (dict_merge [(''cwd'', JStr workspace), (''provider'', JStr p), (''model'', JStr m)]
              (filter (\<lambda>q. fst q \<notin> set RESERVED_KEYS) (case metadata of None \<Rightarrow> [] | Some d \<Rightarrow> d))))))"

definition create_coding_session ::
  "file_system \<Rightarrow> (exn \<Rightarrow> bool) \<Rightarrow> string \<Rightarrow> string \<Rightarrow> string \<Rightarrow> string option \<Rightarrow> jobj option \<Rightarrow> nat option \<Rightarrow>
     ('z env_scheme, session) sm" where
  "create_coding_session fs is_os cwd provider model session_id metadata observer =
     bindE (liftE (coding_session_data fs is_os cwd provider model metadata))
       (\<lambda>md. create_session session_id (Some md) observer)"

section \<open>The authority of a child\<close>

primrec access_rank :: "access_mode \<Rightarrow> nat" where
  "access_rank ReadOnly = 0"
| "access_rank WorkspaceWrite = 1"
| "access_rank FullAccess = 2"

definition access_for_capabilities :: "string set \<Rightarrow> access_mode" where
  "access_for_capabilities caps =
     (if ''process.exec'' \<in> caps then FullAccess
      else if ''filesystem.write'' \<in> caps then WorkspaceWrite else ReadOnly)"

definition child_access :: "coding_context \<Rightarrow> string set \<Rightarrow> access_mode" where
  "child_access parent caps =
     (if cod_mode parent = Plan then ReadOnly
      else let requested = access_for_capabilities caps in
        if access_rank requested < access_rank (cod_access parent) then requested else cod_access parent)"

definition narrow_coding_child_context :: "file_system \<Rightarrow> coding_context \<Rightarrow> string set \<Rightarrow> exn + coding_context" where
  "narrow_coding_child_context fs parent caps =
     check_coding_context fs
       \<lparr>cod_workspace = cod_workspace parent, cod_access = child_access parent caps, cod_mode = cod_mode parent,
        cod_sandbox = cod_sandbox parent\<rparr>"

definition coding_child_context ::
  "file_system \<Rightarrow> (jval \<Rightarrow> coding_context option) \<Rightarrow> (coding_context \<Rightarrow> jval) \<Rightarrow> task_spec \<Rightarrow> tool_context \<Rightarrow>
     exn + child_run_context" where
  "coding_child_context fs view wrap spec ctx =
     (case view (ctx_app ctx) of
        None \<Rightarrow> Inl (Exn (Py ValueError) ''Coding subagents require a parent application context'')
      | Some parent \<Rightarrow>
          bindR (narrow_coding_child_context fs parent (ts_capabilities spec)) (\<lambda>child.
            Inr \<lparr>child_app_context = wrap child, child_run_profile = build_run_profile child\<rparr>))"

definition coding_child_session ::
  "file_system \<Rightarrow> (exn \<Rightarrow> bool) \<Rightarrow> string \<Rightarrow> string \<Rightarrow> string \<Rightarrow> task_spec \<Rightarrow> tool_context \<Rightarrow> ('z env_scheme, session) sm" where
  "coding_child_session fs is_os workspace provider model spec ctx =
     create_coding_session fs is_os workspace provider model None
       (Some [(''parent_session_id'', JStr (ctx_session ctx)), (''parent_run_id'', JStr (ctx_run ctx)),
              (''task_id'', JStr (ts_task spec)), (''depth'', JInt (ts_depth spec))]) None"

section \<open>The roster\<close>

record subagent_definition =
  sub_name :: string
  sub_description :: string
  sub_prompt_file :: string
  sub_capabilities :: "string set"
  sub_tools :: "string list option"
  sub_model :: "string option"

definition CODING_SUBAGENTS :: "subagent_definition list" where
  "CODING_SUBAGENTS =
     [\<lparr>sub_name = ''explore'', sub_description = ''Read-only search across the repository. Returns findings, not edits.'',
       sub_prompt_file = ''explore.md'', sub_capabilities = {''filesystem.read''},
       sub_tools = Some [''read_file'', ''glob'', ''grep''], sub_model = None\<rparr>,
      \<lparr>sub_name = ''code_review'', sub_description = ''Read-only review of the current diff for correctness defects.'',
       sub_prompt_file = ''code_review.md'', sub_capabilities = {''filesystem.read''},
       sub_tools = Some [''read_file'', ''glob'', ''grep'', ''git_status'', ''git_diff''], sub_model = None\<rparr>,
      \<lparr>sub_name = ''test'', sub_description = ''Write and run tests. Needs process execution, so it is off by default.'',
       sub_prompt_file = ''test.md'', sub_capabilities = {''filesystem.read'', ''filesystem.write'', ''process.exec''},
       sub_tools = Some [''read_file'', ''glob'', ''grep'', ''edit_file'', ''write_file'', ''bash''], sub_model = None\<rparr>,
      \<lparr>sub_name = ''general'', sub_description = ''A scoped objective inheriting this run'' @ [CHR 0x27] @ ''s capabilities.'',
       sub_prompt_file = ''general.md'', sub_capabilities = {}, sub_tools = None, sub_model = None\<rparr>]"

definition SUBAGENT_TYPE_NAMES :: "string set" where
  "SUBAGENT_TYPE_NAMES = sub_name ` set CODING_SUBAGENTS"

definition definition_for :: "string \<Rightarrow> exn + subagent_definition" where
  "definition_for name =
     (case find_first (\<lambda>d. sub_name d = name) CODING_SUBAGENTS of
        Some d \<Rightarrow> Inr d | None \<Rightarrow> Inl (Exn (Py KeyError) (''Unknown subagent type: '' @ name)))"

section \<open>A child has no more\<close>

lemma child_access_rank: "access_rank (child_access parent caps) \<le> access_rank (cod_access parent)"
  by (auto simp: child_access_def Let_def)

lemma child_access_plan: "cod_mode parent = Plan \<Longrightarrow> child_access parent caps = ReadOnly"
  by (simp add: child_access_def)

lemma child_access_requested: "access_rank (child_access parent caps) \<le> access_rank (access_for_capabilities caps)"
  by (auto simp: child_access_def Let_def)

lemma narrow_Inr:
  assumes "narrow_coding_child_context fs parent caps = Inr child"
  shows "cod_access child = child_access parent caps" "cod_mode child = cod_mode parent"
    "cod_sandbox child = cod_sandbox parent" "locate fs (cod_workspace parent) = Inr (cod_workspace child)"
  using assms by (auto simp: narrow_coding_child_context_def check_coding_context_def bindR_Inr_iff split: if_splits)

lemma rank_zero: "access_rank a = 0 \<longleftrightarrow> a = ReadOnly"
  by (cases a) simp_all

lemma rank_two: "2 \<le> access_rank a \<longleftrightarrow> a = FullAccess"
  by (cases a) simp_all

lemma mode_allows_mono: "access_rank a \<le> access_rank b \<Longrightarrow> mode_allows a spec \<Longrightarrow> mode_allows b spec"
  using rank_two [of a] rank_two [of b] by (auto simp: mode_allows_def)

text \<open>The metadata of a session says what it was made with.\<close>

lemma reserved_merge:
  assumes "k \<in> set RESERVED_KEYS"
  shows "dict_get (dict_merge d (filter (\<lambda>q. fst q \<notin> set RESERVED_KEYS) e)) k = dict_get d k"
proof (induction e arbitrary: d)
  case Nil
  then show ?case by (simp add: dict_merge_def)
next
  case (Cons q e)
  then show ?case using assms by (auto simp: dict_merge_def)
qed

end
