(* ===== verification/Coding_Properties.thy ===== *)
theory Coding_Properties
  imports Coding_Frames Coding_Subagents
begin

text \<open>
  The properties of the coding agent's parts: what an answer of its policy means, that a child has no more
  authority than its parent, that frames come back, and what the ledger of reads knows.
\<close>

section \<open>The policy\<close>

text \<open>C7: Whatever the clock does during the call, CodeAgentPolicy.evaluate answers Allow only for an
  application context of the coding agent, when no path, argument or command of the input names a secret,
  and in strict mode only with the capabilities leased. A privileged tool is allowed neither in plan mode
  nor under read-only access, whatever was approved, and otherwise only by an unexpired approval, a lease,
  full access, or as a local edit that needs file capabilities only and executes nothing.\<close>

theorem coding_policy_justified:
  assumes "coding_evaluate fs view spec inp c w = (Inr d, w')" and "dec_effect d = Allow"
  shows "\<exists>app. view (perm_app c) = Some app \<and>
    (\<forall>p \<in> set (path_candidates inp). \<exists>resolved. resolve_from fs (cod_workspace app) p = Inr resolved \<and> \<not> names_secret p resolved) \<and>
    (require_capability_lease c \<longrightarrow>
       required_capabilities spec = [] \<or> lease_evidence c (required_capabilities spec) w w') \<and>
    (privileged spec \<longrightarrow> cod_mode app = Execute \<and> cod_access app \<noteq> ReadOnly \<and>
       (approval_evidence c (spec_name spec) w w' \<or> lease_evidence c (required_capabilities spec) w w' \<or>
        cod_access app = FullAccess \<or> (local_file_write spec \<and> \<not> requires_execution spec)))"
proof (rule coding_evaluate_Allow [OF assms])
  fix app
  assume app: "view (perm_app c) = Some app" and paths: "sensitive_path fs (cod_workspace app) (path_candidates inp) = Inr False"
    and ceiling: "ceiling_denial app spec = None" and run: "evidence_decision (cod_access app) spec c w = (Inr d, w')"
  show ?thesis
    using app sensitive_path_False [OF paths] ceiling [unfolded ceiling_None] evidence_decision_Allow [OF run assms(2)]
    unfolding mode_allows_def by blast
qed

definition demo_coding_context :: coding_context where
  "demo_coding_context = \<lparr>cod_workspace = ''/w'', cod_access = FullAccess, cod_mode = Execute,
     cod_sandbox = \<lparr>sbx_name = ''local'', sbx_unsafe = True, sbx_filesystem = False, sbx_network = False, sbx_writes = False,
       sbx_process = False, sbx_mechanism = ''unspecified'', sbx_image = None, sbx_network_mode = None, sbx_mount = None\<rparr>\<rparr>"

definition demo_files :: file_system where
  "demo_files = \<lparr>locate = Inr, resolve_from = (\<lambda>workspace p. Inr (workspace @ ''/'' @ p)), is_directory = (\<lambda>_. True)\<rparr>"

definition demo_bash :: tool_spec where
  "demo_bash = define_tool ''bash'' ''Run a command'' [] False True [''process.exec''] 60 IdempotencyNone"

definition demo_permissions :: permission_context where
  "demo_permissions = \<lparr>perm_leases = [], perm_approvals = [], require_capability_lease = False, perm_run = None, perm_app = JNull\<rparr>"

abbreviation demo_command :: jobj where
  "demo_command \<equiv> [(''command'', JStr ''ls'')]"

lemma demo_no_secret: "names_secret ''ls'' ''/w/ls'' = False"
  by code_simp

lemma demo_bash_facts: "privileged demo_bash" "requires_execution demo_bash" "required_capabilities demo_bash = [''process.exec'']"
  by (simp_all add: privileged_def requires_execution_def demo_bash_def define_tool_def)

lemma demo_allowed:
  assumes "cod_access app = FullAccess" and "cod_mode app = Execute" and "cod_workspace app = ''/w''"
  shows "coding_evaluate demo_files (\<lambda>_. Some app) demo_bash demo_command demo_permissions w =
    (Inr (access_decision FullAccess demo_bash), w)"
proof -
  have paths: "path_candidates demo_command = [''ls'']" by (simp add: path_candidates_def input_texts_def)
  have "sensitive_path demo_files ''/w'' (path_candidates demo_command) = Inr False"
    using demo_no_secret unfolding paths by (simp add: demo_files_def)
  moreover have "ceiling_denial app demo_bash = None" using assms(1,2) by (simp add: ceiling_None)
  moreover have "evidence_decision FullAccess demo_bash demo_permissions w = (Inr (access_decision FullAccess demo_bash), w)"
    by (simp add: evidence_decision_def ask_lacking_def ask_granted_def ask_leased_def demo_permissions_def is_approved_def
        andE_def bindE_def retE_def)
  ultimately show ?thesis using assms(1,3) by (simp add: coding_evaluate_def liftE_def bindE_def retE_def)
qed

theorem coding_policy_justified_witness:
  "\<forall>w :: world. \<exists>d. coding_evaluate demo_files (\<lambda>_. Some demo_coding_context) demo_bash demo_command demo_permissions w = (Inr d, w) \<and>
    (\<exists>resolved. resolve_from demo_files ''/w'' ''ls'' = Inr resolved \<and> \<not> names_secret ''ls'' resolved)"
proof
  fix w :: world
  have run: "coding_evaluate demo_files (\<lambda>_. Some demo_coding_context) demo_bash demo_command demo_permissions w =
      (Inr (access_decision FullAccess demo_bash), w)"
    by (rule demo_allowed) (simp_all add: demo_coding_context_def)
  have "dec_effect (access_decision FullAccess demo_bash) = Allow" by (simp add: access_decision_def make_decision_def)
  from coding_policy_justified [OF run this] run
  show "\<exists>d. coding_evaluate demo_files (\<lambda>_. Some demo_coding_context) demo_bash demo_command demo_permissions w = (Inr d, w) \<and>
    (\<exists>resolved. resolve_from demo_files ''/w'' ''ls'' = Inr resolved \<and> \<not> names_secret ''ls'' resolved)"
    by (auto simp: path_candidates_def input_texts_def demo_coding_context_def)
qed

text \<open>A command is one candidate, so a secret directory in it is recognised only between two slashes or at the
  end of a component: this command names one and is not taken for sensitive.\<close>

lemma command_slips_through: "\<not> names_secret ''cd ~/.ssh;cat id_rsa'' ''/w/cd ~/.ssh;cat id_rsa''"
  by code_simp

section \<open>Children\<close>

text \<open>C13: The context that a coding child gets has at most the access mode of its parent and at most the one
  that its capabilities ask for, and the parent's run mode and sandbox. Whatever tool call the policy allows
  the child, on whatever approvals and leases, it allows the parent at the same moment. The workspace of
  the child is the parent's resolved once more, and this is stated where that leaves it unchanged, as
  resolving a resolved path does while its links stay as they are.\<close>

theorem coding_children_get_no_more:
  assumes "narrow_coding_child_context fs parent caps = Inr child" and "cod_workspace child = cod_workspace parent"
    and "coding_evaluate fs (\<lambda>_. Some child) spec inp c w = (Inr d, w')" and "dec_effect d = Allow"
  shows "access_rank (cod_access child) \<le> access_rank (cod_access parent) \<and>
    access_rank (cod_access child) \<le> access_rank (access_for_capabilities caps) \<and>
    cod_mode child = cod_mode parent \<and> cod_sandbox child = cod_sandbox parent \<and>
    (\<exists>d' v. coding_evaluate fs (\<lambda>_. Some parent) spec inp c w = (Inr d', v) \<and> dec_effect d' = Allow)"
proof (rule coding_evaluate_Allow [OF assms(3,4)])
  fix app
  assume app: "Some child = Some app"
    and paths: "sensitive_path fs (cod_workspace app) (path_candidates inp) = Inr False"
    and ceiling: "ceiling_denial app spec = None" and run: "evidence_decision (cod_access app) spec c w = (Inr d, w')"
  note child = narrow_Inr [OF assms(1)]
  have rank: "access_rank (cod_access child) \<le> access_rank (cod_access parent)" using child(1) child_access_rank by simp
  have "ceiling_denial parent spec = None"
    using ceiling app rank child(2) rank_zero [of "cod_access child"] rank_zero [of "cod_access parent"]
    unfolding ceiling_None by auto
  moreover have "\<exists>d' v. evidence_decision (cod_access parent) spec c w = (Inr d', v) \<and> dec_effect d' = Allow"
  proof (rule questions [of spec c w])
    fix b1 b2 b3 w1 w2 w3
    assume ask: "ask_lacking spec c w = (Inr b1, w1)" "ask_granted spec c w1 = (Inr b2, w2)" "ask_leased spec c w2 = (Inr b3, w3)"
    have "d = evidence_answer b1 b2 b3 (access_decision (cod_access child) spec)"
      using run app by (simp add: evidence_decision_run [OF ask])
    then have "dec_effect (evidence_answer b1 b2 b3 (access_decision (cod_access parent) spec)) = Allow"
      using assms(4) access_decision_Allow mode_allows_mono [OF rank] by (auto simp: evidence_answer_def split: if_splits)
    then show ?thesis by (simp add: evidence_decision_run [OF ask])
  qed
  ultimately have "\<exists>d' v. coding_evaluate fs (\<lambda>_. Some parent) spec inp c w = (Inr d', v) \<and> dec_effect d' = Allow"
    using paths app assms(2) by (auto simp: coding_evaluate_def liftE_def bindE_def retE_def)
  then show ?thesis using rank child child_access_requested by auto
qed

theorem coding_children_get_no_more_witness:
  "narrow_coding_child_context demo_files demo_coding_context {''process.exec''} = Inr demo_coding_context \<and>
   access_rank (cod_access demo_coding_context) \<le> access_rank (access_for_capabilities {''process.exec''})"
proof -
  have narrow: "narrow_coding_child_context demo_files demo_coding_context {''process.exec''} = Inr demo_coding_context"
    by (simp add: narrow_coding_child_context_def check_coding_context_def child_access_def access_for_capabilities_def
        demo_coding_context_def demo_files_def)
  have run: "coding_evaluate demo_files (\<lambda>_. Some demo_coding_context) demo_bash demo_command demo_permissions (undefined :: world) =
      (Inr (access_decision FullAccess demo_bash), undefined)"
    by (rule demo_allowed) (simp_all add: demo_coding_context_def)
  have "dec_effect (access_decision FullAccess demo_bash) = Allow" by (simp add: access_decision_def make_decision_def)
  with coding_children_get_no_more [OF narrow refl run] narrow show ?thesis by blast
qed

text \<open>The metadata of a coding session is read back as it was given; nothing passed along with it can
  take its place.\<close>

lemma coding_session_identity:
  assumes "coding_session_data fs is_os cwd provider model metadata = Inr md"
    and "\<And>p q. locate fs p = Inr q \<Longrightarrow> take 1 q = ''/''"
  shows "\<exists>workspace. locate fs cwd = Inr workspace \<and>
    metadata_from_mapping md = Inr \<lparr>cmd_workspace = workspace, cmd_provider = strip provider, cmd_model = strip model\<rparr>"
proof -
  obtain workspace where ws: "locate fs cwd = Inr workspace" and p: "\<not> blank provider" and m: "\<not> blank model"
    and md: "md = dict_merge [(''cwd'', JStr workspace), (''provider'', JStr (strip provider)), (''model'', JStr (strip model))]
        (filter (\<lambda>q. fst q \<notin> set RESERVED_KEYS) (case metadata of None \<Rightarrow> [] | Some d \<Rightarrow> d))"
    using assms(1)
    by (auto simp: coding_session_data_def bindR_Inr_iff canonical_workspace_def required_metadata_def
        split: if_splits sum.splits)
  have "dict_get md k = dict_get [(''cwd'', JStr workspace), (''provider'', JStr (strip provider)), (''model'', JStr (strip model))] k"
    if "k \<in> set RESERVED_KEYS" for k
    unfolding md by (rule reserved_merge [OF that])
  then have keys: "dict_get md ''cwd'' = Some (JStr workspace)" "dict_get md ''provider'' = Some (JStr (strip provider))"
    "dict_get md ''model'' = Some (JStr (strip model))"
    by (simp_all add: RESERVED_KEYS_def)
  have start: "take 1 workspace = ''/''" by (rule assms(2) [OF ws])
  then have "\<not> blank workspace" by (cases workspace) (auto simp: blank_def is_space_def)
  moreover have "blank (strip x) = blank x" for x using strip_Nil_iff [of "strip x"] by simp
  ultimately show ?thesis
    using ws start p m by (auto simp: metadata_from_mapping_def get_or_def keys persisted_workspace_def required_metadata_def)
qed

section \<open>Frames\<close>

text \<open>C25: What write_frame has written, one object after the other, read_frame reads back with the default
  limits: as many payloads, in the same order, byte for byte the UTF-8 of their JSON texts, and then the
  clean end of the stream.\<close>

theorem frames_come_back:
  assumes "mapE (write_frame dumps DEFAULT_MAX_FRAME_BYTES) payloads [] = (Inr us, out)"
  shows "\<exists>texts. mapR dumps payloads = Inr texts \<and>
    mapE (\<lambda>_. read_frame DEFAULT_MAX_FRAME_BYTES DEFAULT_MAX_HEADER_BYTES) payloads out =
      (Inr (map (\<lambda>t. Some (utf8_encode t)) texts), []) \<and>
    read_frame DEFAULT_MAX_FRAME_BYTES DEFAULT_MAX_HEADER_BYTES [] = (Inr None, [])"
  using write_frames_run [OF assms] read_frames_back read_frame_end mapR_Inr_length by (metis append_Nil)

theorem frames_come_back_witness:
  "\<exists>out. mapE (write_frame (\<lambda>_. Inr ''{}'') DEFAULT_MAX_FRAME_BYTES) [[], []] [] = (Inr [(), ()], out) \<and>
    mapE (\<lambda>_. read_frame DEFAULT_MAX_FRAME_BYTES DEFAULT_MAX_HEADER_BYTES) [[], [] :: jobj] out =
      (Inr [Some ''{}'', Some ''{}''], [])"
proof -
  have bytes: "utf8_encode ''{}'' = ''{}''" by code_simp
  then have wrote: "write_frame (\<lambda>_. Inr ''{}'') DEFAULT_MAX_FRAME_BYTES p out = (Inr (), out @ frame_bytes ''{}'')" for p and out :: string
    by (simp add: write_frame_run DEFAULT_MAX_FRAME_BYTES_def)
  have run: "mapE (write_frame (\<lambda>_. Inr ''{}'') DEFAULT_MAX_FRAME_BYTES) [[], []] [] =
      (Inr [(), ()], frame_bytes ''{}'' @ frame_bytes ''{}'')"
    by (simp add: wrote bindE_def retE_def)
  from frames_come_back [OF run] run show ?thesis by (auto simp: bytes)
qed

text \<open>A payload that is read is never longer than the limit, and is what stands behind the headers.\<close>

lemma frames_are_bounded:
  assumes "read_frame max_frame max_header s = (Inr (Some payload), rest)"
  shows "int (length payload) \<le> max_frame \<and> (\<exists>header. header \<noteq> [] \<and> s = header @ payload @ rest)"
  by (rule read_frame_splits [OF assms])

section \<open>The ledger\<close>

text \<open>C37: However reads are recorded and runs forgotten, the ledger holds at most the number of runs it was made
  for, it never says that a run has read a path that was not recorded for it, and it does say so of the path
  recorded last.\<close>

theorem ledger_knows_only_reads:
  assumes "new_ledger n = Inr l"
  shows "int (length (led_runs (fold ledger_step ops l))) \<le> n \<and>
    (has_read run path (fold ledger_step ops l) \<longrightarrow> Note run path \<in> set ops) \<and>
    has_read run path (fold ledger_step (ops @ [Note run path]) l)"
proof -
  have l: "0 < n" "l = \<lparr>led_max = nat n, led_runs = []\<rparr>" using assms by (auto simp: new_ledger_def split: if_splits)
  then have "ledger_ok {} l" by (simp add: ledger_ok_def)
  from ledger_history_ok [OF this, of ops]
  have ok: "ledger_ok {(run, path). Note run path \<in> set ops} (fold ledger_step ops l)" by simp
  have "led_max (fold ledger_step ops k) = led_max k" for k
  proof (induction ops arbitrary: k)
    case (Cons op ops)
    then show ?case
      by (cases op) (auto simp: record_read_def forget_run_def Let_def split: option.split)
  qed simp
  then have "led_max (fold ledger_step ops l) = nat n" by (simp add: l(2))
  then have "length (led_runs (fold ledger_step ops l)) \<le> nat n" using ok by (simp add: ledger_ok_def)
  then have "int (length (led_runs (fold ledger_step ops l))) \<le> n" using l(1) by linarith
  moreover have "Note run path \<in> set ops" if "has_read run path (fold ledger_step ops l)"
  proof -
    obtain paths where "dict_get (led_runs (fold ledger_step ops l)) run = Some paths" "path \<in> paths"
      using \<open>has_read run path (fold ledger_step ops l)\<close> by (auto simp: has_read_def split: option.splits)
    then have "(run, paths) \<in> set (led_runs (fold ledger_step ops l))" "path \<in> paths" by (auto dest: map_of_SomeD)
    then show ?thesis using ok unfolding ledger_ok_def by blast
  qed
  moreover have "has_read run path (record_read run path k)" for k
    by (auto simp: has_read_def record_read_def Let_def split: option.split)
  ultimately show ?thesis by simp
qed

theorem ledger_knows_only_reads_witness:
  "\<exists>l. new_ledger 1 = Inr l \<and> int (length (led_runs (fold ledger_step [Note ''r'' ''a'', Note ''s'' ''b''] l))) \<le> 1 \<and>
    \<not> has_read ''s'' ''a'' (fold ledger_step [Note ''r'' ''a'', Note ''s'' ''b''] l)"
proof -
  have new: "new_ledger 1 = Inr \<lparr>led_max = 1, led_runs = []\<rparr>" by (simp add: new_ledger_def)
  from ledger_knows_only_reads [OF new, of "[Note ''r'' ''a'', Note ''s'' ''b'']" "''s''" "''a''"] new
  show ?thesis by auto
qed

end
