(* ===== verification/Spec2Isabelle.thy ===== *)
theory Spec2Isabelle
  imports Session_Properties Snapshots Runtime_Properties Context_Properties Agent_Properties Memory_Properties Coding_Properties
begin

text \<open>
  AIHI is a harness for language-model agents and a coding agent built on it. This development models the
  packages \<^verbatim>\<open>aihi.models\<close> and \<^verbatim>\<open>aihi.agent\<close> (\<^verbatim>\<open>src/packages/aihi/models\<close>, \<^verbatim>\<open>src/packages/aihi/agent\<close>) and
  the authority of \<^verbatim>\<open>aihi.code_agent\<close> (\<^verbatim>\<open>src/packages/aihi/code-agent\<close>); paths below are relative to
  \<^verbatim>\<open>aihi/agent\<close> unless they begin with \<^verbatim>\<open>models\<close> or \<^verbatim>\<open>code_agent\<close>.

  \<^bold>\<open>The program.\<close> A session is an append-only log of events in an event store, with what is projected
  from it: the messages a model sees, the authorization state, the artifacts. A run is driven by the
  coordinator: it assembles the context, compacts it when it does not fit, streams one answer of the
  provider, and executes the tool calls in it. Every call goes through the dispatcher: lookup, input
  validation, preparation, the policy engine, the hooks, perhaps a human's approval, and only then the
  tool's body; each stage is an event of the log. A run can suspend on an approval and be resumed from the
  log alone. A tool may delegate to subagents, child runs in sessions of their own under a task graph
  that bounds their authority. Memory outlives runs: candidates are extracted from what a run said, and a
  governed write makes one durable in a store that later runs retrieve from.

  \<^bold>\<open>Values, effects, tasks.\<close> \<open>Aihi_Prelude\<close> has the exceptions, the two effect types (\<open>exn + 'a\<close>, and
  \<open>('s, 'a) sm\<close> for methods with state), Python dictionaries, and the locale \<open>step_order\<close>: a reflexive,
  transitive relation between states that a computation respects, closed under all combinators. \<open>Py_Values\<close>,
  \<open>Py_Datetime\<close> and \<open>Ids\<close> have JSON values, instants, the clock, the random source and \<^verbatim>\<open>new_id\<close>. \<open>Tasks\<close> has
  coroutines with \<^verbatim>\<open>gather\<close> under any schedule, the rely-guarantee calculus for them, and \<open>run_task\<close>.

  \<^bold>\<open>Theories and code.\<close>
  \<^item> \<open>Events\<close>: \<^verbatim>\<open>_core/events.py\<close>, \<^verbatim>\<open>_core/schema.py\<close>; \<open>Model_Types\<close>: \<^verbatim>\<open>models/types.py\<close>, \<^verbatim>\<open>models/serialization.py\<close>.
  \<^item> \<open>Event_Store\<close>, \<open>Sqlite_Store\<close>, \<open>Stores\<close>: \<^verbatim>\<open>sessions/store.py\<close>, the contract \<open>event_store\<close> and both stores.
  \<^item> \<open>Leases\<close>, \<open>Policy_Engine\<close>, \<open>Approvals\<close>: \<^verbatim>\<open>policy/\<close>; \<open>Tools\<close>: \<^verbatim>\<open>tools/spec.py\<close>, \<^verbatim>\<open>base.py\<close>, \<^verbatim>\<open>registry.py\<close>.
  \<^item> \<open>Session_Messages\<close>, \<open>Sessions\<close>, \<open>Snapshots\<close>: \<^verbatim>\<open>sessions/session.py\<close>, \<^verbatim>\<open>sessions/snapshots.py\<close>;
    \<open>Session_Facts\<close>, \<open>Session_Theorems\<close>, \<open>Session_Authorization\<close>, \<open>Session_Repair\<close>, \<open>Session_Frames\<close> prove what
    its methods do to the log.
  \<^item> \<open>Artifacts\<close>: \<^verbatim>\<open>artifacts/store.py\<close>; \<open>Runtime_Env\<close>: the state of a run and \<^verbatim>\<open>_core/awaits.py\<close>; \<open>Hook_Bus\<close>:
    \<^verbatim>\<open>hooks/bus.py\<close>; \<open>Dispatcher\<close>: \<^verbatim>\<open>tools/dispatcher.py\<close>; \<open>Run_State\<close>: \<^verbatim>\<open>runtime/state.py\<close>.
  \<^item> \<open>Run_Log\<close>, \<open>Tool_Execution\<close>, \<open>Run_Control\<close>, \<open>Model_Turn\<close>, \<open>Run_Loop\<close>: \<^verbatim>\<open>runtime/coordinator.py\<close>, from its
    projections of the log to \<^verbatim>\<open>run\<close>, \<^verbatim>\<open>resume\<close> and \<^verbatim>\<open>abandon\<close>.
  \<^item> \<open>Context_Types\<close>, \<open>Context_Assembly\<close>, \<open>Context_State\<close>, \<open>Context_Summary\<close>, \<open>Context_Projector\<close>,
    \<open>Context_Compaction\<close>: \<^verbatim>\<open>context/\<close> and \<^verbatim>\<open>models/tokens.py\<close>.
  \<^item> \<open>Agent_Types\<close>, \<open>Task_Graph\<close>, \<open>Graph_Snapshots\<close>, \<open>Subagents\<close>: \<^verbatim>\<open>agents/types.py\<close>, \<^verbatim>\<open>agents/graph.py\<close>,
    \<^verbatim>\<open>agents/subagent.py\<close>.
  \<^item> \<open>Regular_Expressions\<close>: the matcher of Python's \<^verbatim>\<open>re\<close>; \<open>Memory_Redaction\<close>, \<open>Memory_Types\<close>, \<open>Memory_Store\<close>,
    \<open>Memory_Service\<close>: \<^verbatim>\<open>memory/\<close>, from the redactor to what a run reads and proposes; \<open>Memory_Facts\<close> and
    \<open>Memory_Operations\<close> prove what each operation does to the store.
  \<^item> \<open>Coding_Policy\<close>: \<^verbatim>\<open>code_agent/permissions.py\<close> and the descriptor of \<^verbatim>\<open>sandbox/base.py\<close>;
    \<open>Coding_Subagents\<close>: \<^verbatim>\<open>code_agent/sessions.py\<close>, \<^verbatim>\<open>code_agent/subagents\<close>; \<open>Coding_Frames\<close>:
    \<^verbatim>\<open>code_agent/framing.py\<close>, \<^verbatim>\<open>code_agent/tools/ledger.py\<close>.

  \<^bold>\<open>Interfaces.\<close> \<open>event_store\<close> (laws of append and read over an abstract log) is interpreted on the
  in-memory store, on the SQLite store and on their sum; \<open>listed_store\<close> extends it by the list of sessions and
  the exceptions of refusals, and \<open>store_pair\<close> compares the two stores over it.
  \<open>event_projection\<close> and \<open>monotone_projection\<close> are the projections of a log, interpreted on the authorization
  state and on the open tool calls. \<open>step_order\<close>, \<open>loop_order\<close>, \<open>rely_guarantee\<close>, \<open>event_recorder\<close>,
  \<open>run_order\<close>, \<open>turn_order\<close>, \<open>frame_order\<close> and \<open>whole_run\<close> say what a relation between the states of a run has to
  respect to be respected by ever larger parts of it, up to \<^verbatim>\<open>RunCoordinator.run\<close>; \<open>log_order\<close> and
  \<open>run_log_order\<close> do so for what is added to the log. Their interpretations are the guarantees of a run.

  \<^bold>\<open>What is shown.\<close> The theories \<open>Core_Properties\<close>, \<open>Store_Properties\<close>, \<open>Session_Properties\<close>,
  \<open>Context_Properties\<close>, \<open>Runtime_Properties\<close>, \<open>Agent_Properties\<close>, \<open>Memory_Properties\<close> and
  \<open>Coding_Properties\<close> state the properties over the lemmas of the component theories, each with a concrete
  instance.
  \<^item> The log: both stores refine the abstract log and answer alike, an append is all or nothing, histories
    only grow, a session agrees with its log, its messages follow from the log, a fork copies a prefix, a
    repair closes what was lost.
  \<^item> Authorization: a one-shot grant is spent once, a revocation is final, the default policy allows only
    what a lease or an approval justifies, previews hide secrets, unknown schema versions are refused.
  \<^item> Runs, whatever tools, hooks, providers and schedules do: no tool starts without a recorded decision that
    allows it, a call is started exactly when the decision on it is allow, the recorded states are a path of
    the state machine in which an end is last, the recorded calls of the model stay within \<^verbatim>\<open>max_turns\<close>, and
    the result of a run says what its log says.
  \<^item> Context: compaction keeps the end of the conversation word for word, never splits an exchange, never
    takes a model's claim for a receipt, and what it carries is bounded.
  \<^item> Subagents: any use of a task graph, restores included, keeps every task within its root's authority;
    every operation but restore moves it by the table; a cancellation ends when the event sink answers;
    validation is exact; a snapshot restores; and however calls of the tool interleave, every task has at
    most the tool's authority.
  \<^item> Memory: a write adds one record within the caller's access or nothing, a deletion leaves a tombstone that
    stays, what either changed is audited when it returns, and a retrieval returns only live records the caller may read,
    ranked before the limit is applied.
  \<^item> The coding agent: its policy allows a privileged tool only outside plan mode and read-only access and
    for a stated reason, a child is never allowed what its parent is not, frames come back as written, and
    the ledger knows only reads that were recorded.

  \<^bold>\<open>Bounds.\<close> Integers are Python's. Costs, ratios and time limits are exact rationals. The loops of the
  program end by measures (the turns of a run by \<^verbatim>\<open>max_turns\<close> and the calls recorded, the compaction by the
  groups left, the search of a graph by the nodes not yet entered). Only the walks over the descendants of
  a task take fuel, the number of nodes and one more; \<open>lower_fuel\<close> and \<open>cancel_below_ends\<close> show that it is
  enough in every graph that satisfies the invariant. Tasks are finite: a provider's stream or a handler
  that never ends is not modelled; a time limit is one more way for outside code to end.

  \<^bold>\<open>Parameters.\<close> Providers, tool bodies, hook handlers, approval resolvers, recorders, contributors, event
  sinks, extractors, runners of subagents and their factories, JSON text and hashes of it are arguments. Text is
  Latin-1. One method under a lock is one step. Files are a map from names to bytes;
  for the coding agent the resolution of paths is a parameter.

  \<^bold>\<open>Not modelled.\<close> Telemetry (a side channel), the builder (wiring), HTTP clients of the providers,
  the MCP client and server, plugins, skills, sandboxes and the evaluation harness (processes, file trees
  and network), and the coding agent's worker server, configuration and tools; the terminal client is TypeScript.
\<close>

end
